(* ===== verification/Prelude.thy ===== *)
theory Prelude
  imports Main "HOL-Library.Word" "HOL-Library.Char_ord" "HOL-Library.List_Lexorder" "HOL-Library.Code_Target_Nat"
begin

text \<open>
  The prelude: the error monad and the loop with early return in which the operations of the
  program are written, the decimal and hexadecimal text of integers (the verbs of package fmt
  the code uses), strings.Join, and the lemmas on them and on lists that the components share.
  Go strings are byte strings, so they are \<open>string\<close> (lists of \<open>char\<close>) here; Go's string
  order is the byte-wise lexicographic one, which is what the imported theories instantiate.
\<close>

section \<open>Automation\<close>

named_theorems go_simps \<open>unfolding and evaluation of the program's small functions\<close>
named_theorems keeps \<open>an operation preserves an invariant\<close>

section \<open>Errors as values\<close>

definition ebind :: "'e + 'a \<Rightarrow> ('a \<Rightarrow> 'e + 'b) \<Rightarrow> 'e + 'b" where
  "ebind r f = (case r of Inl e \<Rightarrow> Inl e | Inr x \<Rightarrow> f x)"

lemma ebind_simps [simp]: "ebind (Inl e) f = Inl e" "ebind (Inr x) f = f x"
  by (simp_all add: ebind_def)

lemma ebind_eq_Inr [simp]: "ebind r f = Inr y \<longleftrightarrow> (\<exists>x. r = Inr x \<and> f x = Inr y)"
  by (cases r) auto

lemma ebind_eq_Inl: "ebind r f = Inl e \<longleftrightarrow> r = Inl e \<or> (\<exists>x. r = Inr x \<and> f x = Inl e)"
  by (cases r) auto

lemma ebind_cong [fundef_cong]:
  "r = r' \<Longrightarrow> (\<And>x. r' = Inr x \<Longrightarrow> f x = g x) \<Longrightarrow> ebind r f = ebind r' g"
  by (cases r') auto

text \<open>Replacing the error of a failed call, as \<open>fmt.Errorf("...: %w", err)\<close> does.\<close>

definition emap_err :: "('e \<Rightarrow> 'f) \<Rightarrow> 'e + 'a \<Rightarrow> 'f + 'a" where
  "emap_err f r = (case r of Inl e \<Rightarrow> Inl (f e) | Inr x \<Rightarrow> Inr x)"

lemma emap_err_simps [simp]: "emap_err f (Inl e) = Inl (f e)" "emap_err f (Inr x) = Inr x"
  by (simp_all add: emap_err_def)

lemma emap_err_eq_Inr [simp]: "emap_err f r = Inr x \<longleftrightarrow> r = Inr x"
  by (cases r) auto

text \<open>A \<open>for ... range\<close> loop whose body may return an error early.\<close>

fun efold :: "('s \<Rightarrow> 'a \<Rightarrow> 'e + 's) \<Rightarrow> 's \<Rightarrow> 'a list \<Rightarrow> 'e + 's" where
  "efold f s [] = Inr s"
| "efold f s (x # xs) = ebind (f s x) (\<lambda>s'. efold f s' xs)"

lemma efold_keeps:
  assumes "efold f s xs = Inr s'" and "P s"
    and "\<And>s x s'. x \<in> set xs \<Longrightarrow> P s \<Longrightarrow> f s x = Inr s' \<Longrightarrow> P s'"
  shows "P s'"
  using assms
proof (induction xs arbitrary: s)
  case Nil
  then show ?case by simp
next
  case (Cons x xs)
  then obtain t where "f s x = Inr t" "efold f t xs = Inr s'" by auto
  with Cons show ?case by (metis list.set_intros)
qed

lemma efold_append: "efold f s (xs @ ys) = ebind (efold f s xs) (\<lambda>t. efold f t ys)"
  by (induction xs arbitrary: s) (auto simp: ebind_def split: sum.splits)

text \<open>What each turn of a loop establishes for its element, if later turns keep it.\<close>

lemma efold_holds:
  assumes "efold f s xs = Inr s'" and "P s"
    and "\<And>s x s'. x \<in> set xs \<Longrightarrow> P s \<Longrightarrow> f s x = Inr s' \<Longrightarrow> P s' \<and> Q x s'"
    and "\<And>s x y s'. y \<in> set xs \<Longrightarrow> P s \<Longrightarrow> Q x s \<Longrightarrow> f s y = Inr s' \<Longrightarrow> Q x s'"
  shows "P s' \<and> (\<forall>x \<in> set xs. Q x s')"
  using assms
proof (induction xs arbitrary: s)
  case Nil
  show ?case using Nil.prems(1,2) by simp
next
  case (Cons x xs)
  obtain t where t: "f s x = Inr t" "efold f t xs = Inr s'" using Cons.prems(1) by auto
  have p: "P t \<and> Q x t" by (rule Cons.prems(3) [OF _ Cons.prems(2) t(1)]) simp
  have "P s' \<and> Q x s'"
    using t(2) p
  proof (rule efold_keeps)
    show "P v \<and> Q x v" if "y \<in> set xs" "P u \<and> Q x u" "f u y = Inr v" for u y v
      using Cons.prems(3) [of y u v] Cons.prems(4) [of y u x v] that by simp
  qed
  moreover have "P s' \<and> (\<forall>y \<in> set xs. Q y s')"
  proof (rule Cons.IH [OF t(2)])
    show "P v \<and> Q y v" if "y \<in> set xs" "P u" "f u y = Inr v" for u y v
      using Cons.prems(3) [of y u v] that by simp
    show "Q z v" if "y \<in> set xs" "P u" "Q z u" "f u y = Inr v" for u z y v
      using Cons.prems(4) [of y u z v] that by simp
  qed (use p in simp)
  ultimately show ?case by simp
qed

lemma efold_each:
  assumes "efold f s xs = Inr s'"
    and "\<And>s x s'. x \<in> set xs \<Longrightarrow> f s x = Inr s' \<Longrightarrow> Q x s'"
    and "\<And>s x y s'. y \<in> set xs \<Longrightarrow> Q x s \<Longrightarrow> f s y = Inr s' \<Longrightarrow> Q x s'"
  shows "\<forall>x \<in> set xs. Q x s'"
proof -
  have "(\<lambda>_. True) s' \<and> (\<forall>x \<in> set xs. Q x s')"
    by (rule efold_holds [where P = "\<lambda>_. True", OF assms(1)]) (blast intro: assms(2,3))+
  then show ?thesis by simp
qed

text \<open>A measure that every successful step moves by a known amount is moved by the sum.\<close>

lemma efold_measure:
  assumes "efold f s xs = Inr s'"
    and "\<And>s x s'. x \<in> set xs \<Longrightarrow> f s x = Inr s' \<Longrightarrow> m s' = m s + (d x :: nat)"
  shows "m s' = m s + sum_list (map d xs)"
  using assms
proof (induction xs arbitrary: s)
  case Nil
  then show ?case by simp
next
  case (Cons x xs)
  then obtain t where t: "f s x = Inr t" "efold f t xs = Inr s'" by auto
  have "m s' = m t + sum_list (map d xs)" by (rule Cons.IH [OF t(2)]) (use Cons.prems(2) in auto)
  moreover have "m t = m s + d x" using Cons.prems(2) t(1) by simp
  ultimately show ?case by simp
qed

section \<open>Text\<close>

definition digit :: "nat \<Rightarrow> char" where
  "digit n = (if n < 10 then char_of (48 + n) else char_of (87 + n))"

definition is_digit :: "char \<Rightarrow> bool" where
  "is_digit c \<longleftrightarrow> 48 \<le> (of_char c :: nat) \<and> (of_char c :: nat) \<le> 57"

definition digit_val :: "char \<Rightarrow> nat" where
  "digit_val c = of_char c - 48"

text \<open>The \<open>%d\<close> of a non-negative integer.\<close>

fun show_nat :: "nat \<Rightarrow> string" where
  "show_nat n = (if n < 10 then [digit n] else show_nat (n div 10) @ [digit (n mod 10)])"

declare show_nat.simps [simp del]

definition show_int :: "int \<Rightarrow> string" where
  "show_int i = (if i < 0 then CHR ''-'' # show_nat (nat (- i)) else show_nat (nat i))"

text \<open>The \<open>%x\<close> of a non-negative integer, and its zero-padded form \<open>%0wx\<close>.\<close>

fun show_hex :: "nat \<Rightarrow> string" where
  "show_hex n = (if n < 16 then [digit n] else show_hex (n div 16) @ [digit (n mod 16)])"

declare show_hex.simps [simp del]

definition pad_left :: "nat \<Rightarrow> char \<Rightarrow> string \<Rightarrow> string" where
  "pad_left w c s = replicate (w - length s) c @ s"

definition show_hex_pad :: "nat \<Rightarrow> nat \<Rightarrow> string" where
  "show_hex_pad w n = pad_left w (CHR ''0'') (show_hex n)"

text \<open>strings.Join.\<close>

fun join :: "string \<Rightarrow> string list \<Rightarrow> string" where
  "join sep [] = []"
| "join sep [x] = x"
| "join sep (x # y # xs) = x @ sep @ join sep (y # xs)"

text \<open>The value of a string of decimal digits.\<close>

definition digits_val :: "string \<Rightarrow> nat" where
  "digits_val s = foldl (\<lambda>n c. 10 * n + digit_val c) 0 s"

lemma of_char_digit: "n < 10 \<Longrightarrow> (of_char (digit n) :: nat) = 48 + n"
  by (simp add: digit_def)

lemma is_digit_digit [simp]: "n < 10 \<Longrightarrow> is_digit (digit n)"
  by (simp add: is_digit_def of_char_digit)

lemma digit_val_digit [simp]: "n < 10 \<Longrightarrow> digit_val (digit n) = n"
  by (simp add: digit_val_def of_char_digit)

lemma show_nat_nonempty [simp]: "show_nat n \<noteq> []" "[] \<noteq> show_nat n"
  by (subst show_nat.simps, simp)+

lemma show_nat_digits: "\<forall>c \<in> set (show_nat n). is_digit c"
proof (induction n rule: show_nat.induct)
  case (1 n)
  then show ?case by (subst show_nat.simps) auto
qed

lemma digits_val_snoc: "digits_val (s @ [c]) = 10 * digits_val s + digit_val c"
  by (simp add: digits_val_def)

lemma digits_val_show_nat [simp]: "digits_val (show_nat n) = n"
proof (induction n rule: show_nat.induct)
  case (1 n)
  show ?case
  proof (cases "n < 10")
    case True
    then show ?thesis by (subst show_nat.simps) (simp add: digits_val_def)
  next
    case False
    with 1 show ?thesis by (subst show_nat.simps) (simp add: digits_val_snoc)
  qed
qed

lemma show_nat_inj [simp]: "show_nat m = show_nat n \<longleftrightarrow> m = n"
  by (metis digits_val_show_nat)

text \<open>No leading zero: the first digit of a number with several digits is not \<open>0\<close>.\<close>

lemma show_nat_hd: "1 < length (show_nat n) \<Longrightarrow> hd (show_nat n) \<noteq> CHR ''0''"
proof (induction n rule: show_nat.induct)
  case (1 n)
  show ?case
  proof (cases "n < 10")
    case True
    with "1.prems" show ?thesis by (simp add: show_nat.simps [of n])
  next
    case False
    then have eq: "show_nat n = show_nat (n div 10) @ [digit (n mod 10)]"
      by (subst show_nat.simps) simp
    show ?thesis
    proof (cases "n div 10 < 10")
      case True
      have "digit (n div 10) \<noteq> CHR ''0''"
        using of_char_digit [OF True] False by (auto simp: digit_def)
      then show ?thesis using True eq by (simp add: show_nat.simps [of "n div 10"])
    next
      case False': False
      have "1 < length (show_nat (n div 10))"
        using False' by (subst show_nat.simps) (simp add: Suc_lessI)
      then show ?thesis using 1 False eq by simp
    qed
  qed
qed

lemma show_int_inj: "show_int i = show_int j \<longleftrightarrow> i = j"
proof -
  have neg: "CHR ''-'' # s \<noteq> show_nat n" for s n
    using show_nat_digits [of n] by (auto simp: is_digit_def dest: sym)
  show ?thesis
    by (auto simp: show_int_def neg neg [symmetric] split: if_splits)
qed

lemma digit_ne [simp]: "n < 10 \<Longrightarrow> digit n = c \<Longrightarrow> is_digit c"
  by auto

section \<open>Lists\<close>

text \<open>The one-based loop \<open>for i := 1; i <= n; i++\<close> over a Go int.\<close>

definition one_to :: "int \<Rightarrow> nat list" where
  "one_to n = [1..<Suc (nat n)]"

lemma length_one_to [simp]: "length (one_to n) = nat n"
  by (simp add: one_to_def)

lemma set_one_to [simp]: "set (one_to n) = {i. 1 \<le> i \<and> i \<le> nat n}"
  by (auto simp: one_to_def)

text \<open>Appending with \<open>append(m[k], x)\<close> to a map of slices, where a missing key is nil.\<close>

definition map_append :: "('k \<Rightarrow> 'v list) \<Rightarrow> 'k \<Rightarrow> 'v list \<Rightarrow> ('k \<Rightarrow> 'v list)" where
  "map_append m k vs = m(k := m k @ vs)"

lemma map_append_apply [simp]: "map_append m k vs j = (if j = k then m k @ vs else m j)"
  by (simp add: map_append_def)

lemma foldl_keeps:
  assumes "P s" and "\<And>s x. x \<in> set xs \<Longrightarrow> P s \<Longrightarrow> P (f s x)"
  shows "P (foldl f s xs)"
  using assms by (induction xs arbitrary: s) auto

section \<open>Aligned blocks of numbers\<close>

lemma block_le: "d dvd b \<Longrightarrow> d dvd t \<Longrightarrow> b < t \<Longrightarrow> b + d \<le> (t::nat)"
proof -
  assume "d dvd b" "d dvd t" "b < t"
  then obtain k m where km: "b = d * k" "t = d * m" by (auto elim!: dvdE)
  with \<open>b < t\<close> have "Suc k \<le> m" by simp
  then have "d * Suc k \<le> d * m" by (rule mult_le_mono2)
  then show ?thesis using km by simp
qed

lemma div_block_iff:
  assumes "0 < d" "d dvd b"
  shows "b div d = a div d \<longleftrightarrow> b \<le> a \<and> a < b + (d::nat)"
proof -
  obtain k where k: "b = d * k" using assms(2) by (rule dvdE)
  have "k = a div d \<longleftrightarrow> d * k \<le> a \<and> a < d * k + d"
    using assms(1) div_nat_eqI [of d k a] dividend_less_div_times [of d a] div_times_less_eq_dividend [of a d]
    by (auto simp: mult.commute)
  then show ?thesis using assms(1) k by simp
qed

end
