(* ===== verification/Netip.thy ===== *)
theory Netip
  imports Prelude
begin

text \<open>
  Package net/netip of the Go standard library, as far as the allocators, the topology builder
  and the compilers use it: addresses (the zero address, IPv4, IPv6; zones are never used),
  prefixes with their \<open>-1\<close> length for an invalid one, \<open>Masked\<close>, \<open>Contains\<close>, \<open>Next\<close>,
  \<open>Unmap\<close>, \<open>As16\<close>, \<open>Compare\<close>, \<open>String\<close> and \<open>ParsePrefix\<close>.
\<close>

unbundle bit_operations_syntax

section \<open>Addresses\<close>

datatype addr = NoAddr | V4 "32 word" | V6 "128 word"

fun bit_len :: "addr \<Rightarrow> nat" where
  "bit_len NoAddr = 0"
| "bit_len (V4 _) = 32"
| "bit_len (V6 _) = 128"

fun anum :: "addr \<Rightarrow> nat" where
  "anum NoAddr = 0"
| "anum (V4 w) = unat w"
| "anum (V6 w) = unat w"

lemma addr_eqI: "bit_len a = bit_len b \<Longrightarrow> anum a = anum b \<Longrightarrow> a = b"
  by (cases a; cases b) (auto simp: word_unat_eq_iff)

lemma anum_lt: "a \<noteq> NoAddr \<Longrightarrow> anum a < 2 ^ bit_len a"
proof (cases a)
  case (V4 w)
  then show ?thesis using unsigned_less [of w, where ?'a = nat] by simp
next
  case (V6 w)
  then show ?thesis using unsigned_less [of w, where ?'a = nat] by simp
qed simp

lemma bit_len_0 [simp]: "bit_len a = 0 \<longleftrightarrow> a = NoAddr"
  by (cases a) auto

text \<open>\<open>Addr.Compare\<close>: by bit length, then by value.\<close>

instantiation addr :: linorder
begin

definition less_eq_addr :: "addr \<Rightarrow> addr \<Rightarrow> bool" where
  "less_eq_addr a b \<longleftrightarrow> bit_len a < bit_len b \<or> (bit_len a = bit_len b \<and> anum a \<le> anum b)"

definition less_addr :: "addr \<Rightarrow> addr \<Rightarrow> bool" where
  "less_addr a b \<longleftrightarrow> bit_len a < bit_len b \<or> (bit_len a = bit_len b \<and> anum a < anum b)"

instance
  by standard (auto simp: less_eq_addr_def less_addr_def intro: addr_eqI)

end

text \<open>\<open>Addr.Next\<close>: the zero address after the last one of a family.\<close>

fun addr_next :: "addr \<Rightarrow> addr" where
  "addr_next NoAddr = NoAddr"
| "addr_next (V4 w) = (if w = -1 then NoAddr else V4 (w + 1))"
| "addr_next (V6 w) = (if w = -1 then NoAddr else V6 (w + 1))"

text \<open>\<open>Addr.Unmap\<close>: an IPv4-mapped IPv6 address becomes IPv4.\<close>

fun unmap :: "addr \<Rightarrow> addr" where
  "unmap (V6 w) = (if drop_bit 32 w = 0xffff then V4 (ucast w) else V6 w)"
| "unmap a = a"

definition is4 :: "addr \<Rightarrow> bool" where
  "is4 a \<longleftrightarrow> bit_len a = 32"

lemma is4_simps [simp]: "is4 (V4 w)" "\<not> is4 (V6 v)" "\<not> is4 NoAddr"
  by (simp_all add: is4_def)

section \<open>Bytes\<close>

type_synonym byte = "8 word"

text \<open>The big-endian value of bytes and the \<open>k\<close> big-endian bytes of a value.\<close>

definition be_val :: "byte list \<Rightarrow> nat" where
  "be_val bs = foldl (\<lambda>n b. 256 * n + unat b) 0 bs"

definition be_bytes :: "nat \<Rightarrow> nat \<Rightarrow> byte list" where
  "be_bytes k n = map (\<lambda>i. word_of_nat (n div 256 ^ i)) (rev [0..<k])"

text \<open>\<open>Addr.As16\<close> (IPv4 in its IPv4-mapped form) and \<open>AddrFrom16\<close> (always an IPv6 address).\<close>

fun as16 :: "addr \<Rightarrow> byte list" where
  "as16 NoAddr = be_bytes 16 0"
| "as16 (V4 w) = be_bytes 16 (0xffff * 2 ^ 32 + unat w)"
| "as16 (V6 w) = be_bytes 16 (unat w)"

definition addr_from16 :: "byte list \<Rightarrow> addr" where
  "addr_from16 bs = V6 (word_of_nat (be_val bs))"

lemma be_val_Nil [simp]: "be_val [] = 0"
  by (simp add: be_val_def)

lemma be_val_snoc: "be_val (bs @ [b]) = 256 * be_val bs + unat b"
  by (simp add: be_val_def)

lemma be_val_append: "be_val (as @ bs) = be_val as * 256 ^ length bs + be_val bs"
proof (induction bs rule: rev_induct)
  case (snoc b bs)
  have "be_val (as @ bs @ [b]) = be_val ((as @ bs) @ [b])" by simp
  then show ?case by (simp only: be_val_snoc snoc) (simp add: algebra_simps)
qed simp

lemma be_val_lt: "be_val bs < 256 ^ length bs"
proof (induction bs rule: rev_induct)
  case (snoc b bs)
  then show ?case using unsigned_less [of b, where ?'a = nat] by (simp add: be_val_snoc)
qed simp

lemma length_be_bytes [simp]: "length (be_bytes k n) = k"
  by (simp add: be_bytes_def)

lemma be_bytes_Suc: "be_bytes (Suc k) n = be_bytes k (n div 256) @ [word_of_nat n]"
proof -
  have "[0..<Suc k] = 0 # map Suc [0..<k]"
    by (simp add: map_Suc_upt upt_conv_Cons del: upt_Suc)
  then show ?thesis
    by (simp add: be_bytes_def rev_map div_mult2_eq comp_def del: upt_Suc)
qed

lemma be_val_be_bytes: "be_val (be_bytes k n) = n mod 256 ^ k"
proof (induction k arbitrary: n)
  case 0
  then show ?case by (simp add: be_bytes_def)
next
  case (Suc k)
  have "n mod (256 * 256 ^ k) = 256 * (n div 256 mod 256 ^ k) + n mod 256"
    by (simp add: mod_mult2_eq)
  then show ?case
    by (simp add: be_bytes_Suc be_val_snoc Suc unat_of_nat)
qed

section \<open>Prefixes\<close>

text \<open>The length of an invalid prefix is \<open>-1\<close>, as \<open>Prefix.Bits\<close> returns it.\<close>

datatype prefix = Prefix (paddr: addr) (pbits: int)

abbreviation no_prefix :: prefix where
  "no_prefix \<equiv> Prefix NoAddr (-1)"

definition prefix_from :: "addr \<Rightarrow> int \<Rightarrow> prefix" where
  "prefix_from a b =
     (if a \<noteq> NoAddr \<and> 0 \<le> b \<and> b \<le> int (bit_len a) then Prefix a b else Prefix a (-1))"

definition is_valid :: "prefix \<Rightarrow> bool" where
  "is_valid p \<longleftrightarrow> 0 \<le> pbits p"

definition host_bits :: "prefix \<Rightarrow> nat" where
  "host_bits p = nat (int (bit_len (paddr p)) - pbits p)"

fun clear_low :: "nat \<Rightarrow> addr \<Rightarrow> addr" where
  "clear_low h NoAddr = NoAddr"
| "clear_low h (V4 w) = V4 (push_bit h (drop_bit h w))"
| "clear_low h (V6 w) = V6 (push_bit h (drop_bit h w))"

definition masked :: "prefix \<Rightarrow> prefix" where
  "masked p = (if is_valid p then Prefix (clear_low (host_bits p) (paddr p)) (pbits p) else no_prefix)"

fun same_top :: "nat \<Rightarrow> addr \<Rightarrow> addr \<Rightarrow> bool" where
  "same_top h (V4 a) (V4 b) = (drop_bit h (a XOR b) = 0)"
| "same_top h (V6 a) (V6 b) = (drop_bit h (a XOR b) = 0)"
| "same_top h a b = False"

definition contains :: "prefix \<Rightarrow> addr \<Rightarrow> bool" where
  "contains p a \<longleftrightarrow> is_valid p \<and> same_top (host_bits p) (paddr p) a"

text \<open>The shape every prefix built by \<open>PrefixFrom\<close> has.\<close>

definition prefix_ok :: "prefix \<Rightarrow> bool" where
  "prefix_ok p \<longleftrightarrow> pbits p = -1 \<or>
     (paddr p \<noteq> NoAddr \<and> 0 \<le> pbits p \<and> pbits p \<le> int (bit_len (paddr p)))"

lemma prefix_ok_from: "prefix_ok (prefix_from a b)"
  by (auto simp: prefix_ok_def prefix_from_def)

lemma prefix_from_sel [simp]: "paddr (prefix_from a b) = a"
  by (simp add: prefix_from_def)

lemma xor_eq_0: "(a XOR b :: 'a::len word) = 0 \<longleftrightarrow> a = b"
  by (auto simp: bit_eq_iff bit_simps)

lemma unat_push_drop: "unat (push_bit h (drop_bit h w) :: 'a::len word) = unat w div 2 ^ h * 2 ^ h"
proof -
  have "push_bit h (drop_bit h (unat w)) = unat w div 2 ^ h * 2 ^ h"
    by (simp add: push_bit_eq_mult drop_bit_eq_div)
  moreover have "take_bit LENGTH('a) (unat w div 2 ^ h * 2 ^ h) = unat w div 2 ^ h * 2 ^ h"
  proof -
    have "unat w div 2 ^ h * 2 ^ h \<le> unat w" by simp
    also have "\<dots> < 2 ^ LENGTH('a)" by (rule unsigned_less)
    finally show ?thesis by (simp add: take_bit_nat_eq_self)
  qed
  ultimately show ?thesis
    by (simp add: unsigned_push_bit_eq unat_drop_bit_eq)
qed

lemma drop_bit_eq_iff: "drop_bit h a = drop_bit h (b :: 'a::len word) \<longleftrightarrow> unat a div 2 ^ h = unat b div 2 ^ h"
  by (metis unat_drop_bit_eq drop_bit_eq_div word_unat_eq_iff)

lemma anum_clear_low: "anum (clear_low h a) = anum a div 2 ^ h * 2 ^ h"
  by (cases a) (simp_all add: unat_push_drop)

lemma bit_len_clear_low [simp]: "bit_len (clear_low h a) = bit_len a"
  by (cases a) simp_all

lemma same_top_iff:
  "same_top h a b \<longleftrightarrow> a \<noteq> NoAddr \<and> bit_len a = bit_len b \<and> anum a div 2 ^ h = anum b div 2 ^ h"
  by (cases a; cases b) (simp_all add: xor_eq_0 drop_bit_eq_iff)

lemma clear_low_eq_iff: "clear_low h a = a \<longleftrightarrow> 2 ^ h dvd anum a"
proof
  assume "clear_low h a = a"
  then have "anum a = anum a div 2 ^ h * 2 ^ h" by (metis anum_clear_low)
  then show "2 ^ h dvd anum a" by (metis dvd_triv_right)
next
  assume "2 ^ h dvd anum a"
  then have "anum (clear_low h a) = anum a" by (simp add: anum_clear_low)
  then show "clear_low h a = a" by (intro addr_eqI) simp_all
qed

lemma clear_low_NoAddr [simp]: "clear_low h a = NoAddr \<longleftrightarrow> a = NoAddr"
  by (cases a) simp_all

lemma masked_idem: "is_valid p \<Longrightarrow> masked (masked p) = masked p"
proof -
  assume v: "is_valid p"
  have "clear_low (host_bits p) (clear_low (host_bits p) (paddr p)) = clear_low (host_bits p) (paddr p)"
    by (simp add: clear_low_eq_iff anum_clear_low)
  then show ?thesis using v by (simp add: masked_def is_valid_def host_bits_def)
qed

lemma contains_iff:
  "contains p a \<longleftrightarrow> is_valid p \<and> paddr p \<noteq> NoAddr \<and> bit_len (paddr p) = bit_len a
     \<and> anum (paddr p) div 2 ^ host_bits p = anum a div 2 ^ host_bits p"
  by (auto simp: contains_def same_top_iff)

section \<open>Text\<close>

text \<open>\<open>Addr.String\<close>. The IPv6 form is RFC 5952: lower-case groups, the first longest run of at
  least two zero groups elided, IPv4-mapped addresses with a dotted tail.\<close>

fun show_v4 :: "32 word \<Rightarrow> string" where
  "show_v4 w = join ''.'' (map (\<lambda>b. show_nat (unat b)) (be_bytes 4 (unat w)))"

fun groups :: "128 word \<Rightarrow> nat list" where
  "groups w = map (\<lambda>i. unat w div 65536 ^ i mod 65536) (rev [0..<8])"

fun zero_run :: "nat list \<Rightarrow> nat" where
  "zero_run [] = 0"
| "zero_run (g # gs) = (if g = 0 then Suc (zero_run gs) else 0)"

definition best_run :: "nat list \<Rightarrow> nat \<times> nat" where
  "best_run gs = foldl (\<lambda>(s, l) i. let r = zero_run (drop i gs) in if l < r \<and> 2 \<le> r then (i, r) else (s, l))
     (0, 0) [0..<8]"

definition show_v6 :: "128 word \<Rightarrow> string" where
  "show_v6 w =
     (if drop_bit 32 w = 0xffff then ''::ffff:'' @ show_v4 (ucast w)
      else let gs = groups w; (s, l) = best_run gs; h = map show_hex in
        if l = 0 then join '':'' (h gs)
        else join '':'' (h (take s gs)) @ ''::'' @ join '':'' (h (drop (s + l) gs)))"

fun show_addr :: "addr \<Rightarrow> string" where
  "show_addr NoAddr = ''invalid IP''"
| "show_addr (V4 w) = show_v4 w"
| "show_addr (V6 w) = show_v6 w"

definition show_prefix :: "prefix \<Rightarrow> string" where
  "show_prefix p = (if is_valid p then show_addr (paddr p) @ ''/'' @ show_int (pbits p)
                    else ''invalid Prefix'')"

end
