(* ===== verification/SubnetStep.thy ===== *)
theory SubnetStep
  imports Netip
begin

text \<open>
  \<open>nextSubnetStart\<close> of controller/internal/allocator/ipam/ipam.go: the byte-wise addition with
  carry that advances a pool's high-water mark, and its equivalence with the addition of the
  subnet size on the address as a number.
\<close>

section \<open>The code\<close>

text \<open>The carry loop \<open>for j := i - 1; sum > 0xff && j >= 0; j--\<close>.\<close>

fun ripple :: "byte list \<Rightarrow> nat \<Rightarrow> 16 word \<Rightarrow> byte list" where
  "ripple b 0 s = b"
| "ripple b (Suc j) s =
     (if s > 0xff then let s' = ucast (b ! j) + 1 in ripple (b[j := ucast s']) j s' else b)"

text \<open>The outer loop over the bytes from the right, which breaks after the first addition.\<close>

fun add_bit :: "byte list \<Rightarrow> nat \<Rightarrow> int \<Rightarrow> byte list" where
  "add_bit b 0 pos = b"
| "add_bit b (Suc i) pos =
     (if pos < 0 then b
      else let add = (if pos < 8 then push_bit (nat pos) 1 else 0 :: 16 word) in
        if add = 0 then add_bit b i (pos - 8)
        else let s = ucast (b ! i) + add in ripple (b[i := ucast s]) i s)"

definition next_subnet_start :: "prefix \<Rightarrow> addr" where
  "next_subnet_start sub =
     (let b = as16 (paddr (masked sub));
          hb = int (bit_len (paddr sub)) - pbits sub;
          a = addr_from16 (add_bit b 16 hb)
      in if is4 (paddr sub) then unmap a else a)"

section \<open>Equivalence with addition\<close>

lemma unat_byte: "unat (word_of_nat n :: byte) = n mod 256"
  by (simp add: unat_of_nat)

lemma byte_of_nat_eqI: "n mod 256 = unat b \<Longrightarrow> word_of_nat n = (b :: byte)"
  by (rule word_unat_eq_iff [THEN iffD2]) (simp only: unat_byte)

lemma unat_128: "n < 2 ^ 128 \<Longrightarrow> unat (word_of_nat n :: 128 word) = n"
  by (simp add: unat_of_nat)

lemma word128_eqI: "m mod 2 ^ 128 = n mod 2 ^ 128 \<Longrightarrow> (word_of_nat m :: 128 word) = word_of_nat n"
  by (rule word_unat_eq_iff [THEN iffD2]) (simp only: unat_of_nat len_num1 len_bit0 mult_1_right, simp)

lemma be_bytes_be_val: "be_bytes (length bs) (be_val bs) = bs"
proof (induction bs rule: rev_induct)
  case Nil
  then show ?case by (simp add: be_bytes_def)
next
  case (snoc b bs)
  have "(256 * be_val bs + unat b) div 256 = be_val bs"
    using unsigned_less [of b, where ?'a = nat] by simp
  moreover have "(word_of_nat (256 * be_val bs + unat b) :: byte) = b"
    by (rule byte_of_nat_eqI) (use unsigned_less [of b, where ?'a = nat] in simp)
  ultimately show ?case
    unfolding be_val_snoc length_append_singleton be_bytes_Suc by (simp only: snoc)
qed

lemma be_bytes_mod: "be_bytes k (n mod 256 ^ k) = be_bytes k n"
proof -
  have "be_val (be_bytes k n) = n mod 256 ^ k" by (rule be_val_be_bytes)
  then show ?thesis by (metis be_bytes_be_val length_be_bytes)
qed

lemma take_Suc_last: "j < length b \<Longrightarrow> take (Suc j) b = take j b @ [b ! j]"
  by (rule take_Suc_conv_app_nth)

lemma byte_sum:
  fixes b :: byte and add :: "16 word"
  assumes "unat add \<le> 128"
  shows "unat ((ucast b :: 16 word) + add) = unat b + unat add"
proof -
  have "unat b < 256" using unsigned_less [of b, where ?'a = nat] by simp
  then have "unat (ucast b :: 16 word) = unat b"
    by (simp add: unsigned_ucast_eq take_bit_nat_eq_self)
  with assms \<open>unat b < 256\<close> show ?thesis
    by (simp add: unat_word_ariths)
qed

text \<open>Writing one byte of a sum, and whether it carries into the bytes to its left.\<close>

lemma sum_byte_step:
  fixes s :: "16 word"
  assumes "unat s = unat (x :: byte) + d" "d \<le> 128"
  shows "be_bytes (Suc k) (256 * v + unat x + d)
       = (if 0xff < s then be_bytes k (v + 1) else be_bytes k v) @ [ucast s]"
proof -
  have x: "unat x < 256" using unsigned_less [of x, where ?'a = nat] by simp
  have low: "(word_of_nat (256 * v + unat x + d) :: byte) = ucast s"
    by (rule byte_of_nat_eqI)
      (use assms(1) in \<open>simp add: unsigned_ucast_eq take_bit_eq_mod add.assoc\<close>)
  have "0xff < s \<longleftrightarrow> 255 < unat x + d"
    using assms(1) by (simp add: word_less_nat_alt)
  moreover have "(256 * v + unat x + d) div 256 = v + (unat x + d) div 256"
    by (simp add: add.assoc)
  moreover have "(unat x + d) div 256 = (if 255 < unat x + d then 1 else 0)"
    using x assms(2) by (auto intro: div_nat_eqI)
  ultimately show ?thesis unfolding be_bytes_Suc low by simp
qed

lemma ripple_eq:
  "i \<le> length b \<Longrightarrow> ripple b i s =
     (if 0xff < s then be_bytes i (be_val (take i b) + 1) else take i b) @ drop i b"
proof (induction i arbitrary: b s)
  case 0
  then show ?case by (simp add: be_bytes_def)
next
  case (Suc j)
  show ?case
  proof (cases "0xff < s")
    case False
    then show ?thesis by (simp only: ripple.simps if_False append_take_drop_id)
  next
    case True
    let ?s = "ucast (b ! j) + 1 :: 16 word"
    let ?b = "b[j := ucast ?s]"
    have us: "unat ?s = unat (b ! j) + 1" using byte_sum [of 1 "b ! j"] by simp
    have tl: "drop j ?b = ucast ?s # drop (Suc j) b"
      using Suc.prems by (simp add: drop_update_swap Cons_nth_drop_Suc [symmetric])
    have "ripple b (Suc j) s = ripple ?b j ?s" using True by (simp add: Let_def)
    also have "\<dots> = (if 0xff < ?s then be_bytes j (be_val (take j b) + 1) else take j b) @ drop j ?b"
      using Suc by simp
    also have "\<dots> = be_bytes (Suc j) (256 * be_val (take j b) + unat (b ! j) + 1) @ drop (Suc j) b"
      using sum_byte_step [OF us, of j "be_val (take j b)"] be_bytes_be_val [of "take j b"] Suc.prems
      by (simp add: tl)
    also have "256 * be_val (take j b) + unat (b ! j) = be_val (take (Suc j) b)"
      using Suc.prems by (simp add: take_Suc_last be_val_snoc)
    finally show ?thesis using True by simp
  qed
qed

lemma add_bit_eq:
  assumes "n \<le> length b"
  shows "add_bit b n (int k) =
    (if k < 8 * n then be_bytes n (be_val (take n b) + 2 ^ k) else take n b) @ drop n b"
  using assms
proof (induction n arbitrary: k)
  case 0
  then show ?case by simp
next
  case (Suc i)
  have split: "take (Suc i) b = take i b @ [b ! i]" and dr: "drop i b = b ! i # drop (Suc i) b"
    using Suc.prems by (simp_all add: take_Suc_last Cons_nth_drop_Suc)
  show ?case
  proof (cases "k < 8")
    case True
    have "k \<in> {0, 1, 2, 3, 4, 5, 6, 7}" using True by auto
    then have add: "unat (push_bit k 1 :: 16 word) = 2 ^ k" and pos: "(push_bit k 1 :: 16 word) \<noteq> 0"
      and le: "(2::nat) ^ k \<le> 128"
      by auto
    let ?s = "ucast (b ! i) + push_bit k 1 :: 16 word"
    have us: "unat ?s = unat (b ! i) + 2 ^ k"
      using byte_sum [of "push_bit k 1" "b ! i"] add le by simp
    have "add_bit b (Suc i) (int k) = ripple (b[i := ucast ?s]) i ?s"
      using True pos by (simp add: Let_def)
    also have "\<dots> = (if 0xff < ?s then be_bytes i (be_val (take i b) + 1) else take i b) @ ucast ?s # drop (Suc i) b"
      using Suc.prems by (simp add: ripple_eq drop_update_swap Cons_nth_drop_Suc [symmetric])
    also have "\<dots> = be_bytes (Suc i) (256 * be_val (take i b) + unat (b ! i) + 2 ^ k) @ drop (Suc i) b"
      using sum_byte_step [OF us le, of i "be_val (take i b)"] be_bytes_be_val [of "take i b"] Suc.prems
      by simp
    finally show ?thesis using True by (simp add: split be_val_snoc)
  next
    case False
    then obtain m where m: "k = m + 8" by (metis add.commute le_Suc_ex not_less)
    have "add_bit b (Suc i) (int k) = add_bit b i (int m)"
      using m by (simp add: Let_def)
    also have "\<dots> = (if m < 8 * i then be_bytes i (be_val (take i b) + 2 ^ m) else take i b) @ drop i b"
      using Suc by simp
    also have "\<dots> = (if k < 8 * Suc i then be_bytes (Suc i) (be_val (take (Suc i) b) + 2 ^ k)
        else take (Suc i) b) @ drop (Suc i) b"
    proof -
      have "256 * be_val (take i b) + unat (b ! i) + 2 ^ k = 256 * (be_val (take i b) + 2 ^ m) + unat (b ! i)"
        by (simp add: m power_add)
      moreover have "unat (b ! i) < 256" using unsigned_less [of "b ! i", where ?'a = nat] by simp
      moreover have "(word_of_nat (256 * (be_val (take i b) + 2 ^ m) + unat (b ! i)) :: byte) = b ! i"
        by (rule byte_of_nat_eqI) (use calculation(2) in \<open>simp only: mod_mult_self3 mod_mult_self4 mod_less\<close>)
      moreover have "(256 * (be_val (take i b) + 2 ^ m) + unat (b ! i)) div 256 = be_val (take i b) + 2 ^ m"
        using calculation(2) by simp
      ultimately show ?thesis
        using m unfolding split dr be_val_snoc be_bytes_Suc by (simp add: add.commute)
    qed
    finally show ?thesis .
  qed
qed

lemma length_as16 [simp]: "length (as16 a) = 16"
  by (cases a) simp_all

lemma be_val_as16: "be_val (as16 a) = (if is4 a then 0xffff * 2 ^ 32 + anum a else anum a)"
proof (cases a)
  case (V4 w)
  have "unat w < 2 ^ 32" using unsigned_less [of w, where ?'a = nat] by simp
  then show ?thesis using V4 by (simp add: be_val_be_bytes)
next
  case (V6 w)
  have "unat w < 2 ^ 128" using unsigned_less [of w, where ?'a = nat] by simp
  then show ?thesis using V6 by (simp add: be_val_be_bytes)
qed (simp add: be_val_be_bytes)

lemma add_bit_16:
  assumes "k < 128"
  shows "be_val (add_bit (as16 a) 16 (int k)) = (be_val (as16 a) + 2 ^ k) mod 2 ^ 128"
  using assms by (simp add: add_bit_eq be_val_be_bytes)

lemma drop_bit_word_of_nat: "m < 2 ^ 128 \<Longrightarrow> drop_bit 32 (word_of_nat m :: 128 word) = word_of_nat (m div 2 ^ 32)"
proof -
  assume m: "m < 2 ^ 128"
  have "m div 2 ^ 32 < 2 ^ 128" using m by (meson div_le_dividend le_less_trans)
  then show ?thesis
    by (intro word_unat_eq_iff [THEN iffD2])
      (simp only: unat_drop_bit_eq unat_128 [OF m] unat_128 [of "m div 2 ^ 32"] drop_bit_eq_div [of 32 m])
qed

text \<open>The IPv4 case: below the end of the address space the sum is the IPv4 address, at its end
  it leaves the mapped range and is an IPv6 address, which no IPv4 pool contains.\<close>

lemma next_subnet_start_v4:
  assumes v: "paddr sub = V4 w" "0 \<le> pbits sub" "pbits sub \<le> 32"
  defines "n \<equiv> anum (paddr (masked sub)) + 2 ^ host_bits sub"
  shows "next_subnet_start sub = (if n < 2 ^ 32 then V4 (word_of_nat n) else V6 (0x10000 * 2 ^ 32))"
proof -
  let ?h = "host_bits sub" and ?m = "paddr (masked sub)"
  have h: "?h \<le> 32" "int (bit_len (paddr sub)) - pbits sub = int ?h"
    using v by (auto simp: host_bits_def)
  have m: "is4 ?m" "anum ?m = unat w div 2 ^ ?h * 2 ^ ?h"
    using v by (simp_all add: masked_def is_valid_def unat_push_drop)
  have w: "unat w < 2 ^ 32" using unsigned_less [of w, where ?'a = nat] by simp
  obtain q where q: "(2::nat) ^ 32 = q * 2 ^ ?h"
    using h(1) le_imp_power_dvd [of ?h 32 "2::nat"] by (metis dvdE mult.commute)
  have "unat w div 2 ^ ?h < q"
    using w q by (metis less_mult_imp_div_less)
  then have le: "n \<le> 2 ^ 32"
    unfolding n_def m(2) q by (metis Suc_leI add.commute mult_Suc mult_le_mono1)
  let ?b = "add_bit (as16 ?m) 16 (int ?h)"
  have bv: "be_val ?b = 0xffff * 2 ^ 32 + n"
    using add_bit_16 [of ?h ?m] h(1) m(1) le by (simp add: be_val_as16 n_def add.assoc)
  have start: "next_subnet_start sub = unmap (V6 (word_of_nat (0xffff * 2 ^ 32 + n)))"
    unfolding next_subnet_start_def Let_def addr_from16_def h(2) bv by (simp only: v(1) is4_simps if_True)
  have db: "drop_bit 32 (word_of_nat (0xffff * 2 ^ 32 + n) :: 128 word)
      = word_of_nat ((0xffff * 2 ^ 32 + n) div 2 ^ 32)"
    using le by (intro drop_bit_word_of_nat) simp
  show ?thesis
  proof (cases "n < 2 ^ 32")
    case True
    have "ucast (word_of_nat (0xffff * 2 ^ 32 + n) :: 128 word) = (word_of_nat n :: 32 word)"
    proof (rule word_unat_eq_iff [THEN iffD2])
      have "unat (word_of_nat (0xffff * 2 ^ 32 + n) :: 128 word) = 0xffff * 2 ^ 32 + n"
        by (rule unat_128) (use le in simp)
      then show "unat (ucast (word_of_nat (0xffff * 2 ^ 32 + n) :: 128 word) :: 32 word) = unat (word_of_nat n :: 32 word)"
        using mod_mult_self3 [of "0xffff::nat" "2 ^ 32" n]
        by (simp add: unsigned_ucast_eq take_bit_eq_mod unat_of_nat)
    qed
    moreover have "(0xffff * 2 ^ 32 + n) div 2 ^ 32 = 0xffff"
      using True by (intro div_nat_eqI) simp_all
    ultimately show ?thesis using True start db by simp
  next
    case False
    then have "n = 2 ^ 32" using le by simp
    then show ?thesis using start db by simp
  qed
qed

lemma next_subnet_start_v6:
  assumes v: "paddr sub = V6 w" "0 < pbits sub" "pbits sub \<le> 128"
  shows "next_subnet_start sub = V6 (word_of_nat (anum (paddr (masked sub)) + 2 ^ host_bits sub))"
proof -
  let ?h = "host_bits sub" and ?m = "paddr (masked sub)"
  have h: "?h < 128" "int (bit_len (paddr sub)) - pbits sub = int ?h"
    using v by (auto simp: host_bits_def)
  have m: "\<not> is4 ?m" using v by (simp add: masked_def is_valid_def)
  have bv: "be_val (add_bit (as16 ?m) 16 (int ?h)) = (anum ?m + 2 ^ ?h) mod 2 ^ 128"
    using add_bit_16 [OF h(1), of ?m] m by (simp add: be_val_as16)
  have "(word_of_nat ((anum ?m + 2 ^ ?h) mod 2 ^ 128) :: 128 word) = word_of_nat (anum ?m + 2 ^ ?h)"
    by (rule word128_eqI) simp
  then show ?thesis
    unfolding next_subnet_start_def Let_def addr_from16_def h(2) bv by (simp only: v(1) is4_simps if_False)
qed

text \<open>A faster equation for evaluating it on concrete IPv4 subnets.\<close>

lemma next_subnet_start_code [code]:
  "next_subnet_start sub =
    (case paddr sub of
       V4 w \<Rightarrow>
         if 0 \<le> pbits sub \<and> pbits sub \<le> 32
         then let s = (2::int) ^ nat (32 - pbits sub); n = uint w div s * s + s in
              if n < 2 ^ 32 then V4 (word_of_int n) else V6 (0x10000 * 2 ^ 32)
         else let b = as16 (paddr (masked sub)) in unmap (addr_from16 (add_bit b 16 (32 - pbits sub)))
     | a \<Rightarrow> let b = as16 (paddr (masked sub)) in addr_from16 (add_bit b 16 (int (bit_len a) - pbits sub)))"
proof (cases "paddr sub")
  case (V4 w)
  show ?thesis
  proof (cases "0 \<le> pbits sub \<and> pbits sub \<le> 32")
    case True
    define N where "N = unat w div 2 ^ nat (32 - pbits sub) * 2 ^ nat (32 - pbits sub) + 2 ^ nat (32 - pbits sub)"
    have m: "anum (paddr (masked sub)) + 2 ^ host_bits sub = N"
      using V4 True by (simp add: masked_def is_valid_def host_bits_def unat_push_drop N_def)
    have i: "uint w div 2 ^ nat (32 - pbits sub) * 2 ^ nat (32 - pbits sub) + 2 ^ nat (32 - pbits sub) = int N"
      by (simp add: zdiv_int N_def)
    have lt: "int N < 2 ^ 32 \<longleftrightarrow> N < 2 ^ 32" by (metis of_nat_less_iff of_nat_numeral of_nat_power)
    have w: "(word_of_int (int N) :: 32 word) = word_of_nat N" by simp
    have "next_subnet_start sub = (if N < 2 ^ 32 then V4 (word_of_nat N) else V6 (0x10000 * 2 ^ 32))"
      using next_subnet_start_v4 [OF V4, unfolded m] True by simp
    then show ?thesis unfolding V4 addr.case Let_def i lt w using True by simp
  next
    case False
    have "next_subnet_start sub = (let b = as16 (paddr (masked sub)) in unmap (addr_from16 (add_bit b 16 (32 - pbits sub))))"
      unfolding next_subnet_start_def Let_def V4 by simp
    then show ?thesis unfolding V4 addr.case by (simp only: False if_False)
  qed
qed (simp_all add: next_subnet_start_def Let_def)

end
