(* ===== verification/NetipParse.thy ===== *)
theory NetipParse
  imports Netip
begin

text \<open>
  \<open>netip.ParsePrefix\<close>: the text of a pool's CIDR. A failure is \<open>None\<close>; the code only
  distinguishes success from failure. Zones are refused by \<open>ParsePrefix\<close>, so an address with
  \<open>%\<close> never parses here. The round trip \<open>parse_prefix (show_prefix p)\<close> is proved for IPv4.
\<close>

fun split_on :: "char \<Rightarrow> string \<Rightarrow> string list" where
  "split_on c [] = [[]]"
| "split_on c (x # xs) =
     (if x = c then [] # split_on c xs
      else case split_on c xs of [] \<Rightarrow> [[x]] | f # fs \<Rightarrow> (x # f) # fs)"

definition octet :: "string \<Rightarrow> nat option" where
  "octet s = (if s \<noteq> [] \<and> list_all is_digit s \<and> (length s = 1 \<or> hd s \<noteq> CHR ''0'') \<and> digits_val s \<le> 255
     then Some (digits_val s) else None)"

definition parse_v4_val :: "string \<Rightarrow> nat option" where
  "parse_v4_val s = (case map octet (split_on (CHR ''.'') s) of
     [Some a, Some b, Some c, Some d] \<Rightarrow> Some (((a * 256 + b) * 256 + c) * 256 + d)
   | _ \<Rightarrow> None)"

definition hex_val :: "char \<Rightarrow> nat option" where
  "hex_val c = (let n = of_char c :: nat in
     if 48 \<le> n \<and> n \<le> 57 then Some (n - 48)
     else if 97 \<le> n \<and> n \<le> 102 then Some (n - 87)
     else if 65 \<le> n \<and> n \<le> 70 then Some (n - 55) else None)"

definition is_hex :: "char \<Rightarrow> bool" where
  "is_hex c \<longleftrightarrow> hex_val c \<noteq> None"

text \<open>
  The group loop of \<open>parseIPv6\<close>: \<open>k\<close> groups may still be read, \<open>gs\<close> are the groups so far,
  \<open>ell\<close> is the position of the ellipsis. It returns the groups, the ellipsis and the rest.
\<close>

fun parse_groups :: "nat \<Rightarrow> nat list \<Rightarrow> nat option \<Rightarrow> string \<Rightarrow> (nat list \<times> nat option \<times> string) option" where
  "parse_groups 0 gs ell s = Some (gs, ell, s)"
| "parse_groups (Suc k) gs ell s =
    (let h = takeWhile is_hex s; r = dropWhile is_hex s;
         g = foldl (\<lambda>n c. 16 * n + the (hex_val c)) 0 h in
     if h = [] \<or> 4 < length h then None
     else if r \<noteq> [] \<and> hd r = CHR ''.'' then
       (if (ell = None \<and> length gs \<noteq> 6) \<or> 6 < length gs then None
        else case parse_v4_val s of None \<Rightarrow> None
             | Some v \<Rightarrow> Some (gs @ [v div 65536, v mod 65536], ell, []))
     else case r of
       [] \<Rightarrow> Some (gs @ [g], ell, [])
     | c # r1 \<Rightarrow>
        (if c \<noteq> CHR '':'' then None
         else case r1 of
           [] \<Rightarrow> None
         | d # r2 \<Rightarrow>
            (if d \<noteq> CHR '':'' then parse_groups k (gs @ [g]) ell r1
             else if ell \<noteq> None then None
             else if r2 = [] then Some (gs @ [g], Some (length gs + 1), [])
             else parse_groups k (gs @ [g]) (Some (length gs + 1)) r2)))"

definition parse_v6 :: "string \<Rightarrow> addr option" where
  "parse_v6 s =
    (let lead = take 2 s = ''::''; s0 = (if lead then drop 2 s else s) in
     if lead \<and> s0 = [] then Some (V6 0)
     else case parse_groups 8 [] (if lead then Some 0 else None) s0 of
       None \<Rightarrow> None
     | Some (gs, ell, rest) \<Rightarrow>
        if rest \<noteq> [] then None
        else case ell of
          None \<Rightarrow> (if length gs = 8
                    then Some (V6 (word_of_nat (foldl (\<lambda>n g. n * 65536 + g) 0 gs))) else None)
        | Some e \<Rightarrow> (if length gs = 8 then None
                    else Some (V6 (word_of_nat (foldl (\<lambda>n g. n * 65536 + g) 0
                      (take e gs @ replicate (8 - length gs) 0 @ drop e gs))))))"

text \<open>\<open>ParseAddr\<close> dispatches on the first of the characters dot, colon and percent.\<close>

definition parse_addr :: "string \<Rightarrow> addr option" where
  "parse_addr s =
    (case dropWhile (\<lambda>c. c \<notin> {CHR ''.'', CHR '':'', CHR ''%''}) s of
       [] \<Rightarrow> None
     | c # _ \<Rightarrow>
        if c = CHR ''.'' then map_option (\<lambda>v. V4 (word_of_nat v)) (parse_v4_val s)
        else if c = CHR '':'' then parse_v6 s
        else None)"

text \<open>The split at the last slash.\<close>

definition last_slash :: "string \<Rightarrow> (string \<times> string) option" where
  "last_slash s =
    (if CHR ''/'' \<in> set s
     then Some (rev (tl (dropWhile (\<lambda>c. c \<noteq> CHR ''/'') (rev s))), rev (takeWhile (\<lambda>c. c \<noteq> CHR ''/'') (rev s)))
     else None)"

definition parse_prefix :: "string \<Rightarrow> prefix option" where
  "parse_prefix s =
    (case last_slash s of
       None \<Rightarrow> None
     | Some (a, b) \<Rightarrow>
        (case parse_addr a of
           None \<Rightarrow> None
         | Some ip \<Rightarrow>
            if b = [] \<or> \<not> list_all is_digit b \<or> (1 < length b \<and> hd b = CHR ''0'') then None
            else if bit_len ip < digits_val b then None
            else Some (prefix_from ip (int (digits_val b)))))"

lemma parse_prefix_ok: "parse_prefix s = Some p \<Longrightarrow> is_valid p \<and> paddr p \<noteq> NoAddr \<and> pbits p \<le> int (bit_len (paddr p))"
proof -
  assume "parse_prefix s = Some p"
  then obtain a b ip where "parse_addr a = Some ip" "digits_val b \<le> bit_len ip" "p = prefix_from ip (int (digits_val b))"
    by (auto simp: parse_prefix_def not_less split: option.splits if_splits)
  moreover from this(1) have "ip \<noteq> NoAddr"
    by (auto simp: parse_addr_def parse_v6_def Let_def split: list.splits if_splits option.splits)
  ultimately show ?thesis by (auto simp: prefix_from_def is_valid_def)
qed

section \<open>The IPv4 round trip\<close>

lemma split_on_join:
  "xs \<noteq> [] \<Longrightarrow> \<forall>x \<in> set xs. c \<notin> set x \<Longrightarrow> split_on c (join [c] xs) = xs"
proof (induction "[c]" xs rule: join.induct)
  case (2 x)
  then show ?case by (induction x) auto
next
  case (3 x y xs)
  have "split_on c (x @ c # t) = x # split_on c t" if "c \<notin> set x" for t
    using that by (induction x) (auto split: list.splits)
  with 3 show ?case by simp
qed simp

lemma dot_not_in_show_nat [simp]: "CHR ''.'' \<notin> set (show_nat n)" "CHR ''/'' \<notin> set (show_nat n)"
  "CHR '':'' \<notin> set (show_nat n)" "CHR ''%'' \<notin> set (show_nat n)"
  using show_nat_digits [of n] by (auto simp: is_digit_def)

lemma octet_show_nat: "n \<le> 255 \<Longrightarrow> octet (show_nat n) = Some n"
  using show_nat_digits [of n] show_nat_hd [of n]
  by (auto simp: octet_def list_all_iff Suc_lessI)

lemma be_bytes_4: "be_bytes 4 n =
    [word_of_nat (n div 16777216), word_of_nat (n div 65536), word_of_nat (n div 256), word_of_nat n]"
proof -
  have "rev [0..<4] = [3, 2, 1, 0::nat]" by code_simp
  then show ?thesis by (simp add: be_bytes_def)
qed

lemma be_bytes_4_val: "(((unat (word_of_nat (n div 16777216) :: byte) * 256 +
    unat (word_of_nat (n div 65536) :: byte)) * 256 +
    unat (word_of_nat (n div 256) :: byte)) * 256 + unat (word_of_nat n :: byte)) = n mod 2 ^ 32"
  using be_val_be_bytes [of 4 n] unfolding be_bytes_4 by (simp add: be_val_def algebra_simps)

lemma byte_le: "unat (b :: byte) \<le> 255"
  using unsigned_less [of b, where ?'a = nat] by simp

lemma parse_v4_show: "parse_v4_val (show_v4 w) = Some (unat w)"
proof -
  let ?n = "unat w"
  have lt: "unat w < 2 ^ 32" using unsigned_less [of w, where ?'a = nat] by simp
  have "split_on (CHR ''.'') (show_v4 w) = map (\<lambda>b. show_nat (unat b)) (be_bytes 4 ?n)"
    unfolding show_v4.simps by (rule split_on_join) (auto simp: be_bytes_4)
  then show ?thesis
    using be_bytes_4_val [of ?n] lt
    by (simp add: parse_v4_val_def be_bytes_4 octet_show_nat byte_le)
qed

lemma slash_not_in_show_v4: "CHR ''/'' \<notin> set (show_v4 w)"
  by (simp add: be_bytes_4)

lemma last_slash_append: "CHR ''/'' \<notin> set b \<Longrightarrow> last_slash (a @ CHR ''/'' # b) = Some (a, b)"
proof -
  assume b: "CHR ''/'' \<notin> set b"
  have "rev (a @ CHR ''/'' # b) = rev b @ CHR ''/'' # rev a" by simp
  moreover have "takeWhile (\<lambda>c. c \<noteq> CHR ''/'') (rev b @ CHR ''/'' # rev a) = rev b"
    using b by (subst takeWhile_append2) auto
  moreover have "dropWhile (\<lambda>c. c \<noteq> CHR ''/'') (rev b @ CHR ''/'' # rev a) = CHR ''/'' # rev a"
    using b by (subst dropWhile_append2) auto
  ultimately show ?thesis by (simp add: last_slash_def)
qed

lemma parse_addr_show_v4: "parse_addr (show_v4 w) = Some (V4 w)"
proof -
  have "dropWhile (\<lambda>c. c \<notin> {CHR ''.'', CHR '':'', CHR ''%''}) (show_v4 w)
      = CHR ''.'' # drop (Suc (length (show_nat (unat (word_of_nat (unat w div 16777216) :: byte))))) (show_v4 w)"
    by (simp add: be_bytes_4) (subst dropWhile_append2, auto)
  then show ?thesis
    unfolding parse_addr_def by (simp add: parse_v4_show del: show_v4.simps)
qed

text \<open>The text of a valid IPv4 prefix parses back to that prefix.\<close>

lemma parse_show_prefix:
  assumes "paddr p = V4 w" "0 \<le> pbits p" "pbits p \<le> 32"
  shows "parse_prefix (show_prefix p) = Some p"
proof -
  obtain b where p: "p = Prefix (V4 w) b" using assms(1) by (cases p) simp
  let ?b = "show_nat (nat b)"
  have "last_slash (show_v4 w @ CHR ''/'' # ?b) = Some (show_v4 w, ?b)"
    by (rule last_slash_append) simp
  moreover have "list_all is_digit ?b" using show_nat_digits by (simp add: list_all_iff)
  ultimately show ?thesis
    using assms p show_nat_hd [of "nat b"]
    by (auto simp: parse_prefix_def show_prefix_def is_valid_def show_int_def prefix_from_def
        parse_addr_show_v4 simp del: show_v4.simps)
qed

end
