(* ===== verification/Allocator.thy ===== *)
theory Allocator
  imports Prelude
begin

text \<open>
  The contract the two allocators of controller/internal/allocator share (address pools and ASN
  ranges) and the topology builder relies on: an allocator hands out resources to owners, takes
  them back and, when state is reloaded, marks resources as held. \<open>holds\<close> is the abstract state,
  the map from a held resource to its owner. The client's lemmas are about runs of any length.
\<close>

datatype 'r alloc_op = AllocFor string | ReleaseRes 'r

text \<open>A run of calls; a call that fails leaves the allocator as it was. The result lists what
  the successful \<open>Allocate\<close> calls handed out, in order.\<close>

fun run_alloc ::
  "('s \<Rightarrow> string \<Rightarrow> 'e + 'r \<times> 's) \<Rightarrow> ('s \<Rightarrow> 'r \<Rightarrow> 'e + 's) \<Rightarrow> 's \<Rightarrow> 'r alloc_op list \<Rightarrow> 's \<times> ('r \<times> string) list" where
  "run_alloc al rl s [] = (s, [])"
| "run_alloc al rl s (AllocFor w # ops) =
     (case al s w of Inl _ \<Rightarrow> run_alloc al rl s ops
      | Inr (r, s') \<Rightarrow> (let (t, gs) = run_alloc al rl s' ops in (t, (r, w) # gs)))"
| "run_alloc al rl s (ReleaseRes r # ops) =
     (case rl s r of Inl _ \<Rightarrow> run_alloc al rl s ops | Inr s' \<Rightarrow> run_alloc al rl s' ops)"

locale unique_allocator =
  fixes allocate :: "'s \<Rightarrow> string \<Rightarrow> 'e + 'r \<times> 's"
    and release :: "'s \<Rightarrow> 'r \<Rightarrow> 'e + 's"
    and restore :: "'s \<Rightarrow> 'r \<Rightarrow> string \<Rightarrow> 'e + 's"
    and holds :: "'s \<Rightarrow> 'r \<Rightarrow> string option"
    and inv :: "'s \<Rightarrow> bool"
    and restorable :: "'s \<Rightarrow> 'r \<Rightarrow> bool"
  assumes allocate_fresh: "inv s \<Longrightarrow> allocate s w = Inr (r, s') \<Longrightarrow> holds s r = None"
    and allocate_holds: "inv s \<Longrightarrow> allocate s w = Inr (r, s') \<Longrightarrow> holds s' = (holds s)(r \<mapsto> w)"
    and allocate_inv: "inv s \<Longrightarrow> allocate s w = Inr (r, s') \<Longrightarrow> inv s'"
    and release_holds: "inv s \<Longrightarrow> release s r = Inr s' \<Longrightarrow> holds s r \<noteq> None \<and> holds s' = (holds s)(r := None)"
    and release_inv: "inv s \<Longrightarrow> release s r = Inr s' \<Longrightarrow> inv s'"
    and restore_holds: "inv s \<Longrightarrow> restorable s r \<Longrightarrow> restore s r w = Inr s' \<Longrightarrow>
          holds s r = None \<and> holds s' = (holds s)(r \<mapsto> w)"
    and restore_inv: "inv s \<Longrightarrow> restorable s r \<Longrightarrow> restore s r w = Inr s' \<Longrightarrow> inv s'"
begin

lemma run_inv: "inv s \<Longrightarrow> inv (fst (run_alloc allocate release s ops))"
proof (induction ops arbitrary: s)
  case (Cons x ops)
  show ?case
  proof (cases x)
    case (AllocFor w)
    then show ?thesis using Cons
      by (cases "allocate s w") (auto simp: split_beta dest: allocate_inv)
  next
    case (ReleaseRes r)
    then show ?thesis using Cons by (cases "release s r") (auto dest: release_inv)
  qed
qed simp

text \<open>A held resource stays with its owner and is not handed out again until it is released.\<close>

lemma run_keeps_holder:
  assumes "inv s" "holds s r = Some w" "ReleaseRes r \<notin> set ops"
  shows "holds (fst (run_alloc allocate release s ops)) r = Some w
       \<and> r \<notin> fst ` set (snd (run_alloc allocate release s ops))"
  using assms
proof (induction ops arbitrary: s)
  case Nil
  then show ?case by simp
next
  case (Cons x ops)
  show ?case
  proof (cases x)
    case x: (AllocFor v)
    show ?thesis
    proof (cases "allocate s v")
      case (Inl e)
      with Cons x show ?thesis by simp
    next
      case (Inr q)
      obtain a s' where q: "q = (a, s')" by force
      have "holds s a = None" "holds s' = (holds s)(a \<mapsto> v)" "inv s'"
        using allocate_fresh allocate_holds allocate_inv Cons.prems(1) Inr q by blast+
      then have "holds s' r = Some w" "a \<noteq> r" "inv s'" using Cons.prems(2) by auto
      with Cons.IH [of s'] Cons.prems(3) Inr q x show ?thesis by (auto split: prod.splits)
    qed
  next
    case x: (ReleaseRes a)
    show ?thesis
    proof (cases "release s a")
      case (Inl e)
      with Cons x show ?thesis by simp
    next
      case (Inr s')
      have "holds s' = (holds s)(a := None)" "inv s'"
        using release_holds release_inv Cons.prems(1) Inr by blast+
      with Cons.IH [of s'] Cons.prems Inr x show ?thesis by auto
    qed
  qed
qed

text \<open>Without releases, no two calls of a run hand out the same resource.\<close>

lemma run_grants_distinct:
  assumes "inv s" "\<forall>r. ReleaseRes r \<notin> set ops"
  shows "distinct (map fst (snd (run_alloc allocate release s ops)))
       \<and> (\<forall>(r, w) \<in> set (snd (run_alloc allocate release s ops)).
            holds s r = None \<and> holds (fst (run_alloc allocate release s ops)) r = Some w)"
  using assms
proof (induction ops arbitrary: s)
  case Nil
  then show ?case by simp
next
  case (Cons x ops)
  then obtain w where x: "x = AllocFor w" by (cases x) auto
  show ?case
  proof (cases "allocate s w")
    case (Inl e)
    with Cons x show ?thesis by simp
  next
    case (Inr q)
    obtain r s' where q: "q = (r, s')" by force
    obtain t gs where run: "run_alloc allocate release s' ops = (t, gs)" by force
    have h: "holds s r = None" "holds s' = (holds s)(r \<mapsto> w)" "inv s'"
      using allocate_fresh allocate_holds allocate_inv Cons.prems(1) Inr q by blast+
    have keep: "holds t r = Some w \<and> r \<notin> fst ` set gs"
      using run_keeps_holder [of s' r w ops] h Cons.prems(2) run by simp
    have ih: "distinct (map fst gs) \<and> (\<forall>(r, w) \<in> set gs. holds s' r = None \<and> holds t r = Some w)"
      using Cons.IH [OF h(3)] Cons.prems(2) run by simp
    have "holds s a = None" if "(a, b) \<in> set gs" for a b
      using ih that h(2) by (fastforce split: if_splits)
    then show ?thesis using keep ih h x Inr q run by auto
  qed
qed

text \<open>Reloading: marking a list of pairs as held, each while it is restorable.\<close>

fun reload :: "'s \<Rightarrow> ('r \<times> string) list \<Rightarrow> 'e + 's" where
  "reload s [] = Inr s"
| "reload s ((r, w) # xs) = ebind (restore s r w) (\<lambda>s'. reload s' xs)"

end

end
