(* ===== verification/Ipam.thy ===== *)
theory Ipam
  imports SubnetStep NetipParse Allocator
begin

text \<open>
  controller/internal/allocator/ipam/ipam.go: the address pool. A pool hands out subnets of one
  length from its CIDR, released subnets first, and otherwise the one at its high-water mark
  \<open>next\<close>. The mutex makes each method atomic, so each is one function on the pool.
\<close>

section \<open>The code\<close>

record pool =
  pool_name :: string
  cidr :: prefix
  alloc_len :: int
  next_free :: addr
  allocated :: "prefix \<Rightarrow> string option"
  released :: "prefix list"

datatype ipam_error =
    BadCidr string string
  | BadAllocPrefix string int prefix
  | PoolExhausted string prefix
  | SubnetNotAllocated string prefix
  | SubnetForeign string prefix prefix int
  | SubnetTaken string prefix string

definition new_pool :: "string \<Rightarrow> string \<Rightarrow> int \<Rightarrow> ipam_error + pool" where
  "new_pool name c ap =
    (case parse_prefix c of
       None \<Rightarrow> Inl (BadCidr name c)
     | Some q \<Rightarrow>
        (let p = masked q in
         if ap < pbits p \<or> int (bit_len (paddr p)) < ap then Inl (BadAllocPrefix name ap p)
         else Inr \<lparr>pool_name = name, cidr = p, alloc_len = ap, next_free = paddr p,
                    allocated = Map.empty, released = []\<rparr>))"

text \<open>\<open>p.released[n-1]\<close> with \<open>p.released[:n-1]\<close> is \<open>last\<close> with \<open>butlast\<close>.\<close>

definition allocate :: "pool \<Rightarrow> string \<Rightarrow> ipam_error + prefix \<times> pool" where
  "allocate p owner =
    (if released p \<noteq> [] then
       (let sub = last (released p) in
        Inr (sub, p\<lparr>released := butlast (released p), allocated := (allocated p)(sub \<mapsto> owner)\<rparr>))
     else
       (let sub = prefix_from (next_free p) (alloc_len p) in
        if \<not> contains (cidr p) (paddr sub) \<or> paddr (masked sub) \<noteq> paddr sub
        then Inl (PoolExhausted (pool_name p) (cidr p))
        else Inr (sub, p\<lparr>next_free := next_subnet_start sub, allocated := (allocated p)(sub \<mapsto> owner)\<rparr>)))"

definition release :: "pool \<Rightarrow> prefix \<Rightarrow> ipam_error + pool" where
  "release p sub =
    (if allocated p sub = None then Inl (SubnetNotAllocated (pool_name p) sub)
     else Inr (p\<lparr>allocated := (allocated p)(sub := None), released := released p @ [sub]\<rparr>))"

definition restore :: "pool \<Rightarrow> prefix \<Rightarrow> string \<Rightarrow> ipam_error + pool" where
  "restore p sub owner =
    (if pbits sub \<noteq> alloc_len p \<or> \<not> contains (cidr p) (paddr sub)
     then Inl (SubnetForeign (pool_name p) sub (cidr p) (alloc_len p))
     else case allocated p sub of
       Some prev \<Rightarrow> Inl (SubnetTaken (pool_name p) sub prev)
     | None \<Rightarrow>
        (let p1 = p\<lparr>allocated := (allocated p)(sub \<mapsto> owner)\<rparr>; e = next_subnet_start sub in
         Inr (if next_free p < e then p1\<lparr>next_free := e\<rparr> else p1)))"

text \<open>\<open>Usage\<close>; the first count is \<open>len(p.allocated)\<close>, the second saturates at \<open>1 << 63\<close>.\<close>

definition usage :: "pool \<Rightarrow> nat \<times> nat" where
  "usage p = (let bits = alloc_len p - pbits (cidr p) in
     (card (dom (allocated p)), if 63 \<le> bits then 2 ^ 63 else 2 ^ nat bits))"

section \<open>The pool invariant\<close>

abbreviation base_num :: "pool \<Rightarrow> nat" where "base_num p \<equiv> anum (paddr (cidr p))"
abbreviation fam :: "pool \<Rightarrow> nat" where "fam p \<equiv> bit_len (paddr (cidr p))"

definition step :: "pool \<Rightarrow> nat" where
  "step p = 2 ^ nat (int (fam p) - alloc_len p)"

definition limit :: "pool \<Rightarrow> nat" where
  "limit p = base_num p + 2 ^ host_bits (cidr p)"

text \<open>The subnets below the high-water mark are the ones ever handed out or restored.\<close>

definition high_water :: "pool \<Rightarrow> nat" where
  "high_water p = (if bit_len (next_free p) = fam p then anum (next_free p) else limit p)"

definition pool_wf :: "pool \<Rightarrow> bool" where
  "pool_wf p \<longleftrightarrow> is_valid (cidr p) \<and> paddr (cidr p) \<noteq> NoAddr \<and> masked (cidr p) = cidr p \<and>
     pbits (cidr p) \<le> alloc_len p \<and> alloc_len p \<le> int (fam p) \<and>
     (is4 (paddr (cidr p)) \<or> limit p < 2 ^ 128)"

definition next_ok :: "pool \<Rightarrow> bool" where
  "next_ok p \<longleftrightarrow>
     (bit_len (next_free p) = fam p \<and> base_num p \<le> anum (next_free p) \<and> anum (next_free p) \<le> limit p \<and>
        step p dvd anum (next_free p)) \<or>
     (is4 (paddr (cidr p)) \<and> \<not> is4 (next_free p) \<and> limit p = 2 ^ 32 \<and> bit_len (next_free p) = 128)"

definition in_range :: "pool \<Rightarrow> prefix \<Rightarrow> bool" where
  "in_range p s \<longleftrightarrow> pbits s = alloc_len p \<and> bit_len (paddr s) = fam p \<and> base_num p \<le> anum (paddr s) \<and>
     anum (paddr s) + step p \<le> high_water p \<and> step p dvd anum (paddr s)"

definition pool_inv :: "pool \<Rightarrow> bool" where
  "pool_inv p \<longleftrightarrow> pool_wf p \<and> next_ok p \<and> distinct (released p) \<and>
     set (released p) \<inter> dom (allocated p) = {} \<and>
     (\<forall>s \<in> set (released p) \<union> dom (allocated p). in_range p s)"

lemma cidr_aligned: "pool_wf p \<Longrightarrow> 2 ^ host_bits (cidr p) dvd base_num p"
  by (auto simp: pool_wf_def masked_def clear_low_eq_iff [symmetric] dest: arg_cong [where f = paddr])

lemma step_dvd_block: "pool_wf p \<Longrightarrow> step p dvd 2 ^ host_bits (cidr p)"
  by (auto simp: pool_wf_def step_def host_bits_def intro!: le_imp_power_dvd)

lemma step_dvd_limit: "pool_wf p \<Longrightarrow> step p dvd limit p"
  by (auto simp: limit_def intro!: dvd_add step_dvd_block dvd_trans [OF step_dvd_block cidr_aligned])

lemma limit_le: "pool_wf p \<Longrightarrow> limit p \<le> 2 ^ fam p"
proof -
  assume wf: "pool_wf p"
  have lt: "base_num p < 2 ^ fam p" using wf by (intro anum_lt) (simp add: pool_wf_def)
  have "2 ^ host_bits (cidr p) dvd (2::nat) ^ fam p"
    using wf by (intro le_imp_power_dvd) (auto simp: pool_wf_def host_bits_def is_valid_def)
  then show ?thesis
    using block_le [OF cidr_aligned [OF wf] _ lt] by (simp add: limit_def)
qed

lemma contains_cidr_iff:
  assumes wf: "pool_wf p"
  shows "contains (cidr p) a \<longleftrightarrow> bit_len a = fam p \<and> base_num p \<le> anum a \<and> anum a < limit p"
  using wf div_block_iff [OF _ cidr_aligned [OF wf], of "anum a"]
  by (auto simp: contains_iff pool_wf_def limit_def)

text \<open>The step of the high-water mark: from an aligned subnet inside the pool to the next one.\<close>

lemma next_start_in_pool:
  assumes wf: "pool_wf p" and s: "pbits s = alloc_len p" "bit_len (paddr s) = fam p"
    "base_num p \<le> anum (paddr s)" "anum (paddr s) < limit p" "step p dvd anum (paddr s)"
  defines "n \<equiv> anum (paddr s) + step p"
  shows "n \<le> limit p \<and> (if bit_len (next_subnet_start s) = fam p then anum (next_subnet_start s) = n
      else n = limit p \<and> is4 (paddr (cidr p)) \<and> limit p = 2 ^ 32 \<and> bit_len (next_subnet_start s) = 128)"
proof -
  have le: "n \<le> limit p"
    using block_le [OF s(5) step_dvd_limit [OF wf] s(4)] by (simp add: n_def)
  have hb: "2 ^ host_bits s = step p"
    using s(1,2) by (simp add: host_bits_def step_def)
  have mk: "anum (paddr (masked s)) = anum (paddr s)"
    using s(1,5) wf hb by (auto simp: masked_def is_valid_def pool_wf_def anum_clear_low)
  show ?thesis
  proof (cases "paddr s")
    case NoAddr
    then show ?thesis using s(2) wf by (simp add: pool_wf_def)
  next
    case (V4 w)
    then have fam: "fam p = 32" "is4 (paddr (cidr p))" using s(2) by (simp_all add: is4_def)
    have "next_subnet_start s = (if n < 2 ^ 32 then V4 (word_of_nat n) else V6 (0x10000 * 2 ^ 32))"
      using next_subnet_start_v4 [OF V4] s(1) wf fam
      by (simp add: mk hb n_def pool_wf_def is_valid_def del: next_subnet_start_def)
    moreover have "n < 2 ^ 32 \<Longrightarrow> unat (word_of_nat n :: 32 word) = n" by (simp add: unat_of_nat)
    ultimately show ?thesis using le fam limit_le [OF wf] by auto
  next
    case (V6 w)
    then have fam: "fam p = 128" "\<not> is4 (paddr (cidr p))" using s(2) by (simp_all add: is4_def)
    have lim: "limit p < 2 ^ 128" using wf fam by (simp add: pool_wf_def)
    have "0 < pbits (cidr p)"
    proof (rule ccontr)
      assume "\<not> 0 < pbits (cidr p)"
      then have "host_bits (cidr p) = 128" using wf fam by (simp add: pool_wf_def host_bits_def is_valid_def)
      then show False using lim by (simp add: limit_def)
    qed
    then have "next_subnet_start s = V6 (word_of_nat n)"
      using next_subnet_start_v6 [OF V6] s(1) wf fam by (simp add: mk hb n_def pool_wf_def)
    moreover have "unat (word_of_nat n :: 128 word) = n"
      using le lim by (intro unat_128) simp
    ultimately show ?thesis using le fam by simp
  qed
qed

section \<open>The operations keep the invariant\<close>

lemma in_range_mono:
  "in_range p s \<Longrightarrow> cidr q = cidr p \<Longrightarrow> alloc_len q = alloc_len p \<Longrightarrow> high_water p \<le> high_water q \<Longrightarrow> in_range q s"
  by (auto simp: in_range_def step_def)

lemma prefix_eqI: "paddr s = paddr t \<Longrightarrow> pbits s = pbits t \<Longrightarrow> s = t"
  by (cases s; cases t) simp

lemma pool_invD: "pool_inv p \<Longrightarrow> s \<in> set (released p) \<union> dom (allocated p) \<Longrightarrow> in_range p s"
  by (simp add: pool_inv_def)

lemma new_pool_inv: "new_pool name c ap = Inr p \<Longrightarrow> is4 (paddr (cidr p)) \<or> limit p < 2 ^ 128 \<Longrightarrow> pool_inv p"
proof -
  assume "new_pool name c ap = Inr p" and top: "is4 (paddr (cidr p)) \<or> limit p < 2 ^ 128"
  then obtain q where q: "parse_prefix c = Some q" "cidr p = masked q" "alloc_len p = ap"
    "next_free p = paddr (masked q)" "allocated p = Map.empty" "released p = []"
    "pbits (masked q) \<le> ap" "ap \<le> int (bit_len (paddr (masked q)))"
    by (auto simp: new_pool_def Let_def not_less split: option.splits if_splits)
  have v: "is_valid q" "paddr q \<noteq> NoAddr" "pbits q \<le> int (bit_len (paddr q))"
    using parse_prefix_ok [OF q(1)] by simp_all
  have m: "masked (masked q) = masked q" "is_valid (masked q)" "paddr (masked q) \<noteq> NoAddr"
    using v masked_idem [of q] by (simp_all add: masked_def is_valid_def)
  have wf: "pool_wf p" using q m top by (simp add: pool_wf_def)
  have "step p dvd base_num p"
    using step_dvd_block [OF wf] cidr_aligned [OF wf] by (rule dvd_trans)
  then have "next_ok p" using q by (auto simp: next_ok_def limit_def)
  then show ?thesis using wf q by (simp add: pool_inv_def)
qed

lemma fresh_subnet:
  assumes inv: "pool_inv p" and c: "contains (cidr p) (next_free p)"
  defines "sub \<equiv> prefix_from (next_free p) (alloc_len p)"
  shows "sub = Prefix (next_free p) (alloc_len p)" "bit_len (next_free p) = fam p"
    "base_num p \<le> anum (next_free p)" "anum (next_free p) < limit p" "step p dvd anum (next_free p)"
    "paddr (masked sub) = paddr sub" "high_water p = anum (next_free p)"
proof -
  have wf: "pool_wf p" and nx: "next_ok p" using inv by (simp_all add: pool_inv_def)
  have r: "bit_len (next_free p) = fam p" "base_num p \<le> anum (next_free p)" "anum (next_free p) < limit p"
    using c contains_cidr_iff [OF wf] by auto
  then show "bit_len (next_free p) = fam p" "base_num p \<le> anum (next_free p)" "anum (next_free p) < limit p" by auto
  show d: "step p dvd anum (next_free p)" using nx r by (auto simp: next_ok_def is4_def)
  show s: "sub = Prefix (next_free p) (alloc_len p)"
    using r wf unfolding sub_def
    by (cases "next_free p") (auto simp: prefix_from_def pool_wf_def is_valid_def)
  show "high_water p = anum (next_free p)" using r by (simp add: high_water_def)
  have "host_bits sub = nat (int (fam p) - alloc_len p)" using s r by (simp add: host_bits_def)
  then show "paddr (masked sub) = paddr sub"
    using s d wf by (simp add: masked_def is_valid_def pool_wf_def clear_low_eq_iff step_def)
qed

lemma allocate_fresh_cases:
  assumes inv: "pool_inv p" and "allocate p w = Inr (sub, p')"
  obtains (reuse) "released p \<noteq> []" "sub = last (released p)"
      "p' = p\<lparr>released := butlast (released p), allocated := (allocated p)(sub \<mapsto> w)\<rparr>"
  | (extend) "released p = []" "contains (cidr p) (next_free p)" "sub = Prefix (next_free p) (alloc_len p)"
      "p' = p\<lparr>next_free := next_subnet_start sub, allocated := (allocated p)(sub \<mapsto> w)\<rparr>"
  using assms fresh_subnet [OF inv]
  by (auto simp: allocate_def Let_def split: if_splits)

lemma extend_inv:
  assumes inv: "pool_inv p"
    and s: "pbits s = alloc_len p" "bit_len (paddr s) = fam p" "base_num p \<le> anum (paddr s)"
      "anum (paddr s) < limit p" "step p dvd anum (paddr s)" "s \<notin> set (released p)" "allocated p s = None"
    and hw: "high_water p \<le> anum (paddr s) + step p"
  shows "pool_inv (p\<lparr>next_free := next_subnet_start s, allocated := (allocated p)(s \<mapsto> w)\<rparr>)" (is "pool_inv ?q")
proof -
  have wf: "pool_wf p" using inv by (simp add: pool_inv_def)
  let ?n = "anum (paddr s) + step p"
  have nx: "?n \<le> limit p" "if bit_len (next_subnet_start s) = fam p then anum (next_subnet_start s) = ?n
      else ?n = limit p \<and> is4 (paddr (cidr p)) \<and> limit p = 2 ^ 32 \<and> bit_len (next_subnet_start s) = 128"
    using next_start_in_pool [OF wf s(1-5)] by auto
  have sel [simp]: "step ?q = step p" "limit ?q = limit p" by (simp_all add: step_def limit_def)
  have hq: "high_water ?q = ?n" using nx by (auto simp: high_water_def limit_def split: if_splits)
  have "next_ok ?q"
    using nx s(3,5) by (auto simp: next_ok_def is4_def split: if_splits)
  moreover have "in_range ?q t" if "t \<in> set (released p) \<union> dom (allocated p)" for t
    by (rule in_range_mono [OF pool_invD [OF inv that]]) (use hw hq in simp_all)
  moreover have "in_range ?q s" using s hq by (simp add: in_range_def)
  moreover have "pool_wf ?q" using wf by (simp add: pool_wf_def)
  ultimately show ?thesis using inv s(6) by (auto simp: pool_inv_def)
qed

lemma allocate_none:
  assumes inv: "pool_inv p" and a: "allocate p w = Inr (sub, p')"
  shows "allocated p sub = None"
  using assms
proof (cases rule: allocate_fresh_cases)
  case reuse
  then have "sub \<in> set (released p)" by simp
  then show ?thesis using inv by (fastforce simp: pool_inv_def)
next
  case extend
  show ?thesis
  proof (rule ccontr)
    assume "allocated p sub \<noteq> None"
    then have "in_range p sub" using inv by (auto simp: pool_inv_def)
    then show False using fresh_subnet(7) [OF inv extend(2)] extend(3) by (simp add: in_range_def step_def)
  qed
qed

lemma not_seen: "pool_inv p \<Longrightarrow> contains (cidr p) (next_free p) \<Longrightarrow> Prefix (next_free p) (alloc_len p) \<notin> set (released p)"
proof
  assume inv: "pool_inv p" and c: "contains (cidr p) (next_free p)"
    and "Prefix (next_free p) (alloc_len p) \<in> set (released p)"
  then have "in_range p (Prefix (next_free p) (alloc_len p))" by (auto simp: pool_inv_def)
  then show False using fresh_subnet(7) [OF inv c] by (simp add: in_range_def step_def)
qed

lemma allocate_inv: "pool_inv p \<Longrightarrow> allocate p w = Inr (sub, p') \<Longrightarrow> pool_inv p'"
proof -
  assume inv: "pool_inv p" and a: "allocate p w = Inr (sub, p')"
  have none: "allocated p sub = None" using allocate_none [OF inv a] .
  show "pool_inv p'"
    using inv a
  proof (cases rule: allocate_fresh_cases)
    case reuse
    obtain xs where xs: "released p = xs @ [sub]" using reuse by (metis append_butlast_last_id)
    have "in_range p' t" if "t \<in> set (released p) \<union> dom (allocated p)" for t
      by (rule in_range_mono [OF pool_invD [OF inv that]])
        (simp_all add: reuse(3) high_water_def limit_def)
    moreover have "pool_wf p' = pool_wf p" "next_ok p' = next_ok p"
      by (simp_all add: reuse(3) pool_wf_def next_ok_def limit_def step_def)
    moreover have "released p' = xs" "dom (allocated p') = insert sub (dom (allocated p))"
      by (simp_all add: reuse(3) xs)
    moreover have "pool_wf p" "next_ok p" "distinct (xs @ [sub])" "set (xs @ [sub]) \<inter> dom (allocated p) = {}"
      using inv by (simp_all add: pool_inv_def xs)
    ultimately show ?thesis unfolding pool_inv_def xs by auto
  next
    case extend
    show ?thesis unfolding extend(4)
      by (rule extend_inv [OF inv])
        (use fresh_subnet [OF inv extend(2)] extend(3) not_seen [OF inv extend(2)] none in auto)
  qed
qed

lemma release_inv: "pool_inv p \<Longrightarrow> release p sub = Inr p' \<Longrightarrow> pool_inv p'"
proof -
  assume inv: "pool_inv p" and "release p sub = Inr p'"
  then have s: "allocated p sub \<noteq> None"
    and p': "p' = p\<lparr>allocated := (allocated p)(sub := None), released := released p @ [sub]\<rparr>"
    by (auto simp: release_def split: if_splits)
  have "in_range p' t" if "t \<in> set (released p) \<union> dom (allocated p)" for t
    by (rule in_range_mono [OF pool_invD [OF inv that]]) (use p' in \<open>simp_all add: high_water_def limit_def\<close>)
  moreover have "pool_wf p' = pool_wf p" "next_ok p' = next_ok p"
    using p' by (simp_all add: pool_wf_def next_ok_def limit_def step_def)
  ultimately show ?thesis using inv s p' by (fastforce simp: pool_inv_def)
qed

text \<open>What \<open>Restore\<close> may be given: a masked subnet that is not on the free list. \<open>Restore\<close> itself
  checks neither.\<close>

definition restorable :: "pool \<Rightarrow> prefix \<Rightarrow> bool" where
  "restorable p sub \<longleftrightarrow> masked sub = sub \<and> sub \<notin> set (released p)"

lemma restore_inv: "pool_inv p \<Longrightarrow> restorable p sub \<Longrightarrow> restore p sub w = Inr p' \<Longrightarrow> pool_inv p'"
proof -
  assume inv: "pool_inv p" and ok: "restorable p sub" and r: "restore p sub w = Inr p'"
  have wf: "pool_wf p" using inv by (simp add: pool_inv_def)
  have c: "pbits sub = alloc_len p" "contains (cidr p) (paddr sub)" "allocated p sub = None"
    using r by (auto simp: restore_def split: if_splits option.splits)
  let ?e = "next_subnet_start sub"
  have p': "p' = (if next_free p < ?e then p\<lparr>next_free := ?e, allocated := (allocated p)(sub \<mapsto> w)\<rparr>
      else p\<lparr>allocated := (allocated p)(sub \<mapsto> w)\<rparr>)"
    using r c by (auto simp: restore_def Let_def split: if_splits)
  have s: "bit_len (paddr sub) = fam p" "base_num p \<le> anum (paddr sub)" "anum (paddr sub) < limit p"
    using c(2) contains_cidr_iff [OF wf] by auto
  have "clear_low (host_bits sub) (paddr sub) = paddr sub"
    using ok c(1) wf by (auto simp: restorable_def masked_def is_valid_def pool_wf_def dest: arg_cong [where f = paddr])
  then have d: "step p dvd anum (paddr sub)"
    using c(1) s(1) by (simp add: clear_low_eq_iff host_bits_def step_def)
  let ?n = "anum (paddr sub) + step p"
  have nx: "?n \<le> limit p" "if bit_len ?e = fam p then anum ?e = ?n
      else ?n = limit p \<and> is4 (paddr (cidr p)) \<and> limit p = 2 ^ 32 \<and> bit_len ?e = 128"
    using next_start_in_pool [OF wf c(1) s d] by auto
  have nf: "next_ok p" using inv by (simp add: pool_inv_def)
  have lim: "limit p \<le> 2 ^ fam p" by (rule limit_le [OF wf])
  show "pool_inv p'"
  proof (cases "next_free p < ?e")
    case True
    then have "high_water p \<le> ?n"
      using nx nf by (auto simp: high_water_def next_ok_def less_addr_def is4_def split: if_splits)
    then show ?thesis
      using extend_inv [OF inv c(1) s d] ok c(3) True p' by (simp add: restorable_def)
  next
    case False
    then have "?n \<le> high_water p"
      using nx nf by (auto simp: high_water_def next_ok_def less_addr_def is4_def split: if_splits)
    then have "in_range p sub" using c(1) s d by (simp add: in_range_def)
    moreover have q: "p' = p\<lparr>allocated := (allocated p)(sub \<mapsto> w)\<rparr>" using p' False by simp
    moreover have "in_range p' t = in_range p t" "pool_wf p' = pool_wf p" "next_ok p' = next_ok p" for t
      using q by (simp_all add: in_range_def high_water_def limit_def step_def pool_wf_def next_ok_def)
    ultimately show ?thesis using inv ok by (auto simp: pool_inv_def restorable_def)
  qed
qed

interpretation pool: unique_allocator allocate release restore allocated pool_inv restorable
proof unfold_locales
  show "allocate s w = Inr (r, s') \<Longrightarrow> allocated s' = (allocated s)(r \<mapsto> w)" if "pool_inv s" for s w r s'
    using that by (auto elim!: allocate_fresh_cases)
  show "release s r = Inr s' \<Longrightarrow> allocated s r \<noteq> None \<and> allocated s' = (allocated s)(r := None)" for s r s'
    by (auto simp: release_def split: if_splits)
  show "restore s r w = Inr s' \<Longrightarrow> allocated s r = None \<and> allocated s' = (allocated s)(r \<mapsto> w)" for s r w s'
    by (auto simp: restore_def Let_def split: if_splits option.splits)
qed (auto intro: allocate_none allocate_inv release_inv restore_inv)

end
