(* ===== verification/IpamProps.thy ===== *)
theory IpamProps
  imports Ipam
begin

text \<open>
  The properties of the address pool: the byte-wise step is addition, runs of Allocate and
  Release never hand out overlapping subnets, a fresh pool counts through its CIDR in order and
  is exhausted after exactly the number of subnets \<open>Usage\<close> reports, and a released subnet is the
  next one handed out.
\<close>

section \<open>The step of the high-water mark\<close>

text \<open>on IPv4, the byte loop of \<open>nextSubnetStart\<close> adds the subnet size to the masked base
  address; past the last IPv4 address it yields an IPv6 address, which no IPv4 pool contains.\<close>

theorem next_subnet_start_adds:
  assumes "paddr sub = V4 w" "0 \<le> pbits sub" "pbits sub \<le> 32"
  shows "(let n = unat w div 2 ^ nat (32 - pbits sub) * 2 ^ nat (32 - pbits sub) + 2 ^ nat (32 - pbits sub) in
     if n < 2 ^ 32 then next_subnet_start sub = V4 (word_of_nat n)
     else \<not> is4 (next_subnet_start sub) \<and> (\<forall>q. is4 (paddr q) \<longrightarrow> \<not> contains q (next_subnet_start sub)))"
proof -
  have "anum (paddr (masked sub)) = unat w div 2 ^ nat (32 - pbits sub) * 2 ^ nat (32 - pbits sub)"
    using assms by (simp add: masked_def is_valid_def host_bits_def unat_push_drop)
  then show ?thesis
    using next_subnet_start_v4 [OF assms] assms(1)
    by (auto simp: Let_def host_bits_def contains_iff is4_def)
qed

theorem next_subnet_start_adds_witness:
  "next_subnet_start (Prefix (V4 0x0A6400FF) 24) = V4 0x0A640100"
proof -
  have "unat (0x0A6400FF :: 32 word) div 2 ^ nat (32 - 24) * 2 ^ nat (32 - 24) + 2 ^ nat (32 - 24) = 0x0A640100" by simp
  then show ?thesis
    using next_subnet_start_adds [of "Prefix (V4 0x0A6400FF) 24" "0x0A6400FF"] by (simp add: Let_def)
qed

section \<open>No subnet has two owners\<close>

lemma new_pool_v4:
  assumes "new_pool name c ap = Inr p" "is4 (paddr (cidr p))"
  shows "pool_inv p"
  using new_pool_inv [OF assms(1)] assms(2) by simp

lemma high_water_le: "pool_inv p \<Longrightarrow> high_water p \<le> limit p"
  by (auto simp: pool_inv_def next_ok_def high_water_def is4_def)

lemma in_range_disjoint:
  assumes wf: "pool_wf p" and s: "in_range p s" and t: "in_range p t" and "s \<noteq> t"
  shows "\<not> (contains s a \<and> contains t a)"
proof
  assume c: "contains s a \<and> contains t a"
  have hb: "2 ^ host_bits s = step p" "2 ^ host_bits t = step p"
    using s t by (auto simp: in_range_def host_bits_def step_def)
  have "anum (paddr s) div step p = anum (paddr t) div step p"
    using c hb by (simp add: contains_iff)
  then have "anum (paddr s) = anum (paddr t)"
    using s t by (metis dvd_div_mult_self in_range_def)
  then have "s = t" using s t by (intro prefix_eqI addr_eqI) (auto simp: in_range_def)
  then show False using \<open>s \<noteq> t\<close> by simp
qed

text \<open>C2: after any sequence of Allocate and Release calls on a new IPv4 pool, the subnets held
  by owners lie inside the pool's CIDR and no address is in two of them.\<close>

theorem held_subnets_disjoint:
  assumes "new_pool name c ap = Inr p" "is4 (paddr (cidr p))"
    and "q = fst (run_alloc allocate release p ops)"
    and "allocated q s \<noteq> None" "allocated q t \<noteq> None" "s \<noteq> t"
  shows "contains (cidr q) (paddr s) \<and> \<not> (contains s a \<and> contains t a)"
proof -
  have inv: "pool_inv q" using pool.run_inv new_pool_v4 [OF assms(1,2)] assms(3) by simp
  then have wf: "pool_wf q" by (simp add: pool_inv_def)
  have r: "in_range q s" "in_range q t" using pool_invD [OF inv] assms(4,5) by auto
  have "high_water q \<le> limit q" by (rule high_water_le [OF inv])
  moreover have "0 < step q" by (simp add: step_def)
  ultimately have "contains (cidr q) (paddr s)"
    using r(1) contains_cidr_iff [OF wf] by (auto simp: in_range_def)
  then show ?thesis using in_range_disjoint [OF wf r assms(6)] by simp
qed

text \<open>an owner's subnet is never handed out again while it is held: after an Allocate that
  returned \<open>sub\<close>, a run that does not release \<open>sub\<close> keeps its owner and returns other subnets.\<close>

theorem held_subnet_not_regranted:
  assumes "new_pool name c ap = Inr p" "is4 (paddr (cidr p))"
    and "allocate (fst (run_alloc allocate release p ops)) w = Inr (sub, q)"
    and "ReleaseRes sub \<notin> set ops'"
  shows "allocated (fst (run_alloc allocate release q ops')) sub = Some w
       \<and> sub \<notin> fst ` set (snd (run_alloc allocate release q ops'))"
proof -
  have "pool_inv (fst (run_alloc allocate release p ops))"
    using pool.run_inv new_pool_v4 [OF assms(1,2)] by simp
  note this [THEN pool.allocate_inv, OF assms(3)]
  moreover have "allocated q sub = Some w"
    using pool.allocate_holds [OF _ assms(3)] \<open>pool_inv (fst (run_alloc allocate release p ops))\<close> by simp
  ultimately show ?thesis using assms(4) by (intro pool.run_keeps_holder)
qed

section \<open>A fresh pool counts through its CIDR\<close>

definition nth_subnet :: "pool \<Rightarrow> nat \<Rightarrow> prefix" where
  "nth_subnet p i = Prefix (V4 (word_of_nat (base_num p + i * step p))) (alloc_len p)"

lemma limit_total:
  assumes "pool_wf p"
  shows "limit p = base_num p + 2 ^ nat (alloc_len p - pbits (cidr p)) * step p"
proof -
  have "host_bits (cidr p) = nat (alloc_len p - pbits (cidr p)) + nat (int (fam p) - alloc_len p)"
    using assms by (simp add: host_bits_def pool_wf_def flip: nat_add_distrib)
  then show ?thesis by (simp add: limit_def step_def power_add)
qed

lemma unat_32: "n < 2 ^ 32 \<Longrightarrow> unat (word_of_nat n :: 32 word) = n"
  by (simp add: unat_of_nat)

lemma nth_subnet_simps:
  "bit_len (paddr (nth_subnet p i)) = 32" "pbits (nth_subnet p i) = alloc_len p"
  "base_num p + i * step p < 2 ^ 32 \<Longrightarrow> anum (paddr (nth_subnet p i)) = base_num p + i * step p"
  unfolding nth_subnet_def prefix.sel anum.simps by (simp, simp, rule unat_32)

lemma allocate_at:
  assumes inv: "pool_inv p" and v4: "is4 (paddr (cidr p))" and rel: "released p = []"
    and i: "i < 2 ^ nat (alloc_len p - pbits (cidr p))"
    and nf: "next_free p = paddr (nth_subnet p i)"
  shows "\<exists>q. allocate p w = Inr (nth_subnet p i, q) \<and> pool_inv q \<and> cidr q = cidr p \<and>
     alloc_len q = alloc_len p \<and> pool_name q = pool_name p \<and> released q = [] \<and>
     (if Suc i < 2 ^ nat (alloc_len p - pbits (cidr p)) then next_free q = paddr (nth_subnet p (Suc i))
      else \<not> contains (cidr q) (next_free q))"
proof -
  have wf: "pool_wf p" using inv by (simp add: pool_inv_def)
  let ?n = "base_num p + i * step p" and ?T = "2 ^ nat (alloc_len p - pbits (cidr p)) :: nat"
  have pos: "0 < step p" by (simp add: step_def)
  have fam: "fam p = 32" using v4 by (simp add: is4_def)
  have lt: "?n < limit p" using i pos limit_total [OF wf] by simp
  have lim: "limit p \<le> 2 ^ 32" using limit_le [OF wf] fam by simp
  have num: "anum (next_free p) = ?n" "bit_len (next_free p) = fam p"
    unfolding nf using nth_subnet_simps [of p i] lt lim fam by linarith+
  have c: "contains (cidr p) (next_free p)" using num lt contains_cidr_iff [OF wf] by simp
  note fr = fresh_subnet [OF inv c]
  define s where "s = nth_subnet p i"
  have s: "Prefix (next_free p) (alloc_len p) = s" "paddr s = next_free p" "pbits s = alloc_len p"
    by (simp_all add: s_def nf nth_subnet_def)
  define q where "q = p\<lparr>next_free := next_subnet_start s, allocated := (allocated p)(s \<mapsto> w)\<rparr>"
  have al: "allocate p w = Inr (s, q)"
    using rel c fr(1,6) s by (simp add: allocate_def q_def Let_def)
  then have qi: "pool_inv q" using inv pool.allocate_inv by blast
  have nx: "?n + step p \<le> limit p" "if bit_len (next_free q) = fam p then anum (next_free q) = ?n + step p
      else ?n + step p = limit p"
    using next_start_in_pool [OF wf, of s] num fr(2-5) s by (auto simp: q_def split: if_splits)
  have sel: "limit q = limit p" "cidr q = cidr p" "alloc_len q = alloc_len p" "pool_name q = pool_name p" "released q = []"
    using rel by (simp_all add: q_def limit_def)
  have "if Suc i < ?T then next_free q = paddr (nth_subnet p (Suc i)) else \<not> contains (cidr q) (next_free q)"
  proof (cases "Suc i < ?T")
    case True
    have sm: "base_num p + Suc i * step p = ?n + step p" by simp
    have "Suc i * step p < ?T * step p" using True pos by (simp only: mult_less_mono1)
    then have lt': "?n + step p < limit p" using limit_total [OF wf] sm by linarith
    then have fm: "bit_len (next_free q) = 32"  "anum (next_free q) = ?n + step p"
      using nx(2) fam by (auto split: if_splits)
    have "base_num p + Suc i * step p < 2 ^ 32" using lt' lim sm by linarith
    note this [THEN nth_subnet_simps(3)]
    then have "anum (paddr (nth_subnet p (Suc i))) = ?n + step p" using sm by simp
    then have "next_free q = paddr (nth_subnet p (Suc i))"
      using fm nth_subnet_simps(1) [of p "Suc i"] by (intro addr_eqI) simp_all
    with True show ?thesis by simp
  next
    case False
    then have "Suc i = ?T" using i by simp
    then have "limit p = base_num p + Suc i * step p" using limit_total [OF wf] by simp
    then have "?n + step p = limit p" by simp
    then have "\<not> contains (cidr q) (next_free q)"
      using nx(2) contains_cidr_iff [of q] qi sel by (auto simp: pool_inv_def split: if_splits)
    with False show ?thesis by simp
  qed
  with al qi sel show ?thesis unfolding s_def by blast
qed

lemma exhausted_run:
  assumes "released p = []" "\<not> contains (cidr p) (next_free p)"
  shows "run_alloc allocate release p (map AllocFor ws) = (p, [])"
  using assms by (induction ws) (simp_all add: allocate_def Let_def)

lemma fresh_run:
  assumes "pool_inv p" "is4 (paddr (cidr p))" "released p = []"
    and "i < 2 ^ nat (alloc_len p - pbits (cidr p))" "next_free p = paddr (nth_subnet p i)"
  shows "snd (run_alloc allocate release p (map AllocFor ws))
       = zip (map (nth_subnet p) [i..<2 ^ nat (alloc_len p - pbits (cidr p))]) ws"
  using assms
proof (induction ws arbitrary: p i)
  case Nil
  then show ?case by simp
next
  case (Cons w ws)
  let ?T = "2 ^ nat (alloc_len p - pbits (cidr p)) :: nat"
  obtain q where q: "allocate p w = Inr (nth_subnet p i, q)" "pool_inv q" "cidr q = cidr p"
    "alloc_len q = alloc_len p" "released q = []"
    "if Suc i < ?T then next_free q = paddr (nth_subnet p (Suc i)) else \<not> contains (cidr q) (next_free q)"
    using allocate_at [OF Cons.prems] by blast
  have same: "nth_subnet q = nth_subnet p" using q by (simp add: nth_subnet_def step_def fun_eq_iff)
  have up: "[i..<?T] = i # [Suc i..<?T]" using Cons.prems(4) by (rule upt_conv_Cons)
  show ?case
  proof (cases "Suc i < ?T")
    case True
    then have "snd (run_alloc allocate release q (map AllocFor ws)) = zip (map (nth_subnet p) [Suc i..<?T]) ws"
      using Cons.IH [of q "Suc i"] q Cons.prems(2) same by simp
    then show ?thesis using q(1) up by (simp add: split_beta)
  next
    case False
    then have "run_alloc allocate release q (map AllocFor ws) = (q, [])"
      using q by (intro exhausted_run) auto
    moreover have "[Suc i..<?T] = []" using False by simp
    ultimately show ?thesis using q(1) up by simp
  qed
qed

text \<open>the \<open>i\<close>-th Allocate of a new IPv4 pool returns the \<open>i\<close>-th subnet of its CIDR, in order,
  and exactly \<open>Usage\<close>'s total (below its saturation) of them succeed, the rest failing as exhausted.\<close>

theorem fresh_pool_sequence:
  assumes "new_pool name c ap = Inr p" "is4 (paddr (cidr p))"
  shows "snd (run_alloc allocate release p (map AllocFor ws)) = zip (map (nth_subnet p) [0..<snd (usage p)]) ws"
proof -
  have inv: "pool_inv p" using new_pool_v4 [OF assms] .
  have p: "released p = []" "next_free p = paddr (cidr p)" "allocated p = Map.empty"
    using assms(1) by (auto simp: new_pool_def Let_def split: option.splits if_splits)
  obtain w where w: "paddr (cidr p) = V4 w" using assms(2) by (cases "paddr (cidr p)") auto
  have "alloc_len p - pbits (cidr p) < 63"
    using inv w by (auto simp: pool_inv_def pool_wf_def is_valid_def)
  then have "snd (usage p) = 2 ^ nat (alloc_len p - pbits (cidr p))" by (simp add: usage_def Let_def)
  moreover have "next_free p = paddr (nth_subnet p 0)" using p(2) w by (simp add: nth_subnet_def)
  ultimately show ?thesis using fresh_run [OF inv assms(2) p(1), of 0] by simp
qed

text \<open>a released subnet leaves its owner and is exactly what the next Allocate returns, so
  freed addresses are used up before the pool's high-water mark moves.\<close>

lemma release_then_allocate:
  assumes "release p sub = Inr q"
  shows "allocated p sub \<noteq> None \<and> allocated q sub = None \<and>
    (\<exists>r. allocate q w = Inr (sub, r) \<and> next_free r = next_free p \<and> released r = released p \<and>
         allocated r = (allocated p)(sub \<mapsto> w))"
  using assms by (auto simp: release_def allocate_def Let_def split: if_splits)

text \<open>a pool declared with the text of an IPv4 prefix is the pool of that prefix: \<open>NewPool\<close> reads back
  what \<open>Prefix.String\<close> printed, masks it, and accepts exactly the subnet lengths from the prefix's
  own up to 32.\<close>

lemma new_pool_of_text:
  assumes "paddr c = V4 w" "0 \<le> pbits c" "pbits c \<le> 32"
  shows "new_pool name (show_prefix c) ap =
    (if pbits c \<le> ap \<and> ap \<le> 32
     then Inr \<lparr>pool_name = name, cidr = masked c, alloc_len = ap, next_free = paddr (masked c), allocated = Map.empty, released = []\<rparr>
     else Inl (BadAllocPrefix name ap (masked c)))"
proof -
  have "pbits (masked c) = pbits c" "bit_len (paddr (masked c)) = 32"
    using assms by (simp_all add: masked_def is_valid_def)
  then show ?thesis
    unfolding new_pool_def parse_show_prefix [OF assms] option.case Let_def by auto
qed

section \<open>Witnesses\<close>

text \<open>The pool of point-to-point subnets cut down to a /30: two /31 subnets.\<close>

definition p2p :: pool where
  "p2p = \<lparr>pool_name = ''fabricP2P'', cidr = Prefix (V4 0x0A000000) 30, alloc_len = 31, next_free = V4 0x0A000000,
     allocated = Map.empty, released = []\<rparr>"

lemma p2p_new: "new_pool ''fabricP2P'' ''10.0.0.0/30'' 31 = Inr p2p"
proof -
  have "parse_prefix ''10.0.0.0/30'' = Some (Prefix (V4 0x0A000000) 30)" by code_simp
  moreover have "masked (Prefix (V4 0x0A000000) 30) = Prefix (V4 0x0A000000) 30" by code_simp
  ultimately show ?thesis by (simp add: new_pool_def p2p_def)
qed

lemma p2p_v4: "is4 (paddr (cidr p2p))"
  by (simp add: p2p_def)

abbreviation p2p_subnet :: "32 word \<Rightarrow> prefix" where
  "p2p_subnet w \<equiv> Prefix (V4 w) 31"

lemma p2p_checks:
  "contains (Prefix (V4 0x0A000000) 30) (V4 0x0A000000)" "contains (Prefix (V4 0x0A000000) 30) (V4 0x0A000002)"
  "masked (p2p_subnet 0x0A000000) = p2p_subnet 0x0A000000" "masked (p2p_subnet 0x0A000002) = p2p_subnet 0x0A000002"
  "prefix_from (V4 w) 31 = p2p_subnet w" "next_subnet_start (p2p_subnet 0x0A000000) = V4 0x0A000002"
  using next_subnet_start_v4 [where sub = "p2p_subnet 0x0A000000"]
  by (simp_all add: contains_def masked_def is_valid_def host_bits_def prefix_from_def)

lemma p2p_alloc:
  "allocate p2p v = Inr (p2p_subnet 0x0A000000, p2p\<lparr>next_free := V4 0x0A000002, allocated := [p2p_subnet 0x0A000000 \<mapsto> v]\<rparr>)"
  "\<exists>q. allocate (p2p\<lparr>next_free := V4 0x0A000002, allocated := [p2p_subnet 0x0A000000 \<mapsto> v]\<rparr>) w = Inr (p2p_subnet 0x0A000002, q)
     \<and> allocated q = [p2p_subnet 0x0A000000 \<mapsto> v, p2p_subnet 0x0A000002 \<mapsto> w]"
  by (simp_all add: allocate_def p2p_def p2p_checks Let_def)

theorem held_subnets_disjoint_witness:
  "let q = fst (run_alloc allocate release p2p [AllocFor ''a--b'', AllocFor ''a--c'']) in
     contains (cidr q) (V4 0x0A000000) \<and>
     \<not> (contains (p2p_subnet 0x0A000000) (V4 0x0A000002) \<and> contains (p2p_subnet 0x0A000002) (V4 0x0A000002))"
proof -
  let ?q = "fst (run_alloc allocate release p2p [AllocFor ''a--b'', AllocFor ''a--c''])"
  have "allocated ?q = [p2p_subnet 0x0A000000 \<mapsto> ''a--b'', p2p_subnet 0x0A000002 \<mapsto> ''a--c'']"
    using p2p_alloc(2) [of "''a--b''" "''a--c''"] by (auto simp: p2p_alloc(1))
  then have "allocated ?q (p2p_subnet 0x0A000000) \<noteq> None" "allocated ?q (p2p_subnet 0x0A000002) \<noteq> None"
    by simp_all
  from held_subnets_disjoint [OF p2p_new p2p_v4 refl this, of "V4 0x0A000002"] show ?thesis
    by (simp add: Let_def)
qed

theorem held_subnet_not_regranted_witness:
  "\<exists>q. allocate p2p ''a--b'' = Inr (p2p_subnet 0x0A000000, q) \<and>
     allocated (fst (run_alloc allocate release q [AllocFor ''a--c''])) (p2p_subnet 0x0A000000) = Some ''a--b''"
proof -
  obtain q where q: "allocate p2p ''a--b'' = Inr (p2p_subnet 0x0A000000, q)"
    using p2p_alloc(1) by blast
  then have "allocate (fst (run_alloc allocate release p2p [])) ''a--b'' = Inr (p2p_subnet 0x0A000000, q)"
    by (simp only: run_alloc.simps fst_conv)
  from held_subnet_not_regranted [OF p2p_new p2p_v4 this, of "[AllocFor ''a--c'']"] q show ?thesis
    by fastforce
qed

theorem fresh_pool_sequence_witness:
  "snd (run_alloc allocate release p2p (map AllocFor [''a'', ''b'', ''c'']))
     = [(Prefix (V4 0x0A000000) 31, ''a''), (Prefix (V4 0x0A000002) 31, ''b'')]"
proof -
  have "snd (usage p2p) = 2" by (simp add: usage_def p2p_def)
  moreover have "zip (map (nth_subnet p2p) [0..<2]) [''a'', ''b'', ''c'']
      = [(Prefix (V4 0x0A000000) 31, ''a''), (Prefix (V4 0x0A000002) 31, ''b'')]"
    by (simp add: nth_subnet_def p2p_def step_def upt_rec)
  ultimately show ?thesis
    using fresh_pool_sequence [OF p2p_new p2p_v4, of "[''a'', ''b'', ''c'']"] by (simp only:)
qed

end
