(* ===== verification/Model.thy ===== *)
theory Model
  imports Netip
begin

text \<open>
  internal/model: the resources of the program. Go's named string types are datatypes of their
  declared constants, with their text where the code prints it; structs are records, timestamps
  are numbers (nanoseconds), \<open>int\<close> fields are \<open>int\<close>, and nil pointers and slices are \<open>None\<close> and \<open>[]\<close>.
\<close>

section \<open>Names\<close>

datatype node_role = RoleExternal | RoleDCEdge | RoleSuperSpine | RoleSpine | RoleLeaf | RoleServer

fun show_role :: "node_role \<Rightarrow> string" where
  "show_role RoleExternal = ''external''"
| "show_role RoleDCEdge = ''dc-edge''"
| "show_role RoleSuperSpine = ''superspine''"
| "show_role RoleSpine = ''spine''"
| "show_role RoleLeaf = ''leaf''"
| "show_role RoleServer = ''server''"

lemma show_role_inj [simp]: "show_role r = show_role s \<longleftrightarrow> r = s"
  by (cases r; cases s) simp_all

datatype pool_id = PoolManagement | PoolLoopback | PoolFabricP2P | PoolServerVlan | PoolVTEP | PoolWorkload | PoolPublic

fun show_pool :: "pool_id \<Rightarrow> string" where
  "show_pool PoolManagement = ''management''"
| "show_pool PoolLoopback = ''loopback''"
| "show_pool PoolFabricP2P = ''fabricP2P''"
| "show_pool PoolServerVlan = ''serverVlan''"
| "show_pool PoolVTEP = ''vtep''"
| "show_pool PoolWorkload = ''workload''"
| "show_pool PoolPublic = ''public''"

lemma show_pool_inj [simp]: "show_pool p = show_pool q \<longleftrightarrow> p = q"
  by (cases p; cases q) simp_all

datatype profile = ProfileMicro | ProfileStandard | ProfileCustom
datatype runtime_type = RuntimeFRR | RuntimeLinux
datatype runtime_state = RSUnset | RSUnknown | RSRunning | RSStopped | RSFailed
datatype link_kind = LinkFabric | LinkServerAccess | LinkMLAGPeer
datatype phase = PhaseUnset | PhasePending | PhasePlanning | PhaseApplying | PhaseRunning | PhaseDegraded
  | PhaseFailed | PhaseStopping | PhaseStopped | PhaseDeleting | PhaseDeleted

section \<open>Metadata and identifiers\<close>

record resource_error =
  err_code :: string
  err_message :: string
  err_time :: nat

record meta =
  meta_id :: string
  meta_name :: string
  generation :: int
  observed_generation :: int
  phase :: phase
  last_error :: "resource_error option"
  created_at :: nat
  updated_at :: nat

definition fresh_meta :: "string \<Rightarrow> string \<Rightarrow> meta" where
  "fresh_meta i name = \<lparr>meta_id = i, meta_name = name, generation = 0, observed_generation = 0,
     phase = PhasePending, last_error = None, created_at = 0, updated_at = 0\<rparr>"

text \<open>\<open>NewID\<close>: what the call reads from the clock (milliseconds) and from the random source
  (three bytes) is its argument.\<close>

type_synonym draw = "nat \<times> 24 word"

definition new_id :: "string \<Rightarrow> draw \<Rightarrow> string" where
  "new_id kind d = kind @ ''-'' @ show_hex_pad 12 (fst d) @ ''-'' @ show_hex_pad 6 (unat (snd d))"

section \<open>Nodes\<close>

record node_spec =
  n_lab :: string
  role :: node_role
  pod_id :: string
  rack_id :: string
  asn :: "32 word"
  loopback :: prefix
  mgmt_ip :: addr
  runtime_type :: runtime_type
  mlag_peer :: string
  n_vlan_id :: int
  vlan_ip :: prefix
  gateway_ip :: addr
  gateway_mac :: string
  vrrp_group :: int
  vrrp_priority :: int
  address :: prefix
  default_gateway :: addr
  bgp_peers :: "addr list"

text \<open>The zero value of \<open>netip.Prefix\<close>: the zero address with the length of an invalid prefix.\<close>

definition empty_spec :: "string \<Rightarrow> node_role \<Rightarrow> node_spec" where
  "empty_spec lab r = \<lparr>n_lab = lab, role = r, pod_id = [], rack_id = [], asn = 0, loopback = no_prefix,
     mgmt_ip = NoAddr, runtime_type = RuntimeFRR, mlag_peer = [], n_vlan_id = 0, vlan_ip = no_prefix,
     gateway_ip = NoAddr, gateway_mac = [], vrrp_group = 0, vrrp_priority = 0, address = no_prefix,
     default_gateway = NoAddr, bgp_peers = []\<rparr>"

definition is_router :: "node_spec \<Rightarrow> bool" where
  "is_router s \<longleftrightarrow> runtime_type s = RuntimeFRR"

record interface_status =
  if_name :: string
  if_up :: bool
  if_missing :: bool

record node_status =
  runtime_state :: runtime_state
  container_id :: string
  route_count :: int
  bgp_established :: int
  bgp_configured :: int
  interfaces_up :: int
  interfaces_total :: int
  interfaces :: "interface_status list"
  vrrp_state :: string
  agent_state :: string
  last_observed :: nat

definition empty_status :: node_status where
  "empty_status = \<lparr>runtime_state = RSUnset, container_id = [], route_count = 0, bgp_established = 0,
     bgp_configured = 0, interfaces_up = 0, interfaces_total = 0, interfaces = [], vrrp_state = [],
     agent_state = [], last_observed = 0\<rparr>"

record node =
  n_meta :: meta
  n_spec :: node_spec
  n_status :: node_status

abbreviation node_name :: "node \<Rightarrow> string" where "node_name n \<equiv> meta_name (n_meta n)"
abbreviation node_id :: "node \<Rightarrow> string" where "node_id n \<equiv> meta_id (n_meta n)"
abbreviation n_role :: "node \<Rightarrow> node_role" where "n_role n \<equiv> role (n_spec n)"

section \<open>Links\<close>

record endpoint =
  ep_id :: string
  ep_node :: string
  ep_iface :: string
  ep_addr :: prefix

record link_spec =
  l_lab :: string
  kind :: link_kind
  l_vlan_id :: int
  end_a :: endpoint
  end_b :: endpoint
  mtu :: int

record link_status =
  admin_up :: bool
  oper_up :: bool

record link =
  l_meta :: meta
  l_spec :: link_spec
  l_status :: link_status

abbreviation link_name :: "link \<Rightarrow> string" where "link_name l \<equiv> meta_name (l_meta l)"

definition ends :: "link \<Rightarrow> endpoint list" where
  "ends l = [end_a (l_spec l), end_b (l_spec l)]"

section \<open>Labs and plans\<close>

record address_pool =
  ap_name :: pool_id
  ap_cidr :: string
  ap_prefix :: int

record asn_range =
  ar_role :: node_role
  ar_start :: "32 word"
  ar_end :: "32 word"

record pod_spec =
  pod_name :: string
  spines :: int
  racks :: int
  servers_per_rack :: int

record topology_spec =
  external_routers :: int
  dc_edges :: int
  super_spines :: int
  pods :: "pod_spec list"
  internet_access :: bool

record lab_spec =
  lab_profile :: profile
  lab_topology :: topology_spec
  lab_pools :: "address_pool list"
  lab_asns :: "asn_range list"

record lab =
  lab_meta :: meta
  lab_spec :: lab_spec

record allocation =
  al_pool :: string
  al_value :: string
  al_owner :: string

datatype plan_op_type = PlanCreateNode | PlanUpdateNode | PlanDeleteNode | PlanCreateLink
  | PlanDeleteLink | PlanAllocateAddress | PlanAllocateASN | PlanRenderConfig | PlanDeployTopology

record plan_op =
  po_type :: plan_op_type
  po_target :: string
  po_summary :: string

record plan_warning =
  pw_code :: string
  pw_message :: string

datatype plan_state = PlanPending | PlanApplied | PlanExpired

record plan =
  plan_id :: string
  plan_lab :: string
  base_generation :: int
  new_generation :: int
  plan_state :: plan_state
  plan_ops :: "plan_op list"
  plan_allocs :: "allocation list"
  plan_warnings :: "plan_warning list"
  plan_created :: nat

end
