(* ===== verification/Asn.thy ===== *)
theory Asn
  imports Model Allocator
begin

text \<open>
  controller/internal/allocator/asn/asn.go: the ASN allocator, one range per device role, with
  the 32-bit wrap-around of its counter.
\<close>

section \<open>The code\<close>

record role_range =
  rr_start :: "32 word"
  rr_end :: "32 word"
  rr_next :: "32 word"
  rr_allocated :: "32 word \<Rightarrow> string option"
  rr_released :: "32 word list"

type_synonym asn_alloc = "node_role \<Rightarrow> role_range option"

datatype asn_error =
    AsnRangeOrder node_role "32 word" "32 word"
  | AsnDuplicateRole node_role
  | AsnNoRange node_role
  | AsnExhausted node_role "32 word" "32 word"
  | AsnNotAllocated "32 word" node_role
  | AsnOutside "32 word" node_role
  | AsnTaken "32 word" string

definition add_range :: "asn_alloc \<Rightarrow> asn_range \<Rightarrow> asn_error + asn_alloc" where
  "add_range a r =
    (if ar_end r < ar_start r then Inl (AsnRangeOrder (ar_role r) (ar_end r) (ar_start r))
     else if a (ar_role r) \<noteq> None then Inl (AsnDuplicateRole (ar_role r))
     else Inr (a(ar_role r \<mapsto> \<lparr>rr_start = ar_start r, rr_end = ar_end r, rr_next = ar_start r,
                               rr_allocated = Map.empty, rr_released = []\<rparr>)))"

definition new_asns :: "asn_range list \<Rightarrow> asn_error + asn_alloc" where
  "new_asns rs = efold add_range Map.empty rs"

definition asn_allocate :: "node_role \<Rightarrow> asn_alloc \<Rightarrow> string \<Rightarrow> asn_error + 32 word \<times> asn_alloc" where
  "asn_allocate ro a owner =
    (case a ro of None \<Rightarrow> Inl (AsnNoRange ro)
     | Some r \<Rightarrow>
        if rr_released r \<noteq> [] then
          (let v = last (rr_released r) in
           Inr (v, a(ro \<mapsto> r\<lparr>rr_released := butlast (rr_released r), rr_allocated := (rr_allocated r)(v \<mapsto> owner)\<rparr>)))
        else if rr_end r < rr_next r then Inl (AsnExhausted ro (rr_start r) (rr_end r))
        else Inr (rr_next r, a(ro \<mapsto> r\<lparr>rr_next := rr_next r + 1,
                    rr_allocated := (rr_allocated r)(rr_next r \<mapsto> owner)\<rparr>)))"

definition asn_release :: "node_role \<Rightarrow> asn_alloc \<Rightarrow> 32 word \<Rightarrow> asn_error + asn_alloc" where
  "asn_release ro a v =
    (case a ro of None \<Rightarrow> Inl (AsnNoRange ro)
     | Some r \<Rightarrow>
        if rr_allocated r v = None then Inl (AsnNotAllocated v ro)
        else Inr (a(ro \<mapsto> r\<lparr>rr_allocated := (rr_allocated r)(v := None), rr_released := rr_released r @ [v]\<rparr>)))"

definition asn_restore :: "node_role \<Rightarrow> asn_alloc \<Rightarrow> 32 word \<Rightarrow> string \<Rightarrow> asn_error + asn_alloc" where
  "asn_restore ro a v owner =
    (case a ro of None \<Rightarrow> Inl (AsnNoRange ro)
     | Some r \<Rightarrow>
        if v < rr_start r \<or> rr_end r < v then Inl (AsnOutside v ro)
        else case rr_allocated r v of Some prev \<Rightarrow> Inl (AsnTaken v prev)
        | None \<Rightarrow>
           (let r1 = r\<lparr>rr_allocated := (rr_allocated r)(v \<mapsto> owner)\<rparr> in
            Inr (a(ro \<mapsto> (if rr_next r \<le> v then r1\<lparr>rr_next := v + 1\<rparr> else r1)))))"

section \<open>The invariant of a range\<close>

text \<open>The counter stays one past the numbers ever handed out, which needs a range that does not
  end at the last 32-bit number.\<close>

definition range_inv :: "role_range \<Rightarrow> bool" where
  "range_inv r \<longleftrightarrow> rr_start r \<le> rr_next r \<and> unat (rr_next r) \<le> unat (rr_end r) + 1 \<and> rr_end r < -1 \<and>
     distinct (rr_released r) \<and> set (rr_released r) \<inter> dom (rr_allocated r) = {} \<and>
     (\<forall>v \<in> set (rr_released r) \<union> dom (rr_allocated r). rr_start r \<le> v \<and> v < rr_next r)"

definition asn_inv :: "node_role \<Rightarrow> asn_alloc \<Rightarrow> bool" where
  "asn_inv ro a \<longleftrightarrow> (case a ro of None \<Rightarrow> True | Some r \<Rightarrow> range_inv r)"

definition asn_holds :: "node_role \<Rightarrow> asn_alloc \<Rightarrow> 32 word \<Rightarrow> string option" where
  "asn_holds ro a = (case a ro of None \<Rightarrow> Map.empty | Some r \<Rightarrow> rr_allocated r)"

definition asn_restorable :: "node_role \<Rightarrow> asn_alloc \<Rightarrow> 32 word \<Rightarrow> bool" where
  "asn_restorable ro a v \<longleftrightarrow> (case a ro of None \<Rightarrow> True | Some r \<Rightarrow> v \<notin> set (rr_released r))"

lemma word_succ: "v < -1 \<Longrightarrow> unat (v + 1 :: 32 word) = unat v + 1"
proof -
  assume "v < -1"
  then have "1 + v \<noteq> 0" by (auto simp: add_eq_0_iff)
  from unatSuc [OF this] show ?thesis by (simp add: add.commute)
qed

lemma new_range_inv: "ar_start r \<le> ar_end r \<Longrightarrow> ar_end r < -1 \<Longrightarrow>
  range_inv \<lparr>rr_start = ar_start r, rr_end = ar_end r, rr_next = ar_start r, rr_allocated = Map.empty, rr_released = []\<rparr>"
  by (simp add: range_inv_def word_le_nat_alt)

lemma new_asns_inv:
  assumes "new_asns rs = Inr a" "\<forall>r \<in> set rs. ar_end r < -1"
  shows "asn_inv ro a"
  using assms(1) unfolding new_asns_def
  by (rule efold_keeps) (use assms(2) in \<open>auto simp: asn_inv_def add_range_def new_range_inv split: if_splits\<close>)

lemma counter_step:
  assumes "range_inv r" "rr_next r \<le> v" "v \<le> rr_end r" "rr_allocated r v = None" "v \<notin> set (rr_released r)"
  shows "range_inv (r\<lparr>rr_allocated := (rr_allocated r)(v \<mapsto> w), rr_next := v + 1\<rparr>)"
proof -
  have s: "unat (v + 1) = unat v + 1" using assms by (intro word_succ) (auto simp: range_inv_def)
  have "v < v + 1" "rr_next r \<le> v + 1" "rr_start r \<le> v" "rr_start r \<le> v + 1"
    using s assms(1,2) by (auto simp: word_less_nat_alt word_le_nat_alt range_inv_def)
  moreover have "u < v + 1" if "u < rr_next r" for u using that calculation(2) by simp
  ultimately show ?thesis
    using assms(1,3-5) s by (auto simp: range_inv_def word_le_nat_alt)
qed

lemma range_fresh:
  assumes "range_inv r" "rr_next r \<le> v"
  shows "rr_allocated r v = None" "v \<notin> set (rr_released r)"
proof -
  have "v \<notin> set (rr_released r) \<union> dom (rr_allocated r)"
    using assms unfolding range_inv_def by (meson leD)
  then show "rr_allocated r v = None" "v \<notin> set (rr_released r)" by auto
qed

lemma reuse_inv:
  assumes "range_inv r" "rr_released r \<noteq> []"
  shows "rr_allocated r (last (rr_released r)) = None \<and>
    range_inv (r\<lparr>rr_released := butlast (rr_released r), rr_allocated := (rr_allocated r)(last (rr_released r) \<mapsto> w)\<rparr>)"
proof -
  obtain xs v where x: "rr_released r = xs @ [v]" using assms(2) by (cases "rr_released r" rule: rev_cases) auto
  have "last (rr_released r) = v" "butlast (rr_released r) = xs" using x by simp_all
  then show ?thesis using assms(1) x by (auto simp: range_inv_def)
qed

lemma insert_inv:
  assumes "range_inv r" "v < rr_next r" "rr_start r \<le> v" "v \<notin> set (rr_released r)"
  shows "range_inv (r\<lparr>rr_allocated := (rr_allocated r)(v \<mapsto> w)\<rparr>)"
  using assms by (auto simp: range_inv_def)

lemma give_back_inv:
  assumes "range_inv r" "rr_allocated r v = Some w"
  shows "range_inv (r\<lparr>rr_allocated := (rr_allocated r)(v := None), rr_released := rr_released r @ [v]\<rparr>)"
  using assms by (auto simp: range_inv_def)

lemma asn_allocate_cases:
  assumes "asn_allocate ro a w = Inr (v, a')"
  obtains (reuse) r where "a ro = Some r" "rr_released r \<noteq> []" "v = last (rr_released r)"
      "a' = a(ro \<mapsto> r\<lparr>rr_released := butlast (rr_released r), rr_allocated := (rr_allocated r)(v \<mapsto> w)\<rparr>)"
  | (next_number) r where "a ro = Some r" "rr_released r = []" "rr_next r \<le> rr_end r" "v = rr_next r"
      "a' = a(ro \<mapsto> r\<lparr>rr_allocated := (rr_allocated r)(v \<mapsto> w), rr_next := v + 1\<rparr>)"
proof (cases "a ro")
  case None
  with assms show ?thesis by (simp add: asn_allocate_def)
next
  case (Some r)
  show ?thesis
  proof (cases "rr_released r = []")
    case True
    have "v = rr_next r" "rr_next r \<le> rr_end r"
      "a' = a(ro \<mapsto> r\<lparr>rr_allocated := (rr_allocated r)(rr_next r \<mapsto> w), rr_next := rr_next r + 1\<rparr>)"
      using assms Some True by (auto simp: asn_allocate_def not_less split: if_splits)
    with Some True show ?thesis by (intro next_number) simp_all
  next
    case False
    have "v = last (rr_released r)" "a' = a(ro \<mapsto> r\<lparr>rr_released := butlast (rr_released r),
        rr_allocated := (rr_allocated r)(last (rr_released r) \<mapsto> w)\<rparr>)"
      using assms Some False by (auto simp: asn_allocate_def Let_def)
    with Some False show ?thesis by (intro reuse) simp_all
  qed
qed

lemma asn_restore_cases:
  assumes "asn_restore ro a v w = Inr a'"
  obtains (below) r where "a ro = Some r" "rr_start r \<le> v" "v \<le> rr_end r" "rr_allocated r v = None" "v < rr_next r"
      "a' = a(ro \<mapsto> r\<lparr>rr_allocated := (rr_allocated r)(v \<mapsto> w)\<rparr>)"
  | (above) r where "a ro = Some r" "rr_start r \<le> v" "v \<le> rr_end r" "rr_allocated r v = None" "rr_next r \<le> v"
      "a' = a(ro \<mapsto> r\<lparr>rr_allocated := (rr_allocated r)(v \<mapsto> w), rr_next := v + 1\<rparr>)"
  using assms by (auto simp: asn_restore_def Let_def not_less split: option.splits if_splits)

lemma asn_inv_Some: "a ro = Some r \<Longrightarrow> asn_inv ro a = range_inv r"
  by (simp add: asn_inv_def)

lemma asn_holds_upd: "a ro = Some r \<Longrightarrow> asn_holds ro a = rr_allocated r"
  by (simp add: asn_holds_def)

lemma asn_allocate_ok:
  assumes inv: "asn_inv ro a" and "asn_allocate ro a w = Inr (v, a')"
  shows "asn_holds ro a v = None" "asn_holds ro a' = (asn_holds ro a)(v \<mapsto> w)" "asn_inv ro a'"
proof -
  from assms(2) have "asn_holds ro a v = None \<and> asn_holds ro a' = (asn_holds ro a)(v \<mapsto> w) \<and> asn_inv ro a'"
  proof (cases rule: asn_allocate_cases)
    case (reuse r)
    then have "range_inv r" using inv by (simp add: asn_inv_def)
    from reuse_inv [OF this reuse(2), folded reuse(3)] reuse(1,4) show ?thesis by (simp add: asn_inv_def asn_holds_def)
  next
    case (next_number r)
    then have "range_inv r" using inv by (simp add: asn_inv_def)
    from counter_step [OF this] range_fresh [OF this] next_number
    show ?thesis by (simp add: asn_inv_def asn_holds_def)
  qed
  then show "asn_holds ro a v = None" "asn_holds ro a' = (asn_holds ro a)(v \<mapsto> w)" "asn_inv ro a'" by auto
qed

lemma asn_restore_ok:
  assumes inv: "asn_inv ro a" and v: "asn_restorable ro a v" and "asn_restore ro a v w = Inr a'"
  shows "asn_holds ro a v = None" "asn_holds ro a' = (asn_holds ro a)(v \<mapsto> w)" "asn_inv ro a'"
proof -
  from assms(3) have "asn_holds ro a v = None \<and> asn_holds ro a' = (asn_holds ro a)(v \<mapsto> w) \<and> asn_inv ro a'"
  proof (cases rule: asn_restore_cases)
    case (below r)
    then have "range_inv r" "v \<notin> set (rr_released r)" using inv v by (simp_all add: asn_inv_def asn_restorable_def)
    from insert_inv [OF this(1) below(5,2) this(2)] below show ?thesis by (simp add: asn_inv_def asn_holds_def)
  next
    case (above r)
    then have "range_inv r" "v \<notin> set (rr_released r)" using inv v by (simp_all add: asn_inv_def asn_restorable_def)
    from counter_step [OF this(1) above(5,3,4) this(2)] above
    show ?thesis by (simp add: asn_inv_def asn_holds_def)
  qed
  then show "asn_holds ro a v = None" "asn_holds ro a' = (asn_holds ro a)(v \<mapsto> w)" "asn_inv ro a'" by auto
qed

interpretation asn: unique_allocator "asn_allocate ro" "asn_release ro" "asn_restore ro" "asn_holds ro" "asn_inv ro" "asn_restorable ro"
  for ro
proof unfold_locales
  show "asn_release ro s r = Inr s' \<Longrightarrow> asn_holds ro s r \<noteq> None \<and> asn_holds ro s' = (asn_holds ro s)(r := None)" for s r s'
    by (auto simp: asn_release_def asn_holds_def split: option.splits if_splits)
  show "asn_release ro s r = Inr s' \<Longrightarrow> asn_inv ro s'" if "asn_inv ro s" for s r s'
    using that by (auto simp: asn_release_def asn_inv_def intro!: give_back_inv split: option.splits if_splits)
qed (blast intro: asn_allocate_ok asn_restore_ok)+

section \<open>Properties\<close>

definition declared :: "asn_range list \<Rightarrow> node_role \<Rightarrow> asn_alloc \<Rightarrow> bool" where
  "declared rs ro a \<longleftrightarrow> (\<forall>r. a ro = Some r \<longrightarrow> (ro, rr_start r, rr_end r) \<in> (\<lambda>d. (ar_role d, ar_start d, ar_end d)) ` set rs)"

lemma declared_new: "new_asns rs = Inr a \<Longrightarrow> declared rs ro a"
  unfolding new_asns_def
proof (erule efold_keeps)
  show "declared rs ro s'" if "x \<in> set rs" "declared rs ro s" "add_range s x = Inr s'" for s x s'
  proof (cases "ro = ar_role x")
    case True
    then have "s' ro = Some \<lparr>rr_start = ar_start x, rr_end = ar_end x, rr_next = ar_start x, rr_allocated = Map.empty, rr_released = []\<rparr>"
      using that(3) by (auto simp: add_range_def split: if_splits)
    then show ?thesis using that(1) True by (auto simp: declared_def)
  next
    case False
    then have "s' ro = s ro" using that(3) by (auto simp: add_range_def split: if_splits)
    then show ?thesis using that(2) by (simp add: declared_def)
  qed
qed (simp add: declared_def)

lemma declared_step:
  "declared rs ro a \<Longrightarrow> asn_allocate ro a w = Inr (v, a') \<Longrightarrow> declared rs ro a'"
  "declared rs ro a \<Longrightarrow> asn_release ro a v = Inr a' \<Longrightarrow> declared rs ro a'"
  by (auto simp: declared_def asn_release_def split: option.splits if_splits elim!: asn_allocate_cases)

lemma declared_run: "declared rs ro a \<Longrightarrow> declared rs ro (fst (run_alloc (asn_allocate ro) (asn_release ro) a ops))"
proof (induction ops arbitrary: a)
  case (Cons x ops)
  show ?case
  proof (cases x)
    case (AllocFor w)
    then show ?thesis using Cons declared_step(1) by (cases "asn_allocate ro a w") (auto simp: split_beta)
  next
    case (ReleaseRes v)
    then show ?thesis using Cons declared_step(2) by (cases "asn_release ro a v") auto
  qed
qed simp

lemma range_bounds: "range_inv r \<Longrightarrow> rr_allocated r v = Some w \<Longrightarrow> rr_start r \<le> v \<and> v \<le> rr_end r"
proof -
  assume r: "range_inv r" "rr_allocated r v = Some w"
  then have "rr_start r \<le> v" "v < rr_next r" by (auto simp: range_inv_def)
  then show ?thesis using r(1) by (auto simp: range_inv_def word_le_nat_alt word_less_nat_alt)
qed

text \<open>every number an allocator holds for a role lies in the role's declared range, whatever
  sequence of Allocate and Release calls produced it, provided no declared range ends at the last
  32-bit number.\<close>

theorem asn_in_declared_range:
  assumes "new_asns rs = Inr a" "\<forall>r \<in> set rs. ar_end r < -1"
    and "b = fst (run_alloc (asn_allocate ro) (asn_release ro) a ops)" "asn_holds ro b v = Some w"
  shows "\<exists>r \<in> set rs. ar_role r = ro \<and> ar_start r \<le> v \<and> v \<le> ar_end r"
proof -
  have "declared rs ro b" using assms(3) declared_run [OF declared_new [OF assms(1)]] by simp
  moreover have "asn_inv ro b" using asn.run_inv new_asns_inv [OF assms(1,2)] assms(3) by simp
  ultimately show ?thesis
    using assms(4) range_bounds by (fastforce simp: declared_def asn_holds_def asn_inv_def split: option.splits)
qed

theorem asn_in_declared_range_witness:
  "\<exists>a. new_asns [\<lparr>ar_role = RoleSpine, ar_start = 65200, ar_end = 65999\<rparr>] = Inr a \<and>
     asn_holds RoleSpine (fst (run_alloc (asn_allocate RoleSpine) (asn_release RoleSpine) a [AllocFor ''s1'', AllocFor ''s2''])) 65201
       = Some ''s2'' \<and> (65201 :: 32 word) \<le> 65999"
proof -
  let ?rs = "[\<lparr>ar_role = RoleSpine, ar_start = 65200, ar_end = 65999\<rparr>] :: asn_range list"
  obtain a where a: "new_asns ?rs = Inr a" "a = [RoleSpine \<mapsto> \<lparr>rr_start = 65200, rr_end = 65999, rr_next = 65200,
       rr_allocated = Map.empty, rr_released = []\<rparr>]"
    by (simp add: new_asns_def add_range_def)
  have h: "asn_holds RoleSpine (fst (run_alloc (asn_allocate RoleSpine) (asn_release RoleSpine) a [AllocFor ''s1'', AllocFor ''s2''])) 65201
       = Some ''s2''"
    by (simp add: a(2) asn_allocate_def asn_holds_def)
  have "\<forall>r \<in> set ?rs. ar_end r < -1" by simp
  from asn_in_declared_range [OF a(1) this refl h] a h show ?thesis by simp
qed


end
