(* ===== verification/Topology.thy ===== *)
theory Topology
  imports Ipam Asn "HOL-Library.Signed_Division"
begin

text \<open>
  controller/internal/topology: the builder that turns a lab's spec into its nodes and links, with
  every address and ASN taken from the allocators, and the base that pins what a deployed topology
  already uses. The builder's maps are functions with Go's zero value for a missing key. What the
  code reads of the clock and the random source for \<open>model.NewID\<close> is the stream \<open>draws\<close>. The map
  \<open>nodeByName\<close> is written and never read, so it is left out. Numbers that Go holds in an \<open>int\<close> are
  integers here: counts and rack numbers stay far below \<open>2 ^ 63\<close>.
\<close>

section \<open>defaults.go\<close>

definition server_asn :: "32 word" where "server_asn = 65000"
definition leaf_rack_asn_base :: "32 word" where "leaf_rack_asn_base = 4200080000"
definition server_vlan_id :: int where "server_vlan_id = 1000"

definition default_pools :: "address_pool list" where
  "default_pools =
    [\<lparr>ap_name = PoolFabricP2P, ap_cidr = ''10.0.0.0/16'', ap_prefix = 31\<rparr>,
     \<lparr>ap_name = PoolLoopback, ap_cidr = ''10.1.0.0/16'', ap_prefix = 32\<rparr>,
     \<lparr>ap_name = PoolVTEP, ap_cidr = ''10.2.0.0/16'', ap_prefix = 32\<rparr>,
     \<lparr>ap_name = PoolManagement, ap_cidr = ''10.3.0.0/16'', ap_prefix = 32\<rparr>,
     \<lparr>ap_name = PoolServerVlan, ap_cidr = ''10.100.0.0/16'', ap_prefix = 24\<rparr>,
     \<lparr>ap_name = PoolWorkload, ap_cidr = ''10.128.0.0/9'', ap_prefix = 24\<rparr>,
     \<lparr>ap_name = PoolPublic, ap_cidr = ''198.18.0.0/15'', ap_prefix = 32\<rparr>]"

definition default_asn_ranges :: "asn_range list" where
  "default_asn_ranges =
    [\<lparr>ar_role = RoleExternal, ar_start = 64500, ar_end = 64599\<rparr>,
     \<lparr>ar_role = RoleDCEdge, ar_start = 64600, ar_end = 64699\<rparr>,
     \<lparr>ar_role = RoleSuperSpine, ar_start = 65100, ar_end = 65199\<rparr>,
     \<lparr>ar_role = RoleSpine, ar_start = 65200, ar_end = 65999\<rparr>]"

fun profiles :: "profile \<Rightarrow> topology_spec option" where
  "profiles ProfileMicro = Some \<lparr>external_routers = 1, dc_edges = 1, super_spines = 1,
     pods = [\<lparr>pod_name = ''pod-1'', spines = 2, racks = 1, servers_per_rack = 2\<rparr>],
     internet_access = False\<rparr>"
| "profiles ProfileStandard = Some \<lparr>external_routers = 1, dc_edges = 2, super_spines = 2,
     pods = [\<lparr>pod_name = ''pod-1'', spines = 2, racks = 2, servers_per_rack = 2\<rparr>,
             \<lparr>pod_name = ''pod-2'', spines = 2, racks = 2, servers_per_rack = 2\<rparr>],
     internet_access = False\<rparr>"
| "profiles ProfileCustom = None"

section \<open>fmt.Sscanf with one \<open>%d\<close> after a literal\<close>

text \<open>The verb skips blanks (a newline is an error), takes a sign and the longest run of digits, and
  fails on an empty run and outside 64 bits; what follows the digits is ignored.\<close>

fun skip_space :: "string \<Rightarrow> string option" where
  "skip_space [] = Some []"
| "skip_space (c # s) = (if c = CHR 0x0A then None
     else if c \<in> {CHR 0x09, CHR 0x0B, CHR 0x0C, CHR 0x0D, CHR '' ''} then skip_space s else Some (c # s))"

definition scan_digits :: "int \<Rightarrow> string \<Rightarrow> int option" where
  "scan_digits sg s =
    (let ds = takeWhile is_digit s; v = sg * int (digits_val ds) in
     if ds = [] \<or> v < - (2 ^ 63) \<or> 2 ^ 63 \<le> v then None else Some v)"

definition scan_d :: "string \<Rightarrow> int option" where
  "scan_d s =
    (case skip_space s of None \<Rightarrow> None
     | Some [] \<Rightarrow> None
     | Some (c # t) \<Rightarrow> if c = CHR ''-'' then scan_digits (- 1) t
                       else if c = CHR ''+'' then scan_digits 1 t else scan_digits 1 (c # t))"

definition sscanf_d :: "string \<Rightarrow> string \<Rightarrow> int option" where
  "sscanf_d lit s = (if take (length lit) s = lit then scan_d (drop (length lit) s) else None)"

text \<open>\<open>%02x\<close> of an int.\<close>

definition show_02x :: "int \<Rightarrow> string" where
  "show_02x i = (if i < 0 then CHR ''-'' # show_hex (nat (- i)) else show_hex_pad 2 (nat i))"

section \<open>The builder\<close>

record base =
  base_nodes :: "node list"
  base_link_list :: "link list"

record builder =
  b_lab :: string
  b_pools :: "pool_id \<Rightarrow> pool option"
  b_asns :: asn_alloc
  if_index :: "string \<Rightarrow> int"
  max_rack :: int
  rack_slots :: "string \<Rightarrow> int list"
  base_links :: "string \<Rightarrow> link option"
  base_owners :: "string \<Rightarrow> bool"
  pinned_sub :: "pool_id \<Rightarrow> string \<Rightarrow> prefix option"
  pinned_asn :: "node_role \<Rightarrow> string \<Rightarrow> 32 word option"
  res_nodes :: "node list"
  res_links :: "link list"
  res_allocs :: "allocation list"
  draws :: "nat \<Rightarrow> draw"
  drawn :: nat

datatype topo_error =
    CreatePool pool_id ipam_error
  | CreateAsns asn_error
  | NoPoolToRestore pool_id prefix string
  | RestoreSub string ipam_error
  | RestoreAsn string asn_error
  | BadRackID string string
  | BadInterface string string
  | AllocAsn string asn_error
  | AllocSub string ipam_error
  | NilPool pool_id

definition new_builder_pools :: "address_pool list \<Rightarrow> topo_error + (pool_id \<Rightarrow> pool option)" where
  "new_builder_pools ps =
    efold (\<lambda>m p. ebind (emap_err (CreatePool (ap_name p)) (new_pool (show_pool (ap_name p)) (ap_cidr p) (ap_prefix p)))
                       (\<lambda>q. Inr (m(ap_name p \<mapsto> q)))) Map.empty ps"

definition empty_builder :: "string \<Rightarrow> (pool_id \<Rightarrow> pool option) \<Rightarrow> asn_alloc \<Rightarrow> (nat \<Rightarrow> draw) \<Rightarrow> builder" where
  "empty_builder lab ps as ds = \<lparr>b_lab = lab, b_pools = ps, b_asns = as, if_index = (\<lambda>_. 0), max_rack = 0,
     rack_slots = (\<lambda>_. []), base_links = Map.empty, base_owners = (\<lambda>_. False), pinned_sub = (\<lambda>_. Map.empty),
     pinned_asn = (\<lambda>_. Map.empty), res_nodes = [], res_links = [], res_allocs = [], draws = ds, drawn = 0\<rparr>"

section \<open>Restoring a base\<close>

definition pin :: "builder \<Rightarrow> pool_id \<Rightarrow> string \<Rightarrow> prefix \<Rightarrow> topo_error + builder" where
  "pin b pl owner sub =
    (case b_pools b pl of None \<Rightarrow> Inl (NoPoolToRestore pl sub owner)
     | Some p \<Rightarrow> ebind (emap_err (RestoreSub owner) (restore p sub owner))
         (\<lambda>p'. Inr (b\<lparr>b_pools := (b_pools b)(pl \<mapsto> p'),
                      pinned_sub := (pinned_sub b)(pl := (pinned_sub b pl)(owner \<mapsto> sub)),
                      base_owners := (base_owners b)(show_pool pl @ ''|'' @ owner := True)\<rparr>)))"

definition pin_asn :: "builder \<Rightarrow> node_role \<Rightarrow> string \<Rightarrow> 32 word \<Rightarrow> topo_error + builder" where
  "pin_asn b ro owner v =
    ebind (emap_err (RestoreAsn owner) (asn_restore ro (b_asns b) v owner))
      (\<lambda>a. Inr (b\<lparr>b_asns := a,
                 pinned_asn := (pinned_asn b)(ro := (pinned_asn b ro)(owner \<mapsto> v)),
                 base_owners := (base_owners b)(''asn:'' @ show_role ro @ ''|'' @ owner := True)\<rparr>))"

definition rack_number :: "string \<Rightarrow> int option" where
  "rack_number rid = sscanf_d ''rack-'' rid"

definition pin_rack :: "builder \<Rightarrow> node_spec \<Rightarrow> string \<Rightarrow> int \<Rightarrow> topo_error + builder" where
  "pin_rack b s owner num =
    pin (b\<lparr>rack_slots := map_append (rack_slots b) (pod_id s) [num],
           max_rack := (if max_rack b < num then num else max_rack b),
           base_owners := (base_owners b)(''asn:'' @ show_role RoleLeaf @ ''|'' @ owner := True)\<rparr>)
        PoolServerVlan owner (masked (vlan_ip s))"

text \<open>One turn of the loop over the base's nodes, with the local set of the racks already seen.\<close>

definition restore_role :: "builder \<times> string set \<Rightarrow> node \<Rightarrow> topo_error + builder \<times> string set" where
  "restore_role st n = (let (b, seen) = st; s = n_spec n in
    (case role s of
       RoleServer \<Rightarrow> Inr (b, seen)
     | RoleLeaf \<Rightarrow>
        (case rack_number (rack_id s) of None \<Rightarrow> Inl (BadRackID (node_name n) (rack_id s))
         | Some num \<Rightarrow>
            (let owner = pod_id s @ ''/'' @ rack_id s in
             if owner \<in> seen then Inr (b, seen)
             else ebind (pin_rack b s owner num) (\<lambda>b'. Inr (b', insert owner seen))))
     | _ \<Rightarrow> ebind (pin_asn b (role s) (node_name n) (asn s)) (\<lambda>b'. Inr (b', seen))))"

definition restore_node :: "builder \<times> string set \<Rightarrow> node \<Rightarrow> topo_error + builder \<times> string set" where
  "restore_node st n =
    (if is_valid (loopback (n_spec n))
     then ebind (pin (fst st) PoolLoopback (node_name n) (loopback (n_spec n))) (\<lambda>b'. restore_role (b', snd st) n)
     else restore_role st n)"

definition restore_endpoint :: "string \<Rightarrow> builder \<Rightarrow> endpoint \<Rightarrow> topo_error + builder" where
  "restore_endpoint lname b ep =
    (case sscanf_d ''eth'' (ep_iface ep) of None \<Rightarrow> Inl (BadInterface lname (ep_iface ep))
     | Some idx \<Rightarrow> Inr (if if_index b (ep_node ep) < idx
                        then b\<lparr>if_index := (if_index b)(ep_node ep := idx)\<rparr> else b))"

definition restore_link :: "builder \<Rightarrow> link \<Rightarrow> topo_error + builder" where
  "restore_link b l =
    (let b1 = b\<lparr>base_links := (base_links b)(link_name l \<mapsto> l)\<rparr> in
     ebind (if kind (l_spec l) = LinkFabric
            then pin b1 PoolFabricP2P (link_name l) (masked (ep_addr (end_a (l_spec l)))) else Inr b1)
       (\<lambda>b2. efold (restore_endpoint (link_name l)) b2 (ends l)))"

definition restore_base :: "builder \<Rightarrow> base \<Rightarrow> topo_error + builder" where
  "restore_base b bs =
    ebind (efold restore_node (b, {}) (base_nodes bs))
      (\<lambda>(b1, _). efold restore_link (b1\<lparr>rack_slots := (\<lambda>p. sort (rack_slots b1 p))\<rparr>) (base_link_list bs))"

definition new_builder :: "(nat \<Rightarrow> draw) \<Rightarrow> string \<Rightarrow> lab_spec \<Rightarrow> base option \<Rightarrow> topo_error + builder" where
  "new_builder ds lab sp bs =
    ebind (new_builder_pools (lab_pools sp)) (\<lambda>ps.
    ebind (emap_err CreateAsns (new_asns (lab_asns sp))) (\<lambda>as.
      (case bs of None \<Rightarrow> Inr (empty_builder lab ps as ds)
       | Some x \<Rightarrow> restore_base (empty_builder lab ps as ds) x)))"

definition is_new_allocation :: "builder \<Rightarrow> allocation \<Rightarrow> bool" where
  "is_new_allocation b a \<longleftrightarrow> \<not> base_owners b (al_pool a @ ''|'' @ al_owner a)"

section \<open>Taking resources\<close>

text \<open>A pool the spec does not declare is a nil pointer, and \<open>Allocate\<close> on it panics.\<close>

definition allocate_sub :: "builder \<Rightarrow> pool_id \<Rightarrow> string \<Rightarrow> topo_error + prefix \<times> builder" where
  "allocate_sub b pl owner =
    (case pinned_sub b pl owner of Some sub \<Rightarrow> Inr (sub, b)
     | None \<Rightarrow> (case b_pools b pl of None \<Rightarrow> Inl (NilPool pl)
        | Some p \<Rightarrow> ebind (emap_err (AllocSub owner) (allocate p owner))
            (\<lambda>(sub, p'). Inr (sub, b\<lparr>b_pools := (b_pools b)(pl \<mapsto> p')\<rparr>))))"

definition allocate_asn :: "builder \<Rightarrow> node_role \<Rightarrow> string \<Rightarrow> topo_error + 32 word \<times> builder" where
  "allocate_asn b ro owner =
    (case pinned_asn b ro owner of Some v \<Rightarrow> Inr (v, b)
     | None \<Rightarrow> ebind (emap_err (AllocAsn owner) (asn_allocate ro (b_asns b) owner))
         (\<lambda>(v, a). Inr (v, b\<lparr>b_asns := a\<rparr>)))"

definition rack_num_for_slot :: "builder \<Rightarrow> string \<Rightarrow> nat \<Rightarrow> int \<times> builder" where
  "rack_num_for_slot b pod slot =
    (if slot \<le> length (rack_slots b pod) then (rack_slots b pod ! (slot - 1), b)
     else (max_rack b + 1, b\<lparr>max_rack := max_rack b + 1\<rparr>))"

definition draw_id :: "string \<Rightarrow> builder \<Rightarrow> string \<times> builder" where
  "draw_id k b = (new_id k (draws b (drawn b)), b\<lparr>drawn := drawn b + 1\<rparr>)"

section \<open>Nodes\<close>

definition push_node :: "builder \<Rightarrow> string \<Rightarrow> node_spec \<Rightarrow> allocation list \<Rightarrow> node \<times> builder" where
  "push_node b name s als =
    (let (i, b1) = draw_id ''node'' b; n = \<lparr>n_meta = fresh_meta i name, n_spec = s, n_status = empty_status\<rparr> in
     (n, b1\<lparr>res_nodes := res_nodes b1 @ [n], res_allocs := res_allocs b1 @ als\<rparr>))"

definition add_router :: "builder \<Rightarrow> string \<Rightarrow> node_role \<Rightarrow> string \<Rightarrow> topo_error + node \<times> builder" where
  "add_router b name ro pod =
    ebind (allocate_asn b ro name) (\<lambda>(v, b1).
    ebind (allocate_sub b1 PoolLoopback name) (\<lambda>(lo, b2).
      Inr (push_node b2 name ((empty_spec (b_lab b2) ro)\<lparr>pod_id := pod, asn := v, loopback := lo\<rparr>)
        [\<lparr>al_pool = ''asn:'' @ show_role ro, al_value = show_nat (unat v), al_owner = name\<rparr>,
         \<lparr>al_pool = show_pool PoolLoopback, al_value = show_prefix lo, al_owner = name\<rparr>])))"

definition add_leaf :: "builder \<Rightarrow> string \<Rightarrow> string \<Rightarrow> string \<Rightarrow> 32 word \<Rightarrow> prefix \<Rightarrow> addr \<Rightarrow> string \<Rightarrow> int \<Rightarrow> int
    \<Rightarrow> topo_error + node \<times> builder" where
  "add_leaf b name pod rack rasn vip gw mac vrid prio =
    ebind (allocate_sub b PoolLoopback name) (\<lambda>(lo, b1).
      Inr (push_node b1 name
        ((empty_spec (b_lab b1) RoleLeaf)\<lparr>pod_id := pod, rack_id := rack, asn := rasn, loopback := lo,
           n_vlan_id := server_vlan_id, vlan_ip := vip, gateway_ip := gw, gateway_mac := mac,
           vrrp_group := vrid, vrrp_priority := prio\<rparr>)
        [\<lparr>al_pool = show_pool PoolLoopback, al_value = show_prefix lo, al_owner = name\<rparr>]))"

definition add_server :: "builder \<Rightarrow> string \<Rightarrow> string \<Rightarrow> string \<Rightarrow> prefix \<Rightarrow> addr \<Rightarrow> addr list \<Rightarrow> node \<times> builder" where
  "add_server b name pod rack ad gw peers =
    push_node b name
      ((empty_spec (b_lab b) RoleServer)\<lparr>pod_id := pod, rack_id := rack, asn := server_asn, address := ad,
         default_gateway := gw, bgp_peers := peers\<rparr>) []"

section \<open>Links\<close>

definition pinned_interfaces :: "builder \<Rightarrow> string \<Rightarrow> string \<times> string" where
  "pinned_interfaces b lname =
    (case base_links b lname of None \<Rightarrow> ([], [])
     | Some l \<Rightarrow> (ep_iface (end_a (l_spec l)), ep_iface (end_b (l_spec l))))"

definition eth :: "int \<Rightarrow> string" where
  "eth i = ''eth'' @ show_int i"

definition new_endpoint :: "builder \<Rightarrow> node \<Rightarrow> prefix \<Rightarrow> string \<Rightarrow> endpoint \<times> builder" where
  "new_endpoint b n ad pinned =
    (let (iface, b1) = (if pinned = [] then
           (let i = if_index b (node_name n) + 1 in (eth i, b\<lparr>if_index := (if_index b)(node_name n := i)\<rparr>))
         else (pinned, b))
     in (\<lparr>ep_id = node_id n, ep_node = node_name n, ep_iface = iface, ep_addr = ad\<rparr>, b1))"

definition push_link :: "builder \<Rightarrow> node \<Rightarrow> node \<Rightarrow> link_kind \<Rightarrow> int \<Rightarrow> prefix \<Rightarrow> prefix \<Rightarrow> builder" where
  "push_link b a z k vlan ad_a ad_z =
    (let lname = node_name a @ ''--'' @ node_name z;
         (if_a, if_b) = pinned_interfaces b lname;
         (i, b1) = draw_id ''link'' b;
         (ea, b2) = new_endpoint b1 a ad_a if_a;
         (eb, b3) = new_endpoint b2 z ad_z if_b
     in b3\<lparr>res_links := res_links b3 @
          [\<lparr>l_meta = fresh_meta i lname,
            l_spec = \<lparr>l_lab = b_lab b, kind = k, l_vlan_id = vlan, end_a = ea, end_b = eb, mtu = 9100\<rparr>,
            l_status = \<lparr>admin_up = False, oper_up = False\<rparr>\<rparr>]\<rparr>)"

definition add_link :: "builder \<Rightarrow> node \<Rightarrow> node \<Rightarrow> topo_error + builder" where
  "add_link b a z =
    (let lname = node_name a @ ''--'' @ node_name z in
     ebind (allocate_sub b PoolFabricP2P lname) (\<lambda>(sub, b1).
       (let first = paddr (masked sub);
            b2 = push_link b1 a z LinkFabric 0 (prefix_from first (pbits sub)) (prefix_from (addr_next first) (pbits sub))
        in Inr (b2\<lparr>res_allocs := res_allocs b2 @
             [\<lparr>al_pool = show_pool PoolFabricP2P, al_value = show_prefix sub, al_owner = lname\<rparr>]\<rparr>))))"

definition add_l2_link :: "builder \<Rightarrow> node \<Rightarrow> node \<Rightarrow> link_kind \<Rightarrow> builder" where
  "add_l2_link b a z k = push_link b a z k server_vlan_id no_prefix no_prefix"

text \<open>Full mesh between two tiers.\<close>

definition mesh :: "builder \<Rightarrow> node list \<Rightarrow> node list \<Rightarrow> topo_error + builder" where
  "mesh b as zs = efold (\<lambda>b a. efold (\<lambda>b z. add_link b a z) b zs) b as"

section \<open>Racks and the whole fabric\<close>

definition host_at :: "prefix \<Rightarrow> nat \<Rightarrow> addr" where
  "host_at p n = (addr_next ^^ n) (paddr (masked p))"

definition rack_asn :: "int \<Rightarrow> 32 word" where
  "rack_asn num = leaf_rack_asn_base + of_int num"

definition rack_vrid :: "int \<Rightarrow> int" where
  "rack_vrid num = (num - 1) smod 255 + 1"

definition rack_mac :: "int \<Rightarrow> string" where
  "rack_mac vrid = ''00:00:5e:00:01:'' @ show_02x vrid"

text \<open>\<open>leafA.Spec.MLAGPeer = ...\<close> writes through the pointer the result's node list holds.\<close>

definition set_mlag_peer :: "builder \<Rightarrow> nat \<Rightarrow> string \<Rightarrow> builder" where
  "set_mlag_peer b i peer = b\<lparr>res_nodes := (res_nodes b)[i :=
     (res_nodes b ! i)\<lparr>n_spec := (n_spec (res_nodes b ! i))\<lparr>mlag_peer := peer\<rparr>\<rparr>]\<rparr>"

definition add_rack_server :: "node \<Rightarrow> node \<Rightarrow> string \<Rightarrow> string \<Rightarrow> prefix \<Rightarrow> builder \<Rightarrow> nat \<Rightarrow> builder" where
  "add_rack_server la lb pod rack sub b si =
    (let (srv, b1) = add_server b (pod @ ''-'' @ rack @ ''-server-'' @ show_nat si) pod rack
           (prefix_from (host_at sub (10 + si)) (pbits sub)) (host_at sub 1)
           [paddr (vlan_ip (n_spec la)), paddr (vlan_ip (n_spec lb))];
         b2 = add_l2_link b1 la srv LinkServerAccess
     in add_l2_link b2 lb srv LinkServerAccess)"

definition spine_links :: "builder \<Rightarrow> node list \<Rightarrow> node \<Rightarrow> node \<Rightarrow> topo_error + builder" where
  "spine_links b sps la lb = efold (\<lambda>b sp. ebind (add_link b sp la) (\<lambda>b'. add_link b' sp lb)) b sps"

definition add_rack :: "builder \<Rightarrow> string \<Rightarrow> nat \<Rightarrow> int \<Rightarrow> node list \<Rightarrow> topo_error + builder" where
  "add_rack b0 pod slot servers sps =
    (let (num, b) = rack_num_for_slot b0 pod slot;
         rack = ''rack-'' @ show_int num; rasn = rack_asn num; owner = pod @ ''/'' @ rack in
     ebind (allocate_sub b PoolServerVlan owner) (\<lambda>(sub, b1).
     (let bits = pbits sub; gw = host_at sub 1; vrid = rack_vrid num; mac = rack_mac vrid; i = length (res_nodes b1) in
      ebind (add_leaf b1 (pod @ ''-'' @ rack @ ''-leaf-a'') pod rack rasn (prefix_from (host_at sub 2) bits) gw mac vrid 200)
        (\<lambda>(la, b2).
      ebind (add_leaf b2 (pod @ ''-'' @ rack @ ''-leaf-b'') pod rack rasn (prefix_from (host_at sub 3) bits) gw mac vrid 100)
        (\<lambda>(lb, b3).
        (let b4 = set_mlag_peer (set_mlag_peer b3 i (node_name lb)) (Suc i) (node_name la);
             b5 = b4\<lparr>res_allocs := res_allocs b4 @
               [\<lparr>al_pool = ''asn:'' @ show_role RoleLeaf, al_value = show_nat (unat rasn), al_owner = owner\<rparr>,
                \<lparr>al_pool = show_pool PoolServerVlan, al_value = show_prefix sub, al_owner = owner\<rparr>]\<rparr> in
         ebind (spine_links b5 sps la lb) (\<lambda>b6.
           Inr (foldl (add_rack_server la lb pod rack sub) (add_l2_link b6 la lb LinkMLAGPeer) (one_to servers)))))))))"

definition add_routers :: "builder \<Rightarrow> string \<Rightarrow> node_role \<Rightarrow> string \<Rightarrow> int \<Rightarrow> topo_error + node list \<times> builder" where
  "add_routers b pre ro pod k =
    efold (\<lambda>(ns, b) i. ebind (add_router b (pre @ show_nat i) ro pod) (\<lambda>(n, b'). Inr (ns @ [n], b'))) ([], b) (one_to k)"

definition pod_name_at :: "nat \<Rightarrow> pod_spec \<Rightarrow> string" where
  "pod_name_at pi pod = (if pod_name pod = [] then ''pod-'' @ show_nat (pi + 1) else pod_name pod)"

definition add_pod :: "node list \<Rightarrow> builder \<Rightarrow> nat \<times> pod_spec \<Rightarrow> topo_error + builder" where
  "add_pod sss b ip = (let (pi, pod) = ip; pid = pod_name_at pi pod in
    ebind (add_routers b (pid @ ''-spine-'') RoleSpine pid (spines pod)) (\<lambda>(sps, b1).
    ebind (mesh b1 sss sps) (\<lambda>b2.
      efold (\<lambda>b r. add_rack b pid r (servers_per_rack pod) sps) b2 (one_to (racks pod)))))"

definition build :: "builder \<Rightarrow> topology_spec \<Rightarrow> topo_error + builder" where
  "build b sp =
    ebind (add_routers b ''external-'' RoleExternal [] (external_routers sp)) (\<lambda>(exts, b1).
    ebind (add_routers b1 ''dcedge-'' RoleDCEdge [] (dc_edges sp)) (\<lambda>(edges, b2).
    ebind (add_routers b2 ''superspine-'' RoleSuperSpine [] (super_spines sp)) (\<lambda>(sss, b3).
    ebind (mesh b3 exts edges) (\<lambda>b4.
    ebind (mesh b4 edges sss) (\<lambda>b5.
      efold (add_pod sss) b5 (enumerate 0 (pods sp)))))))"

section \<open>allocations.go\<close>

definition derive_node :: "allocation list \<times> string set \<Rightarrow> node \<Rightarrow> allocation list \<times> string set" where
  "derive_node st n = (let (als, seen) = st; s = n_spec n; nm = node_name n in
    (case role s of
       RoleServer \<Rightarrow> (als, seen)
     | RoleLeaf \<Rightarrow>
        (let als1 = als @ [\<lparr>al_pool = show_pool PoolLoopback, al_value = show_prefix (loopback s), al_owner = nm\<rparr>];
             owner = pod_id s @ ''/'' @ rack_id s in
         if owner \<in> seen then (als1, seen)
         else (als1 @ [\<lparr>al_pool = ''asn:'' @ show_role RoleLeaf, al_value = show_nat (unat (asn s)), al_owner = owner\<rparr>,
                       \<lparr>al_pool = show_pool PoolServerVlan, al_value = show_prefix (masked (vlan_ip s)), al_owner = owner\<rparr>],
               insert owner seen))
     | ro \<Rightarrow> (als @ [\<lparr>al_pool = ''asn:'' @ show_role ro, al_value = show_nat (unat (asn s)), al_owner = nm\<rparr>,
                     \<lparr>al_pool = show_pool PoolLoopback, al_value = show_prefix (loopback s), al_owner = nm\<rparr>], seen)))"

definition derive_allocations :: "node list \<Rightarrow> link list \<Rightarrow> allocation list" where
  "derive_allocations ns ls =
    fst (foldl derive_node ([], {}) ns) @
    map (\<lambda>l. \<lparr>al_pool = show_pool PoolFabricP2P, al_value = show_prefix (masked (ep_addr (end_a (l_spec l)))),
              al_owner = link_name l\<rparr>)
      (filter (\<lambda>l. kind (l_spec l) = LinkFabric) ls)"

end
