(* ===== verification/TopologyInv.thy ===== *)
theory TopologyInv
  imports Topology
begin

text \<open>
  Invariants of the builder. A property of the builder that each of its primitive operations keeps
  is kept by a whole build; the locale states this once, and the components' invariants are its
  interpretations. A node the code passes around as a pointer is \<open>known\<close>: the result holds a node
  with its metadata.
\<close>

section \<open>Nodes stay in the result\<close>

definition metas :: "builder \<Rightarrow> meta list" where
  "metas b = map n_meta (res_nodes b)"

definition known :: "builder \<Rightarrow> node \<Rightarrow> bool" where
  "known b n \<longleftrightarrow> n_meta n \<in> set (metas b)"

definition extends :: "builder \<Rightarrow> builder \<Rightarrow> bool" where
  "extends b b' \<longleftrightarrow> set (metas b) \<subseteq> set (metas b')"

lemma extends_refl [simp]: "extends b b"
  by (simp add: extends_def)

lemma extends_trans: "extends b c \<Longrightarrow> extends c d \<Longrightarrow> extends b d"
  by (auto simp: extends_def)

lemma known_mono: "known b n \<Longrightarrow> extends b b' \<Longrightarrow> known b' n"
  by (auto simp: known_def extends_def)

section \<open>What each primitive writes\<close>

text \<open>Taking a resource only touches the allocators; a node or a link only appends to the result.\<close>

lemma allocate_sub_frame:
  assumes "allocate_sub b pl w = Inr (s, b')"
  obtains ps where "b' = b\<lparr>b_pools := ps\<rparr>"
  using assms by (auto simp: allocate_sub_def split: option.splits) (metis builder.surjective builder.update_convs(2))

lemma allocate_asn_frame:
  assumes "allocate_asn b ro w = Inr (v, b')"
  obtains as where "b' = b\<lparr>b_asns := as\<rparr>"
  using assms by (auto simp: allocate_asn_def split: option.splits) (metis builder.surjective builder.update_convs(3))

lemma push_node_eq:
  "push_node b name s als = (let n = \<lparr>n_meta = fresh_meta (new_id ''node'' (draws b (drawn b))) name, n_spec = s, n_status = empty_status\<rparr>
     in (n, b\<lparr>res_nodes := res_nodes b @ [n], res_allocs := res_allocs b @ als, drawn := drawn b + 1\<rparr>))"
  by (simp add: push_node_def draw_id_def Let_def)

lemma add_router_metas: "add_router b name ro pod = Inr (n, b') \<Longrightarrow> metas b' = metas b @ [n_meta n]"
  by (auto simp: add_router_def push_node_eq Let_def metas_def elim!: allocate_asn_frame allocate_sub_frame)

lemma add_leaf_metas: "add_leaf b name pod rack v vip gw mac vrid prio = Inr (n, b') \<Longrightarrow> metas b' = metas b @ [n_meta n]"
  by (auto simp: add_leaf_def push_node_eq Let_def metas_def elim!: allocate_sub_frame)

lemma add_server_metas: "add_server b name pod rack ad gw peers = (n, b') \<Longrightarrow> metas b' = metas b @ [n_meta n]"
  by (auto simp: add_server_def push_node_eq Let_def metas_def)

lemma new_endpoint_frame:
  "res_nodes (snd (new_endpoint b n ad p)) = res_nodes b" "res_links (snd (new_endpoint b n ad p)) = res_links b"
  "b_pools (snd (new_endpoint b n ad p)) = b_pools b" "pinned_sub (snd (new_endpoint b n ad p)) = pinned_sub b"
  "pinned_asn (snd (new_endpoint b n ad p)) = pinned_asn b" "base_links (snd (new_endpoint b n ad p)) = base_links b"
  "b_asns (snd (new_endpoint b n ad p)) = b_asns b" "base_owners (snd (new_endpoint b n ad p)) = base_owners b"
  "res_allocs (snd (new_endpoint b n ad p)) = res_allocs b" "rack_slots (snd (new_endpoint b n ad p)) = rack_slots b"
  "max_rack (snd (new_endpoint b n ad p)) = max_rack b" "b_lab (snd (new_endpoint b n ad p)) = b_lab b"
  by (simp_all add: new_endpoint_def Let_def)

lemma push_link_frame:
  "res_nodes (push_link b a z k v p q) = res_nodes b"
  "b_pools (push_link b a z k v p q) = b_pools b" "pinned_sub (push_link b a z k v p q) = pinned_sub b"
  "pinned_asn (push_link b a z k v p q) = pinned_asn b" "base_links (push_link b a z k v p q) = base_links b"
  "b_asns (push_link b a z k v p q) = b_asns b" "base_owners (push_link b a z k v p q) = base_owners b"
  "res_allocs (push_link b a z k v p q) = res_allocs b" "rack_slots (push_link b a z k v p q) = rack_slots b"
  "max_rack (push_link b a z k v p q) = max_rack b" "b_lab (push_link b a z k v p q) = b_lab b"
  by (simp_all add: push_link_def draw_id_def Let_def split_beta new_endpoint_frame)

lemma add_link_metas: "add_link b a z = Inr b' \<Longrightarrow> metas b' = metas b"
  by (auto simp: add_link_def Let_def push_link_frame metas_def elim!: allocate_sub_frame)

lemma add_l2_link_metas [simp]: "metas (add_l2_link b a z k) = metas b"
  by (simp add: add_l2_link_def metas_def push_link_frame)

lemma rack_num_metas [simp]: "metas (snd (rack_num_for_slot b pod r)) = metas b"
  by (simp add: rack_num_for_slot_def metas_def)

lemma set_mlag_peer_metas [simp]: "i < length (res_nodes b) \<Longrightarrow> metas (set_mlag_peer b i nm) = metas b"
  by (simp add: set_mlag_peer_def metas_def map_update list_update_same_conv)

lemma length_metas: "length (metas b) = length (res_nodes b)"
  by (simp add: metas_def)

lemma metas_allocs [simp]: "metas (b\<lparr>res_allocs := xs\<rparr>) = metas b"
  by (simp add: metas_def)

section \<open>The frame of a build\<close>

locale builder_invariant =
  fixes P :: "builder \<Rightarrow> bool"
  assumes router: "P b \<Longrightarrow> ro \<noteq> RoleLeaf \<Longrightarrow> ro \<noteq> RoleServer \<Longrightarrow> add_router b name ro pod = Inr (n, b') \<Longrightarrow> P b'"
    and slot: "P b \<Longrightarrow> P (snd (rack_num_for_slot b pod r))"
    and rack_sub: "P b \<Longrightarrow> allocate_sub b PoolServerVlan w = Inr (sub, b') \<Longrightarrow> P b'"
    and leaf: "P b \<Longrightarrow> add_leaf b name pod rack v vip gw mac vrid prio = Inr (n, b') \<Longrightarrow> P b'"
    and server: "P b \<Longrightarrow> add_server b name pod rack ad gw peers = (n, b') \<Longrightarrow> P b'"
    and peer: "P b \<Longrightarrow> i < length (res_nodes b) \<Longrightarrow> P (set_mlag_peer b i nm)"
    and allocs: "P b \<Longrightarrow> P (b\<lparr>res_allocs := xs\<rparr>)"
    and link: "P b \<Longrightarrow> known b a \<Longrightarrow> known b z \<Longrightarrow> add_link b a z = Inr b' \<Longrightarrow> P b'"
    and l2: "P b \<Longrightarrow> known b a \<Longrightarrow> known b z \<Longrightarrow> k \<noteq> LinkFabric \<Longrightarrow> P (add_l2_link b a z k)"
begin

abbreviation after :: "builder \<Rightarrow> builder \<Rightarrow> bool" where
  "after b b' \<equiv> P b' \<and> extends b b'"

lemma routers_keep:
  assumes "P b" "ro \<noteq> RoleLeaf" "ro \<noteq> RoleServer" "add_routers b pre ro pod k = Inr (ns, b')"
  shows "after b b' \<and> (\<forall>n \<in> set ns. known b' n)"
proof -
  have "(\<lambda>(ns, b'). after b b' \<and> (\<forall>n \<in> set ns. known b' n)) (ns, b')"
    using assms(4) unfolding add_routers_def
  proof (rule efold_keeps)
    fix s i s'
    assume s: "case s of (ns, b') \<Rightarrow> after b b' \<and> (\<forall>n \<in> set ns. known b' n)"
      and step: "(case s of (ns, b) \<Rightarrow> \<lambda>i. ebind (add_router b (pre @ show_nat i) ro pod) (\<lambda>(n, b'). Inr (ns @ [n], b'))) i = Inr s'"
    obtain ms c where sc: "s = (ms, c)" by force
    then obtain n c' where r: "add_router c (pre @ show_nat i) ro pod = Inr (n, c')" "s' = (ms @ [n], c')"
      using step by auto
    have "extends c c'" "known c' n" using add_router_metas [OF r(1)] by (auto simp: extends_def known_def)
    then show "case s' of (ns, b') \<Rightarrow> after b b' \<and> (\<forall>n \<in> set ns. known b' n)"
      using s sc r router [OF _ assms(2,3) r(1)] by (auto intro: extends_trans known_mono)
  qed (use assms(1) in simp)
  then show ?thesis by simp
qed

lemma link_after: "after b c \<Longrightarrow> known b a \<Longrightarrow> known b z \<Longrightarrow> add_link c a z = Inr d \<Longrightarrow> after b d"
  using link [of c a z d] known_mono [of b _ c] add_link_metas [of c a z d] by (auto simp: extends_def)

lemma mesh_keep:
  assumes "P b" "\<forall>n \<in> set as \<union> set zs. known b n" "mesh b as zs = Inr b'"
  shows "after b b'"
  using assms(3) unfolding mesh_def
proof (rule efold_keeps)
  fix s a s'
  assume "a \<in> set as" "after b s" "efold (\<lambda>b z. add_link b a z) s zs = Inr s'"
  then show "after b s'" by (elim efold_keeps) (use assms(2) link_after in \<open>blast | simp\<close>)+
qed (use assms(1) in simp)

lemma spine_links_keep:
  assumes "P b" "\<forall>n \<in> set sps. known b n" "known b la" "known b lb" "spine_links b sps la lb = Inr b'"
  shows "after b b'"
  using assms(5) unfolding spine_links_def
proof (rule efold_keeps)
  fix s sp s'
  assume sp: "sp \<in> set sps" and s: "after b s" and "ebind (add_link s sp la) (\<lambda>b'. add_link b' sp lb) = Inr s'"
  then obtain t where t: "add_link s sp la = Inr t" "add_link t sp lb = Inr s'" by auto
  have k: "known b sp" using sp assms(2) by blast
  show "after b s'" by (rule link_after [OF link_after [OF s k assms(3) t(1)] k assms(4) t(2)])
qed (use assms(1) in simp)

lemma l2_after: "after b c \<Longrightarrow> known b a \<Longrightarrow> known b z \<Longrightarrow> k \<noteq> LinkFabric \<Longrightarrow> after b (add_l2_link c a z k)"
  using l2 [of c a z k] known_mono [of b _ c] by (auto simp: extends_def)

lemma rack_server_keep:
  assumes "after b c" "known b la" "known b lb"
  shows "after b (add_rack_server la lb pod rack sub c i)"
proof -
  obtain srv d where s: "add_server c (pod @ ''-'' @ rack @ ''-server-'' @ show_nat i) pod rack
      (prefix_from (host_at sub (10 + i)) (pbits sub)) (host_at sub 1)
      [paddr (vlan_ip (n_spec la)), paddr (vlan_ip (n_spec lb))] = (srv, d)"
    by force
  have d: "after b d" "known d srv"
    using server [OF _ s] add_server_metas [OF s] assms(1) by (auto simp: extends_def known_def)
  have k: "known d la" "known d lb"
    using known_mono [OF assms(2)] known_mono [OF assms(3)] d(1) by blast+
  have "after d (add_l2_link d la srv LinkServerAccess)"
    using d k by (intro l2_after) auto
  then have "after d (add_l2_link (add_l2_link d la srv LinkServerAccess) lb srv LinkServerAccess)"
    using d k by (intro l2_after) auto
  then show ?thesis using s d extends_trans by (auto simp: add_rack_server_def)
qed

lemma rack_keep:
  assumes "P b" "\<forall>n \<in> set sps. known b n" "add_rack b pod r servers sps = Inr b'"
  shows "after b b'"
proof -
  obtain num c where c: "rack_num_for_slot b pod r = (num, c)" by force
  have pc: "P c" "metas c = metas b" using slot [OF assms(1), of pod r] rack_num_metas [of b pod r] c by simp_all
  let ?rack = "''rack-'' @ show_int num"
  from assms(3) c obtain sub c1 la c2 lb c3 b6
    where s: "allocate_sub c PoolServerVlan (pod @ ''/'' @ ?rack) = Inr (sub, c1)"
      and la: "add_leaf c1 (pod @ ''-'' @ ?rack @ ''-leaf-a'') pod ?rack (rack_asn num)
          (prefix_from (host_at sub 2) (pbits sub)) (host_at sub 1) (rack_mac (rack_vrid num)) (rack_vrid num) 200 = Inr (la, c2)"
      and lb: "add_leaf c2 (pod @ ''-'' @ ?rack @ ''-leaf-b'') pod ?rack (rack_asn num)
          (prefix_from (host_at sub 3) (pbits sub)) (host_at sub 1) (rack_mac (rack_vrid num)) (rack_vrid num) 100 = Inr (lb, c3)"
      and sp: "spine_links (let b4 = set_mlag_peer (set_mlag_peer c3 (length (res_nodes c1)) (node_name lb))
            (Suc (length (res_nodes c1))) (node_name la) in
          b4\<lparr>res_allocs := res_allocs b4 @
               [\<lparr>al_pool = ''asn:'' @ show_role RoleLeaf, al_value = show_nat (unat (rack_asn num)), al_owner = pod @ ''/'' @ ?rack\<rparr>,
                \<lparr>al_pool = show_pool PoolServerVlan, al_value = show_prefix sub, al_owner = pod @ ''/'' @ ?rack\<rparr>]\<rparr>) sps la lb = Inr b6"
      and b': "b' = foldl (add_rack_server la lb pod ?rack sub) (add_l2_link b6 la lb LinkMLAGPeer) (one_to servers)"
    by (auto simp: add_rack_def Let_def)
  have p1: "P c1" "metas c1 = metas b"
    using rack_sub [OF pc(1) s] pc(2) s by (auto simp: metas_def elim!: allocate_sub_frame)
  have m: "metas c2 = metas c1 @ [n_meta la]" "metas c3 = metas c1 @ [n_meta la, n_meta lb]"
    using add_leaf_metas [OF la] add_leaf_metas [OF lb] by simp_all
  have p3: "P c3" using leaf [OF leaf [OF p1(1) la] lb] .
  have len: "length (res_nodes c3) = Suc (Suc (length (res_nodes c1)))"
    using m(2) length_metas [of c3] length_metas [of c1] by simp
  let ?c4 = "set_mlag_peer (set_mlag_peer c3 (length (res_nodes c1)) (node_name lb)) (Suc (length (res_nodes c1))) (node_name la)"
  have l4: "length (res_nodes (set_mlag_peer c3 (length (res_nodes c1)) (node_name lb))) = length (res_nodes c3)"
    by (simp add: set_mlag_peer_def)
  have p4: "P ?c4" "metas ?c4 = metas c3"
    using len l4 by (auto intro!: peer p3)
  obtain b5 where b5: "spine_links b5 sps la lb = Inr b6" "P b5" "metas b5 = metas c3"
    using sp p4 allocs [OF p4(1)] by (metis metas_allocs)
  have k: "extends b b5" "known b5 la" "known b5 lb" "\<forall>n \<in> set sps. known b5 n"
    using b5 m p1 assms(2) by (auto simp: extends_def known_def)
  have "after b5 b6" by (rule spine_links_keep [OF b5(2) k(4,2,3) b5(1)])
  then have "after b5 (add_l2_link b6 la lb LinkMLAGPeer)" using k by (intro l2_after) auto
  then have "after b5 b'" unfolding b' by (rule foldl_keeps) (rule rack_server_keep [OF _ k(2,3)])
  then show ?thesis using k(1) extends_trans by blast
qed

lemma pod_keep:
  assumes "P b" "\<forall>n \<in> set sss. known b n" "add_pod sss b ip = Inr b'"
  shows "after b b'"
proof -
  obtain i pod where ip: "ip = (i, pod)" by force
  obtain sps c d where
    r: "add_routers b (pod_name_at i pod @ ''-spine-'') RoleSpine (pod_name_at i pod) (spines pod) = Inr (sps, c)"
    and m: "mesh c sss sps = Inr d"
    and e: "efold (\<lambda>b r. add_rack b (pod_name_at i pod) r (servers_per_rack pod) sps) d (one_to (racks pod)) = Inr b'"
    using assms(3) ip by (auto simp: add_pod_def Let_def)
  have c: "after b c" "\<forall>n \<in> set sps. known c n" using routers_keep [OF assms(1) _ _ r] by simp_all
  then have kd: "\<forall>n \<in> set sss \<union> set sps. known c n" using assms(2) known_mono by auto
  have d: "after c d" by (rule mesh_keep [OF _ kd m]) (use c in simp)
  have "after d b'"
    using e
  proof (rule efold_keeps)
    fix s r s'
    assume s: "after d s" and a: "add_rack s (pod_name_at i pod) r (servers_per_rack pod) sps = Inr s'"
    have "\<forall>n \<in> set sps. known s n" using kd d s known_mono by blast
    then show "after d s'" using rack_keep [OF _ _ a] s extends_trans by blast
  qed (use d in simp)
  then show ?thesis using c d extends_trans by blast
qed

theorem build_keeps:
  assumes "P b" "build b sp = Inr b'"
  shows "P b'"
proof -
  obtain exts edges sss c d e f g where
    r1: "add_routers b ''external-'' RoleExternal [] (external_routers sp) = Inr (exts, c)" and
    r2: "add_routers c ''dcedge-'' RoleDCEdge [] (dc_edges sp) = Inr (edges, d)" and
    r3: "add_routers d ''superspine-'' RoleSuperSpine [] (super_spines sp) = Inr (sss, e)" and
    m1: "mesh e exts edges = Inr f" and m2: "mesh f edges sss = Inr g" and
    ps: "efold (add_pod sss) g (enumerate 0 (pods sp)) = Inr b'"
    using assms(2) by (auto simp: build_def)
  have c: "after b c" "\<forall>n \<in> set exts. known c n" using routers_keep [OF assms(1) _ _ r1] by simp_all
  have d: "after c d" "\<forall>n \<in> set edges. known d n" using routers_keep [OF _ _ _ r2] c by simp_all
  have e: "after d e" "\<forall>n \<in> set sss. known e n" using routers_keep [OF _ _ _ r3] d by simp_all
  have k1: "\<forall>n \<in> set exts \<union> set edges. known e n" using c d e known_mono extends_trans by blast
  have f: "after e f" by (rule mesh_keep [OF _ k1 m1]) (use e in simp)
  have k2: "\<forall>n \<in> set edges \<union> set sss. known f n" using k1 e f known_mono by blast
  have g: "after f g" by (rule mesh_keep [OF _ k2 m2]) (use f in simp)
  have "after g b'"
    using ps
  proof (rule efold_keeps)
    fix s ip s'
    assume s: "after g s" and a: "add_pod sss s ip = Inr s'"
    have "\<forall>n \<in> set sss. known s n" using k2 g s known_mono by blast
    then show "after g s'" using pod_keep [OF _ _ a] s extends_trans by blast
  qed (use g in simp)
  then show ?thesis by simp
qed

end

end
