(* ===== verification/TopologyLinks.thy ===== *)
theory TopologyLinks
  imports TopologyInv
begin

text \<open>
  The links of a built topology: every endpoint names a node of the result, the interface numbers
  of the new links of a node count up from the highest one the deployed links use, and a link the
  base has keeps its interfaces.
\<close>

section \<open>What one link appends\<close>

lemma new_endpoint_eq:
  "new_endpoint b n ad p =
     (\<lparr>ep_id = node_id n, ep_node = node_name n,
       ep_iface = (if p = [] then eth (if_index b (node_name n) + 1) else p), ep_addr = ad\<rparr>,
      if p = [] then b\<lparr>if_index := (if_index b)(node_name n := if_index b (node_name n) + 1)\<rparr> else b)"
  by (simp add: new_endpoint_def Let_def)

definition lname :: "node \<Rightarrow> node \<Rightarrow> string" where
  "lname a z = node_name a @ ''--'' @ node_name z"

text \<open>The link \<open>push_link\<close> appends, and its interfaces when the base has the link and when it does not.\<close>

definition made_link :: "builder \<Rightarrow> node \<Rightarrow> node \<Rightarrow> link_kind \<Rightarrow> int \<Rightarrow> prefix \<Rightarrow> prefix \<Rightarrow> link" where
  "made_link b a z k v p q = last (res_links (push_link b a z k v p q))"

lemma push_link_links: "res_links (push_link b a z k v p q) = res_links b @ [made_link b a z k v p q]"
  by (simp add: made_link_def push_link_def draw_id_def Let_def split_beta new_endpoint_frame)

lemmas push_link_defs = made_link_def push_link_def draw_id_def new_endpoint_eq pinned_interfaces_def lname_def fresh_meta_def

lemma made_link_sel [simp]:
  "link_name (made_link b a z k v p q) = lname a z" "kind (l_spec (made_link b a z k v p q)) = k"
  "ep_node (end_a (l_spec (made_link b a z k v p q))) = node_name a" "ep_id (end_a (l_spec (made_link b a z k v p q))) = node_id a"
  "ep_addr (end_a (l_spec (made_link b a z k v p q))) = p"
  "ep_node (end_b (l_spec (made_link b a z k v p q))) = node_name z" "ep_id (end_b (l_spec (made_link b a z k v p q))) = node_id z"
  "ep_addr (end_b (l_spec (made_link b a z k v p q))) = q"
  by (simp_all add: push_link_defs Let_def split_beta)

lemma pinned_link:
  assumes "base_links b (lname a z) = Some bl" "ep_iface (end_a (l_spec bl)) \<noteq> []" "ep_iface (end_b (l_spec bl)) \<noteq> []"
  shows "ep_iface (end_a (l_spec (made_link b a z k v p q))) = ep_iface (end_a (l_spec bl))"
    "ep_iface (end_b (l_spec (made_link b a z k v p q))) = ep_iface (end_b (l_spec bl))"
    "if_index (push_link b a z k v p q) = if_index b"
  using assms by (simp_all add: push_link_defs Let_def)

lemma unpinned_link:
  assumes "base_links b (lname a z) = None"
  shows "ep_iface (end_a (l_spec (made_link b a z k v p q))) = eth (if_index b (node_name a) + 1)"
    "ep_iface (end_b (l_spec (made_link b a z k v p q))) =
       eth (if node_name z = node_name a then 2 + if_index b (node_name a) else if_index b (node_name z) + 1)"
    "if_index (push_link b a z k v p q) = (\<lambda>x. if_index b x + (if x = node_name a then 1 else 0) + (if x = node_name z then 1 else 0))"
  using assms by (auto simp: push_link_defs Let_def fun_eq_iff add.commute)

lemma add_link_push:
  assumes "add_link b a z = Inr b'"
  obtains sub b1 where "allocate_sub b PoolFabricP2P (lname a z) = Inr (sub, b1)"
    "b' = (push_link b1 a z LinkFabric 0 (prefix_from (paddr (masked sub)) (pbits sub))
             (prefix_from (addr_next (paddr (masked sub))) (pbits sub)))\<lparr>res_allocs := res_allocs b1 @
             [\<lparr>al_pool = show_pool PoolFabricP2P, al_value = show_prefix sub, al_owner = lname a z\<rparr>]\<rparr>"
  using assms by (auto simp: add_link_def Let_def lname_def push_link_frame)

section \<open>Endpoints name nodes of the result\<close>

definition ends_known :: "builder \<Rightarrow> bool" where
  "ends_known b \<longleftrightarrow> (\<forall>l \<in> set (res_links b). \<forall>e \<in> set (ends l). (ep_id e, ep_node e) \<in> (\<lambda>m. (meta_id m, meta_name m)) ` set (metas b))"

lemma ends_known_same: "res_links b' = res_links b \<Longrightarrow> extends b b' \<Longrightarrow> ends_known b \<Longrightarrow> ends_known b'"
  by (fastforce simp: ends_known_def extends_def)

lemma push_link_known:
  assumes "ends_known b" "known b a" "known b z"
  shows "ends_known (push_link b a z k v p q)"
proof -
  have "metas (push_link b a z k v p q) = metas b" by (simp add: metas_def push_link_frame)
  then show ?thesis using assms by (auto simp: ends_known_def ends_def known_def push_link_links)
qed

definition same_links :: "builder \<Rightarrow> builder \<Rightarrow> bool" where
  "same_links b b' \<longleftrightarrow> res_links b' = res_links b \<and> if_index b' = if_index b \<and> base_links b' = base_links b \<and> extends b b'"

lemma links_frame:
  "add_router b nm ro pod = Inr (n, b') \<Longrightarrow> same_links b b'"
  "add_leaf b nm pod rack v vip gw mac vrid prio = Inr (n, b') \<Longrightarrow> same_links b b'"
  "add_server b nm pod rack ad gw peers = (n, b') \<Longrightarrow> same_links b b'"
  "allocate_sub b pl w = Inr (s, b') \<Longrightarrow> same_links b b'"
  "same_links b (snd (rack_num_for_slot b pod r))"
  "i < length (res_nodes b) \<Longrightarrow> same_links b (set_mlag_peer b i peer)"
  "same_links b (b\<lparr>res_allocs := xs\<rparr>)"
proof -
  assume "i < length (res_nodes b)"
  then have "metas (set_mlag_peer b i peer) = metas b" by simp
  then show "same_links b (set_mlag_peer b i peer)" by (simp add: same_links_def extends_def) (simp add: set_mlag_peer_def)
qed (auto simp: same_links_def extends_def add_router_def add_leaf_def add_server_def push_node_eq Let_def
      rack_num_for_slot_def metas_def elim!: allocate_asn_frame allocate_sub_frame)

lemma ends_known_frame: "ends_known b \<Longrightarrow> same_links b b' \<Longrightarrow> ends_known b'"
  by (auto simp: same_links_def intro: ends_known_same)

interpretation ends: builder_invariant ends_known
proof
  fix b a z b' assume e: "ends_known b" "known b a" "known b z" and "add_link b a z = Inr b'"
  then obtain sub b1 where s: "allocate_sub b PoolFabricP2P (lname a z) = Inr (sub, b1)"
    and b': "b' = (push_link b1 a z LinkFabric 0 (prefix_from (paddr (masked sub)) (pbits sub))
             (prefix_from (addr_next (paddr (masked sub))) (pbits sub)))\<lparr>res_allocs := res_allocs b1 @
             [\<lparr>al_pool = show_pool PoolFabricP2P, al_value = show_prefix sub, al_owner = lname a z\<rparr>]\<rparr>"
    by (elim add_link_push)
  have "metas b1 = metas b" using s by (auto simp: metas_def elim!: allocate_sub_frame)
  then have "ends_known b1" "known b1 a" "known b1 z"
    using e ends_known_frame [OF e(1) links_frame(4) [OF s]] by (simp_all add: known_def)
  then have "ends_known (push_link b1 a z LinkFabric 0 (prefix_from (paddr (masked sub)) (pbits sub))
             (prefix_from (addr_next (paddr (masked sub))) (pbits sub)))" by (rule push_link_known)
  then show "ends_known b'" unfolding b' by (simp add: ends_known_def)
next
  fix b a z k assume "ends_known b" "known b a" "known b z"
  then show "ends_known (add_l2_link b a z k)" unfolding add_l2_link_def by (rule push_link_known)
qed (blast intro: ends_known_frame links_frame)+

section \<open>Interface numbers\<close>

text \<open>The interfaces of node \<open>x\<close> on links that \<open>L\<close> does not have, in the order they were built.\<close>

definition new_ifaces :: "(string \<Rightarrow> link option) \<Rightarrow> link list \<Rightarrow> string \<Rightarrow> string list" where
  "new_ifaces L ls x = map ep_iface (filter (\<lambda>e. ep_node e = x) (concat (map ends (filter (\<lambda>l. L (link_name l) = None) ls))))"

definition pins_ok :: "(string \<Rightarrow> link option) \<Rightarrow> bool" where
  "pins_ok L \<longleftrightarrow> (\<forall>nm l. L nm = Some l \<longrightarrow> ep_iface (end_a (l_spec l)) \<noteq> [] \<and> ep_iface (end_b (l_spec l)) \<noteq> [])"

definition counted :: "(string \<Rightarrow> link option) \<Rightarrow> (string \<Rightarrow> int) \<Rightarrow> builder \<Rightarrow> bool" where
  "counted L i0 b \<longleftrightarrow> base_links b = L \<and> pins_ok L \<and>
     (\<forall>x. \<exists>m. if_index b x = i0 x + int m \<and> new_ifaces L (res_links b) x = map (\<lambda>j. eth (i0 x + int j)) [1..<Suc m]) \<and>
     (\<forall>l \<in> set (res_links b). \<forall>bl. L (link_name l) = Some bl \<longrightarrow>
        ep_iface (end_a (l_spec l)) = ep_iface (end_a (l_spec bl)) \<and> ep_iface (end_b (l_spec l)) = ep_iface (end_b (l_spec bl)))"

lemma counted_same:
  "counted L i0 b \<Longrightarrow> same_links b b' \<Longrightarrow> counted L i0 b'"
  by (simp add: counted_def same_links_def)

lemma upt_two: "[1..<Suc (Suc (Suc m))] = [1..<Suc m] @ [Suc m, Suc (Suc m)]"
  by simp

lemma new_ifaces_snoc:
  "new_ifaces L (ls @ [l]) x = new_ifaces L ls x @
     (if L (link_name l) = None then map ep_iface (filter (\<lambda>e. ep_node e = x) (ends l)) else [])"
  by (simp add: new_ifaces_def)

lemma unpinned_counts:
  assumes "if_index b x = i0 x + int m" "new_ifaces L (res_links b) x = map (\<lambda>j. eth (i0 x + int j)) [1..<Suc m]"
    and "base_links b = L" "L (lname a z) = None"
  shows "\<exists>m. if_index (push_link b a z k v p q) x = i0 x + int m \<and>
     new_ifaces L (res_links (push_link b a z k v p q)) x = map (\<lambda>j. eth (i0 x + int j)) [1..<Suc m]"
proof -
  note u = unpinned_link [where b = b and a = a and z = z, unfolded assms(3), OF assms(4)]
  have n: "new_ifaces L (res_links (push_link b a z k v p q)) x = map (\<lambda>j. eth (i0 x + int j)) [1..<Suc m] @
      (if node_name a = x then [eth (i0 x + int (Suc m))] else []) @
      (if node_name z = x then [eth (i0 x + int (if node_name z = node_name a then Suc (Suc m) else Suc m))] else [])"
    using assms(1,2,4) by (auto simp: push_link_links new_ifaces_snoc ends_def u algebra_simps)
  show ?thesis
  proof (cases "node_name a = x \<and> node_name z = x")
    case True
    then have "new_ifaces L (res_links (push_link b a z k v p q)) x = map (\<lambda>j. eth (i0 x + int j)) [1..<Suc (Suc (Suc m))]"
      unfolding upt_two using n by simp
    moreover have "if_index (push_link b a z k v p q) x = i0 x + int (Suc (Suc m))" using True u(3) assms(1) by simp
    ultimately show ?thesis by blast
  next
    case one: False
    show ?thesis
    proof (cases "node_name a = x \<or> node_name z = x")
      case True
      then have "new_ifaces L (res_links (push_link b a z k v p q)) x = map (\<lambda>j. eth (i0 x + int j)) [1..<Suc (Suc m)]"
        using one n by auto
      moreover have "if_index (push_link b a z k v p q) x = i0 x + int (Suc m)" using True one u(3) assms(1) by auto
      ultimately show ?thesis by blast
    next
      case False
      then show ?thesis using n u(3) assms(1) by auto
    qed
  qed
qed

lemma push_link_counted:
  assumes c: "counted L i0 b"
  shows "counted L i0 (push_link b a z k v p q)"
proof -
  let ?b = "push_link b a z k v p q"
  have L: "base_links b = L" "pins_ok L" using c by (simp_all add: counted_def)
  show ?thesis
  proof (cases "L (lname a z)")
    case (Some bl)
    then have "ep_iface (end_a (l_spec bl)) \<noteq> []" "ep_iface (end_b (l_spec bl)) \<noteq> []" "base_links b (lname a z) = Some bl"
      using L by (auto simp: pins_ok_def)
    note p = pinned_link [OF this(3,1,2)]
    show ?thesis using c Some by (auto simp: counted_def push_link_links new_ifaces_snoc push_link_frame p)
  next
    case None
    have "\<exists>m. if_index ?b x = i0 x + int m \<and> new_ifaces L (res_links ?b) x = map (\<lambda>j. eth (i0 x + int j)) [1..<Suc m]" for x
    proof -
      obtain m where "if_index b x = i0 x + int m" "new_ifaces L (res_links b) x = map (\<lambda>j. eth (i0 x + int j)) [1..<Suc m]"
        using c unfolding counted_def by blast
      then show ?thesis by (rule unpinned_counts [OF _ _ L(1) None])
    qed
    moreover have "\<forall>l \<in> set (res_links ?b). \<forall>bl. L (link_name l) = Some bl \<longrightarrow>
        ep_iface (end_a (l_spec l)) = ep_iface (end_a (l_spec bl)) \<and> ep_iface (end_b (l_spec l)) = ep_iface (end_b (l_spec bl))"
      using c None by (auto simp: counted_def push_link_links)
    ultimately show ?thesis unfolding counted_def using L by (simp add: push_link_frame)
  qed
qed

interpretation count: builder_invariant "counted L i0" for L i0
proof
  fix b a z b' assume c: "counted L i0 b" and "add_link b a z = Inr b'"
  then obtain sub b1 where s: "allocate_sub b PoolFabricP2P (lname a z) = Inr (sub, b1)"
    and b': "b' = (push_link b1 a z LinkFabric 0 (prefix_from (paddr (masked sub)) (pbits sub))
             (prefix_from (addr_next (paddr (masked sub))) (pbits sub)))\<lparr>res_allocs := res_allocs b1 @
             [\<lparr>al_pool = show_pool PoolFabricP2P, al_value = show_prefix sub, al_owner = lname a z\<rparr>]\<rparr>"
    by (elim add_link_push)
  have "counted L i0 b1" using counted_same [OF c] links_frame(4) [OF s] by blast
  from push_link_counted [OF this] show "counted L i0 b'" unfolding b' by (simp add: counted_def)
next
  fix b a z k assume "counted L i0 b"
  then show "counted L i0 (add_l2_link b a z k)" unfolding add_l2_link_def by (rule push_link_counted)
qed (blast intro: counted_same links_frame)+

end
