(* ===== verification/TopologyBase.thy ===== *)
theory TopologyBase
  imports TopologyLinks
begin

text \<open>
  What restoring a base leaves in the builder: the pinned resources, the links by name, and
  interface counters that are past every interface the base uses.
\<close>

section \<open>Frames of the restore steps\<close>

lemma pin_frame:
  assumes "pin b pl w s = Inr b'"
  obtains p p' where "b_pools b pl = Some p" "restore p s w = Inr p'"
    "b' = b\<lparr>b_pools := (b_pools b)(pl \<mapsto> p'), pinned_sub := (pinned_sub b)(pl := (pinned_sub b pl)(w \<mapsto> s)),
            base_owners := (base_owners b)(show_pool pl @ ''|'' @ w := True)\<rparr>"
  using assms by (auto simp: pin_def split: option.splits)

lemma pin_asn_frame:
  assumes "pin_asn b ro w v = Inr b'"
  obtains a where "asn_restore ro (b_asns b) v w = Inr a"
    "b' = b\<lparr>b_asns := a, pinned_asn := (pinned_asn b)(ro := (pinned_asn b ro)(w \<mapsto> v)),
            base_owners := (base_owners b)(''asn:'' @ show_role ro @ ''|'' @ w := True)\<rparr>"
  using assms by (auto simp: pin_asn_def)

text \<open>What one node's restore may change, and what it leaves alone.\<close>

lemma restore_role_cases:
  assumes "restore_role (b, seen) n = Inr (b', seen')"
  obtains (same) "b' = b" "seen' = seen" "role (n_spec n) \<in> {RoleServer, RoleLeaf}"
  | (rack) num where "role (n_spec n) = RoleLeaf" "rack_number (rack_id (n_spec n)) = Some num"
      "pin_rack b (n_spec n) (pod_id (n_spec n) @ ''/'' @ rack_id (n_spec n)) num = Inr b'"
  | (asn) "role (n_spec n) \<notin> {RoleServer, RoleLeaf}"
      "pin_asn b (role (n_spec n)) (node_name n) (asn (n_spec n)) = Inr b'"
  using assms by (auto simp: restore_role_def Let_def split: node_role.splits option.splits if_splits)

definition same_result :: "builder \<Rightarrow> builder \<Rightarrow> bool" where
  "same_result b b' \<longleftrightarrow> res_nodes b' = res_nodes b \<and> res_links b' = res_links b \<and> res_allocs b' = res_allocs b \<and> b_lab b' = b_lab b"

definition same_wires :: "builder \<Rightarrow> builder \<Rightarrow> bool" where
  "same_wires b b' \<longleftrightarrow> if_index b' = if_index b \<and> base_links b' = base_links b"

lemma pin_same: "pin b pl w s = Inr b' \<Longrightarrow> same_result b b' \<and> same_wires b b'"
  by (auto simp: same_result_def same_wires_def elim!: pin_frame)

lemma pin_rack_same: "pin_rack b s w num = Inr b' \<Longrightarrow> same_result b b' \<and> same_wires b b'"
  unfolding pin_rack_def by (drule pin_same) (simp add: same_result_def same_wires_def)

lemma restore_role_same: "restore_role (b, seen) n = Inr (b', seen') \<Longrightarrow> same_result b b' \<and> same_wires b b'"
  by (elim restore_role_cases pin_asn_frame)
    (auto simp: same_result_def same_wires_def dest!: pin_rack_same)

lemma restore_node_cases:
  assumes "restore_node (b, seen) n = Inr (b', seen')"
  obtains (loop) b1 where "is_valid (loopback (n_spec n))" "pin b PoolLoopback (node_name n) (loopback (n_spec n)) = Inr b1"
      "restore_role (b1, seen) n = Inr (b', seen')"
  | (bare) "\<not> is_valid (loopback (n_spec n))" "restore_role (b, seen) n = Inr (b', seen')"
  using assms by (auto simp: restore_node_def split: if_splits)

lemma restore_node_same: "restore_node (b, seen) n = Inr (b', seen') \<Longrightarrow> same_result b b' \<and> same_wires b b'"
  by (elim restore_node_cases) (auto simp: same_result_def same_wires_def dest!: pin_same restore_role_same)

lemma restore_endpoint_cases:
  assumes "restore_endpoint nm b e = Inr b'"
  obtains idx where "sscanf_d ''eth'' (ep_iface e) = Some idx"
    "b' = b\<lparr>if_index := (if_index b)(ep_node e := max (if_index b (ep_node e)) idx)\<rparr>"
proof -
  from assms obtain idx where i: "sscanf_d ''eth'' (ep_iface e) = Some idx"
    and b': "b' = (if if_index b (ep_node e) < idx then b\<lparr>if_index := (if_index b)(ep_node e := idx)\<rparr> else b)"
    by (auto simp: restore_endpoint_def split: option.splits)
  have "b' = b\<lparr>if_index := (if_index b)(ep_node e := max (if_index b (ep_node e)) idx)\<rparr>"
    unfolding b' by (cases b) (auto simp: fun_eq_iff max_def)
  then show ?thesis using i that by blast
qed

lemma restore_link_cases:
  assumes "restore_link b l = Inr b'"
  obtains b2 b3 where
    "if kind (l_spec l) = LinkFabric
     then pin (b\<lparr>base_links := (base_links b)(link_name l \<mapsto> l)\<rparr>) PoolFabricP2P (link_name l) (masked (ep_addr (end_a (l_spec l)))) = Inr b2
     else b2 = b\<lparr>base_links := (base_links b)(link_name l \<mapsto> l)\<rparr>"
    "restore_endpoint (link_name l) b2 (end_a (l_spec l)) = Inr b3"
    "restore_endpoint (link_name l) b3 (end_b (l_spec l)) = Inr b'"
  using assms by (fastforce simp: restore_link_def Let_def ends_def split: if_splits)

definition wired :: "link \<Rightarrow> builder \<Rightarrow> bool" where
  "wired l b \<longleftrightarrow> base_links b (link_name l) \<noteq> None \<and>
     (\<forall>e \<in> set (ends l). \<exists>idx. sscanf_d ''eth'' (ep_iface e) = Some idx \<and> idx \<le> if_index b (ep_node e))"

lemma wired_mono:
  "wired l b \<Longrightarrow> (\<And>x. if_index b x \<le> if_index b' x) \<Longrightarrow> (\<And>x. base_links b x \<noteq> None \<Longrightarrow> base_links b' x \<noteq> None) \<Longrightarrow> wired l b'"
  unfolding wired_def by (meson order_trans)

lemma restore_link_wires:
  assumes "restore_link b l = Inr b'"
  shows "base_links b' = (base_links b)(link_name l \<mapsto> l)" "wired l b'" "if_index b x \<le> if_index b' x" "same_result b b'"
proof -
  from assms obtain b2 b3 i j where
    p: "if kind (l_spec l) = LinkFabric
     then pin (b\<lparr>base_links := (base_links b)(link_name l \<mapsto> l)\<rparr>) PoolFabricP2P (link_name l) (masked (ep_addr (end_a (l_spec l)))) = Inr b2
     else b2 = b\<lparr>base_links := (base_links b)(link_name l \<mapsto> l)\<rparr>"
    and i: "sscanf_d ''eth'' (ep_iface (end_a (l_spec l))) = Some i"
      "b3 = b2\<lparr>if_index := (if_index b2)(ep_node (end_a (l_spec l)) := max (if_index b2 (ep_node (end_a (l_spec l)))) i)\<rparr>"
    and j: "sscanf_d ''eth'' (ep_iface (end_b (l_spec l))) = Some j"
      "b' = b3\<lparr>if_index := (if_index b3)(ep_node (end_b (l_spec l)) := max (if_index b3 (ep_node (end_b (l_spec l)))) j)\<rparr>"
    by (elim restore_link_cases restore_endpoint_cases) blast
  have w: "if_index b2 = if_index b" "base_links b2 = (base_links b)(link_name l \<mapsto> l)" "same_result b b2"
    using p by (auto simp: same_wires_def same_result_def dest!: pin_same split: if_splits)
  show "base_links b' = (base_links b)(link_name l \<mapsto> l)" "wired l b'" "if_index b x \<le> if_index b' x" "same_result b b'"
    using i j w by (auto simp: wired_def ends_def same_result_def)
qed

section \<open>After the whole restore\<close>

lemma restore_base_cases:
  assumes "restore_base b bs = Inr b'"
  obtains b1 seen where "efold restore_node (b, {}) (base_nodes bs) = Inr (b1, seen)"
    "efold restore_link (b1\<lparr>rack_slots := (\<lambda>p. sort (rack_slots b1 p))\<rparr>) (base_link_list bs) = Inr b'"
  using assms by (auto simp: restore_base_def)

lemma restore_nodes_same:
  assumes "efold restore_node (b, seen0) ns = Inr (b1, seen)"
  shows "same_result b b1 \<and> same_wires b b1"
proof -
  have "(\<lambda>(c, _). same_result b c \<and> same_wires b c) (b1, seen)"
    using assms
  proof (rule efold_keeps)
    fix s x s'
    assume "case s of (c, _) \<Rightarrow> same_result b c \<and> same_wires b c" "restore_node s x = Inr s'"
    then show "case s' of (c, _) \<Rightarrow> same_result b c \<and> same_wires b c"
      using restore_node_same [of "fst s" "snd s" x "fst s'" "snd s'"]
      by (auto simp: same_result_def same_wires_def split_beta)
  qed (simp add: same_result_def same_wires_def)
  then show ?thesis by simp
qed

lemma restore_base_wires:
  assumes "restore_base b bs = Inr b'" "base_links b = Map.empty"
  shows "\<forall>l \<in> set (base_link_list bs). wired l b'"
    "\<forall>nm l. base_links b' nm = Some l \<longrightarrow> l \<in> set (base_link_list bs) \<and> link_name l = nm"
    "distinct (map link_name (base_link_list bs)) \<Longrightarrow> l \<in> set (base_link_list bs) \<Longrightarrow> base_links b' (link_name l) = Some l"
    "same_result b b'"
proof -
  from assms(1) obtain b1 seen where n: "efold restore_node (b, {}) (base_nodes bs) = Inr (b1, seen)"
    and e: "efold restore_link (b1\<lparr>rack_slots := (\<lambda>p. sort (rack_slots b1 p))\<rparr>) (base_link_list bs) = Inr b'"
    by (elim restore_base_cases)
  let ?b1 = "b1\<lparr>rack_slots := (\<lambda>p. sort (rack_slots b1 p))\<rparr>"
  have s: "same_result b ?b1" "base_links ?b1 = Map.empty"
    using restore_nodes_same [OF n] assms(2) by (auto simp: same_result_def same_wires_def)
  show "\<forall>l \<in> set (base_link_list bs). wired l b'"
  proof (rule efold_each [OF e])
    show "wired x s'" if "wired x s" "restore_link s y = Inr s'" for s x y s'
      by (rule wired_mono [OF that(1)]) (use restore_link_wires(1,3) [OF that(2)] in auto)
  qed (rule restore_link_wires(2))
  show "\<forall>nm l. base_links b' nm = Some l \<longrightarrow> l \<in> set (base_link_list bs) \<and> link_name l = nm"
    using e by (rule efold_keeps) (use s(2) restore_link_wires(1) in \<open>auto split: if_splits\<close>)
  show "same_result b b'"
    using e s(1) by (rule efold_keeps) (use restore_link_wires(4) in \<open>auto simp: same_result_def\<close>)
  assume d: "distinct (map link_name (base_link_list bs))" "l \<in> set (base_link_list bs)"
  have "\<exists>l'. base_links b' (link_name l) = Some l'"
    using \<open>\<forall>l \<in> set (base_link_list bs). wired l b'\<close> d(2) by (auto simp: wired_def)
  then obtain l' where l': "base_links b' (link_name l) = Some l'" by blast
  then have "l' \<in> set (base_link_list bs)" "link_name l' = link_name l"
    using \<open>\<forall>nm l. base_links b' nm = Some l \<longrightarrow> l \<in> set (base_link_list bs) \<and> link_name l = nm\<close> by auto
  then show "base_links b' (link_name l) = Some l" using d l' by (metis distinct_map inj_onD)
qed

lemma restore_index_nonneg:
  assumes "restore_base b bs = Inr b'" "\<And>x. 0 \<le> if_index b x"
  shows "0 \<le> if_index b' x"
proof -
  from assms(1) obtain b1 seen where n: "efold restore_node (b, {}) (base_nodes bs) = Inr (b1, seen)"
    and e: "efold restore_link (b1\<lparr>rack_slots := (\<lambda>p. sort (rack_slots b1 p))\<rparr>) (base_link_list bs) = Inr b'"
    by (elim restore_base_cases)
  show ?thesis
    using e
  proof (rule efold_keeps)
    show "0 \<le> if_index s' x" if "0 \<le> if_index s x" "restore_link s l = Inr s'" for s l s'
      using restore_link_wires(3) [OF that(2), of x] that(1) by linarith
  qed (use restore_nodes_same [OF n] assms(2) in \<open>simp add: same_wires_def\<close>)
qed

lemma new_builder_cases:
  assumes "new_builder ds lab sp bs = Inr b"
  obtains ps as where "new_builder_pools (lab_pools sp) = Inr ps" "new_asns (lab_asns sp) = Inr as"
    "case bs of None \<Rightarrow> b = empty_builder lab ps as ds | Some x \<Rightarrow> restore_base (empty_builder lab ps as ds) x = Inr b"
  using assms by (fastforce simp: new_builder_def split: option.splits)

lemma empty_builder_sel [simp]:
  "base_links (empty_builder lab ps as ds) = Map.empty" "if_index (empty_builder lab ps as ds) = (\<lambda>_. 0)"
  "res_nodes (empty_builder lab ps as ds) = []" "res_links (empty_builder lab ps as ds) = []"
  "res_allocs (empty_builder lab ps as ds) = []" "b_pools (empty_builder lab ps as ds) = ps"
  "b_asns (empty_builder lab ps as ds) = as" "pinned_sub (empty_builder lab ps as ds) = (\<lambda>_. Map.empty)"
  "pinned_asn (empty_builder lab ps as ds) = (\<lambda>_. Map.empty)" "b_lab (empty_builder lab ps as ds) = lab"
  "rack_slots (empty_builder lab ps as ds) = (\<lambda>_. [])" "max_rack (empty_builder lab ps as ds) = 0"
  by (simp_all add: empty_builder_def)

lemma new_builder_empty:
  assumes "new_builder ds lab sp bs = Inr b"
  shows "res_nodes b = []" "res_links b = []" "res_allocs b = []" "b_lab b = lab"
  using assms restore_base_wires(4)
  by (auto elim!: new_builder_cases simp: same_result_def split: option.splits)

section \<open>Scanning what was printed\<close>

lemma digit_chars: "is_digit c \<Longrightarrow> c \<notin> {CHR 0x0A, CHR 0x09, CHR 0x0B, CHR 0x0C, CHR 0x0D, CHR '' '', CHR ''-'', CHR ''+''}"
  by (auto simp: is_digit_def)

lemma scan_show: "0 \<le> k \<Longrightarrow> scan_d (show_int k) = (if k < 2 ^ 63 then Some k else None)"
proof -
  assume k: "0 \<le> k"
  then have s: "show_int k = show_nat (nat k)" by (simp add: show_int_def)
  obtain c t where c: "show_nat (nat k) = c # t" by (cases "show_nat (nat k)") auto
  have dg: "\<forall>x \<in> set (c # t). is_digit x" using show_nat_digits [of "nat k"] c by simp
  then have sp: "skip_space (c # t) = Some (c # t)" "c \<noteq> CHR ''-''" "c \<noteq> CHR ''+''" using digit_chars [of c] by auto
  have tw: "takeWhile is_digit (c # t) = c # t" using dg by (simp only: takeWhile_eq_all_conv)
  have v: "digits_val (c # t) = nat k" by (metis c digits_val_show_nat)
  have "scan_d (show_int k) = scan_digits 1 (c # t)"
    by (simp only: scan_d_def s c sp option.case list.case if_False)
  also have "\<dots> = (if k < 2 ^ 63 then Some k else None)"
    unfolding scan_digits_def tw v Let_def using k by simp
  finally show ?thesis .
qed

lemma scan_eth: "0 \<le> k \<Longrightarrow> sscanf_d ''eth'' (eth k) = Some i \<Longrightarrow> i = k"
  by (simp add: sscanf_d_def eth_def scan_show split: if_splits)

lemma eth_inj [simp]: "eth i = eth j \<longleftrightarrow> i = j"
  by (simp add: eth_def show_int_inj)

end
