(* ===== verification/TopologyDemo.thy ===== *)
theory TopologyDemo
  imports TopologyBase
begin

text \<open>
  A small lab on which the properties of the builder are evaluated: one external router and two
  DC edges, from scratch and rebuilt on a base in which the external router is deployed with its own
  ASN, loopback address and a link to a router that the spec no longer has.
\<close>

definition demo_draws :: "nat \<Rightarrow> draw" where
  "demo_draws i = (i, 0)"

definition demo_spec :: lab_spec where
  "demo_spec = \<lparr>lab_profile = ProfileCustom,
     lab_topology = \<lparr>external_routers = 1, dc_edges = 2, super_spines = 0, pods = [], internet_access = False\<rparr>,
     lab_pools = [\<lparr>ap_name = PoolFabricP2P, ap_cidr = ''10.0.0.0/16'', ap_prefix = 31\<rparr>,
                  \<lparr>ap_name = PoolLoopback, ap_cidr = ''10.1.0.0/16'', ap_prefix = 32\<rparr>],
     lab_asns = [\<lparr>ar_role = RoleExternal, ar_start = 64500, ar_end = 64599\<rparr>,
                 \<lparr>ar_role = RoleDCEdge, ar_start = 64600, ar_end = 64699\<rparr>]\<rparr>"

definition demo_node :: node where
  "demo_node = \<lparr>n_meta = fresh_meta ''node-x'' ''external-1'',
     n_spec = (empty_spec ''lab'' RoleExternal)\<lparr>asn := 64510, loopback := Prefix (V4 0x0A010009) 32\<rparr>, n_status = empty_status\<rparr>"

definition demo_link :: link where
  "demo_link = \<lparr>l_meta = fresh_meta ''link-x'' ''external-1--dcedge-9'',
     l_spec = \<lparr>l_lab = ''lab'', kind = LinkFabric, l_vlan_id = 0,
       end_a = \<lparr>ep_id = ''node-x'', ep_node = ''external-1'', ep_iface = ''eth3'', ep_addr = Prefix (V4 0x0A000008) 31\<rparr>,
       end_b = \<lparr>ep_id = ''node-y'', ep_node = ''dcedge-9'', ep_iface = ''eth1'', ep_addr = Prefix (V4 0x0A000009) 31\<rparr>, mtu = 9100\<rparr>,
     l_status = \<lparr>admin_up = True, oper_up = True\<rparr>\<rparr>"

definition demo_base :: base where
  "demo_base = \<lparr>base_nodes = [demo_node], base_link_list = [demo_link]\<rparr>"

definition demo_run :: "base option \<Rightarrow> builder option" where
  "demo_run bs = (case new_builder demo_draws ''lab'' demo_spec bs of Inl _ \<Rightarrow> None
     | Inr b \<Rightarrow> (case build b (lab_topology demo_spec) of Inl _ \<Rightarrow> None | Inr b' \<Rightarrow> Some b'))"

text \<open>What the rest of the development looks at in a result.\<close>

definition node_view :: "node \<Rightarrow> string \<times> node_role \<times> 32 word \<times> prefix" where
  "node_view n = (node_name n, role (n_spec n), asn (n_spec n), loopback (n_spec n))"

definition link_view :: "link \<Rightarrow> string \<times> link_kind \<times> (string \<times> string \<times> prefix) list" where
  "link_view l = (link_name l, kind (l_spec l), map (\<lambda>e. (ep_node e, ep_iface e, ep_addr e)) (ends l))"

lemma demo_fresh:
  "map_option (\<lambda>b. (map node_view (res_nodes b), map link_view (res_links b))) (demo_run None) = Some
     ([(''external-1'', RoleExternal, 64500, Prefix (V4 0x0A010000) 32), (''dcedge-1'', RoleDCEdge, 64600, Prefix (V4 0x0A010001) 32),
       (''dcedge-2'', RoleDCEdge, 64601, Prefix (V4 0x0A010002) 32)],
      [(''external-1--dcedge-1'', LinkFabric, [(''external-1'', ''eth1'', Prefix (V4 0x0A000000) 31),
                                              (''dcedge-1'', ''eth1'', Prefix (V4 0x0A000001) 31)]),
       (''external-1--dcedge-2'', LinkFabric, [(''external-1'', ''eth2'', Prefix (V4 0x0A000002) 31),
                                              (''dcedge-2'', ''eth1'', Prefix (V4 0x0A000003) 31)])])"
  by code_simp

lemma demo_rebuilt:
  "map_option (\<lambda>b. (map node_view (res_nodes b), map link_view (res_links b))) (demo_run (Some demo_base)) = Some
     ([(''external-1'', RoleExternal, 64510, Prefix (V4 0x0A010009) 32), (''dcedge-1'', RoleDCEdge, 64600, Prefix (V4 0x0A01000A) 32),
       (''dcedge-2'', RoleDCEdge, 64601, Prefix (V4 0x0A01000B) 32)],
      [(''external-1--dcedge-1'', LinkFabric, [(''external-1'', ''eth4'', Prefix (V4 0x0A00000A) 31),
                                              (''dcedge-1'', ''eth1'', Prefix (V4 0x0A00000B) 31)]),
       (''external-1--dcedge-2'', LinkFabric, [(''external-1'', ''eth5'', Prefix (V4 0x0A00000C) 31),
                                              (''dcedge-2'', ''eth1'', Prefix (V4 0x0A00000D) 31)])])"
  by code_simp

lemma demo_run_Some:
  assumes "demo_run bs = Some b'"
  obtains b where "new_builder demo_draws ''lab'' demo_spec bs = Inr b" "build b (lab_topology demo_spec) = Inr b'"
  using assms by (auto simp: demo_run_def split: sum.splits)

lemma demo_fresh_result:
  obtains b b' where "demo_run None = Some b'" "new_builder demo_draws ''lab'' demo_spec None = Inr b"
    "build b (lab_topology demo_spec) = Inr b'" "length (res_links b') = 2"
proof -
  obtain b' where b': "demo_run None = Some b'" "map link_view (res_links b') = snd (the (map_option
      (\<lambda>b. (map node_view (res_nodes b), map link_view (res_links b))) (demo_run None)))"
    using demo_fresh by (cases "demo_run None") auto
  then have "length (map link_view (res_links b')) = 2" using demo_fresh by simp
  then show ?thesis using b'(1) demo_run_Some that by (metis length_map)
qed

lemma demo_rebuilt_result:
  obtains b b' n m l k where "demo_run (Some demo_base) = Some b'" "new_builder demo_draws ''lab'' demo_spec (Some demo_base) = Inr b"
    "build b (lab_topology demo_spec) = Inr b'" "res_links b' = [l, k]" "n \<in> set (res_nodes b')" "m \<in> set (res_nodes b')"
    "node_view n = (''external-1'', RoleExternal, 64510, Prefix (V4 0x0A010009) 32)"
    "node_view m = (''dcedge-1'', RoleDCEdge, 64600, Prefix (V4 0x0A01000A) 32)"
    "link_view l = (''external-1--dcedge-1'', LinkFabric, [(''external-1'', ''eth4'', Prefix (V4 0x0A00000A) 31),
                                              (''dcedge-1'', ''eth1'', Prefix (V4 0x0A00000B) 31)])"
    "link_view k = (''external-1--dcedge-2'', LinkFabric, [(''external-1'', ''eth5'', Prefix (V4 0x0A00000C) 31),
                                              (''dcedge-2'', ''eth1'', Prefix (V4 0x0A00000D) 31)])"
proof -
  obtain b' where b': "demo_run (Some demo_base) = Some b'"
    using demo_rebuilt by (cases "demo_run (Some demo_base)") auto
  note v = demo_rebuilt [unfolded b' option.map option.inject prod.inject]
  have "length (map node_view (res_nodes b')) = 3" "length (map link_view (res_links b')) = 2"
    by (simp_all add: v del: length_map)
  then obtain n m u l k where r: "res_nodes b' = [n, m, u]" "res_links b' = [l, k]"
    by (auto simp: length_Suc_conv numeral_3_eq_3 numeral_2_eq_2)
  have "n \<in> set (res_nodes b')" "m \<in> set (res_nodes b')" by (simp_all add: r)
  moreover note v [unfolded r list.map list.inject]
  moreover obtain b where "new_builder demo_draws ''lab'' demo_spec (Some demo_base) = Inr b" "build b (lab_topology demo_spec) = Inr b'"
    using demo_run_Some b' by blast
  ultimately show ?thesis using b' r that [of b' b l k n m] by simp
qed

end
