(* ===== verification/TopologyOwn.thy ===== *)
theory TopologyOwn
  imports TopologyDemo IpamProps
begin

text \<open>
  Ownership through the builder: each subnet and ASN the result uses is held by the allocator for
  the node or link that uses it, so different owners use disjoint addresses and different numbers,
  also across the resources a restored base pins. It rests on the allocators' shared contract.
\<close>

section \<open>Who holds what\<close>

definition held :: "builder \<Rightarrow> pool_id \<Rightarrow> prefix \<Rightarrow> string option" where
  "held b pl s = (case b_pools b pl of None \<Rightarrow> None | Some p \<Rightarrow> allocated p s)"

definition stores_ok :: "builder \<Rightarrow> bool" where
  "stores_ok b \<longleftrightarrow> (\<forall>pl p. b_pools b pl = Some p \<longrightarrow> pool_inv p) \<and> (\<forall>ro. asn_inv ro (b_asns b))"

definition pins_held :: "builder \<Rightarrow> bool" where
  "pins_held b \<longleftrightarrow> (\<forall>pl w s. pinned_sub b pl w = Some s \<longrightarrow> held b pl s = Some w) \<and>
     (\<forall>ro w v. pinned_asn b ro w = Some v \<longrightarrow> asn_holds ro (b_asns b) v = Some w)"

definition node_owns :: "builder \<Rightarrow> node \<Rightarrow> bool" where
  "node_owns b n \<longleftrightarrow>
     (role (n_spec n) \<noteq> RoleServer \<longrightarrow> held b PoolLoopback (loopback (n_spec n)) = Some (node_name n)) \<and>
     (role (n_spec n) \<notin> {RoleServer, RoleLeaf} \<longrightarrow> asn_holds (role (n_spec n)) (b_asns b) (asn (n_spec n)) = Some (node_name n))"

definition link_owns :: "builder \<Rightarrow> link \<Rightarrow> bool" where
  "link_owns b l \<longleftrightarrow> (kind (l_spec l) = LinkFabric \<longrightarrow>
     held b PoolFabricP2P (ep_addr (end_a (l_spec l))) = Some (link_name l) \<and>
     ep_addr (end_b (l_spec l)) = prefix_from (addr_next (paddr (ep_addr (end_a (l_spec l))))) (pbits (ep_addr (end_a (l_spec l)))))"

definition keeps_held :: "builder \<Rightarrow> builder \<Rightarrow> bool" where
  "keeps_held b b' \<longleftrightarrow> (\<forall>pl s w. held b pl s = Some w \<longrightarrow> held b' pl s = Some w) \<and>
     (\<forall>ro v w. asn_holds ro (b_asns b) v = Some w \<longrightarrow> asn_holds ro (b_asns b') v = Some w)"

text \<open>The invariant of a build that started from \<open>b0\<close>.\<close>

definition own :: "builder \<Rightarrow> builder \<Rightarrow> bool" where
  "own b0 b \<longleftrightarrow> stores_ok b \<and> pins_held b \<and> (\<forall>n \<in> set (res_nodes b). node_owns b n) \<and>
     (\<forall>l \<in> set (res_links b). link_owns b l) \<and> keeps_held b0 b"

lemma keeps_held_refl [simp]: "keeps_held b b"
  by (simp add: keeps_held_def)

lemma keeps_held_trans: "keeps_held b c \<Longrightarrow> keeps_held c d \<Longrightarrow> keeps_held b d"
  by (simp add: keeps_held_def)

lemma owns_mono: "node_owns b n \<Longrightarrow> keeps_held b b' \<Longrightarrow> node_owns b' n" "link_owns b l \<Longrightarrow> keeps_held b b' \<Longrightarrow> link_owns b' l"
  by (auto simp: node_owns_def link_owns_def keeps_held_def)

section \<open>Taking resources\<close>

lemma allocate_sub_own:
  assumes "stores_ok b" "pins_held b" "allocate_sub b pl w = Inr (s, b')"
  shows "stores_ok b'" "pins_held b'" "held b' pl s = Some w" "keeps_held b b'"
    "\<exists>ps. b' = b\<lparr>b_pools := ps\<rparr>"
proof -
  have "stores_ok b' \<and> pins_held b' \<and> held b' pl s = Some w \<and> keeps_held b b'"
  proof (cases "pinned_sub b pl w")
    case (Some t)
    then show ?thesis using assms by (auto simp: allocate_sub_def pins_held_def)
  next
    case None
    then obtain p p' where p: "b_pools b pl = Some p" "allocate p w = Inr (s, p')" "b' = b\<lparr>b_pools := (b_pools b)(pl \<mapsto> p')\<rparr>"
      using assms(3) by (auto simp: allocate_sub_def split: option.splits)
    have inv: "pool_inv p" using assms(1) p(1) by (simp add: stores_ok_def)
    note al = pool.allocate_fresh [OF inv p(2)] pool.allocate_holds [OF inv p(2)] pool.allocate_inv [OF inv p(2)]
    have k: "keeps_held b b'" using p(1,3) al by (auto simp: keeps_held_def held_def)
    then have "pins_held b'" using assms(2) p(3) by (auto simp: pins_held_def keeps_held_def)
    moreover have "stores_ok b'" using assms(1) p(3) al(3) by (auto simp: stores_ok_def)
    moreover have "held b' pl s = Some w" using p(3) al(2) by (simp add: held_def)
    ultimately show ?thesis using k by blast
  qed
  then show "stores_ok b'" "pins_held b'" "held b' pl s = Some w" "keeps_held b b'" by auto
  show "\<exists>ps. b' = b\<lparr>b_pools := ps\<rparr>" using allocate_sub_frame [OF assms(3)] by metis
qed

lemma asn_allocate_other: "asn_allocate ro a w = Inr (v, a') \<Longrightarrow> ro' \<noteq> ro \<Longrightarrow> a' ro' = a ro'"
  by (elim asn_allocate_cases) simp_all

lemma asn_restore_other: "asn_restore ro a v w = Inr a' \<Longrightarrow> ro' \<noteq> ro \<Longrightarrow> a' ro' = a ro'"
  by (elim asn_restore_cases) simp_all

lemma asn_role_local: "a' ro = a ro \<Longrightarrow> asn_holds ro a' = asn_holds ro a \<and> asn_inv ro a' = asn_inv ro a"
  by (simp add: asn_holds_def asn_inv_def)

text \<open>Both ways of granting a number change the holders of one role by one entry.\<close>

lemma asn_grant_frame:
  assumes "\<forall>ro. asn_inv ro (b_asns b)" "pins_held b"
    and "asn_holds ro (b_asns b) v = None" "asn_holds ro a = (asn_holds ro (b_asns b))(v \<mapsto> w)" "asn_inv ro a"
    and "\<And>ro'. ro' \<noteq> ro \<Longrightarrow> a ro' = b_asns b ro'"
  shows "\<forall>ro. asn_inv ro a" "keeps_held b (b\<lparr>b_asns := a\<rparr>)" "asn_holds ro a v = Some w"
proof -
  have "asn_inv ro' a" for ro'
    using assms(1,5) assms(6) [of ro'] by (cases "ro' = ro") (simp_all add: asn_inv_def)
  then show "\<forall>ro. asn_inv ro a" by blast
  have "asn_holds ro' a u = Some x" if "asn_holds ro' (b_asns b) u = Some x" for ro' u x
  proof (cases "ro' = ro")
    case True
    then show ?thesis using that assms(3,4) by auto
  next
    case False
    then show ?thesis using that assms(6) [OF False] by (simp add: asn_holds_def)
  qed
  then show "keeps_held b (b\<lparr>b_asns := a\<rparr>)" by (simp add: keeps_held_def held_def)
  show "asn_holds ro a v = Some w" using assms(4) by simp
qed

lemma allocate_asn_own:
  assumes "stores_ok b" "pins_held b" "allocate_asn b ro w = Inr (v, b')"
  shows "stores_ok b'" "pins_held b'" "asn_holds ro (b_asns b') v = Some w" "keeps_held b b'" "\<exists>as. b' = b\<lparr>b_asns := as\<rparr>"
proof -
  have "stores_ok b' \<and> pins_held b' \<and> asn_holds ro (b_asns b') v = Some w \<and> keeps_held b b'"
  proof (cases "pinned_asn b ro w")
    case (Some u)
    then show ?thesis using assms by (auto simp: allocate_asn_def pins_held_def)
  next
    case None
    then obtain a where a: "asn_allocate ro (b_asns b) w = Inr (v, a)" "b' = b\<lparr>b_asns := a\<rparr>"
      using assms(3) by (auto simp: allocate_asn_def)
    have i: "\<forall>ro. asn_inv ro (b_asns b)" using assms(1) by (simp add: stores_ok_def)
    note g = asn_grant_frame [OF i assms(2) asn_allocate_ok [OF i [rule_format] a(1)] asn_allocate_other [OF a(1)]]
    have "pins_held b'" using g(2) assms(2) a(2) by (auto simp: pins_held_def keeps_held_def held_def)
    moreover have "stores_ok b'" using g(1) assms(1) a(2) by (simp add: stores_ok_def)
    ultimately show ?thesis using g a(2) by simp
  qed
  then show "stores_ok b'" "pins_held b'" "asn_holds ro (b_asns b') v = Some w" "keeps_held b b'" by auto
  show "\<exists>as. b' = b\<lparr>b_asns := as\<rparr>" using allocate_asn_frame [OF assms(3)] by metis
qed

section \<open>The invariant\<close>

text \<open>Fields the ownership does not read.\<close>

definition same_stores :: "builder \<Rightarrow> builder \<Rightarrow> bool" where
  "same_stores b b' \<longleftrightarrow> b_pools b' = b_pools b \<and> b_asns b' = b_asns b \<and> pinned_sub b' = pinned_sub b \<and> pinned_asn b' = pinned_asn b"

lemma same_stores_own:
  assumes "same_stores b b'"
  shows "stores_ok b' = stores_ok b" "pins_held b' = pins_held b" "node_owns b' = node_owns b" "link_owns b' = link_owns b"
proof -
  have "held b' = held b" "b_asns b' = b_asns b" "pinned_sub b' = pinned_sub b" "pinned_asn b' = pinned_asn b" "b_pools b' = b_pools b"
    using assms by (simp_all add: same_stores_def held_def [abs_def])
  then show "stores_ok b' = stores_ok b" "pins_held b' = pins_held b" "node_owns b' = node_owns b" "link_owns b' = link_owns b"
    by (simp_all add: stores_ok_def pins_held_def node_owns_def [abs_def] link_owns_def [abs_def])
qed

lemma own_step:
  assumes "own b0 b" "stores_ok b'" "pins_held b'" "keeps_held b b'"
    and "set (res_nodes b') \<subseteq> set (res_nodes b) \<union> ns" "\<forall>n \<in> ns. node_owns b' n"
    and "set (res_links b') \<subseteq> set (res_links b) \<union> ls" "\<forall>l \<in> ls. link_owns b' l"
  shows "own b0 b'"
  using assms owns_mono keeps_held_trans unfolding own_def by blast

lemma push_node_own:
  assumes "own b0 b" "stores_ok c" "pins_held c" "keeps_held b c" "res_nodes c = res_nodes b" "res_links c = res_links b"
    and "push_node c name s als = (n, b')"
    and "role s \<noteq> RoleServer \<Longrightarrow> held c PoolLoopback (loopback s) = Some name"
    and "role s \<noteq> RoleServer \<Longrightarrow> role s \<noteq> RoleLeaf \<Longrightarrow> asn_holds (role s) (b_asns c) (asn s) = Some name"
  shows "own b0 b'"
proof -
  have f: "same_stores c b'" "res_nodes b' = res_nodes c @ [n]" "res_links b' = res_links c" "n_spec n = s" "node_name n = name"
    using assms(7) by (auto simp: push_node_eq Let_def same_stores_def fresh_meta_def)
  have k: "keeps_held b b'"
    using assms(4) f(1) by (auto simp: keeps_held_def held_def same_stores_def)
  have "node_owns b' n" using assms(8,9) f(4,5) same_stores_own(3) [OF f(1)] by (simp add: node_owns_def)
  then show ?thesis
    using f(2,3) assms(5,6) same_stores_own(1,2) [OF f(1)] assms(2,3)
    by (intro own_step [OF assms(1) _ _ k, of "{n}" "{}"]) auto
qed

lemma pool_subnet_masked:
  assumes "pool_inv p" "allocated p s = Some w"
  shows "masked s = s" "prefix_from (paddr s) (pbits s) = s"
proof -
  have wf: "pool_wf p" and r: "in_range p s" using assms by (auto simp: pool_inv_def)
  have b: "0 \<le> pbits s" "pbits s \<le> int (bit_len (paddr s))" "paddr s \<noteq> NoAddr"
    using wf r by (auto simp: pool_wf_def in_range_def is_valid_def)
  have "step p = 2 ^ host_bits s" using r by (simp add: in_range_def step_def host_bits_def)
  then have "clear_low (host_bits s) (paddr s) = paddr s" using r by (simp add: in_range_def clear_low_eq_iff)
  then show "masked s = s" using b(1) by (cases s) (simp add: masked_def is_valid_def)
  show "prefix_from (paddr s) (pbits s) = s" using b by (cases s) (simp add: prefix_from_def)
qed

lemma push_link_own:
  assumes "own b0 b" "stores_ok c" "pins_held c" "keeps_held b c" "res_nodes c = res_nodes b" "res_links c = res_links b"
    and "k = LinkFabric \<Longrightarrow> held c PoolFabricP2P p = Some (lname a z) \<and> q = prefix_from (addr_next (paddr p)) (pbits p)"
  shows "own b0 ((push_link c a z k v p q)\<lparr>res_allocs := xs\<rparr>)" (is "own b0 ?d")
proof -
  have f: "same_stores c ?d" by (simp add: same_stores_def push_link_frame)
  have k: "keeps_held b ?d" using assms(4) f by (auto simp: keeps_held_def held_def same_stores_def)
  have "link_owns ?d (made_link c a z k v p q)"
    using assms(7) same_stores_own(4) [OF f] by (simp add: link_owns_def)
  then show ?thesis
    using assms(2,3,5,6) same_stores_own(1,2) [OF f]
    by (intro own_step [OF assms(1) _ _ k, of "{}" "{made_link c a z k v p q}"]) (auto simp: push_link_frame push_link_links)
qed

lemma ownD: "own b0 b \<Longrightarrow> stores_ok b" "own b0 b \<Longrightarrow> pins_held b"
  by (simp_all add: own_def)

lemma same_stores_own_step:
  "own b0 b \<Longrightarrow> same_stores b b' \<Longrightarrow> res_nodes b' = res_nodes b \<Longrightarrow> res_links b' = res_links b \<Longrightarrow> own b0 b'"
  using own_step [of b0 b b' "{}" "{}"] same_stores_own(1,2) [of b b'] ownD [of b0 b]
  by (simp add: keeps_held_def held_def same_stores_def)

lemma router_own:
  assumes "own b0 b" "add_router b name ro pod = Inr (n, b')"
  shows "own b0 b'"
proof -
  from assms(2) obtain v b1 lo b2 where a: "allocate_asn b ro name = Inr (v, b1)" and s: "allocate_sub b1 PoolLoopback name = Inr (lo, b2)"
    and p: "push_node b2 name ((empty_spec (b_lab b2) ro)\<lparr>pod_id := pod, asn := v, loopback := lo\<rparr>)
        [\<lparr>al_pool = ''asn:'' @ show_role ro, al_value = show_nat (unat v), al_owner = name\<rparr>,
         \<lparr>al_pool = show_pool PoolLoopback, al_value = show_prefix lo, al_owner = name\<rparr>] = (n, b')"
    by (auto simp: add_router_def)
  note a' = allocate_asn_own [OF ownD [OF assms(1)] a]
  note s' = allocate_sub_own [OF a'(1,2) s]
  have "res_nodes b2 = res_nodes b" "res_links b2 = res_links b" "keeps_held b b2"
    "asn_holds ro (b_asns b2) v = Some name"
    using a'(3,4,5) s'(4,5) by (auto intro: keeps_held_trans)
  then show ?thesis
    using s'(3) by (intro push_node_own [OF assms(1) s'(1,2) _ _ _ p]) (simp_all add: empty_spec_def)
qed

lemma leaf_own:
  assumes "own b0 b" "add_leaf b name pod rack v vip gw mac vrid prio = Inr (n, b')"
  shows "own b0 b'"
proof -
  from assms(2) obtain lo b1 sp als where s: "allocate_sub b PoolLoopback name = Inr (lo, b1)"
    and p: "push_node b1 name sp als = (n, b')" and sp: "role sp = RoleLeaf" "loopback sp = lo"
    by (auto simp: add_leaf_def empty_spec_def)
  note s' = allocate_sub_own [OF ownD [OF assms(1)] s]
  have "res_nodes b1 = res_nodes b" "res_links b1 = res_links b" using s'(5) by auto
  then show ?thesis
    using s'(3) sp by (intro push_node_own [OF assms(1) s'(1,2,4) _ _ p]) simp_all
qed

lemma fabric_own:
  assumes "own b0 b" "add_link b a z = Inr b'"
  shows "own b0 b'"
  using assms(2)
proof (rule add_link_push)
  fix sub b1
  assume s: "allocate_sub b PoolFabricP2P (lname a z) = Inr (sub, b1)"
    and b': "b' = (push_link b1 a z LinkFabric 0 (prefix_from (paddr (masked sub)) (pbits sub))
             (prefix_from (addr_next (paddr (masked sub))) (pbits sub)))\<lparr>res_allocs := res_allocs b1 @
             [\<lparr>al_pool = show_pool PoolFabricP2P, al_value = show_prefix sub, al_owner = lname a z\<rparr>]\<rparr>"
  note s' = allocate_sub_own [OF ownD [OF assms(1)] s]
  obtain p where "b_pools b1 PoolFabricP2P = Some p" "allocated p sub = Some (lname a z)"
    using s'(3) by (auto simp: held_def split: option.splits)
  moreover from this have "pool_inv p" using s'(1) by (simp add: stores_ok_def)
  ultimately have m: "masked sub = sub" "prefix_from (paddr sub) (pbits sub) = sub"
    using pool_subnet_masked by blast+
  have "res_nodes b1 = res_nodes b" "res_links b1 = res_links b" using s'(5) by auto
  then show ?thesis
    unfolding b' m using s'(3) by (intro push_link_own [OF assms(1) s'(1,2,4)]) simp_all
qed

interpretation own: builder_invariant "own b0" for b0
proof
  fix b name pod rack ad gw peers n b'
  assume o: "own b0 b" "add_server b name pod rack ad gw peers = (n, b')"
  show "own b0 b'"
    by (rule push_node_own [OF o(1) ownD [OF o(1)] keeps_held_refl refl refl o(2) [unfolded add_server_def]])
      (simp_all add: empty_spec_def)
next
  fix b i nm assume o: "own b0 b" "i < length (res_nodes b)"
  let ?b = "set_mlag_peer b i nm" and ?n = "(res_nodes b ! i)\<lparr>n_spec := (n_spec (res_nodes b ! i))\<lparr>mlag_peer := nm\<rparr>\<rparr>"
  have f: "same_stores b ?b" "res_links ?b = res_links b" "res_nodes ?b = (res_nodes b)[i := ?n]"
    by (simp_all add: set_mlag_peer_def same_stores_def)
  have "node_owns b (res_nodes b ! i)" using o by (simp add: own_def)
  then have n: "node_owns ?b ?n" unfolding same_stores_own(3) [OF f(1)] by (simp add: node_owns_def)
  have k: "keeps_held b ?b" using f(1) by (simp add: keeps_held_def held_def same_stores_def)
  have "set (res_nodes ?b) \<subseteq> set (res_nodes b) \<union> {?n}" unfolding f(3) using set_update_subset_insert [of "res_nodes b" i ?n] by auto
  then show "own b0 ?b"
    using f(2) n same_stores_own(1,2) [OF f(1)] ownD [OF o(1)]
    by (intro own_step [OF o(1) _ _ k, where ns = "{?n}" and ls = "{}"]) simp_all
next
  fix b a z k assume o: "own b0 b" "k \<noteq> LinkFabric"
  have "own b0 ((push_link b a z k server_vlan_id no_prefix no_prefix)\<lparr>res_allocs := res_allocs b\<rparr>)"
    using o by (intro push_link_own [OF o(1) ownD [OF o(1)]]) auto
  then show "own b0 (add_l2_link b a z k)"
    unfolding add_l2_link_def by (rule same_stores_own_step) (simp_all add: same_stores_def)
next
  fix b w sub b' assume o: "own b0 b" "allocate_sub b PoolServerVlan w = Inr (sub, b')"
  note s = allocate_sub_own [OF ownD [OF o(1)] o(2)]
  show "own b0 b'" using s by (intro own_step [OF o(1) s(1,2,4), of "{}" "{}"]) auto
next
  fix b pod r assume o: "own b0 b"
  show "own b0 (snd (rack_num_for_slot b pod r))"
    by (rule same_stores_own_step [OF o]) (simp_all add: rack_num_for_slot_def same_stores_def)
next
  fix b xs assume o: "own b0 b"
  show "own b0 (b\<lparr>res_allocs := xs\<rparr>)"
    by (rule same_stores_own_step [OF o]) (simp_all add: same_stores_def)
qed (blast intro: router_own leaf_own fabric_own)+

section \<open>A new builder\<close>

definition v4_pools :: "address_pool list \<Rightarrow> bool" where
  "v4_pools ps \<longleftrightarrow> (\<forall>p \<in> set ps. \<exists>q. parse_prefix (ap_cidr p) = Some q \<and> is4 (paddr q))"

text \<open>The state of a builder while a base is restored: nothing released yet.\<close>

definition restoring :: "builder \<Rightarrow> bool" where
  "restoring b \<longleftrightarrow> stores_ok b \<and> pins_held b \<and> (\<forall>pl p. b_pools b pl = Some p \<longrightarrow> released p = []) \<and>
     (\<forall>ro r. b_asns b ro = Some r \<longrightarrow> rr_released r = [])"

lemma new_pools_ok:
  assumes "new_builder_pools ps = Inr m" "v4_pools ps" "m pl = Some p"
  shows "pool_inv p" "released p = []" "allocated p = Map.empty"
proof -
  have "\<forall>pl p. m pl = Some p \<longrightarrow> pool_inv p \<and> released p = [] \<and> allocated p = Map.empty"
    using assms(1) unfolding new_builder_pools_def
  proof (rule efold_keeps)
    fix m' x m''
    assume x: "x \<in> set ps" and m': "\<forall>pl p. m' pl = Some p \<longrightarrow> pool_inv p \<and> released p = [] \<and> allocated p = Map.empty"
      and step: "ebind (emap_err (CreatePool (ap_name x)) (new_pool (show_pool (ap_name x)) (ap_cidr x) (ap_prefix x)))
        (\<lambda>q. Inr (m'(ap_name x \<mapsto> q))) = Inr m''"
    then obtain q where q: "new_pool (show_pool (ap_name x)) (ap_cidr x) (ap_prefix x) = Inr q" "m'' = m'(ap_name x \<mapsto> q)"
      by auto
    obtain c where c: "parse_prefix (ap_cidr x) = Some c" "is4 (paddr c)" using assms(2) x by (auto simp: v4_pools_def)
    have "is4 (paddr (cidr q))" "released q = []" "allocated q = Map.empty"
      using q(1) c parse_prefix_ok [OF c(1)] by (auto simp: new_pool_def Let_def masked_def is4_def split: if_splits)
    then show "\<forall>pl p. m'' pl = Some p \<longrightarrow> pool_inv p \<and> released p = [] \<and> allocated p = Map.empty"
      using m' q(2) new_pool_v4 [OF q(1)] by auto
  qed simp
  with assms(3) show "pool_inv p" "released p = []" "allocated p = Map.empty" by auto
qed

lemma new_asns_fresh: "new_asns rs = Inr a \<Longrightarrow> a ro = Some r \<Longrightarrow> rr_released r = []"
proof -
  assume "new_asns rs = Inr a" and r: "a ro = Some r"
  then have "\<forall>ro r. a ro = Some r \<longrightarrow> rr_released r = []"
    unfolding new_asns_def by (elim efold_keeps) (auto simp: add_range_def split: if_splits)
  then show ?thesis using r by blast
qed

lemma empty_restoring:
  assumes "new_builder_pools ps = Inr m" "v4_pools ps" "new_asns rs = Inr a" "\<forall>r \<in> set rs. ar_end r < -1"
  shows "restoring (empty_builder lab m a ds)"
  using new_pools_ok [OF assms(1,2)] new_asns_fresh [OF assms(3)] new_asns_inv [OF assms(3,4)]
  by (simp add: restoring_def stores_ok_def pins_held_def)

lemma restore_keeps_released: "restore p s w = Inr p' \<Longrightarrow> released p' = released p"
  by (auto simp: restore_def Let_def split: if_splits option.splits)

lemma pin_restoring:
  assumes "restoring b" "pin b pl w s = Inr b'" "masked s = s"
  shows "restoring b'" "keeps_held b b'" "held b' pl s = Some w"
proof -
  from assms(2) obtain p p' where p: "b_pools b pl = Some p" "restore p s w = Inr p'"
    "b' = b\<lparr>b_pools := (b_pools b)(pl \<mapsto> p'), pinned_sub := (pinned_sub b)(pl := (pinned_sub b pl)(w \<mapsto> s)),
            base_owners := (base_owners b)(show_pool pl @ ''|'' @ w := True)\<rparr>"
    by (rule pin_frame)
  have i: "pool_inv p" "restorable p s"
    using assms(1,3) p(1) by (auto simp: restoring_def stores_ok_def restorable_def)
  note r = pool.restore_holds [OF i p(2)] pool.restore_inv [OF i p(2)]
  have "released p' = []" using restore_keeps_released [OF p(2)] assms(1) p(1) by (simp add: restoring_def)
  moreover show k: "keeps_held b b'" using r(1) p(1,3) by (auto simp: keeps_held_def held_def)
  moreover show h: "held b' pl s = Some w" using r(1) p(3) by (simp add: held_def)
  moreover have "pins_held b'"
    using assms(1) k h p(3) by (auto simp: restoring_def pins_held_def keeps_held_def)
  ultimately show "restoring b'" using assms(1) p(3) r(2) by (auto simp: restoring_def stores_ok_def)
qed

lemma pin_asn_restoring:
  assumes "restoring b" "pin_asn b ro w v = Inr b'"
  shows "restoring b'" "keeps_held b b'" "asn_holds ro (b_asns b') v = Some w"
proof -
  from assms(2) obtain a where a: "asn_restore ro (b_asns b) v w = Inr a"
    "b' = b\<lparr>b_asns := a, pinned_asn := (pinned_asn b)(ro := (pinned_asn b ro)(w \<mapsto> v)),
            base_owners := (base_owners b)(''asn:'' @ show_role ro @ ''|'' @ w := True)\<rparr>"
    by (rule pin_asn_frame)
  have i: "\<forall>ro. asn_inv ro (b_asns b)" "pins_held b" "asn_restorable ro (b_asns b) v"
    using assms(1) by (auto simp: restoring_def stores_ok_def asn_restorable_def split: option.splits)
  note g = asn_grant_frame [OF i(1,2) asn_restore_ok [OF i(1) [rule_format] i(3) a(1)] asn_restore_other [OF a(1)]]
  have "rr_released r = []" if "a ro' = Some r" for ro' r
  proof (cases "ro' = ro")
    case True
    with that a(1) assms(1) show ?thesis by (auto simp: restoring_def elim!: asn_restore_cases)
  next
    case False
    with that asn_restore_other [OF a(1) False] assms(1) show ?thesis by (simp add: restoring_def)
  qed
  moreover show k: "keeps_held b b'" using g(2) a(2) by (simp add: keeps_held_def held_def)
  moreover show h: "asn_holds ro (b_asns b') v = Some w" using g(3) a(2) by simp
  moreover have "pins_held b'"
    using i(2) k h a(2) by (auto simp: pins_held_def keeps_held_def)
  ultimately show "restoring b'" using assms(1) g(1) a(2) by (auto simp: restoring_def stores_ok_def)
qed

lemma restoring_same: "restoring b \<Longrightarrow> same_stores b b' \<Longrightarrow> restoring b' \<and> keeps_held b b'"
  using same_stores_own(1,2) [of b b'] by (auto simp: restoring_def same_stores_def keeps_held_def held_def)

lemma masked_masked: "masked (masked p) = masked p"
proof (cases "is_valid p")
  case False
  then show ?thesis by (simp add: masked_def is_valid_def)
qed (rule masked_idem)

lemma restore_role_restoring:
  assumes "restoring b" "restore_role (b, seen) n = Inr (b', seen')"
  shows "restoring b' \<and> keeps_held b b'"
  using assms(2)
proof (cases rule: restore_role_cases)
  case (rack num)
  then have p: "pin (b\<lparr>rack_slots := map_append (rack_slots b) (pod_id (n_spec n)) [num],
           max_rack := (if max_rack b < num then num else max_rack b),
           base_owners := (base_owners b)(''asn:'' @ show_role RoleLeaf @ ''|'' @ pod_id (n_spec n) @ ''/'' @ rack_id (n_spec n) := True)\<rparr>)
        PoolServerVlan (pod_id (n_spec n) @ ''/'' @ rack_id (n_spec n)) (masked (vlan_ip (n_spec n))) = Inr b'"
    (is "pin ?c _ _ _ = _") by (simp add: pin_rack_def)
  have "restoring ?c" "keeps_held b ?c" using restoring_same [OF assms(1), of ?c] by (auto simp: same_stores_def)
  then show ?thesis using pin_restoring(1,2) [OF _ p masked_masked] keeps_held_trans by blast
next
  case asn
  then show ?thesis using pin_asn_restoring(1,2) [OF assms(1)] by blast
qed (use assms(1) in simp)

lemma restore_node_restoring:
  assumes "restoring b" "restore_node (b, seen) n = Inr (b', seen')"
    and "is_valid (loopback (n_spec n)) \<Longrightarrow> masked (loopback (n_spec n)) = loopback (n_spec n)"
  shows "restoring b' \<and> keeps_held b b' \<and> (is_valid (loopback (n_spec n)) \<longrightarrow> held b' PoolLoopback (loopback (n_spec n)) = Some (node_name n))"
  using assms(2)
proof (cases rule: restore_node_cases)
  case (loop b1)
  note p = pin_restoring [OF assms(1) loop(2) assms(3) [OF loop(1)]]
  have r: "restoring b' \<and> keeps_held b1 b'" by (rule restore_role_restoring [OF p(1) loop(3)])
  then have "held b' PoolLoopback (loopback (n_spec n)) = Some (node_name n)" using p(3) by (auto simp: keeps_held_def)
  then show ?thesis using r p(2) keeps_held_trans by blast
next
  case bare
  then show ?thesis using restore_role_restoring [OF assms(1) bare(2)] by simp
qed

lemma restore_endpoint_same: "restore_endpoint nm b e = Inr b' \<Longrightarrow> same_stores b b'"
  by (elim restore_endpoint_cases) (simp add: same_stores_def)

lemma restore_link_restoring:
  assumes "restoring b" "restore_link b l = Inr b'"
  shows "restoring b' \<and> keeps_held b b' \<and>
    (kind (l_spec l) = LinkFabric \<longrightarrow> held b' PoolFabricP2P (masked (ep_addr (end_a (l_spec l)))) = Some (link_name l))"
  using assms(2)
proof (rule restore_link_cases)
  fix b2 b3
  let ?c = "b\<lparr>base_links := (base_links b)(link_name l \<mapsto> l)\<rparr>"
  assume p: "if kind (l_spec l) = LinkFabric
     then pin ?c PoolFabricP2P (link_name l) (masked (ep_addr (end_a (l_spec l)))) = Inr b2 else b2 = ?c"
    and e: "restore_endpoint (link_name l) b2 (end_a (l_spec l)) = Inr b3" "restore_endpoint (link_name l) b3 (end_b (l_spec l)) = Inr b'"
  have s: "same_stores b2 b'" using restore_endpoint_same [OF e(1)] restore_endpoint_same [OF e(2)] by (simp add: same_stores_def)
  have c: "restoring ?c \<and> keeps_held b ?c" by (rule restoring_same [OF assms(1)]) (simp add: same_stores_def)
  have b2: "restoring b2 \<and> keeps_held b b2 \<and> (kind (l_spec l) = LinkFabric \<longrightarrow>
      held b2 PoolFabricP2P (masked (ep_addr (end_a (l_spec l)))) = Some (link_name l))"
  proof (cases "kind (l_spec l) = LinkFabric")
    case True
    then have "pin ?c PoolFabricP2P (link_name l) (masked (ep_addr (end_a (l_spec l)))) = Inr b2" using p by simp
    from pin_restoring [OF _ this masked_masked] c keeps_held_trans show ?thesis by blast
  next
    case False
    then show ?thesis using p c by simp
  qed
  then have "restoring b' \<and> keeps_held b2 b'" using restoring_same s by blast
  then show ?thesis using b2 keeps_held_trans by (auto simp: keeps_held_def)
qed

text \<open>After \<open>NewBuilder\<close> the owners of the base hold what they had.\<close>

definition base_ok :: "base \<Rightarrow> bool" where
  "base_ok bs \<longleftrightarrow> (\<forall>n \<in> set (base_nodes bs). is_valid (loopback (n_spec n)) \<longrightarrow> masked (loopback (n_spec n)) = loopback (n_spec n))"

lemma restore_base_restoring:
  assumes "restore_base b bs = Inr b'" "restoring b" "base_ok bs"
  shows "restoring b'"
    "\<forall>n \<in> set (base_nodes bs). is_valid (loopback (n_spec n)) \<longrightarrow> held b' PoolLoopback (loopback (n_spec n)) = Some (node_name n)"
    "\<forall>l \<in> set (base_link_list bs). kind (l_spec l) = LinkFabric \<longrightarrow>
       held b' PoolFabricP2P (masked (ep_addr (end_a (l_spec l)))) = Some (link_name l)"
proof -
  from assms(1) obtain b1 seen where n: "efold restore_node (b, {}) (base_nodes bs) = Inr (b1, seen)"
    and e: "efold restore_link (b1\<lparr>rack_slots := (\<lambda>p. sort (rack_slots b1 p))\<rparr>) (base_link_list bs) = Inr b'"
    by (elim restore_base_cases)
  let ?c = "b1\<lparr>rack_slots := (\<lambda>p. sort (rack_slots b1 p))\<rparr>"
  have step: "restoring (fst s') \<and> keeps_held (fst s) (fst s') \<and>
      (is_valid (loopback (n_spec x)) \<longrightarrow> held (fst s') PoolLoopback (loopback (n_spec x)) = Some (node_name x))"
    if "x \<in> set (base_nodes bs)" "restoring (fst s)" "restore_node s x = Inr s'" for s x s'
    using restore_node_restoring [of "fst s" "snd s" x "fst s'" "snd s'"] that assms(3) by (simp add: base_ok_def)
  have hold: "held (fst t) pl u = Some w" if "held (fst s) pl u = Some w" "y \<in> set (base_nodes bs)" "restoring (fst s)" "restore_node s y = Inr t"
    for s t y pl u w using step [OF that(2-4)] that(1) by (auto simp: keeps_held_def)
  have r: "restoring (fst (b1, seen)) \<and> (\<forall>x \<in> set (base_nodes bs). is_valid (loopback (n_spec x)) \<longrightarrow>
      held (fst (b1, seen)) PoolLoopback (loopback (n_spec x)) = Some (node_name x))"
  proof (rule efold_holds [OF n, where P = "\<lambda>s. restoring (fst s)"])
    show "restoring (fst s') \<and> (is_valid (loopback (n_spec x)) \<longrightarrow> held (fst s') PoolLoopback (loopback (n_spec x)) = Some (node_name x))"
      if "x \<in> set (base_nodes bs)" "restoring (fst s)" "restore_node s x = Inr s'" for s x s'
      using step [OF that] by blast
    show "is_valid (loopback (n_spec x)) \<longrightarrow> held (fst s') PoolLoopback (loopback (n_spec x)) = Some (node_name x)"
      if "y \<in> set (base_nodes bs)" "restoring (fst s)"
        "is_valid (loopback (n_spec x)) \<longrightarrow> held (fst s) PoolLoopback (loopback (n_spec x)) = Some (node_name x)"
        "restore_node s y = Inr s'" for s x y s'
      using hold [OF _ that(1,2,4)] that(3) by blast
  qed (use assms(2) in simp)
  have c: "restoring ?c \<and> keeps_held b1 ?c" using r by (intro restoring_same) (simp_all add: same_stores_def)
  have kh: "held t pl u = Some w" if "held s pl u = Some w" "restoring s" "restore_link s l = Inr t" for s t l pl u w
    using restore_link_restoring [OF that(2,3)] that(1) by (auto simp: keeps_held_def)
  have "restoring b' \<and> keeps_held ?c b'"
    using e
  proof (rule efold_keeps)
    show "restoring t \<and> keeps_held ?c t" if "restoring s \<and> keeps_held ?c s" "restore_link s l = Inr t" for s l t
      using restore_link_restoring [OF _ that(2)] that(1) keeps_held_trans by blast
  qed (use c in simp)
  then show "restoring b'" and "\<forall>n \<in> set (base_nodes bs). is_valid (loopback (n_spec n)) \<longrightarrow>
       held b' PoolLoopback (loopback (n_spec n)) = Some (node_name n)"
    using r c by (auto simp: keeps_held_def)
  have "restoring b' \<and> (\<forall>l \<in> set (base_link_list bs). kind (l_spec l) = LinkFabric \<longrightarrow>
       held b' PoolFabricP2P (masked (ep_addr (end_a (l_spec l)))) = Some (link_name l))"
  proof (rule efold_holds [OF e])
    show "restoring t \<and> (kind (l_spec l) = LinkFabric \<longrightarrow> held t PoolFabricP2P (masked (ep_addr (end_a (l_spec l)))) = Some (link_name l))"
      if "restoring s" "restore_link s l = Inr t" for s l t using restore_link_restoring [OF that] by blast
    show "kind (l_spec l) = LinkFabric \<longrightarrow> held t PoolFabricP2P (masked (ep_addr (end_a (l_spec l)))) = Some (link_name l)"
      if "restoring s" "restore_link s y = Inr t"
        "kind (l_spec l) = LinkFabric \<longrightarrow> held s PoolFabricP2P (masked (ep_addr (end_a (l_spec l)))) = Some (link_name l)" for s l y t
      using kh [OF _ that(1,2)] that(3) by blast
  qed (use c in simp)
  then show "\<forall>l \<in> set (base_link_list bs). kind (l_spec l) = LinkFabric \<longrightarrow>
       held b' PoolFabricP2P (masked (ep_addr (end_a (l_spec l)))) = Some (link_name l)" by simp
qed

lemma new_builder_restoring:
  assumes "new_builder ds lab sp bs = Inr b" "v4_pools (lab_pools sp)" "\<forall>r \<in> set (lab_asns sp). ar_end r < -1"
    and "\<forall>x. bs = Some x \<longrightarrow> base_ok x"
  shows "restoring b" "own b b"
proof -
  show r: "restoring b"
    using assms(1)
  proof (rule new_builder_cases)
    fix ps as
    assume n: "new_builder_pools (lab_pools sp) = Inr ps" "new_asns (lab_asns sp) = Inr as"
      and c: "case bs of None \<Rightarrow> b = empty_builder lab ps as ds | Some x \<Rightarrow> restore_base (empty_builder lab ps as ds) x = Inr b"
    have e: "restoring (empty_builder lab ps as ds)" by (rule empty_restoring [OF n(1) assms(2) n(2) assms(3)])
    show "restoring b"
      using c e restore_base_restoring(1) [OF _ e] assms(4) by (cases bs) auto
  qed
  then show "own b b" using new_builder_empty [OF assms(1)] by (simp add: own_def restoring_def)
qed

section \<open>One owner per resource\<close>

lemma held_disjoint:
  assumes "stores_ok b" "held b pl s = Some v" "held b pl t = Some w" "v \<noteq> w"
  shows "\<not> (contains s a \<and> contains t a)"
proof -
  obtain p where p: "b_pools b pl = Some p" "allocated p s = Some v" "allocated p t = Some w"
    using assms(2,3) by (auto simp: held_def split: option.splits)
  then have i: "pool_inv p" using assms(1) by (simp add: stores_ok_def)
  have "in_range p s" "in_range p t" using pool_invD [OF i] p by auto
  moreover have "pool_wf p" "s \<noteq> t" using i p assms(4) by (auto simp: pool_inv_def)
  ultimately show ?thesis using in_range_disjoint by blast
qed

lemma built_owns:
  assumes "new_builder ds lab sp bs = Inr b" "build b topo = Inr b'"
    and "v4_pools (lab_pools sp)" "\<forall>r \<in> set (lab_asns sp). ar_end r < -1" "\<forall>x. bs = Some x \<longrightarrow> base_ok x"
  shows "stores_ok b'" "n \<in> set (res_nodes b') \<Longrightarrow> node_owns b' n" "l \<in> set (res_links b') \<Longrightarrow> link_owns b' l"
proof -
  have "own b b'" using own.build_keeps new_builder_restoring(2) [OF assms(1,3,4,5)] assms(2) by blast
  then show "stores_ok b'" "n \<in> set (res_nodes b') \<Longrightarrow> node_owns b' n" "l \<in> set (res_links b') \<Longrightarrow> link_owns b' l"
    by (simp_all add: own_def)
qed

lemma demo_hyps:
  "v4_pools (lab_pools demo_spec)" "\<forall>r \<in> set (lab_asns demo_spec). ar_end r < -1" "base_ok demo_base"
  "\<forall>x. Some demo_base = Some x \<longrightarrow> base_ok x"
proof -
  have "parse_prefix ''10.0.0.0/16'' = Some (Prefix (V4 0x0A000000) 16)" "parse_prefix ''10.1.0.0/16'' = Some (Prefix (V4 0x0A010000) 16)"
    by code_simp+
  then show "v4_pools (lab_pools demo_spec)" by (simp add: v4_pools_def demo_spec_def)
  show "\<forall>r \<in> set (lab_asns demo_spec). ar_end r < -1" by (simp add: demo_spec_def)
  show "base_ok demo_base" by (simp add: base_ok_def demo_base_def demo_node_def empty_spec_def masked_def host_bits_def)
  then show "\<forall>x. Some demo_base = Some x \<longrightarrow> base_ok x" by simp
qed

text \<open>C1: in a built topology, from scratch or on a deployed base, the loopback subnets of two nodes with
  different names share no address, and two routers of a role with different names have different ASNs.\<close>

theorem nodes_share_nothing:
  assumes "new_builder ds lab sp bs = Inr b" "build b topo = Inr b'"
    and "v4_pools (lab_pools sp)" "\<forall>r \<in> set (lab_asns sp). ar_end r < -1" "\<forall>x. bs = Some x \<longrightarrow> base_ok x"
    and "n \<in> set (res_nodes b')" "m \<in> set (res_nodes b')" "node_name n \<noteq> node_name m"
    and "role (n_spec n) \<noteq> RoleServer" "role (n_spec m) \<noteq> RoleServer"
  shows "\<not> (contains (loopback (n_spec n)) a \<and> contains (loopback (n_spec m)) a) \<and>
    (role (n_spec n) = role (n_spec m) \<longrightarrow> role (n_spec n) \<noteq> RoleLeaf \<longrightarrow> asn (n_spec n) \<noteq> asn (n_spec m))"
proof -
  note o = built_owns [OF assms(1-5)]
  have "held b' PoolLoopback (loopback (n_spec n)) = Some (node_name n)" "held b' PoolLoopback (loopback (n_spec m)) = Some (node_name m)"
    using o(2) [OF assms(6)] o(2) [OF assms(7)] assms(9,10) by (simp_all add: node_owns_def)
  moreover have "asn (n_spec n) \<noteq> asn (n_spec m)" if "role (n_spec n) = role (n_spec m)" "role (n_spec n) \<noteq> RoleLeaf"
    using o(2) [OF assms(6)] o(2) [OF assms(7)] assms(8,9) that by (auto simp: node_owns_def)
  ultimately show ?thesis using held_disjoint [OF o(1)] assms(8) by blast
qed

theorem nodes_share_nothing_witness:
  "\<exists>b'. demo_run (Some demo_base) = Some b' \<and> (\<exists>n \<in> set (res_nodes b'). \<exists>m \<in> set (res_nodes b').
     node_name n \<noteq> node_name m \<and> \<not> (contains (loopback (n_spec n)) (V4 0x0A010009) \<and> contains (loopback (n_spec m)) (V4 0x0A010009)))"
proof -
  obtain b b' n m l k where b: "demo_run (Some demo_base) = Some b'" "new_builder demo_draws ''lab'' demo_spec (Some demo_base) = Inr b"
    "build b (lab_topology demo_spec) = Inr b'" "res_links b' = [l, k]" "n \<in> set (res_nodes b')" "m \<in> set (res_nodes b')"
    "node_view n = (''external-1'', RoleExternal, 64510, Prefix (V4 0x0A010009) 32)"
    "node_view m = (''dcedge-1'', RoleDCEdge, 64600, Prefix (V4 0x0A01000A) 32)"
    "link_view l = (''external-1--dcedge-1'', LinkFabric, [(''external-1'', ''eth4'', Prefix (V4 0x0A00000A) 31),
                                              (''dcedge-1'', ''eth1'', Prefix (V4 0x0A00000B) 31)])"
    "link_view k = (''external-1--dcedge-2'', LinkFabric, [(''external-1'', ''eth5'', Prefix (V4 0x0A00000C) 31),
                                              (''dcedge-2'', ''eth1'', Prefix (V4 0x0A00000D) 31)])"
    by (rule demo_rebuilt_result)
  have d: "node_name n \<noteq> node_name m" "role (n_spec n) \<noteq> RoleServer" "role (n_spec m) \<noteq> RoleServer"
    using b(7,8) by (auto simp: node_view_def)
  from nodes_share_nothing [OF b(2,3) demo_hyps(1,2,4) b(5,6) d, of "V4 0x0A010009"] d(1) b(1,5,6) show ?thesis by blast
qed

text \<open>the point-to-point subnets of two fabric links with different names share no address, and a
  fabric link's second end is the address after its first one.\<close>

theorem links_share_no_address:
  assumes "new_builder ds lab sp bs = Inr b" "build b topo = Inr b'"
    and "v4_pools (lab_pools sp)" "\<forall>r \<in> set (lab_asns sp). ar_end r < -1" "\<forall>x. bs = Some x \<longrightarrow> base_ok x"
    and "l \<in> set (res_links b')" "k \<in> set (res_links b')" "link_name l \<noteq> link_name k"
    and "kind (l_spec l) = LinkFabric" "kind (l_spec k) = LinkFabric"
  shows "\<not> (contains (ep_addr (end_a (l_spec l))) a \<and> contains (ep_addr (end_a (l_spec k))) a) \<and>
    paddr (ep_addr (end_b (l_spec l))) = addr_next (paddr (ep_addr (end_a (l_spec l))))"
proof -
  note o = built_owns [OF assms(1-5)]
  have "link_owns b' l" "link_owns b' k" using o(3) assms(6,7) by blast+
  then have "held b' PoolFabricP2P (ep_addr (end_a (l_spec l))) = Some (link_name l)"
    "held b' PoolFabricP2P (ep_addr (end_a (l_spec k))) = Some (link_name k)"
    "paddr (ep_addr (end_b (l_spec l))) = addr_next (paddr (ep_addr (end_a (l_spec l))))"
    using assms(9,10) by (simp_all add: link_owns_def)
  then show ?thesis using held_disjoint [OF o(1)] assms(8) by blast
qed

theorem links_share_no_address_witness:
  "\<exists>b' l k. demo_run (Some demo_base) = Some b' \<and> res_links b' = [l, k] \<and>
     \<not> (contains (ep_addr (end_a (l_spec l))) (V4 0x0A00000A) \<and> contains (ep_addr (end_a (l_spec k))) (V4 0x0A00000A)) \<and>
     paddr (ep_addr (end_b (l_spec l))) = V4 0x0A00000B"
proof -
  obtain b b' n m l k where b: "demo_run (Some demo_base) = Some b'" "new_builder demo_draws ''lab'' demo_spec (Some demo_base) = Inr b"
    "build b (lab_topology demo_spec) = Inr b'" "res_links b' = [l, k]" "n \<in> set (res_nodes b')" "m \<in> set (res_nodes b')"
    "node_view n = (''external-1'', RoleExternal, 64510, Prefix (V4 0x0A010009) 32)"
    "node_view m = (''dcedge-1'', RoleDCEdge, 64600, Prefix (V4 0x0A01000A) 32)"
    "link_view l = (''external-1--dcedge-1'', LinkFabric, [(''external-1'', ''eth4'', Prefix (V4 0x0A00000A) 31),
                                              (''dcedge-1'', ''eth1'', Prefix (V4 0x0A00000B) 31)])"
    "link_view k = (''external-1--dcedge-2'', LinkFabric, [(''external-1'', ''eth5'', Prefix (V4 0x0A00000C) 31),
                                              (''dcedge-2'', ''eth1'', Prefix (V4 0x0A00000D) 31)])"
    by (rule demo_rebuilt_result)
  have d: "l \<in> set (res_links b')" "k \<in> set (res_links b')" "link_name l \<noteq> link_name k" "kind (l_spec l) = LinkFabric"
    "kind (l_spec k) = LinkFabric" "ep_addr (end_a (l_spec l)) = Prefix (V4 0x0A00000A) 31"
    using b(4,9,10) by (auto simp: link_view_def ends_def)
  from links_share_no_address [OF b(2,3) demo_hyps(1,2,4) d(1-5), of "V4 0x0A00000A"] b(1,4) d(6) show ?thesis by auto
qed

text \<open>a node of a rebuilt topology never gets an address of the loopback subnet of a deployed node
  with another name, whether the rebuild keeps that node or removes it.\<close>

theorem deployed_loopbacks_stay_reserved:
  assumes "new_builder ds lab sp (Some bs) = Inr b" "build b topo = Inr b'"
    and "v4_pools (lab_pools sp)" "\<forall>r \<in> set (lab_asns sp). ar_end r < -1" "base_ok bs"
    and "n \<in> set (res_nodes b')" "role (n_spec n) \<noteq> RoleServer"
    and "m \<in> set (base_nodes bs)" "is_valid (loopback (n_spec m))" "node_name n \<noteq> node_name m"
  shows "\<not> (contains (loopback (n_spec n)) a \<and> contains (loopback (n_spec m)) a)"
proof -
  have ok: "\<forall>x. Some bs = Some x \<longrightarrow> base_ok x" using assms(5) by simp
  note o = built_owns [OF assms(1-4) ok]
  obtain ps as where r: "restore_base (empty_builder lab ps as ds) bs = Inr b" and
    n: "new_builder_pools (lab_pools sp) = Inr ps" "new_asns (lab_asns sp) = Inr as"
    using assms(1) by (auto elim!: new_builder_cases)
  have "held b PoolLoopback (loopback (n_spec m)) = Some (node_name m)"
    using restore_base_restoring(2) [OF r empty_restoring [OF n(1) assms(3) n(2) assms(4)] assms(5)] assms(8,9) by blast
  moreover have "keeps_held b b'"
    using own.build_keeps [of b b topo b'] new_builder_restoring(2) [OF assms(1,3,4) ok] assms(2) by (simp add: own_def)
  ultimately have "held b' PoolLoopback (loopback (n_spec m)) = Some (node_name m)" by (simp add: keeps_held_def)
  moreover have "held b' PoolLoopback (loopback (n_spec n)) = Some (node_name n)"
    using o(2) [OF assms(6)] assms(7) by (simp add: node_owns_def)
  ultimately show ?thesis using held_disjoint [OF o(1)] assms(10) by blast
qed

theorem deployed_loopbacks_stay_reserved_witness:
  "\<exists>b' m. demo_run (Some demo_base) = Some b' \<and> m \<in> set (res_nodes b') \<and> node_name m = ''dcedge-1'' \<and>
     \<not> (contains (loopback (n_spec m)) (V4 0x0A010009) \<and> contains (loopback (n_spec demo_node)) (V4 0x0A010009))"
proof -
  obtain b b' n m l k where b: "demo_run (Some demo_base) = Some b'" "new_builder demo_draws ''lab'' demo_spec (Some demo_base) = Inr b"
    "build b (lab_topology demo_spec) = Inr b'" "res_links b' = [l, k]" "n \<in> set (res_nodes b')" "m \<in> set (res_nodes b')"
    "node_view n = (''external-1'', RoleExternal, 64510, Prefix (V4 0x0A010009) 32)"
    "node_view m = (''dcedge-1'', RoleDCEdge, 64600, Prefix (V4 0x0A01000A) 32)"
    "link_view l = (''external-1--dcedge-1'', LinkFabric, [(''external-1'', ''eth4'', Prefix (V4 0x0A00000A) 31),
                                              (''dcedge-1'', ''eth1'', Prefix (V4 0x0A00000B) 31)])"
    "link_view k = (''external-1--dcedge-2'', LinkFabric, [(''external-1'', ''eth5'', Prefix (V4 0x0A00000C) 31),
                                              (''dcedge-2'', ''eth1'', Prefix (V4 0x0A00000D) 31)])"
    by (rule demo_rebuilt_result)
  have d: "role (n_spec m) \<noteq> RoleServer" "node_name m = ''dcedge-1''" "node_name m \<noteq> node_name demo_node"
    "demo_node \<in> set (base_nodes demo_base)" "is_valid (loopback (n_spec demo_node))"
    using b(8) by (auto simp: node_view_def demo_node_def demo_base_def fresh_meta_def is_valid_def empty_spec_def)
  from deployed_loopbacks_stay_reserved [OF b(2,3) demo_hyps(1-3) b(6) d(1,4,5,3), of "V4 0x0A010009"] b(1,6) d(2)
  show ?thesis by blast
qed

end
