(* ===== verification/TopologyProps.thy ===== *)
theory TopologyProps
  imports TopologyDemo
begin

text \<open>
  Properties of the wiring of a built topology: references, interface numbers, and the size of the
  fabric as a function of the spec.
\<close>

section \<open>References\<close>

text \<open>every link end of a built topology names, by ID and by name, a node of the same topology.\<close>

lemma endpoints_name_nodes:
  assumes "new_builder ds lab sp bs = Inr b" "build b topo = Inr b'"
    and "l \<in> set (res_links b')" "e \<in> set (ends l)"
  shows "\<exists>n \<in> set (res_nodes b'). node_id n = ep_id e \<and> node_name n = ep_node e"
proof -
  have "ends_known b" using new_builder_empty [OF assms(1)] by (simp add: ends_known_def)
  then have "ends_known b'" using ends.build_keeps assms(2) by blast
  then show ?thesis using assms(3,4) by (fastforce simp: ends_known_def metas_def)
qed

section \<open>Interfaces\<close>

lemma fresh_counted: "new_builder ds lab sp None = Inr b \<Longrightarrow> counted Map.empty (\<lambda>_. 0) b"
  by (elim new_builder_cases) (auto simp: counted_def pins_ok_def new_ifaces_def intro!: exI [of _ 0])

lemma base_counted:
  assumes "new_builder ds lab sp (Some bs) = Inr b"
  shows "counted (base_links b) (if_index b) b" "\<forall>l \<in> set (base_link_list bs). wired l b"
    "\<forall>nm l. base_links b nm = Some l \<longrightarrow> l \<in> set (base_link_list bs) \<and> link_name l = nm"
proof -
  obtain ps as where "restore_base (empty_builder lab ps as ds) bs = Inr b"
    using assms by (auto elim!: new_builder_cases)
  note w = restore_base_wires [OF this, simplified]
  show "\<forall>l \<in> set (base_link_list bs). wired l b"
    "\<forall>nm l. base_links b nm = Some l \<longrightarrow> l \<in> set (base_link_list bs) \<and> link_name l = nm"
    using w(1,2) by auto
  have ne: "ep_iface e \<noteq> []" if l: "l \<in> set (base_link_list bs)" and e: "e \<in> set (ends l)" for l e
  proof -
    have "wired l b" using w(1) l by blast
    then obtain idx where "sscanf_d ''eth'' (ep_iface e) = Some idx" using e by (auto simp: wired_def)
    then show ?thesis by (auto simp: sscanf_d_def)
  qed
  have "pins_ok (base_links b)"
    unfolding pins_ok_def
  proof (intro allI impI)
    fix nm l assume "base_links b nm = Some l"
    then have "l \<in> set (base_link_list bs)" using w(2) by blast
    from ne [OF this] show "ep_iface (end_a (l_spec l)) \<noteq> [] \<and> ep_iface (end_b (l_spec l)) \<noteq> []"
      by (simp add: ends_def)
  qed
  then show "counted (base_links b) (if_index b) b"
    using new_builder_empty [OF assms] by (auto simp: counted_def new_ifaces_def intro!: exI [of _ 0])
qed

text \<open>in a topology built from scratch the interfaces of a node, in the order of its links, are
  \<open>eth1\<close>, \<open>eth2\<close> and so on without gap or repetition.\<close>

theorem fresh_interfaces_count_up:
  assumes "new_builder ds lab sp None = Inr b" "build b topo = Inr b'"
  shows "\<exists>m. [ep_iface e. l \<leftarrow> res_links b', e \<leftarrow> ends l, ep_node e = x] = map (\<lambda>j. eth (int j)) [1..<Suc m]"
proof -
  have "counted Map.empty (\<lambda>_. 0) b'"
    using count.build_keeps fresh_counted [OF assms(1)] assms(2) by blast
  then obtain m where m: "new_ifaces Map.empty (res_links b') x = map (\<lambda>j. eth (int j)) [1..<Suc m]"
    by (fastforce simp: counted_def)
  have "new_ifaces Map.empty ls x = [ep_iface e. l \<leftarrow> ls, e \<leftarrow> ends l, ep_node e = x]" for ls
    by (induction ls) (auto simp: new_ifaces_def ends_def)
  with m show ?thesis by auto
qed

theorem fresh_interfaces_count_up_witness:
  "\<exists>b. demo_run None = Some b \<and> (\<exists>m. [ep_iface e. l \<leftarrow> res_links b, e \<leftarrow> ends l, ep_node e = ''external-1'']
      = map (\<lambda>j. eth (int j)) [1..<Suc m])"
proof -
  obtain b b' where b: "demo_run None = Some b'" "new_builder demo_draws ''lab'' demo_spec None = Inr b"
    "build b (lab_topology demo_spec) = Inr b'" "length (res_links b') = 2"
    by (rule demo_fresh_result)
  from fresh_interfaces_count_up [OF b(2,3)] b(1) show ?thesis by blast
qed

text \<open>on a rebuild, a link the deployed topology does not have never lands on an interface that a
  deployed link of the same node occupies, kept or removed.\<close>

theorem new_interfaces_are_free:
  assumes "new_builder ds lab sp (Some bs) = Inr b" "build b topo = Inr b'"
    and l: "l \<in> set (res_links b')" "\<forall>bl \<in> set (base_link_list bs). link_name bl \<noteq> link_name l" "e \<in> set (ends l)"
    and bl: "bl \<in> set (base_link_list bs)" "be \<in> set (ends bl)" "ep_node be = ep_node e"
  shows "ep_iface e \<noteq> ep_iface be"
proof
  assume same: "ep_iface e = ep_iface be"
  note base = base_counted [OF assms(1)]
  have c: "counted (base_links b) (if_index b) b'" using count.build_keeps base(1) assms(2) by blast
  have "base_links b (link_name l) = None" using base(3) l(2) by (metis not_None_eq)
  then have "ep_iface e \<in> set (new_ifaces (base_links b) (res_links b') (ep_node e))"
    using l(1,3) by (auto simp: new_ifaces_def)
  moreover obtain m where "new_ifaces (base_links b) (res_links b') (ep_node e) = map (\<lambda>j. eth (if_index b (ep_node e) + int j)) [1..<Suc m]"
    using c unfolding counted_def by meson
  ultimately obtain j where j: "1 \<le> j" "ep_iface e = eth (if_index b (ep_node e) + int j)" by auto
  obtain idx where idx: "sscanf_d ''eth'' (ep_iface be) = Some idx" "idx \<le> if_index b (ep_node be)"
    using base(2) bl(1,2) by (auto simp: wired_def)
  show False
  proof (cases "0 \<le> if_index b (ep_node e) + int j")
    case True
    then have "idx = if_index b (ep_node e) + int j" using scan_eth idx(1) same j(2) by metis
    then show False using idx(2) bl(3) j(1) by simp
  next
    case False
    obtain ps as where r: "restore_base (empty_builder lab ps as ds) bs = Inr b"
      using assms(1) by (auto elim!: new_builder_cases)
    show False using False restore_index_nonneg [OF r, of "ep_node e"] by (simp add: empty_builder_def)
  qed
qed

theorem new_interfaces_are_free_witness:
  "\<exists>b'. demo_run (Some demo_base) = Some b' \<and> (\<exists>l \<in> set (res_links b'). ep_node (end_a (l_spec l)) = ''external-1'' \<and>
     ep_iface (end_a (l_spec l)) \<noteq> ''eth3'')"
proof -
  obtain b b' n m l k where b: "demo_run (Some demo_base) = Some b'" "new_builder demo_draws ''lab'' demo_spec (Some demo_base) = Inr b"
    "build b (lab_topology demo_spec) = Inr b'" "res_links b' = [l, k]" "n \<in> set (res_nodes b')" "m \<in> set (res_nodes b')"
    "node_view n = (''external-1'', RoleExternal, 64510, Prefix (V4 0x0A010009) 32)"
    "node_view m = (''dcedge-1'', RoleDCEdge, 64600, Prefix (V4 0x0A01000A) 32)"
    "link_view l = (''external-1--dcedge-1'', LinkFabric, [(''external-1'', ''eth4'', Prefix (V4 0x0A00000A) 31),
                                              (''dcedge-1'', ''eth1'', Prefix (V4 0x0A00000B) 31)])"
    "link_view k = (''external-1--dcedge-2'', LinkFabric, [(''external-1'', ''eth5'', Prefix (V4 0x0A00000C) 31),
                                              (''dcedge-2'', ''eth1'', Prefix (V4 0x0A00000D) 31)])"
    by (rule demo_rebuilt_result)
  have l: "l \<in> set (res_links b')" "link_name l = ''external-1--dcedge-1''" "ep_node (end_a (l_spec l)) = ''external-1''"
    using b(4,9) by (simp_all add: link_view_def ends_def)
  have "ep_iface (end_a (l_spec l)) \<noteq> ''eth3''"
    using new_interfaces_are_free [OF b(2,3) l(1), of "end_a (l_spec l)" demo_link "end_a (l_spec demo_link)"] l(2,3)
    by (simp add: ends_def demo_base_def demo_link_def fresh_meta_def)
  then show ?thesis using b(1) l(1,3) by blast
qed

end
