(* ===== verification/Maps.thy ===== *)
theory Maps
  imports Prelude
begin

text \<open>
  The maps the program builds from slices (\<open>m[x.Name] = x\<close> in a loop), the counters it keeps in
  maps, and the lists it groups by key.
\<close>

definition index_by :: "('a \<Rightarrow> 'k) \<Rightarrow> 'a list \<Rightarrow> 'k \<Rightarrow> 'a option" where
  "index_by key xs = foldl (\<lambda>m x. m(key x \<mapsto> x)) Map.empty xs"

lemma index_by_Nil [simp]: "index_by key [] = Map.empty"
  by (simp add: index_by_def)

lemma index_by_snoc [simp]: "index_by key (xs @ [x]) = (index_by key xs)(key x \<mapsto> x)"
  by (simp add: index_by_def)

lemma index_by_Some: "index_by key xs k = Some x \<Longrightarrow> x \<in> set xs \<and> key x = k"
  by (induction xs rule: rev_induct) (auto split: if_splits)

lemma index_by_None: "index_by key xs k = None \<longleftrightarrow> k \<notin> key ` set xs"
  by (induction xs rule: rev_induct) auto

lemma index_by_ne_None: "index_by key xs k \<noteq> None \<longleftrightarrow> k \<in> key ` set xs"
  by (simp add: index_by_None)

lemma index_by_distinct: "distinct (map key xs) \<Longrightarrow> x \<in> set xs \<Longrightarrow> index_by key xs (key x) = Some x"
proof (induction xs rule: rev_induct)
  case (snoc y ys)
  show ?case
  proof (cases "x = y")
    case False
    then have "x \<in> set ys" using snoc.prems by simp
    moreover from this have "key x \<noteq> key y" using snoc.prems(1) by (auto simp: rev_image_eqI)
    ultimately show ?thesis using snoc by simp
  qed simp
qed simp

text \<open>\<open>m[k]++\<close> along a list of keys.\<close>

definition bump :: "('k \<Rightarrow> nat) \<Rightarrow> 'k \<Rightarrow> ('k \<Rightarrow> nat)" where
  "bump m k = m(k := m k + 1)"

lemma bumps_count: "foldl bump m ks k = m k + count_list ks k"
  by (induction ks arbitrary: m) (auto simp: bump_def)

lemma count_list_pos: "0 < count_list xs x \<longleftrightarrow> x \<in> set xs"
  by (metis count_list_0_iff gr_zeroI less_irrefl)

text \<open>\<open>m[k] = append(m[k], v)\<close> along a list of pairs.\<close>

lemma appends_filter:
  "foldl (\<lambda>m (k, v). map_append m k [v]) m kvs k = m k @ map snd (filter (\<lambda>p. fst p = k) kvs)"
  by (induction kvs arbitrary: m) auto

lemma count_list_concat: "count_list (concat xss) x = sum_list (map (\<lambda>xs. count_list xs x) xss)"
  by (induction xss) (auto simp: count_list_append)

lemma sum_list_indicator: "sum_list (map (\<lambda>x. if P x then 1 else 0) xs) = length (filter P xs)"
  by (induction xs) auto

text \<open>A loop whose body fails on the elements of one kind and only on them.\<close>

lemma efold_find:
  assumes "\<And>s x. f s x = (if bad x then Inl (err x) else Inr (g s x))"
  shows "efold f s xs = (case find bad xs of None \<Rightarrow> Inr (foldl g s xs) | Some x \<Rightarrow> Inl (err x))"
  by (induction xs arbitrary: s) (auto simp: assms split: option.splits)

lemma filter_key:
  assumes "distinct (map key xs)" "x \<in> set xs"
  shows "filter (\<lambda>y. key y = key x) xs = [x]"
  using assms
proof (induction xs)
  case (Cons y ys)
  show ?case
  proof (cases "x = y")
    case True
    then have "filter (\<lambda>z. key z = key x) ys = []"
      using Cons.prems(1) by (auto simp: filter_empty_conv rev_image_eqI)
    then show ?thesis using True by simp
  next
    case False
    then have "x \<in> set ys" using Cons.prems(2) by simp
    moreover from this have "key y \<noteq> key x" using Cons.prems(1) by (auto simp: rev_image_eqI)
    ultimately show ?thesis using Cons by simp
  qed
qed simp

lemma index_by_map: "foldl (\<lambda>m x. m(key x \<mapsto> f x)) Map.empty xs k = map_option f (index_by key xs k)"
  by (induction xs rule: rev_induct) simp_all

end
