(* ===== verification/Frr.thy ===== *)
theory Frr
  imports Model Maps
begin

text \<open>
  controller/internal/compiler/frr/frr.go: the FRR configuration of each node, derived from nodes and
  links, and its text (the template's lines). Sorting by a key is stable here; interfaces have
  different numbers and neighbors different addresses in the topologies the builder makes.
\<close>

record interface_config =
  ic_name :: string
  ic_addr :: prefix
  ic_peer :: string

record neighbor_config =
  nc_addr :: addr
  nc_as :: "32 word"
  nc_name :: string
  nc_default :: bool

record vlan_config =
  vc_id :: int
  vc_rack :: string
  vc_addr :: prefix
  vc_gateway :: addr
  vc_vrid :: int
  vc_priority :: int

record server_group =
  sg_asn :: "32 word"
  sg_range :: prefix

record router_config =
  rc_host :: string
  rc_asn :: "32 word"
  rc_id :: addr
  rc_loopback :: prefix
  rc_ifaces :: "interface_config list"
  rc_vlan :: "vlan_config option"
  rc_neighbors :: "neighbor_config list"
  rc_group :: "server_group option"

section \<open>Rendering\<close>

abbreviation asn_text :: "32 word \<Rightarrow> string" where "asn_text a \<equiv> show_nat (unat a)"

definition iface_lines :: "interface_config \<Rightarrow> string list" where
  "iface_lines i = [''interface '' @ ic_name i, '' description to '' @ ic_peer i, '' ip address '' @ show_prefix (ic_addr i), ''!'']"

definition vlan_lines :: "vlan_config \<Rightarrow> string list" where
  "vlan_lines v = [''interface vlan'' @ show_int (vc_id v), '' description server gateway ('' @ vc_rack v @ '')'',
     '' ip address '' @ show_prefix (vc_addr v), '' vrrp '' @ show_int (vc_vrid v) @ '' priority '' @ show_int (vc_priority v),
     '' vrrp '' @ show_int (vc_vrid v) @ '' ip '' @ show_addr (vc_gateway v), ''!'']"

definition neighbor_lines :: "neighbor_config \<Rightarrow> string list" where
  "neighbor_lines n = ['' neighbor '' @ show_addr (nc_addr n) @ '' remote-as '' @ asn_text (nc_as n),
     '' neighbor '' @ show_addr (nc_addr n) @ '' description '' @ nc_name n]"

definition group_lines :: "server_group \<Rightarrow> string list" where
  "group_lines g = ['' neighbor SERVERS peer-group'', '' neighbor SERVERS remote-as '' @ asn_text (sg_asn g),
     '' bgp listen range '' @ show_prefix (sg_range g) @ '' peer-group SERVERS'']"

fun opt_lines :: "('a \<Rightarrow> string list) \<Rightarrow> 'a option \<Rightarrow> string list" where
  "opt_lines f None = []"
| "opt_lines f (Some x) = f x"

definition render_lines :: "router_config \<Rightarrow> string list" where
  "render_lines c =
    [''frr defaults datacenter'', ''hostname '' @ rc_host c, ''service integrated-vtysh-config'', ''!''] @
    (if is_valid (rc_loopback c) then [''interface lo'', '' ip address '' @ show_prefix (rc_loopback c), ''!''] else []) @
    concat (map iface_lines (rc_ifaces c)) @
    opt_lines vlan_lines (rc_vlan c) @
    [''router bgp '' @ asn_text (rc_asn c), '' bgp router-id '' @ show_addr (rc_id c), '' bgp bestpath as-path multipath-relax'',
     '' no bgp ebgp-requires-policy''] @
    concat (map neighbor_lines (rc_neighbors c)) @
    opt_lines group_lines (rc_group c) @
    ['' !'', '' address-family ipv4 unicast'', ''  redistribute connected'', ''  maximum-paths 64''] @
    map (\<lambda>n. ''  neighbor '' @ show_addr (nc_addr n) @ '' default-originate'') (filter nc_default (rc_neighbors c)) @
    (if rc_group c \<noteq> None then [''  neighbor SERVERS default-originate'', ''  neighbor SERVERS prefix-list SERVERS-OUT out''] else []) @
    ['' exit-address-family'', ''!''] @
    (if rc_group c \<noteq> None then [''ip prefix-list SERVERS-OUT seq 10 permit 0.0.0.0/0'', ''!''] else []) @
    [''line vty'', ''!'']"

definition unlines :: "string list \<Rightarrow> string" where
  "unlines ls = concat (map (\<lambda>l. l @ [CHR 0x0A]) ls)"

definition render :: "router_config \<Rightarrow> string" where
  "render c = unlines (render_lines c)"

definition daemons_text :: string where
  "daemons_text = unlines [''bgpd=yes'', ''bfdd=yes'', ''vrrpd=yes'', ''zebra=yes'', ''vtysh_enable=yes'']"

definition vtysh_conf :: string where
  "vtysh_conf = unlines [''service integrated-vtysh-config'']"

section \<open>Deriving the configurations\<close>

record node_indexes =
  by_id :: "string \<Rightarrow> node option"
  by_name :: "string \<Rightarrow> node option"
  by_vlan_ip :: "addr \<Rightarrow> node option"
  server_asn_by_rack :: "string \<Rightarrow> 32 word option"

definition index_node :: "node_indexes \<Rightarrow> node \<Rightarrow> node_indexes" where
  "index_node x n = (let s = n_spec n in
    x\<lparr>by_id := (by_id x)(node_id n \<mapsto> n), by_name := (by_name x)(node_name n \<mapsto> n),
      by_vlan_ip := (if is_valid (vlan_ip s) then (by_vlan_ip x)(paddr (vlan_ip s) \<mapsto> n) else by_vlan_ip x),
      server_asn_by_rack := (if role s = RoleServer \<and> rack_id s \<noteq> [] then (server_asn_by_rack x)(rack_id s \<mapsto> asn s)
                             else server_asn_by_rack x)\<rparr>)"

definition index_nodes :: "node list \<Rightarrow> node_indexes" where
  "index_nodes ns = foldl index_node
     \<lparr>by_id = Map.empty, by_name = Map.empty, by_vlan_ip = Map.empty, server_asn_by_rack = Map.empty\<rparr> ns"

definition server_neighbor :: "(addr \<Rightarrow> node option) \<Rightarrow> addr \<Rightarrow> neighbor_config" where
  "server_neighbor byip p =
    (case byip p of None \<Rightarrow> \<lparr>nc_addr = p, nc_as = 0, nc_name = show_addr p, nc_default = False\<rparr>
     | Some leaf \<Rightarrow> \<lparr>nc_addr = p, nc_as = asn (n_spec leaf), nc_name = node_name leaf, nc_default = False\<rparr>)"

definition server_config :: "(addr \<Rightarrow> node option) \<Rightarrow> node \<Rightarrow> router_config" where
  "server_config byip n = (let s = n_spec n in
    \<lparr>rc_host = node_name n, rc_asn = asn s, rc_id = paddr (address s), rc_loopback = no_prefix,
     rc_ifaces = [\<lparr>ic_name = ''bond0'', ic_addr = address s, ic_peer = rack_id s @ '' leaf pair''\<rparr>],
     rc_vlan = None, rc_neighbors = map (server_neighbor byip) (bgp_peers s), rc_group = None\<rparr>)"

definition switch_config :: "node_indexes \<Rightarrow> node \<Rightarrow> router_config" where
  "switch_config x n = (let s = n_spec n;
     c = \<lparr>rc_host = node_name n, rc_asn = asn s, rc_id = paddr (loopback s), rc_loopback = loopback s, rc_ifaces = [],
          rc_vlan = None, rc_neighbors = [], rc_group = None\<rparr> in
    (if n_vlan_id s = 0 then c
     else c\<lparr>rc_vlan := Some \<lparr>vc_id = n_vlan_id s, vc_rack = rack_id s, vc_addr = vlan_ip s, vc_gateway = gateway_ip s,
                            vc_vrid = vrrp_group s, vc_priority = vrrp_priority s\<rparr>,
            rc_group := (case server_asn_by_rack x (rack_id s) of None \<Rightarrow> None
                         | Some v \<Rightarrow> Some \<lparr>sg_asn = v, sg_range = masked (vlan_ip s)\<rparr>),
            rc_neighbors := (case by_name x (mlag_peer s) of None \<Rightarrow> []
              | Some p \<Rightarrow> [\<lparr>nc_addr = paddr (vlan_ip (n_spec p)), nc_as = asn (n_spec p),
                           nc_name = node_name p @ '' (MLAG peer)'', nc_default = False\<rparr>])\<rparr>))"

type_synonym configs = "string \<Rightarrow> router_config option"

definition add_config :: "node_indexes \<Rightarrow> configs \<Rightarrow> node \<Rightarrow> configs" where
  "add_config x cs n =
    (if \<not> is_router (n_spec n) then cs
     else if role (n_spec n) = RoleServer then cs(node_id n \<mapsto> server_config (by_vlan_ip x) n)
     else cs(node_id n \<mapsto> switch_config x n))"

definition add_side :: "bool \<Rightarrow> configs \<Rightarrow> node \<Rightarrow> node \<Rightarrow> endpoint \<Rightarrow> endpoint \<Rightarrow> configs" where
  "add_side inet cs local peer lep pep =
    (if \<not> is_valid (ep_addr lep) then cs
     else case cs (node_id local) of None \<Rightarrow> cs
     | Some c \<Rightarrow> cs(node_id local \<mapsto> c\<lparr>
         rc_ifaces := rc_ifaces c @ [\<lparr>ic_name = ep_iface lep, ic_addr = ep_addr lep, ic_peer = node_name peer\<rparr>],
         rc_neighbors := rc_neighbors c @
           (if is_router (n_spec peer) \<and> is_valid (ep_addr pep)
            then [\<lparr>nc_addr = paddr (ep_addr pep), nc_as = asn (n_spec peer), nc_name = node_name peer,
                   nc_default = (inet \<and> role (n_spec local) = RoleExternal \<and> role (n_spec peer) = RoleDCEdge)\<rparr>]
            else [])\<rparr>))"

datatype frr_error = UnknownNode string

definition add_link_sides :: "bool \<Rightarrow> node_indexes \<Rightarrow> configs \<Rightarrow> link \<Rightarrow> frr_error + configs" where
  "add_link_sides inet x cs l = (let ea = end_a (l_spec l); eb = end_b (l_spec l) in
    (case (by_id x (ep_id ea), by_id x (ep_id eb)) of
       (Some a, Some z) \<Rightarrow> Inr (add_side inet (add_side inet cs a z ea eb) z a eb ea)
     | _ \<Rightarrow> Inl (UnknownNode (link_name l))))"

text \<open>\<open>strconv.Atoi\<close> with its error ignored: no value is 0, and a value out of range saturates.\<close>

definition atoi_or_0 :: "string \<Rightarrow> int" where
  "atoi_or_0 s = (let neg = (take 1 s = ''-''); ds = (if take 1 s = ''-'' \<or> take 1 s = ''+'' then drop 1 s else s) in
    if ds = [] \<or> \<not> list_all is_digit ds then 0
    else let v = (if neg then - int (digits_val ds) else int (digits_val ds)) in max (- (2 ^ 63)) (min (2 ^ 63 - 1) v))"

definition if_num :: "string \<Rightarrow> int" where
  "if_num name = atoi_or_0 (if take 3 name = ''eth'' then drop 3 name else name)"

definition sort_config :: "router_config \<Rightarrow> router_config" where
  "sort_config c = c\<lparr>rc_ifaces := sort_key (\<lambda>i. if_num (ic_name i)) (rc_ifaces c),
                     rc_neighbors := sort_key nc_addr (rc_neighbors c)\<rparr>"

definition build_router_configs :: "node list \<Rightarrow> link list \<Rightarrow> bool \<Rightarrow> frr_error + configs" where
  "build_router_configs ns ls inet = (let x = index_nodes ns in
    ebind (efold (add_link_sides inet x) (foldl (add_config x) Map.empty ns) ls)
      (\<lambda>cs. Inr (\<lambda>i. map_option sort_config (cs i))))"

end
