(* ===== verification/WireDemo.thy ===== *)
theory WireDemo
  imports Model
begin

text \<open>
  A small wired topology on which the properties of the compilers, validators and plans are evaluated: an
  external router, a DC edge, and a rack of two leaves and a server, with a fabric link from the edge
  to each of its neighbors.
\<close>

definition wire_node :: "string \<Rightarrow> string \<Rightarrow> node_spec \<Rightarrow> node" where
  "wire_node i nm s = \<lparr>n_meta = fresh_meta i nm, n_spec = s, n_status = empty_status\<rparr>"

definition wire_end :: "node \<Rightarrow> string \<Rightarrow> prefix \<Rightarrow> endpoint" where
  "wire_end n iface p = \<lparr>ep_id = node_id n, ep_node = node_name n, ep_iface = iface, ep_addr = p\<rparr>"

definition wire_link :: "string \<Rightarrow> string \<Rightarrow> link_kind \<Rightarrow> endpoint \<Rightarrow> endpoint \<Rightarrow> link" where
  "wire_link i nm k a z = \<lparr>l_meta = fresh_meta i nm,
     l_spec = \<lparr>l_lab = ''lab'', kind = k, l_vlan_id = (if k = LinkFabric then 0 else 10), end_a = a, end_b = z, mtu = 9100\<rparr>,
     l_status = \<lparr>admin_up = False, oper_up = False\<rparr>\<rparr>"

definition wire_ext :: node where
  "wire_ext = wire_node ''n1'' ''external-1'' ((empty_spec ''lab'' RoleExternal)\<lparr>asn := 64500, loopback := Prefix (V4 0x0A010001) 32\<rparr>)"

definition wire_edge :: node where
  "wire_edge = wire_node ''n2'' ''dcedge-1'' ((empty_spec ''lab'' RoleDCEdge)\<lparr>asn := 64600, loopback := Prefix (V4 0x0A010002) 32\<rparr>)"

definition wire_leaf :: "string \<Rightarrow> string \<Rightarrow> string \<Rightarrow> 32 word \<Rightarrow> int \<Rightarrow> node" where
  "wire_leaf i nm peer a prio = wire_node i nm ((empty_spec ''lab'' RoleLeaf)\<lparr>pod_id := ''pod-1'', rack_id := ''rack-1'', asn := 65001,
     loopback := Prefix (V4 (0x0A010000 + a)) 32, mlag_peer := peer, n_vlan_id := 10, vlan_ip := Prefix (V4 (0x0A640000 + a)) 24,
     gateway_ip := V4 0x0A640001, gateway_mac := ''00:00:5e:00:01:01'', vrrp_group := 1, vrrp_priority := prio\<rparr>)"

definition wire_leaf_a :: node where "wire_leaf_a = wire_leaf ''n3'' ''leaf-a'' ''leaf-b'' 3 200"
definition wire_leaf_b :: node where "wire_leaf_b = wire_leaf ''n4'' ''leaf-b'' ''leaf-a'' 4 100"

definition wire_server :: node where
  "wire_server = wire_node ''n5'' ''server-1'' ((empty_spec ''lab'' RoleServer)\<lparr>pod_id := ''pod-1'', rack_id := ''rack-1'', asn := 65500,
     address := Prefix (V4 0x0A64000B) 24, default_gateway := V4 0x0A640001, bgp_peers := [V4 0x0A640003, V4 0x0A640004]\<rparr>)"

definition wire_nodes :: "node list" where
  "wire_nodes = [wire_ext, wire_edge, wire_leaf_a, wire_leaf_b, wire_server]"

definition wire_fabric :: "string \<Rightarrow> node \<Rightarrow> string \<Rightarrow> node \<Rightarrow> string \<Rightarrow> 32 word \<Rightarrow> link" where
  "wire_fabric i a ia z iz w = wire_link i (node_name a @ ''--'' @ node_name z) LinkFabric
     (wire_end a ia (Prefix (V4 (0x0A000000 + w)) 31)) (wire_end z iz (Prefix (V4 (0x0A000001 + w)) 31))"

definition wire_l2 :: "string \<Rightarrow> link_kind \<Rightarrow> node \<Rightarrow> string \<Rightarrow> node \<Rightarrow> string \<Rightarrow> link" where
  "wire_l2 i k a ia z iz = wire_link i (node_name a @ ''--'' @ node_name z) k (wire_end a ia no_prefix) (wire_end z iz no_prefix)"

definition wire_links :: "link list" where
  "wire_links =
    [wire_fabric ''l1'' wire_ext ''eth1'' wire_edge ''eth1'' 0, wire_fabric ''l2'' wire_edge ''eth2'' wire_leaf_a ''eth1'' 2,
     wire_fabric ''l3'' wire_edge ''eth3'' wire_leaf_b ''eth1'' 4, wire_l2 ''l4'' LinkMLAGPeer wire_leaf_a ''eth2'' wire_leaf_b ''eth2'',
     wire_l2 ''l5'' LinkServerAccess wire_leaf_a ''eth3'' wire_server ''eth1'',
     wire_l2 ''l6'' LinkServerAccess wire_leaf_b ''eth3'' wire_server ''eth2'']"

end
