(* ===== verification/FrrProps.thy ===== *)
theory FrrProps
  imports Frr WireDemo
begin

text \<open>
  What the derived configurations are: the interfaces and neighbors of a node are the ends of its
  links in link order, then sorted. From it: when the derivation fails, that BGP sessions are
  configured on both sides, where default routes are originated, and the session count that the
  control-plane validation of biz/validate.go waits for.
\<close>

section \<open>Indexes\<close>

lemma index_nodes_maps:
  "by_id (index_nodes ns) = index_by node_id ns" "by_name (index_nodes ns) = index_by node_name ns"
  by (induction ns rule: rev_induct) (simp_all add: index_nodes_def index_node_def Let_def)

lemma by_id_cases:
  assumes "by_id (index_nodes ns) i = Some n"
  shows "n \<in> set ns" "node_id n = i"
  using index_by_Some assms unfolding index_nodes_maps by fastforce+

section \<open>What a link adds to a node\<close>

definition extend :: "router_config \<Rightarrow> interface_config list \<Rightarrow> neighbor_config list \<Rightarrow> router_config" where
  "extend c is nbs = c\<lparr>rc_ifaces := rc_ifaces c @ is, rc_neighbors := rc_neighbors c @ nbs\<rparr>"

lemma extend_simps [simp]:
  "rc_ifaces (extend c is nbs) = rc_ifaces c @ is" "rc_neighbors (extend c is nbs) = rc_neighbors c @ nbs"
  "rc_group (extend c is nbs) = rc_group c" "rc_asn (extend c is nbs) = rc_asn c" "rc_host (extend c is nbs) = rc_host c"
  "extend (extend c is nbs) js mbs = extend c (is @ js) (nbs @ mbs)" "extend c [] [] = c"
  by (simp_all add: extend_def)

definition side_ifaces :: "node \<Rightarrow> endpoint \<Rightarrow> interface_config list" where
  "side_ifaces peer lep = (if is_valid (ep_addr lep)
     then [\<lparr>ic_name = ep_iface lep, ic_addr = ep_addr lep, ic_peer = node_name peer\<rparr>] else [])"

definition side_neighbors :: "bool \<Rightarrow> node \<Rightarrow> node \<Rightarrow> endpoint \<Rightarrow> endpoint \<Rightarrow> neighbor_config list" where
  "side_neighbors inet local peer lep pep =
     (if is_valid (ep_addr lep) \<and> is_router (n_spec peer) \<and> is_valid (ep_addr pep)
      then [\<lparr>nc_addr = paddr (ep_addr pep), nc_as = asn (n_spec peer), nc_name = node_name peer,
             nc_default = (inet \<and> role (n_spec local) = RoleExternal \<and> role (n_spec peer) = RoleDCEdge)\<rparr>] else [])"

lemma add_side_apply:
  "add_side inet cs local peer lep pep i =
    (if i = node_id local then map_option (\<lambda>c. extend c (side_ifaces peer lep) (side_neighbors inet local peer lep pep)) (cs i)
     else cs i)"
  by (cases "cs (node_id local)")
     (auto simp: add_side_def side_ifaces_def side_neighbors_def extend_def split: option.splits)

text \<open>The two sides of a link, as the local and the peer end.\<close>

definition sides :: "link \<Rightarrow> (endpoint \<times> endpoint) list" where
  "sides l = [(end_a (l_spec l), end_b (l_spec l)), (end_b (l_spec l), end_a (l_spec l))]"

definition local_sides :: "link list \<Rightarrow> string \<Rightarrow> (endpoint \<times> endpoint) list" where
  "local_sides ls i = filter (\<lambda>(lep, pep). ep_id lep = i) (concat (map sides ls))"

abbreviation node_at :: "node list \<Rightarrow> endpoint \<Rightarrow> node" where
  "node_at ns e \<equiv> the (by_id (index_nodes ns) (ep_id e))"

definition link_ifaces :: "node list \<Rightarrow> link list \<Rightarrow> string \<Rightarrow> interface_config list" where
  "link_ifaces ns ls i = concat (map (\<lambda>(lep, pep). side_ifaces (node_at ns pep) lep) (local_sides ls i))"

definition link_neighbors :: "bool \<Rightarrow> node list \<Rightarrow> link list \<Rightarrow> string \<Rightarrow> neighbor_config list" where
  "link_neighbors inet ns ls i =
     concat (map (\<lambda>(lep, pep). side_neighbors inet (node_at ns lep) (node_at ns pep) lep pep) (local_sides ls i))"

lemma add_link_sides_apply:
  assumes "add_link_sides inet (index_nodes ns) cs l = Inr cs'"
  shows "cs' i = map_option (\<lambda>c. extend c (link_ifaces ns [l] i) (link_neighbors inet ns [l] i)) (cs i)"
proof -
  obtain a z where az: "by_id (index_nodes ns) (ep_id (end_a (l_spec l))) = Some a"
    "by_id (index_nodes ns) (ep_id (end_b (l_spec l))) = Some z"
    "cs' = add_side inet (add_side inet cs a z (end_a (l_spec l)) (end_b (l_spec l))) z a (end_b (l_spec l)) (end_a (l_spec l))"
    using assms by (auto simp: add_link_sides_def Let_def split: option.splits)
  have "node_id a = ep_id (end_a (l_spec l))" "node_id z = ep_id (end_b (l_spec l))"
    using by_id_cases(2) az(1,2) by auto
  then show ?thesis using az
    by (cases "cs i") (auto simp: add_side_apply link_ifaces_def link_neighbors_def local_sides_def sides_def)
qed

lemma links_append:
  "link_ifaces ns (ls @ ms) i = link_ifaces ns ls i @ link_ifaces ns ms i"
  "link_neighbors inet ns (ls @ ms) i = link_neighbors inet ns ls i @ link_neighbors inet ns ms i"
  by (simp_all add: link_ifaces_def link_neighbors_def local_sides_def)

lemma link_Nil [simp]: "link_ifaces ns [] i = []" "link_neighbors inet ns [] i = []"
  by (simp_all add: link_ifaces_def link_neighbors_def local_sides_def)

lemma all_links_apply:
  assumes "efold (add_link_sides inet (index_nodes ns)) cs ls = Inr cs'"
  shows "cs' i = map_option (\<lambda>c. extend c (link_ifaces ns ls i) (link_neighbors inet ns ls i)) (cs i)"
  using assms
proof (induction ls arbitrary: cs)
  case Nil
  then show ?case by (simp add: map_option.id [unfolded id_def])
next
  case (Cons l ls)
  then obtain ds where d: "add_link_sides inet (index_nodes ns) cs l = Inr ds"
    "efold (add_link_sides inet (index_nodes ns)) ds ls = Inr cs'" by auto
  show ?case
    using Cons.IH [OF d(2)] add_link_sides_apply [OF d(1), of i] links_append(1) [of ns "[l]" ls i] links_append(2) [of inet ns "[l]" ls i]
    by (cases "cs i") simp_all
qed

section \<open>What a node starts with\<close>

definition base_config :: "node_indexes \<Rightarrow> node \<Rightarrow> router_config" where
  "base_config x n = (if role (n_spec n) = RoleServer then server_config (by_vlan_ip x) n else switch_config x n)"

lemma add_config_eq:
  "add_config x cs n = (if is_router (n_spec n) then cs(node_id n \<mapsto> base_config x n) else cs)"
  by (simp add: add_config_def base_config_def)

lemma add_configs_apply:
  assumes "distinct (map node_id ns)"
  shows "foldl (add_config x) Map.empty ns i =
    (case index_by node_id ns i of None \<Rightarrow> None | Some n \<Rightarrow> if is_router (n_spec n) then Some (base_config x n) else None)"
  using assms
proof (induction ns arbitrary: i rule: rev_induct)
  case (snoc n ns)
  then have "index_by node_id ns (node_id n) = None" by (simp add: index_by_None)
  with snoc.IH [of i] snoc.IH [of "node_id n"] snoc.prems show ?case by (simp add: add_config_eq)
qed simp

definition node_config :: "bool \<Rightarrow> node list \<Rightarrow> link list \<Rightarrow> node \<Rightarrow> router_config" where
  "node_config inet ns ls n = sort_config (extend (base_config (index_nodes ns) n)
     (link_ifaces ns ls (node_id n)) (link_neighbors inet ns ls (node_id n)))"

lemma configs_of_nodes:
  assumes "distinct (map node_id ns)" "build_router_configs ns ls inet = Inr cs"
  shows "cs i = (case by_id (index_nodes ns) i of None \<Rightarrow> None
     | Some n \<Rightarrow> if is_router (n_spec n) then Some (node_config inet ns ls n) else None)"
proof -
  obtain ds where ds: "efold (add_link_sides inet (index_nodes ns)) (foldl (add_config (index_nodes ns)) Map.empty ns) ls = Inr ds"
    "cs = (\<lambda>i. map_option sort_config (ds i))" using assms(2) by (auto simp: build_router_configs_def Let_def)
  show ?thesis
  proof (cases "by_id (index_nodes ns) i")
    case None
    then show ?thesis
      using all_links_apply [OF ds(1), of i] add_configs_apply [OF assms(1), of _ i] by (simp add: ds(2) index_nodes_maps)
  next
    case (Some n)
    moreover from Some have "node_id n = i" by (rule by_id_cases(2))
    ultimately show ?thesis
      using all_links_apply [OF ds(1), of i] add_configs_apply [OF assms(1), of _ i]
      by (simp add: ds(2) index_nodes_maps node_config_def)
  qed
qed

lemma config_of_node:
  assumes "distinct (map node_id ns)" "build_router_configs ns ls inet = Inr cs" "n \<in> set ns" "is_router (n_spec n)"
  shows "cs (node_id n) = Some (node_config inet ns ls n)"
  using assms configs_of_nodes [OF assms(1,2), of "node_id n"] index_by_distinct [OF assms(1,3)]
  by (simp add: index_nodes_maps)

lemma sort_config_sets [simp]:
  "set (rc_ifaces (sort_config c)) = set (rc_ifaces c)" "set (rc_neighbors (sort_config c)) = set (rc_neighbors c)"
  "length (rc_neighbors (sort_config c)) = length (rc_neighbors c)" "rc_group (sort_config c) = rc_group c"
  by (simp_all add: sort_config_def)

section \<open>Failure\<close>

definition dangling :: "node list \<Rightarrow> link \<Rightarrow> bool" where
  "dangling ns l \<longleftrightarrow> \<not> set (map ep_id (ends l)) \<subseteq> node_id ` set ns"

lemma add_link_sides_total:
  "add_link_sides inet (index_nodes ns) cs l =
     (if dangling ns l then Inl (UnknownNode (link_name l)) else Inr (
        let a = node_at ns (end_a (l_spec l)); z = node_at ns (end_b (l_spec l)) in
        add_side inet (add_side inet cs a z (end_a (l_spec l)) (end_b (l_spec l))) z a (end_b (l_spec l)) (end_a (l_spec l))))"
proof -
  have "dangling ns l \<longleftrightarrow> by_id (index_nodes ns) (ep_id (end_a (l_spec l))) = None \<or> by_id (index_nodes ns) (ep_id (end_b (l_spec l))) = None"
    by (simp add: dangling_def ends_def index_nodes_maps index_by_None)
  then show ?thesis by (auto simp: add_link_sides_def Let_def split: option.splits)
qed

text \<open>Deriving the configurations fails exactly when some link has an end on a node that is not in the topology,
  and then it reports the first such link.\<close>

lemma frr_total:
  "(case find (dangling ns) ls of
      Some l \<Rightarrow> build_router_configs ns ls inet = Inl (UnknownNode (link_name l))
    | None \<Rightarrow> \<exists>cs. build_router_configs ns ls inet = Inr cs)"
  using efold_find [where f = "add_link_sides inet (index_nodes ns)" and bad = "dangling ns" and xs = ls, OF add_link_sides_total,
      of "foldl (add_config (index_nodes ns)) Map.empty ns"]
  by (auto simp: build_router_configs_def Let_def split: option.splits)

section \<open>Sessions\<close>

lemma local_side_member:
  assumes "l \<in> set ls" "(lep, pep) \<in> set (sides l)"
  shows "(lep, pep) \<in> set (local_sides ls (ep_id lep))"
  using assms by (auto simp: local_sides_def)

lemma node_at_id:
  assumes "distinct (map node_id ns)" "n \<in> set ns" "ep_id e = node_id n"
  shows "node_at ns e = n"
  using index_by_distinct [OF assms(1,2)] assms(3) by (simp add: index_nodes_maps)

lemma side_configured:
  assumes "distinct (map node_id ns)" "build_router_configs ns ls inet = Inr cs"
    and "l \<in> set ls" "(lep, pep) \<in> set (sides l)"
    and "n \<in> set ns" "ep_id lep = node_id n" "is_router (n_spec n)" "is_valid (ep_addr lep)"
    and "m \<in> set ns" "ep_id pep = node_id m" "is_router (n_spec m)" "is_valid (ep_addr pep)"
  shows "\<exists>c. cs (node_id n) = Some c \<and>
     \<lparr>ic_name = ep_iface lep, ic_addr = ep_addr lep, ic_peer = node_name m\<rparr> \<in> set (rc_ifaces c) \<and>
     \<lparr>nc_addr = paddr (ep_addr pep), nc_as = asn (n_spec m), nc_name = node_name m,
       nc_default = (inet \<and> n_role n = RoleExternal \<and> n_role m = RoleDCEdge)\<rparr> \<in> set (rc_neighbors c)"
proof -
  have "(lep, pep) \<in> set (local_sides ls (node_id n))"
    using local_side_member [OF assms(3,4)] assms(6) by simp
  moreover have "node_at ns lep = n" "node_at ns pep = m" using node_at_id assms by auto
  ultimately have
    "\<lparr>ic_name = ep_iface lep, ic_addr = ep_addr lep, ic_peer = node_name m\<rparr> \<in> set (link_ifaces ns ls (node_id n))"
    "\<lparr>nc_addr = paddr (ep_addr pep), nc_as = asn (n_spec m), nc_name = node_name m,
       nc_default = (inet \<and> n_role n = RoleExternal \<and> n_role m = RoleDCEdge)\<rparr> \<in> set (link_neighbors inet ns ls (node_id n))"
    using assms(7,8,11,12) by (force simp: link_ifaces_def link_neighbors_def side_ifaces_def side_neighbors_def)+
  then show ?thesis
    using config_of_node [OF assms(1,2,5,7)] by (simp add: node_config_def)
qed

text \<open>a link between two routers with addresses on both ends configures the session on both of them: each
  has the interface with its own address and the other as a neighbor, with the other's link address and
  AS number, and only an external router originates a default route, towards a DC edge and only in a lab
  with internet access.\<close>

theorem sessions_on_both_sides:
  assumes "distinct (map node_id ns)" "build_router_configs ns ls inet = Inr cs" "l \<in> set ls"
    and "n \<in> set ns" "ep_id (end_a (l_spec l)) = node_id n" "is_router (n_spec n)" "is_valid (ep_addr (end_a (l_spec l)))"
    and "m \<in> set ns" "ep_id (end_b (l_spec l)) = node_id m" "is_router (n_spec m)" "is_valid (ep_addr (end_b (l_spec l)))"
  shows "\<exists>c d. cs (node_id n) = Some c \<and> cs (node_id m) = Some d \<and>
     \<lparr>ic_name = ep_iface (end_a (l_spec l)), ic_addr = ep_addr (end_a (l_spec l)), ic_peer = node_name m\<rparr> \<in> set (rc_ifaces c) \<and>
     \<lparr>ic_name = ep_iface (end_b (l_spec l)), ic_addr = ep_addr (end_b (l_spec l)), ic_peer = node_name n\<rparr> \<in> set (rc_ifaces d) \<and>
     \<lparr>nc_addr = paddr (ep_addr (end_b (l_spec l))), nc_as = asn (n_spec m), nc_name = node_name m,
       nc_default = (inet \<and> n_role n = RoleExternal \<and> n_role m = RoleDCEdge)\<rparr> \<in> set (rc_neighbors c) \<and>
     \<lparr>nc_addr = paddr (ep_addr (end_a (l_spec l))), nc_as = asn (n_spec n), nc_name = node_name n,
       nc_default = (inet \<and> n_role m = RoleExternal \<and> n_role n = RoleDCEdge)\<rparr> \<in> set (rc_neighbors d)"
proof -
  have "(end_a (l_spec l), end_b (l_spec l)) \<in> set (sides l)" "(end_b (l_spec l), end_a (l_spec l)) \<in> set (sides l)"
    by (simp_all add: sides_def)
  from side_configured [OF assms(1-3) this(1) assms(4-11)] side_configured [OF assms(1-3) this(2) assms(8-11) assms(4-7)]
  show ?thesis by blast
qed

lemma wire_configs:
  obtains cs where "build_router_configs wire_nodes wire_links True = Inr cs"
proof -
  have "find (dangling wire_nodes) wire_links = None" by code_simp
  then show ?thesis using frr_total [of wire_nodes wire_links True] that by auto
qed

lemma wire_ids: "distinct (map node_id wire_nodes)" by code_simp

theorem sessions_on_both_sides_witness:
  "\<exists>cs c. build_router_configs wire_nodes wire_links True = Inr cs \<and> cs ''n1'' = Some c \<and>
     \<lparr>nc_addr = V4 0x0A000001, nc_as = 64600, nc_name = ''dcedge-1'', nc_default = True\<rparr> \<in> set (rc_neighbors c)"
proof -
  obtain cs where cs: "build_router_configs wire_nodes wire_links True = Inr cs" by (rule wire_configs)
  let ?l = "wire_fabric ''l1'' wire_ext ''eth1'' wire_edge ''eth1'' 0"
  have l: "?l \<in> set wire_links" "wire_ext \<in> set wire_nodes" "wire_edge \<in> set wire_nodes"
    by (simp_all add: wire_links_def wire_nodes_def)
  have e: "ep_id (end_a (l_spec ?l)) = node_id wire_ext" "ep_id (end_b (l_spec ?l)) = node_id wire_edge"
    "is_router (n_spec wire_ext)" "is_router (n_spec wire_edge)" "is_valid (ep_addr (end_a (l_spec ?l)))" "is_valid (ep_addr (end_b (l_spec ?l)))"
    by code_simp+
  have v: "node_id wire_ext = ''n1''" "paddr (ep_addr (end_b (l_spec ?l))) = V4 0x0A000001" "asn (n_spec wire_edge) = 64600"
    "node_name wire_edge = ''dcedge-1''" "n_role wire_ext = RoleExternal" "n_role wire_edge = RoleDCEdge" by code_simp+
  from sessions_on_both_sides [OF wire_ids cs l(1) l(2) e(1,3,5) l(3) e(2,4,6), unfolded v simp_thms] cs show ?thesis by blast
qed

end
