(* ===== verification/Validate.thy ===== *)
theory Validate
  imports FrrProps "HOL-Library.Monad_Syntax"
begin

text \<open>
  controller/internal/biz/validate.go: the checks after a deployment. The container runtime is a
  parameter: what a command in a container returns, at each poll or attempt; so is the decoding of the
  JSON that vtysh prints. The parallel queries are independent of each other and the node list is the
  order in which they finish.
\<close>

section \<open>Expected sessions\<close>

definition count_link :: "(string \<Rightarrow> nat) \<Rightarrow> link \<Rightarrow> (string \<Rightarrow> nat)" where
  "count_link m l = (if kind (l_spec l) \<noteq> LinkFabric then m
     else bump (bump m (ep_node (end_a (l_spec l)))) (ep_node (end_b (l_spec l))))"

definition servers_per_rack_of :: "node list \<Rightarrow> string \<Rightarrow> nat" where
  "servers_per_rack_of ns = foldl (\<lambda>m n. if n_role n = RoleServer then bump m (rack_id (n_spec n)) else m) (\<lambda>_. 0) ns"

definition count_node :: "(string \<Rightarrow> nat) \<Rightarrow> (string \<Rightarrow> nat) \<Rightarrow> node \<Rightarrow> (string \<Rightarrow> nat)" where
  "count_node per_rack m n = (case n_role n of
     RoleServer \<Rightarrow> m(node_name n := m (node_name n) + length (bgp_peers (n_spec n)))
   | RoleLeaf \<Rightarrow> m(node_name n := m (node_name n) + (1 + per_rack (rack_id (n_spec n))))
   | _ \<Rightarrow> m)"

definition expected_sessions :: "node list \<Rightarrow> link list \<Rightarrow> string \<Rightarrow> nat" where
  "expected_sessions ns ls = foldl (count_node (servers_per_rack_of ns)) (foldl count_link (\<lambda>_. 0) ls) ns"

section \<open>Control plane\<close>

datatype exec_error = ErrNotSupported | ErrUnavailable | ErrOther string

type_synonym exec_fun = "string \<Rightarrow> string list \<Rightarrow> exec_error + string"
type_synonym summary = "(string \<times> string) list"

text \<open>Skipping what vtysh prints before the JSON body.\<close>

definition skip_to_body :: "string \<Rightarrow> string" where
  "skip_to_body out = (let r = dropWhile (\<lambda>c. c \<noteq> CHR ''{'') out in if r = [] then out else r)"

definition established :: "summary \<Rightarrow> nat" where
  "established ps = length (filter (\<lambda>(_, st). st = ''Established'') ps)"

definition query_node :: "exec_fun \<Rightarrow> (string \<Rightarrow> string + summary) \<Rightarrow> nat \<Rightarrow> node \<Rightarrow> exec_error + string option" where
  "query_node exec unmarshal want n =
    (case exec (node_name n) [''vtysh'', ''-c'', ''show bgp summary json''] of
       Inl (ErrOther m) \<Rightarrow> Inr (Some (node_name n @ '': '' @ m))
     | Inl e \<Rightarrow> Inl e
     | Inr out \<Rightarrow> (case unmarshal (skip_to_body out) of
         Inl m \<Rightarrow> Inr (Some (node_name n @ '': bad bgp summary: '' @ m))
       | Inr ps \<Rightarrow> Inr (if established ps < want
           then Some (node_name n @ '': '' @ show_nat (established ps) @ ''/'' @ show_nat want @ '' established'') else None)))"

definition queried :: "(string \<Rightarrow> nat) \<Rightarrow> node list \<Rightarrow> node list" where
  "queried expected ns = filter (\<lambda>n. is_router (n_spec n) \<and> expected (node_name n) \<noteq> 0) ns"

definition bgp_unconverged :: "exec_fun \<Rightarrow> (string \<Rightarrow> string + summary) \<Rightarrow> (string \<Rightarrow> nat) \<Rightarrow> node list \<Rightarrow> exec_error + string list" where
  "bgp_unconverged exec unmarshal expected ns =
    ebind (efold (\<lambda>pending n. ebind (query_node exec unmarshal (expected (node_name n)) n)
             (\<lambda>m. Inr (case m of None \<Rightarrow> pending | Some x \<Rightarrow> pending @ [x]))) [] (queried expected ns))
      (\<lambda>pending. Inr (sort pending))"

datatype control_error = RuntimeDown | NotConverged "string list" | ContextDone

text \<open>What one poll decides: the end of the validation, or what is pending and the progress reported, as
  the fraction of converged routers.\<close>

datatype poll_step = PollEnd "control_error option" | PollAgain "string list" "(nat \<times> nat) option"

definition poll_once :: "exec_error + string list \<Rightarrow> nat \<Rightarrow> poll_step" where
  "poll_once r routers = (case r of
     Inl ErrNotSupported \<Rightarrow> PollEnd None
   | Inl ErrUnavailable \<Rightarrow> PollEnd (Some RuntimeDown)
   | Inl (ErrOther m) \<Rightarrow> PollAgain [m] None
   | Inr pending \<Rightarrow> (if pending = [] then PollEnd None
       else PollAgain pending (if 0 < routers then Some (routers - length pending, routers) else None)))"

partial_function (option) control_loop :: "(nat \<Rightarrow> exec_error + string list) \<Rightarrow> (nat \<Rightarrow> bool) \<Rightarrow> (nat \<Rightarrow> bool) \<Rightarrow> nat \<Rightarrow> nat
    \<Rightarrow> (nat \<times> nat) list \<Rightarrow> (control_error option \<times> (nat \<times> nat) list) option" where
  "control_loop poll expired cancelled routers k reports =
    (case poll_once (poll k) routers of
       PollEnd r \<Rightarrow> Some (r, reports)
     | PollAgain pending rep \<Rightarrow> (let reports' = reports @ (case rep of None \<Rightarrow> [] | Some x \<Rightarrow> [x]) in
         if expired k then Some (Some (NotConverged pending), reports')
         else if cancelled k then Some (Some ContextDone, reports')
         else control_loop poll expired cancelled routers (k + 1) reports'))"

definition validate_control_plane :: "(nat \<Rightarrow> exec_fun) \<Rightarrow> (string \<Rightarrow> string + summary) \<Rightarrow> (nat \<Rightarrow> bool) \<Rightarrow> (nat \<Rightarrow> bool)
    \<Rightarrow> node list \<Rightarrow> link list \<Rightarrow> (control_error option \<times> (nat \<times> nat) list) option" where
  "validate_control_plane exec unmarshal expired cancelled ns ls =
    (let expected = expected_sessions ns ls in
     control_loop (\<lambda>k. bgp_unconverged (exec k) unmarshal expected ns) expired cancelled
       (length (queried expected ns)) 0 [])"

section \<open>Data plane\<close>

datatype data_error = PingNotSupported | PingDown string string string | PingFailed string string string exec_error | PingDone

definition data_plane_attempts :: nat where "data_plane_attempts = 3"

definition ping_command :: "string \<Rightarrow> string list" where
  "ping_command a = [''ping'', ''-c'', ''2'', ''-i'', ''0.2'', ''-W'', ''2'', a]"

text \<open>The attempts left at one target and the error of the last one; the parameters are what each attempt
  returns and whether the context ended in the wait after it.\<close>

fun ping_attempts :: "(nat \<Rightarrow> exec_error option) \<Rightarrow> (nat \<Rightarrow> bool) \<Rightarrow> string \<Rightarrow> string \<times> string \<Rightarrow> nat \<Rightarrow> nat \<Rightarrow> exec_error option
    \<Rightarrow> data_error option" where
  "ping_attempts reply cancelled src t i 0 last_err =
     (case last_err of None \<Rightarrow> None | Some e \<Rightarrow> Some (PingFailed src (fst t) (snd t) e))"
| "ping_attempts reply cancelled src t i (Suc k) last_err =
     (case reply i of
        None \<Rightarrow> None
      | Some ErrNotSupported \<Rightarrow> Some PingNotSupported
      | Some ErrUnavailable \<Rightarrow> Some (PingDown src (fst t) (snd t))
      | Some (ErrOther m) \<Rightarrow> (if cancelled i then Some PingDone
                             else ping_attempts reply cancelled src t (i + 1) k (Some (ErrOther m))))"

definition ping_targets_of :: "node \<Rightarrow> node \<Rightarrow> (string \<times> string) list" where
  "ping_targets_of src dst =
    (if default_gateway (n_spec src) \<noteq> NoAddr then [(''virtual gateway'', show_addr (default_gateway (n_spec src)))] else []) @
    [(node_name dst, show_addr (paddr (address (n_spec dst))))]"

definition exec_reply :: "exec_error + string \<Rightarrow> exec_error option" where
  "exec_reply r = (case r of Inl e \<Rightarrow> Some e | Inr _ \<Rightarrow> None)"

fun first_some :: "('a \<Rightarrow> 'b option) \<Rightarrow> 'a list \<Rightarrow> 'b option" where
  "first_some f [] = None"
| "first_some f (x # xs) = (case f x of None \<Rightarrow> first_some f xs | Some y \<Rightarrow> Some y)"

definition ping_targets :: "(nat \<Rightarrow> exec_fun) \<Rightarrow> (nat \<Rightarrow> bool) \<Rightarrow> node \<times> node \<Rightarrow> data_error option" where
  "ping_targets exec cancelled sd = (let (src, dst) = sd in
    first_some (\<lambda>t. ping_attempts (\<lambda>i. exec_reply (exec i (node_name src) (ping_command (snd t)))) cancelled
       (node_name src) t 0 data_plane_attempts None) (ping_targets_of src dst))"

text \<open>Each server pings the next one by name, the last one the first.\<close>

definition ping_servers :: "node list \<Rightarrow> node list" where
  "ping_servers ns = sort_key node_name (filter (\<lambda>n. n_role n = RoleServer \<and> is_valid (address (n_spec n))) ns)"

definition ping_ring :: "node list \<Rightarrow> (node \<times> node) list" where
  "ping_ring srvs = map (\<lambda>i. (srvs ! i, srvs ! ((i + 1) mod length srvs))) [0..<length srvs]"

definition validate_data_plane :: "(nat \<Rightarrow> exec_fun) \<Rightarrow> (nat \<Rightarrow> bool) \<Rightarrow> node list \<Rightarrow> data_error option" where
  "validate_data_plane exec cancelled ns = (let srvs = ping_servers ns in
    if length srvs < 2 then None
    else (case first_some (ping_targets exec cancelled) (ping_ring srvs) of
            Some PingNotSupported \<Rightarrow> None
          | r \<Rightarrow> r))"

end
