(* ===== verification/ValidateProps.thy ===== *)
theory ValidateProps
  imports Validate
begin

text \<open>
  The session count the validation waits for is the number of neighbors that the derived FRR
  configurations have, the polling ends, and a passed check means what it should.
\<close>

section \<open>Counting sessions\<close>

definition fabric_ends :: "link list \<Rightarrow> endpoint list" where
  "fabric_ends ls = concat (map ends (filter (\<lambda>l. kind (l_spec l) = LinkFabric) ls))"

lemma fabric_ends_simps [simp]:
  "fabric_ends [] = []"
  "fabric_ends (l # ls) = (if kind (l_spec l) = LinkFabric then ends l @ fabric_ends ls else fabric_ends ls)"
  by (simp_all add: fabric_ends_def)

lemma count_links: "foldl count_link m ls x = m x + length (filter (\<lambda>e. ep_node e = x) (fabric_ends ls))"
  by (induction ls arbitrary: m) (auto simp: count_link_def bump_def ends_def)

definition own_sessions :: "(string \<Rightarrow> nat) \<Rightarrow> node \<Rightarrow> nat" where
  "own_sessions per_rack n = (case n_role n of RoleServer \<Rightarrow> length (bgp_peers (n_spec n))
     | RoleLeaf \<Rightarrow> 1 + per_rack (rack_id (n_spec n)) | _ \<Rightarrow> 0)"

lemma count_nodes:
  "foldl (count_node pr) m ns x = m x + sum_list (map (own_sessions pr) (filter (\<lambda>n. node_name n = x) ns))"
  by (induction ns arbitrary: m) (auto simp: count_node_def own_sessions_def split: node_role.splits)

lemma servers_per_rack_count:
  "servers_per_rack_of ns r = length (filter (\<lambda>n. n_role n = RoleServer \<and> rack_id (n_spec n) = r) ns)"
  by (induction ns rule: rev_induct) (auto simp: servers_per_rack_of_def bump_def)

lemma expected_of_node:
  assumes "distinct (map node_name ns)" "n \<in> set ns"
  shows "expected_sessions ns ls (node_name n) =
    length (filter (\<lambda>e. ep_node e = node_name n) (fabric_ends ls)) + own_sessions (servers_per_rack_of ns) n"
  by (simp add: expected_sessions_def count_nodes count_links filter_key [OF assms])

text \<open>What the count relies on: unique IDs and names, routers everywhere, link ends that name their node, and
  addresses on the fabric links only; a leaf is a switch with a gateway VLAN and a known peer.\<close>

definition link_fits :: "node list \<Rightarrow> link \<Rightarrow> bool" where
  "link_fits ns l \<longleftrightarrow> list_all (\<lambda>e. list_ex (\<lambda>n. node_id n = ep_id e \<and> node_name n = ep_node e) ns \<and>
     (is_valid (ep_addr e) \<longleftrightarrow> kind (l_spec l) = LinkFabric)) (ends l)"

definition node_fits :: "node list \<Rightarrow> node \<Rightarrow> bool" where
  "node_fits ns n \<longleftrightarrow> is_router (n_spec n) \<and>
     (n_role n = RoleLeaf \<longrightarrow> n_vlan_id (n_spec n) \<noteq> 0 \<and> mlag_peer (n_spec n) \<in> set (map node_name ns)) \<and>
     (n_role n \<noteq> RoleLeaf \<and> n_role n \<noteq> RoleServer \<longrightarrow> n_vlan_id (n_spec n) = 0)"

definition fabric_fits :: "node list \<Rightarrow> link list \<Rightarrow> bool" where
  "fabric_fits ns ls \<longleftrightarrow> distinct (map node_id ns) \<and> distinct (map node_name ns) \<and>
     list_all (node_fits ns) ns \<and> list_all (link_fits ns) ls"

lemma same_node:
  assumes "distinct (map node_id ns)" "distinct (map node_name ns)" "n \<in> set ns" "m \<in> set ns"
  shows "node_id m = node_id n \<longleftrightarrow> node_name m = node_name n"
  using assms by (auto simp: distinct_map dest: inj_onD)

lemma end_names:
  assumes "fabric_fits ns ls" "l \<in> set ls" "e \<in> set (ends l)" "n \<in> set ns"
  shows "ep_id e = node_id n \<longleftrightarrow> ep_node e = node_name n"
    "is_router (n_spec (node_at ns e))" "is_valid (ep_addr e) \<longleftrightarrow> kind (l_spec l) = LinkFabric"
proof -
  have "link_fits ns l" using assms(1,2) by (simp add: fabric_fits_def list_all_iff)
  then have v: "is_valid (ep_addr e) \<longleftrightarrow> kind (l_spec l) = LinkFabric"
    and "\<exists>m \<in> set ns. node_id m = ep_id e \<and> node_name m = ep_node e"
    using assms(3) by (auto simp: link_fits_def list_all_iff list_ex_iff)
  then obtain m where m: "m \<in> set ns" "node_id m = ep_id e" "node_name m = ep_node e" by blast
  have d: "distinct (map node_id ns)" "distinct (map node_name ns)" "node_fits ns m"
    using assms(1) m(1) by (auto simp: fabric_fits_def list_all_iff)
  show "ep_id e = node_id n \<longleftrightarrow> ep_node e = node_name n" using same_node [OF d(1,2) assms(4) m(1)] m by simp
  have "node_at ns e = m" using node_at_id [OF d(1) m(1)] m(2) by simp
  then show "is_router (n_spec (node_at ns e))" using d(3) by (simp add: node_fits_def)
  show "is_valid (ep_addr e) \<longleftrightarrow> kind (l_spec l) = LinkFabric" by (rule v)
qed

lemma link_neighbor_count:
  assumes "fabric_fits ns ks" "n \<in> set ns" "set ls \<subseteq> set ks"
  shows "length (link_neighbors inet ns ls (node_id n)) = length (filter (\<lambda>e. ep_node e = node_name n) (fabric_ends ls))"
  using assms(3)
proof (induction ls)
  case (Cons l ls)
  then have l: "l \<in> set ks" by simp
  have "length (link_neighbors inet ns [l] (node_id n)) = length (filter (\<lambda>e. ep_node e = node_name n) (fabric_ends [l]))"
    using end_names [OF assms(1) l _ assms(2), of "end_a (l_spec l)"] end_names [OF assms(1) l _ assms(2), of "end_b (l_spec l)"]
    by (auto simp: link_neighbors_def local_sides_def sides_def side_neighbors_def ends_def)
  with Cons show ?case using links_append(2) [of inet ns "[l]" ls "node_id n"] by simp
qed simp

lemma base_neighbor_count:
  assumes "node_fits ns n"
  shows "length (rc_neighbors (base_config (index_nodes ns) n)) + (if n_role n = RoleLeaf then servers_per_rack_of ns (rack_id (n_spec n)) else 0)
    = own_sessions (servers_per_rack_of ns) n"
proof (cases "n_role n")
  case RoleLeaf
  then obtain p where "index_by node_name ns (mlag_peer (n_spec n)) = Some p"
    using assms index_by_None [of node_name ns "mlag_peer (n_spec n)"] by (auto simp: node_fits_def)
  then show ?thesis using RoleLeaf assms
    by (simp add: base_config_def switch_config_def Let_def own_sessions_def node_fits_def index_nodes_maps)
next
  case RoleServer
  then show ?thesis by (simp add: base_config_def server_config_def Let_def own_sessions_def)
qed (use assms in \<open>simp_all add: base_config_def switch_config_def Let_def own_sessions_def node_fits_def\<close>)

text \<open>C4: the number of sessions the control-plane validation expects at a node is the number of neighbors in
  its FRR configuration, plus for a leaf one for each server of its rack (they come in through the listen
  range).\<close>

theorem expected_sessions_are_configured:
  assumes "fabric_fits ns ls" "build_router_configs ns ls inet = Inr cs" "n \<in> set ns" "cs (node_id n) = Some c"
  shows "expected_sessions ns ls (node_name n) = length (rc_neighbors c) +
    (if n_role n = RoleLeaf then length (filter (\<lambda>m. n_role m = RoleServer \<and> rack_id (n_spec m) = rack_id (n_spec n)) ns) else 0)"
proof -
  have d: "distinct (map node_id ns)" "distinct (map node_name ns)" "node_fits ns n"
    using assms(1,3) by (auto simp: fabric_fits_def list_all_iff)
  have "c = node_config inet ns ls n"
    using config_of_node [OF d(1) assms(2,3)] d(3) assms(4) by (simp add: node_fits_def)
  then have "length (rc_neighbors c) = length (rc_neighbors (base_config (index_nodes ns) n)) +
      length (link_neighbors inet ns ls (node_id n))" by (simp add: node_config_def)
  then show ?thesis
    using expected_of_node [OF d(2) assms(3), of ls] base_neighbor_count [OF d(3)] link_neighbor_count [OF assms(1,3), of ls]
    by (simp add: servers_per_rack_count split: if_splits)
qed

theorem expected_sessions_are_configured_witness:
  "\<exists>cs c. build_router_configs wire_nodes wire_links True = Inr cs \<and> cs ''n3'' = Some c \<and>
     expected_sessions wire_nodes wire_links ''leaf-a'' = length (rc_neighbors c) + 1"
proof -
  obtain cs where cs: "build_router_configs wire_nodes wire_links True = Inr cs" by (rule wire_configs)
  have n: "wire_leaf_a \<in> set wire_nodes" by (simp add: wire_nodes_def)
  have f: "fabric_fits wire_nodes wire_links" "is_router (n_spec wire_leaf_a)" by code_simp+
  have c: "cs (node_id wire_leaf_a) = Some (node_config True wire_nodes wire_links wire_leaf_a)"
    by (rule config_of_node [OF wire_ids cs n f(2)])
  have v: "node_id wire_leaf_a = ''n3''" "node_name wire_leaf_a = ''leaf-a''" "(n_role wire_leaf_a = RoleLeaf) = True"
    "length (filter (\<lambda>m. n_role m = RoleServer \<and> rack_id (n_spec m) = rack_id (n_spec wire_leaf_a)) wire_nodes) = 1" by code_simp+
  from expected_sessions_are_configured [OF f(1) cs n c] c cs show ?thesis unfolding v if_True by blast
qed

section \<open>The polling\<close>

definition pending_of :: "exec_fun \<Rightarrow> (string \<Rightarrow> string + summary) \<Rightarrow> (string \<Rightarrow> nat) \<Rightarrow> node \<Rightarrow> string option" where
  "pending_of exec um expected n = (case query_node exec um (expected (node_name n)) n of Inr m \<Rightarrow> m | _ \<Rightarrow> None)"

lemma efold_collect:
  assumes "efold (\<lambda>p x. ebind (f x) (\<lambda>m. Inr (case m of None \<Rightarrow> p | Some y \<Rightarrow> p @ [y]))) p xs = Inr q"
  shows "q = p @ List.map_filter (\<lambda>x. case f x of Inr m \<Rightarrow> m | Inl _ \<Rightarrow> None) xs \<and> list_all (\<lambda>x. \<not> isl (f x)) xs"
  using assms by (induction xs arbitrary: p) (fastforce simp: List.map_filter_simps split: option.splits)+

lemma length_map_filter: "length (List.map_filter f xs) \<le> length xs"
  by (induction xs) (auto simp: List.map_filter_simps split: option.splits)

lemma bgp_unconverged_Inr:
  assumes "bgp_unconverged exec um expected ns = Inr pending"
  shows "length pending \<le> length (queried expected ns)"
    "pending = sort (List.map_filter (pending_of exec um expected) (queried expected ns))"
    "list_all (\<lambda>n. \<not> isl (query_node exec um (expected (node_name n)) n)) (queried expected ns)"
  using assms length_map_filter [of "pending_of exec um expected"]
  by (auto simp: bgp_unconverged_def pending_of_def [abs_def] dest!: efold_collect)

lemma efold_Inl: "efold f s xs = Inl e \<Longrightarrow> \<exists>x \<in> set xs. \<exists>t. f t x = Inl e"
  by (induction xs arbitrary: s) (auto simp: ebind_eq_Inl)

lemma query_node_Inl: "query_node exec um w n = Inl e \<Longrightarrow> e = ErrNotSupported \<or> e = ErrUnavailable"
  by (auto simp: query_node_def split: sum.splits exec_error.splits)

lemma bgp_unconverged_Inl: "bgp_unconverged exec um expected ns = Inl e \<Longrightarrow> e = ErrNotSupported \<or> e = ErrUnavailable"
  by (auto simp: bgp_unconverged_def ebind_eq_Inl dest!: efold_Inl query_node_Inl)

lemma map_filter_empty: "List.map_filter f xs = [] \<longleftrightarrow> list_all (\<lambda>x. f x = None) xs"
  by (induction xs) (auto simp: List.map_filter_simps split: option.splits)

lemma query_node_ok:
  "query_node exec um w n = Inr None \<longleftrightarrow>
    (\<exists>out ps. exec (node_name n) [''vtysh'', ''-c'', ''show bgp summary json''] = Inr out \<and> um (skip_to_body out) = Inr ps \<and> w \<le> established ps)"
  by (auto simp: query_node_def split: sum.splits exec_error.splits)

lemma bgp_converged:
  assumes "bgp_unconverged exec um expected ns = Inr []"
  shows "list_all (\<lambda>n. \<exists>out ps. exec (node_name n) [''vtysh'', ''-c'', ''show bgp summary json''] = Inr out \<and>
    um (skip_to_body out) = Inr ps \<and> expected (node_name n) \<le> established ps) (queried expected ns)"
proof -
  note f = bgp_unconverged_Inr(2,3) [OF assms]
  have "List.map_filter (pending_of exec um expected) (queried expected ns) = []"
    using f(1) by (metis length_0_conv length_sort)
  then have "list_all (\<lambda>n. query_node exec um (expected (node_name n)) n = Inr None) (queried expected ns)"
    using f(2) by (auto simp: map_filter_empty list_all_iff pending_of_def isl_def split: sum.splits) (metis sum.exhaust)
  then show ?thesis by (simp add: query_node_ok)
qed

text \<open>What each end of the loop says of the poll it came from.\<close>

definition poll_verdict :: "(nat \<Rightarrow> exec_error + string list) \<Rightarrow> (nat \<Rightarrow> bool) \<Rightarrow> (nat \<Rightarrow> bool) \<Rightarrow> nat \<Rightarrow> control_error option \<Rightarrow> bool" where
  "poll_verdict poll expired cancelled j r = (case r of
     None \<Rightarrow> poll j = Inr [] \<or> poll j = Inl ErrNotSupported
   | Some RuntimeDown \<Rightarrow> poll j = Inl ErrUnavailable
   | Some (NotConverged ps) \<Rightarrow> expired j \<and> ps \<noteq> [] \<and> (poll j = Inr ps \<or> (\<exists>m. poll j = Inl (ErrOther m) \<and> ps = [m]))
   | Some ContextDone \<Rightarrow> cancelled j)"

definition report_ok :: "(nat \<Rightarrow> exec_error + string list) \<Rightarrow> nat \<Rightarrow> nat \<times> nat \<Rightarrow> bool" where
  "report_ok poll routers x \<longleftrightarrow> (\<exists>i ps. poll i = Inr ps \<and> ps \<noteq> [] \<and> 0 < routers \<and> x = (routers - length ps, routers))"

lemma poll_end_verdict: "poll_once (poll k) routers = PollEnd r \<Longrightarrow> poll_verdict poll expired cancelled k r"
  by (auto simp: poll_once_def poll_verdict_def split: sum.splits exec_error.splits if_splits)

lemma poll_again_facts:
  assumes "poll_once (poll k) routers = PollAgain ps rep"
  shows "expired k \<Longrightarrow> poll_verdict poll expired cancelled k (Some (NotConverged ps))"
    "list_all (report_ok poll routers) (case rep of None \<Rightarrow> [] | Some x \<Rightarrow> [x])"
  using assms by (auto simp: poll_once_def poll_verdict_def report_ok_def split: sum.splits exec_error.splits if_splits) blast

lemma control_loop_ends:
  assumes "expired (k + d)"
  shows "\<exists>j r rs. control_loop poll expired cancelled routers k reports = Some (r, reports @ rs) \<and> j \<le> k + d \<and>
     poll_verdict poll expired cancelled j r \<and> list_all (report_ok poll routers) rs"
  using assms
proof (induction d arbitrary: k reports)
  case 0
  show ?case
  proof (cases "poll_once (poll k) routers")
    case (PollEnd r)
    then show ?thesis using poll_end_verdict [of poll k routers r expired cancelled]
      by (intro exI [of _ k] exI [of _ r] exI [of _ "[]"]) (simp add: control_loop.simps)
  next
    case (PollAgain ps rep)
    then show ?thesis using 0 poll_again_facts(1) [where poll = poll and k = k and expired = expired and cancelled = cancelled, OF PollAgain]
        poll_again_facts(2) [where poll = poll and k = k, OF PollAgain]
      by (intro exI [of _ k] exI [of _ "Some (NotConverged ps)"] exI [of _ "case rep of None \<Rightarrow> [] | Some x \<Rightarrow> [x]"])
         (simp add: control_loop.simps Let_def)
  qed
next
  case (Suc d)
  show ?case
  proof (cases "poll_once (poll k) routers")
    case (PollEnd r)
    then show ?thesis using poll_end_verdict [of poll k routers r expired cancelled]
      by (intro exI [of _ k] exI [of _ r] exI [of _ "[]"]) (simp add: control_loop.simps)
  next
    case (PollAgain ps rep)
    let ?rep = "case rep of None \<Rightarrow> [] | Some x \<Rightarrow> [x]"
    note f = poll_again_facts(1) [where poll = poll and k = k and expired = expired and cancelled = cancelled, OF PollAgain] poll_again_facts(2) [where poll = poll and k = k, OF PollAgain]
    consider "expired k" | "\<not> expired k" "cancelled k" | "\<not> expired k" "\<not> cancelled k" by blast
    then show ?thesis
    proof cases
      case 1
      then show ?thesis using PollAgain f
        by (intro exI [of _ k] exI [of _ "Some (NotConverged ps)"] exI [of _ ?rep]) (simp add: control_loop.simps Let_def)
    next
      case 2
      then show ?thesis using PollAgain f(2)
        by (intro exI [of _ k] exI [of _ "Some ContextDone"] exI [of _ ?rep])
           (simp add: control_loop.simps [of poll expired cancelled routers k] Let_def poll_verdict_def)
    next
      case 3
      have "expired ((k + 1) + d)" using Suc.prems by simp
      from Suc.IH [OF this, of "reports @ ?rep"] obtain j r rs where
        "control_loop poll expired cancelled routers (k + 1) (reports @ ?rep) = Some (r, (reports @ ?rep) @ rs)" "j \<le> k + Suc d"
        "poll_verdict poll expired cancelled j r" "list_all (report_ok poll routers) rs" by fastforce
      then show ?thesis using PollAgain f(2) 3
        by (intro exI [of _ j] exI [of _ r] exI [of _ "?rep @ rs"])
           (simp add: control_loop.simps [of poll expired cancelled routers k] Let_def)
    qed
  qed
qed

text \<open>C7: if the deadline passes at some poll, the control-plane validation returns, and at that poll or an
  earlier one: it accepts only if every router that expects sessions answered with at least that many
  established ones (or the runtime cannot execute commands at all), it reports an unavailable runtime
  only if a query said so, and it gives up only past the deadline with the nodes still pending or because
  its context ended. The progress it reported is always below one.\<close>

theorem control_plane_decides:
  assumes "expired k"
  shows "\<exists>j r reports. validate_control_plane exec um expired cancelled ns ls = Some (r, reports) \<and> j \<le> k \<and>
    (case r of
       None \<Rightarrow> bgp_unconverged (exec j) um (expected_sessions ns ls) ns = Inl ErrNotSupported \<or>
         list_all (\<lambda>n. \<exists>out ps. exec j (node_name n) [''vtysh'', ''-c'', ''show bgp summary json''] = Inr out \<and>
           um (skip_to_body out) = Inr ps \<and> expected_sessions ns ls (node_name n) \<le> established ps)
           (queried (expected_sessions ns ls) ns)
     | Some RuntimeDown \<Rightarrow> bgp_unconverged (exec j) um (expected_sessions ns ls) ns = Inl ErrUnavailable
     | Some (NotConverged ps) \<Rightarrow> expired j \<and> ps \<noteq> [] \<and> bgp_unconverged (exec j) um (expected_sessions ns ls) ns = Inr ps
     | Some ContextDone \<Rightarrow> cancelled j) \<and>
    list_all (\<lambda>(done, total). done < total \<and> total = length (queried (expected_sessions ns ls) ns)) reports"
proof -
  let ?ex = "expected_sessions ns ls"
  let ?poll = "\<lambda>k. bgp_unconverged (exec k) um ?ex ns"
  let ?n = "length (queried ?ex ns)"
  obtain j r rs where j: "control_loop ?poll expired cancelled ?n 0 [] = Some (r, rs)" "j \<le> k"
    "poll_verdict ?poll expired cancelled j r" "list_all (report_ok ?poll ?n) rs"
    using control_loop_ends [where k = 0 and d = k and reports = "[]" and poll = ?poll and expired = expired] assms by fastforce
  have "list_all (\<lambda>(done, total). done < total \<and> total = ?n) rs"
    using j(4) by (auto simp: list_all_iff report_ok_def)
  moreover have "case r of
       None \<Rightarrow> ?poll j = Inl ErrNotSupported \<or>
         list_all (\<lambda>n. \<exists>out ps. exec j (node_name n) [''vtysh'', ''-c'', ''show bgp summary json''] = Inr out \<and>
           um (skip_to_body out) = Inr ps \<and> ?ex (node_name n) \<le> established ps) (queried ?ex ns)
     | Some RuntimeDown \<Rightarrow> ?poll j = Inl ErrUnavailable
     | Some (NotConverged ps) \<Rightarrow> expired j \<and> ps \<noteq> [] \<and> ?poll j = Inr ps
     | Some ContextDone \<Rightarrow> cancelled j"
    using j(3) bgp_converged [of "exec j" um ?ex ns] bgp_unconverged_Inl [of "exec j" um ?ex ns]
    by (auto simp: poll_verdict_def split: option.splits control_error.splits)
  ultimately show ?thesis using j(1,2) by (auto simp: validate_control_plane_def Let_def)
qed

section \<open>The pings\<close>

lemma ping_attempts_ok:
  assumes "ping_attempts reply cancelled src t i k err = None" "k \<noteq> 0 \<or> err \<noteq> None"
  shows "\<exists>j. i \<le> j \<and> j < i + k \<and> reply j = None"
  using assms
proof (induction reply cancelled src t i k err rule: ping_attempts.induct)
  case (2 reply cancelled src t i k err)
  show ?case
  proof (cases "reply i")
    case (Some e)
    then obtain m where "e = ErrOther m" "\<not> cancelled i" "ping_attempts reply cancelled src t (i + 1) k (Some (ErrOther m)) = None"
      using "2.prems"(1) by (cases e) (auto split: if_splits)
    from "2.IH" [OF Some this] show ?thesis by (auto intro: Suc_leD less_SucI)
  qed auto
qed (auto split: option.splits)

lemma ping_attempts_unsupported:
  "ping_attempts reply cancelled src t i k err = Some PingNotSupported \<Longrightarrow> \<exists>j. reply j = Some ErrNotSupported"
  by (induction reply cancelled src t i k err rule: ping_attempts.induct) (auto split: option.splits exec_error.splits if_splits)

lemma first_some_None: "first_some f xs = None \<longleftrightarrow> list_all (\<lambda>x. f x = None) xs"
  by (induction xs) (auto split: option.splits)

lemma first_some_Some: "first_some f xs = Some y \<Longrightarrow> \<exists>x \<in> set xs. f x = Some y"
  by (induction xs) (auto split: option.splits)

lemma exec_reply_None: "exec_reply r = None \<longleftrightarrow> \<not> isl r"
  by (cases r) (simp_all add: exec_reply_def)

lemma ping_targets_unsupported:
  assumes "ping_targets exec cancelled sd = Some PingNotSupported"
  shows "\<exists>i nm cmd. exec i nm cmd = Inl ErrNotSupported"
proof -
  obtain src dst where sd: "sd = (src, dst)" by force
  obtain t where "ping_attempts (\<lambda>i. exec_reply (exec i (node_name src) (ping_command (snd t)))) cancelled
      (node_name src) t 0 data_plane_attempts None = Some PingNotSupported"
    using assms unfolding sd ping_targets_def Let_def prod.case by (blast dest: first_some_Some)
  then obtain j where "exec_reply (exec j (node_name src) (ping_command (snd t))) = Some ErrNotSupported"
    using ping_attempts_unsupported by blast
  then have "exec j (node_name src) (ping_command (snd t)) = Inl ErrNotSupported"
    by (cases "exec j (node_name src) (ping_command (snd t))") (simp_all add: exec_reply_def)
  then show ?thesis by blast
qed

lemma ping_ring_ends: "map fst (ping_ring srvs) = srvs" "map snd (ping_ring srvs) = rotate1 srvs"
proof -
  show "map fst (ping_ring srvs) = srvs" by (simp add: ping_ring_def comp_def map_nth)
  show "map snd (ping_ring srvs) = rotate1 srvs"
    by (rule nth_equalityI) (simp_all add: ping_ring_def nth_rotate1)
qed

text \<open>when the data-plane validation passes on a runtime that executes commands, every server reached its
  virtual gateway and the next server by name within three attempts each, and the targets go round: each
  server is the target of exactly the server before it.\<close>

theorem data_plane_passes:
  assumes "validate_data_plane exec cancelled ns = None" "2 \<le> length (ping_servers ns)"
    and "\<And>i nm cmd. exec i nm cmd \<noteq> Inl ErrNotSupported"
  shows "list_all (\<lambda>(src, dst). list_all (\<lambda>t. list_ex (\<lambda>i. \<not> isl (exec i (node_name src) (ping_command (snd t)))) [0, 1, 2])
      (ping_targets_of src dst)) (ping_ring (ping_servers ns)) \<and>
    map fst (ping_ring (ping_servers ns)) = ping_servers ns \<and> map snd (ping_ring (ping_servers ns)) = rotate1 (ping_servers ns)"
proof -
  have "first_some (ping_targets exec cancelled) (ping_ring (ping_servers ns)) \<noteq> Some PingNotSupported"
    using first_some_Some [of "ping_targets exec cancelled" "ping_ring (ping_servers ns)" PingNotSupported]
      ping_targets_unsupported assms(3) by blast
  then have "first_some (ping_targets exec cancelled) (ping_ring (ping_servers ns)) = None"
    using assms(1,2) by (simp add: validate_data_plane_def Let_def split: option.splits data_error.splits)
  then have all: "list_all (\<lambda>sd. ping_targets exec cancelled sd = None) (ping_ring (ping_servers ns))"
    by (simp add: first_some_None)
  have "list_all (\<lambda>t. list_ex (\<lambda>i. \<not> isl (exec i (node_name src) (ping_command (snd t)))) [0, 1, 2]) (ping_targets_of src dst)"
    if p: "ping_targets exec cancelled (src, dst) = None" for src dst
    unfolding list_all_iff
  proof
    fix t assume "t \<in> set (ping_targets_of src dst)"
    then have "ping_attempts (\<lambda>i. exec_reply (exec i (node_name src) (ping_command (snd t)))) cancelled (node_name src) t 0 3 None = None"
      using p by (simp add: ping_targets_def first_some_None list_all_iff data_plane_attempts_def)
    from ping_attempts_ok [OF this] obtain j where "j \<in> set [0, 1, 2]" "exec_reply (exec j (node_name src) (ping_command (snd t))) = None"
      by (auto simp: eval_nat_numeral less_Suc_eq)
    then show "list_ex (\<lambda>i. \<not> isl (exec i (node_name src) (ping_command (snd t)))) [0, 1, 2]"
      unfolding exec_reply_None list_ex_iff by blast
  qed
  with all have "list_all (\<lambda>(src, dst). list_all (\<lambda>t. list_ex (\<lambda>i. \<not> isl (exec i (node_name src) (ping_command (snd t)))) [0, 1, 2])
      (ping_targets_of src dst)) (ping_ring (ping_servers ns))"
    unfolding list_all_iff by blast
  then show ?thesis by (simp only: ping_ring_ends simp_thms)
qed

text \<open>A runtime in which every command works and every summary has nine established sessions.\<close>

definition good_exec :: "nat \<Rightarrow> exec_fun" where
  "good_exec k nm cmd = Inr []"

definition good_summary :: "string \<Rightarrow> string + summary" where
  "good_summary s = Inr (replicate 9 (''peer'', ''Established''))"

theorem control_plane_decides_witness:
  "\<exists>r reports. validate_control_plane good_exec good_summary (\<lambda>k. k = 2) (\<lambda>_. False) wire_nodes wire_links = Some (r, reports)"
  using control_plane_decides [where expired = "\<lambda>k. k = 2" and k = 2 and exec = good_exec and um = good_summary
      and cancelled = "\<lambda>_. False" and ns = wire_nodes and ls = wire_links] by blast

theorem data_plane_passes_witness:
  "validate_data_plane good_exec (\<lambda>_. False) (wire_nodes @ [wire_server]) = None \<and>
   map snd (ping_ring (ping_servers (wire_nodes @ [wire_server]))) = rotate1 (ping_servers (wire_nodes @ [wire_server]))"
proof -
  have v: "validate_data_plane good_exec (\<lambda>_. False) (wire_nodes @ [wire_server]) = None"
    "2 \<le> length (ping_servers (wire_nodes @ [wire_server]))" by code_simp+
  moreover have "good_exec i nm cmd \<noteq> Inl ErrNotSupported" for i nm cmd by (simp add: good_exec_def)
  ultimately show ?thesis using data_plane_passes by blast
qed

end
