(* ===== verification/Clab.thy ===== *)
theory Clab
  imports Model Maps "HOL-Library.Product_Lexorder"
begin

text \<open>
  controller/internal/compiler/containerlab/containerlab.go: the Containerlab topology compiled from
  the desired topology. The result is the structure the code hands to the YAML library; sorting the
  link definitions is by their two endpoint strings, which are different for different links.
\<close>

record clab_options =
  frr_image :: string
  server_image :: string
  edge_image :: string
  opt_internet :: bool

definition default_options :: clab_options where
  "default_options = \<lparr>frr_image = ''dcnetlab/frr:10.2.1'', server_image = ''dcnetlab/server:10.2.1'',
     edge_image = ''dcnetlab/frr-edge:10.2.1'', opt_internet = False\<rparr>"

text \<open>\<open>nodeagentapi.StartAgentScript\<close> and the command that runs it.\<close>

definition agent_mount :: string where "agent_mount = ''/opt/dcnetlab/bin/node-agent''"
definition cli_mount :: string where "cli_mount = ''/opt/dcnetlab/bin/node-cli''"

definition start_agent_script :: string where
  "start_agent_script = ''mkdir -p /opt/dcnetlab/run && '' @
     ''ln -sf '' @ agent_mount @ '' /usr/local/bin/node-agent && '' @
     ''ln -sf '' @ cli_mount @ '' /usr/local/bin/node-cli && '' @
     ''ln -sf '' @ cli_mount @ '' /usr/local/bin/pkg && '' @
     ''ln -sf '' @ cli_mount @ '' /usr/local/bin/program && '' @
     ''nohup '' @ agent_mount @ '' >>/opt/dcnetlab/run/agent.log 2>&1 &''"

definition start_node_agent :: string where
  "start_node_agent = ''sh -c '' @ [CHR 0x27] @ start_agent_script @ [CHR 0x27]"

definition remove_mgmt_default_route :: string where
  "remove_mgmt_default_route = ''ip route del default dev eth0''"

definition enable_l4_ecmp_hash :: string where
  "enable_l4_ecmp_hash = ''sysctl -qw net.ipv4.fib_multipath_hash_policy=1''"

record node_def =
  nd_kind :: string
  nd_image :: string
  nd_binds :: "string list"
  nd_exec :: "string list"

type_synonym link_def = "string \<times> string"

record clab_topology =
  ct_name :: string
  ct_nodes :: "string \<Rightarrow> node_def option"
  ct_links :: "link_def list"

datatype clab_error = UnsupportedRuntime string runtime_type

section \<open>Port roles\<close>

record port_roles =
  access_ports :: "string \<Rightarrow> string list"
  trunk_ports :: "string \<Rightarrow> string list"
  bond_members :: "string \<Rightarrow> string list"

definition add_ports :: "port_roles \<Rightarrow> link \<Rightarrow> port_roles" where
  "add_ports r l = (let a = end_a (l_spec l); z = end_b (l_spec l) in
    (case kind (l_spec l) of
       LinkServerAccess \<Rightarrow> r\<lparr>access_ports := map_append (access_ports r) (ep_id a) [ep_iface a],
                            bond_members := map_append (bond_members r) (ep_id z) [ep_iface z]\<rparr>
     | LinkMLAGPeer \<Rightarrow> r\<lparr>trunk_ports := map_append (map_append (trunk_ports r) (ep_id a) [ep_iface a]) (ep_id z) [ep_iface z]\<rparr>
     | LinkFabric \<Rightarrow> r))"

definition ports_of :: "link list \<Rightarrow> port_roles" where
  "ports_of ls = foldl add_ports \<lparr>access_ports = (\<lambda>_. []), trunk_ports = (\<lambda>_. []), bond_members = (\<lambda>_. [])\<rparr> ls"

section \<open>Commands\<close>

definition access_port_attach :: "string \<Rightarrow> int \<Rightarrow> string list" where
  "access_port_attach iface vid =
    [''ip link set '' @ iface @ '' master br0'',
     ''bridge vlan add dev '' @ iface @ '' vid '' @ show_int vid @ '' pvid untagged'']"

definition trunk_port_attach :: "string \<Rightarrow> int \<Rightarrow> string list" where
  "trunk_port_attach iface vid =
    [''ip link set '' @ iface @ '' master br0'', ''bridge vlan add dev '' @ iface @ '' vid '' @ show_int vid]"

definition vrrp_exec :: "node_spec \<Rightarrow> string list" where
  "vrrp_exec s = (let mv = ''vrrp4-'' @ show_int (vrrp_group s) @ ''-1'' in
    [''ip link add '' @ mv @ '' link vlan'' @ show_int (n_vlan_id s) @ '' type macvlan mode bridge'',
     ''ip link set dev '' @ mv @ '' address '' @ gateway_mac s,
     ''ip addr add '' @ show_addr (gateway_ip s) @ ''/32 dev '' @ mv,
     ''ip link set dev '' @ mv @ '' up''])"

definition leaf_exec :: "node_spec \<Rightarrow> string list \<Rightarrow> string list \<Rightarrow> string list" where
  "leaf_exec s access trunk = (let vid = n_vlan_id s in
    [remove_mgmt_default_route, ''ip link add br0 type bridge'', ''ip link set br0 type bridge vlan_filtering 1'',
     ''ip link set br0 up''] @
    concat (map (\<lambda>p. access_port_attach p vid) access) @
    concat (map (\<lambda>p. trunk_port_attach p vid) trunk) @
    [''bridge vlan add dev br0 vid '' @ show_int vid @ '' self'',
     ''ip link add link br0 name vlan'' @ show_int vid @ '' type vlan id '' @ show_int vid,
     ''ip link set vlan'' @ show_int vid @ '' up''] @
    (if vrrp_group s \<noteq> 0 \<and> gateway_ip s \<noteq> NoAddr then vrrp_exec s else []))"

definition fabric_supernet :: string where "fabric_supernet = ''10.0.0.0/8''"

definition dcedge_exec :: "node_spec \<Rightarrow> string list" where
  "dcedge_exec s = [remove_mgmt_default_route,
     ''iptables -t nat -A POSTROUTING ! -d '' @ fabric_supernet @ '' ! -o eth0 -j SNAT --to-source '' @ show_addr (paddr (loopback s))]"

definition bond_attach :: "string \<Rightarrow> string list" where
  "bond_attach p = [''ip link set '' @ p @ '' down'', ''ip link set '' @ p @ '' master bond0'']"

definition server_exec :: "node_spec \<Rightarrow> string list \<Rightarrow> string list" where
  "server_exec s members =
    [''ip link add bond0 type bond mode active-backup miimon 100''] @ concat (map bond_attach members) @
    [''ip link set bond0 up''] @
    (if default_gateway s \<noteq> NoAddr
     then [''ip route replace default via '' @ show_addr (default_gateway s) @ '' dev bond0 onlink''] else [])"

section \<open>The topology\<close>

definition node_def_of :: "clab_options \<Rightarrow> port_roles \<Rightarrow> node \<Rightarrow> node_def" where
  "node_def_of opts r n = (let s = n_spec n; nm = node_name n; i = node_id n;
      (img, ex) = (if role s = RoleServer then (server_image opts, server_exec s (bond_members r i) @ [start_node_agent])
        else if n_vlan_id s \<noteq> 0 then (frr_image opts, leaf_exec s (access_ports r i) (trunk_ports r i))
        else if role s = RoleDCEdge \<and> opt_internet opts then (edge_image opts, dcedge_exec s)
        else if role s = RoleExternal \<and> opt_internet opts then (edge_image opts, [remove_mgmt_default_route])
        else (frr_image opts, [remove_mgmt_default_route]))
    in \<lparr>nd_kind = ''linux'', nd_image = img,
        nd_binds = [''configs/'' @ nm @ ''/daemons:/etc/frr/daemons'', ''configs/'' @ nm @ ''/frr.conf:/etc/frr/frr.conf'',
                    ''configs/'' @ nm @ ''/vtysh.conf:/etc/frr/vtysh.conf''],
        nd_exec = (if role s \<noteq> RoleServer then enable_l4_ecmp_hash # ex else ex)\<rparr>)"

definition add_def :: "clab_options \<Rightarrow> port_roles \<Rightarrow> (string \<Rightarrow> node_def option) \<Rightarrow> node \<Rightarrow> clab_error + (string \<Rightarrow> node_def option)" where
  "add_def opts r defs n =
    (if \<not> is_router (n_spec n) then Inl (UnsupportedRuntime (node_name n) (runtime_type (n_spec n)))
     else Inr (defs(node_name n \<mapsto> node_def_of opts r n)))"

definition link_def_of :: "link \<Rightarrow> link_def" where
  "link_def_of l = (ep_node (end_a (l_spec l)) @ '':'' @ ep_iface (end_a (l_spec l)),
                    ep_node (end_b (l_spec l)) @ '':'' @ ep_iface (end_b (l_spec l)))"

definition clab_compile :: "string \<Rightarrow> node list \<Rightarrow> link list \<Rightarrow> clab_options \<Rightarrow> clab_error + clab_topology" where
  "clab_compile lab ns ls opts =
    ebind (efold (add_def opts (ports_of ls)) Map.empty ns) (\<lambda>defs.
      Inr \<lparr>ct_name = lab, ct_nodes = defs, ct_links = sort (map link_def_of ls)\<rparr>)"

end
