(* ===== verification/ClabProps.thy ===== *)
theory ClabProps
  imports Clab WireDemo
begin

text \<open>
  The compiled Containerlab topology: when the compilation fails, and that the commands of a switch
  bring up every access port, which is what the incremental deployment relies on when it attaches a
  port to a running switch instead.
\<close>

lemma clab_cases:
  "clab_compile lab ns ls opts = (case find (\<lambda>n. \<not> is_router (n_spec n)) ns of
     Some n \<Rightarrow> Inl (UnsupportedRuntime (node_name n) (runtime_type (n_spec n)))
   | None \<Rightarrow> Inr \<lparr>ct_name = lab, ct_nodes = (\<lambda>k. map_option (node_def_of opts (ports_of ls)) (index_by node_name ns k)),
       ct_links = sort (map link_def_of ls)\<rparr>)"
  by (simp add: clab_compile_def efold_find [where f = "add_def opts (ports_of ls)" and bad = "\<lambda>n. \<not> is_router (n_spec n)"
      and err = "\<lambda>n. UnsupportedRuntime (node_name n) (runtime_type (n_spec n))", OF add_def_def] index_by_map [abs_def]
    split: option.splits)

lemma access_ports_of:
  "access_ports (ports_of ls) i =
     map (\<lambda>l. ep_iface (end_a (l_spec l))) (filter (\<lambda>l. kind (l_spec l) = LinkServerAccess \<and> ep_id (end_a (l_spec l)) = i) ls)"
  by (induction ls rule: rev_induct) (auto simp: ports_of_def add_ports_def Let_def split: link_kind.splits)

lemma bond_members_of:
  "bond_members (ports_of ls) i =
     map (\<lambda>l. ep_iface (end_b (l_spec l))) (filter (\<lambda>l. kind (l_spec l) = LinkServerAccess \<and> ep_id (end_b (l_spec l)) = i) ls)"
  by (induction ls rule: rev_induct) (auto simp: ports_of_def add_ports_def Let_def split: link_kind.splits)

definition runs_within :: "string list \<Rightarrow> string list \<Rightarrow> bool" where
  "runs_within cmds ex \<longleftrightarrow> (\<exists>pre post. ex = pre @ cmds @ post)"

lemma runs_within_concat: "x \<in> set xs \<Longrightarrow> runs_within (f x) (a @ concat (map f xs) @ b)"
proof -
  assume "x \<in> set xs"
  then obtain us vs where "xs = us @ x # vs" by (blast dest: split_list)
  then have "a @ concat (map f xs) @ b = (a @ concat (map f us)) @ f x @ (concat (map f vs) @ b)" by simp
  then show ?thesis unfolding runs_within_def by blast
qed

text \<open>a compiled switch runs, in one block, the commands that attach each of its server access ports to the
  bridge, and the server at the other end those that put its interface into the bond.\<close>

theorem access_links_are_attached:
  assumes "clab_compile lab ns ls opts = Inr t" "distinct (map node_name ns)"
    and "l \<in> set ls" "kind (l_spec l) = LinkServerAccess"
    and "n \<in> set ns" "node_id n = ep_id (end_a (l_spec l))" "n_role n \<noteq> RoleServer" "n_vlan_id (n_spec n) \<noteq> 0"
    and "m \<in> set ns" "node_id m = ep_id (end_b (l_spec l))" "n_role m = RoleServer"
  shows "\<exists>d e. ct_nodes t (node_name n) = Some d \<and> ct_nodes t (node_name m) = Some e \<and>
    runs_within (access_port_attach (ep_iface (end_a (l_spec l))) (n_vlan_id (n_spec n))) (nd_exec d) \<and>
    runs_within (bond_attach (ep_iface (end_b (l_spec l)))) (nd_exec e)"
proof -
  have t: "ct_nodes t = (\<lambda>k. map_option (node_def_of opts (ports_of ls)) (index_by node_name ns k))"
    using assms(1) by (auto simp: clab_cases split: option.splits)
  have "ct_nodes t (node_name n) = Some (node_def_of opts (ports_of ls) n)" "ct_nodes t (node_name m) = Some (node_def_of opts (ports_of ls) m)"
    using index_by_distinct [OF assms(2)] assms(5,9) by (simp_all add: t)
  moreover have "runs_within (access_port_attach (ep_iface (end_a (l_spec l))) (n_vlan_id (n_spec n))) (nd_exec (node_def_of opts (ports_of ls) n))"
  proof -
    let ?f = "\<lambda>p. access_port_attach p (n_vlan_id (n_spec n))"
    have p: "ep_iface (end_a (l_spec l)) \<in> set (access_ports (ports_of ls) (node_id n))"
      using assms(3,4,6) by (auto simp: access_ports_of)
    obtain a b where "nd_exec (node_def_of opts (ports_of ls) n) = a @ concat (map ?f (access_ports (ports_of ls) (node_id n))) @ b"
    proof (rule that)
      show "nd_exec (node_def_of opts (ports_of ls) n) = [enable_l4_ecmp_hash, remove_mgmt_default_route, ''ip link add br0 type bridge'',
          ''ip link set br0 type bridge vlan_filtering 1'', ''ip link set br0 up''] @ concat (map ?f (access_ports (ports_of ls) (node_id n))) @
        drop 4 (leaf_exec (n_spec n) [] (trunk_ports (ports_of ls) (node_id n)))"
        using assms(7,8) by (simp add: node_def_of_def Let_def leaf_exec_def)
    qed
    then show ?thesis using runs_within_concat [OF p, of ?f a b] by simp
  qed
  moreover have "runs_within (bond_attach (ep_iface (end_b (l_spec l)))) (nd_exec (node_def_of opts (ports_of ls) m))"
  proof -
    have p: "ep_iface (end_b (l_spec l)) \<in> set (bond_members (ports_of ls) (node_id m))"
      using assms(3,4,10) by (auto simp: bond_members_of)
    obtain a b where "nd_exec (node_def_of opts (ports_of ls) m) = a @ concat (map bond_attach (bond_members (ports_of ls) (node_id m))) @ b"
    proof (rule that)
      show "nd_exec (node_def_of opts (ports_of ls) m) = [''ip link add bond0 type bond mode active-backup miimon 100''] @
        concat (map bond_attach (bond_members (ports_of ls) (node_id m))) @ (drop 1 (server_exec (n_spec m) []) @ [start_node_agent])"
        using assms(11) by (simp add: node_def_of_def Let_def server_exec_def)
    qed
    then show ?thesis using runs_within_concat [OF p, of bond_attach a b] by simp
  qed
  ultimately show ?thesis by blast
qed

theorem access_links_are_attached_witness:
  "\<exists>t d. clab_compile ''lab'' wire_nodes wire_links default_options = Inr t \<and> ct_nodes t ''leaf-a'' = Some d \<and>
     runs_within (access_port_attach ''eth3'' 10) (nd_exec d)"
proof -
  have "find (\<lambda>n. \<not> is_router (n_spec n)) wire_nodes = None" by code_simp
  then obtain t where t: "clab_compile ''lab'' wire_nodes wire_links default_options = Inr t" by (simp add: clab_cases)
  let ?l = "wire_l2 ''l5'' LinkServerAccess wire_leaf_a ''eth3'' wire_server ''eth1''"
  have m: "?l \<in> set wire_links" "wire_leaf_a \<in> set wire_nodes" "wire_server \<in> set wire_nodes"
    by (simp_all add: wire_links_def wire_nodes_def)
  have d: "distinct (map node_name wire_nodes)" "kind (l_spec ?l) = LinkServerAccess" "node_id wire_leaf_a = ep_id (end_a (l_spec ?l))"
    "n_role wire_leaf_a \<noteq> RoleServer" "n_vlan_id (n_spec wire_leaf_a) \<noteq> 0" "node_id wire_server = ep_id (end_b (l_spec ?l))"
    "n_role wire_server = RoleServer" by code_simp+
  have v: "node_name wire_leaf_a = ''leaf-a''" "ep_iface (end_a (l_spec ?l)) = ''eth3''" "n_vlan_id (n_spec wire_leaf_a) = 10" by code_simp+
  from access_links_are_attached [OF t d(1) m(1) d(2) m(2) d(3-5) m(3) d(6,7), unfolded v] t show ?thesis by blast
qed

end
