(* ===== verification/Paths.thy ===== *)
theory Paths
  imports Prelude "HOL-Library.Sublist"
begin

text \<open>
  The lexical functions of path/filepath (on unix) that the program uses: Clean, Join, Dir, IsLocal. A path
  is cleaned over the stack of its elements, the innermost first.
\<close>

definition slash :: char where "slash = CHR ''/''"

fun split_slash :: "string \<Rightarrow> string list" where
  "split_slash [] = [[]]"
| "split_slash (c # s) = (if c = CHR ''/'' then [] # split_slash s
     else (case split_slash s of [] \<Rightarrow> [[c]] | e # es \<Rightarrow> (c # e) # es))"

definition clean_step :: "bool \<Rightarrow> string list \<Rightarrow> string \<Rightarrow> string list" where
  "clean_step rooted st e =
    (if e = [] \<or> e = ''.'' then st
     else if e \<noteq> ''..'' then e # st
     else (case st of [] \<Rightarrow> if rooted then [] else [''..'']
           | x # xs \<Rightarrow> if x = ''..'' then ''..'' # st else xs))"

definition is_rooted :: "string \<Rightarrow> bool" where
  "is_rooted p \<longleftrightarrow> take 1 p = ''/''"

definition elements :: "string \<Rightarrow> string list" where
  "elements p = rev (foldl (clean_step (is_rooted p)) [] (split_slash p))"

definition path_text :: "bool \<Rightarrow> string list \<Rightarrow> string" where
  "path_text rooted es = (if rooted then ''/'' @ join ''/'' es else if es = [] then ''.'' else join ''/'' es)"

definition path_clean :: "string \<Rightarrow> string" where
  "path_clean p = path_text (is_rooted p) (elements p)"

definition path_join :: "string list \<Rightarrow> string" where
  "path_join es = (case dropWhile (\<lambda>e. e = []) es of [] \<Rightarrow> [] | r \<Rightarrow> path_clean (join ''/'' r))"

definition path_dir :: "string \<Rightarrow> string" where
  "path_dir p = path_clean (rev (dropWhile (\<lambda>c. c \<noteq> CHR ''/'') (rev p)))"

definition is_local :: "string \<Rightarrow> bool" where
  "is_local p \<longleftrightarrow> p \<noteq> [] \<and> \<not> is_rooted p \<and>
    (let q = (if list_ex (\<lambda>e. e = ''.'' \<or> e = ''..'') (split_slash p) then path_clean p else p)
     in q \<noteq> ''..'' \<and> take 3 q \<noteq> ''../'')"

section \<open>Cleaning a joined path\<close>

lemma split_slash_ne [simp]: "split_slash s \<noteq> []"
  by (induction s) (auto split: list.splits)

lemma split_slash_append: "split_slash (a @ ''/'' @ b) = split_slash a @ split_slash b"
proof (induction a)
  case (Cons c a)
  then show ?case by (cases "split_slash a") auto
qed simp

lemmas split_slash_Cons = split_slash_append [simplified]

lemma is_rooted_append [simp]: "a \<noteq> [] \<Longrightarrow> is_rooted (a @ b) = is_rooted a"
  by (cases a) (simp_all add: is_rooted_def)

text \<open>The elements left on the stack are never empty or a single dot, and the double dots are at its bottom.\<close>

definition stack_shape :: "string list \<Rightarrow> bool" where
  "stack_shape st \<longleftrightarrow> (\<exists>k xs. st = xs @ replicate k ''..'' \<and> ''..'' \<notin> set xs)"

lemma stack_shape_step: "stack_shape st \<Longrightarrow> stack_shape (clean_step r st e)"
proof -
  assume "stack_shape st"
  then obtain k xs where s: "st = xs @ replicate k ''..''" "''..'' \<notin> set xs" by (auto simp: stack_shape_def)
  consider "e = [] \<or> e = ''.''" | "e \<noteq> []" "e \<noteq> ''.''" "e \<noteq> ''..''" | "e = ''..''" by blast
  then show ?thesis
  proof cases
    case 1
    then show ?thesis using \<open>stack_shape st\<close> by (simp add: clean_step_def)
  next
    case 2
    then show ?thesis using s by (auto simp: stack_shape_def clean_step_def intro!: exI [of _ k] exI [of _ "e # xs"])
  next
    case 3
    show ?thesis
    proof (cases xs)
      case Nil
      then have "\<exists>j. clean_step r st e = replicate j ''..''"
        using s(1) 3 by (cases k) (auto simp: clean_step_def intro: exI [of _ 0] exI [of _ 1] exI [of _ "Suc k"])
      then show ?thesis by (force simp: stack_shape_def)
    next
      case (Cons y ys)
      then have "clean_step r st e = ys @ replicate k ''..''" using s 3 by (auto simp: clean_step_def)
      then show ?thesis using s(2) Cons by (auto simp: stack_shape_def)
    qed
  qed
qed

lemma stack_shape_all: "stack_shape (foldl (clean_step r) [] es)"
proof (rule foldl_keeps)
  show "stack_shape []" by (simp add: stack_shape_def)
qed (rule stack_shape_step)

lemma step_onto:
  assumes "''..'' \<notin> set (clean_step False t e)"
  shows "''..'' \<notin> set t" "clean_step r (t @ S) e = clean_step False t e @ S"
  using assms by (cases t; auto simp: clean_step_def split: if_splits)+

lemma clean_onto:
  "''..'' \<notin> set (foldl (clean_step False) [] es) \<Longrightarrow> foldl (clean_step r) S es = foldl (clean_step False) [] es @ S"
proof (induction es rule: rev_induct)
  case (snoc e es)
  then have "''..'' \<notin> set (clean_step False (foldl (clean_step False) [] es) e)" by simp
  note step_onto [OF this]
  then show ?case using snoc.IH by simp
qed simp

lemma join_Cons: "xs \<noteq> [] \<Longrightarrow> join sep (x # xs) = x @ sep @ join sep xs"
  by (cases xs) simp_all

lemma local_elements:
  assumes "is_local p"
  shows "''..'' \<notin> set (elements p)"
proof (cases "list_ex (\<lambda>e. e = ''.'' \<or> e = ''..'') (split_slash p)")
  case True
  obtain k xs where s: "foldl (clean_step False) [] (split_slash p) = xs @ replicate k ''..''" "''..'' \<notin> set xs"
    using stack_shape_all unfolding stack_shape_def by blast
  have e: "elements p = replicate k ''..'' @ rev xs"
    using assms s(1) by (simp add: elements_def is_local_def)
  have q: "path_clean p \<noteq> ''..''" "take 3 (path_clean p) \<noteq> ''../''" "\<not> is_rooted p"
    using assms True by (simp_all add: is_local_def Let_def)
  have "k = 0"
  proof (rule ccontr)
    assume "k \<noteq> 0"
    then obtain ys where ys: "elements p = ''..'' # ys" using e by (cases k) auto
    show False
    proof (cases "ys = []")
      case True
      then show False using q(1,3) ys by (simp add: path_clean_def path_text_def)
    next
      case False
      then show False using q(2,3) ys by (simp add: path_clean_def path_text_def join_Cons)
    qed
  qed
  then show ?thesis using e s(2) by simp
next
  case False
  have "''..'' \<notin> set (foldl (clean_step r) [] es)" if "''..'' \<notin> set es" for r es
    using that by (induction es rule: rev_induct) (auto simp: clean_step_def)
  moreover have "''..'' \<notin> set (split_slash p)" using False by (auto simp: list_ex_iff)
  ultimately show ?thesis by (simp add: elements_def)
qed

text \<open>Cleaning is idempotent on the elements.\<close>

lemma split_slash_plain: "CHR ''/'' \<notin> set e \<Longrightarrow> split_slash e = [e]"
  by (induction e) auto

lemma split_slash_no_slash: "e \<in> set (split_slash p) \<Longrightarrow> CHR ''/'' \<notin> set e"
  by (induction p arbitrary: e) (auto split: if_splits list.splits)

lemma elements_subset: "set (elements p) \<subseteq> set (split_slash p) \<union> {''..''}"
proof -
  have "set (foldl (clean_step r) S es) \<subseteq> set es \<union> set S \<union> {''..''}" for r S es
    by (induction es arbitrary: S) (fastforce simp: clean_step_def split: list.splits if_splits)+
  then show ?thesis unfolding elements_def by fastforce
qed

lemma split_join:
  "es \<noteq> [] \<Longrightarrow> \<forall>e \<in> set es. CHR ''/'' \<notin> set e \<Longrightarrow> split_slash (join ''/'' es) = es"
proof (induction es rule: induct_list012)
  case (3 x y zs)
  have "split_slash (join ''/'' (x # y # zs)) = split_slash x @ split_slash (join ''/'' (y # zs))"
    by (simp only: join.simps split_slash_append)
  then show ?case using 3 by (simp add: split_slash_plain)
qed (simp_all add: split_slash_plain)

lemma path_text_inj:
  assumes "path_text r (a @ x) = path_text r (a @ y)" "x \<noteq> []" "y \<noteq> []"
    and "\<forall>e \<in> set (a @ x) \<union> set (a @ y). CHR ''/'' \<notin> set e"
  shows "x = y"
proof -
  have "join ''/'' (a @ x) = join ''/'' (a @ y)" using assms(1-3) by (auto simp: path_text_def split: if_splits)
  then have "split_slash (join ''/'' (a @ x)) = split_slash (join ''/'' (a @ y))" by simp
  then show ?thesis using assms(2-4) by (simp add: split_join)
qed

section \<open>A local path under a directory\<close>

lemma path_join_local:
  assumes "is_local rel"
  shows "path_join [dir, rel] = path_text (is_rooted dir) (elements dir @ elements rel)"
proof (cases "dir = []")
  case True
  then show ?thesis using assms
    by (simp add: path_join_def path_clean_def is_local_def is_rooted_def elements_def clean_step_def)
next
  case False
  have r: "rel \<noteq> []" "\<not> is_rooted rel" using assms by (simp_all add: is_local_def)
  have nd: "''..'' \<notin> set (foldl (clean_step False) [] (split_slash rel))"
    using local_elements [OF assms] r(2) by (simp add: elements_def)
  have "elements (dir @ ''/'' @ rel) = elements dir @ elements rel"
    using False r(2) by (simp add: elements_def split_slash_Cons clean_onto [OF nd, of "is_rooted dir" "foldl (clean_step (is_rooted dir)) [] (split_slash dir)"])
  then show ?thesis using False by (simp add: path_join_def path_clean_def)
qed

text \<open>A name of one element, such as a node's.\<close>

definition plain_name :: "string \<Rightarrow> bool" where
  "plain_name s \<longleftrightarrow> s \<noteq> [] \<and> CHR ''/'' \<notin> set s \<and> s \<noteq> ''.'' \<and> s \<noteq> ''..''"

lemma plain_join_facts:
  assumes "es \<noteq> []" "list_all plain_name es"
  shows "elements (join ''/'' es) = es" "is_local (join ''/'' es)" "path_clean (join ''/'' es) = join ''/'' es"
proof -
  have sp: "split_slash (join ''/'' es) = es" using assms by (simp add: split_join list_all_iff plain_name_def)
  obtain x xs where es: "es = x # xs" "plain_name x" using assms by (cases es) auto
  obtain c cs where x: "x = c # cs" "c \<noteq> CHR ''/''" using es(2) by (cases x) (auto simp: plain_name_def)
  have "\<exists>ds. join ''/'' es = c # ds" unfolding es(1) x(1) by (cases xs) simp_all
  then have nr: "\<not> is_rooted (join ''/'' es)" and ne: "join ''/'' es \<noteq> []" using x(2) by (auto simp: is_rooted_def)
  have "foldl (clean_step r) [] ks = rev ks" if "list_all plain_name ks" for r ks
    using that
  proof (induction ks rule: rev_induct)
    case (snoc k ks)
    then have "foldl (clean_step r) [] ks = rev ks" "k \<noteq> []" "k \<noteq> ''.''" "k \<noteq> ''..''" by (auto simp: plain_name_def)
    then show ?case by (simp add: clean_step_def [of r "rev ks" k])
  qed simp
  then show e: "elements (join ''/'' es) = es" using assms(2) by (simp add: elements_def sp)
  have nd: "\<not> list_ex (\<lambda>e. e = ''.'' \<or> e = ''..'') es" using assms(2) by (auto simp: list_all_iff list_ex_iff plain_name_def)
  have "take 3 (join ''/'' es) \<noteq> ''../''"
  proof
    assume "take 3 (join ''/'' es) = ''../''"
    then obtain r where "join ''/'' es = ''..'' @ ''/'' @ r" by (metis append_Cons append_Nil append_take_drop_id)
    then have "es = ''..'' # split_slash r" using sp split_slash_append [of "''..''" r] by simp
    then show False using assms(2) by (simp add: plain_name_def)
  qed
  moreover have "join ''/'' es \<noteq> ''..''"
  proof
    assume "join ''/'' es = ''..''"
    then have "es = [''..'']" using sp by simp
    then show False using assms(2) by (simp add: plain_name_def)
  qed
  ultimately show "is_local (join ''/'' es)" using nr ne nd by (simp add: is_local_def sp)
  show "path_clean (join ''/'' es) = join ''/'' es"
    using nr e assms(1) by (simp add: path_clean_def path_text_def)
qed

end
