(* ===== verification/Compiler.thy ===== *)
theory Compiler
  imports FrrProps ClabProps Paths
begin

text \<open>
  controller/internal/compiler/compiler.go: the artifact of one lab generation, and writing it to a
  directory. The text of the Containerlab topology is the YAML library's, a parameter. Iterating over
  the map of files has no fixed order: the list of its entries, in the order the loop visits them, is a
  parameter, as is what the operating system answers.
\<close>

record artifact =
  art_lab_id :: string
  art_lab_name :: string
  art_topology :: string
  art_files :: "string \<Rightarrow> string option"

datatype compile_error = FrrFailed frr_error | ClabFailed clab_error

definition add_files :: "configs \<Rightarrow> (string \<Rightarrow> string option) \<Rightarrow> node \<Rightarrow> (string \<Rightarrow> string option)" where
  "add_files cfgs files n = (case cfgs (node_id n) of None \<Rightarrow> files
     | Some cfg \<Rightarrow> (let dir = path_join [''configs'', node_name n] in
         files(path_join [dir, ''frr.conf''] \<mapsto> render cfg,
               path_join [dir, ''daemons''] \<mapsto> daemons_text,
               path_join [dir, ''vtysh.conf''] \<mapsto> vtysh_conf)))"

definition compile_lab :: "(clab_topology \<Rightarrow> string) \<Rightarrow> lab \<Rightarrow> node list \<Rightarrow> link list \<Rightarrow> clab_options \<Rightarrow> compile_error + artifact" where
  "compile_lab marshal lb ns ls opts0 =
    (let opts = opts0\<lparr>opt_internet := internet_access (lab_topology (lab_spec lb))\<rparr> in
     ebind (emap_err FrrFailed (build_router_configs ns ls (opt_internet opts))) (\<lambda>cfgs.
     ebind (emap_err ClabFailed (clab_compile (meta_name (lab_meta lb)) ns ls opts)) (\<lambda>t.
       Inr \<lparr>art_lab_id = meta_id (lab_meta lb), art_lab_name = meta_name (lab_meta lb), art_topology = marshal t,
            art_files = foldl (add_files cfgs) Map.empty ns\<rparr>)))"

section \<open>Writing\<close>

datatype write_error = PathEscapes string | MkdirFailed string | WriteFailed string

record os =
  mkdir_ok :: "string \<Rightarrow> bool"
  write_ok :: "string \<Rightarrow> bool"

type_synonym fs = "string \<Rightarrow> string option"

definition topology_file_name :: string where "topology_file_name = ''topology.clab.yml''"

definition artifact_map :: "artifact \<Rightarrow> (string \<Rightarrow> string option)" where
  "artifact_map a = [topology_file_name \<mapsto> art_topology a] ++ art_files a"

fun write_files :: "os \<Rightarrow> string \<Rightarrow> fs \<Rightarrow> (string \<times> string) list \<Rightarrow> write_error option \<times> fs" where
  "write_files os dir d [] = (None, d)"
| "write_files os dir d ((rel, content) # rest) = (let p = path_join [dir, rel] in
     if \<not> is_local rel then (Some (PathEscapes rel), d)
     else if \<not> mkdir_ok os (path_dir p) then (Some (MkdirFailed (path_dir p)), d)
     else if \<not> write_ok os p then (Some (WriteFailed p), d)
     else write_files os dir (d(p \<mapsto> content)) rest)"

definition write_artifact :: "os \<Rightarrow> (string \<times> string) list \<Rightarrow> string \<Rightarrow> fs \<Rightarrow> write_error option \<times> fs" where
  "write_artifact os entries dir d =
    (if \<not> mkdir_ok os dir then (Some (MkdirFailed dir), d) else write_files os dir d entries)"

end
