(* ===== verification/CompilerProps.thy ===== *)
theory CompilerProps
  imports Compiler TopologyProps
begin

text \<open>
  Compiling and writing a lab: which errors are possible and that a built topology has none of them, that
  writing never leaves the directory, and that the files a node's container mounts are written.
\<close>

section \<open>Errors\<close>

lemma compile_cases:
  "compile_lab marshal lb ns ls opts =
    (case find (dangling ns) ls of
       Some l \<Rightarrow> Inl (FrrFailed (UnknownNode (link_name l)))
     | None \<Rightarrow> (case find (\<lambda>n. \<not> is_router (n_spec n)) ns of
         Some n \<Rightarrow> Inl (ClabFailed (UnsupportedRuntime (node_name n) (runtime_type (n_spec n))))
       | None \<Rightarrow> Inr \<lparr>art_lab_id = meta_id (lab_meta lb), art_lab_name = meta_name (lab_meta lb),
           art_topology = marshal (projr (clab_compile (meta_name (lab_meta lb)) ns ls
             (opts\<lparr>opt_internet := internet_access (lab_topology (lab_spec lb))\<rparr>))),
           art_files = foldl (add_files (projr (build_router_configs ns ls (internet_access (lab_topology (lab_spec lb)))))) Map.empty ns\<rparr>))"
  using frr_total [of ns ls "internet_access (lab_topology (lab_spec lb))"]
  by (auto simp: compile_lab_def Let_def clab_cases split: option.splits)

text \<open>compiling a lab succeeds or fails on the first link with an end outside the topology, and otherwise on
  the first node that is not an FRR router.\<close>

theorem compile_error_is_first_defect:
  "case find (dangling ns) ls of
      Some l \<Rightarrow> compile_lab marshal lb ns ls opts = Inl (FrrFailed (UnknownNode (link_name l)))
    | None \<Rightarrow> (case find (\<lambda>n. \<not> is_router (n_spec n)) ns of
        Some n \<Rightarrow> compile_lab marshal lb ns ls opts = Inl (ClabFailed (UnsupportedRuntime (node_name n) (runtime_type (n_spec n))))
      | None \<Rightarrow> \<exists>art. compile_lab marshal lb ns ls opts = Inr art \<and> art_lab_id art = meta_id (lab_meta lb))"
  by (auto simp: compile_cases split: option.splits)

section \<open>A built topology compiles\<close>

definition all_routers :: "builder \<Rightarrow> bool" where
  "all_routers b \<longleftrightarrow> (\<forall>n \<in> set (res_nodes b). is_router (n_spec n))"

lemma all_routers_same: "res_nodes b' = res_nodes b \<Longrightarrow> all_routers b \<Longrightarrow> all_routers b'"
  by (simp add: all_routers_def)

lemma all_routers_push: "all_routers b \<Longrightarrow> is_router s \<Longrightarrow> all_routers (snd (push_node b nm s als))"
  by (auto simp: all_routers_def push_node_eq Let_def)

interpretation frr: builder_invariant all_routers
proof
  fix b name ro pod n b' assume "all_routers b" "add_router b name ro pod = Inr (n, b')"
  then show "all_routers b'"
    by (auto simp: add_router_def push_node_eq Let_def all_routers_def is_router_def empty_spec_def elim!: allocate_asn_frame allocate_sub_frame)
next
  fix b pod r assume "all_routers b"
  then show "all_routers (snd (rack_num_for_slot b pod r))" by (simp add: rack_num_for_slot_def all_routers_def)
next
  fix b w sub b' assume "all_routers b" "allocate_sub b PoolServerVlan w = Inr (sub, b')"
  then show "all_routers b'" by (auto simp: all_routers_def elim!: allocate_sub_frame)
next
  fix b name pod rack v vip gw mac vrid prio n b'
  assume "all_routers b" "add_leaf b name pod rack v vip gw mac vrid prio = Inr (n, b')"
  then show "all_routers b'"
    by (auto simp: add_leaf_def push_node_eq Let_def all_routers_def is_router_def empty_spec_def elim!: allocate_sub_frame)
next
  fix b name pod rack ad gw peers n b' assume "all_routers b" "add_server b name pod rack ad gw peers = (n, b')"
  then show "all_routers b'" by (auto simp: add_server_def push_node_eq Let_def all_routers_def is_router_def empty_spec_def)
next
  fix b i nm assume "all_routers b" "i < length (res_nodes b)"
  then show "all_routers (set_mlag_peer b i nm)"
    by (auto simp: set_mlag_peer_def all_routers_def is_router_def dest!: set_update_subset_insert [THEN subsetD])
next
  fix b xs assume "all_routers b"
  then show "all_routers (b\<lparr>res_allocs := xs\<rparr>)" by (simp add: all_routers_def)
next
  fix b a z b' assume "all_routers b" "add_link b a z = Inr b'"
  then show "all_routers b'" by (auto simp: all_routers_def push_link_frame elim!: add_link_push allocate_sub_frame)
next
  fix b a z k assume "all_routers b"
  then show "all_routers (add_l2_link b a z k)" by (simp add: all_routers_def add_l2_link_def push_link_frame)
qed

lemma built_ends_known:
  assumes "new_builder ds lab sp bs = Inr b" "build b topo = Inr b'"
  shows "ends_known b'"
proof -
  have "ends_known b" using new_builder_empty [OF assms(1)] by (simp add: ends_known_def)
  then show ?thesis using ends.build_keeps assms(2) by blast
qed

text \<open>C5: every topology the builder makes compiles: the artifact of a lab is produced from it without error.\<close>

theorem built_topology_compiles:
  assumes "new_builder ds lab sp bs = Inr b" "build b topo = Inr b'"
  shows "\<exists>art. compile_lab marshal lb (res_nodes b') (res_links b') opts = Inr art"
proof -
  have "all_routers b" using new_builder_empty [OF assms(1)] by (simp add: all_routers_def)
  then have "all_routers b'" using frr.build_keeps assms(2) by blast
  then have "find (\<lambda>n. \<not> is_router (n_spec n)) (res_nodes b') = None" by (auto simp: find_None_iff all_routers_def)
  moreover have "find (dangling (res_nodes b')) (res_links b') = None"
    using built_ends_known [OF assms] unfolding find_None_iff ends_known_def dangling_def metas_def by fastforce
  ultimately show ?thesis by (simp add: compile_cases)
qed

theorem built_topology_compiles_witness:
  "\<exists>b art. demo_run None = Some b \<and>
     compile_lab ct_name \<lparr>lab_meta = fresh_meta ''lab-1'' ''demo'', lab_spec = demo_spec\<rparr> (res_nodes b) (res_links b) default_options = Inr art"
proof -
  obtain b b' where b: "demo_run None = Some b'" "new_builder demo_draws ''lab'' demo_spec None = Inr b"
    "build b (lab_topology demo_spec) = Inr b'" "length (res_links b') = 2"
    by (rule demo_fresh_result)
  from built_topology_compiles [OF b(2,3)] b(1) show ?thesis by blast
qed

section \<open>Writing\<close>

lemma write_files_local:
  assumes "write_files os dir d es = (r, d')" "d' p \<noteq> d p"
  shows "\<exists>rel c. (rel, c) \<in> set es \<and> is_local rel \<and> p = path_join [dir, rel]"
  using assms
proof (induction os dir d es rule: write_files.induct)
  case (2 os dir d rel c rest)
  show ?case
  proof (cases "is_local rel \<and> mkdir_ok os (path_dir (path_join [dir, rel])) \<and> write_ok os (path_join [dir, rel])")
    case True
    then have w: "write_files os dir (d(path_join [dir, rel] \<mapsto> c)) rest = (r, d')" using "2.prems"(1) by (simp add: Let_def)
    show ?thesis
    proof (cases "p = path_join [dir, rel]")
      case False
      then have changed: "d' p \<noteq> (d(path_join [dir, rel] \<mapsto> c)) p" using "2.prems"(2) by simp
      have "\<exists>rel' c'. (rel', c') \<in> set rest \<and> is_local rel' \<and> p = path_join [dir, rel']"
        using "2.IH" [OF refl _ _ _ w changed] True by blast
      then show ?thesis by auto
    next
      case eq: True
      have "(rel, c) \<in> set ((rel, c) # rest)" by simp
      then show ?thesis using True eq by blast
    qed
  next
    case False
    then have "d' = d" using "2.prems"(1) by (auto simp: Let_def split: if_splits)
    then show ?thesis using "2.prems"(2) by simp
  qed
qed simp

text \<open>C6: whatever the artifact's paths are and wherever the writing stops, a file that changed lies under the
  directory: its path is the directory's followed by elements none of which goes up.\<close>

theorem writes_stay_in_directory:
  assumes "write_artifact os entries dir d = (r, d')" "d' p \<noteq> d p"
  shows "\<exists>es. p = path_text (is_rooted dir) (elements dir @ es) \<and> ''..'' \<notin> set es"
proof -
  have "write_files os dir d entries = (r, d')" using assms by (auto simp: write_artifact_def split: if_splits)
  from write_files_local [OF this assms(2)] obtain rel c where "is_local rel" "p = path_join [dir, rel]" by blast
  then show ?thesis using path_join_local local_elements by blast
qed

definition open_os :: os where
  "open_os = \<lparr>mkdir_ok = (\<lambda>_. True), write_ok = (\<lambda>_. True)\<rparr>"

theorem writes_stay_in_directory_witness:
  "\<exists>d' es. write_artifact open_os [(''configs/leaf-1/frr.conf'', ''x''), (''../outside'', ''y'')] ''gen/1'' Map.empty = (Some (PathEscapes ''../outside''), d') \<and>
     ''gen/1/configs/leaf-1/frr.conf'' = path_text False (elements ''gen/1'' @ es)"
proof -
  have w: "write_artifact open_os [(''configs/leaf-1/frr.conf'', ''x''), (''../outside'', ''y'')] ''gen/1'' Map.empty =
     (Some (PathEscapes ''../outside''), [''gen/1/configs/leaf-1/frr.conf'' \<mapsto> ''x''])"
  proof -
    have "is_local ''configs/leaf-1/frr.conf''" "\<not> is_local ''../outside''"
      "path_join [''gen/1'', ''configs/leaf-1/frr.conf''] = ''gen/1/configs/leaf-1/frr.conf''" by code_simp+
    then show ?thesis by (simp add: write_artifact_def open_os_def Let_def)
  qed
  from writes_stay_in_directory [OF w, of "''gen/1/configs/leaf-1/frr.conf''"] w show ?thesis
    by (simp add: is_rooted_def) blast
qed

section \<open>The files a container mounts\<close>

definition file_key :: "string \<Rightarrow> string \<Rightarrow> string" where
  "file_key nm f = join ''/'' [''configs'', nm, f]"

definition config_files :: "string list" where
  "config_files = [''frr.conf'', ''daemons'', ''vtysh.conf'']"

lemma config_files_plain: "f \<in> set config_files \<Longrightarrow> plain_name f"
  by (auto simp: config_files_def plain_name_def)

lemma configs_plain: "plain_name ''configs''"
  by (simp add: plain_name_def)

lemma file_key_join:
  assumes "plain_name nm" "plain_name f"
  shows "path_join [path_join [''configs'', nm], f] = file_key nm f"
    "is_local (file_key nm f)" "elements (file_key nm f) = [''configs'', nm, f]"
proof -
  have p: "list_all plain_name [''configs'', nm]" "list_all plain_name [''configs'', nm, f]"
    using assms configs_plain by simp_all
  have "path_join [''configs'', nm] = join ''/'' [''configs'', nm]"
    using plain_join_facts(3) [OF _ p(1)] by (simp add: path_join_def)
  then show "path_join [path_join [''configs'', nm], f] = file_key nm f"
    using plain_join_facts(3) [OF _ p(2)] by (simp add: path_join_def file_key_def)
  show "is_local (file_key nm f)" "elements (file_key nm f) = [''configs'', nm, f]"
    using plain_join_facts(1,2) [OF _ p(2)] by (simp_all add: file_key_def)
qed

lemma file_key_eq:
  assumes "plain_name nm" "plain_name f" "plain_name nm'" "plain_name f'"
  shows "file_key nm f = file_key nm' f' \<longleftrightarrow> nm = nm' \<and> f = f'"
  using file_key_join(3) [OF assms(1,2)] file_key_join(3) [OF assms(3,4)] by (metis list.inject)

definition file_of :: "router_config \<Rightarrow> string \<Rightarrow> string" where
  "file_of cfg f = (if f = ''frr.conf'' then render cfg else if f = ''daemons'' then daemons_text else vtysh_conf)"

lemma add_files_eq:
  assumes "plain_name (node_name n)" "cs (node_id n) = Some cfg"
  shows "add_files cs m n = m(file_key (node_name n) ''frr.conf'' \<mapsto> file_of cfg ''frr.conf'',
     file_key (node_name n) ''daemons'' \<mapsto> file_of cfg ''daemons'', file_key (node_name n) ''vtysh.conf'' \<mapsto> file_of cfg ''vtysh.conf'')"
  using assms file_key_join(1) [OF assms(1)] config_files_plain
  by (simp add: add_files_def Let_def file_of_def config_files_def)

text \<open>Every file of the artifact is one of these, and each node's are what its configuration renders to.\<close>

lemma add_files_keys:
  assumes "list_all plain_name (map node_name ns)" "foldl (add_files cs) Map.empty ns k = Some c"
  shows "\<exists>n \<in> set ns. \<exists>f \<in> set config_files. k = file_key (node_name n) f"
  using assms
proof (induction ns rule: rev_induct)
  case (snoc n ns)
  show ?case
  proof (cases "cs (node_id n)")
    case None
    then show ?thesis using snoc by (auto simp: add_files_def)
  next
    case (Some cfg)
    then show ?thesis using snoc add_files_eq [of n cs cfg] by (auto simp: config_files_def split: if_splits)
  qed
qed simp

lemma add_files_of_node:
  assumes "list_all plain_name (map node_name ns)" "distinct (map node_name ns)" "n \<in> set ns" "cs (node_id n) = Some cfg" "f \<in> set config_files"
  shows "foldl (add_files cs) Map.empty ns (file_key (node_name n) f) = Some (file_of cfg f)"
  using assms(1-3)
proof (induction ns rule: rev_induct)
  case (snoc m ns)
  have pn: "plain_name (node_name n)" "plain_name (node_name m)" "plain_name f"
    using snoc.prems assms(5) config_files_plain by (auto simp: list_all_iff)
  show ?case
  proof (cases "n = m")
    case True
    then show ?thesis using add_files_eq [where cs = cs, OF pn(1) assms(4)] assms(5) pn file_key_eq [OF pn(1,3) pn(1)] config_files_plain
      by (auto simp: config_files_def)
  next
    case False
    then have n: "n \<in> set ns" "node_name n \<noteq> node_name m" using snoc.prems by (auto simp: rev_image_eqI)
    have "file_key (node_name n) f \<noteq> file_key (node_name m) g" if "g \<in> set config_files" for g
      using file_key_eq [OF pn(1,3) pn(2) config_files_plain [OF that]] n(2) by simp
    then have "add_files cs x m (file_key (node_name n) f) = x (file_key (node_name n) f)" for x
      using add_files_eq [where cs = cs, OF pn(2)] by (cases "cs (node_id m)") (simp_all add: add_files_def config_files_def)
    then show ?thesis using snoc n(1) by simp
  qed
qed simp

text \<open>Writing local entries with different paths.\<close>

lemma write_files_all:
  assumes "\<forall>e \<in> set es. is_local (fst e)" "distinct (map (\<lambda>e. path_join [dir, fst e]) es)"
  shows "\<exists>d'. write_files open_os dir d es = (None, d') \<and> (\<forall>(rel, c) \<in> set es. d' (path_join [dir, rel]) = Some c) \<and>
     (\<forall>p. p \<notin> set (map (\<lambda>e. path_join [dir, fst e]) es) \<longrightarrow> d' p = d p)"
  using assms
proof (induction es arbitrary: d)
  case (Cons e es)
  obtain rel c where e: "e = (rel, c)" by force
  have pre: "\<forall>e \<in> set es. is_local (fst e)" "distinct (map (\<lambda>e. path_join [dir, fst e]) es)" using Cons.prems by auto
  obtain d' where d': "write_files open_os dir (d(path_join [dir, rel] \<mapsto> c)) es = (None, d')"
    "\<forall>(rel, c) \<in> set es. d' (path_join [dir, rel]) = Some c"
    "\<forall>p. p \<notin> set (map (\<lambda>e. path_join [dir, fst e]) es) \<longrightarrow> d' p = (d(path_join [dir, rel] \<mapsto> c)) p"
    using Cons.IH [OF pre, of "d(path_join [dir, rel] \<mapsto> c)"] by blast
  have "d' (path_join [dir, rel]) = Some c" using d'(3) Cons.prems(2) by (simp add: e)
  then show ?case using d' Cons.prems by (intro exI [of _ d']) (simp add: e open_os_def Let_def)
qed simp

lemma topology_key: "plain_name topology_file_name" "is_local topology_file_name" "elements topology_file_name = [topology_file_name]"
proof -
  show p: "plain_name topology_file_name" by (simp add: plain_name_def topology_file_name_def)
  show "is_local topology_file_name" "elements topology_file_name = [topology_file_name]"
    using plain_join_facts(1,2) [of "[topology_file_name]"] p by simp_all
qed

text \<open>The keys of an artifact are the topology file and the nodes' files: local, and at different places.\<close>

definition node_key :: "node list \<Rightarrow> string \<Rightarrow> bool" where
  "node_key ns k \<longleftrightarrow> k = topology_file_name \<or> (\<exists>n \<in> set ns. \<exists>f \<in> set config_files. k = file_key (node_name n) f)"

lemma node_key_facts:
  assumes "list_all plain_name (map node_name ns)" "node_key ns k"
  shows "is_local k" "elements k \<noteq> []" "\<forall>e \<in> set (elements k). CHR ''/'' \<notin> set e" "join ''/'' (elements k) = k"
proof -
  have "is_local k \<and> elements k \<noteq> [] \<and> list_all plain_name (elements k) \<and> join ''/'' (elements k) = k"
    using assms(2) unfolding node_key_def
  proof (elim disjE bexE)
    fix n f assume nf: "n \<in> set ns" "f \<in> set config_files" "k = file_key (node_name n) f"
    then have "plain_name (node_name n)" "plain_name f" using assms(1) config_files_plain by (auto simp: list_all_iff)
    from file_key_join(2,3) [OF this] this show ?thesis using nf(3) configs_plain by (simp add: file_key_def)
  qed (use topology_key in simp)
  then show "is_local k" "elements k \<noteq> []" "\<forall>e \<in> set (elements k). CHR ''/'' \<notin> set e" "join ''/'' (elements k) = k"
    by (simp_all add: list_all_iff plain_name_def)
qed

lemma elements_no_slash: "e \<in> set (elements p) \<Longrightarrow> CHR ''/'' \<notin> set e"
  using elements_subset [of p] split_slash_no_slash [of e p] by auto

lemma node_key_places:
  assumes "list_all plain_name (map node_name ns)" "node_key ns k" "node_key ns k'" "path_join [dir, k] = path_join [dir, k']"
  shows "k = k'"
proof -
  note f = node_key_facts [OF assms(1,2)] and g = node_key_facts [OF assms(1,3)]
  have "elements k = elements k'"
  proof (rule path_text_inj)
    show "path_text (is_rooted dir) (elements dir @ elements k) = path_text (is_rooted dir) (elements dir @ elements k')"
      using assms(4) by (simp add: path_join_local f(1) g(1))
  qed (use f g elements_no_slash in auto)
  then show ?thesis using f(4) g(4) by metis
qed

text \<open>when every file can be written, writing a compiled lab succeeds whatever the order of the files, and
  the three files that a router's container mounts are in its directory under the generation's: the rendering of
  the configuration derived for that node, the daemons file and the vtysh file.\<close>

theorem mounted_files_are_written:
  assumes "compile_lab marshal lb ns ls opts = Inr art" "list_all plain_name (map node_name ns)"
    and "distinct (map node_id ns)" "distinct (map node_name ns)" "n \<in> set ns"
    and "map_of entries = artifact_map art" "distinct (map fst entries)"
  shows "\<exists>d' cs cfg. write_artifact open_os entries dir d = (None, d') \<and>
    build_router_configs ns ls (internet_access (lab_topology (lab_spec lb))) = Inr cs \<and> cs (node_id n) = Some cfg \<and>
    map (\<lambda>f. d' (path_text (is_rooted dir) (elements dir @ [''configs'', node_name n, f]))) [''frr.conf'', ''daemons'', ''vtysh.conf'']
      = [Some (render cfg), Some daemons_text, Some vtysh_conf]"
proof -
  obtain cs where cs: "build_router_configs ns ls (internet_access (lab_topology (lab_spec lb))) = Inr cs"
    "art_files art = foldl (add_files cs) Map.empty ns"
    and r: "is_router (n_spec n)"
    using assms(1,5) frr_total [of ns ls "internet_access (lab_topology (lab_spec lb))"]
    by (auto simp: compile_cases find_None_iff split: option.splits)
  obtain cfg where cfg: "cs (node_id n) = Some cfg" using config_of_node [OF assms(3) cs(1) assms(5) r] by blast
  have key: "node_key ns (fst e)" if "e \<in> set entries" for e
  proof -
    have "fst e \<in> dom (artifact_map art)" using that unfolding assms(6) [symmetric] by (simp add: dom_map_of_conv_image_fst)
    then show ?thesis using add_files_keys [OF assms(2)] by (fastforce simp: artifact_map_def node_key_def cs(2))
  qed
  have loc: "\<forall>e \<in> set entries. is_local (fst e)" using key node_key_facts(1) [OF assms(2)] by blast
  have "inj_on (\<lambda>k. path_join [dir, k]) (set (map fst entries))"
    using key node_key_places [OF assms(2)] by (auto simp: inj_on_def)
  then have "distinct (map (\<lambda>k. path_join [dir, k]) (map fst entries))" using assms(7) by (simp only: distinct_map simp_thms)
  then have dis: "distinct (map (\<lambda>e. path_join [dir, fst e]) entries)" by (simp add: comp_def)
  obtain d' where d': "write_files open_os dir d entries = (None, d')"
    "\<forall>(rel, c) \<in> set entries. d' (path_join [dir, rel]) = Some c"
    using write_files_all [OF loc dis] by blast
  have written: "d' (path_text (is_rooted dir) (elements dir @ [''configs'', node_name n, f])) = Some (file_of cfg f)" if f: "f \<in> set config_files" for f
  proof -
    have pn: "plain_name (node_name n)" "plain_name f" using assms(2,5) f config_files_plain by (auto simp: list_all_iff)
    have "artifact_map art (file_key (node_name n) f) = Some (file_of cfg f)"
      using add_files_of_node [where cs = cs, OF assms(2,4,5) cfg f] by (simp add: artifact_map_def cs(2) map_add_def)
    then have "(file_key (node_name n) f, file_of cfg f) \<in> set entries" using assms(6) by (metis map_of_SomeD)
    then have "d' (path_join [dir, file_key (node_name n) f]) = Some (file_of cfg f)" using d'(2) by blast
    then show ?thesis using path_join_local [OF file_key_join(2) [OF pn]] file_key_join(3) [OF pn] by simp
  qed
  have "write_artifact open_os entries dir d = (None, d')" using d'(1) by (simp add: write_artifact_def open_os_def)
  then show ?thesis using cs(1) cfg written by (auto simp: config_files_def file_of_def)
qed

lemma map_has_entries: "finite (dom m) \<Longrightarrow> \<exists>es. map_of es = m \<and> distinct (map fst es)"
proof (induction m rule: finite_Map_induct)
  case (update k v m)
  then obtain es where "map_of es = m" "distinct (map fst es)" by blast
  moreover from this update have "k \<notin> set (map fst es)" by (auto simp: dom_map_of_conv_image_fst)
  ultimately have "map_of ((k, v) # es) = m(k \<mapsto> v)" "distinct (map fst ((k, v) # es))" by simp_all
  then show ?case by blast
qed (auto intro: exI [of _ "[]"])

theorem mounted_files_are_written_witness:
  "\<exists>art entries d' cfg. compile_lab ct_name \<lparr>lab_meta = fresh_meta ''lab-1'' ''demo'', lab_spec = demo_spec\<rparr> wire_nodes wire_links default_options = Inr art \<and>
     write_artifact open_os entries ''gen'' Map.empty = (None, d') \<and>
     d' (path_text False (elements ''gen'' @ [''configs'', ''leaf-a'', ''frr.conf''])) = Some (render cfg)"
proof -
  have "find (dangling wire_nodes) wire_links = None" "find (\<lambda>n. \<not> is_router (n_spec n)) wire_nodes = None" by code_simp+
  then obtain art where art: "compile_lab ct_name \<lparr>lab_meta = fresh_meta ''lab-1'' ''demo'', lab_spec = demo_spec\<rparr> wire_nodes wire_links default_options = Inr art"
    and files: "\<exists>cs. art_files art = foldl (add_files cs) Map.empty wire_nodes"
    by (auto simp: compile_cases)
  have ok: "list_all plain_name (map node_name wire_nodes)" "distinct (map node_name wire_nodes)" "node_name wire_leaf_a = ''leaf-a''"
    "is_rooted ''gen'' = False" by code_simp+
  obtain cs where cs: "art_files art = foldl (add_files cs) Map.empty wire_nodes" using files by blast
  have "dom (art_files art) \<subseteq> (\<lambda>(n, f). file_key (node_name n) f) ` (set wire_nodes \<times> set config_files)"
    using add_files_keys [where cs = cs, OF ok(1)] by (fastforce simp: cs)
  then have "finite (dom (artifact_map art))" by (simp add: artifact_map_def finite_subset)
  then obtain entries where e: "map_of entries = artifact_map art" "distinct (map fst entries)" using map_has_entries by blast
  have n: "wire_leaf_a \<in> set wire_nodes" by (simp add: wire_nodes_def)
  from mounted_files_are_written [OF art ok(1) wire_ids ok(2) n e, of "''gen''" Map.empty] art
  show ?thesis unfolding ok(3,4) by auto
qed

end
