(* ===== verification/Programs.thy ===== *)
theory Programs
  imports Model
begin

text \<open>
  internal/model/program.go: programs on the servers of a lab. States that only the
  program itself writes are datatypes of their constants (the zero value is a constructor of its own); what a
  request brings along, such as a restart policy, is a string.
\<close>

datatype program_desired = ProgramDesiredRunning | ProgramDesiredStopped

datatype program_state = ProgramStateUnset | ProgramStateConfigured | ProgramStateRunning | ProgramStateStopped
  | ProgramStateFailed | ProgramStateExited | ProgramStateUnknown

text \<open>The strings of internal/nodeagentapi.\<close>

definition restart_policies :: "string list" where "restart_policies = [''Never'', ''OnFailure'', ''Always'']"

definition program_types :: "string list" where "program_types = [''simple'', ''oneshot'']"

definition port_checks :: "string list" where "port_checks = [''tcp'', ''http'']"

record health_check =
  hc_type :: string
  hc_port :: int
  hc_path :: string
  hc_interval :: int
  hc_timeout :: int
  failure_threshold :: int

record program_spec =
  p_lab :: string
  server_id :: string
  server_name :: string
  package_name :: string
  package_version :: string
  entrypoint :: string
  p_args :: "string list"
  restart_policy :: string
  p_type :: string
  auto_start :: bool
  desired_state :: program_desired
  liveness_check :: "health_check option"
  readiness_check :: "health_check option"
  startup_order :: int

record program_status =
  ps_state :: program_state
  ps_pid :: int
  ps_restarts :: int
  ps_last_error :: string
  ps_health :: string
  ps_ready :: bool
  ps_started :: nat
  ps_observed :: nat

record program =
  p_meta :: meta
  p_spec :: program_spec
  p_status :: program_status

abbreviation program_name :: "program \<Rightarrow> string" where "program_name p \<equiv> meta_name (p_meta p)"

end
