(* ===== verification/PlanDiff.thy ===== *)
theory PlanDiff
  imports Topology Maps Programs
begin

text \<open>
  controller/internal/biz/plandiff.go: carrying the stored identity over to a rebuilt topology, and the
  operations and warnings of a plan. A nil slice and an empty one are the same here, also in the
  comparison of two node specs.
\<close>

section \<open>Identity\<close>

definition carry_node :: "(string \<Rightarrow> node option) \<Rightarrow> node \<Rightarrow> node" where
  "carry_node by_nm n = (case by_nm (node_name n) of None \<Rightarrow> n
     | Some cur \<Rightarrow> n\<lparr>n_meta := n_meta cur, n_status := n_status cur\<rparr>)"

definition id_by_name :: "node list \<Rightarrow> string \<Rightarrow> string" where
  "id_by_name ns nm = (case index_by node_name ns nm of None \<Rightarrow> [] | Some n \<Rightarrow> node_id n)"

definition carry_link :: "(string \<Rightarrow> link option) \<Rightarrow> (string \<Rightarrow> string) \<Rightarrow> link \<Rightarrow> link" where
  "carry_link by_nm ids l =
    (let l1 = (case by_nm (link_name l) of None \<Rightarrow> l
               | Some cur \<Rightarrow> l\<lparr>l_meta := l_meta cur, l_status := l_status cur\<rparr>); s = l_spec l1
     in l1\<lparr>l_spec := s\<lparr>end_a := (end_a s)\<lparr>ep_id := ids (ep_node (end_a s))\<rparr>,
                       end_b := (end_b s)\<lparr>ep_id := ids (ep_node (end_b s))\<rparr>\<rparr>\<rparr>)"

definition carry_over_identity :: "node list \<Rightarrow> link list \<Rightarrow> node list \<Rightarrow> link list \<Rightarrow> node list \<times> link list" where
  "carry_over_identity res_ns res_ls ns ls =
    (let ns' = map (carry_node (index_by node_name ns)) res_ns in
     (ns', map (carry_link (index_by link_name ls) (id_by_name ns')) res_ls))"

section \<open>Operations\<close>

definition create_node_op :: "node \<Rightarrow> plan_op" where
  "create_node_op n = \<lparr>po_type = PlanCreateNode, po_target = node_name n,
     po_summary = (if is_router (n_spec n)
       then node_name n @ '' ('' @ show_role (n_role n) @ '', AS'' @ show_nat (unat (asn (n_spec n))) @ '', lo '' @ show_prefix (loopback (n_spec n)) @ '')''
       else node_name n @ '' ('' @ show_role (n_role n) @ '')'')\<rparr>"

definition show_end :: "endpoint \<Rightarrow> string" where
  "show_end e = ep_node e @ '':'' @ ep_iface e"

definition create_link_op :: "link \<Rightarrow> plan_op" where
  "create_link_op l = (let a = end_a (l_spec l); z = end_b (l_spec l) in
    \<lparr>po_type = PlanCreateLink, po_target = link_name l,
     po_summary = show_end a @ '' ('' @ show_prefix (ep_addr a) @ '') <-> '' @ show_end z @ '' ('' @ show_prefix (ep_addr z) @ '')''\<rparr>)"

definition delete_link_op :: "link \<Rightarrow> plan_op" where
  "delete_link_op l = \<lparr>po_type = PlanDeleteLink, po_target = link_name l,
     po_summary = show_end (end_a (l_spec l)) @ '' <-> '' @ show_end (end_b (l_spec l))\<rparr>"

definition delete_node_op :: "node \<Rightarrow> plan_op" where
  "delete_node_op n = \<lparr>po_type = PlanDeleteNode, po_target = node_name n, po_summary = node_name n @ '' ('' @ show_role (n_role n) @ '')''\<rparr>"

text \<open>The link changes of each surviving node.\<close>

definition touch :: "(string \<Rightarrow> bool) \<Rightarrow> (string \<Rightarrow> nat) \<Rightarrow> link \<Rightarrow> (string \<Rightarrow> nat)" where
  "touch survives m l = foldl (\<lambda>m nm. if survives nm then bump m nm else m) m (map ep_node (ends l))"

definition update_ops :: "(string \<Rightarrow> node option) \<Rightarrow> (string \<Rightarrow> nat) \<Rightarrow> node \<Rightarrow> plan_op list" where
  "update_ops in_base touched n =
    (case in_base (node_name n) of None \<Rightarrow> []
     | Some old \<Rightarrow> (let changed = (n_spec old \<noteq> n_spec n) in
         if \<not> changed \<and> touched (node_name n) = 0 then []
         else [\<lparr>po_type = PlanUpdateNode, po_target = node_name n,
                po_summary = (if changed then ''node spec changed; refresh rendered config''
                  else ''refresh rendered config ('' @ show_nat (touched (node_name n)) @ '' link change(s))'')\<rparr>]))"

section \<open>Warnings\<close>

definition removed_server_warning :: "(string \<Rightarrow> string list) \<Rightarrow> (string \<Rightarrow> node option) \<Rightarrow> node \<Rightarrow> plan_warning list" where
  "removed_server_warning by_server in_res n =
    (if n_role n \<noteq> RoleServer \<or> in_res (node_name n) \<noteq> None then []
     else let names = by_server (node_name n) in
       if names = [] then []
       else [\<lparr>pw_code = ''ProgramsOnRemovedServer'',
              pw_message = ''server '' @ node_name n @ '' will be removed together with its '' @ show_nat (length names) @
                '' program(s): '' @ join '', '' (sort names)\<rparr>])"

definition removed_server_warnings :: "node list \<Rightarrow> (string \<Rightarrow> node option) \<Rightarrow> program list \<Rightarrow> plan_warning list" where
  "removed_server_warnings base_ns in_res programs =
    concat (map (removed_server_warning
      (foldl (\<lambda>m p. map_append m (server_name (p_spec p)) [program_name p]) (\<lambda>_. []) programs) in_res) base_ns)"

definition plan_changes :: "base option \<Rightarrow> node list \<Rightarrow> link list \<Rightarrow> program list \<Rightarrow> plan_op list \<times> plan_warning list" where
  "plan_changes bs res_ns res_ls programs =
    (let base_ns = (case bs of None \<Rightarrow> [] | Some b \<Rightarrow> base_nodes b);
         base_ls = (case bs of None \<Rightarrow> [] | Some b \<Rightarrow> base_link_list b);
         node_in_base = index_by node_name base_ns; link_in_base = index_by link_name base_ls;
         node_in_res = index_by node_name res_ns; link_in_res = index_by link_name res_ls;
         new_links = filter (\<lambda>l. link_in_base (link_name l) = None) res_ls;
         old_links = filter (\<lambda>l. link_in_res (link_name l) = None) base_ls;
         touched1 = foldl (touch (\<lambda>nm. node_in_base nm \<noteq> None)) (\<lambda>_. 0) new_links;
         touched = foldl (touch (\<lambda>nm. node_in_res nm \<noteq> None \<and> node_in_base nm \<noteq> None)) touched1 old_links
     in (map create_node_op (filter (\<lambda>n. node_in_base (node_name n) = None) res_ns) @
         map create_link_op new_links @
         map delete_link_op old_links @
         map delete_node_op (filter (\<lambda>n. node_in_res (node_name n) = None) base_ns) @
         concat (map (update_ops node_in_base touched) res_ns),
         removed_server_warnings base_ns node_in_res programs))"

end
