(* ===== verification/PlanDiffProps.thy ===== *)
theory PlanDiffProps
  imports PlanDiff WireDemo
begin

text \<open>
  What a plan's operations say: exactly the names that differ, in an order in which they can be carried
  out one by one, leading from the deployed topology to the desired one; replanning an unchanged
  topology plans nothing; and the identity carried over makes the link ends point at the carried nodes.
\<close>

section \<open>Targets\<close>

definition targets :: "plan_op_type \<Rightarrow> plan_op list \<Rightarrow> string list" where
  "targets t ops = map po_target (filter (\<lambda>p. po_type p = t) ops)"

lemma targets_append [simp]: "targets t (xs @ ys) = targets t xs @ targets t ys" "targets t [] = []"
  by (simp_all add: targets_def)

lemma op_types [simp]:
  "po_type (create_node_op n) = PlanCreateNode" "po_target (create_node_op n) = node_name n"
  "po_type (create_link_op l) = PlanCreateLink" "po_target (create_link_op l) = link_name l"
  "po_type (delete_link_op l) = PlanDeleteLink" "po_target (delete_link_op l) = link_name l"
  "po_type (delete_node_op n) = PlanDeleteNode" "po_target (delete_node_op n) = node_name n"
  by (simp_all add: create_node_op_def create_link_op_def delete_link_op_def delete_node_op_def Let_def)

lemma targets_maps [simp]:
  "targets t (map create_node_op ns) = (if t = PlanCreateNode then map node_name ns else [])"
  "targets t (map create_link_op ls) = (if t = PlanCreateLink then map link_name ls else [])"
  "targets t (map delete_link_op ls) = (if t = PlanDeleteLink then map link_name ls else [])"
  "targets t (map delete_node_op ns) = (if t = PlanDeleteNode then map node_name ns else [])"
  by (auto simp: targets_def comp_def)

lemma update_ops_targets:
  "targets t (update_ops ib tc n) = (if t = PlanUpdateNode \<and> update_ops ib tc n \<noteq> [] then [node_name n] else [])"
  by (auto simp: targets_def update_ops_def Let_def split: option.splits)

lemma concat_update_targets:
  "targets t (concat (map (update_ops ib tc) ns)) =
     (if t = PlanUpdateNode then map node_name (filter (\<lambda>n. update_ops ib tc n \<noteq> []) ns) else [])"
  by (induction ns) (auto simp: update_ops_targets)

lemma filter_not_indexed:
  "filter (\<lambda>x. index_by key ys (f x) = None) xs = filter (\<lambda>x. f x \<notin> set (map key ys)) xs"
  by (simp add: index_by_None)

text \<open>the nodes and links a plan creates are exactly those of the new topology whose names the deployed one
  does not have, and those it deletes exactly the deployed ones whose names the new one does not have, each
  once and in topology order.\<close>

theorem plan_creates_and_deletes_the_difference:
  "targets PlanCreateNode (fst (plan_changes (Some bs) ns ls ps)) =
      filter (\<lambda>nm. nm \<notin> set (map node_name (base_nodes bs))) (map node_name ns) \<and>
   targets PlanDeleteNode (fst (plan_changes (Some bs) ns ls ps)) =
      filter (\<lambda>nm. nm \<notin> set (map node_name ns)) (map node_name (base_nodes bs)) \<and>
   targets PlanCreateLink (fst (plan_changes (Some bs) ns ls ps)) =
      filter (\<lambda>nm. nm \<notin> set (map link_name (base_link_list bs))) (map link_name ls) \<and>
   targets PlanDeleteLink (fst (plan_changes (Some bs) ns ls ps)) =
      filter (\<lambda>nm. nm \<notin> set (map link_name ls)) (map link_name (base_link_list bs))"
  unfolding plan_changes_def Let_def fst_conv option.case targets_append targets_maps concat_update_targets filter_not_indexed
  by (simp add: filter_map comp_def)

section \<open>Updates\<close>

lemma touch_count: "foldl (touch sv) m ls nm = m nm + (if sv nm then count_list (concat (map (map ep_node \<circ> ends) ls)) nm else 0)"
proof -
  have one: "touch sv m l nm = m nm + (if sv nm then count_list (map ep_node (ends l)) nm else 0)" for m l
    by (auto simp: touch_def ends_def bump_def)
  show ?thesis by (induction ls arbitrary: m) (auto simp: one count_list_append)
qed

definition names_touched :: "link list \<Rightarrow> string set" where
  "names_touched ls = set (concat (map (map ep_node \<circ> ends) ls))"

lemma count_names_touched: "count_list (concat (map (map ep_node \<circ> ends) ls)) nm = 0 \<longleftrightarrow> nm \<notin> names_touched ls"
  by (simp only: names_touched_def count_list_0_iff)

text \<open>the nodes a plan updates are the surviving ones whose spec changed or that have an end of a link that is
  created or deleted.\<close>

lemma plan_updates_changed_survivors:
  "targets PlanUpdateNode (fst (plan_changes (Some bs) ns ls ps)) =
     map node_name (filter (\<lambda>n. case index_by node_name (base_nodes bs) (node_name n) of None \<Rightarrow> False
       | Some old \<Rightarrow> n_spec old \<noteq> n_spec n \<or>
           node_name n \<in> names_touched (filter (\<lambda>l. link_name l \<notin> set (map link_name (base_link_list bs))) ls) \<union>
             names_touched (filter (\<lambda>l. link_name l \<notin> set (map link_name ls)) (base_link_list bs))) ns)"
proof -
  have surv: "index_by node_name ns (node_name n) \<noteq> None" if "n \<in> set ns" for n
    using that unfolding index_by_ne_None by simp
  show ?thesis
    unfolding plan_changes_def Let_def fst_conv option.case targets_append targets_maps concat_update_targets filter_not_indexed
    by (auto simp: update_ops_def Let_def touch_count count_names_touched surv
        intro!: arg_cong [where f = "map node_name"] filter_cong split: option.splits)
qed

section \<open>Carrying a plan out\<close>

text \<open>The specification a plan implements: a world of node names and wired links, in which an operation is
  possible only when its node or link is (not) there, a link needs both its nodes, and a node is removed
  only after its links.\<close>

type_synonym wire = "string \<times> string \<times> string"

definition wire_of :: "link \<Rightarrow> wire" where
  "wire_of l = (link_name l, ep_node (end_a (l_spec l)), ep_node (end_b (l_spec l)))"

definition wire_ends :: "wire \<Rightarrow> string set" where
  "wire_ends w = {fst (snd w), snd (snd w)}"

inductive plan_step :: "wire set \<Rightarrow> string set \<times> wire set \<Rightarrow> plan_op \<Rightarrow> string set \<times> wire set \<Rightarrow> bool" for desired where
  create_node: "po_type p = PlanCreateNode \<Longrightarrow> po_target p \<notin> N \<Longrightarrow> plan_step desired (N, W) p (insert (po_target p) N, W)"
| create_link: "po_type p = PlanCreateLink \<Longrightarrow> w \<in> desired \<Longrightarrow> fst w = po_target p \<Longrightarrow> po_target p \<notin> fst ` W \<Longrightarrow> wire_ends w \<subseteq> N
    \<Longrightarrow> plan_step desired (N, W) p (N, insert w W)"
| delete_link: "po_type p = PlanDeleteLink \<Longrightarrow> w \<in> W \<Longrightarrow> fst w = po_target p \<Longrightarrow> plan_step desired (N, W) p (N, W - {w})"
| delete_node: "po_type p = PlanDeleteNode \<Longrightarrow> po_target p \<in> N \<Longrightarrow> po_target p \<notin> \<Union> (wire_ends ` W)
    \<Longrightarrow> plan_step desired (N, W) p (N - {po_target p}, W)"
| update_node: "po_type p = PlanUpdateNode \<Longrightarrow> po_target p \<in> N \<Longrightarrow> plan_step desired (N, W) p (N, W)"

inductive plan_steps :: "wire set \<Rightarrow> string set \<times> wire set \<Rightarrow> plan_op list \<Rightarrow> string set \<times> wire set \<Rightarrow> bool" for desired where
  none: "plan_steps desired s [] s"
| more: "plan_step desired s p t \<Longrightarrow> plan_steps desired t ps u \<Longrightarrow> plan_steps desired s (p # ps) u"

lemma plan_steps_append: "plan_steps d s ps t \<Longrightarrow> plan_steps d t qs u \<Longrightarrow> plan_steps d s (ps @ qs) u"
  by (induction rule: plan_steps.induct) (auto intro: plan_steps.intros)

lemma creating_nodes:
  "distinct (map node_name ns) \<Longrightarrow> set (map node_name ns) \<inter> N = {} \<Longrightarrow>
   plan_steps d (N, W) (map create_node_op ns) (N \<union> set (map node_name ns), W)"
proof (induction ns arbitrary: N)
  case (Cons n ns)
  have "plan_step d (N, W) (create_node_op n) (insert (node_name n) N, W)"
    using plan_step.create_node [of "create_node_op n" N d W] Cons.prems by auto
  moreover have "plan_steps d (insert (node_name n) N, W) (map create_node_op ns) (insert (node_name n) N \<union> set (map node_name ns), W)"
    using Cons.IH [of "insert (node_name n) N"] Cons.prems by simp
  ultimately show ?case by (auto intro: plan_steps.more)
qed (simp add: plan_steps.none)

lemma creating_links:
  "distinct (map link_name ls) \<Longrightarrow> set (map link_name ls) \<inter> fst ` W = {} \<Longrightarrow> \<Union> (wire_ends ` wire_of ` set ls) \<subseteq> N \<Longrightarrow> wire_of ` set ls \<subseteq> d \<Longrightarrow>
   plan_steps d (N, W) (map create_link_op ls) (N, W \<union> wire_of ` set ls)"
proof (induction ls arbitrary: W)
  case (Cons l ls)
  have nm: "fst (wire_of l) = link_name l" for l by (simp add: wire_of_def)
  have "plan_step d (N, W) (create_link_op l) (N, insert (wire_of l) W)"
    using plan_step.create_link [of "create_link_op l" "wire_of l" d W N] Cons.prems nm by auto
  moreover have "plan_steps d (N, insert (wire_of l) W) (map create_link_op ls) (N, insert (wire_of l) W \<union> wire_of ` set ls)"
    using Cons.IH [of "insert (wire_of l) W"] Cons.prems nm by simp
  ultimately show ?case by (auto intro: plan_steps.more)
qed (simp add: plan_steps.none)

lemma deleting_links:
  "distinct (map link_name ls) \<Longrightarrow> wire_of ` set ls \<subseteq> W \<Longrightarrow>
   plan_steps d (N, W) (map delete_link_op ls) (N, W - wire_of ` set ls)"
proof (induction ls arbitrary: W)
  case (Cons l ls)
  have nm: "fst (wire_of l) = link_name l" for l by (simp add: wire_of_def)
  have "plan_step d (N, W) (delete_link_op l) (N, W - {wire_of l})"
    using plan_step.delete_link [of "delete_link_op l" "wire_of l" W d N] Cons.prems nm by auto
  moreover have "wire_of l \<notin> wire_of ` set ls"
  proof
    assume "wire_of l \<in> wire_of ` set ls"
    then obtain k where "k \<in> set ls" "wire_of k = wire_of l" by auto
    then have "link_name l \<in> link_name ` set ls" by (simp add: wire_of_def rev_image_eqI)
    then show False using Cons.prems(1) by simp
  qed
  then have "plan_steps d (N, W - {wire_of l}) (map delete_link_op ls) (N, W - {wire_of l} - wire_of ` set ls)"
    using Cons.IH [of "W - {wire_of l}"] Cons.prems by (simp add: subset_Diff_insert)
  moreover have eq: "W - wire_of ` set (l # ls) = W - {wire_of l} - wire_of ` set ls" by auto
  ultimately show ?case unfolding eq list.map(2) by (blast intro: plan_steps.more)
qed (simp add: plan_steps.none)

lemma deleting_nodes:
  "distinct (map node_name ns) \<Longrightarrow> set (map node_name ns) \<subseteq> N \<Longrightarrow> set (map node_name ns) \<inter> \<Union> (wire_ends ` W) = {} \<Longrightarrow>
   plan_steps d (N, W) (map delete_node_op ns) (N - set (map node_name ns), W)"
proof (induction ns arbitrary: N)
  case (Cons n ns)
  have "plan_step d (N, W) (delete_node_op n) (N - {node_name n}, W)"
    using plan_step.delete_node [of "delete_node_op n" N W d] Cons.prems by auto
  moreover have "plan_steps d (N - {node_name n}, W) (map delete_node_op ns) (N - {node_name n} - set (map node_name ns), W)"
    using Cons.IH [of "N - {node_name n}"] Cons.prems by (simp add: subset_Diff_insert)
  moreover have eq: "N - set (map node_name (n # ns)) = N - {node_name n} - set (map node_name ns)" by auto
  ultimately show ?case unfolding eq list.map(2) [where f = delete_node_op] by (blast intro: plan_steps.more)
qed (simp add: plan_steps.none)

lemma updating_nodes:
  "set (map node_name ns) \<subseteq> N \<Longrightarrow> plan_steps d (N, W) (concat (map (update_ops ib tc) ns)) (N, W)"
proof (induction ns)
  case (Cons n ns)
  have "plan_steps d (N, W) (update_ops ib tc n) (N, W)"
    using Cons.prems by (auto simp: update_ops_def Let_def split: option.splits intro!: plan_steps.intros plan_step.update_node)
  then show ?case using Cons by (auto intro: plan_steps_append)
qed (simp add: plan_steps.none)

text \<open>A topology as a world, and what makes it one.\<close>

definition world_of :: "node list \<Rightarrow> link list \<Rightarrow> string set \<times> wire set" where
  "world_of ns ls = (set (map node_name ns), wire_of ` set ls)"

definition well_wired :: "node list \<Rightarrow> link list \<Rightarrow> bool" where
  "well_wired ns ls \<longleftrightarrow> distinct (map node_name ns) \<and> distinct (map link_name ls) \<and>
     list_all (\<lambda>l. set (map ep_node (ends l)) \<subseteq> set (map node_name ns)) ls"

lemma well_wired_ends: "well_wired ns ls \<Longrightarrow> \<Union> (wire_ends ` wire_of ` set ls) \<subseteq> set (map node_name ns)"
  by (auto simp: well_wired_def wire_ends_def wire_of_def ends_def list_all_iff)

text \<open>C8: the operations of a plan can be carried out one after the other from the deployed topology, and end in the
  new one: no link is wired before its nodes exist, and no node goes while a link still uses it. The
  links that stay keep the nodes they connect.\<close>

theorem plan_leads_to_desired:
  assumes "well_wired (base_nodes bs) (base_link_list bs)" "well_wired ns ls"
    and "\<And>l k. l \<in> set ls \<Longrightarrow> k \<in> set (base_link_list bs) \<Longrightarrow> link_name k = link_name l \<Longrightarrow> wire_of k = wire_of l"
  shows "plan_steps (wire_of ` set ls) (world_of (base_nodes bs) (base_link_list bs)) (fst (plan_changes (Some bs) ns ls ps)) (world_of ns ls)"
proof -
  let ?bn = "set (map node_name (base_nodes bs))" and ?bl = "base_link_list bs" and ?d = "wire_of ` set ls"
  let ?new = "filter (\<lambda>n. node_name n \<notin> ?bn) ns" and ?gone = "filter (\<lambda>n. node_name n \<notin> set (map node_name ns)) (base_nodes bs)"
  let ?nl = "filter (\<lambda>l. link_name l \<notin> set (map link_name ?bl)) ls" and ?ol = "filter (\<lambda>l. link_name l \<notin> set (map link_name ls)) ?bl"
  let ?N = "?bn \<union> set (map node_name ?new)"
  have dist: "distinct (map node_name ?new)" "distinct (map node_name ?gone)" "distinct (map link_name ?nl)" "distinct (map link_name ?ol)"
    using assms(1,2) by (simp_all add: well_wired_def distinct_map_filter)
  have N: "?N = ?bn \<union> set (map node_name ns)" by auto
  have s1: "plan_steps ?d (?bn, wire_of ` set ?bl) (map create_node_op ?new) (?N, wire_of ` set ?bl)"
    by (rule creating_nodes [OF dist(1)]) auto
  have s2: "plan_steps ?d (?N, wire_of ` set ?bl) (map create_link_op ?nl) (?N, wire_of ` set ?bl \<union> wire_of ` set ?nl)"
  proof (rule creating_links [OF dist(3)])
    show "set (map link_name ?nl) \<inter> fst ` wire_of ` set ?bl = {}" by (auto simp: wire_of_def image_image)
    show "\<Union> (wire_ends ` wire_of ` set ?nl) \<subseteq> ?N" using well_wired_ends [OF assms(2)] unfolding N by auto
  qed auto
  have s3: "plan_steps ?d (?N, wire_of ` set ?bl \<union> wire_of ` set ?nl) (map delete_link_op ?ol)
      (?N, wire_of ` set ?bl \<union> wire_of ` set ?nl - wire_of ` set ?ol)"
    by (rule deleting_links [OF dist(4)]) auto
  have W: "wire_of ` set ?bl \<union> wire_of ` set ?nl - wire_of ` set ?ol = wire_of ` set ls" (is "?L = ?R")
  proof
    show "?L \<subseteq> ?R"
    proof
      fix w assume w: "w \<in> ?L"
      show "w \<in> ?R"
      proof (cases "w \<in> wire_of ` set ?nl")
        case False
        with w have "w \<in> wire_of ` set ?bl" "w \<notin> wire_of ` set ?ol" by (simp_all only: Diff_iff Un_iff simp_thms)
        then obtain k where k: "k \<in> set ?bl" "w = wire_of k" "k \<notin> set ?ol" by (blast intro: imageI)
        then obtain l where "l \<in> set ls" "link_name l = link_name k" by auto
        then show ?thesis using assms(3) k by (metis imageI)
      qed auto
    qed
    show "?R \<subseteq> ?L"
    proof
      fix w assume "w \<in> ?R"
      then obtain l where l: "l \<in> set ls" "w = wire_of l" by auto
      have "w \<notin> wire_of ` set ?ol"
      proof
        assume "w \<in> wire_of ` set ?ol"
        then obtain k where "k \<in> set ?ol" "wire_of k = wire_of l" using l(2) by auto
        then show False using l(1) by (auto simp: wire_of_def rev_image_eqI)
      qed
      moreover have "w \<in> wire_of ` set ?bl \<union> wire_of ` set ?nl"
      proof (cases "link_name l \<in> set (map link_name ?bl)")
        case True
        then obtain k where "k \<in> set ?bl" "link_name k = link_name l" by auto
        then have "w = wire_of k" using assms(3) [OF l(1)] l(2) by simp
        then show ?thesis using \<open>k \<in> set ?bl\<close> by blast
      qed (use l in auto)
      ultimately show "w \<in> ?L" by simp
    qed
  qed
  have s4: "plan_steps ?d (?N, ?R) (map delete_node_op ?gone) (?N - set (map node_name ?gone), ?R)"
    by (rule deleting_nodes [OF dist(2)]) (use well_wired_ends [OF assms(2)] in auto)
  have N': "?N - set (map node_name ?gone) = set (map node_name ns)" unfolding N by (auto simp: rev_image_eqI)
  have s5: "plan_steps ?d (set (map node_name ns), ?R) (concat (map (update_ops ib tc) ns)) (set (map node_name ns), ?R)" for ib tc
    by (rule updating_nodes) simp
  show ?thesis
    unfolding plan_changes_def Let_def fst_conv option.case world_of_def filter_not_indexed
    by (intro plan_steps_append [OF s1] plan_steps_append [OF s2] plan_steps_append [OF s3 [unfolded W]] plan_steps_append [OF s4 [unfolded N']] s5)
qed

section \<open>Replanning\<close>

lemma foldl_touch_Nil: "foldl (touch sv) m [] = m"
  by simp

lemma filter_known: "map f xs = map f ys \<Longrightarrow> filter (\<lambda>x. f x \<notin> set (map f ys)) xs = []"
proof -
  assume "map f xs = map f ys"
  then have "f ` set xs = f ` set ys" by (metis set_map)
  then show ?thesis by (auto simp: filter_empty_conv)
qed

text \<open>planning a topology that is the deployed one (the same named nodes with the same specs, the same links)
  yields no operation and no warning.\<close>

theorem replanning_changes_nothing:
  assumes "map (\<lambda>n. (node_name n, n_spec n)) ns = map (\<lambda>n. (node_name n, n_spec n)) (base_nodes bs)"
    and "distinct (map node_name ns)" "map link_name ls = map link_name (base_link_list bs)"
  shows "plan_changes (Some bs) ns ls ps = ([], [])"
proof -
  have nm: "map node_name ns = map node_name (base_nodes bs)"
    using arg_cong [OF assms(1), of "map fst"] by (simp add: comp_def)
  note e = filter_known [OF nm] filter_known [OF nm [symmetric]] filter_known [OF assms(3)] filter_known [OF assms(3) [symmetric]]
  have old: "\<exists>k. index_by node_name (base_nodes bs) (node_name n) = Some k \<and> n_spec k = n_spec n" if "n \<in> set ns" for n
  proof -
    have "(node_name n, n_spec n) \<in> set (map (\<lambda>n. (node_name n, n_spec n)) (base_nodes bs))"
      using that unfolding assms(1) [symmetric] by auto
    then obtain k where k: "k \<in> set (base_nodes bs)" "node_name k = node_name n" "n_spec k = n_spec n" by auto
    then show ?thesis using index_by_distinct [of node_name "base_nodes bs" k] assms(2) nm by auto
  qed
  then have upd: "update_ops (index_by node_name (base_nodes bs)) (\<lambda>_. 0) n = []" if "n \<in> set ns" for n
    using that by (fastforce simp: update_ops_def)
  have warn: "removed_server_warning bsv (index_by node_name ns) n = []" if "n \<in> set (base_nodes bs)" for n bsv
  proof -
    have "node_name n \<in> node_name ` set ns" using that arg_cong [OF nm, of set] by auto
    then show ?thesis unfolding removed_server_warning_def index_by_ne_None by simp
  qed
  have "concat (map (update_ops (index_by node_name (base_nodes bs)) (\<lambda>_. 0)) ns) = []" using upd by simp
  moreover have "concat (map (removed_server_warning bsv (index_by node_name ns)) (base_nodes bs)) = []" for bsv using warn by simp
  ultimately show ?thesis
    by (simp add: plan_changes_def Let_def filter_not_indexed e removed_server_warnings_def del: set_map concat_eq_Nil_conv)
qed

section \<open>Identity\<close>

lemma carry_node_name [simp]: "node_name (carry_node (index_by node_name ns) n) = node_name n"
proof (cases "index_by node_name ns (node_name n)")
  case (Some m)
  from index_by_Some [OF this] Some show ?thesis by (simp add: carry_node_def)
qed (simp add: carry_node_def)

lemma carry_link_name [simp]: "link_name (carry_link (index_by link_name ls) ids l) = link_name l"
proof (cases "index_by link_name ls (link_name l)")
  case (Some m)
  from index_by_Some [OF this] Some show ?thesis by (simp add: carry_link_def Let_def)
qed (simp add: carry_link_def Let_def)

lemma carry_link_ends:
  "ep_node (end_a (l_spec (carry_link m ids l))) = ep_node (end_a (l_spec l))" "ep_node (end_b (l_spec (carry_link m ids l))) = ep_node (end_b (l_spec l))"
  "ep_id (end_a (l_spec (carry_link m ids l))) = ids (ep_node (end_a (l_spec l)))" "ep_id (end_b (l_spec (carry_link m ids l))) = ids (ep_node (end_b (l_spec l)))"
  by (simp_all add: carry_link_def Let_def split: option.splits)

text \<open>after the carry-over a node or link that the store knows by name has the stored identity, phase and status
  and the freshly built spec, every link end still names the same node, and its ID is that node's.\<close>

theorem carried_identity_is_consistent:
  assumes "carry_over_identity ns ls old_ns old_ls = (ns', ls')" "well_wired ns ls"
    and "distinct (map node_name old_ns)" "distinct (map link_name old_ls)"
  shows "map n_spec ns' = map n_spec ns \<and> map node_name ns' = map node_name ns \<and> map link_name ls' = map link_name ls \<and>
    list_all (\<lambda>n'. list_all (\<lambda>old. node_name old = node_name n' \<longrightarrow> n_meta n' = n_meta old \<and> n_status n' = n_status old) old_ns) ns' \<and>
    list_all (\<lambda>l'. list_all (\<lambda>old. link_name old = link_name l' \<longrightarrow> l_meta l' = l_meta old \<and> l_status l' = l_status old) old_ls) ls' \<and>
    list_all (\<lambda>l'. list_all (\<lambda>e. list_ex (\<lambda>n'. node_name n' = ep_node e \<and> node_id n' = ep_id e) ns') (ends l')) ls'"
proof -
  let ?cn = "carry_node (index_by node_name old_ns)" and ?ns = "map (carry_node (index_by node_name old_ns)) ns"
  let ?cl = "carry_link (index_by link_name old_ls) (id_by_name ?ns)"
  have r: "ns' = ?ns" "ls' = map ?cl ls" using assms(1) by (auto simp: carry_over_identity_def Let_def)
  have names: "map node_name ns' = map node_name ns" by (simp add: r(1))
  have end_ok: "list_ex (\<lambda>n'. node_name n' = nm \<and> node_id n' = id_by_name ?ns nm) ?ns" if "nm \<in> set (map node_name ns)" for nm
  proof -
    have "index_by node_name ?ns nm \<noteq> None" using that names unfolding index_by_ne_None r(1) [symmetric] by (metis set_map)
    then obtain n where n: "index_by node_name ?ns nm = Some n" by blast
    from index_by_Some [OF this] n show ?thesis by (auto simp: id_by_name_def list_ex_iff)
  qed
  have sp: "n_spec (?cn n) = n_spec n" for n by (simp add: carry_node_def split: option.splits)
  have nk: "n_meta (?cn n) = n_meta old \<and> n_status (?cn n) = n_status old" if "old \<in> set old_ns" "node_name old = node_name n" for n old
    using index_by_distinct [OF assms(3) that(1)] that(2) by (simp add: carry_node_def)
  have lk: "l_meta (?cl l) = l_meta old \<and> l_status (?cl l) = l_status old" if "old \<in> set old_ls" "link_name old = link_name l" for l old
    using index_by_distinct [OF assms(4) that(1)] that(2) by (simp add: carry_link_def Let_def)
  have ends_in: "ep_node (end_a (l_spec l)) \<in> set (map node_name ns)" "ep_node (end_b (l_spec l)) \<in> set (map node_name ns)" if "l \<in> set ls" for l
    using assms(2) that by (auto simp: well_wired_def list_all_iff ends_def)
  show ?thesis
    using end_ok [OF ends_in(1)] end_ok [OF ends_in(2)] nk lk
    by (simp add: names r sp list_all_iff ends_def carry_link_ends)
qed

section \<open>On a small topology\<close>

text \<open>Deployed: the external router, the DC edge, and a second edge that the new topology no longer has.\<close>

definition old_edge :: node where
  "old_edge = wire_node ''n9'' ''dcedge-9'' (empty_spec ''lab'' RoleDCEdge)"

definition old_base :: base where
  "old_base = \<lparr>base_nodes = [wire_ext, wire_edge, old_edge],
     base_link_list = [wire_fabric ''l1'' wire_ext ''eth1'' wire_edge ''eth1'' 0, wire_fabric ''l9'' wire_ext ''eth2'' old_edge ''eth1'' 6]\<rparr>"

lemma old_base_wired: "well_wired (base_nodes old_base) (base_link_list old_base)" "well_wired wire_nodes wire_links"
  by code_simp+

theorem plan_leads_to_desired_witness:
  "plan_steps (wire_of ` set wire_links) (world_of (base_nodes old_base) (base_link_list old_base))
     (fst (plan_changes (Some old_base) wire_nodes wire_links [])) (world_of wire_nodes wire_links) \<and>
   length (fst (plan_changes (Some old_base) wire_nodes wire_links [])) = 12"
proof -
  have "list_all (\<lambda>l. list_all (\<lambda>k. link_name k = link_name l \<longrightarrow> wire_of k = wire_of l) (base_link_list old_base)) wire_links"
    by code_simp
  then have "wire_of k = wire_of l" if "l \<in> set wire_links" "k \<in> set (base_link_list old_base)" "link_name k = link_name l" for l k
    using that by (auto simp: list_all_iff)
  note w = plan_leads_to_desired [OF old_base_wired this]
  have "length (fst (plan_changes (Some old_base) wire_nodes wire_links [])) = 12" by code_simp
  with w show ?thesis by blast
qed

theorem replanning_changes_nothing_witness:
  "plan_changes (Some \<lparr>base_nodes = wire_nodes, base_link_list = wire_links\<rparr>) wire_nodes wire_links [] = ([], [])"
proof -
  have "distinct (map node_name wire_nodes)" by code_simp
  then show ?thesis using replanning_changes_nothing [of wire_nodes "\<lparr>base_nodes = wire_nodes, base_link_list = wire_links\<rparr>" wire_links "[]"] by simp
qed

theorem carried_identity_is_consistent_witness:
  "list_all (\<lambda>l'. list_all (\<lambda>e. list_ex (\<lambda>n'. node_name n' = ep_node e \<and> node_id n' = ep_id e)
     (fst (carry_over_identity wire_nodes wire_links (base_nodes old_base) (base_link_list old_base)))) (ends l'))
     (snd (carry_over_identity wire_nodes wire_links (base_nodes old_base) (base_link_list old_base)))"
proof -
  have d: "distinct (map node_name (base_nodes old_base))" "distinct (map link_name (base_link_list old_base))" by code_simp+
  obtain ns' ls' where r: "carry_over_identity wire_nodes wire_links (base_nodes old_base) (base_link_list old_base) = (ns', ls')" by force
  from carried_identity_is_consistent [OF r old_base_wired(2) d] show ?thesis unfolding r by simp
qed

end
