(* ===== verification/Increment.thy ===== *)
theory Increment
  imports PlanDiffProps ClabProps Paths
begin

text \<open>
  The incremental deploy artifact: internal/runtime/increment.go and
  controller/internal/biz/increment.go. Reading a file is a parameter: the content at a path, or None
  when it cannot be read. The map of commands per node is the list of its entries in insertion order.
\<close>

record increment_endpoint =
  ie_node :: string
  ie_iface :: string

record increment_link =
  il_a :: increment_endpoint
  il_b :: increment_endpoint

record increment =
  inc_lab :: string
  add_nodes :: "string list"
  add_links :: "increment_link list"
  node_exec :: "(string \<times> string list) list"
  reload_nodes :: "string list"
  remove_nodes :: "string list"

definition inc_empty :: "increment \<Rightarrow> bool" where
  "inc_empty i \<longleftrightarrow> add_nodes i = [] \<and> add_links i = [] \<and> node_exec i = [] \<and> reload_nodes i = [] \<and> remove_nodes i = []"

text \<open>\<open>m[k] = append(m[k], cmds...)\<close>.\<close>

fun exec_add :: "string \<Rightarrow> string list \<Rightarrow> (string \<times> string list) list \<Rightarrow> (string \<times> string list) list" where
  "exec_add k cmds [] = [(k, cmds)]"
| "exec_add k cmds ((j, cs) # es) = (if j = k then (j, cs @ cmds) # es else (j, cs) # exec_add k cmds es)"

definition inc_link_of :: "link \<Rightarrow> increment_link" where
  "inc_link_of l = (let a = end_a (l_spec l); z = end_b (l_spec l) in
    \<lparr>il_a = \<lparr>ie_node = ep_node a, ie_iface = ep_iface a\<rparr>, il_b = \<lparr>ie_node = ep_node z, ie_iface = ep_iface z\<rparr>\<rparr>)"

definition add_inc_link :: "(string \<Rightarrow> bool) \<Rightarrow> increment \<Rightarrow> link \<Rightarrow> increment" where
  "add_inc_link in_base i l = (let a = end_a (l_spec l); i1 = i\<lparr>add_links := add_links i @ [inc_link_of l]\<rparr> in
    if kind (l_spec l) = LinkServerAccess \<and> in_base (ep_node a)
    then i1\<lparr>node_exec := exec_add (ep_node a) (access_port_attach (ep_iface a) (l_vlan_id (l_spec l))) (node_exec i1)\<rparr>
    else i1)"

datatype inc_error = UnsupportedRemoval string | ConfigUnreadable string

definition config_path :: "string \<Rightarrow> string \<Rightarrow> string" where
  "config_path dir nm = path_join [dir, path_join [''configs'', nm, ''frr.conf'']]"

definition reload_step :: "(string \<Rightarrow> string option) \<Rightarrow> string \<Rightarrow> string \<Rightarrow> increment \<Rightarrow> node \<Rightarrow> inc_error + increment" where
  "reload_step read old_dir new_dir i n =
    (case read (config_path new_dir (node_name n)) of
       None \<Rightarrow> Inl (ConfigUnreadable (node_name n))
     | Some new_conf \<Rightarrow> Inr (if read (config_path old_dir (node_name n)) \<noteq> Some new_conf
         then i\<lparr>reload_nodes := reload_nodes i @ [node_name n]\<rparr> else i))"

definition build_increment :: "(string \<Rightarrow> string option) \<Rightarrow> string \<Rightarrow> base \<Rightarrow> node list \<Rightarrow> link list \<Rightarrow> string \<Rightarrow> string \<Rightarrow> inc_error + increment" where
  "build_increment read lab bs ns ls old_dir new_dir =
    (let base_node = (\<lambda>nm. nm \<in> set (map node_name (base_nodes bs))); base_link = (\<lambda>nm. nm \<in> set (map link_name (base_link_list bs)));
         new_node = (\<lambda>nm. nm \<in> set (map node_name ns)); new_link = (\<lambda>nm. nm \<in> set (map link_name ls));
         i0 = \<lparr>inc_lab = lab, add_nodes = map node_name (filter (\<lambda>n. \<not> base_node (node_name n)) ns), add_links = [], node_exec = [],
               reload_nodes = [], remove_nodes = []\<rparr>;
         i1 = foldl (add_inc_link base_node) i0 (filter (\<lambda>l. \<not> base_link (link_name l)) ls) in
     ebind (efold (\<lambda>_ l. if new_node (ep_node (end_a (l_spec l))) \<and> new_node (ep_node (end_b (l_spec l)))
                          then Inl (UnsupportedRemoval (link_name l)) else Inr ())
              () (filter (\<lambda>l. \<not> new_link (link_name l)) (base_link_list bs))) (\<lambda>_.
       efold (reload_step read old_dir new_dir)
         (i1\<lparr>remove_nodes := map node_name (filter (\<lambda>n. \<not> new_node (node_name n)) (base_nodes bs))\<rparr>)
         (filter (\<lambda>n. base_node (node_name n)) ns)))"

definition restore_scope :: "node list option \<Rightarrow> node list \<Rightarrow> node list" where
  "restore_scope base_snap ns = (case base_snap of None \<Rightarrow> ns
     | Some bns \<Rightarrow> filter (\<lambda>n. node_name n \<notin> set (map node_name bns)) ns)"

section \<open>What the increment holds\<close>

lemma add_inc_links:
  "add_links (foldl (add_inc_link ib) i ls) = add_links i @ map inc_link_of ls"
  "add_nodes (foldl (add_inc_link ib) i ls) = add_nodes i" "remove_nodes (foldl (add_inc_link ib) i ls) = remove_nodes i"
  "reload_nodes (foldl (add_inc_link ib) i ls) = reload_nodes i" "inc_lab (foldl (add_inc_link ib) i ls) = inc_lab i"
  by (induction ls arbitrary: i) (simp_all add: add_inc_link_def Let_def)

text \<open>The commands entered for a node.\<close>

definition cmds_of :: "(string \<times> string list) list \<Rightarrow> string \<Rightarrow> string list" where
  "cmds_of es k = (case map_of es k of None \<Rightarrow> [] | Some cs \<Rightarrow> cs)"

lemma cmds_of_add: "cmds_of (exec_add k cmds es) j = (if j = k then cmds_of es k @ cmds else cmds_of es j)"
  by (induction k cmds es rule: exec_add.induct) (auto simp: cmds_of_def)

lemma exec_of_links:
  "cmds_of (node_exec (foldl (add_inc_link ib) i ls)) nm = cmds_of (node_exec i) nm @
     concat (map (\<lambda>l. access_port_attach (ep_iface (end_a (l_spec l))) (l_vlan_id (l_spec l)))
       (filter (\<lambda>l. kind (l_spec l) = LinkServerAccess \<and> ib nm \<and> ep_node (end_a (l_spec l)) = nm) ls))"
  by (induction ls arbitrary: i) (auto simp: add_inc_link_def Let_def cmds_of_add)

lemma reload_all:
  assumes "efold (reload_step read od nd) i ns = Inr i'"
  shows "i' = i\<lparr>reload_nodes := reload_nodes i @ map node_name (filter (\<lambda>n. read (config_path od (node_name n)) \<noteq> read (config_path nd (node_name n))) ns)\<rparr>"
    "list_all (\<lambda>n. read (config_path nd (node_name n)) \<noteq> None) ns"
proof -
  have "i' = i\<lparr>reload_nodes := reload_nodes i @ map node_name (filter (\<lambda>n. read (config_path od (node_name n)) \<noteq> read (config_path nd (node_name n))) ns)\<rparr>
     \<and> list_all (\<lambda>n. read (config_path nd (node_name n)) \<noteq> None) ns"
    using assms
  proof (induction ns arbitrary: i)
    case (Cons n ns)
    obtain c where c: "read (config_path nd (node_name n)) = Some c" using Cons.prems by (cases "read (config_path nd (node_name n))") (auto simp: reload_step_def)
    show ?case
    proof (cases "read (config_path od (node_name n)) = Some c")
      case True
      then have "reload_step read od nd i n = Inr i" using c by (simp add: reload_step_def)
      then have "efold (reload_step read od nd) i ns = Inr i'" using Cons.prems by simp
      from Cons.IH [OF this] show ?thesis using True c by simp
    next
      case False
      then have "reload_step read od nd i n = Inr (i\<lparr>reload_nodes := reload_nodes i @ [node_name n]\<rparr>)" using c by (simp add: reload_step_def)
      then have "efold (reload_step read od nd) (i\<lparr>reload_nodes := reload_nodes i @ [node_name n]\<rparr>) ns = Inr i'"
        using Cons.prems by simp
      from Cons.IH [OF this] show ?thesis using False c by simp
    qed
  qed simp
  then show "i' = i\<lparr>reload_nodes := reload_nodes i @ map node_name (filter (\<lambda>n. read (config_path od (node_name n)) \<noteq> read (config_path nd (node_name n))) ns)\<rparr>"
    "list_all (\<lambda>n. read (config_path nd (node_name n)) \<noteq> None) ns" by blast+
qed

definition severed :: "node list \<Rightarrow> link \<Rightarrow> bool" where
  "severed ns l \<longleftrightarrow> set (map ep_node (ends l)) \<subseteq> set (map node_name ns)"

lemma removal_check:
  "efold (\<lambda>_ l. if ep_node (end_a (l_spec l)) \<in> set (map node_name ns) \<and> ep_node (end_b (l_spec l)) \<in> set (map node_name ns)
       then Inl (UnsupportedRemoval (link_name l)) else Inr ()) () xs =
    (case find (severed ns) xs of None \<Rightarrow> Inr () | Some l \<Rightarrow> Inl (UnsupportedRemoval (link_name l)))"
  by (induction xs) (auto simp: severed_def ends_def)

lemma reload_error:
  "(\<exists>i'. efold (reload_step read od nd) i ns = Inr i') \<longleftrightarrow> find (\<lambda>n. read (config_path nd (node_name n)) = None) ns = None"
  "find (\<lambda>n. read (config_path nd (node_name n)) = None) ns = Some n \<Longrightarrow> efold (reload_step read od nd) i ns = Inl (ConfigUnreadable (node_name n))"
  by (induction ns arbitrary: i) (auto simp: reload_step_def split: option.splits if_splits)

definition removed_links :: "base \<Rightarrow> link list \<Rightarrow> link list" where
  "removed_links bs ls = filter (\<lambda>l. link_name l \<notin> set (map link_name ls)) (base_link_list bs)"

definition survivors :: "base \<Rightarrow> node list \<Rightarrow> node list" where
  "survivors bs ns = filter (\<lambda>n. node_name n \<in> set (map node_name (base_nodes bs))) ns"

lemma build_increment_cases:
  assumes "build_increment read lab bs ns ls od nd = Inr inc"
  shows "find (severed ns) (removed_links bs ls) = None" "list_all (\<lambda>n. read (config_path nd (node_name n)) \<noteq> None) (survivors bs ns)"
    "add_nodes inc = map node_name (filter (\<lambda>n. node_name n \<notin> set (map node_name (base_nodes bs))) ns)"
    "remove_nodes inc = map node_name (filter (\<lambda>n. node_name n \<notin> set (map node_name ns)) (base_nodes bs))"
    "add_links inc = map inc_link_of (filter (\<lambda>l. link_name l \<notin> set (map link_name (base_link_list bs))) ls)"
    "reload_nodes inc = map node_name (filter (\<lambda>n. read (config_path od (node_name n)) \<noteq> read (config_path nd (node_name n))) (survivors bs ns))"
    "cmds_of (node_exec inc) nm = concat (map (\<lambda>l. access_port_attach (ep_iface (end_a (l_spec l))) (l_vlan_id (l_spec l)))
       (filter (\<lambda>l. kind (l_spec l) = LinkServerAccess \<and> nm \<in> set (map node_name (base_nodes bs)) \<and> ep_node (end_a (l_spec l)) = nm)
         (filter (\<lambda>l. link_name l \<notin> set (map link_name (base_link_list bs))) ls)))"
proof -
  define i0 where "i0 = foldl (add_inc_link (\<lambda>nm. nm \<in> set (map node_name (base_nodes bs))))
    \<lparr>inc_lab = lab, add_nodes = map node_name (filter (\<lambda>n. node_name n \<notin> set (map node_name (base_nodes bs))) ns), add_links = [], node_exec = [],
     reload_nodes = [], remove_nodes = []\<rparr> (filter (\<lambda>l. link_name l \<notin> set (map link_name (base_link_list bs))) ls)"
  define i1 where "i1 = i0\<lparr>remove_nodes := map node_name (filter (\<lambda>n. node_name n \<notin> set (map node_name ns)) (base_nodes bs))\<rparr>"
  have "find (severed ns) (removed_links bs ls) = None \<and> efold (reload_step read od nd) i1 (survivors bs ns) = Inr inc"
    using assms unfolding build_increment_def Let_def removal_check i1_def i0_def removed_links_def survivors_def
    by (cases "find (severed ns) (filter (\<lambda>l. link_name l \<notin> set (map link_name ls)) (base_link_list bs))") simp_all
  note r = conjunct1 [OF this] reload_all [OF conjunct2 [OF this]]
  have i0: "add_nodes i0 = map node_name (filter (\<lambda>n. node_name n \<notin> set (map node_name (base_nodes bs))) ns)"
    "add_links i0 = map inc_link_of (filter (\<lambda>l. link_name l \<notin> set (map link_name (base_link_list bs))) ls)" "reload_nodes i0 = []"
    by (simp_all add: i0_def add_inc_links)
  show "find (severed ns) (removed_links bs ls) = None" "list_all (\<lambda>n. read (config_path nd (node_name n)) \<noteq> None) (survivors bs ns)"
    by (rule r(1) r(3))+
  show "add_nodes inc = map node_name (filter (\<lambda>n. node_name n \<notin> set (map node_name (base_nodes bs))) ns)"
    "remove_nodes inc = map node_name (filter (\<lambda>n. node_name n \<notin> set (map node_name ns)) (base_nodes bs))"
    "add_links inc = map inc_link_of (filter (\<lambda>l. link_name l \<notin> set (map link_name (base_link_list bs))) ls)"
    "reload_nodes inc = map node_name (filter (\<lambda>n. read (config_path od (node_name n)) \<noteq> read (config_path nd (node_name n))) (survivors bs ns))"
    by (simp_all add: r(2) i1_def i0)
  have ex: "node_exec inc = node_exec i0" by (simp add: r(2) i1_def)
  show "cmds_of (node_exec inc) nm = concat (map (\<lambda>l. access_port_attach (ep_iface (end_a (l_spec l))) (l_vlan_id (l_spec l)))
       (filter (\<lambda>l. kind (l_spec l) = LinkServerAccess \<and> nm \<in> set (map node_name (base_nodes bs)) \<and> ep_node (end_a (l_spec l)) = nm)
         (filter (\<lambda>l. link_name l \<notin> set (map link_name (base_link_list bs))) ls)))"
    unfolding ex i0_def exec_of_links by (simp add: cmds_of_def [of "[]"] del: set_map)
qed

section \<open>Properties\<close>

text \<open>an increment can be built unless a link goes away between two nodes that stay, which is reported for the
  first such link, or the new configuration of a surviving node cannot be read.\<close>

lemma increment_error_cases:
  "case find (severed ns) (removed_links bs ls) of
      Some l \<Rightarrow> build_increment read lab bs ns ls od nd = Inl (UnsupportedRemoval (link_name l))
    | None \<Rightarrow> (case find (\<lambda>n. read (config_path nd (node_name n)) = None) (survivors bs ns) of
        Some n \<Rightarrow> build_increment read lab bs ns ls od nd = Inl (ConfigUnreadable (node_name n))
      | None \<Rightarrow> \<exists>inc. build_increment read lab bs ns ls od nd = Inr inc)"
  using reload_error [where read = read and od = od and nd = nd and ns = "survivors bs ns"]
  unfolding build_increment_def Let_def removal_check removed_links_def survivors_def
  by (auto split: option.splits)

text \<open>the increment agrees with the plan: it adds and removes the nodes that the plan creates and deletes and wires
  as many links as the plan creates, and it reloads a subset of the surviving nodes, those whose rendered
  configuration is not the deployed one.\<close>

theorem increment_agrees_with_plan:
  assumes "build_increment read lab bs ns ls od nd = Inr inc"
  shows "add_nodes inc = targets PlanCreateNode (fst (plan_changes (Some bs) ns ls ps)) \<and>
    remove_nodes inc = targets PlanDeleteNode (fst (plan_changes (Some bs) ns ls ps)) \<and>
    length (add_links inc) = length (targets PlanCreateLink (fst (plan_changes (Some bs) ns ls ps))) \<and>
    reload_nodes inc = map node_name (filter (\<lambda>n. read (config_path od (node_name n)) \<noteq> read (config_path nd (node_name n))) (survivors bs ns)) \<and>
    map node_name (restore_scope (Some (base_nodes bs)) ns) = add_nodes inc"
  using build_increment_cases(3-6) [OF assms]
  unfolding plan_changes_def Let_def fst_conv option.case targets_append targets_maps concat_update_targets filter_not_indexed restore_scope_def
  by simp

section \<open>Executing an increment\<close>

text \<open>The specification of the agent: a running lab is its containers and its cables (between interfaces); new
  containers are created, the new cables plugged, and removed containers take their cables with them.\<close>

type_synonym plug = "string \<times> string"

definition cable_of :: "link \<Rightarrow> plug \<times> plug" where
  "cable_of l = ((ep_node (end_a (l_spec l)), ep_iface (end_a (l_spec l))), (ep_node (end_b (l_spec l)), ep_iface (end_b (l_spec l))))"

definition plugs :: "increment_link \<Rightarrow> plug \<times> plug" where
  "plugs il = ((ie_node (il_a il), ie_iface (il_a il)), (ie_node (il_b il), ie_iface (il_b il)))"

definition run_increment :: "string set \<times> (plug \<times> plug) set \<Rightarrow> increment \<Rightarrow> string set \<times> (plug \<times> plug) set" where
  "run_increment w i = (let gone = set (remove_nodes i) in
     (fst w \<union> set (add_nodes i) - gone,
      {c \<in> snd w \<union> plugs ` set (add_links i). fst (fst c) \<notin> gone \<and> fst (snd c) \<notin> gone}))"

definition running :: "node list \<Rightarrow> link list \<Rightarrow> string set \<times> (plug \<times> plug) set" where
  "running ns ls = (set (map node_name ns), cable_of ` set ls)"

lemma plugs_of_link [simp]: "plugs (inc_link_of l) = cable_of l"
  by (simp add: plugs_def inc_link_of_def cable_of_def Let_def)

lemma wired_end_names:
  assumes "well_wired ns ls" "l \<in> set ls"
  shows "fst (fst (cable_of l)) \<in> set (map node_name ns)" "fst (snd (cable_of l)) \<in> set (map node_name ns)"
  using assms by (auto simp: well_wired_def list_all_iff ends_def cable_of_def)


text \<open>on a surviving leaf the delta commands attach every new server port with the very commands that the
  full command list of a freshly deployed leaf has for it.\<close>

theorem new_server_ports_are_attached:
  assumes "build_increment read lab bs ns ls od nd = Inr inc" "l \<in> set ls" "kind (l_spec l) = LinkServerAccess"
    and "link_name l \<notin> set (map link_name (base_link_list bs))" "ep_node (end_a (l_spec l)) \<in> set (map node_name (base_nodes bs))"
  shows "runs_within (access_port_attach (ep_iface (end_a (l_spec l))) (l_vlan_id (l_spec l))) (cmds_of (node_exec inc) (ep_node (end_a (l_spec l))))"
proof -
  let ?f = "\<lambda>l. access_port_attach (ep_iface (end_a (l_spec l))) (l_vlan_id (l_spec l))"
  let ?ls = "filter (\<lambda>k. kind (l_spec k) = LinkServerAccess \<and> ep_node (end_a (l_spec l)) \<in> set (map node_name (base_nodes bs)) \<and>
     ep_node (end_a (l_spec k)) = ep_node (end_a (l_spec l))) (filter (\<lambda>l. link_name l \<notin> set (map link_name (base_link_list bs))) ls)"
  have "l \<in> set ?ls" using assms(2-5) by simp
  from runs_within_concat [OF this, of ?f "[]" "[]"] show ?thesis
    unfolding build_increment_cases(7) [OF assms(1)] by simp
qed

section \<open>On a small topology\<close>

text \<open>Deployed without the server: it is added behind the two running leaves, whose configurations changed.\<close>

definition serverless :: base where
  "serverless = \<lparr>base_nodes = [wire_ext, wire_edge, wire_leaf_a, wire_leaf_b], base_link_list = take 4 wire_links\<rparr>"

definition demo_files :: "string \<Rightarrow> string option" where
  "demo_files p = (if p = ''gen/1/configs/leaf-a/frr.conf'' then Some ''old'' else Some ''new'')"

lemma serverless_wired: "well_wired (base_nodes serverless) (base_link_list serverless)" "well_wired wire_nodes wire_links"
  by code_simp+

lemma serverless_increment:
  obtains inc where "build_increment demo_files ''lab'' serverless wire_nodes wire_links ''gen/1'' ''gen/2'' = Inr inc"
proof -
  have "find (severed wire_nodes) (removed_links serverless wire_links) = None" by code_simp
  moreover have "find (\<lambda>n. demo_files (config_path ''gen/2'' (node_name n)) = None) (survivors serverless wire_nodes) = None"
    by (simp add: find_None_iff demo_files_def)
  ultimately show ?thesis
    using that reload_error(1) [where read = demo_files and od = "''gen/1''" and nd = "''gen/2''" and ns = "survivors serverless wire_nodes"]
    unfolding build_increment_def Let_def removal_check removed_links_def survivors_def by (auto simp del: set_map)
qed

theorem increment_agrees_with_plan_witness:
  "\<exists>inc. build_increment demo_files ''lab'' serverless wire_nodes wire_links ''gen/1'' ''gen/2'' = Inr inc \<and>
     add_nodes inc = targets PlanCreateNode (fst (plan_changes (Some serverless) wire_nodes wire_links []))"
proof -
  obtain inc where inc: "build_increment demo_files ''lab'' serverless wire_nodes wire_links ''gen/1'' ''gen/2'' = Inr inc"
    by (rule serverless_increment)
  from increment_agrees_with_plan [OF inc, of "[]"] inc show ?thesis by blast
qed


theorem new_server_ports_are_attached_witness:
  "\<exists>inc. build_increment demo_files ''lab'' serverless wire_nodes wire_links ''gen/1'' ''gen/2'' = Inr inc \<and>
     runs_within (access_port_attach ''eth3'' 10) (cmds_of (node_exec inc) ''leaf-a'')"
proof -
  obtain inc where inc: "build_increment demo_files ''lab'' serverless wire_nodes wire_links ''gen/1'' ''gen/2'' = Inr inc"
    by (rule serverless_increment)
  let ?l = "wire_l2 ''l5'' LinkServerAccess wire_leaf_a ''eth3'' wire_server ''eth1''"
  have l: "?l \<in> set wire_links" by (simp add: wire_links_def)
  have f: "kind (l_spec ?l) = LinkServerAccess" "link_name ?l \<notin> set (map link_name (base_link_list serverless))"
    "ep_node (end_a (l_spec ?l)) \<in> set (map node_name (base_nodes serverless))" by code_simp+
  have v: "ep_iface (end_a (l_spec ?l)) = ''eth3''" "l_vlan_id (l_spec ?l) = 10" "ep_node (end_a (l_spec ?l)) = ''leaf-a''" by code_simp+
  from new_server_ports_are_attached [OF inc l f, unfolded v] inc show ?thesis by blast
qed

end
