(* ===== verification/Operation.thy ===== *)
theory Operation
  imports Model Complex_Main "HOL-Library.Sublist"
begin

text \<open>
  controller/internal/operation/operation.go and internal/model/operation.go: asynchronous operations. What
  a step does is a parameter, its conduct: the progress fractions it reports and the error it returns.
  Fractions are rationals and the product with the weight is exact. Every persisted state is also
  published, so a run yields the list of the snapshots; a store that fails is only logged. The k-th
  reading of the clock during a run is the parameter \<open>clock k\<close>, counted by the snapshots taken.
\<close>

section \<open>Resources\<close>

datatype operation_type = OperationApplyPlan | OperationDestroyLab | OperationStartLab | OperationStopLab | OperationRepairLab

datatype operation_state = OperationQueued | OperationRunning | OperationSucceeded | OperationFailed | OperationCancelled

record operation_step =
  os_name :: string
  os_state :: operation_state
  os_message :: string
  os_weight :: int
  os_started :: "nat option"
  os_finished :: "nat option"

record operation_error =
  oe_code :: string
  oe_message :: string

record resource_ref =
  ref_type :: string
  ref_id :: string

record operation =
  op_id :: string
  op_lab :: string
  op_type :: operation_type
  op_resource :: resource_ref
  op_state :: operation_state
  op_progress :: int
  op_steps :: "operation_step list"
  op_error :: "operation_error option"
  op_created :: nat
  op_updated :: nat

section \<open>Running\<close>

record work_step =
  step_name :: string
  step_weight :: int

type_synonym conduct = "rat list \<times> string option"

definition weight :: "work_step \<Rightarrow> int" where
  "weight s = (if step_weight s \<le> 0 then 1 else step_weight s)"

definition create_op :: "draw \<Rightarrow> string \<Rightarrow> operation_type \<Rightarrow> resource_ref \<Rightarrow> nat \<Rightarrow> operation" where
  "create_op d lab t ref now = \<lparr>op_id = new_id ''op'' d, op_lab = lab, op_type = t, op_resource = ref, op_state = OperationQueued,
     op_progress = 0, op_steps = [], op_error = None, op_created = now, op_updated = now\<rparr>"

text \<open>The callback of \<open>withReporter\<close>: the progress of the running step mapped onto the operation's.\<close>

definition report :: "int \<Rightarrow> int \<Rightarrow> int \<Rightarrow> operation \<times> operation list \<Rightarrow> rat \<Rightarrow> operation \<times> operation list" where
  "report did w whole st q = (let (op, tr) = st; f = (if q < 0 then 0 else if q > 1 then 1 else q);
      p = (did * 100 + \<lfloor>f * of_int (w * 100)\<rfloor>) div whole in
    if p \<le> op_progress op then (op, tr)
    else let op' = op\<lparr>op_progress := p\<rparr> in (op', tr @ [op']))"

definition set_step :: "nat \<Rightarrow> (operation_step \<Rightarrow> operation_step) \<Rightarrow> operation \<Rightarrow> operation" where
  "set_step i f op = op\<lparr>op_steps := (op_steps op)[i := f (op_steps op ! i)]\<rparr>"

fun run_steps :: "(nat \<Rightarrow> nat) \<Rightarrow> int \<Rightarrow> int \<Rightarrow> nat \<Rightarrow> (work_step \<times> conduct) list \<Rightarrow> operation \<times> operation list
    \<Rightarrow> string option \<times> operation \<times> operation list" where
  "run_steps clock whole did i [] (op, tr) = (None, op, tr)"
| "run_steps clock whole did i ((s, reps, err) # rest) (op, tr) =
    (let op1 = set_step i (\<lambda>x. x\<lparr>os_state := OperationRunning, os_started := Some (clock (length tr))\<rparr>) op;
         (op2, tr2) = foldl (report did (weight s) whole) (op1, tr @ [op1]) reps;
         end_at = Some (clock (length tr2)) in
     case err of
       Some m \<Rightarrow> (let op3 = set_step i (\<lambda>x. x\<lparr>os_finished := end_at, os_state := OperationFailed, os_message := m\<rparr>) op2
                  in (Some m, op3, tr2 @ [op3]))
     | None \<Rightarrow> (let did' = did + weight s;
                   op3 = (set_step i (\<lambda>x. x\<lparr>os_finished := end_at, os_state := OperationSucceeded\<rparr>) op2)\<lparr>op_progress := did' * 100 div whole\<rparr>
               in run_steps clock whole did' (i + 1) rest (op3, tr2 @ [op3])))"

definition queued_step :: "work_step \<Rightarrow> operation_step" where
  "queued_step s = \<lparr>os_name = step_name s, os_state = OperationQueued, os_message = [], os_weight = weight s, os_started = None, os_finished = None\<rparr>"

definition finish_op :: "string option \<Rightarrow> operation \<Rightarrow> operation" where
  "finish_op failed op = (case failed of
     Some m \<Rightarrow> op\<lparr>op_state := OperationFailed, op_error := Some \<lparr>oe_code = ''STEP_FAILED'', oe_message = m\<rparr>\<rparr>
   | None \<Rightarrow> op\<lparr>op_state := OperationSucceeded, op_progress := 100\<rparr>)"

definition run_op :: "(nat \<Rightarrow> nat) \<Rightarrow> operation \<Rightarrow> (work_step \<times> conduct) list \<Rightarrow> string option \<times> operation \<times> operation list" where
  "run_op clock op steps =
    (let op0 = op\<lparr>op_steps := map (\<lambda>(s, _). queued_step s) steps, op_state := OperationRunning\<rparr>;
         whole = sum_list (map (\<lambda>(s, _). weight s) steps);
         (failed, op1, tr) = run_steps clock whole 0 0 steps (op0, [op0]);
         op2 = finish_op failed op1
     in (failed, op2, tr @ [op2]))"

section \<open>Subscribers\<close>

text \<open>A subscriber's channel holds at most eight updates; publishing to a full one drops the oldest.\<close>

definition channel_size :: nat where "channel_size = 8"

fun publish_to :: "'a list \<Rightarrow> 'a \<Rightarrow> 'a list" where
  "publish_to ch x = (if length ch < channel_size then ch @ [x]
     else (case ch of [] \<Rightarrow> [x] | _ # rest \<Rightarrow> rest @ [x]))"

declare publish_to.simps [simp del]

section \<open>Progress\<close>

lemma weight_pos: "0 < weight s"
  by (simp add: weight_def)

definition weights :: "(work_step \<times> conduct) list \<Rightarrow> int" where
  "weights steps = sum_list (map (\<lambda>(s, _). weight s) steps)"

lemma weights_nonneg: "0 \<le> weights steps"
  by (induction steps) (auto simp: weights_def intro: order_trans [OF _ add_increasing] less_imp_le [OF weight_pos])

text \<open>The snapshots so far never go back and end at the operation's progress, which is at most \<open>b\<close>.\<close>

definition progress_ok :: "int \<Rightarrow> operation \<times> operation list \<Rightarrow> bool" where
  "progress_ok b st \<longleftrightarrow> (let (op, tr) = st in tr \<noteq> [] \<and> op_progress (last tr) = op_progress op \<and> sorted (map op_progress tr) \<and>
     list_all (\<lambda>x. 0 \<le> op_progress x) tr \<and> op_progress op \<le> b \<and> op_state op = OperationRunning \<and> list_all (\<lambda>x. op_state x = OperationRunning) tr)"

lemma progress_ok_persist:
  assumes "progress_ok b (op, tr)" "op_progress op \<le> op_progress op'" "op_progress op' \<le> c" "op_state op' = OperationRunning"
  shows "progress_ok c (op', tr @ [op'])"
proof -
  have "op_progress x \<le> op_progress op'" if "x \<in> set tr" for x
  proof -
    have "op_progress x \<le> op_progress (last tr)"
      using assms(1) that sorted_wrt_nth_less unfolding progress_ok_def
      by (cases tr rule: rev_cases) (auto simp: sorted_append)
    then show ?thesis using assms(1,2) by (simp add: progress_ok_def)
  qed
  moreover have "0 \<le> op_progress op'" using assms(1,2) by (cases tr rule: rev_cases) (auto simp: progress_ok_def)
  ultimately show ?thesis using assms by (auto simp: progress_ok_def sorted_append)
qed

lemma progress_ok_mono: "progress_ok b st \<Longrightarrow> b \<le> c \<Longrightarrow> progress_ok c st"
  by (auto simp: progress_ok_def)

lemma scaled_floor: "0 \<le> w \<Longrightarrow> \<lfloor>(if q < 0 then 0 else if q > 1 then 1 else q :: rat) * of_int w\<rfloor> \<le> w"
proof -
  assume "0 \<le> w"
  then have "(if q < 0 then 0 else if q > 1 then 1 else q) * of_int w \<le> 1 * (of_int w :: rat)"
    by (intro mult_right_mono) auto
  then have "\<lfloor>(if q < 0 then 0 else if q > 1 then 1 else q) * of_int w\<rfloor> \<le> \<lfloor>of_int w :: rat\<rfloor>" by (intro floor_mono) simp
  then show ?thesis by simp
qed

lemma report_ok:
  assumes "progress_ok ((did + w) * 100 div whole) st" "0 \<le> w" "0 < whole"
  shows "progress_ok ((did + w) * 100 div whole) (report did w whole st q)"
proof -
  obtain op tr where st: "st = (op, tr)" by force
  define p where "p = (did * 100 + \<lfloor>(if q < 0 then 0 else if q > 1 then 1 else q) * of_int (w * 100)\<rfloor>) div whole"
  have p: "p \<le> (did + w) * 100 div whole"
    unfolding p_def using assms(3) scaled_floor [of "w * 100" q] assms(2) by (intro zdiv_mono1) (simp_all add: algebra_simps)
  have run: "op_state op = OperationRunning" using assms(1) by (simp add: st progress_ok_def)
  have "report did w whole st q = (if p \<le> op_progress op then (op, tr) else (op\<lparr>op_progress := p\<rparr>, tr @ [op\<lparr>op_progress := p\<rparr>]))"
    by (simp add: report_def st p_def Let_def)
  moreover have "progress_ok ((did + w) * 100 div whole) (op\<lparr>op_progress := p\<rparr>, tr @ [op\<lparr>op_progress := p\<rparr>])" if "\<not> p \<le> op_progress op"
    by (rule progress_ok_persist [OF assms(1) [unfolded st]]) (use that p run in simp_all)
  ultimately show ?thesis using assms(1) st by simp
qed

lemma reports_ok:
  assumes "progress_ok ((did + w) * 100 div whole) st" "0 \<le> w" "0 < whole"
  shows "progress_ok ((did + w) * 100 div whole) (foldl (report did w whole) st reps)"
  using assms(1) by (rule foldl_keeps) (use assms(2,3) report_ok in blast)

lemma report_frame:
  "op_steps (fst (foldl (report did w whole) st reps)) = op_steps (fst st)"
  "op_id (fst (foldl (report did w whole) st reps)) = op_id (fst st)"
  by (induction reps arbitrary: st) (auto simp: report_def Let_def split: prod.splits)

lemma set_step_frame [simp]:
  "op_progress (set_step i f op) = op_progress op" "op_state (set_step i f op) = op_state op" "op_id (set_step i f op) = op_id op"
  by (simp_all add: set_step_def)

lemma run_steps_progress:
  assumes "run_steps clock whole did i steps st = (failed, op', tr')" "0 \<le> did" "did + weights steps = whole"
    and "progress_ok (did * 100 div whole) st"
  shows "progress_ok 100 (op', tr')"
  using assms
proof (induction clock whole did i steps st rule: run_steps.induct)
  case (1 clock whole did i op tr)
  have "did * 100 div did \<le> 100" using "1.prems"(2) by (cases "did = 0") simp_all
  then show ?case using "1.prems" progress_ok_mono [of "did * 100 div whole"] by (simp add: weights_def)
next
  case (2 clock whole did i s reps err rest op tr)
  define op1 where "op1 = set_step i (\<lambda>x. x\<lparr>os_state := OperationRunning, os_started := Some (clock (length tr))\<rparr>) op"
  obtain op2 tr2 where r: "foldl (report did (weight s) whole) (op1, tr @ [op1]) reps = (op2, tr2)" by force
  let ?d = "did + weight s"
  have w: "0 < weight s" "0 \<le> weights rest" by (simp_all add: weight_pos weights_nonneg)
  then have pos: "0 < whole" and le: "?d \<le> whole" using "2.prems"(2,3) by (simp_all add: weights_def)
  have "did * 100 div whole \<le> ?d * 100 div whole" using pos w(1) by (intro zdiv_mono1) simp_all
  then have "progress_ok (?d * 100 div whole) (op1, tr @ [op1])"
    using "2.prems"(4) progress_ok_persist [of "did * 100 div whole" op tr op1] by (auto simp: op1_def progress_ok_def)
  from reports_ok [OF this _ pos] r w(1) have ok: "progress_ok (?d * 100 div whole) (op2, tr2)" by (metis less_imp_le)
  have top: "?d * 100 div whole \<le> 100"
    using zdiv_mono1 [of "?d * 100" "whole * 100" whole] le pos by simp
  show ?case
  proof (cases err)
    case (Some m)
    define op3 where "op3 = set_step i (\<lambda>x. x\<lparr>os_finished := Some (clock (length tr2)), os_state := OperationFailed, os_message := m\<rparr>) op2"
    have "(op', tr') = (op3, tr2 @ [op3])" using "2.prems"(1) Some r by (auto simp: op1_def [symmetric] op3_def Let_def)
    then show ?thesis using progress_ok_persist [OF ok, of op3 100] ok top by (auto simp: op3_def progress_ok_def)
  next
    case None
    define op3 where "op3 = (set_step i (\<lambda>x. x\<lparr>os_finished := Some (clock (length tr2)), os_state := OperationSucceeded\<rparr>) op2)\<lparr>op_progress := ?d * 100 div whole\<rparr>"
    have run: "run_steps clock whole ?d (i + 1) rest (op3, tr2 @ [op3]) = (failed, op', tr')"
      using "2.prems"(1) None r by (simp add: op1_def [symmetric] op3_def Let_def)
    have "progress_ok (?d * 100 div whole) (op3, tr2 @ [op3])"
      by (rule progress_ok_persist [OF ok]) (use ok in \<open>auto simp: op3_def progress_ok_def\<close>)
    moreover have "?d + weights rest = whole" "0 \<le> ?d" using "2.prems"(2,3) w(1) by (simp_all add: weights_def)
    ultimately show ?thesis
      using "2.IH" [OF op1_def r [symmetric] refl refl None refl op3_def [unfolded op3_def] run [unfolded op3_def]] by (simp add: op3_def)
  qed
qed

section \<open>Outcome\<close>

fun first_error :: "(work_step \<times> conduct) list \<Rightarrow> string option" where
  "first_error [] = None"
| "first_error ((s, reps, None) # rest) = first_error rest"
| "first_error ((s, reps, Some m) # rest) = Some m"

fun step_outcomes :: "(work_step \<times> conduct) list \<Rightarrow> operation_state list" where
  "step_outcomes [] = []"
| "step_outcomes ((s, reps, None) # rest) = OperationSucceeded # step_outcomes rest"
| "step_outcomes ((s, reps, Some m) # rest) = OperationFailed # map (\<lambda>_. OperationQueued) rest"

definition step_states :: "operation \<Rightarrow> operation_state list" where
  "step_states op = map os_state (op_steps op)"

lemma step_states_set: "i < length (op_steps op) \<Longrightarrow> step_states (set_step i f op) = (step_states op)[i := os_state (f (op_steps op ! i))]"
  by (simp add: step_states_def set_step_def map_update)

lemma step_states_frame [simp]: "step_states (op\<lparr>op_progress := p\<rparr>) = step_states op" "length (step_states op) = length (op_steps op)"
  by (simp_all add: step_states_def)

lemma run_steps_outcome:
  assumes "run_steps clock whole did i steps (op, tr) = (failed, op', tr')" "step_states op = us @ map (\<lambda>_. OperationQueued) steps" "length us = i"
  shows "failed = first_error steps \<and> step_states op' = us @ step_outcomes steps"
  using assms
proof (induction steps arbitrary: did i op tr us)
  case (Cons x rest)
  obtain s reps err where x: "x = (s, reps, err)" by (cases x) auto
  define op1 where "op1 = set_step i (\<lambda>x. x\<lparr>os_state := OperationRunning, os_started := Some (clock (length tr))\<rparr>) op"
  obtain op2 tr2 where r: "foldl (report did (weight s) whole) (op1, tr @ [op1]) reps = (op2, tr2)" by force
  have len: "i < length (op_steps op)" "length (op_steps op) = Suc (i + length rest)"
    using arg_cong [OF Cons.prems(2), of length] Cons.prems(3) by simp_all
  have s1: "step_states op1 = us @ OperationRunning # map (\<lambda>_. OperationQueued) rest"
    using Cons.prems(2,3) len(1) by (simp add: op1_def step_states_set list_update_append)
  have "op_steps op2 = op_steps op1" using report_frame(1) [of did "weight s" whole "(op1, tr @ [op1])" reps] r by simp
  then have s2: "step_states op2 = us @ OperationRunning # map (\<lambda>_. OperationQueued) rest" "i < length (op_steps op2)"
    using s1 len(1) by (simp_all add: step_states_def op1_def set_step_def)
  show ?case
  proof (cases err)
    case (Some m)
    then show ?thesis using Cons.prems(1,3) r s2
      by (auto simp: x op1_def [symmetric] Let_def step_states_set list_update_append)
  next
    case None
    define op3 where "op3 = (set_step i (\<lambda>x. x\<lparr>os_finished := Some (clock (length tr2)), os_state := OperationSucceeded\<rparr>) op2)
      \<lparr>op_progress := (did + weight s) * 100 div whole\<rparr>"
    have run: "run_steps clock whole (did + weight s) (i + 1) rest (op3, tr2 @ [op3]) = (failed, op', tr')"
      using Cons.prems(1) None r by (simp add: x op1_def [symmetric] op3_def Let_def)
    have "step_states op3 = (us @ [OperationSucceeded]) @ map (\<lambda>_. OperationQueued) rest"
      using s2 Cons.prems(3) by (simp add: op3_def step_states_set list_update_append)
    from Cons.IH [OF run this] Cons.prems(3) None show ?thesis by (simp add: x)
  qed
qed simp

lemma step_outcomes_all: "first_error steps = None \<Longrightarrow> step_outcomes steps = replicate (length steps) OperationSucceeded"
  by (induction steps rule: first_error.induct) simp_all

text \<open>the progress a run of an operation publishes never goes back, stays between 0 and 100 and is 100 once the
  operation succeeded, whatever the steps report and whether they fail.\<close>

theorem progress_only_moves_forward:
  "case run_op clock (create_op d lab t ref now) steps of (failed, op', tr) \<Rightarrow>
     sorted (map op_progress tr) \<and> list_all (\<lambda>x. 0 \<le> op_progress x \<and> op_progress x \<le> 100) tr \<and> last tr = op' \<and>
     list_all (\<lambda>x. op_state x = OperationRunning) (butlast tr) \<and> op_state op' \<in> {OperationSucceeded, OperationFailed} \<and>
     (if op_state op' = OperationSucceeded then op_progress op' = 100 else op_error op' \<noteq> None)"
proof -
  let ?op0 = "(create_op d lab t ref now)\<lparr>op_steps := map (\<lambda>(s, _). queued_step s) steps, op_state := OperationRunning\<rparr>"
  obtain failed op1 tr where r: "run_steps clock (weights steps) 0 0 steps (?op0, [?op0]) = (failed, op1, tr)" by (metis prod_cases3)
  have "progress_ok (0 * 100 div weights steps) (?op0, [?op0])" by (simp add: progress_ok_def create_op_def)
  from run_steps_progress [OF r _ _ this] have ok: "progress_ok 100 (op1, tr)" by simp
  define op2 where "op2 = finish_op failed op1"
  have run: "run_op clock (create_op d lab t ref now) steps = (failed, op2, tr @ [op2])"
    using r by (simp add: run_op_def Let_def op2_def weights_def)
  have le: "op_progress x \<le> op_progress op1" if "x \<in> set tr" for x
    using ok that by (cases tr rule: rev_cases) (auto simp: progress_ok_def sorted_append)
  have p2: "op_progress op1 \<le> op_progress op2" "op_progress op2 \<le> 100" "0 \<le> op_progress op1"
    using ok by (cases tr rule: rev_cases; auto simp: op2_def finish_op_def progress_ok_def split: option.splits)+
  have "sorted (map op_progress (tr @ [op2]))" using ok le p2(1) by (force simp: progress_ok_def sorted_append)
  moreover have "list_all (\<lambda>x. 0 \<le> op_progress x \<and> op_progress x \<le> 100) (tr @ [op2])"
    using ok le p2 by (force simp: progress_ok_def list_all_iff)
  moreover have "op_state op2 \<in> {OperationSucceeded, OperationFailed}" "if op_state op2 = OperationSucceeded then op_progress op2 = 100 else op_error op2 \<noteq> None"
    by (simp_all add: op2_def finish_op_def split: option.splits)
  moreover have "list_all (\<lambda>x. op_state x = OperationRunning) tr" using ok by (simp add: progress_ok_def)
  ultimately show ?thesis unfolding run by simp
qed

lemma run_op_outcome:
  "case run_op clock op steps of (failed, op', tr) \<Rightarrow>
     failed = first_error steps \<and> map os_state (op_steps op') = step_outcomes steps \<and>
     (case first_error steps of
        None \<Rightarrow> op_state op' = OperationSucceeded \<and> map os_state (op_steps op') = replicate (length steps) OperationSucceeded
      | Some m \<Rightarrow> op_state op' = OperationFailed \<and> op_error op' = Some \<lparr>oe_code = ''STEP_FAILED'', oe_message = m\<rparr>)"
proof -
  let ?op0 = "op\<lparr>op_steps := map (\<lambda>(s, _). queued_step s) steps, op_state := OperationRunning\<rparr>"
  obtain failed op1 tr where r: "run_steps clock (weights steps) 0 0 steps (?op0, [?op0]) = (failed, op1, tr)" by (metis prod_cases3)
  have "step_states ?op0 = [] @ map (\<lambda>_. OperationQueued) steps"
    by (auto simp: step_states_def queued_step_def split: prod.splits)
  from run_steps_outcome [OF r this] have o: "failed = first_error steps" "step_states op1 = step_outcomes steps" by simp_all
  have run: "run_op clock op steps = (failed, finish_op failed op1, tr @ [finish_op failed op1])"
    using r by (simp add: run_op_def Let_def weights_def)
  have "map os_state (op_steps (finish_op failed op1)) = step_outcomes steps"
    using o(2) by (simp add: finish_op_def step_states_def split: option.splits)
  then show ?thesis unfolding run using o(1) step_outcomes_all [of steps] by (simp add: finish_op_def split: option.splits)
qed

text \<open>C10: a run fails with the error of the first step that returns one, which is then the failed step: the steps
  before it have succeeded and those after it have not been started; without an error every step has succeeded.\<close>

theorem run_stops_at_first_error:
  "case run_op clock op steps of (failed, op', tr) \<Rightarrow>
     failed = first_error steps \<and> map os_state (op_steps op') = step_outcomes steps \<and>
     (case first_error steps of
        None \<Rightarrow> op_state op' = OperationSucceeded \<and> map os_state (op_steps op') = replicate (length steps) OperationSucceeded
      | Some m \<Rightarrow> op_state op' = OperationFailed \<and> op_error op' = Some \<lparr>oe_code = ''STEP_FAILED'', oe_message = m\<rparr>)"
  by (rule run_op_outcome)

section \<open>What a subscriber sees\<close>

text \<open>The channel of a subscriber between publications and receptions, with all that was published and all that
  was received.\<close>

record 'a subscriber =
  sub_channel :: "'a list"
  published :: "'a list"
  received :: "'a list"

inductive sub_step :: "'a subscriber \<Rightarrow> 'a subscriber \<Rightarrow> bool" where
  publish: "sub_step s (s\<lparr>sub_channel := publish_to (sub_channel s) x, published := published s @ [x]\<rparr>)"
| receive: "sub_channel s = x # rest \<Longrightarrow> sub_step s (s\<lparr>sub_channel := rest, received := received s @ [x]\<rparr>)"

inductive sub_reach :: "'a subscriber \<Rightarrow> bool" where
  start: "sub_reach \<lparr>sub_channel = [], published = [], received = []\<rparr>"
| step: "sub_reach s \<Longrightarrow> sub_step s t \<Longrightarrow> sub_reach t"

inductive_cases sub_stepE: "sub_step s t"

definition newest_kept :: "'a subscriber \<Rightarrow> bool" where
  "newest_kept s \<longleftrightarrow> length (sub_channel s) \<le> channel_size \<and> subseq (received s @ sub_channel s) (published s) \<and>
     (published s = [] \<or> received s @ sub_channel s \<noteq> [] \<and> last (received s @ sub_channel s) = last (published s))"

lemma publish_to_cases:
  obtains "length ch < channel_size" "publish_to ch x = ch @ [x]"
  | y rest where "ch = y # rest" "length ch \<ge> channel_size" "publish_to ch x = rest @ [x]"
  by (cases "length ch < channel_size"; cases ch) (auto simp: publish_to.simps channel_size_def)

lemma newest_kept_step: "newest_kept s \<Longrightarrow> sub_step s t \<Longrightarrow> newest_kept t"
proof (elim sub_stepE)
  fix x assume k: "newest_kept s" and t: "t = s\<lparr>sub_channel := publish_to (sub_channel s) x, published := published s @ [x]\<rparr>"
  show "newest_kept t"
  proof (rule publish_to_cases [of "sub_channel s" x])
    assume "length (sub_channel s) < channel_size" "publish_to (sub_channel s) x = sub_channel s @ [x]"
    moreover have "subseq ((received s @ sub_channel s) @ [x]) (published s @ [x])"
      using k by (intro list_emb_append_mono) (auto simp: newest_kept_def)
    ultimately show ?thesis using k by (simp add: newest_kept_def t)
  next
    fix y rest assume c: "sub_channel s = y # rest" "channel_size \<le> length (sub_channel s)" "publish_to (sub_channel s) x = rest @ [x]"
    have "subseq (received s @ rest) (received s @ y # rest)" by (intro list_emb_append_mono subseq_order.refl) auto
    also have "subseq (received s @ y # rest) (published s)" using k c(1) by (simp add: newest_kept_def)
    finally have "subseq ((received s @ rest) @ [x]) (published s @ [x])" by (intro list_emb_append_mono) auto
    then show ?thesis using k c by (simp add: newest_kept_def t)
  qed
next
  fix x rest assume "newest_kept s" "t = s\<lparr>sub_channel := rest, received := received s @ [x]\<rparr>" "sub_channel s = x # rest"
  then show "newest_kept t" by (simp add: newest_kept_def)
qed

text \<open>a subscriber, however slow, receives the updates in order, possibly missing some, and the newest published
  update is never lost: it is the last one in the channel or, with an empty channel, the last one received. The
  channel never holds more than eight.\<close>

theorem subscriber_gets_newest:
  assumes "sub_reach s"
  shows "length (sub_channel s) \<le> 8 \<and> subseq (received s @ sub_channel s) (published s) \<and>
    (published s = [] \<or> received s @ sub_channel s \<noteq> [] \<and> last (received s @ sub_channel s) = last (published s))"
proof -
  have "newest_kept s" using assms
  proof (induction rule: sub_reach.induct)
    case (step s t)
    then show ?case by (blast intro: newest_kept_step)
  qed (simp add: newest_kept_def)
  then show ?thesis by (simp add: newest_kept_def channel_size_def)
qed

theorem subscriber_gets_newest_witness:
  "\<exists>s :: nat subscriber. sub_reach s \<and> published s = [5, 7] \<and> received s = [5] \<and> last (received s @ sub_channel s) = 7"
proof -
  let ?s0 = "\<lparr>sub_channel = [], published = [], received = []\<rparr> :: nat subscriber"
  have "sub_reach (?s0\<lparr>sub_channel := publish_to (sub_channel ?s0) 5, published := published ?s0 @ [5]\<rparr>)"
    by (blast intro: sub_reach.intros sub_step.publish)
  then have 1: "sub_reach \<lparr>sub_channel = [5 :: nat], published = [5], received = []\<rparr>" by (simp add: publish_to.simps channel_size_def)
  have "sub_step \<lparr>sub_channel = [5 :: nat], published = [5], received = []\<rparr> (\<lparr>sub_channel = [5], published = [5], received = []\<rparr>
      \<lparr>sub_channel := [], received := [] @ [5]\<rparr>)" using sub_step.receive [of "\<lparr>sub_channel = [5], published = [5], received = []\<rparr>" 5 "[]"] by simp
  from sub_reach.step [OF 1 this] have 2: "sub_reach \<lparr>sub_channel = [], published = [5 :: nat], received = [5]\<rparr>" by simp
  let ?s2 = "\<lparr>sub_channel = [], published = [5], received = [5]\<rparr> :: nat subscriber"
  have "sub_step ?s2 (?s2\<lparr>sub_channel := publish_to (sub_channel ?s2) 7, published := published ?s2 @ [7]\<rparr>)" by (rule sub_step.publish)
  from sub_reach.step [OF 2 this] have 3: "sub_reach \<lparr>sub_channel = [7 :: nat], published = [5, 7], received = [5]\<rparr>"
    by (simp add: publish_to.simps channel_size_def)
  from subscriber_gets_newest [OF this] 3 show ?thesis by auto
qed

end
