(* ===== verification/LabUsecase.thy ===== *)
theory LabUsecase
  imports Topology Operation Paths
begin

text \<open>
  controller/internal/biz/lab.go: creating a lab, changing its fabric shape, destroying it. The repository
  is a parameter: what a read returns, and the error a write returns if any. Slices of pods are lists;
  the loop that searches a free default name is a recursion whose termination is proved.
\<close>

datatype lab_error = NameRequired | CustomWithoutSpec | UnknownProfile profile | RepoFailed string string
  | LabApplying string | TierMissing | NoPods | PodTierMissing nat | TooManyServers nat | PodNameTwice string

type_synonym read_result = "string + lab"

section \<open>Creating\<close>

definition create_lab :: "(lab \<Rightarrow> string option) \<Rightarrow> draw \<Rightarrow> nat \<Rightarrow> string \<Rightarrow> profile \<Rightarrow> topology_spec option \<Rightarrow> bool \<Rightarrow> lab_error + lab" where
  "create_lab save d now name prof custom internet =
    (if name = [] then Inl NameRequired
     else ebind (if prof = ProfileCustom
                 then (case custom of None \<Rightarrow> Inl CustomWithoutSpec | Some t \<Rightarrow> Inr t)
                 else (case profiles prof of None \<Rightarrow> Inl (UnknownProfile prof) | Some t \<Rightarrow> Inr t)) (\<lambda>t.
       let topo = t\<lparr>internet_access := internet_access t \<or> internet\<rparr>;
           lb = \<lparr>lab_meta = (fresh_meta (new_id ''lab'' d) name)\<lparr>created_at := now, updated_at := now\<rparr>,
                 lab_spec = \<lparr>lab_profile = prof, lab_topology = topo, lab_pools = default_pools, lab_asns = default_asn_ranges\<rparr>\<rparr>
       in case save lb of Some e \<Rightarrow> Inl (RepoFailed ''persist lab'' e) | None \<Rightarrow> Inr lb))"

section \<open>The desired shape\<close>

definition validate_pod :: "unit \<Rightarrow> nat \<times> pod_spec \<Rightarrow> lab_error + unit" where
  "validate_pod u ip = (let (i, p) = ip in
    if spines p < 1 \<or> racks p < 1 \<or> servers_per_rack p < 1 then Inl (PodTierMissing (i + 1))
    else if servers_per_rack p > 200 then Inl (TooManyServers (i + 1)) else Inr ())"

definition validate_topology_spec :: "topology_spec \<Rightarrow> lab_error + unit" where
  "validate_topology_spec t =
    (if external_routers t < 1 \<or> dc_edges t < 1 \<or> super_spines t < 1 then Inl TierMissing
     else if pods t = [] then Inl NoPods
     else efold validate_pod () (enumerate 0 (pods t)))"

section \<open>Pod names\<close>

definition default_pod_name :: "nat \<Rightarrow> string" where
  "default_pod_name n = ''pod-'' @ show_nat n"

lemma default_pod_name_inj [simp]: "default_pod_name m = default_pod_name n \<longleftrightarrow> m = n"
  by (simp add: default_pod_name_def)

definition collect_names :: "string list \<Rightarrow> pod_spec \<Rightarrow> lab_error + string list" where
  "collect_names used p =
    (if pod_name p = [] then Inr used
     else if pod_name p \<in> set used then Inl (PodNameTwice (pod_name p))
     else Inr (pod_name p # used))"

fun reclaim_names :: "pod_spec list \<Rightarrow> string list \<Rightarrow> pod_spec list \<Rightarrow> pod_spec list \<times> string list" where
  "reclaim_names prev used [] = ([], used)"
| "reclaim_names prev used (p # ps) =
    (let old = (case prev of [] \<Rightarrow> [] | q # _ \<Rightarrow> pod_name q);
         take_it = (pod_name p = [] \<and> old \<noteq> [] \<and> old \<notin> set used);
         (ps', used') = reclaim_names (drop 1 prev) (if take_it then old # used else used) ps
     in ((if take_it then p\<lparr>pod_name := old\<rparr> else p) # ps', used'))"

text \<open>The inner loop: the numbers from \<open>next\<close> whose default name is taken are skipped; there are finitely many.\<close>

function next_free :: "string list \<Rightarrow> nat \<Rightarrow> nat" where
  "next_free used n = (if default_pod_name n \<in> set used then next_free used (n + 1) else n)"
  by auto

definition taken_from :: "string list \<Rightarrow> nat \<Rightarrow> nat set" where
  "taken_from used n = {m. n \<le> m \<and> default_pod_name m \<in> set used}"

lemma finite_taken: "finite (taken_from used n)"
proof -
  have "finite (default_pod_name -` set used)" by (intro finite_vimageI) (auto simp: inj_def)
  then show ?thesis by (rule rev_finite_subset) (auto simp: taken_from_def)
qed

lemma taken_step: "default_pod_name n \<in> set used \<Longrightarrow> card (taken_from used (n + 1)) < card (taken_from used n)"
proof -
  assume "default_pod_name n \<in> set used"
  then have "n \<in> taken_from used n" "n \<notin> taken_from used (n + 1)" by (simp_all add: taken_from_def)
  moreover have "taken_from used (n + 1) \<subseteq> taken_from used n" by (auto simp: taken_from_def)
  ultimately have "taken_from used (n + 1) \<subset> taken_from used n" by blast
  then show ?thesis by (rule psubset_card_mono [OF finite_taken])
qed

termination next_free
  by (relation "measure (\<lambda>(used, n). card (taken_from used n))") (auto dest: taken_step)

declare next_free.simps [simp del]

fun default_names :: "string list \<Rightarrow> nat \<Rightarrow> pod_spec list \<Rightarrow> pod_spec list" where
  "default_names used next [] = []"
| "default_names used next (p # ps) =
    (if pod_name p \<noteq> [] then p # default_names used next ps
     else let n = next_free used next in p\<lparr>pod_name := default_pod_name n\<rparr> # default_names (default_pod_name n # used) n ps)"

definition fill_pod_names :: "pod_spec list \<Rightarrow> pod_spec list \<Rightarrow> lab_error + pod_spec list" where
  "fill_pod_names ps prev =
    ebind (efold collect_names [] ps) (\<lambda>used.
      Inr (let (ps', used') = reclaim_names prev used ps in default_names used' 1 ps'))"

section \<open>Updating\<close>

definition update_topology :: "(string \<Rightarrow> read_result) \<Rightarrow> (lab \<Rightarrow> string option) \<Rightarrow> nat \<Rightarrow> string \<Rightarrow> topology_spec \<Rightarrow> lab_error + lab" where
  "update_topology get save now lid topo =
    (case get lid of Inl e \<Rightarrow> Inl (RepoFailed ''get lab'' e)
     | Inr lb \<Rightarrow>
        if phase (lab_meta lb) = PhaseApplying then Inl (LabApplying (meta_name (lab_meta lb)))
        else ebind (validate_topology_spec topo) (\<lambda>_.
          ebind (fill_pod_names (pods topo) (pods (lab_topology (lab_spec lb)))) (\<lambda>ps.
            let lb' = lb\<lparr>lab_meta := (lab_meta lb)\<lparr>updated_at := now\<rparr>,
                        lab_spec := (lab_spec lb)\<lparr>lab_profile := ProfileCustom,
                          lab_topology := topo\<lparr>pods := ps, internet_access := internet_access (lab_topology (lab_spec lb))\<rparr>\<rparr>\<rparr>
            in case save lb' of Some e \<Rightarrow> Inl (RepoFailed ''update lab'' e) | None \<Rightarrow> Inr lb')))"

section \<open>Destroying\<close>

definition generation_dir :: "string \<Rightarrow> string \<Rightarrow> int \<Rightarrow> string" where
  "generation_dir data_dir lid gen = path_join [data_dir, ''labs'', lid, ''generations'', show_int gen]"

definition delete_lab_steps :: "(string \<Rightarrow> string option) \<Rightarrow> (string \<Rightarrow> string option) \<Rightarrow> string \<Rightarrow> lab \<Rightarrow> (work_step \<times> conduct) list" where
  "delete_lab_steps destroy del data_dir lb =
    [(\<lparr>step_name = ''DestroyTopology'', step_weight = 8\<rparr>, [],
        if generation (lab_meta lb) = 0 then None
        else destroy (generation_dir data_dir (meta_id (lab_meta lb)) (generation (lab_meta lb)))),
     (\<lparr>step_name = ''DeleteResources'', step_weight = 0\<rparr>, [], del (meta_id (lab_meta lb)))]"

definition delete_lab :: "(nat \<Rightarrow> nat) \<Rightarrow> (string \<Rightarrow> read_result) \<Rightarrow> (operation \<Rightarrow> string option) \<Rightarrow> (lab \<Rightarrow> string option) \<Rightarrow> (string \<Rightarrow> string option)
    \<Rightarrow> (string \<Rightarrow> string option) \<Rightarrow> string \<Rightarrow> draw \<Rightarrow> nat \<Rightarrow> string \<Rightarrow> lab_error + operation list" where
  "delete_lab clock get save_op save destroy del data_dir d now lid =
    (case get lid of Inl e \<Rightarrow> Inl (RepoFailed ''get lab'' e)
     | Inr lb \<Rightarrow>
        (let op = create_op d (meta_id (lab_meta lb)) OperationDestroyLab \<lparr>ref_type = ''lab'', ref_id = lid\<rparr> now;
             lb' = lb\<lparr>lab_meta := (lab_meta lb)\<lparr>phase := PhaseDeleting\<rparr>\<rparr> in
         case save_op op of Some e \<Rightarrow> Inl (RepoFailed ''create destroy operation'' e)
         | None \<Rightarrow> (case save lb' of Some e \<Rightarrow> Inl (RepoFailed ''update lab phase'' e)
            | None \<Rightarrow> Inr (op # snd (snd (run_op clock op (delete_lab_steps destroy del data_dir lb')))))))"

section \<open>Names\<close>

abbreviation names :: "pod_spec list \<Rightarrow> string list" where
  "names ps \<equiv> filter (\<lambda>nm. nm \<noteq> []) (map pod_name ps)"

definition same_pod :: "pod_spec \<Rightarrow> pod_spec \<Rightarrow> bool" where
  "same_pod p q \<longleftrightarrow> spines q = spines p \<and> racks q = racks p \<and> servers_per_rack q = servers_per_rack p \<and>
     (pod_name p = [] \<or> pod_name q = pod_name p)"

lemma same_pod_refl [simp]: "same_pod p p" "pod_name p = [] \<Longrightarrow> same_pod p (p\<lparr>pod_name := nm\<rparr>)"
  by (simp_all add: same_pod_def)

lemma same_pod_trans: "same_pod p q \<Longrightarrow> same_pod q r \<Longrightarrow> same_pod p r"
  by (auto simp: same_pod_def)

lemma collect_names_all:
  "(case efold collect_names used ps of
      Inr u \<Rightarrow> u = rev (names ps) @ used \<and> distinct (names ps) \<and> set (names ps) \<inter> set used = {}
    | Inl e \<Rightarrow> (\<exists>nm. e = PodNameTwice nm) \<and> \<not> (distinct (names ps) \<and> set (names ps) \<inter> set used = {}))"
proof (induction ps arbitrary: used)
  case (Cons p ps)
  show ?case
    using Cons.IH [of used] Cons.IH [of "pod_name p # used"] by (auto simp: collect_names_def split: sum.splits)
qed simp

lemma next_free_free: "default_pod_name (next_free used n) \<notin> set used"
proof (induction used n rule: next_free.induct)
  case (1 used n)
  then show ?case by (subst next_free.simps) (auto simp: next_free.simps [of used n])
qed

lemma reclaim_facts:
  assumes "reclaim_names prev used ps = (ps', used')" "distinct (names ps)" "set (names ps) \<subseteq> set used"
  shows "distinct (names ps') \<and> set (names ps') \<subseteq> set used' \<and> set used \<subseteq> set used' \<and>
     (\<forall>nm \<in> set (names ps'). nm \<in> set (names ps) \<or> nm \<notin> set used) \<and> list_all2 same_pod ps ps'"
  using assms
proof (induction prev used ps arbitrary: ps' used' rule: reclaim_names.induct)
  case (2 prev used p ps)
  define old where "old = (case prev of [] \<Rightarrow> [] | q # _ \<Rightarrow> pod_name q)"
  define take_it where "take_it = (pod_name p = [] \<and> old \<noteq> [] \<and> old \<notin> set used)"
  obtain qs us where r: "reclaim_names (drop 1 prev) (if take_it then old # used else used) ps = (qs, us)" by force
  have res: "ps' = (if take_it then p\<lparr>pod_name := old\<rparr> else p) # qs" "used' = us"
    using "2.prems"(1) r by (simp_all add: old_def [symmetric] take_it_def [symmetric] Let_def)
  have pre: "distinct (names ps)" "set (names ps) \<subseteq> set (if take_it then old # used else used)"
    using "2.prems"(2,3) by (auto split: if_splits)
  note ih = "2.IH" [OF old_def take_it_def r pre]
  show ?case
  proof (cases take_it)
    case True
    then have t: "pod_name p = []" "old \<noteq> []" "old \<notin> set used" by (simp_all add: take_it_def)
    have "old \<notin> set (names ps)" using "2.prems"(3) t by auto
    then have "old \<notin> set (names qs)" using ih True by auto
    then show ?thesis using ih True t res "2.prems"(3) by (auto simp: same_pod_def)
  next
    case False
    have "pod_name p \<notin> set (names qs)" if "pod_name p \<noteq> []"
      using ih False "2.prems"(2,3) that by (auto simp: res(1))
    then show ?thesis using ih False res "2.prems"(2,3) by auto
  qed
qed auto

lemma default_names_facts:
  assumes "distinct (names ps)" "set (names ps) \<subseteq> set used"
  shows "distinct (map pod_name (default_names used n ps)) \<and> [] \<notin> set (map pod_name (default_names used n ps)) \<and>
     (\<forall>nm \<in> set (map pod_name (default_names used n ps)). nm \<in> set (names ps) \<or> nm \<notin> set used) \<and> list_all2 same_pod ps (default_names used n ps)"
  using assms
proof (induction used n ps rule: default_names.induct)
  case (2 used n p ps)
  show ?case
  proof (cases "pod_name p = []")
    case True
    let ?d = "default_pod_name (next_free used n)"
    have d: "?d \<notin> set used" "?d \<noteq> []" using next_free_free by (auto simp: default_pod_name_def)
    have ih: "distinct (map pod_name (default_names (?d # used) (next_free used n) ps)) \<and> [] \<notin> set (map pod_name (default_names (?d # used) (next_free used n) ps)) \<and>
      (\<forall>nm \<in> set (map pod_name (default_names (?d # used) (next_free used n) ps)). nm \<in> set (names ps) \<or> nm \<notin> set (?d # used)) \<and>
      list_all2 same_pod ps (default_names (?d # used) (next_free used n) ps)"
      using "2.IH"(2) [OF _ refl] True "2.prems" by auto
    have "?d \<notin> set (names ps)" using d(1) "2.prems"(2) True by auto
    with ih have "?d \<notin> set (map pod_name (default_names (?d # used) (next_free used n) ps))" by (meson list.set_intros(1))
    then show ?thesis using ih True d by (auto simp: Let_def)
  next
    case False
    have ih: "distinct (map pod_name (default_names used n ps)) \<and> [] \<notin> set (map pod_name (default_names used n ps)) \<and>
      (\<forall>nm \<in> set (map pod_name (default_names used n ps)). nm \<in> set (names ps) \<or> nm \<notin> set used) \<and> list_all2 same_pod ps (default_names used n ps)"
      using "2.IH"(1) False "2.prems" by auto
    then have "pod_name p \<notin> set (map pod_name (default_names used n ps))" using False "2.prems" by auto
    then show ?thesis using ih False by auto
  qed
qed simp

lemma fill_pod_names_Inr:
  assumes "fill_pod_names ps prev = Inr ps'"
  obtains qs us where "reclaim_names prev (rev (names ps)) ps = (qs, us)" "ps' = default_names us 1 qs" "distinct (names ps)"
proof -
  have "efold collect_names [] ps = Inr (rev (names ps))" "distinct (names ps)"
    using assms collect_names_all [where used = "[]" and ps = ps] by (auto simp: fill_pod_names_def split: sum.splits)
  then show ?thesis using assms that by (auto simp: fill_pod_names_def split: prod.splits)
qed

text \<open>Filling the names of the pods fails exactly when two pods carry the same name already.\<close>

lemma pod_names_clash_iff:
  "(\<exists>nm. fill_pod_names ps prev = Inl (PodNameTwice nm)) \<longleftrightarrow> \<not> distinct (names ps)"
  using collect_names_all [where used = "[]" and ps = ps] by (auto simp: fill_pod_names_def split: sum.splits)

lemma fill_unique:
  assumes "fill_pod_names ps prev = Inr ps'"
  shows "distinct (map pod_name ps') \<and> [] \<notin> set (map pod_name ps') \<and> list_all2 same_pod ps ps'"
proof -
  obtain qs us where r: "reclaim_names prev (rev (names ps)) ps = (qs, us)" "ps' = default_names us 1 qs" "distinct (names ps)"
    by (rule fill_pod_names_Inr [OF assms])
  have q: "distinct (names qs) \<and> set (names qs) \<subseteq> set us \<and> list_all2 same_pod ps qs"
    using reclaim_facts [OF r(1,3)] by simp
  then have d: "distinct (map pod_name ps') \<and> [] \<notin> set (map pod_name ps') \<and> list_all2 same_pod qs ps'"
    unfolding r(2) using default_names_facts [of qs us 1] by blast
  moreover have "list_all2 same_pod ps ps'" using list_all2_trans [of same_pod same_pod same_pod ps qs ps'] q d same_pod_trans by blast
  ultimately show ?thesis by blast
qed

text \<open>otherwise every pod gets a name, all names are different, and a pod that had a name keeps it together with
  its counts: an update never renames or reorders the pods it was given.\<close>

theorem pod_names_are_unique:
  assumes "fill_pod_names ps prev = Inr ps'"
  shows "distinct (map pod_name ps') \<and> [] \<notin> set (map pod_name ps') \<and> list_all2 same_pod ps ps'"
  by (rule fill_unique [OF assms])

definition three_pods :: "pod_spec list" where
  "three_pods = replicate 3 \<lparr>pod_name = [], spines = 2, racks = 1, servers_per_rack = 2\<rparr>"

definition one_pod :: "pod_spec list" where
  "one_pod = [\<lparr>pod_name = ''pod-2'', spines = 2, racks = 1, servers_per_rack = 2\<rparr>]"

theorem pod_names_are_unique_witness:
  "\<exists>ps'. fill_pod_names three_pods one_pod = Inr ps' \<and> distinct (map pod_name ps') \<and> map pod_name ps' = [''pod-2'', ''pod-1'', ''pod-3'']"
proof (cases "fill_pod_names three_pods one_pod")
  case (Inl e)
  have "\<not> isl (fill_pod_names three_pods one_pod)" by code_simp
  then show ?thesis by (simp add: Inl)
next
  case (Inr ps')
  have "map pod_name (projr (fill_pod_names three_pods one_pod)) = [''pod-2'', ''pod-1'', ''pod-3'']" by code_simp
  then show ?thesis using pod_names_are_unique [OF Inr] by (simp add: Inr)
qed

text \<open>Editing counts in place: unnamed pods take the names of the slots they had.\<close>

lemma reclaim_all:
  assumes "list_all (\<lambda>p. pod_name p = []) ps" "length ps \<le> length prev" "distinct (map pod_name prev)" "[] \<notin> set (map pod_name prev)"
    and "set (map pod_name prev) \<inter> set used = {}"
  shows "map pod_name (fst (reclaim_names prev used ps)) = take (length ps) (map pod_name prev)"
  using assms
proof (induction ps arbitrary: prev used)
  case (Cons p ps)
  then obtain q qs where q: "prev = q # qs" by (cases prev) auto
  have "map pod_name (fst (reclaim_names qs (pod_name q # used) ps)) = take (length ps) (map pod_name qs)"
    using Cons q by auto
  then show ?case using Cons.prems q by (auto simp: Let_def split: prod.splits)
qed simp

lemma default_names_named: "[] \<notin> set (map pod_name ps) \<Longrightarrow> default_names used n ps = ps"
  by (induction ps) auto

text \<open>an update that gives no names and at most as many pods as before keeps the name of every slot, so the pods
  it resizes are the deployed ones and the ones it drops are at the end.\<close>

theorem unnamed_update_keeps_slots:
  assumes "list_all (\<lambda>p. pod_name p = []) ps" "length ps \<le> length prev" "distinct (map pod_name prev)" "[] \<notin> set (map pod_name prev)"
  shows "\<exists>ps'. fill_pod_names ps prev = Inr ps' \<and> map pod_name ps' = take (length ps) (map pod_name prev)"
proof -
  have n: "names ps = []" using assms(1) by (auto simp: list_all_iff filter_empty_conv)
  then have c: "efold collect_names [] ps = Inr []"
    using collect_names_all [where used = "[]" and ps = ps] by (auto split: sum.splits)
  obtain qs us where r: "reclaim_names prev [] ps = (qs, us)" by force
  have q: "map pod_name qs = take (length ps) (map pod_name prev)" using reclaim_all [OF assms, of "[]"] r by simp
  then have "default_names us 1 qs = qs" using assms(4) by (intro default_names_named) (metis in_set_takeD)
  then show ?thesis using c r q by (simp add: fill_pod_names_def)
qed

theorem unnamed_update_keeps_slots_witness:
  "\<exists>ps'. fill_pod_names [\<lparr>pod_name = [], spines = 4, racks = 2, servers_per_rack = 8\<rparr>]
      [\<lparr>pod_name = ''east'', spines = 2, racks = 1, servers_per_rack = 2\<rparr>, \<lparr>pod_name = ''west'', spines = 2, racks = 1, servers_per_rack = 2\<rparr>]
      = Inr ps' \<and> map pod_name ps' = [''east'']"
  using unnamed_update_keeps_slots [of "[\<lparr>pod_name = [], spines = 4, racks = 2, servers_per_rack = 8\<rparr>]"
      "[\<lparr>pod_name = ''east'', spines = 2, racks = 1, servers_per_rack = 2\<rparr>, \<lparr>pod_name = ''west'', spines = 2, racks = 1, servers_per_rack = 2\<rparr>]"]
  by simp

text \<open>The default name of a removed pod is given to a new one: after removing \<open>pod-1\<close> and adding an unnamed pod,
  the new pod is \<open>pod-1\<close> again, and takes over the removed one's deployed nodes.\<close>

lemma removed_default_name_is_reused:
  "(case fill_pod_names [\<lparr>pod_name = ''pod-2'', spines = 2, racks = 1, servers_per_rack = 2\<rparr>, \<lparr>pod_name = [], spines = 2, racks = 1, servers_per_rack = 2\<rparr>]
      [\<lparr>pod_name = ''pod-1'', spines = 2, racks = 1, servers_per_rack = 2\<rparr>, \<lparr>pod_name = ''pod-2'', spines = 2, racks = 1, servers_per_rack = 2\<rparr>]
    of Inl _ \<Rightarrow> [] | Inr qs \<Rightarrow> map pod_name qs) = [''pod-2'', ''pod-1'']"
  by code_simp

section \<open>Updates\<close>

lemma validate_pods: "efold validate_pod () ips = Inr () \<longleftrightarrow>
    list_all (\<lambda>(i, p). 1 \<le> spines p \<and> 1 \<le> racks p \<and> 1 \<le> servers_per_rack p \<and> servers_per_rack p \<le> 200) ips"
  by (induction ips) (auto simp: validate_pod_def split: if_splits)

definition valid_shape :: "topology_spec \<Rightarrow> bool" where
  "valid_shape t \<longleftrightarrow> 1 \<le> external_routers t \<and> 1 \<le> dc_edges t \<and> 1 \<le> super_spines t \<and> pods t \<noteq> [] \<and>
     list_all (\<lambda>p. 1 \<le> spines p \<and> 1 \<le> racks p \<and> 1 \<le> servers_per_rack p \<and> servers_per_rack p \<le> 200) (pods t)"

lemma validate_iff: "validate_topology_spec t = Inr u \<longleftrightarrow> valid_shape t"
proof -
  have "list_all (\<lambda>(i, p). Q p) (enumerate n xs) = list_all Q xs" for Q n and xs :: "pod_spec list"
    by (induction xs arbitrary: n) auto
  then show ?thesis
    using validate_pods [of "enumerate 0 (pods t)"] by (auto simp: validate_topology_spec_def valid_shape_def)
qed

lemma valid_shape_same:
  assumes "valid_shape t" "list_all2 same_pod (pods t) ps"
  shows "valid_shape (t\<lparr>pods := ps, internet_access := b\<rparr>)"
proof -
  have "ps \<noteq> []" using assms by (auto simp: valid_shape_def)
  moreover have "list_all (\<lambda>p. 1 \<le> spines p \<and> 1 \<le> racks p \<and> 1 \<le> servers_per_rack p \<and> servers_per_rack p \<le> 200) ps"
    using assms(2) assms(1) [unfolded valid_shape_def]
    by (simp add: list_all_length list_all2_conv_all_nth same_pod_def)
  ultimately show ?thesis using assms(1) by (simp add: valid_shape_def)
qed

text \<open>an accepted topology update stores a lab of which only the shape, the profile (now custom) and the update time
  changed: every tier is present, racks have 1 to 200 servers, the pods have distinct names, the internet attachment is
  the lab's own, the lab was not being applied, and pools, AS ranges and generation are untouched.\<close>

theorem updated_topology_is_valid:
  assumes "update_topology get save now lid topo = Inr lb'"
  shows "\<exists>lb. get lid = Inr lb \<and> phase (lab_meta lb) \<noteq> PhaseApplying \<and> save lb' = None \<and> valid_shape (lab_topology (lab_spec lb')) \<and>
    distinct (map pod_name (pods (lab_topology (lab_spec lb')))) \<and>
    internet_access (lab_topology (lab_spec lb')) = internet_access (lab_topology (lab_spec lb)) \<and>
    lab_meta lb' = (lab_meta lb)\<lparr>updated_at := now\<rparr> \<and>
    lab_spec lb' = (lab_spec lb)\<lparr>lab_profile := ProfileCustom, lab_topology := lab_topology (lab_spec lb')\<rparr>"
proof -
  obtain lb ps where u: "get lid = Inr lb" "phase (lab_meta lb) \<noteq> PhaseApplying" "validate_topology_spec topo = Inr ()"
    "fill_pod_names (pods topo) (pods (lab_topology (lab_spec lb))) = Inr ps" "save lb' = None"
    "lb' = lb\<lparr>lab_meta := (lab_meta lb)\<lparr>updated_at := now\<rparr>, lab_spec := (lab_spec lb)\<lparr>lab_profile := ProfileCustom,
       lab_topology := topo\<lparr>pods := ps, internet_access := internet_access (lab_topology (lab_spec lb))\<rparr>\<rparr>\<rparr>"
    using assms by (auto simp: update_topology_def Let_def split: sum.splits if_splits option.splits)
  have n: "distinct (map pod_name ps) \<and> [] \<notin> set (map pod_name ps) \<and> list_all2 same_pod (pods topo) ps"
    by (rule fill_unique [OF u(4)])
  have "valid_shape topo" using u(3) validate_iff by blast
  from valid_shape_same [OF this] n have "valid_shape (lab_topology (lab_spec lb'))" by (simp add: u(6))
  then show ?thesis using u n by simp
qed

definition demo_lab :: lab where
  "demo_lab = \<lparr>lab_meta = (fresh_meta ''lab-1'' ''demo'')\<lparr>phase := PhaseRunning\<rparr>,
     lab_spec = \<lparr>lab_profile = ProfileMicro, lab_topology = the (profiles ProfileMicro), lab_pools = default_pools, lab_asns = default_asn_ranges\<rparr>\<rparr>"

definition demo_shape :: topology_spec where
  "demo_shape = \<lparr>external_routers = 1, dc_edges = 2, super_spines = 2,
     pods = [\<lparr>pod_name = [], spines = 2, racks = 2, servers_per_rack = 4\<rparr>, \<lparr>pod_name = ''edge'', spines = 2, racks = 1, servers_per_rack = 2\<rparr>],
     internet_access = True\<rparr>"

theorem updated_topology_is_valid_witness:
  "\<exists>lb'. update_topology (\<lambda>_. Inr demo_lab) (\<lambda>_. None) 7 ''lab-1'' demo_shape = Inr lb' \<and> \<not> internet_access (lab_topology (lab_spec lb')) \<and>
     valid_shape (lab_topology (lab_spec lb'))"
proof -
  have "(case update_topology (\<lambda>_. Inr demo_lab) (\<lambda>_. None) 7 ''lab-1'' demo_shape of Inl _ \<Rightarrow> False | Inr lb \<Rightarrow> \<not> internet_access (lab_topology (lab_spec lb)))"
    by code_simp
  then obtain lb' where l: "update_topology (\<lambda>_. Inr demo_lab) (\<lambda>_. None) 7 ''lab-1'' demo_shape = Inr lb'" "\<not> internet_access (lab_topology (lab_spec lb'))"
    by (auto split: sum.splits)
  from updated_topology_is_valid [OF l(1)] l show ?thesis by blast
qed

text \<open>destroying a lab removes its resources only after its containers are gone: the resources step succeeds only
  if the destroy step did, which fails exactly when the driver does on a lab that has been applied.\<close>

theorem resources_outlive_containers:
  "case run_op clock op (delete_lab_steps destroy del data_dir lb) of (failed, op', tr) \<Rightarrow>
     map os_state (op_steps op') =
       (if generation (lab_meta lb) \<noteq> 0 \<and> destroy (generation_dir data_dir (meta_id (lab_meta lb)) (generation (lab_meta lb))) \<noteq> None
        then [OperationFailed, OperationQueued]
        else if del (meta_id (lab_meta lb)) \<noteq> None then [OperationSucceeded, OperationFailed]
        else [OperationSucceeded, OperationSucceeded])"
  using run_op_outcome [where clock = clock and op = op and steps = "delete_lab_steps destroy del data_dir lb"]
  by (cases "destroy (generation_dir data_dir (meta_id (lab_meta lb)) (generation (lab_meta lb)))"; cases "del (meta_id (lab_meta lb))")
     (auto simp: delete_lab_steps_def split: prod.splits if_splits)

end
