(* ===== verification/Bgp.thy ===== *)
theory Bgp
  imports Netip
begin

unbundle bit_operations_syntax

text \<open>
  controller/internal/capture/bgp.go: the decoder of BGP-4 messages, and the field tree of
  controller/internal/capture/decode.go it produces. Bytes are 8-bit words, the loops over a buffer
  recurse on the position (or, where the code shortens the slice, on the slice). A lookup in a Go map
  of names that has no entry gives the empty string.
\<close>

type_synonym bytes = "byte list"

section \<open>Bytes\<close>

definition slice :: "'a list \<Rightarrow> nat \<Rightarrow> nat \<Rightarrow> 'a list" where
  "slice xs a b = take (b - a) (drop a xs)"

definition u16 :: "bytes \<Rightarrow> 16 word" where "u16 bs = of_nat (be_val bs)"
definition u32 :: "bytes \<Rightarrow> 32 word" where "u32 bs = of_nat (be_val bs)"

definition show_word :: "'a::len word \<Rightarrow> string" where "show_word w = show_nat (unat w)"

definition show_ip4 :: "bytes \<Rightarrow> string" where
  "show_ip4 bs = show_addr (V4 (u32 bs))"

definition bytes_text :: "bytes \<Rightarrow> string" where
  "bytes_text bs = map (\<lambda>b. char_of (unat b)) bs"

definition show_hex_bytes :: "bytes \<Rightarrow> string" where
  "show_hex_bytes bs = ''0x'' @ concat (map (\<lambda>b. show_hex_pad 2 (unat b)) bs)"

text \<open>The slices a loop \<open>for ; len(v) >= k; v = v[k:]\<close> looks at.\<close>

fun chunks :: "nat \<Rightarrow> 'a list \<Rightarrow> 'a list list" where
  "chunks k v = (if k = 0 \<or> length v < k then [] else take k v # chunks k (drop k v))"

declare chunks.simps [simp del]

definition name_of :: "(nat \<times> string) list \<Rightarrow> nat \<Rightarrow> string" where
  "name_of table k = (case map_of table k of None \<Rightarrow> [] | Some s \<Rightarrow> s)"

definition or_unknown :: "string \<Rightarrow> string list \<Rightarrow> string" where
  "or_unknown sep parts = (if parts = [] then ''?'' else join sep parts)"

section \<open>Fields\<close>

datatype field = Field (fd_name: string) (fd_value: string) (fd_offset: nat) (fd_length: nat) (fd_children: "field list")

definition new_field :: "string \<Rightarrow> string \<Rightarrow> field" where
  "new_field name v = Field name v 0 0 []"

definition new_field_at :: "string \<Rightarrow> string \<Rightarrow> nat \<Rightarrow> nat \<Rightarrow> field" where
  "new_field_at name v off len = Field name v off len []"

definition with_children :: "field \<Rightarrow> field list \<Rightarrow> field" where
  "with_children f cs = Field (fd_name f) (fd_value f) (fd_offset f) (fd_length f) cs"

fun shift_field :: "nat \<Rightarrow> field \<Rightarrow> field" where
  "shift_field d (Field n v off len cs) = Field n v (if 0 < len then off + d else off) len (map (shift_field d) cs)"

definition shift_fields :: "nat \<Rightarrow> field list \<Rightarrow> field list" where
  "shift_fields d fs = map (shift_field d) fs"

record bgp_message =
  b_type :: string
  b_summary :: string
  b_fields :: "field list"
  b_offset :: nat
  b_length :: nat

definition message :: "string \<Rightarrow> string \<Rightarrow> bgp_message" where
  "message t s = \<lparr>b_type = t, b_summary = s, b_fields = [], b_offset = 0, b_length = 0\<rparr>"

definition bgp_info :: "bgp_message list \<Rightarrow> string" where
  "bgp_info msgs = join '', '' (map b_summary msgs)"

section \<open>Tables\<close>

definition bgp_header_len :: nat where "bgp_header_len = 19"

definition bgp_type_names :: "(nat \<times> string) list" where
  "bgp_type_names = [(1, ''OPEN''), (2, ''UPDATE''), (3, ''NOTIFICATION''), (4, ''KEEPALIVE''), (5, ''ROUTE-REFRESH'')]"

definition bgp_notification_codes :: "(nat \<times> string) list" where
  "bgp_notification_codes = [(1, ''Message Header Error''), (2, ''OPEN Message Error''), (3, ''UPDATE Message Error''),
     (4, ''Hold Timer Expired''), (5, ''FSM Error''), (6, ''Cease'')]"

definition bgp_notification_subcodes :: "(nat \<times> (nat \<times> string) list) list" where
  "bgp_notification_subcodes =
    [(1, [(1, ''Connection Not Synchronized''), (2, ''Bad Message Length''), (3, ''Bad Message Type'')]),
     (2, [(1, ''Unsupported Version Number''), (2, ''Bad Peer AS''), (3, ''Bad BGP Identifier''),
          (4, ''Unsupported Optional Parameter''), (6, ''Unacceptable Hold Time''), (7, ''Unsupported Capability'')]),
     (3, [(1, ''Malformed Attribute List''), (2, ''Unrecognized Well-known Attribute''), (3, ''Missing Well-known Attribute''),
          (4, ''Attribute Flags Error''), (5, ''Attribute Length Error''), (6, ''Invalid ORIGIN Attribute''),
          (8, ''Invalid NEXT_HOP Attribute''), (9, ''Optional Attribute Error''), (10, ''Invalid Network Field''),
          (11, ''Malformed AS_PATH'')]),
     (5, [(1, ''Unexpected Message in OpenSent''), (2, ''Unexpected Message in OpenConfirm''), (3, ''Unexpected Message in Established'')]),
     (6, [(1, ''Maximum Number of Prefixes Reached''), (2, ''Administrative Shutdown''), (3, ''Peer De-configured''),
          (4, ''Administrative Reset''), (5, ''Connection Rejected''), (6, ''Other Configuration Change''),
          (7, ''Connection Collision Resolution''), (8, ''Out of Resources''), (9, ''Hard Reset'')])]"

definition bgp_attr_names :: "(nat \<times> string) list" where
  "bgp_attr_names = [(1, ''Origin''), (2, ''AS Path''), (3, ''Next Hop''), (4, ''MED''), (5, ''Local Pref''),
     (6, ''Atomic Aggregate''), (7, ''Aggregator''), (8, ''Communities''), (9, ''Originator ID''),
     (10, ''Cluster List''), (14, ''MP Reach NLRI''), (15, ''MP Unreach NLRI''),
     (16, ''Extended Communities''), (17, ''AS4 Path''), (18, ''AS4 Aggregator''), (32, ''Large Communities'')]"

definition bgp_afi_names :: "(nat \<times> string) list" where
  "bgp_afi_names = [(1, ''IPv4''), (2, ''IPv6''), (25, ''L2VPN'')]"

definition bgp_safi_names :: "(nat \<times> string) list" where
  "bgp_safi_names = [(1, ''Unicast''), (2, ''Multicast''), (4, ''Labeled Unicast''), (70, ''EVPN''), (128, ''MPLS VPN'')]"

definition bgp_well_known_communities :: "(nat \<times> string) list" where
  "bgp_well_known_communities = [(0xffff0000, ''GRACEFUL_SHUTDOWN''), (0xffffff01, ''NO_EXPORT''),
     (0xffffff02, ''NO_ADVERTISE''), (0xffffff03, ''NO_EXPORT_SUBCONFED'')]"

section \<open>Capabilities\<close>

definition afi_safi_name :: "16 word \<Rightarrow> byte \<Rightarrow> string" where
  "afi_safi_name afi safi =
    (case (map_of bgp_afi_names (unat afi), map_of bgp_safi_names (unat safi)) of
       (Some a, Some s) \<Rightarrow> a @ '' '' @ s
     | _ \<Rightarrow> ''AFI '' @ show_word afi @ '' / SAFI '' @ show_word safi)"

definition bgp_ext_next_hop :: "bytes \<Rightarrow> string" where
  "bgp_ext_next_hop v = or_unknown '', '' (map (\<lambda>c.
     afi_safi_name (u16 (slice c 0 2)) (ucast (u16 (slice c 2 4))) @ '' via '' @ name_of bgp_afi_names (unat (u16 (slice c 4 6)))) (chunks 6 v))"

definition bgp_graceful_restart :: "bytes \<Rightarrow> string" where
  "bgp_graceful_restart v =
    (if length v < 2 then ''?''
     else let head = u16 (slice v 0 2);
              text = ''restart time '' @ show_word (head AND 0x0fff) @ '' s'' @ (if head AND 0x8000 \<noteq> 0 then '' (restarted)'' else []);
              families = map (\<lambda>c. afi_safi_name (u16 (slice c 0 2)) (c ! 2)) (chunks 4 (drop 2 v))
          in if families = [] then text else text @ '': '' @ join '', '' families)"

definition add_path_modes :: "(nat \<times> string) list" where
  "add_path_modes = [(1, ''RX''), (2, ''TX''), (3, ''TX+RX'')]"

definition bgp_add_path :: "bytes \<Rightarrow> string" where
  "bgp_add_path v = or_unknown '', '' (map (\<lambda>c. let mode = name_of add_path_modes (unat (c ! 3)) in
     afi_safi_name (u16 (slice c 0 2)) (c ! 2) @ '' '' @ (if mode = [] then ''?'' else mode)) (chunks 4 v))"

definition bgp_fqdn :: "bytes \<Rightarrow> string" where
  "bgp_fqdn v =
    (if length v < 1 \<or> length v < 1 + unat (v ! 0) then ''?''
     else let host = bytes_text (slice v 1 (1 + unat (v ! 0))); rest = drop (1 + unat (v ! 0)) v in
       if 1 \<le> length rest \<and> 1 + unat (rest ! 0) \<le> length rest \<and> 0 < rest ! 0
       then host @ ''.'' @ bytes_text (slice rest 1 (1 + unat (rest ! 0))) else host)"

definition bgp_capability :: "byte \<Rightarrow> bytes \<Rightarrow> string \<times> string" where
  "bgp_capability code v =
    (if code = 1 then (''Multiprotocol'', if length v = 4 then afi_safi_name (u16 (slice v 0 2)) (v ! 3) else ''?'')
     else if code = 2 then (''Route Refresh'', ''supported'')
     else if code = 5 then (''Extended Next Hop'', bgp_ext_next_hop v)
     else if code = 6 then (''Extended Message'', ''supported'')
     else if code = 64 then (''Graceful Restart'', bgp_graceful_restart v)
     else if code = 65 then (''4-octet AS'', if length v = 4 then show_word (u32 v) else ''?'')
     else if code = 69 then (''ADD-PATH'', bgp_add_path v)
     else if code = 70 then (''Enhanced Route Refresh'', ''supported'')
     else if code = 71 then (''Long-Lived Graceful Restart'', ''supported'')
     else if code = 73 then (''FQDN'', bgp_fqdn v)
     else if code = 128 then (''Route Refresh (Cisco)'', ''supported'')
     else (''Capability '' @ show_word code, show_nat (length v) @ '' bytes''))"

function bgp_capabilities :: "bytes \<Rightarrow> nat \<Rightarrow> nat \<Rightarrow> field list \<times> 32 word \<Rightarrow> field list \<times> 32 word" where
  "bgp_capabilities buf base pos (fs, real) =
    (if length buf < pos + 2 then (fs, real)
     else let code = buf ! pos; clen = unat (buf ! (pos + 1)) in
       if length buf < pos + 2 + clen then (fs, real)
       else let v = slice buf (pos + 2) (pos + 2 + clen); (name, text) = bgp_capability code v in
         bgp_capabilities buf base (pos + 2 + clen)
           (fs @ [new_field_at name text (base + pos) (2 + clen)], if code = 65 \<and> clen = 4 then u32 v else real))"
  by pat_completeness auto

termination bgp_capabilities
  by (relation "measure (\<lambda>(buf, base, pos, st). length buf - pos)") auto

declare bgp_capabilities.simps [simp del]

function bgp_open_params :: "bytes \<Rightarrow> nat \<Rightarrow> nat \<Rightarrow> field list \<times> 32 word \<Rightarrow> field list \<times> 32 word" where
  "bgp_open_params buf base pos (fs, real) =
    (if length buf < pos + 2 then (fs, real)
     else let ptype = buf ! pos; plen = unat (buf ! (pos + 1)) in
       if length buf < pos + 2 + plen then (fs, real)
       else if ptype = 2
       then let (caps, as) = bgp_capabilities (slice buf (pos + 2) (pos + 2 + plen)) (base + pos + 2) 0 ([], 0) in
         bgp_open_params buf base (pos + 2 + plen) (fs @ caps, if as \<noteq> 0 then as else real)
       else bgp_open_params buf base (pos + 2 + plen)
         (fs @ [new_field_at (''Parameter '' @ show_word ptype) (show_nat plen @ '' bytes'') (base + pos) (2 + plen)], real))"
  by pat_completeness auto

termination bgp_open_params
  by (relation "measure (\<lambda>(buf, base, pos, st). length buf - pos)") auto

declare bgp_open_params.simps [simp del]

section \<open>Path attributes\<close>

definition bgp_origin :: "bytes \<Rightarrow> string" where
  "bgp_origin v = (if length v \<noteq> 1 then ''?'' else if v ! 0 = 0 then ''IGP'' else if v ! 0 = 1 then ''EGP'' else ''Incomplete'')"

definition bgp_aggregator :: "bytes \<Rightarrow> string" where
  "bgp_aggregator v =
    (if length v = 8 then ''AS '' @ show_word (u32 (slice v 0 4)) @ '', '' @ show_ip4 (slice v 4 8)
     else if length v = 6 then ''AS '' @ show_word (u16 (slice v 0 2)) @ '', '' @ show_ip4 (slice v 2 6)
     else ''?'')"

definition bgp_communities :: "bytes \<Rightarrow> string" where
  "bgp_communities v = or_unknown '' '' (map (\<lambda>ch. let c = u32 ch; name = name_of bgp_well_known_communities (unat c) in
     if name \<noteq> [] then name else show_word (drop_bit 16 c) @ '':'' @ show_word (c AND 0xffff)) (chunks 4 v))"

definition bgp_large_communities :: "bytes \<Rightarrow> string" where
  "bgp_large_communities v = or_unknown '' '' (map (\<lambda>c.
     show_word (u32 (slice c 0 4)) @ '':'' @ show_word (u32 (slice c 4 8)) @ '':'' @ show_word (u32 (slice c 8 12))) (chunks 12 v))"

definition bgp_ext_community :: "bytes \<Rightarrow> string" where
  "bgp_ext_community c = (let typ = c ! 0 AND 0x3f; sub = c ! 1 in
    if typ = 0x00 \<and> sub = 0x02 then ''RT:'' @ show_word (u16 (slice c 2 4)) @ '':'' @ show_word (u32 (slice c 4 8))
    else if typ = 0x00 \<and> sub = 0x03 then ''RO:'' @ show_word (u16 (slice c 2 4)) @ '':'' @ show_word (u32 (slice c 4 8))
    else if typ = 0x01 \<and> sub = 0x02 then ''RT:'' @ show_ip4 (slice c 2 6) @ '':'' @ show_word (u16 (slice c 6 8))
    else if typ = 0x02 \<and> sub = 0x02 then ''RT:'' @ show_word (u32 (slice c 2 6)) @ '':'' @ show_word (u16 (slice c 6 8))
    else show_hex_bytes c)"

definition bgp_ext_communities :: "bytes \<Rightarrow> string" where
  "bgp_ext_communities v = or_unknown '' '' (map bgp_ext_community (chunks 8 v))"

definition bgp_cluster_list :: "bytes \<Rightarrow> string" where
  "bgp_cluster_list v = or_unknown '' '' (map show_ip4 (chunks 4 v))"

text \<open>The AS numbers of one segment, and the segments; None is the \<open>false\<close> of the code.\<close>

definition bgp_segment_text :: "byte \<Rightarrow> string list \<Rightarrow> string" where
  "bgp_segment_text seg_type asns = (if seg_type = 1 then ''{'' @ join '','' asns @ ''}'' else join '' '' asns)"

definition bgp_segment_asns :: "nat \<Rightarrow> nat \<Rightarrow> bytes \<Rightarrow> string list" where
  "bgp_segment_asns width count v = map (\<lambda>i. let chunk = slice v (2 + i * width) (2 + (i + 1) * width) in
     show_word (if width = 4 then u32 chunk else ucast (u16 chunk))) [0..<count]"

function bgp_as_path_sized :: "nat \<Rightarrow> bytes \<Rightarrow> string list \<Rightarrow> string option" where
  "bgp_as_path_sized width v parts =
    (if v = [] then Some (join '' '' parts)
     else if length v < 2 then None
     else let count = unat (v ! 1) in
       if length v < 2 + count * width then None
       else bgp_as_path_sized width (drop (2 + count * width) v) (parts @ [bgp_segment_text (v ! 0) (bgp_segment_asns width count v)]))"
  by pat_completeness auto

termination bgp_as_path_sized
  by (relation "measure (\<lambda>(width, v, parts). length v)") auto

declare bgp_as_path_sized.simps [simp del]

definition bgp_as_path :: "bytes \<Rightarrow> string" where
  "bgp_as_path v = (if v = [] then ''(empty)''
     else case bgp_as_path_sized 4 v [] of Some p \<Rightarrow> p
     | None \<Rightarrow> (case bgp_as_path_sized 2 v [] of Some p \<Rightarrow> p | None \<Rightarrow> ''?''))"

definition bgp_attr_value :: "byte \<Rightarrow> bytes \<Rightarrow> string" where
  "bgp_attr_value typ v = (let size = show_nat (length v) @ '' bytes'' in
    if typ = 1 then bgp_origin v
    else if typ = 2 then bgp_as_path v
    else if typ = 3 \<or> typ = 9 then (if length v = 4 then show_ip4 v else size)
    else if typ = 4 \<or> typ = 5 then (if length v = 4 then show_word (u32 v) else size)
    else if typ = 6 then ''present''
    else if typ = 7 \<or> typ = 18 then bgp_aggregator v
    else if typ = 8 then bgp_communities v
    else if typ = 10 then bgp_cluster_list v
    else if typ = 16 then bgp_ext_communities v
    else if typ = 17 then (case bgp_as_path_sized 4 v [] of Some p \<Rightarrow> p | None \<Rightarrow> ''?'')
    else if typ = 32 then bgp_large_communities v
    else size)"

definition attr_name :: "byte \<Rightarrow> string" where
  "attr_name typ = (let name = name_of bgp_attr_names (unat typ) in if name = [] then ''Attribute '' @ show_word typ else name)"

definition attr_header :: "bytes \<Rightarrow> nat \<Rightarrow> (nat \<times> nat) option" where
  "attr_header attrs pos =
    (if attrs ! pos AND 0x10 \<noteq> 0
     then (if length attrs - pos < 4 then None else Some (unat (u16 (slice attrs (pos + 2) (pos + 4))), 4))
     else Some (unat (attrs ! (pos + 2)), 3))"

function bgp_attr_fields :: "bytes \<Rightarrow> nat \<Rightarrow> nat \<Rightarrow> field list \<Rightarrow> field list" where
  "bgp_attr_fields attrs base pos fs =
    (if length attrs < pos + 3 then fs
     else case attr_header attrs pos of None \<Rightarrow> fs
     | Some (len, hdr) \<Rightarrow>
         if length attrs < pos + hdr + len then fs
         else bgp_attr_fields attrs base (pos + (hdr + len))
           (fs @ [new_field_at (attr_name (attrs ! (pos + 1))) (bgp_attr_value (attrs ! (pos + 1)) (slice attrs (pos + hdr) (pos + hdr + len)))
                    (base + pos) (hdr + len)]))"
  by pat_completeness auto

termination bgp_attr_fields
  by (relation "measure (\<lambda>(attrs, base, pos, fs). length attrs - pos)") (auto simp: attr_header_def split: if_splits)

declare bgp_attr_fields.simps [simp del]

section \<open>Messages\<close>

definition bgp_block :: "bytes \<Rightarrow> (bytes \<times> bytes) option" where
  "bgp_block buf =
    (if length buf < 2 then None
     else let n = unat (u16 (slice buf 0 2)) in
       if length buf < 2 + n then None else Some (slice buf 2 (2 + n), drop (2 + n) buf))"

text \<open>\<open>copy(addr[:], b)\<close> into four zero bytes.\<close>

definition pad4 :: "bytes \<Rightarrow> bytes" where
  "pad4 bs = take 4 bs @ replicate (4 - length bs) 0"

function bgp_prefix_fields :: "bytes \<Rightarrow> nat \<Rightarrow> nat \<Rightarrow> field list \<Rightarrow> field list" where
  "bgp_prefix_fields buf base pos fs =
    (if length buf \<le> pos then fs
     else let bits = unat (buf ! pos); n = (bits + 7) div 8 in
       if bits > 32 \<or> length buf < pos + 1 + n then fs
       else bgp_prefix_fields buf base (pos + (1 + n))
         (fs @ [new_field_at ''Prefix'' (show_ip4 (pad4 (slice buf (pos + 1) (pos + 1 + n))) @ ''/'' @ show_nat bits) (base + pos) (1 + n)]))"
  by pat_completeness auto

termination bgp_prefix_fields
  by (relation "measure (\<lambda>(buf, base, pos, fs). length buf - pos)") auto

declare bgp_prefix_fields.simps [simp del]

definition field_values :: "field list \<Rightarrow> string list" where
  "field_values fs = map fd_value fs"

definition join_capped :: "string list \<Rightarrow> string" where
  "join_capped items = (if length items \<le> 3 then join '', '' items
     else join '', '' (take 3 items) @ '' +'' @ show_nat (length items - 3) @ '' more'')"

definition group_field :: "string \<Rightarrow> string \<Rightarrow> nat \<Rightarrow> nat \<Rightarrow> field list \<Rightarrow> field list" where
  "group_field name v off len cs = (if cs = [] then [] else [with_children (new_field_at name v off len) cs])"

definition decode_bgp_update :: "bytes \<Rightarrow> nat \<Rightarrow> bgp_message" where
  "decode_bgp_update body base =
    (case bgp_block body of None \<Rightarrow> message ''UPDATE'' ''UPDATE [truncated]''
     | Some (withdrawn, rest) \<Rightarrow>
       (case bgp_block rest of None \<Rightarrow> message ''UPDATE'' ''UPDATE [truncated]''
        | Some (attrs, nlri_bytes) \<Rightarrow>
          (let attrs_base = base + 2 + length withdrawn + 2;
               withdrawn_fields = bgp_prefix_fields withdrawn (base + 2) 0 [];
               attr_fields = bgp_attr_fields attrs attrs_base 0 [];
               nlri_fields = bgp_prefix_fields nlri_bytes (attrs_base + length attrs) 0 [];
               withdrawn_prefixes = field_values withdrawn_fields; nlri = field_values nlri_fields
           in (message ''UPDATE''
                (if nlri = [] \<and> withdrawn_prefixes = [] \<and> attrs = [] then ''UPDATE (End-of-RIB)''
                 else if withdrawn_prefixes \<noteq> [] \<and> nlri = [] then ''UPDATE withdraw '' @ join_capped withdrawn_prefixes
                 else ''UPDATE '' @ join_capped nlri))\<lparr>b_fields :=
                group_field ''Path Attributes'' (show_nat (length attr_fields) @ '' attributes'') (attrs_base - 2) (2 + length attrs) attr_fields @
                group_field ''NLRI'' (join_capped nlri) (attrs_base + length attrs) (length nlri_bytes) nlri_fields @
                group_field ''Withdrawn Routes'' (join_capped withdrawn_prefixes) base (2 + length withdrawn) withdrawn_fields\<rparr>)))"

definition decode_bgp_notification :: "bytes \<Rightarrow> nat \<Rightarrow> bgp_message" where
  "decode_bgp_notification body base =
    (if length body < 2 then message ''NOTIFICATION'' ''NOTIFICATION''
     else let name = name_of bgp_notification_codes (unat (body ! 0));
              code = (if name = [] then ''code '' @ show_word (body ! 0) else name);
              sub = (case map_of bgp_notification_subcodes (unat (body ! 0)) of None \<Rightarrow> [] | Some t \<Rightarrow> name_of t (unat (body ! 1)));
              sub_text = (if sub = [] then show_word (body ! 1) else sub @ '' ('' @ show_word (body ! 1) @ '')'')
          in (message ''NOTIFICATION'' (''NOTIFICATION '' @ code @ (if sub = [] then [] else '': '' @ sub)))\<lparr>b_fields :=
               [new_field_at ''Error'' code base 1, new_field_at ''Subcode'' sub_text (base + 1) 1]\<rparr>)"

definition decode_bgp_route_refresh :: "bytes \<Rightarrow> nat \<Rightarrow> bgp_message" where
  "decode_bgp_route_refresh body base =
    (if length body < 4 then message ''ROUTE-REFRESH'' ''ROUTE-REFRESH''
     else let family = afi_safi_name (u16 (slice body 0 2)) (body ! 3)
          in (message ''ROUTE-REFRESH'' (''ROUTE-REFRESH '' @ family))\<lparr>b_fields := [new_field_at ''Family'' family base 4]\<rparr>)"

definition decode_bgp_open :: "bytes \<Rightarrow> nat \<Rightarrow> bgp_message" where
  "decode_bgp_open body base =
    (if length body < 10 then message ''OPEN'' ''OPEN [truncated]''
     else let asn = u16 (slice body 1 3); hold = u16 (slice body 3 5); opt_len = unat (body ! 9);
              as_text = show_word asn @ (if asn = 23456 then '' (AS_TRANS, 4-octet AS in capability)'' else []);
              has_params = (0 < opt_len \<and> 10 + opt_len \<le> length body);
              (params, real_as) = (if has_params then bgp_open_params (slice body 10 (10 + opt_len)) (base + 10) 0 ([], 0) else ([], 0));
              shown_as = (if has_params \<and> real_as \<noteq> 0 \<and> asn = 23456 then as_text @ '', real AS '' @ show_word real_as else as_text);
              summary_as = (if has_params \<and> real_as \<noteq> 0 then show_word real_as else as_text)
          in (message ''OPEN'' (''OPEN AS '' @ summary_as @ '' hold '' @ show_word hold @ ''s''))\<lparr>b_fields :=
               [new_field_at ''Version'' (show_word (body ! 0)) base 1, new_field_at ''AS'' shown_as (base + 1) 2,
                new_field_at ''Hold Time'' (show_word hold @ '' s'') (base + 3) 2, new_field_at ''Router ID'' (show_ip4 (slice body 5 9)) (base + 5) 4] @
               (if has_params then [with_children (new_field_at ''Optional Parameters'' (show_nat opt_len @ '' bytes'') (base + 10) opt_len) params]
                else [])\<rparr>)"

definition decode_bgp_message :: "string \<Rightarrow> bytes \<Rightarrow> nat \<Rightarrow> bgp_message" where
  "decode_bgp_message name body base =
    (if name = ''OPEN'' then decode_bgp_open body base
     else if name = ''UPDATE'' then decode_bgp_update body base
     else if name = ''NOTIFICATION'' then decode_bgp_notification body base
     else if name = ''ROUTE-REFRESH'' then decode_bgp_route_refresh body base
     else message name name)"

definition valid_marker :: "bytes \<Rightarrow> bool" where
  "valid_marker m \<longleftrightarrow> list_all (\<lambda>b. b = 0xff) m"

definition bgp_header_fields :: "nat \<Rightarrow> nat \<Rightarrow> string \<Rightarrow> field list" where
  "bgp_header_fields pos len name =
    [new_field_at ''Marker'' (''ff'' @ [CHR 0xE2, CHR 0x80, CHR 0xA6] @ ''ff'') pos 16,
     new_field_at ''Length'' (show_nat len) (pos + 16) 2, new_field_at ''Message Type'' name (pos + 18) 1]"

function decode_bgp_from :: "bytes \<Rightarrow> nat \<Rightarrow> bgp_message list \<Rightarrow> bgp_message list" where
  "decode_bgp_from payload pos msgs =
    (if payload = [] then msgs
     else if length payload < bgp_header_len
     then (if msgs = [] then msgs else msgs @ [(message ''?'' ''[truncated]'')\<lparr>b_offset := pos, b_length := length payload\<rparr>])
     else if \<not> valid_marker (slice payload 0 16) then msgs
     else let len = unat (u16 (slice payload 16 18)); name = map_of bgp_type_names (unat (payload ! 18)) in
       if name = None \<or> len < bgp_header_len \<or> 4096 < len then msgs
       else if length payload < len
       then msgs @ [(message (the name) (the name @ '' [truncated]''))\<lparr>b_offset := pos, b_length := length payload,
              b_fields := [new_field ''Length'' (show_nat len @ '' (only '' @ show_nat (length payload) @ '' captured)'')]\<rparr>]
       else let m = decode_bgp_message (the name) (slice payload bgp_header_len len) (pos + bgp_header_len) in
         decode_bgp_from (drop len payload) (pos + len)
           (msgs @ [m\<lparr>b_offset := pos, b_length := len, b_fields := bgp_header_fields pos len (the name) @ b_fields m\<rparr>]))"
  by pat_completeness auto

termination decode_bgp_from
  by (relation "measure (\<lambda>(payload, pos, msgs). length payload)") (auto simp: bgp_header_len_def)

declare decode_bgp_from.simps [simp del]

definition decode_bgp :: "bytes \<Rightarrow> bgp_message list" where
  "decode_bgp payload = decode_bgp_from payload 0 []"

end
