(* ===== verification/BgpProps.thy ===== *)
theory BgpProps
  imports Bgp NetipParse
begin

text \<open>
  Properties of the BGP decoder: the messages it reports tile the payload and every field lies inside
  its parent, so the byte ranges the viewer highlights always exist; the frames, the prefixes and the
  AS paths that a speaker encodes are the ones decoded.
\<close>

section \<open>Byte ranges\<close>

fun nested :: "nat \<Rightarrow> nat \<Rightarrow> field \<Rightarrow> bool" where
  "nested lo hi (Field n v off len cs) \<longleftrightarrow>
     (if len = 0 then cs = [] else lo \<le> off \<and> off + len \<le> hi \<and> list_all (nested off (off + len)) cs)"

lemma nested_new [simp]: "nested lo hi (new_field_at n v off len) \<longleftrightarrow> len = 0 \<or> lo \<le> off \<and> off + len \<le> hi"
  by (auto simp: new_field_at_def)

lemma nested_unranged [simp]: "nested lo hi (new_field n v)"
  by (simp add: new_field_def)

lemma nested_children [simp]:
  "nested lo hi (with_children (new_field_at n v off len) cs) \<longleftrightarrow>
     (if len = 0 then cs = [] else lo \<le> off \<and> off + len \<le> hi \<and> list_all (nested off (off + len)) cs)"
  by (simp add: with_children_def new_field_at_def)

lemma length_slice [simp]: "b \<le> length xs \<Longrightarrow> length (slice xs a b) = b - a"
  by (simp add: slice_def)

lemma capabilities_nested:
  assumes "lo \<le> base" "base + length buf \<le> hi" "list_all (nested lo hi) (fst st)"
  shows "list_all (nested lo hi) (fst (bgp_capabilities buf base pos st))"
  using assms
proof (induction buf base pos st rule: bgp_capabilities.induct)
  case (1 buf base pos fs real)
  show ?case
  proof (cases "length buf < pos + 2 \<or> length buf < pos + 2 + unat (buf ! (pos + 1))")
    case True
    then show ?thesis using 1 by (auto simp: bgp_capabilities.simps [of buf base pos] Let_def)
  next
    case False
    obtain nm tx where c: "bgp_capability (buf ! pos) (slice buf (pos + 2) (pos + 2 + unat (buf ! (pos + 1)))) = (nm, tx)" by force
    show ?thesis
      using 1 False c by (simp add: bgp_capabilities.simps [of buf base pos] Let_def)
  qed
qed

lemma open_params_nested:
  assumes "lo \<le> base" "base + length buf \<le> hi" "list_all (nested lo hi) (fst st)"
  shows "list_all (nested lo hi) (fst (bgp_open_params buf base pos st))"
  using assms
proof (induction buf base pos st rule: bgp_open_params.induct)
  case (1 buf base pos fs real)
  let ?len = "unat (buf ! (pos + 1))"
  show ?case
  proof (cases "length buf < pos + 2 \<or> length buf < pos + 2 + ?len")
    case True
    then show ?thesis using 1 by (auto simp: bgp_open_params.simps [of buf base pos] Let_def)
  next
    case False
    obtain caps as where c: "bgp_capabilities (slice buf (pos + 2) (pos + 2 + ?len)) (base + pos + 2) 0 ([], 0) = (caps, as)" by force
    have "list_all (nested lo hi) caps"
      using capabilities_nested [of lo "base + pos + 2" "slice buf (pos + 2) (pos + 2 + ?len)" hi "([], 0)" 0] c False 1 by simp
    then show ?thesis
      using 1 False c by (auto simp: bgp_open_params.simps [of buf base pos] Let_def)
  qed
qed

lemma attr_header_hdr: "attr_header attrs pos = Some (len, hdr) \<Longrightarrow> hdr = 3 \<or> hdr = 4"
  by (auto simp: attr_header_def split: if_splits)

lemma attr_fields_nested:
  assumes "lo \<le> base" "base + length attrs \<le> hi" "list_all (nested lo hi) fs"
  shows "list_all (nested lo hi) (bgp_attr_fields attrs base pos fs)"
  using assms
proof (induction attrs base pos fs rule: bgp_attr_fields.induct)
  case (1 attrs base pos fs)
  show ?case
  proof (cases "length attrs < pos + 3 \<or> attr_header attrs pos = None")
    case True
    then show ?thesis using 1 by (auto simp: bgp_attr_fields.simps [of attrs base pos] split: option.splits)
  next
    case False
    then obtain len hdr where h: "attr_header attrs pos = Some (len, hdr)" by auto
    show ?thesis
      using 1 False h by (auto simp: bgp_attr_fields.simps [of attrs base pos])
  qed
qed

lemma prefix_fields_nested:
  assumes "lo \<le> base" "base + length buf \<le> hi" "list_all (nested lo hi) fs"
  shows "list_all (nested lo hi) (bgp_prefix_fields buf base pos fs)"
  using assms
proof (induction buf base pos fs rule: bgp_prefix_fields.induct)
  case (1 buf base pos fs)
  show ?case
    using 1 by (simp add: bgp_prefix_fields.simps [of buf base pos] Let_def)
qed

lemma group_field_nested:
  "lo \<le> off \<Longrightarrow> off + len \<le> hi \<Longrightarrow> (cs = [] \<or> 0 < len) \<Longrightarrow> list_all (nested off (off + len)) cs \<Longrightarrow> list_all (nested lo hi) (group_field n v off len cs)"
  by (auto simp: group_field_def)

lemma bgp_block_Some:
  assumes "bgp_block buf = Some (a, b)"
  shows "length buf = 2 + length a + length b"
proof -
  let ?n = "unat (u16 (slice buf 0 2))"
  have "2 + ?n \<le> length buf" "a = slice buf 2 (2 + ?n)" "b = drop (2 + ?n) buf"
    using assms by (auto simp: bgp_block_def Let_def split: if_splits)
  then show ?thesis by simp
qed

lemma prefix_fields_empty: "bgp_prefix_fields [] base 0 [] = []"
  by (simp add: bgp_prefix_fields.simps)

lemma decode_update_nested: "list_all (nested base (base + length body)) (b_fields (decode_bgp_update body base))"
proof (cases "bgp_block body")
  case (Some wr)
  obtain w r where wr: "wr = (w, r)" by force
  show ?thesis
  proof (cases "bgp_block r")
    case (Some an)
    obtain a n where an: "an = (a, n)" by force
    have len: "length body = 2 + length w + length r" "length r = 2 + length a + length n"
      using bgp_block_Some \<open>bgp_block body = Some wr\<close> Some wr an by auto
    let ?ab = "base + 2 + length w + 2"
    have "list_all (nested base (base + length body)) (group_field ''Path Attributes'' v (?ab - 2) (2 + length a) (bgp_attr_fields a ?ab 0 []))" for v
      by (rule group_field_nested) (use len in \<open>auto intro: attr_fields_nested\<close>)
    moreover have "list_all (nested base (base + length body)) (group_field ''NLRI'' v (?ab + length a) (length n) (bgp_prefix_fields n (?ab + length a) 0 []))" for v
      by (rule group_field_nested) (use len in \<open>auto intro: prefix_fields_nested simp: prefix_fields_empty\<close>)
    moreover have "list_all (nested base (base + length body)) (group_field ''Withdrawn Routes'' v base (2 + length w) (bgp_prefix_fields w (base + 2) 0 []))" for v
      by (rule group_field_nested) (use len in \<open>auto intro: prefix_fields_nested\<close>)
    ultimately show ?thesis
      using \<open>bgp_block body = Some wr\<close> Some wr an by (simp add: decode_bgp_update_def Let_def)
  qed (use Some wr in \<open>simp add: decode_bgp_update_def message_def\<close>)
qed (simp add: decode_bgp_update_def message_def)

lemma decode_open_nested: "list_all (nested base (base + length body)) (b_fields (decode_bgp_open body base))"
proof (cases "length body < 10")
  case True
  then show ?thesis by (simp add: decode_bgp_open_def message_def)
next
  case False
  let ?n = "unat (body ! 9)"
  obtain params as where p: "bgp_open_params (slice body 10 (10 + ?n)) (base + 10) 0 ([], 0) = (params, as)" by force
  have "list_all (nested (base + 10) (base + 10 + ?n)) params" if "10 + ?n \<le> length body"
    using open_params_nested [of "base + 10" "base + 10" "slice body 10 (10 + ?n)" "base + 10 + ?n" "([], 0)" 0] that p by simp
  then show ?thesis using False p by (simp add: decode_bgp_open_def Let_def message_def)
qed

lemma decode_message_nested: "list_all (nested base (base + length body)) (b_fields (decode_bgp_message name body base))"
  using decode_open_nested [of base body] decode_update_nested [of base body]
  by (simp add: decode_bgp_message_def decode_bgp_notification_def decode_bgp_route_refresh_def message_def Let_def)

lemma nested_mono: "nested lo hi f \<Longrightarrow> lo' \<le> lo \<Longrightarrow> hi \<le> hi' \<Longrightarrow> nested lo' hi' f"
  by (cases f) auto

text \<open>The messages lie one after the other, from \<open>start\<close> to \<open>stop\<close>.\<close>

fun tiles :: "nat \<Rightarrow> bgp_message list \<Rightarrow> nat \<Rightarrow> bool" where
  "tiles start [] stop \<longleftrightarrow> start = stop"
| "tiles start (m # ms) stop \<longleftrightarrow> b_offset m = start \<and> tiles (start + b_length m) ms stop"

definition fields_inside :: "bgp_message \<Rightarrow> bool" where
  "fields_inside m \<longleftrightarrow> list_all (nested (b_offset m) (b_offset m + b_length m)) (b_fields m)"

lemma tiles_snoc: "tiles s ms e \<Longrightarrow> b_offset m = e \<Longrightarrow> tiles s (ms @ [m]) (e + b_length m)"
  by (induction s ms e rule: tiles.induct) auto

text \<open>The loop goes on exactly after a complete message, otherwise it ends with at most one truncated one.\<close>

definition whole_frame :: "bytes \<Rightarrow> bool" where
  "whole_frame payload \<longleftrightarrow> bgp_header_len \<le> length payload \<and> valid_marker (slice payload 0 16) \<and>
     map_of bgp_type_names (unat (payload ! 18)) \<noteq> None \<and>
     (let len = unat (u16 (slice payload 16 18)) in bgp_header_len \<le> len \<and> len \<le> 4096 \<and> len \<le> length payload)"

definition framed_message :: "string \<Rightarrow> bytes \<Rightarrow> nat \<Rightarrow> bgp_message" where
  "framed_message name body pos = (let m = decode_bgp_message name body (pos + bgp_header_len); len = bgp_header_len + length body in
     m\<lparr>b_offset := pos, b_length := len, b_fields := bgp_header_fields pos len name @ b_fields m\<rparr>)"

lemma framed_message_place [simp]:
  "b_offset (framed_message name body pos) = pos" "b_length (framed_message name body pos) = bgp_header_len + length body"
  by (simp_all add: framed_message_def Let_def)

lemma framed_message_inside: "fields_inside (framed_message name body pos)"
proof -
  let ?m = "decode_bgp_message name body (pos + bgp_header_len)"
  have "list_all (nested pos (pos + bgp_header_len + length body)) (b_fields ?m)"
    using decode_message_nested [of "pos + bgp_header_len" body name]
    by (rule list.pred_mono_strong) (auto intro: nested_mono)
  then show ?thesis
    by (simp add: framed_message_def fields_inside_def bgp_header_fields_def bgp_header_len_def Let_def add.assoc)
qed

lemma decode_from_whole:
  assumes "whole_frame payload" "len = unat (u16 (slice payload 16 18))"
  shows "decode_bgp_from payload pos msgs = decode_bgp_from (drop len payload) (pos + len)
     (msgs @ [framed_message (the (map_of bgp_type_names (unat (payload ! 18)))) (slice payload bgp_header_len len) pos])"
proof -
  have "payload \<noteq> []" using assms by (auto simp: whole_frame_def bgp_header_len_def)
  then show ?thesis
    using assms by (auto simp: decode_bgp_from.simps [of payload] whole_frame_def framed_message_def Let_def)
qed

lemma decode_from_stop:
  assumes "\<not> whole_frame payload"
  obtains "decode_bgp_from payload pos msgs = msgs"
  | m where "decode_bgp_from payload pos msgs = msgs @ [m]" "fields_inside m" "b_offset m = pos" "b_length m = length payload"
proof -
  have "decode_bgp_from payload pos msgs = msgs \<or>
    (\<exists>m. decode_bgp_from payload pos msgs = msgs @ [m] \<and> fields_inside m \<and> b_offset m = pos \<and> b_length m = length payload)"
    using assms by (auto simp: decode_bgp_from.simps [of payload] whole_frame_def Let_def fields_inside_def message_def)
  then show thesis using that by blast
qed

lemma decode_from_places:
  assumes "list_all fields_inside msgs" "tiles 0 msgs pos"
  shows "list_all fields_inside (decode_bgp_from payload pos msgs) \<and>
    (\<exists>stop. tiles 0 (decode_bgp_from payload pos msgs) stop \<and> stop \<le> pos + length payload)"
  using assms
proof (induction "length payload" arbitrary: payload pos msgs rule: less_induct)
  case less
  show ?case
  proof (cases "whole_frame payload")
    case True
    let ?len = "unat (u16 (slice payload 16 18))"
    let ?m = "framed_message (the (map_of bgp_type_names (unat (payload ! 18)))) (slice payload bgp_header_len ?len) pos"
    have len: "bgp_header_len \<le> ?len" "?len \<le> length payload" using True by (auto simp: whole_frame_def Let_def)
    have "tiles 0 (msgs @ [?m]) (pos + ?len)"
      using tiles_snoc [of 0 msgs pos ?m] less.prems len by simp
    moreover have "list_all fields_inside (msgs @ [?m])" using less.prems framed_message_inside by simp
    moreover have "length (drop ?len payload) < length payload" using len by (simp add: bgp_header_len_def)
    ultimately show ?thesis
      using less.hyps [of "drop ?len payload" "msgs @ [?m]" "pos + ?len"] len decode_from_whole [OF True refl] by simp
  next
    case False
    then show ?thesis
    proof (cases rule: decode_from_stop [where pos = pos and msgs = msgs])
      case 1
      then show ?thesis using less.prems by auto
    next
      case (2 m)
      then show ?thesis using less.prems tiles_snoc [of 0 msgs pos m] by auto
    qed
  qed
qed

text \<open>C11: The messages decoded from a TCP payload lie one after the other from its first byte and end inside
  it, and every field that has a byte range lies inside the message (and every child inside its parent), so
  each range the viewer highlights exists.\<close>
theorem decoded_ranges_fit:
  "list_all fields_inside (decode_bgp payload) \<and> (\<exists>stop. tiles 0 (decode_bgp payload) stop \<and> stop \<le> length payload)"
  using decode_from_places [of "[]" 0 payload] by (simp add: decode_bgp_def)

section \<open>Framing\<close>

text \<open>What a speaker puts on the wire: the marker, the length of the whole message, the type and the body.\<close>

definition bgp_frame :: "byte \<times> bytes \<Rightarrow> bytes" where
  "bgp_frame m = replicate 16 0xff @ be_bytes 2 (bgp_header_len + length (snd m)) @ fst m # snd m"

definition well_framed :: "byte \<times> bytes \<Rightarrow> bool" where
  "well_framed m \<longleftrightarrow> map_of bgp_type_names (unat (fst m)) \<noteq> None \<and> bgp_header_len + length (snd m) \<le> 4096"

fun decoded_frames :: "nat \<Rightarrow> (byte \<times> bytes) list \<Rightarrow> bgp_message list" where
  "decoded_frames pos [] = []"
| "decoded_frames pos (m # ms) = framed_message (the (map_of bgp_type_names (unat (fst m)))) (snd m) pos #
     decoded_frames (pos + bgp_header_len + length (snd m)) ms"

lemma slice_here: "length xs = n \<Longrightarrow> slice (xs @ ys) 0 n = xs"
  by (simp add: slice_def)

lemma slice_later: "length xs \<le> a \<Longrightarrow> slice (xs @ ys) a b = slice ys (a - length xs) (b - length xs)"
  by (simp add: slice_def)

lemma unat_u16_be_bytes: "n < 65536 \<Longrightarrow> unat (u16 (be_bytes 2 n)) = n"
  by (simp add: u16_def be_val_be_bytes unat_of_nat)

lemma frame_parts:
  "slice (bgp_frame (c, b) @ rest) 0 16 = replicate 16 0xff"
  "slice (bgp_frame (c, b) @ rest) 16 18 = be_bytes 2 (bgp_header_len + length b)"
  "(bgp_frame (c, b) @ rest) ! 18 = c"
  "slice (bgp_frame (c, b) @ rest) bgp_header_len (bgp_header_len + length b) = b"
  "drop (bgp_header_len + length b) (bgp_frame (c, b) @ rest) = rest"
  "length (bgp_frame (c, b)) = bgp_header_len + length b"
  by (simp_all add: bgp_frame_def slice_here slice_later bgp_header_len_def nth_append)
    (simp_all add: slice_def)

lemma decode_frame:
  assumes "well_framed (c, b)"
  shows "decode_bgp_from (bgp_frame (c, b) @ rest) pos msgs = decode_bgp_from rest (pos + bgp_header_len + length b)
    (msgs @ [framed_message (the (map_of bgp_type_names (unat c))) b pos])"
proof -
  let ?p = "bgp_frame (c, b) @ rest"
  have len: "unat (u16 (slice ?p 16 18)) = bgp_header_len + length b"
    using assms by (simp add: frame_parts unat_u16_be_bytes well_framed_def)
  have "whole_frame ?p"
    using assms unfolding whole_frame_def len by (simp add: frame_parts well_framed_def valid_marker_def Let_def list_all_iff)
  from decode_from_whole [OF this refl, of pos msgs]
  show ?thesis unfolding len by (simp add: frame_parts add.assoc)
qed

lemma decode_frames:
  assumes "list_all well_framed ms"
  shows "decode_bgp_from (concat (map bgp_frame ms) @ rest) pos msgs =
    decode_bgp_from rest (pos + length (concat (map bgp_frame ms))) (msgs @ decoded_frames pos ms)"
  using assms
proof (induction ms arbitrary: pos msgs)
  case (Cons m ms)
  obtain c b where m: "m = (c, b)" by force
  show ?case using Cons m by (simp add: decode_frame frame_parts add.assoc)
qed simp

text \<open>Several complete messages in one payload, each with a known type and at most 4096 octets long, are
  decoded one by one, in their order, each from its own body and at its own position; a header cut short at the
  end of the payload is reported as one truncated message.\<close>
theorem frames_decode_in_order:
  assumes "list_all well_framed ms" "length rest < bgp_header_len"
  shows "decode_bgp (concat (map bgp_frame ms) @ rest) = decoded_frames 0 ms @
    (if rest = [] \<or> ms = [] then []
     else [(message ''?'' ''[truncated]'')\<lparr>b_offset := length (concat (map bgp_frame ms)), b_length := length rest\<rparr>])"
proof -
  have "decoded_frames 0 ms = [] \<longleftrightarrow> ms = []" by (cases ms) auto
  then show ?thesis
    using assms decode_frames [of ms rest 0 "[]"] by (simp add: decode_bgp_def decode_bgp_from.simps [of rest])
qed

theorem frames_decode_in_order_witness:
  "decode_bgp (concat (map bgp_frame [(4, []), (5, [0, 1, 0, 1])]) @ [0xff]) = decoded_frames 0 [(4, []), (5, [0, 1, 0, 1])] @
    [(message ''?'' ''[truncated]'')\<lparr>b_offset := 42, b_length := 1\<rparr>]"
  using frames_decode_in_order [of "[(4, []), (5, [0, 1, 0, 1])]" "[0xff]"]
  by (simp add: well_framed_def bgp_type_names_def bgp_header_len_def bgp_frame_def)

section \<open>Prefixes\<close>

text \<open>A prefix on the wire is its length in bits and as many octets of the address as they need.\<close>

definition prefix_bytes :: "32 word \<times> nat \<Rightarrow> bytes" where
  "prefix_bytes p = word_of_nat (snd p) # take ((snd p + 7) div 8) (be_bytes 4 (unat (fst p)))"

definition canonical_prefix :: "32 word \<times> nat \<Rightarrow> bool" where
  "canonical_prefix p \<longleftrightarrow> snd p \<le> 32 \<and> 2 ^ (32 - snd p) dvd unat (fst p)"

definition prefix_text :: "32 word \<times> nat \<Rightarrow> string" where
  "prefix_text p = show_prefix (Prefix (V4 (fst p)) (int (snd p)))"

lemma length_prefix_bytes: "canonical_prefix p \<Longrightarrow> length (prefix_bytes p) = 1 + (snd p + 7) div 8"
  by (auto simp: prefix_bytes_def canonical_prefix_def min_def)

lemma low_octet_zero: "256 ^ Suc k dvd n \<Longrightarrow> (word_of_nat (n div 256 ^ k) :: byte) = 0"
proof -
  assume "256 ^ Suc k dvd n"
  then have "256 dvd n div 256 ^ k" by (auto simp: dvd_def)
  then show ?thesis by (auto simp: word_of_nat_eq_0_iff)
qed

lemma pad4_prefix:
  assumes "canonical_prefix (a, bits)"
  shows "pad4 (take ((bits + 7) div 8) (be_bytes 4 (unat a))) = be_bytes 4 (unat a)"
proof -
  let ?n = "(bits + 7) div 8" and ?a = "unat a"
  have n: "?n \<le> 4" "32 - 8 * ?n \<le> 32 - bits" using assms by (auto simp: canonical_prefix_def)
  have "(2::nat) ^ (32 - 8 * ?n) dvd ?a"
    using assms n(2) by (auto simp: canonical_prefix_def intro: power_le_dvd)
  moreover have "(256::nat) ^ (4 - ?n) = (2 ^ 8) ^ (4 - ?n)" by simp
  moreover have "\<dots> = 2 ^ (32 - 8 * ?n)" by (simp only: power_mult [symmetric] diff_mult_distrib2) simp
  ultimately have d: "256 ^ (4 - ?n) dvd ?a" by simp
  have z: "(word_of_nat (?a div 256 ^ k) :: byte) = 0" if "k < 4 - ?n" for k
    by (rule low_octet_zero) (rule power_le_dvd [OF d], use that in simp)
  consider "?n = 0" | "?n = 1" | "?n = 2" | "?n = 3" | "?n = 4" using n(1) by linarith
  moreover have "replicate 4 (0 :: byte) = [0, 0, 0, 0]" "replicate 3 (0 :: byte) = [0, 0, 0]" "replicate 2 (0 :: byte) = [0, 0]"
    by (simp_all add: eval_nat_numeral)
  ultimately show ?thesis
    using z [of 0] z [of 1] z [of 2] z [of 3]
    by cases (simp_all add: pad4_def be_bytes_4)
qed

lemma show_ip4_be_bytes: "show_ip4 (be_bytes 4 (unat a)) = show_addr (V4 a)"
  using unsigned_less [of a, where ?'a = nat] by (simp add: show_ip4_def u32_def be_val_be_bytes)

lemma decode_prefix:
  assumes "canonical_prefix p"
  shows "bgp_prefix_fields (pre @ prefix_bytes p @ rest) base (length pre) fs =
    bgp_prefix_fields (pre @ prefix_bytes p @ rest) base (length (pre @ prefix_bytes p))
      (fs @ [new_field_at ''Prefix'' (prefix_text p) (base + length pre) (length (prefix_bytes p))])"
proof -
  obtain a bits where p: "p = (a, bits)" by force
  have bits: "bits \<le> 32" and n: "(bits + 7) div 8 \<le> 4" using assms by (auto simp: p canonical_prefix_def)
  let ?buf = "pre @ prefix_bytes (a, bits) @ rest"
  have hd: "unat (?buf ! length pre) = bits" using bits by (simp add: prefix_bytes_def nth_append unat_of_nat)
  have val: "show_ip4 (pad4 (take ((bits + 7) div 8) (be_bytes 4 (unat a)))) @ ''/'' @ show_nat bits = prefix_text (a, bits)"
    using assms bits by (simp add: pad4_prefix show_ip4_be_bytes p prefix_text_def show_prefix_def is_valid_def show_int_def)
  have body: "slice ?buf (length pre + 1) (length pre + 1 + (bits + 7) div 8) = take ((bits + 7) div 8) (be_bytes 4 (unat a))"
    using n by (simp add: slice_def prefix_bytes_def)
  have len: "length (prefix_bytes (a, bits)) = 1 + (bits + 7) div 8" using length_prefix_bytes [OF assms] by (simp add: p)
  show ?thesis
    unfolding p using bits len by (subst bgp_prefix_fields.simps) (simp only: hd body Let_def val, simp)
qed

lemma decode_prefixes_from:
  assumes "list_all canonical_prefix ps"
  shows "field_values (bgp_prefix_fields (pre @ concat (map prefix_bytes ps)) base (length pre) fs) = field_values fs @ map prefix_text ps"
  using assms
proof (induction ps arbitrary: pre fs)
  case Nil
  then show ?case by (simp add: bgp_prefix_fields.simps)
next
  case (Cons p ps)
  then show ?case
    using decode_prefix [of p pre "concat (map prefix_bytes ps)" base fs] Cons.IH [of "pre @ prefix_bytes p"]
    by (simp add: field_values_def new_field_at_def)
qed

lemma decode_prefixes:
  "list_all canonical_prefix ps \<Longrightarrow> field_values (bgp_prefix_fields (concat (map prefix_bytes ps)) base 0 []) = map prefix_text ps"
  using decode_prefixes_from [of ps "[]" base "[]"] by (simp add: field_values_def)

lemma field_values_Nil: "field_values [] = []"
  by (simp add: field_values_def)

definition update_body :: "(32 word \<times> nat) list \<Rightarrow> bytes \<Rightarrow> (32 word \<times> nat) list \<Rightarrow> bytes" where
  "update_body withdrawn attrs announced =
    (let w = concat (map prefix_bytes withdrawn) in
     be_bytes 2 (length w) @ w @ be_bytes 2 (length attrs) @ attrs @ concat (map prefix_bytes announced))"

lemma bgp_block_encoded: "length b < 65536 \<Longrightarrow> bgp_block (be_bytes 2 (length b) @ b @ rest) = Some (b, rest)"
  by (simp add: bgp_block_def slice_here unat_u16_be_bytes Let_def) (simp add: slice_def)

text \<open>An UPDATE with any withdrawn and announced IPv4 prefixes, in the encoding of RFC 4271, is summarised by
  exactly these prefixes in the notation of netip: the withdrawn ones when nothing is announced, the announced
  ones otherwise, and End-of-RIB exactly for the empty update.\<close>
theorem update_reports_prefixes:
  assumes "list_all canonical_prefix withdrawn" "list_all canonical_prefix announced"
    and "length (concat (map prefix_bytes withdrawn)) < 65536" "length attrs < 65536"
  shows "b_summary (decode_bgp_update (update_body withdrawn attrs announced) base) =
    (if withdrawn = [] \<and> announced = [] \<and> attrs = [] then ''UPDATE (End-of-RIB)''
     else if withdrawn \<noteq> [] \<and> announced = [] then ''UPDATE withdraw '' @ join_capped (map prefix_text withdrawn)
     else ''UPDATE '' @ join_capped (map prefix_text announced))"
  using assms by (simp add: decode_bgp_update_def update_body_def bgp_block_encoded decode_prefixes prefix_fields_empty field_values_Nil message_def Let_def)

theorem update_reports_prefixes_witness:
  "b_summary (decode_bgp_update (update_body [(0x0a000000, 8)] [] [(0x0a010200, 23), (0, 0)]) 0) = ''UPDATE 10.1.2.0/23, 0.0.0.0/0''"
proof -
  have "length (concat (map prefix_bytes [(0x0a000000, 8)])) = 2" by code_simp
  then have "b_summary (decode_bgp_update (update_body [(0x0a000000, 8)] [] [(0x0a010200, 23), (0, 0)]) 0) =
      ''UPDATE '' @ join_capped (map prefix_text [(0x0a010200, 23), (0, 0)])"
    using update_reports_prefixes [of "[(0x0a000000, 8)]" "[(0x0a010200, 23), (0, 0)]" "[]" 0]
    by (simp add: canonical_prefix_def)
  then show ?thesis by (simp only:) code_simp
qed

section \<open>AS paths\<close>

text \<open>A segment on the wire: its type, the number of AS numbers and the numbers, each of \<open>width\<close> octets.\<close>

definition segment_bytes :: "nat \<Rightarrow> byte \<times> 32 word list \<Rightarrow> bytes" where
  "segment_bytes width g = fst g # word_of_nat (length (snd g)) # concat (map (\<lambda>a. be_bytes width (unat a)) (snd g))"

definition segment_fits :: "nat \<Rightarrow> byte \<times> 32 word list \<Rightarrow> bool" where
  "segment_fits width g \<longleftrightarrow> length (snd g) \<le> 255 \<and> list_all (\<lambda>a. unat a < 256 ^ width) (snd g)"

definition segment_text :: "byte \<times> 32 word list \<Rightarrow> string" where
  "segment_text g = bgp_segment_text (fst g) (map show_word (snd g))"

lemma length_concat_map: "(\<And>x. length (f x) = k) \<Longrightarrow> length (concat (map f xs)) = length xs * k"
  by (induction xs) auto

lemma slice_concat_map:
  "(\<And>x. length (f x) = k) \<Longrightarrow> i < length xs \<Longrightarrow> slice (concat (map f xs) @ rest) (i * k) ((i + 1) * k) = f (xs ! i)"
proof (induction xs arbitrary: i)
  case (Cons x xs)
  show ?case
  proof (cases i)
    case 0
    then show ?thesis using Cons.prems by (simp add: slice_def)
  next
    case (Suc j)
    then show ?thesis using Cons slice_later [of "f x" "(j + 1) * k" "concat (map f xs) @ rest" "(j + 2) * k"] by simp
  qed
qed simp

lemma asn_chunk:
  assumes "width = 2 \<or> width = 4" "unat a < 256 ^ width"
  shows "show_word (if width = 4 then u32 (be_bytes width (unat a)) else ucast (u16 (be_bytes width (unat a)))) = show_word a"
proof -
  have "unat (ucast (u16 (be_bytes 2 (unat a))) :: 32 word) = unat a" if "unat a < 65536"
    using that unat_u16_be_bytes [OF that] by (simp only: unsigned_ucast_eq) (simp add: take_bit_nat_eq_self)
  then show ?thesis using assms by (auto simp: u32_def be_val_be_bytes show_word_def unat_of_nat)
qed

lemma segment_asns:
  assumes "width = 2 \<or> width = 4" "segment_fits width g"
  shows "bgp_segment_asns width (length (snd g)) (segment_bytes width g @ rest) = map show_word (snd g)"
proof (rule nth_equalityI)
  fix i
  assume "i < length (bgp_segment_asns width (length (snd g)) (segment_bytes width g @ rest))"
  then have i: "i < length (snd g)" by (simp add: bgp_segment_asns_def)
  let ?c = "slice (segment_bytes width g @ rest) (2 + i * width) (2 + (i + 1) * width)"
  have "?c = be_bytes width (unat (snd g ! i))"
    using slice_concat_map [of "\<lambda>a. be_bytes width (unat a)" width i "snd g" rest] i
    by (simp add: slice_def segment_bytes_def)
  moreover have "unat (snd g ! i) < 256 ^ width" using assms(2) i by (auto simp: segment_fits_def list_all_length)
  moreover have "bgp_segment_asns width (length (snd g)) (segment_bytes width g @ rest) ! i =
      show_word (if width = 4 then u32 ?c else ucast (u16 ?c))"
    using i by (simp add: bgp_segment_asns_def Let_def)
  ultimately show "bgp_segment_asns width (length (snd g)) (segment_bytes width g @ rest) ! i = map show_word (snd g) ! i"
    using i asn_chunk [OF assms(1)] by (simp only: nth_map)
qed (simp add: bgp_segment_asns_def)

lemma decode_segments:
  assumes "width = 2 \<or> width = 4" "list_all (segment_fits width) gs"
  shows "bgp_as_path_sized width (concat (map (segment_bytes width) gs)) parts = Some (join '' '' (parts @ map segment_text gs))"
  using assms(2)
proof (induction gs arbitrary: parts)
  case Nil
  then show ?case by (simp add: bgp_as_path_sized.simps)
next
  case (Cons g gs)
  let ?rest = "concat (map (segment_bytes width) gs)" and ?n = "length (snd g)"
  let ?v = "segment_bytes width g @ ?rest"
  have n: "unat (word_of_nat ?n :: byte) = ?n" using Cons.prems by (simp add: segment_fits_def unat_of_nat)
  have len: "length (segment_bytes width g) = 2 + ?n * width" by (simp add: segment_bytes_def length_concat_map)
  have hd: "?v ! 0 = fst g" "?v ! 1 = word_of_nat ?n" "?v \<noteq> []" by (simp_all add: segment_bytes_def)
  have rest: "drop (2 + ?n * width) ?v = ?rest" using len by simp
  have "bgp_as_path_sized width ?v parts = bgp_as_path_sized width ?rest (parts @ [segment_text g])"
    using segment_asns [OF assms(1), of g ?rest] Cons.prems len
    by (subst bgp_as_path_sized.simps) (simp only: hd n rest Let_def, simp add: segment_text_def)
  then show ?case using Cons by simp
qed

text \<open>C12: An AS_PATH of 4-octet AS numbers is shown segment by segment with exactly the numbers and the
  order it was sent in, sets in braces; one of 2-octet numbers is, whenever it cannot be read as 4-octet numbers.\<close>
theorem as_path_is_shown:
  assumes "list_all (segment_fits width) gs" "gs \<noteq> []"
    and "width = 4 \<or> width = 2 \<and> bgp_as_path_sized 4 (concat (map (segment_bytes 2) gs)) [] = None"
  shows "bgp_as_path (concat (map (segment_bytes width) gs)) = join '' '' (map segment_text gs)"
proof -
  have "concat (map (segment_bytes width) gs) \<noteq> []" using assms(2) by (cases gs) (auto simp: segment_bytes_def)
  then show ?thesis using assms(1,3) decode_segments [of width gs "[]"] by (auto simp: bgp_as_path_def)
qed

theorem as_path_is_shown_witness:
  "bgp_as_path (concat (map (segment_bytes 4) [(2, [4200000001, 65000]), (1, [65101, 65102])])) = ''4200000001 65000 {65101,65102}'' \<and>
   bgp_as_path (concat (map (segment_bytes 2) [(2, [65000])])) = ''65000''"
proof -
  have "bgp_as_path_sized 4 (concat (map (segment_bytes 2) [(2, [65000])])) [] = None" by code_simp
  then have "bgp_as_path (concat (map (segment_bytes 2) [(2, [65000])])) = join '' '' (map segment_text [(2, [65000])])"
    using as_path_is_shown [of 2 "[(2, [65000])]"] by (simp add: segment_fits_def)
  moreover have "join '' '' (map segment_text [(2, [65000])]) = ''65000''" by code_simp
  moreover have "list_all (segment_fits 4) [(2, [4200000001, 65000]), (1, [65101, 65102])]" by code_simp
  moreover have "join '' '' (map segment_text [(2, [4200000001, 65000]), (1, [65101, 65102])]) = ''4200000001 65000 {65101,65102}''" by code_simp
  ultimately show ?thesis
    using as_path_is_shown [of 4 "[(2, [4200000001, 65000]), (1, [65101, 65102])]"] by simp
qed

text \<open>The lengths do not always tell the two encodings apart: a sequence of two 2-octet numbers followed by
  a sequence of one reads as a 4-octet path of other numbers.\<close>

lemma two_octet_path_misread:
  "\<exists>gs. list_all (segment_fits 2) gs \<and> bgp_as_path (concat (map (segment_bytes 2) gs)) \<noteq> join '' '' (map segment_text gs)"
proof -
  let ?gs = "[(2, [1, 2]), (2, [0])] :: (byte \<times> 32 word list) list"
  have "list_all (segment_fits 2) ?gs" "bgp_as_path (concat (map (segment_bytes 2) ?gs)) \<noteq> join '' '' (map segment_text ?gs)"
    by code_simp+
  then show ?thesis by blast
qed

end
