(* ===== verification/Store.thy ===== *)
theory Store
  imports Topology Programs Maps
begin

text \<open>
  controller/internal/data: the tables of labs, nodes, links, allocations, plans, generations and
  programs, and the statements on them that the plan and power usecases issue (lab.go, topology.go,
  plan.go and the helpers of data.go). A table is the list of its rows; the keys and UNIQUE constraints of
  the schema decide which inserts fail. JSON documents are the values they encode. Whether the database
  itself answers is the queue \<open>t_io\<close> of the outcomes of the coming calls: an entry \<open>Some m\<close> makes the call
  fail with \<open>m\<close> before it changes anything, and an empty queue stands for a database without faults.
  A call that only reads takes an entry as well.
\<close>

datatype store_error = RowMissing | ConstraintFailed | DatabaseFailed string

section \<open>Rows\<close>

record 'a row =
  row_id :: string
  row_scope :: string
  row_name :: string
  row_doc :: 'a

text \<open>\<open>INSERT\<close> under a primary key on the id and UNIQUE on scope and name.\<close>

definition insert_row :: "'a row \<Rightarrow> 'a row list \<Rightarrow> store_error + 'a row list" where
  "insert_row r t = (if list_ex (\<lambda>x. row_id x = row_id r \<or> (row_scope x = row_scope r \<and> row_name x = row_name r)) t
     then Inl ConstraintFailed else Inr (t @ [r]))"

text \<open>\<open>UPDATE ... SET doc = ? WHERE id = ?\<close> and \<open>checkFound\<close>; \<open>getDoc\<close>; \<open>listDocs\<close>.\<close>

definition update_doc :: "string \<Rightarrow> 'a \<Rightarrow> 'a row list \<Rightarrow> store_error + 'a row list" where
  "update_doc i d t = (if list_ex (\<lambda>x. row_id x = i) t
     then Inr (map (\<lambda>x. if row_id x = i then x\<lparr>row_doc := d\<rparr> else x) t) else Inl RowMissing)"

definition get_doc :: "string \<Rightarrow> 'a row list \<Rightarrow> store_error + 'a" where
  "get_doc i t = (case find (\<lambda>x. row_id x = i) t of None \<Rightarrow> Inl RowMissing | Some r \<Rightarrow> Inr (row_doc r))"

definition list_docs :: "string \<Rightarrow> 'a row list \<Rightarrow> 'a list" where
  "list_docs scope t = map row_doc (sort_key row_name (filter (\<lambda>x. row_scope x = scope) t))"

text \<open>What every table of documents promises.\<close>

locale doc_table =
  fixes get :: "string \<Rightarrow> 't \<Rightarrow> store_error + 'd" and put :: "string \<Rightarrow> 'd \<Rightarrow> 't \<Rightarrow> store_error + 't"
  assumes get_put: "put i d t = Inr t' \<Longrightarrow> get i t' = Inr d"
    and get_put_other: "put i d t = Inr t' \<Longrightarrow> j \<noteq> i \<Longrightarrow> get j t' = get j t"
    and put_stored: "get i t = Inr e \<Longrightarrow> \<exists>t'. put i d t = Inr t'"
    and put_missing: "get i t = Inl x \<Longrightarrow> put i d t = Inl RowMissing"
begin

lemma get_put_eq: "put i d t = Inr t' \<Longrightarrow> get j t' = (if j = i then Inr d else get j t)"
  by (simp add: get_put get_put_other)

lemma puts_commute:
  "put i d t = Inr t1 \<Longrightarrow> put j e t1 = Inr t2 \<Longrightarrow> put j e t = Inr s1 \<Longrightarrow> put i d s1 = Inr s2 \<Longrightarrow> i \<noteq> j \<Longrightarrow> get k t2 = get k s2"
  by (simp add: get_put_eq)

lemma put_ok_iff: "(\<exists>t'. put i d t = Inr t') \<longleftrightarrow> (\<exists>e. get i t = Inr e)"
proof (cases "get i t")
  case (Inl x)
  then show ?thesis using put_missing by auto
next
  case (Inr e)
  then show ?thesis using put_stored by auto
qed

end

lemma find_update:
  "find (\<lambda>x. row_id x = j) (map (\<lambda>x. if row_id x = i then x\<lparr>row_doc := d\<rparr> else x) t) =
    map_option (\<lambda>x. if j = i then x\<lparr>row_doc := d\<rparr> else x) (find (\<lambda>x. row_id x = j) t)"
  by (induction t) auto

lemma find_stored: "list_ex (\<lambda>x. row_id x = i) t \<longleftrightarrow> (\<exists>r. find (\<lambda>x. row_id x = i) t = Some r)"
  by (induction t) auto

interpretation rows: doc_table get_doc update_doc
  by unfold_locales (auto simp: get_doc_def update_doc_def find_update find_stored split: if_splits option.splits)

section \<open>Tables\<close>

record snapshot =
  sn_lab :: lab
  sn_nodes :: "node list"
  sn_links :: "link list"

record generation_row =
  g_lab :: string
  g_number :: int
  g_created :: nat
  g_snap :: snapshot

record generation_info =
  gi_number :: int
  gi_created :: nat
  gi_node_count :: nat
  gi_link_count :: nat

record store =
  t_labs :: "lab row list"
  t_nodes :: "node row list"
  t_links :: "link row list"
  t_allocs :: "(string \<times> allocation) list"
  t_plans :: "plan row list"
  t_gens :: "generation_row list"
  t_programs :: "program row list"
  t_io :: "string option list"

type_synonym ('e, 'a) db = "store \<Rightarrow> ('e + 'a) \<times> store"

definition db_call :: "(store \<Rightarrow> store_error + ('a \<times> store)) \<Rightarrow> (store_error, 'a) db" where
  "db_call f s = (case t_io s of
     Some m # io \<Rightarrow> (Inl (DatabaseFailed m), s\<lparr>t_io := io\<rparr>)
   | io \<Rightarrow> (let s' = s\<lparr>t_io := tl io\<rparr> in case f s' of Inl e \<Rightarrow> (Inl e, s') | Inr (x, s'') \<Rightarrow> (Inr x, s'')))"

definition sbind :: "('e, 'a) db \<Rightarrow> ('a \<Rightarrow> ('e, 'b) db) \<Rightarrow> ('e, 'b) db" where
  "sbind m f s = (case m s of (Inl e, s') \<Rightarrow> (Inl e, s') | (Inr x, s') \<Rightarrow> f x s')"

definition slift :: "'e + 'a \<Rightarrow> ('e, 'a) db" where
  "slift r s = (r, s)"

definition serr :: "('e \<Rightarrow> 'f) \<Rightarrow> ('e, 'a) db \<Rightarrow> ('f, 'a) db" where
  "serr f m s = (case m s of (r, s') \<Rightarrow> (emap_err f r, s'))"

section \<open>Labs\<close>

definition get_lab :: "string \<Rightarrow> (store_error, lab) db" where
  "get_lab i = db_call (\<lambda>s. case get_doc i (t_labs s) of Inl e \<Rightarrow> Inl e | Inr d \<Rightarrow> Inr (d, s))"

text \<open>The writes that stamp the object they are given.\<close>

definition touch_lab :: "nat \<Rightarrow> lab \<Rightarrow> lab" where
  "touch_lab now lb = lb\<lparr>lab_meta := (lab_meta lb)\<lparr>updated_at := now\<rparr>\<rparr>"

definition touch_node :: "nat \<Rightarrow> node \<Rightarrow> node" where
  "touch_node now n = n\<lparr>n_meta := (n_meta n)\<lparr>updated_at := now\<rparr>\<rparr>"

definition update_lab :: "nat \<Rightarrow> lab \<Rightarrow> (store_error, unit) db" where
  "update_lab now lb = db_call (\<lambda>s. let i = meta_id (lab_meta lb); nm = meta_name (lab_meta lb) in
     if \<not> list_ex (\<lambda>r. row_id r = i) (t_labs s) then Inl RowMissing
     else if list_ex (\<lambda>r. row_id r \<noteq> i \<and> row_name r = nm) (t_labs s) then Inl ConstraintFailed
     else Inr ((), s\<lparr>t_labs := map (\<lambda>r. if row_id r = i then r\<lparr>row_name := nm, row_doc := touch_lab now lb\<rparr> else r) (t_labs s)\<rparr>))"

section \<open>Topology\<close>

definition node_row :: "string \<Rightarrow> node \<Rightarrow> node row" where
  "node_row lid n = \<lparr>row_id = node_id n, row_scope = lid, row_name = node_name n, row_doc = n\<rparr>"

definition link_row :: "string \<Rightarrow> link \<Rightarrow> link row" where
  "link_row lid l = \<lparr>row_id = meta_id (l_meta l), row_scope = lid, row_name = link_name l, row_doc = l\<rparr>"

definition insert_alloc :: "string \<Rightarrow> (string \<times> allocation) list \<Rightarrow> allocation \<Rightarrow> store_error + (string \<times> allocation) list" where
  "insert_alloc lid t a = (if list_ex (\<lambda>(l, x). l = lid \<and> al_pool x = al_pool a \<and> al_value x = al_value a) t
     then Inl ConstraintFailed else Inr (t @ [(lid, a)]))"

text \<open>One transaction: an insert that fails rolls everything back.\<close>

definition replace_topology :: "string \<Rightarrow> node list \<Rightarrow> link list \<Rightarrow> allocation list \<Rightarrow> (store_error, unit) db" where
  "replace_topology lid ns ls as = db_call (\<lambda>s.
     ebind (efold (\<lambda>t n. insert_row (node_row lid n) t) (filter (\<lambda>r. row_scope r \<noteq> lid) (t_nodes s)) ns) (\<lambda>tn.
     ebind (efold (\<lambda>t l. insert_row (link_row lid l) t) (filter (\<lambda>r. row_scope r \<noteq> lid) (t_links s)) ls) (\<lambda>tl.
     ebind (efold (insert_alloc lid) (filter (\<lambda>(l, _). l \<noteq> lid) (t_allocs s)) as) (\<lambda>ta.
       Inr ((), s\<lparr>t_nodes := tn, t_links := tl, t_allocs := ta\<rparr>)))))"

definition list_nodes :: "string \<Rightarrow> (store_error, node list) db" where
  "list_nodes lid = db_call (\<lambda>s. Inr (list_docs lid (t_nodes s), s))"

definition list_links :: "string \<Rightarrow> (store_error, link list) db" where
  "list_links lid = db_call (\<lambda>s. Inr (list_docs lid (t_links s), s))"

definition list_programs :: "string \<Rightarrow> (store_error, program list) db" where
  "list_programs lid = db_call (\<lambda>s. Inr (list_docs lid (t_programs s), s))"

definition update_node :: "nat \<Rightarrow> node \<Rightarrow> (store_error, unit) db" where
  "update_node now n = db_call (\<lambda>s. ebind (update_doc (node_id n) (touch_node now n) (t_nodes s))
     (\<lambda>t. Inr ((), s\<lparr>t_nodes := t\<rparr>)))"

section \<open>Plans\<close>

definition plan_row :: "plan \<Rightarrow> plan row" where
  "plan_row p = \<lparr>row_id = plan_id p, row_scope = plan_lab p, row_name = plan_id p, row_doc = p\<rparr>"

definition insert_plan :: "plan \<Rightarrow> (store_error, unit) db" where
  "insert_plan p = db_call (\<lambda>s. ebind (insert_row (plan_row p) (t_plans s)) (\<lambda>t. Inr ((), s\<lparr>t_plans := t\<rparr>)))"

definition update_plan :: "plan \<Rightarrow> (store_error, unit) db" where
  "update_plan p = db_call (\<lambda>s. ebind (update_doc (plan_id p) p (t_plans s)) (\<lambda>t. Inr ((), s\<lparr>t_plans := t\<rparr>)))"

definition get_plan :: "string \<Rightarrow> (store_error, plan) db" where
  "get_plan i = db_call (\<lambda>s. case get_doc i (t_plans s) of Inl e \<Rightarrow> Inl e | Inr d \<Rightarrow> Inr (d, s))"

section \<open>Generations\<close>

definition put_generation :: "generation_row \<Rightarrow> generation_row list \<Rightarrow> generation_row list" where
  "put_generation r t = filter (\<lambda>x. \<not> (g_lab x = g_lab r \<and> g_number x = g_number r)) t @ [r]"

definition numbers_of :: "string \<Rightarrow> generation_row list \<Rightarrow> int list" where
  "numbers_of lid t = rev (sort (map g_number (filter (\<lambda>r. g_lab r = lid) t)))"

definition prune_generations :: "string \<Rightarrow> generation_row list \<Rightarrow> generation_row list" where
  "prune_generations lid t = (let ns = numbers_of lid t in
     if length ns \<le> 10 then t else filter (\<lambda>r. \<not> (g_lab r = lid \<and> g_number r \<le> ns ! 10)) t)"

definition save_generation :: "nat \<Rightarrow> string \<Rightarrow> int \<Rightarrow> snapshot \<Rightarrow> (store_error, unit) db" where
  "save_generation now lid g sn =
    sbind (db_call (\<lambda>s. Inr ((), s\<lparr>t_gens := put_generation \<lparr>g_lab = lid, g_number = g, g_created = now, g_snap = sn\<rparr> (t_gens s)\<rparr>))) (\<lambda>_.
      db_call (\<lambda>s. Inr ((), s\<lparr>t_gens := prune_generations lid (t_gens s)\<rparr>)))"

definition find_generation :: "string \<Rightarrow> int \<Rightarrow> generation_row list \<Rightarrow> store_error + snapshot" where
  "find_generation lid g t = (case find (\<lambda>r. g_lab r = lid \<and> g_number r = g) t of None \<Rightarrow> Inl RowMissing | Some r \<Rightarrow> Inr (g_snap r))"

definition get_generation :: "string \<Rightarrow> int \<Rightarrow> (store_error, snapshot) db" where
  "get_generation lid g = db_call (\<lambda>s. case find_generation lid g (t_gens s) of Inl e \<Rightarrow> Inl e | Inr d \<Rightarrow> Inr (d, s))"

definition list_generations :: "string \<Rightarrow> (store_error, generation_info list) db" where
  "list_generations lid = db_call (\<lambda>s. Inr
     (map (\<lambda>r. \<lparr>gi_number = g_number r, gi_created = g_created r, gi_node_count = length (sn_nodes (g_snap r)), gi_link_count = length (sn_links (g_snap r))\<rparr>)
        (rev (sort_key g_number (filter (\<lambda>r. g_lab r = lid) (t_gens s)))), s))"

section \<open>Calls\<close>

lemma sbind_Inl: "m s = (Inl e, s') \<Longrightarrow> sbind m f s = (Inl e, s')"
  by (simp add: sbind_def)

lemma sbind_Inr: "m s = (Inr x, s') \<Longrightarrow> sbind m f s = f x s'"
  by (simp add: sbind_def)

lemma serr_ok: "serr f m s = (Inr x, s') \<longleftrightarrow> m s = (Inr x, s')"
  by (cases "m s") (auto simp: serr_def)

lemma sbind_ok: "sbind m f s = (Inr y, s') \<longleftrightarrow> (\<exists>x s1. m s = (Inr x, s1) \<and> f x s1 = (Inr y, s'))"
  by (auto simp: sbind_def split: prod.splits sum.splits)

lemma slift_ok: "slift r s = (Inr x, s') \<longleftrightarrow> r = Inr x \<and> s' = s"
  by (auto simp: slift_def)

text \<open>A call that succeeds has taken its entry of the queue and run its statement.\<close>

lemma db_call_Inr:
  "db_call f s = (Inr x, s') \<longleftrightarrow> (t_io s = [] \<or> hd (t_io s) = None) \<and> f (s\<lparr>t_io := tl (t_io s)\<rparr>) = Inr (x, s')"
  by (auto simp: db_call_def Let_def split: list.splits option.splits sum.splits prod.splits)

text \<open>A call that fails changes no table.\<close>

lemma db_call_Inl: "db_call f s = (Inl e, s') \<Longrightarrow> s' = s\<lparr>t_io := tl (t_io s)\<rparr>"
  by (auto simp: db_call_def Let_def split: list.splits option.splits sum.splits prod.splits)

end
