(* ===== verification/StoreProps.thy ===== *)
theory StoreProps
  imports Store
begin

text \<open>
  What the statements of the data layer guarantee: the keys of a table stay unique, replacing a topology
  is all or nothing, and saving a generation keeps exactly the ten newest of its lab.
\<close>

section \<open>Keys\<close>

definition table_ok :: "'a row list \<Rightarrow> bool" where
  "table_ok t \<longleftrightarrow> distinct (map row_id t) \<and> distinct (map (\<lambda>r. (row_scope r, row_name r)) t)"

lemma insert_row_ok: "insert_row r t = Inr t' \<Longrightarrow> table_ok t \<Longrightarrow> t' = t @ [r] \<and> table_ok t'"
  by (force simp: insert_row_def table_ok_def list_ex_iff split: if_splits)

lemma filter_row_ok: "table_ok t \<Longrightarrow> table_ok (filter P t)"
  by (auto simp: table_ok_def distinct_map_filter)

lemma update_doc_keys: "update_doc i d t = Inr t' \<Longrightarrow> map row_id t' = map row_id t \<and> map row_scope t' = map row_scope t \<and> map row_name t' = map row_name t"
  by (auto simp: update_doc_def split: if_splits)

lemma insert_rows_ok:
  assumes "efold (\<lambda>t x. insert_row (f x) t) t xs = Inr t'" "table_ok t"
  shows "t' = t @ map f xs \<and> table_ok t'"
  using assms
proof (induction xs arbitrary: t)
  case (Cons x xs)
  then obtain u where u: "insert_row (f x) t = Inr u" "efold (\<lambda>t x. insert_row (f x) t) u xs = Inr t'" by auto
  have "u = t @ [f x]" "table_ok u" using insert_row_ok [OF u(1) Cons.prems(2)] by auto
  moreover have "t' = u @ map f xs \<and> table_ok t'" using Cons.IH [OF u(2)] \<open>table_ok u\<close> .
  ultimately show ?case by auto
qed simp

lemma insert_rows_shape:
  assumes "efold (\<lambda>t x. insert_row (f x) t) t xs = Inr t'"
  shows "t' = t @ map f xs"
  using assms
proof (induction xs arbitrary: t)
  case (Cons x xs)
  then obtain u where u: "insert_row (f x) t = Inr u" "efold (\<lambda>t x. insert_row (f x) t) u xs = Inr t'" by auto
  have "u = t @ [f x]" using u(1) by (simp add: insert_row_def split: if_splits)
  then show ?case using Cons.IH [OF u(2)] by simp
qed simp

section \<open>Listing\<close>

lemma insort_key_map: "insort_key g (f x) (map f ys) = map f (insort_key (\<lambda>y. g (f y)) x ys)"
  by (induction ys) auto

lemma sort_key_map: "sort_key g (map f xs) = map f (sort_key (\<lambda>x. g (f x)) xs)"
  by (induction xs) (simp_all add: insort_key_map)

lemma list_docs_others: "list_docs l (filter (\<lambda>r. row_scope r \<noteq> l) t @ rows) = list_docs l rows"
  by (simp add: list_docs_def comp_def)

lemma list_docs_rows:
  assumes "\<And>x. row_scope (f x) = l" "\<And>x. row_doc (f x) = x" "\<And>x. row_name (f x) = name x"
  shows "list_docs l (map f xs) = sort_key name xs"
  by (simp add: list_docs_def comp_def filter_map assms sort_key_map)

lemma list_docs_update:
  assumes "\<And>r. row_scope (u r) = row_scope r" "\<And>r. row_name (u r) = row_name r" "\<And>r. r \<in> set t \<Longrightarrow> row_scope r = l \<Longrightarrow> row_doc (u r) = h (row_doc r)"
  shows "list_docs l (map u t) = map h (list_docs l t)"
proof -
  have "list_docs l (map u t) = map row_doc (map u (sort_key row_name (filter (\<lambda>r. row_scope r = l) t)))"
    by (simp add: list_docs_def filter_map comp_def assms(1,2) sort_key_map)
  also have "\<dots> = map h (list_docs l t)"
    using assms(3) by (simp add: list_docs_def)
  finally show ?thesis .
qed

section \<open>Replacing a topology\<close>

lemma replace_topology_done:
  assumes "replace_topology lid ns ls as s = (Inr u, s')"
  shows "list_docs lid (t_nodes s') = sort_key node_name ns" "list_docs lid (t_links s') = sort_key link_name ls"
    "t_labs s' = t_labs s" "t_plans s' = t_plans s" "t_gens s' = t_gens s" "t_programs s' = t_programs s" "t_io s' = tl (t_io s)"
    "table_ok (t_nodes s) \<Longrightarrow> table_ok (t_nodes s')"
proof -
  obtain tn tl' ta where tn: "efold (\<lambda>t n. insert_row (node_row lid n) t) (filter (\<lambda>r. row_scope r \<noteq> lid) (t_nodes s)) ns = Inr tn"
    and tl: "efold (\<lambda>t l. insert_row (link_row lid l) t) (filter (\<lambda>r. row_scope r \<noteq> lid) (t_links s)) ls = Inr tl'"
    and s': "s' = s\<lparr>t_io := tl (t_io s), t_nodes := tn, t_links := tl', t_allocs := ta\<rparr>"
    using assms unfolding replace_topology_def db_call_Inr by auto
  show "t_labs s' = t_labs s" "t_plans s' = t_plans s" "t_gens s' = t_gens s" "t_programs s' = t_programs s" "t_io s' = tl (t_io s)"
    by (simp_all add: s')
  show "list_docs lid (t_nodes s') = sort_key node_name ns"
    using insert_rows_shape [OF tn] by (simp add: s' list_docs_others list_docs_rows node_row_def)
  show "list_docs lid (t_links s') = sort_key link_name ls"
    using insert_rows_shape [OF tl] by (simp add: s' list_docs_others list_docs_rows link_row_def)
  have "table_ok tn" if "table_ok (t_nodes s)"
    using insert_rows_ok [OF tn] filter_row_ok [OF that] by blast
  then show "table_ok (t_nodes s) \<Longrightarrow> table_ok (t_nodes s')" by (simp add: s')
qed

section \<open>Generations\<close>

definition keys_ok :: "generation_row list \<Rightarrow> bool" where
  "keys_ok t \<longleftrightarrow> distinct (map (\<lambda>r. (g_lab r, g_number r)) t)"

lemma put_generation_ok: "keys_ok t \<Longrightarrow> keys_ok (put_generation r t)"
  by (auto simp: keys_ok_def put_generation_def distinct_map_filter)

lemma prune_generations_ok: "keys_ok t \<Longrightarrow> keys_ok (prune_generations lid t)"
  by (auto simp: keys_ok_def prune_generations_def Let_def distinct_map_filter)

lemma numbers_distinct: "keys_ok t \<Longrightarrow> distinct (numbers_of lid t)"
  unfolding keys_ok_def numbers_of_def by (induction t) (auto simp: rev_image_eqI)

lemma numbers_desc: "sorted (rev (numbers_of lid t))"
  by (simp add: numbers_of_def)

lemma set_numbers: "set (numbers_of lid t) = g_number ` {r \<in> set t. g_lab r = lid}"
  by (simp add: numbers_of_def)

lemma desc_take_filter:
  "sorted (rev xs) \<Longrightarrow> distinct xs \<Longrightarrow> k < length xs \<Longrightarrow> filter (\<lambda>x. xs ! k < (x :: 'a :: linorder)) xs = take k xs"
proof (induction xs arbitrary: k)
  case (Cons x xs)
  have le: "y \<le> x" if "y \<in> set xs" for y using Cons.prems(1) that by (auto simp: sorted_append)
  show ?case
  proof (cases k)
    case 0
    have "filter (\<lambda>y. x < y) xs = []" using le by (auto simp: filter_empty_conv not_less)
    then show ?thesis using 0 by simp
  next
    case (Suc j)
    then have "xs ! j \<in> set xs" using Cons.prems(3) by simp
    then have "xs ! j < x" using le Cons.prems(2) by (auto simp: order.strict_iff_order)
    then show ?thesis using Cons Suc by (auto simp: sorted_append)
  qed
qed simp

lemma numbers_pruned: "keys_ok t \<Longrightarrow> numbers_of lid (prune_generations lid t) = take 10 (numbers_of lid t)"
proof -
  assume ok: "keys_ok t"
  let ?ns = "numbers_of lid t"
  show ?thesis
  proof (cases "length ?ns \<le> 10")
    case True
    then show ?thesis by (simp add: prune_generations_def Let_def)
  next
    case False
    let ?k = "?ns ! 10"
    have "filter (\<lambda>r. g_lab r = lid) (prune_generations lid t) = filter (\<lambda>r. ?k < g_number r) (filter (\<lambda>r. g_lab r = lid) t)"
      using False by (auto simp: prune_generations_def Let_def intro: filter_cong)
    then have "numbers_of lid (prune_generations lid t) = rev (sort (filter (\<lambda>n. ?k < n) (map g_number (filter (\<lambda>r. g_lab r = lid) t))))"
      by (simp add: numbers_of_def filter_map comp_def)
    also have "\<dots> = filter (\<lambda>n. ?k < n) ?ns"
      by (simp only: filter_sort [symmetric] rev_filter numbers_of_def)
    finally have "numbers_of lid (prune_generations lid t) = filter (\<lambda>n. ?k < n) ?ns" .
    then show ?thesis
      using desc_take_filter [OF numbers_desc numbers_distinct [OF ok], of 10] False by simp
  qed
qed

lemma find_filter: "(\<And>r. r \<in> set t \<Longrightarrow> Q r \<Longrightarrow> P r) \<Longrightarrow> find Q (filter P t) = find Q t"
  by (induction t) auto

lemma find_kept:
  assumes "g \<in> set (numbers_of lid (prune_generations lid t))"
  shows "find_generation lid g (prune_generations lid t) = find_generation lid g t"
proof (cases "length (numbers_of lid t) \<le> 10")
  case False
  let ?P = "\<lambda>r. \<not> (g_lab r = lid \<and> g_number r \<le> numbers_of lid t ! 10)"
  have p: "prune_generations lid t = filter ?P t" using False by (simp add: prune_generations_def Let_def)
  have "\<not> g \<le> numbers_of lid t ! 10" using assms by (auto simp: p set_numbers)
  then have "find (\<lambda>r. g_lab r = lid \<and> g_number r = g) (filter ?P t) = find (\<lambda>r. g_lab r = lid \<and> g_number r = g) t"
    by (intro find_filter) auto
  then show ?thesis by (simp only: find_generation_def p)
qed (simp add: prune_generations_def Let_def)

lemma find_snoc: "find P (xs @ [x]) = (case find P xs of None \<Rightarrow> if P x then Some x else None | Some y \<Rightarrow> Some y)"
  by (induction xs) auto

lemma find_put: "find_generation lid g (put_generation r t) =
    (if g_lab r = lid \<and> g_number r = g then Inr (g_snap r) else find_generation lid g t)"
proof -
  have "find (\<lambda>x. g_lab x = lid \<and> g_number x = g) (filter (\<lambda>x. \<not> (g_lab x = g_lab r \<and> g_number x = g_number r)) t) =
      (if g_lab r = lid \<and> g_number r = g then None else find (\<lambda>x. g_lab x = lid \<and> g_number x = g) t)"
    by (induction t) auto
  then show ?thesis by (simp add: find_generation_def put_generation_def find_snoc split: option.splits)
qed

lemma find_missing: "find_generation lid g t = Inl RowMissing \<longleftrightarrow> g \<notin> set (numbers_of lid t)"
  using find_Some_iff [of "\<lambda>r. g_lab r = lid \<and> g_number r = g" t]
  by (auto simp: find_generation_def set_numbers find_None_iff split: option.splits)

lemma find_prune_other: "l \<noteq> lid \<Longrightarrow> find_generation l g (prune_generations lid t) = find_generation l g t"
proof -
  assume "l \<noteq> lid"
  then have "find (\<lambda>r. g_lab r = l \<and> g_number r = g) (filter P t) = find (\<lambda>r. g_lab r = l \<and> g_number r = g) t"
    if "\<And>r. g_lab r = l \<Longrightarrow> P r" for P
    using that by (intro find_filter) auto
  then show ?thesis using \<open>l \<noteq> lid\<close> by (simp only: find_generation_def prune_generations_def Let_def split: if_split) simp
qed

definition kept_numbers :: "string \<Rightarrow> int \<Rightarrow> generation_row list \<Rightarrow> int list" where
  "kept_numbers lid g t = take 10 (rev (sorted_list_of_set (insert g (set (numbers_of lid t)))))"

lemma numbers_put: "keys_ok t \<Longrightarrow> numbers_of (g_lab r) (put_generation r t) = rev (sorted_list_of_set (insert (g_number r) (set (numbers_of (g_lab r) t))))"
proof -
  assume "keys_ok t"
  then have "distinct (numbers_of (g_lab r) (put_generation r t))" by (rule numbers_distinct [OF put_generation_ok])
  moreover have "set (numbers_of (g_lab r) (put_generation r t)) = insert (g_number r) (set (numbers_of (g_lab r) t))"
    by (auto simp: set_numbers put_generation_def)
  ultimately show ?thesis
    using numbers_desc sorted_list_of_set.idem_if_sorted_distinct [of "rev (numbers_of (g_lab r) (put_generation r t))"] by (metis distinct_rev rev_rev_ident set_rev)
qed

lemma save_generation_done:
  assumes "save_generation now lid g sn s = (Inr u, s')"
  shows "t_gens s' = prune_generations lid (put_generation \<lparr>g_lab = lid, g_number = g, g_created = now, g_snap = sn\<rparr> (t_gens s))"
    "t_labs s' = t_labs s" "t_nodes s' = t_nodes s" "t_links s' = t_links s" "t_allocs s' = t_allocs s" "t_plans s' = t_plans s"
    "t_programs s' = t_programs s" "t_io s' = tl (tl (t_io s))"
  using assms unfolding save_generation_def sbind_ok db_call_Inr by auto

lemma saved_numbers:
  assumes "keys_ok (t_gens s)" "save_generation now lid g sn s = (Inr u, s')"
  shows "numbers_of lid (t_gens s') = kept_numbers lid g (t_gens s)"
  using numbers_pruned [OF put_generation_ok [OF assms(1)]] numbers_put [OF assms(1), of "\<lparr>g_lab = lid, g_number = g, g_created = now, g_snap = sn\<rparr>"]
  by (simp add: save_generation_done(1) [OF assms(2)] kept_numbers_def)

lemma saved_generations:
  assumes "keys_ok (t_gens s)" "save_generation now lid g sn s = (Inr u, s')"
  shows "find_generation l i (t_gens s') =
    (if l \<noteq> lid then find_generation l i (t_gens s)
     else if i \<notin> set (kept_numbers lid g (t_gens s)) then Inl RowMissing
     else if i = g then Inr sn else find_generation lid i (t_gens s))"
proof (cases "l = lid \<and> i \<in> set (kept_numbers lid g (t_gens s))")
  case True
  then show ?thesis
    using find_kept [of i lid "put_generation \<lparr>g_lab = lid, g_number = g, g_created = now, g_snap = sn\<rparr> (t_gens s)"]
      saved_numbers [OF assms] save_generation_done(1) [OF assms(2)] by (auto simp: find_put)
next
  case False
  then show ?thesis
    using saved_numbers [OF assms] save_generation_done(1) [OF assms(2)] by (auto simp: find_missing find_prune_other find_put)
qed

text \<open>Saving a generation that succeeds leaves exactly the ten newest generations of the lab, the saved one
  among the candidates; each that is kept is read back as it was saved, the others of the lab are gone, and
  the generations of other labs are untouched.\<close>
theorem newest_generations_kept:
  assumes "keys_ok (t_gens s)" "save_generation now lid g sn s = (Inr u, s')"
  shows "numbers_of lid (t_gens s') = kept_numbers lid g (t_gens s) \<and>
    find_generation l i (t_gens s') =
      (if l \<noteq> lid then find_generation l i (t_gens s)
       else if i \<notin> set (kept_numbers lid g (t_gens s)) then Inl RowMissing
       else if i = g then Inr sn else find_generation lid i (t_gens s))"
  using saved_numbers [OF assms] saved_generations [OF assms] by simp

definition demo_snapshot :: "string \<Rightarrow> snapshot" where
  "demo_snapshot nm = \<lparr>sn_lab = \<lparr>lab_meta = fresh_meta ''lab-1'' nm, lab_spec = \<lparr>lab_profile = ProfileMicro,
     lab_topology = \<lparr>external_routers = 1, dc_edges = 1, super_spines = 1, pods = [], internet_access = False\<rparr>, lab_pools = [], lab_asns = []\<rparr>\<rparr>,
     sn_nodes = [], sn_links = []\<rparr>"

definition eleven_saved :: store where
  "eleven_saved = \<lparr>t_labs = [], t_nodes = [], t_links = [], t_allocs = [], t_plans = [],
     t_gens = map (\<lambda>i. \<lparr>g_lab = ''lab-1'', g_number = int i, g_created = i, g_snap = demo_snapshot ''old''\<rparr>) [2..<12], t_programs = [], t_io = []\<rparr>"

theorem newest_generations_kept_witness:
  "\<exists>s'. save_generation 99 ''lab-1'' 12 (demo_snapshot ''new'') eleven_saved = (Inr (), s') \<and>
     numbers_of ''lab-1'' (t_gens s') = [12, 11, 10, 9, 8, 7, 6, 5, 4, 3] \<and>
     find_generation ''lab-1'' 2 (t_gens s') = Inl RowMissing"
proof -
  obtain s' where s: "save_generation 99 ''lab-1'' 12 (demo_snapshot ''new'') eleven_saved = (Inr (), s')"
    by (simp add: save_generation_def sbind_def db_call_def eleven_saved_def)
  have n: "numbers_of ''lab-1'' (t_gens eleven_saved) = [11, 10, 9, 8, 7, 6, 5, 4, 3, 2]" by code_simp
  have k: "kept_numbers ''lab-1'' 12 (t_gens eleven_saved) = [12, 11, 10, 9, 8, 7, 6, 5, 4, 3]"
    unfolding kept_numbers_def n by (simp add: insert_commute)
  have "keys_ok (t_gens eleven_saved)" by (auto simp: keys_ok_def eleven_saved_def distinct_map intro!: inj_onI)
  from newest_generations_kept [OF this s, of "''lab-1''" 2] s k show ?thesis by auto
qed

end
