(* ===== verification/PlanUsecase.thy ===== *)
theory PlanUsecase
  imports Store LabUsecase Increment Compiler Validate
begin

text \<open>
  controller/internal/biz/plan.go: the declarative change flow. A request runs against the store of
  Store.thy and returns its error or its result; what runs asynchronously works on a \<open>world\<close>, the store,
  the files of the data directory, the compiled artifact and the calls the driver and the other usecases
  have received. What these return, and what the validators read from the nodes, are the fields of \<open>env\<close>.
  The objects a request has read (the lab, the nodes, the links) are captured in its job, as the closures
  of the steps capture the pointers; nothing else holds them.
\<close>

section \<open>Creating plans\<close>

datatype plan_error = Repo string store_error | GenerationUnloadable int store_error | BuilderFailed topo_error | BuildFailed topo_error
  | NotDeployed string | AlreadyDeployed int | NotPending string plan_state | StaleBase string int int

abbreviation repo :: "string \<Rightarrow> (store_error, 'a) db \<Rightarrow> (plan_error, 'a) db" where
  "repo what m \<equiv> serr (Repo what) m"

definition load_generation :: "string \<Rightarrow> int \<Rightarrow> (plan_error, snapshot) db" where
  "load_generation lid g = serr (GenerationUnloadable g) (get_generation lid g)"

definition base_of :: "snapshot \<Rightarrow> base" where
  "base_of sn = \<lparr>base_nodes = sn_nodes sn, base_link_list = sn_links sn\<rparr>"

definition load_base :: "string \<Rightarrow> lab \<Rightarrow> (plan_error, base option) db" where
  "load_base lid lb = (if 0 < generation (lab_meta lb)
     then sbind (load_generation lid (generation (lab_meta lb))) (\<lambda>sn. slift (Inr (Some (base_of sn))))
     else slift (Inr None))"

definition artifact_ops :: "string \<Rightarrow> lab \<Rightarrow> plan_op list" where
  "artifact_ops driver lb =
    [\<lparr>po_type = PlanRenderConfig, po_target = meta_name (lab_meta lb), po_summary = ''render FRR and Containerlab artifacts''\<rparr>,
     \<lparr>po_type = PlanDeployTopology, po_target = meta_name (lab_meta lb), po_summary = ''deploy topology via '' @ driver\<rparr>]"

definition new_plan :: "string \<Rightarrow> draw \<Rightarrow> nat \<Rightarrow> lab \<Rightarrow> plan_op list \<Rightarrow> allocation list \<Rightarrow> plan_warning list \<Rightarrow> plan" where
  "new_plan driver d now lb ops allocs warnings =
    \<lparr>plan_id = new_id ''plan'' d, plan_lab = meta_id (lab_meta lb), base_generation = generation (lab_meta lb),
     new_generation = generation (lab_meta lb) + 1, plan_state = PlanPending, plan_ops = ops @ artifact_ops driver lb,
     plan_allocs = allocs, plan_warnings = warnings, plan_created = now\<rparr>"

text \<open>The end both kinds of plan share: the desired topology, the plan and the lab's phase are stored.\<close>

definition store_plan :: "nat \<Rightarrow> string \<Rightarrow> lab \<Rightarrow> node list \<Rightarrow> link list \<Rightarrow> allocation list \<Rightarrow> plan \<Rightarrow> (plan_error, plan) db" where
  "store_plan now what lb ns ls allocs p =
    sbind (repo ''persist desired topology'' (replace_topology (meta_id (lab_meta lb)) ns ls allocs)) (\<lambda>_.
    sbind (repo ''persist plan'' (insert_plan p)) (\<lambda>_.
    sbind (repo what (update_lab now (lb\<lparr>lab_meta := (lab_meta lb)\<lparr>phase := PhasePlanning\<rparr>\<rparr>))) (\<lambda>_.
      slift (Inr p))))"

definition create_plan :: "string \<Rightarrow> (nat \<Rightarrow> draw) \<Rightarrow> draw \<Rightarrow> nat \<Rightarrow> string \<Rightarrow> (plan_error, plan) db" where
  "create_plan driver ds d now lid =
    sbind (repo ''get lab'' (get_lab lid)) (\<lambda>lb.
    sbind (load_base lid lb) (\<lambda>bs.
    sbind (slift (emap_err BuilderFailed (new_builder ds (meta_id (lab_meta lb)) (lab_spec lb) bs))) (\<lambda>b0.
    sbind (slift (emap_err BuildFailed (build b0 (lab_topology (lab_spec lb))))) (\<lambda>b.
    sbind (repo ''list nodes'' (list_nodes lid)) (\<lambda>cur_ns.
    sbind (repo ''list links'' (list_links lid)) (\<lambda>cur_ls.
    sbind (repo ''list programs'' (list_programs lid)) (\<lambda>ps.
      let (ns, ls) = carry_over_identity (res_nodes b) (res_links b) cur_ns cur_ls;
          (ops, warnings) = plan_changes bs ns ls ps;
          allocs = derive_allocations (res_nodes b) (res_links b)
      in store_plan now ''update lab phase'' lb ns ls allocs
           (new_plan driver d now lb ops (filter (is_new_allocation b) allocs) warnings))))))))"

section \<open>Rolling back\<close>

definition reset_node :: "node list \<Rightarrow> node \<Rightarrow> node" where
  "reset_node cur n = (if node_name n \<in> set (map node_name cur) then n
     else n\<lparr>n_meta := (n_meta n)\<lparr>phase := PhasePending, observed_generation := 0\<rparr>, n_status := empty_status\<rparr>)"

definition reset_link :: "link list \<Rightarrow> link \<Rightarrow> link" where
  "reset_link cur l = (if link_name l \<in> set (map link_name cur) then l
     else l\<lparr>l_meta := (l_meta l)\<lparr>phase := PhasePending, observed_generation := 0\<rparr>, l_status := \<lparr>admin_up = False, oper_up = False\<rparr>\<rparr>)"

definition reset_re_added :: "node list \<times> link list \<Rightarrow> node list \<Rightarrow> link list \<Rightarrow> node list \<times> link list" where
  "reset_re_added r cur_ns cur_ls = (map (reset_node cur_ns) (fst r), map (reset_link cur_ls) (snd r))"

definition not_held :: "allocation list \<Rightarrow> allocation \<Rightarrow> bool" where
  "not_held held a \<longleftrightarrow> al_pool a @ ''|'' @ al_owner a \<notin> set (map (\<lambda>x. al_pool x @ ''|'' @ al_owner x) held)"

definition create_rollback_plan :: "string \<Rightarrow> draw \<Rightarrow> nat \<Rightarrow> string \<Rightarrow> int \<Rightarrow> (plan_error, plan) db" where
  "create_rollback_plan driver d now lid g =
    sbind (repo ''get lab'' (get_lab lid)) (\<lambda>lb.
      if generation (lab_meta lb) = 0 then slift (Inl (NotDeployed (meta_name (lab_meta lb))))
      else if g = generation (lab_meta lb) then slift (Inl (AlreadyDeployed g))
      else
    sbind (load_generation lid g) (\<lambda>target.
    sbind (load_generation lid (generation (lab_meta lb))) (\<lambda>base_snap.
    sbind (repo ''list nodes'' (list_nodes lid)) (\<lambda>cur_ns.
    sbind (repo ''list links'' (list_links lid)) (\<lambda>cur_ls.
    sbind (repo ''list programs'' (list_programs lid)) (\<lambda>ps.
      let allocs = derive_allocations (sn_nodes target) (sn_links target);
          (ns, ls) = reset_re_added (carry_over_identity (sn_nodes target) (sn_links target) cur_ns cur_ls) cur_ns cur_ls;
          (ops, warnings) = plan_changes (Some (base_of base_snap)) ns ls ps;
          held = derive_allocations (sn_nodes base_snap) (sn_links base_snap)
      in store_plan now ''update lab'' (lb\<lparr>lab_spec := lab_spec (sn_lab target)\<rparr>) ns ls allocs
           (new_plan driver d now lb ops (filter (not_held held) allocs) warnings)))))))"

section \<open>Applying: the request\<close>

record lab_job =
  j_lab :: lab
  j_nodes :: "node list"
  j_links :: "link list"
  j_op :: operation

record apply_job = lab_job +
  j_plan :: plan
  j_base :: "snapshot option"

text \<open>\<open>ops.Create\<close>: storing the queued operation takes one call of the database.\<close>

definition create_operation :: "operation \<Rightarrow> (store_error, operation) db" where
  "create_operation op = db_call (\<lambda>s. Inr (op, s))"

definition load_snapshot :: "string \<Rightarrow> int \<Rightarrow> (plan_error, snapshot option) db" where
  "load_snapshot lid g = (if 0 < g then sbind (load_generation lid g) (\<lambda>sn. slift (Inr (Some sn))) else slift (Inr None))"

definition apply_loaded :: "draw \<Rightarrow> nat \<Rightarrow> string \<Rightarrow> plan \<Rightarrow> lab \<Rightarrow> (plan_error, apply_job) db" where
  "apply_loaded d now pid p lb =
    sbind (repo ''list nodes'' (list_nodes (meta_id (lab_meta lb)))) (\<lambda>ns.
    sbind (repo ''list links'' (list_links (meta_id (lab_meta lb)))) (\<lambda>ls.
    sbind (load_snapshot (meta_id (lab_meta lb)) (base_generation p)) (\<lambda>bs.
    sbind (repo ''create apply operation'' (create_operation
        (create_op d (meta_id (lab_meta lb)) OperationApplyPlan \<lparr>ref_type = ''plan'', ref_id = pid\<rparr> now))) (\<lambda>op.
      let lb' = lb\<lparr>lab_meta := (lab_meta lb)\<lparr>phase := PhaseApplying\<rparr>\<rparr> in
    sbind (repo ''update lab phase'' (update_lab now lb')) (\<lambda>_.
      slift (Inr \<lparr>j_lab = touch_lab now lb', j_nodes = ns, j_links = ls, j_op = op, j_plan = p, j_base = bs\<rparr>))))))"

definition apply_plan :: "draw \<Rightarrow> nat \<Rightarrow> string \<Rightarrow> (plan_error, apply_job) db" where
  "apply_plan d now pid =
    sbind (repo ''get plan'' (get_plan pid)) (\<lambda>p.
      if plan_state p \<noteq> PlanPending then slift (Inl (NotPending pid (plan_state p)))
      else
    sbind (repo ''get lab'' (get_lab (plan_lab p))) (\<lambda>lb.
      if generation (lab_meta lb) \<noteq> base_generation p then slift (Inl (StaleBase pid (base_generation p) (generation (lab_meta lb))))
      else apply_loaded d now pid p lb))"

section \<open>The steps\<close>

datatype driver_call = CallEnsureImage string | CallDeploy string | CallDeployIncrement string | CallConnectInternet string string
  | CallPruneTraffic string "string list" | CallPrunePrograms string "string list" | CallPruneFaults string "string list" "string list"
  | CallInstallCapture "string list" | CallRestorePrograms "string list"

record world =
  w_store :: store
  w_files :: fs
  w_artifact :: "artifact option"
  w_calls :: "driver_call list"

datatype step_failure = ImageMissing string string | CompileFailed compile_error | WriteArtifactFailed write_error | SaveFailed store_error
  | IncrementFailed inc_error | IncrementUnwritable string | InternetFailed string exec_error | ControlPlane control_error | DataPlane data_error

record env =
  e_driver :: string
  e_data_dir :: string
  e_now :: nat
  e_clock :: "nat \<Rightarrow> nat"
  e_text :: "step_failure \<Rightarrow> string"
  e_marshal :: "clab_topology \<Rightarrow> string"
  e_marshal_inc :: "increment \<Rightarrow> string"
  e_os :: os
  e_order :: "artifact \<Rightarrow> (string \<times> string) list"
  e_ensure :: "string \<Rightarrow> string option"
  e_deploy :: "string \<Rightarrow> conduct"
  e_deploy_increment :: "string \<Rightarrow> conduct"
  e_connect :: "string \<Rightarrow> string \<Rightarrow> exec_error option"
  e_poll :: "nat \<Rightarrow> exec_fun"
  e_unmarshal :: "string \<Rightarrow> string + summary"
  e_expired :: "nat \<Rightarrow> bool"
  e_cancelled :: "nat \<Rightarrow> bool"
  e_ping :: "nat \<Rightarrow> exec_fun"
  e_ping_cancelled :: "nat \<Rightarrow> bool"
  e_pinged :: nat
  e_prune_traffic :: "string \<Rightarrow> string list \<Rightarrow> string option"
  e_prune_programs :: "string \<Rightarrow> string list \<Rightarrow> string option"
  e_prune_faults :: "string \<Rightarrow> string list \<Rightarrow> string list \<Rightarrow> string option"
  e_install :: "node list \<Rightarrow> string option"
  e_restore :: "node list \<Rightarrow> string option"

text \<open>A step's function: its conduct and the world after it, or None when it does not return.\<close>

type_synonym action = "world \<Rightarrow> (conduct \<times> world) option"

definition call :: "driver_call \<Rightarrow> world \<Rightarrow> world" where
  "call c w = w\<lparr>w_calls := w_calls w @ [c]\<rparr>"

definition deploy_weight :: "bool \<Rightarrow> int" where
  "deploy_weight full = (if full then 12 else 5)"

definition apply_images :: "lab \<Rightarrow> string list" where
  "apply_images lb = [frr_image default_options, server_image default_options] @
     (if internet_access (lab_topology (lab_spec lb)) then [edge_image default_options] else [])"

fun ensure_images :: "env \<Rightarrow> string list \<Rightarrow> world \<Rightarrow> conduct \<times> world" where
  "ensure_images e [] w = (([], None), w)"
| "ensure_images e (i # is) w = (case e_ensure e i of
     Some m \<Rightarrow> (([], Some (e_text e (ImageMissing i m))), call (CallEnsureImage i) w)
   | None \<Rightarrow> ensure_images e is (call (CallEnsureImage i) w))"

definition compile_step :: "env \<Rightarrow> apply_job \<Rightarrow> action" where
  "compile_step e j w = (case compile_lab (e_marshal e) (j_lab j) (j_nodes j) (j_links j) default_options of
     Inl x \<Rightarrow> Some (([], Some (e_text e (CompileFailed x))), w\<lparr>w_artifact := None\<rparr>)
   | Inr a \<Rightarrow> Some (([], None), w\<lparr>w_artifact := Some a\<rparr>))"

definition new_dir :: "env \<Rightarrow> apply_job \<Rightarrow> string" where
  "new_dir e j = generation_dir (e_data_dir e) (meta_id (lab_meta (j_lab j))) (new_generation (j_plan j))"

definition old_dir :: "env \<Rightarrow> apply_job \<Rightarrow> string" where
  "old_dir e j = generation_dir (e_data_dir e) (meta_id (lab_meta (j_lab j))) (base_generation (j_plan j))"

definition write_step :: "env \<Rightarrow> apply_job \<Rightarrow> action" where
  "write_step e j w = (case w_artifact w of None \<Rightarrow> None
   | Some a \<Rightarrow> (case write_artifact (e_os e) (e_order e a) (new_dir e j) (w_files w) of (r, d) \<Rightarrow>
       Some (([], map_option (\<lambda>x. e_text e (WriteArtifactFailed x)) r), w\<lparr>w_files := d\<rparr>)))"

definition save_step :: "env \<Rightarrow> apply_job \<Rightarrow> action" where
  "save_step e j w = (case save_generation (e_now e) (meta_id (lab_meta (j_lab j))) (new_generation (j_plan j))
       \<lparr>sn_lab = j_lab j, sn_nodes = j_nodes j, sn_links = j_links j\<rparr> (w_store w) of
     (Inl x, s) \<Rightarrow> Some (([], Some (e_text e (SaveFailed x))), w\<lparr>w_store := s\<rparr>)
   | (Inr _, s) \<Rightarrow> Some (([], None), w\<lparr>w_store := s\<rparr>))"

definition increment_path :: "string \<Rightarrow> string" where
  "increment_path dir = path_join [dir, ''increment.json'']"

definition write_increment :: "env \<Rightarrow> increment \<Rightarrow> string \<Rightarrow> fs \<Rightarrow> step_failure option \<times> fs" where
  "write_increment e inc dir d = (let p = increment_path dir in
    if write_ok (e_os e) p then (None, d(p \<mapsto> e_marshal_inc e inc)) else (Some (IncrementUnwritable p), d))"

definition deploy_step :: "env \<Rightarrow> apply_job \<Rightarrow> action" where
  "deploy_step e j w = (case j_base j of
     None \<Rightarrow> Some (e_deploy e (new_dir e j), call (CallDeploy (new_dir e j)) w)
   | Some sn \<Rightarrow> (case build_increment (w_files w) (meta_name (lab_meta (j_lab j))) (base_of sn) (j_nodes j) (j_links j) (old_dir e j) (new_dir e j) of
       Inl x \<Rightarrow> Some (([], Some (e_text e (IncrementFailed x))), w)
     | Inr inc \<Rightarrow> (case write_increment e inc (new_dir e j) (w_files w) of
         (Some x, d) \<Rightarrow> Some (([], Some (e_text e x)), w\<lparr>w_files := d\<rparr>)
       | (None, d) \<Rightarrow> (let w' = w\<lparr>w_files := d\<rparr> in
           if inc_empty inc then Some (([], None), w')
           else Some (e_deploy_increment e (new_dir e j), call (CallDeployIncrement (new_dir e j)) w')))))"

definition removed_names :: "('a \<Rightarrow> string) \<Rightarrow> 'a list \<Rightarrow> 'a list \<Rightarrow> string list" where
  "removed_names name old new = filter (\<lambda>nm. nm \<notin> set (map name new)) (map name old)"

text \<open>The three prunings in order, each only after the one before succeeded.\<close>

fun call_until_error :: "(driver_call \<times> string option) list \<Rightarrow> world \<Rightarrow> conduct \<times> world" where
  "call_until_error [] w = (([], None), w)"
| "call_until_error ((c, r) # rest) w = (case r of
     Some m \<Rightarrow> (([], Some m), call c w)
   | None \<Rightarrow> call_until_error rest (call c w))"

definition prune_step :: "env \<Rightarrow> apply_job \<Rightarrow> action" where
  "prune_step e j w = (case j_base j of None \<Rightarrow> Some (([], None), w)
   | Some sn \<Rightarrow>
      (let lid = meta_id (lab_meta (j_lab j)); rn = removed_names node_name (sn_nodes sn) (j_nodes j); rl = removed_names link_name (sn_links sn) (j_links j)
       in if rn = [] \<and> rl = [] then Some (([], None), w)
          else Some (call_until_error
            [(CallPruneTraffic lid rn, e_prune_traffic e lid rn), (CallPrunePrograms lid rn, e_prune_programs e lid rn),
             (CallPruneFaults lid rn rl, e_prune_faults e lid rn rl)] w)))"

fun connect_all :: "env \<Rightarrow> string \<Rightarrow> node list \<Rightarrow> world \<Rightarrow> conduct \<times> world" where
  "connect_all e lab [] w = (([], None), w)"
| "connect_all e lab (n # ns) w =
    (if n_role n \<noteq> RoleExternal then connect_all e lab ns w
     else let w' = call (CallConnectInternet lab (node_name n)) w in
       (case e_connect e lab (node_name n) of
          None \<Rightarrow> connect_all e lab ns w'
        | Some ErrNotSupported \<Rightarrow> (([], None), w')
        | Some x \<Rightarrow> (([], Some (e_text e (InternetFailed (node_name n) x))), w')))"

definition connect_internet :: "env \<Rightarrow> lab \<Rightarrow> node list \<Rightarrow> action" where
  "connect_internet e lb ns w = (if \<not> internet_access (lab_topology (lab_spec lb)) then Some (([], None), w)
     else Some (connect_all e (meta_name (lab_meta lb)) ns w))"

definition control_step :: "env \<Rightarrow> node list \<Rightarrow> link list \<Rightarrow> action" where
  "control_step e ns ls w = (case validate_control_plane (e_poll e) (e_unmarshal e) (e_expired e) (e_cancelled e) ns ls of
     None \<Rightarrow> None
   | Some (r, reports) \<Rightarrow> Some ((map (\<lambda>(a, b). of_nat a / of_nat b) reports, map_option (\<lambda>x. e_text e (ControlPlane x)) r), w))"

text \<open>\<open>e_pinged\<close> servers finish their checks before the step ends, and each reports its share.\<close>

definition data_step :: "env \<Rightarrow> node list \<Rightarrow> action" where
  "data_step e ns w = (let n = length (ping_servers ns) in
     Some ((if n < 2 then [] else map (\<lambda>i. of_nat (i + 1) / of_nat n) [0..<min n (e_pinged e)],
            map_option (\<lambda>x. e_text e (DataPlane x)) (validate_data_plane (e_ping e) (e_ping_cancelled e) ns)), w))"

definition scope_of :: "apply_job \<Rightarrow> node list" where
  "scope_of j = restore_scope (map_option sn_nodes (j_base j)) (j_nodes j)"

definition install_step :: "env \<Rightarrow> apply_job \<Rightarrow> action" where
  "install_step e j w = Some (call_until_error [(CallInstallCapture (map node_name (scope_of j)), e_install e (scope_of j))] w)"

definition restore_step :: "env \<Rightarrow> apply_job \<Rightarrow> action" where
  "restore_step e j w = Some (call_until_error [(CallRestorePrograms (map node_name (scope_of j)), e_restore e (scope_of j))] w)"

abbreviation step :: "string \<Rightarrow> int \<Rightarrow> work_step" where
  "step nm k \<equiv> \<lparr>step_name = nm, step_weight = k\<rparr>"

definition apply_steps :: "env \<Rightarrow> apply_job \<Rightarrow> (work_step \<times> action) list" where
  "apply_steps e j =
    [(step ''EnsureImages'' 0, \<lambda>w. Some (ensure_images e (apply_images (j_lab j)) w)),
     (step ''CompileArtifacts'' 0, compile_step e j),
     (step ''WriteArtifacts'' 0, write_step e j),
     (step ''SaveGeneration'' 0, save_step e j),
     (step ''DeployTopology'' (deploy_weight (j_base j = None)), deploy_step e j),
     (step ''PruneRemovedResources'' 0, prune_step e j),
     (step ''ConnectInternet'' 0, connect_internet e (j_lab j) (j_nodes j)),
     (step ''ValidateControlPlane'' 4, control_step e (j_nodes j) (j_links j)),
     (step ''ValidateDataPlane'' 5, data_step e (j_nodes j)),
     (step ''InstallCaptureTool'' 0, install_step e j),
     (step ''RestorePrograms'' 0, restore_step e j)]"

text \<open>What the steps do up to the first that fails; the later ones do not run.\<close>

fun run_actions :: "(work_step \<times> action) list \<Rightarrow> world \<Rightarrow> ((work_step \<times> conduct) list \<times> string option \<times> world) option" where
  "run_actions [] w = Some ([], None, w)"
| "run_actions ((s, a) # rest) w = (case a w of
     None \<Rightarrow> None
   | Some ((reports, Some m), w') \<Rightarrow> Some ((s, reports, Some m) # map (\<lambda>(t, _). (t, [], None)) rest, Some m, w')
   | Some ((reports, None), w') \<Rightarrow> (case run_actions rest w' of
       None \<Rightarrow> None
     | Some (cs, failed, w'') \<Rightarrow> Some ((s, reports, None) # cs, failed, w'')))"

section \<open>Applying: the run\<close>

text \<open>A write of the closing callback: its error is only logged.\<close>

definition logged :: "(store_error, unit) db \<Rightarrow> store \<Rightarrow> store" where
  "logged m s = snd (m s)"

definition fail_lab :: "string \<Rightarrow> nat \<Rightarrow> string \<Rightarrow> lab \<Rightarrow> lab" where
  "fail_lab code now m lb = lb\<lparr>lab_meta := (lab_meta lb)\<lparr>phase := PhaseFailed, last_error := Some \<lparr>err_code = code, err_message = m, err_time = now\<rparr>\<rparr>\<rparr>"

definition running_node :: "int \<Rightarrow> node \<Rightarrow> node" where
  "running_node g n = n\<lparr>n_meta := (n_meta n)\<lparr>phase := PhaseRunning, observed_generation := g\<rparr>\<rparr>"

definition mark_node :: "nat \<Rightarrow> int \<Rightarrow> store \<Rightarrow> node \<Rightarrow> store" where
  "mark_node now g s n = logged (update_node now (running_node g n)) s"

definition applied_lab :: "int \<Rightarrow> lab \<Rightarrow> lab" where
  "applied_lab g lb = lb\<lparr>lab_meta := (lab_meta lb)\<lparr>generation := g, observed_generation := g, phase := PhaseRunning, last_error := None\<rparr>\<rparr>"

definition apply_done :: "env \<Rightarrow> apply_job \<Rightarrow> string option \<Rightarrow> store \<Rightarrow> store" where
  "apply_done e j failed s = (let g = new_generation (j_plan j) in case failed of
     Some m \<Rightarrow> logged (update_lab (e_now e) (fail_lab ''APPLY_FAILED'' (e_now e) m (j_lab j))) s
   | None \<Rightarrow> (let s1 = logged (update_plan ((j_plan j)\<lparr>plan_state := PlanApplied\<rparr>)) s;
                s2 = foldl (mark_node (e_now e) g) s1 (j_nodes j)
            in logged (update_lab (e_now e) (applied_lab g (j_lab j))) s2))"

definition run_apply :: "env \<Rightarrow> apply_job \<Rightarrow> world \<Rightarrow> (string option \<times> operation list \<times> world) option" where
  "run_apply e j w = (case run_actions (apply_steps e j) w of
     None \<Rightarrow> None
   | Some (cs, failed, w') \<Rightarrow> (case run_op (e_clock e) (j_op j) cs of (_, _, tr) \<Rightarrow>
       Some (failed, tr, w'\<lparr>w_store := apply_done e j failed (w_store w')\<rparr>)))"

section \<open>Repairing\<close>

definition repair_lab :: "draw \<Rightarrow> nat \<Rightarrow> string \<Rightarrow> (plan_error, lab_job) db" where
  "repair_lab d now lid =
    sbind (repo ''get lab'' (get_lab lid)) (\<lambda>lb.
      if generation (lab_meta lb) = 0 then slift (Inl (NotDeployed (meta_name (lab_meta lb))))
      else
    sbind (repo ''list nodes'' (list_nodes lid)) (\<lambda>ns.
    sbind (repo ''list links'' (list_links lid)) (\<lambda>ls.
    sbind (repo ''create repair operation'' (create_operation
        (create_op d (meta_id (lab_meta lb)) OperationRepairLab \<lparr>ref_type = ''lab'', ref_id = lid\<rparr> now))) (\<lambda>op.
      slift (Inr \<lparr>j_lab = lb, j_nodes = ns, j_links = ls, j_op = op\<rparr>)))))"

definition repair_steps :: "env \<Rightarrow> lab_job \<Rightarrow> (work_step \<times> action) list" where
  "repair_steps e j = (let dir = generation_dir (e_data_dir e) (meta_id (lab_meta (j_lab j))) (generation (lab_meta (j_lab j))) in
    [(step ''DeployTopology'' (deploy_weight True), \<lambda>w. Some (e_deploy e dir, call (CallDeploy dir) w)),
     (step ''ConnectInternet'' 0, connect_internet e (j_lab j) (j_nodes j)),
     (step ''ValidateControlPlane'' 4, control_step e (j_nodes j) (j_links j)),
     (step ''ValidateDataPlane'' 5, data_step e (j_nodes j))])"

definition repair_done :: "env \<Rightarrow> lab_job \<Rightarrow> string option \<Rightarrow> store \<Rightarrow> store" where
  "repair_done e j failed s = logged (update_lab (e_now e)
     (case failed of Some m \<Rightarrow> fail_lab ''REPAIR_FAILED'' (e_now e) m (j_lab j)
      | None \<Rightarrow> (j_lab j)\<lparr>lab_meta := (lab_meta (j_lab j))\<lparr>phase := PhaseRunning, last_error := None\<rparr>\<rparr>)) s"

definition run_repair :: "env \<Rightarrow> lab_job \<Rightarrow> world \<Rightarrow> (string option \<times> operation list \<times> world) option" where
  "run_repair e j w = (case run_actions (repair_steps e j) w of
     None \<Rightarrow> None
   | Some (cs, failed, w') \<Rightarrow> (case run_op (e_clock e) (j_op j) cs of (_, _, tr) \<Rightarrow>
       Some (failed, tr, w'\<lparr>w_store := repair_done e j failed (w_store w')\<rparr>)))"

end
