(* ===== verification/PlanProps.thy ===== *)
theory PlanProps
  imports PlanUsecase StoreProps ValidateProps
begin

text \<open>
  Lemmas on the change flow: consistent stores, what an accepted request to apply captures, what the steps of a run
  leave of the store, and the store after a run that failed and after one that succeeded.
\<close>

section \<open>Consistent stores\<close>

definition lab_row_ok :: "lab row \<Rightarrow> bool" where
  "lab_row_ok r \<longleftrightarrow> row_id r = meta_id (lab_meta (row_doc r)) \<and> row_name r = meta_name (lab_meta (row_doc r)) \<and> row_scope r = []"

definition store_ok :: "store \<Rightarrow> bool" where
  "store_ok s \<longleftrightarrow> table_ok (t_labs s) \<and> list_all lab_row_ok (t_labs s) \<and>
     table_ok (t_nodes s) \<and> list_all (\<lambda>r. row_id r = node_id (row_doc r)) (t_nodes s) \<and>
     table_ok (t_plans s) \<and> list_all (\<lambda>r. row_id r = plan_id (row_doc r)) (t_plans s) \<and> keys_ok (t_gens s)"

lemmas db_ok = sbind_ok serr_ok slift_ok

lemma get_doc_row: "get_doc i t = Inr d \<Longrightarrow> \<exists>r \<in> set t. row_id r = i \<and> row_doc r = d"
  by (auto simp: get_doc_def find_Some_iff split: option.splits)

lemma get_doc_unique: "table_ok t \<Longrightarrow> r \<in> set t \<Longrightarrow> get_doc (row_id r) t = Inr (row_doc r)"
proof (induction t)
  case (Cons x t)
  then show ?case by (auto simp: get_doc_def table_ok_def rev_image_eqI split: option.splits)
qed simp

lemma get_lab_ok: "get_lab i s = (Inr d, s') \<longleftrightarrow> (t_io s = [] \<or> hd (t_io s) = None) \<and> get_doc i (t_labs s) = Inr d \<and> s' = s\<lparr>t_io := tl (t_io s)\<rparr>"
  by (auto simp: get_lab_def db_call_Inr split: sum.splits)

lemma get_plan_ok: "get_plan i s = (Inr d, s') \<longleftrightarrow> (t_io s = [] \<or> hd (t_io s) = None) \<and> get_doc i (t_plans s) = Inr d \<and> s' = s\<lparr>t_io := tl (t_io s)\<rparr>"
  by (auto simp: get_plan_def db_call_Inr split: sum.splits)

lemma get_generation_ok:
  "get_generation l g s = (Inr d, s') \<longleftrightarrow> (t_io s = [] \<or> hd (t_io s) = None) \<and> find_generation l g (t_gens s) = Inr d \<and> s' = s\<lparr>t_io := tl (t_io s)\<rparr>"
  by (auto simp: get_generation_def db_call_Inr split: sum.splits)

lemma list_nodes_ok: "list_nodes l s = (Inr ns, s') \<longleftrightarrow> (t_io s = [] \<or> hd (t_io s) = None) \<and> ns = list_docs l (t_nodes s) \<and> s' = s\<lparr>t_io := tl (t_io s)\<rparr>"
  by (auto simp: list_nodes_def db_call_Inr)

lemma list_links_ok: "list_links l s = (Inr ns, s') \<longleftrightarrow> (t_io s = [] \<or> hd (t_io s) = None) \<and> ns = list_docs l (t_links s) \<and> s' = s\<lparr>t_io := tl (t_io s)\<rparr>"
  by (auto simp: list_links_def db_call_Inr)

lemma create_operation_ok: "create_operation op s = (Inr x, s') \<longleftrightarrow> (t_io s = [] \<or> hd (t_io s) = None) \<and> x = op \<and> s' = s\<lparr>t_io := tl (t_io s)\<rparr>"
  by (auto simp: create_operation_def db_call_Inr)

definition put_lab :: "nat \<Rightarrow> lab \<Rightarrow> lab row list \<Rightarrow> lab row list" where
  "put_lab now lb t = map (\<lambda>r. if row_id r = meta_id (lab_meta lb) then r\<lparr>row_name := meta_name (lab_meta lb), row_doc := touch_lab now lb\<rparr> else r) t"

lemma update_lab_ok: "update_lab now lb s = (Inr u, s') \<Longrightarrow> s' = s\<lparr>t_io := tl (t_io s), t_labs := put_lab now lb (t_labs s)\<rparr>"
  by (auto simp: update_lab_def db_call_Inr put_lab_def Let_def split: if_splits)

lemmas read_ok = get_lab_ok get_plan_ok get_generation_ok list_nodes_ok list_links_ok create_operation_ok

section \<open>The request to apply\<close>

lemma find_found: "find_generation l g t = Inr d \<Longrightarrow> g \<in> set (numbers_of l t)"
  using find_missing [of l g t] by auto

lemma load_generation_ok:
  "load_generation l g s = (Inr d, s') \<longleftrightarrow> (t_io s = [] \<or> hd (t_io s) = None) \<and> find_generation l g (t_gens s) = Inr d \<and> s' = s\<lparr>t_io := tl (t_io s)\<rparr>"
  by (simp only: load_generation_def serr_ok get_generation_ok)

lemma tl_drop: "tl xs = drop 1 xs"
  by (cases xs) auto

lemma load_snapshot_ok:
  assumes "load_snapshot l g s = (Inr b, s')"
  shows "b = (if 0 < g then Some (sum.projr (find_generation l g (t_gens s))) else None)" "0 < g \<Longrightarrow> g \<in> set (numbers_of l (t_gens s))"
    "\<exists>k. s' = s\<lparr>t_io := drop k (t_io s)\<rparr>"
proof -
  have "b = (if 0 < g then Some (sum.projr (find_generation l g (t_gens s))) else None) \<and> (0 < g \<longrightarrow> g \<in> set (numbers_of l (t_gens s))) \<and>
      (\<exists>k. s' = s\<lparr>t_io := drop k (t_io s)\<rparr>)"
  proof (cases "0 < g")
    case True
    then obtain sn where "load_generation l g s = (Inr sn, s')" "b = Some sn"
      using assms unfolding load_snapshot_def by (auto simp: sbind_ok slift_ok)
    then show ?thesis using True find_found by (auto simp: load_generation_ok intro: exI [of _ 1] simp: tl_drop)
  next
    case False
    then have "b = None" "s' = s" using assms by (simp_all add: load_snapshot_def slift_ok)
    then show ?thesis using False by (auto intro: exI [of _ 0])
  qed
  then show "b = (if 0 < g then Some (sum.projr (find_generation l g (t_gens s))) else None)" "0 < g \<Longrightarrow> g \<in> set (numbers_of l (t_gens s))"
    "\<exists>k. s' = s\<lparr>t_io := drop k (t_io s)\<rparr>" by blast+
qed

lemma apply_plan_request:
  assumes "apply_plan d now pid s = (Inr j, s')"
  obtains lb where "get_doc pid (t_plans s) = Inr (j_plan j)" "plan_state (j_plan j) = PlanPending"
    "get_doc (plan_lab (j_plan j)) (t_labs s) = Inr lb" "generation (lab_meta lb) = base_generation (j_plan j)"
    "j_lab j = touch_lab now (lb\<lparr>lab_meta := (lab_meta lb)\<lparr>phase := PhaseApplying\<rparr>\<rparr>)"
    "j_nodes j = list_docs (meta_id (lab_meta lb)) (t_nodes s)" "j_links j = list_docs (meta_id (lab_meta lb)) (t_links s)"
    "j_base j = (if 0 < base_generation (j_plan j) then Some (sum.projr (find_generation (meta_id (lab_meta lb)) (base_generation (j_plan j)) (t_gens s))) else None)"
    "0 < base_generation (j_plan j) \<Longrightarrow> base_generation (j_plan j) \<in> set (numbers_of (meta_id (lab_meta lb)) (t_gens s))"
    "\<exists>k. s' = s\<lparr>t_io := drop k (t_io s), t_labs := put_lab now (lb\<lparr>lab_meta := (lab_meta lb)\<lparr>phase := PhaseApplying\<rparr>\<rparr>) (t_labs s)\<rparr>"
proof -
  obtain p s1 where p: "get_plan pid s = (Inr p, s1)" and 1: "(if plan_state p \<noteq> PlanPending then slift (Inl (NotPending pid (plan_state p)))
      else sbind (repo ''get lab'' (get_lab (plan_lab p))) (\<lambda>lb.
        if generation (lab_meta lb) \<noteq> base_generation p then slift (Inl (StaleBase pid (base_generation p) (generation (lab_meta lb))))
        else apply_loaded d now pid p lb)) s1 = (Inr j, s')"
    using assms by (auto simp only: apply_plan_def sbind_ok serr_ok)
  have st: "plan_state p = PlanPending" using 1 by (auto simp: slift_def split: if_splits)
  obtain lb s2 where lb: "get_lab (plan_lab p) s1 = (Inr lb, s2)" and 2: "(if generation (lab_meta lb) \<noteq> base_generation p
      then slift (Inl (StaleBase pid (base_generation p) (generation (lab_meta lb)))) else apply_loaded d now pid p lb) s2 = (Inr j, s')"
    using 1 st by (auto simp: sbind_ok serr_ok)
  have g: "generation (lab_meta lb) = base_generation p" using 2 by (auto simp: slift_def split: if_splits)
  have 3: "apply_loaded d now pid p lb s2 = (Inr j, s')" using 2 g by simp
  let ?lb = "lb\<lparr>lab_meta := (lab_meta lb)\<lparr>phase := PhaseApplying\<rparr>\<rparr>" and ?i = "meta_id (lab_meta lb)"
  obtain ns s3 ls s4 bs s5 op s6 u s7 where s: "list_nodes ?i s2 = (Inr ns, s3)" "list_links ?i s3 = (Inr ls, s4)"
      "load_snapshot ?i (base_generation p) s4 = (Inr bs, s5)" "create_operation (create_op d ?i OperationApplyPlan \<lparr>ref_type = ''plan'', ref_id = pid\<rparr> now) s5 = (Inr op, s6)"
      "update_lab now ?lb s6 = (Inr u, s7)"
    and j: "\<lparr>j_lab = touch_lab now ?lb, j_nodes = ns, j_links = ls, j_op = op, j_plan = p, j_base = bs\<rparr> = j" and s7: "s' = s7"
    using 3 unfolding apply_loaded_def sbind_ok serr_ok slift_ok Let_def sum.inject
    by (elim exE conjE) (rule that, assumption+)
  obtain k where io: "s5 = s4\<lparr>t_io := drop k (t_io s4)\<rparr>" using load_snapshot_ok(3) [OF s(3)] by blast
  have r: "get_doc pid (t_plans s) = Inr p" "get_doc (plan_lab p) (t_labs s) = Inr lb" "ns = list_docs ?i (t_nodes s)" "ls = list_docs ?i (t_links s)"
    "t_gens s4 = t_gens s" "s6 = s\<lparr>t_io := drop (Suc (Suc (Suc (Suc (Suc k))))) (t_io s)\<rparr>"
    using p lb s(1,2,4) io by (simp_all add: read_ok tl_drop)
  have s': "s' = s\<lparr>t_io := drop (Suc (Suc (Suc (Suc (Suc (Suc k)))))) (t_io s), t_labs := put_lab now ?lb (t_labs s)\<rparr>"
    using update_lab_ok [OF s(5)] s7 r(6) by (simp add: tl_drop)
  show thesis
  proof (rule that [of lb])
    show "\<exists>k. s' = s\<lparr>t_io := drop k (t_io s), t_labs := put_lab now ?lb (t_labs s)\<rparr>" using s' by (rule exI)
    show "j_base j = (if 0 < base_generation (j_plan j) then Some (sum.projr (find_generation ?i (base_generation (j_plan j)) (t_gens s))) else None)"
      using load_snapshot_ok(1) [OF s(3)] unfolding j [symmetric] r(5) by simp
    show "base_generation (j_plan j) \<in> set (numbers_of ?i (t_gens s))" if "0 < base_generation (j_plan j)"
      using load_snapshot_ok(2) [OF s(3)] that unfolding j [symmetric] r(5) by simp
  qed (use st g r j [symmetric] in simp_all)
qed

section \<open>The lab's row\<close>

lemma put_lab_keys: "map row_id (put_lab now lb t) = map row_id t" "map row_scope (put_lab now lb t) = map row_scope t"
  by (auto simp: put_lab_def)

lemma put_lab_rows: "list_all lab_row_ok t \<Longrightarrow> list_all lab_row_ok (put_lab now lb t)"
  by (auto simp: put_lab_def list_all_iff lab_row_ok_def touch_lab_def)

lemma get_put_lab:
  "get_doc i (put_lab now lb t) = (if i = meta_id (lab_meta lb) \<and> i \<in> row_id ` set t then Inr (touch_lab now lb) else get_doc i t)"
proof (induction t)
  case (Cons r t)
  then show ?case by (auto simp: get_doc_def put_lab_def split: if_splits)
qed (simp add: get_doc_def put_lab_def)

text \<open>Renaming aside, the names of the rows are those of their labs, so a row may always take its own name.\<close>

lemma update_lab_succeeds:
  assumes "t_io s = []" "table_ok (t_labs s)" "list_all lab_row_ok (t_labs s)"
    and "get_doc (meta_id (lab_meta lb)) (t_labs s) = Inr old" "meta_name (lab_meta old) = meta_name (lab_meta lb)"
  shows "update_lab now lb s = (Inr (), s\<lparr>t_io := [], t_labs := put_lab now lb (t_labs s)\<rparr>)"
proof -
  let ?i = "meta_id (lab_meta lb)" and ?nm = "meta_name (lab_meta lb)"
  obtain r where r: "r \<in> set (t_labs s)" "row_id r = ?i" "row_doc r = old" using get_doc_row [OF assms(4)] by auto
  have nm: "row_name r = ?nm" "row_scope r = []" using assms(3,5) r by (auto simp: list_all_iff lab_row_ok_def)
  have "row_id x = ?i" if "x \<in> set (t_labs s)" "row_name x = ?nm" for x
  proof -
    have "row_scope x = []" using assms(3) that by (auto simp: list_all_iff lab_row_ok_def)
    then have "x = r" using assms(2) that r nm by (auto simp: table_ok_def distinct_map inj_on_def)
    then show ?thesis using r by simp
  qed
  then have "\<not> list_ex (\<lambda>x. row_id x \<noteq> ?i \<and> row_name x = ?nm) (t_labs s)" by (auto simp: list_ex_iff)
  moreover have "list_ex (\<lambda>x. row_id x = ?i) (t_labs s)" using r by (auto simp: list_ex_iff)
  ultimately show ?thesis
    using assms(1) by (simp add: update_lab_def db_call_def put_lab_def Let_def)
qed

lemma put_lab_table:
  assumes "table_ok t" "list_all lab_row_ok t" "get_doc (meta_id (lab_meta lb)) t = Inr old" "meta_name (lab_meta old) = meta_name (lab_meta lb)"
  shows "table_ok (put_lab now lb t)"
proof -
  obtain r where r: "r \<in> set t" "row_id r = meta_id (lab_meta lb)" "row_doc r = old" using get_doc_row [OF assms(3)] by auto
  have "x\<lparr>row_name := meta_name (lab_meta lb)\<rparr> = x" if "x \<in> set t" "row_id x = meta_id (lab_meta lb)" for x
  proof -
    have "x = r" using assms(1) r that by (auto simp: table_ok_def distinct_map inj_on_def)
    then show ?thesis using assms(2,4) r by (auto simp: list_all_iff lab_row_ok_def)
  qed
  then have "map row_name (put_lab now lb t) = map row_name t" by (auto simp: put_lab_def)
  then have "map (\<lambda>r. (row_scope r, row_name r)) (put_lab now lb t) = map (\<lambda>r. (row_scope r, row_name r)) t"
    using put_lab_keys(2) [of now lb t] by (auto simp: list_eq_iff_nth_eq)
  then show ?thesis using assms(1) put_lab_keys(1) [of now lb t] by (simp add: table_ok_def)
qed

section \<open>Running the steps\<close>

text \<open>A relation between worlds that every action respects holds between the ends of a run.\<close>

lemma run_actions_rel:
  assumes "\<And>w. R w w" "\<And>u v w. R u v \<Longrightarrow> R v w \<Longrightarrow> R u w"
    and "list_all (\<lambda>(s, a). \<forall>w c w'. a w = Some (c, w') \<longrightarrow> R w w') steps" "run_actions steps w = Some (cs, failed, w')"
  shows "R w w'"
  using assms(3,4)
proof (induction steps arbitrary: w cs)
  case (Cons sa rest)
  obtain s a where sa: "sa = (s, a)" by force
  obtain reports r w1 where a: "a w = Some ((reports, r), w1)" using Cons.prems(2) sa by (cases "a w") auto
  have st: "R w w1" using Cons.prems(1) a sa by auto
  show ?case
  proof (cases r)
    case None
    then obtain cs' where "run_actions rest w1 = Some (cs', failed, w')" using Cons.prems(2) a sa by (auto split: option.splits)
    then have "R w1 w'" using Cons.IH [of w1 cs'] Cons.prems(1) sa by simp
    with st show ?thesis by (rule assms(2))
  qed (use Cons.prems(2) a sa st in auto)
qed (use assms(1) in simp)

lemma run_actions_same:
  assumes "list_all (\<lambda>(s, a). \<forall>w c w'. a w = Some (c, w') \<longrightarrow> f w' = f w) steps" "run_actions steps w = Some (cs, failed, w')"
  shows "f w' = f w"
  using run_actions_rel [where R = "\<lambda>w w'. f w' = f w", OF _ _ assms] by simp

lemmas run_actions_store = run_actions_same [where f = w_store]

lemma run_actions_append:
  "run_actions (xs @ ys) w = (case run_actions xs w of None \<Rightarrow> None
   | Some (cs, Some m, w') \<Rightarrow> Some (cs @ map (\<lambda>(t, _). (t, [], None)) ys, Some m, w')
   | Some (cs, None, w') \<Rightarrow> (case run_actions ys w' of None \<Rightarrow> None | Some (ds, f, w'') \<Rightarrow> Some (cs @ ds, f, w'')))"
proof (induction xs w rule: run_actions.induct)
  case (2 s a rest w)
  then show ?case by (auto split: option.splits prod.splits)
qed (auto split: option.splits)

named_theorems keeps_store \<open>a step leaves the store alone\<close>

lemma call_store [simp]: "w_store (call c w) = w_store w"
  by (simp add: call_def)

lemma ensure_images_store: "w_store (snd (ensure_images e is w)) = w_store w"
  by (induction e "is" w rule: ensure_images.induct) (auto split: option.splits)

lemma call_until_error_store: "w_store (snd (call_until_error cs w)) = w_store w"
  by (induction cs w rule: call_until_error.induct) (auto split: option.splits)

lemma connect_all_store: "w_store (snd (connect_all e lab ns w)) = w_store w"
  by (induction e lab ns w rule: connect_all.induct) (auto simp: Let_def split: option.splits exec_error.splits)

lemma ensure_step_keeps [keeps_store]: "ensure_images e is w = (c, w') \<Longrightarrow> w_store w' = w_store w"
  using ensure_images_store [of e "is" w] by simp

lemma compile_step_keeps [keeps_store]: "compile_step e j w = Some (c, w') \<Longrightarrow> w_store w' = w_store w"
  by (auto simp: compile_step_def split: sum.splits)

lemma write_step_keeps [keeps_store]: "write_step e j w = Some (c, w') \<Longrightarrow> w_store w' = w_store w"
  by (auto simp: write_step_def split: option.splits prod.splits)

lemma deploy_step_keeps [keeps_store]: "deploy_step e j w = Some (c, w') \<Longrightarrow> w_store w' = w_store w"
  by (auto simp: deploy_step_def Let_def split: option.splits sum.splits prod.splits if_splits)

lemma prune_step_keeps [keeps_store]: "prune_step e j w = Some (c, w') \<Longrightarrow> w_store w' = w_store w"
  by (auto simp: prune_step_def Let_def split: option.splits if_splits)

lemma connect_step_keeps [keeps_store]: "connect_internet e lb ns w = Some (c, w') \<Longrightarrow> w_store w' = w_store w"
  using connect_all_store [of e "meta_name (lab_meta lb)" ns w] by (auto simp: connect_internet_def split: if_splits)

lemma control_step_keeps [keeps_store]: "control_step e ns ls w = Some (c, w') \<Longrightarrow> w_store w' = w_store w"
  by (auto simp: control_step_def split: option.splits)

lemma data_step_keeps [keeps_store]: "data_step e ns w = Some (c, w') \<Longrightarrow> w_store w' = w_store w"
  by (auto simp: data_step_def Let_def)

lemma install_step_keeps [keeps_store]: "install_step e j w = Some (c, w') \<Longrightarrow> w_store w' = w_store w"
  using call_until_error_store [of "[(CallInstallCapture (map node_name (scope_of j)), e_install e (scope_of j))]" w] by (simp add: install_step_def)

lemma restore_step_keeps [keeps_store]: "restore_step e j w = Some (c, w') \<Longrightarrow> w_store w' = w_store w"
  using call_until_error_store [of "[(CallRestorePrograms (map node_name (scope_of j)), e_restore e (scope_of j))]" w] by (simp add: restore_step_def)

definition saved_snapshot :: "apply_job \<Rightarrow> snapshot" where
  "saved_snapshot j = \<lparr>sn_lab = j_lab j, sn_nodes = j_nodes j, sn_links = j_links j\<rparr>"

abbreviation job_lab :: "apply_job \<Rightarrow> string" where "job_lab j \<equiv> meta_id (lab_meta (j_lab j))"

lemma save_generation_plain:
  assumes "t_io s = []"
  obtains s' where "save_generation now lid g sn s = (Inr (), s')" "t_io s' = []"
proof (rule that)
  show "save_generation now lid g sn s = (Inr (), snd (save_generation now lid g sn s))"
    using assms by (simp add: save_generation_def sbind_def db_call_def)
  show "t_io (snd (save_generation now lid g sn s)) = []"
    using assms by (simp add: save_generation_def sbind_def db_call_def)
qed

text \<open>With a database without faults, the steps change the generations only, and a run that succeeds has saved its own.\<close>

lemma apply_steps_store:
  assumes "run_actions (apply_steps e j) w = Some (cs, failed, w')" "t_io (w_store w) = []"
  obtains "failed \<noteq> None" "w_store w' = w_store w"
  | "save_generation (e_now e) (job_lab j) (new_generation (j_plan j)) (saved_snapshot j) (w_store w) = (Inr (), w_store w')" "t_io (w_store w') = []"
proof -
  let ?pre = "take 3 (apply_steps e j)" and ?post = "drop 4 (apply_steps e j)"
  have parts: "apply_steps e j = ?pre @ (step ''SaveGeneration'' 0, save_step e j) # ?post" by (simp add: apply_steps_def)
  have keep: "list_all (\<lambda>(s, a). \<forall>w c w'. a w = Some (c, w') \<longrightarrow> w_store w' = w_store w) ?pre"
    "list_all (\<lambda>(s, a). \<forall>w c w'. a w = Some (c, w') \<longrightarrow> w_store w' = w_store w) ?post"
    by (auto simp: apply_steps_def dest: keeps_store)
  obtain cs1 f1 w1 where pre: "run_actions ?pre w = Some (cs1, f1, w1)"
    using assms(1) by (subst (asm) parts) (auto simp: run_actions_append split: option.splits)
  have s1: "w_store w1 = w_store w" using run_actions_store [OF keep(1) pre] .
  show thesis
  proof (cases f1)
    case (Some m)
    then have "failed = Some m" "w' = w1" using assms(1) pre by (subst (asm) parts, simp add: run_actions_append)+
    then show thesis using that(1) s1 by simp
  next
    case None
    obtain s2 where s2: "save_generation (e_now e) (job_lab j) (new_generation (j_plan j)) (saved_snapshot j) (w_store w1) = (Inr (), s2)" "t_io s2 = []"
      using save_generation_plain assms(2) s1 by metis
    have sv: "save_step e j w1 = Some (([], None), w1\<lparr>w_store := s2\<rparr>)"
      using s2 by (simp add: save_step_def saved_snapshot_def)
    obtain ds f2 where "run_actions ?post (w1\<lparr>w_store := s2\<rparr>) = Some (ds, f2, w')"
      using assms(1) pre None sv by (subst (asm) parts) (auto simp: run_actions_append split: option.splits)
    from run_actions_store [OF keep(2) this] show thesis using that(2) s2 s1 by simp
  qed
qed

section \<open>Marking the nodes\<close>

definition marked_rows :: "nat \<Rightarrow> int \<Rightarrow> string set \<Rightarrow> node row list \<Rightarrow> node row list" where
  "marked_rows now g ids t = map (\<lambda>r. if row_id r \<in> ids then r\<lparr>row_doc := touch_node now (running_node g (row_doc r))\<rparr> else r) t"

lemma node_id_running [simp]: "node_id (running_node g n) = node_id n" "node_id (touch_node now n) = node_id n"
  by (simp_all add: running_node_def touch_node_def)

lemma mark_one:
  assumes "t_io s = []" "list_ex (\<lambda>r. row_id r = node_id n) (t_nodes s)"
  shows "mark_node now g s n = s\<lparr>t_io := [], t_nodes := map (\<lambda>r. if row_id r = node_id n then r\<lparr>row_doc := touch_node now (running_node g n)\<rparr> else r) (t_nodes s)\<rparr>"
  using assms by (simp add: mark_node_def logged_def update_node_def db_call_def update_doc_def)

lemma stored_id: "list_ex (\<lambda>r. row_id r = i) t \<longleftrightarrow> i \<in> set (map row_id t)"
  by (auto simp: list_ex_iff)

lemma marked_ids: "map row_id (marked_rows now g ids t) = map row_id t"
  by (simp add: marked_rows_def)

lemma mark_nodes:
  assumes "t_io s = []" "table_ok (t_nodes s)" "\<And>n. n \<in> set ns \<Longrightarrow> \<exists>r \<in> set (t_nodes s). row_id r = node_id n \<and> row_doc r = n" "distinct (map node_id ns)"
  shows "t_nodes (foldl (mark_node now g) s ns) = marked_rows now g (node_id ` set ns) (t_nodes s) \<and> t_io (foldl (mark_node now g) s ns) = [] \<and>
    t_labs (foldl (mark_node now g) s ns) = t_labs s \<and> t_plans (foldl (mark_node now g) s ns) = t_plans s \<and>
    t_gens (foldl (mark_node now g) s ns) = t_gens s \<and> t_links (foldl (mark_node now g) s ns) = t_links s"
  using assms(3,4)
proof (induction ns rule: rev_induct)
  case Nil
  then show ?case using assms(1) by (simp add: marked_rows_def)
next
  case (snoc n ns)
  let ?s = "foldl (mark_node now g) s ns"
  have ih: "t_nodes ?s = marked_rows now g (node_id ` set ns) (t_nodes s)" "t_io ?s = []" "t_labs ?s = t_labs s" "t_plans ?s = t_plans s"
    "t_gens ?s = t_gens s" "t_links ?s = t_links s"
    using snoc by auto
  obtain r where r: "r \<in> set (t_nodes s)" "row_id r = node_id n" "row_doc r = n" using snoc.prems(1) by auto
  have fresh: "node_id n \<notin> node_id ` set ns" using snoc.prems(2) by auto
  have u: "x = r" if "x \<in> set (t_nodes s)" "row_id x = node_id n" for x
    using assms(2) that r by (auto simp: table_ok_def distinct_map inj_on_def)
  have "node_id n \<in> set (map row_id (t_nodes s))" using r by force
  then have "list_ex (\<lambda>r. row_id r = node_id n) (t_nodes ?s)"
    unfolding ih(1) stored_id marked_ids .
  note one = mark_one [OF ih(2) this, of now g]
  have "t_nodes (mark_node now g ?s n) =
      map (\<lambda>r. if row_id r = node_id n then r\<lparr>row_doc := touch_node now (running_node g n)\<rparr> else r) (marked_rows now g (node_id ` set ns) (t_nodes s))"
    by (simp only: one ih(1)) simp
  also have "\<dots> = marked_rows now g (node_id ` set (ns @ [n])) (t_nodes s)"
    unfolding marked_rows_def map_map
  proof (rule map_cong [OF refl])
    fix x
    assume x: "x \<in> set (t_nodes s)"
    show "((\<lambda>r. if row_id r = node_id n then r\<lparr>row_doc := touch_node now (running_node g n)\<rparr> else r) \<circ>
        (\<lambda>r. if row_id r \<in> node_id ` set ns then r\<lparr>row_doc := touch_node now (running_node g (row_doc r))\<rparr> else r)) x =
      (if row_id x \<in> node_id ` set (ns @ [n]) then x\<lparr>row_doc := touch_node now (running_node g (row_doc x))\<rparr> else x)"
    proof (cases "row_id x = node_id n")
      case True
      then show ?thesis using u [OF x True] r fresh by simp
    qed simp
  qed
  finally show ?case using ih one by simp
qed

lemma list_docs_marked:
  assumes "list_all (\<lambda>r. row_id r = node_id (row_doc r)) t"
  shows "list_docs l (marked_rows now g (node_id ` set (list_docs l t)) t) = map (\<lambda>n. touch_node now (running_node g n)) (list_docs l t)"
  unfolding marked_rows_def
proof (rule list_docs_update)
  fix r
  assume r: "r \<in> set t" "row_scope r = l"
  then have "row_doc r \<in> set (list_docs l t)" by (auto simp: list_docs_def)
  moreover have "row_id r = node_id (row_doc r)" using assms r by (auto simp: list_all_iff)
  ultimately show "row_doc (if row_id r \<in> node_id ` set (list_docs l t) then r\<lparr>row_doc := touch_node now (running_node g (row_doc r))\<rparr> else r) =
      touch_node now (running_node g (row_doc r))" by auto
qed auto

lemma listed_rows: "n \<in> set (list_docs l t) \<Longrightarrow> list_all (\<lambda>r. row_id r = node_id (row_doc r)) t \<Longrightarrow> \<exists>r \<in> set t. row_id r = node_id n \<and> row_doc r = n"
  by (auto simp: list_docs_def list_all_iff)

lemma listed_distinct:
  assumes "table_ok t" "list_all (\<lambda>r. row_id r = node_id (row_doc r)) t"
  shows "distinct (map node_id (list_docs l t))"
proof -
  let ?rows = "sort_key row_name (filter (\<lambda>r. row_scope r = l) t)"
  have "map node_id (list_docs l t) = map row_id ?rows" using assms(2) by (auto simp: list_docs_def list_all_iff)
  moreover have "distinct t" "inj_on row_id (set t)" using assms(1) by (simp_all add: table_ok_def distinct_map)
  then have "distinct (map row_id ?rows)" by (auto simp: distinct_map intro: inj_on_subset)
  ultimately show ?thesis by simp
qed

section \<open>Requests keep the store\<close>

lemma store_ok_put_lab:
  assumes "store_ok s" "get_doc (meta_id (lab_meta lb)) (t_labs s) = Inr old" "meta_name (lab_meta old) = meta_name (lab_meta lb)"
  shows "store_ok (s\<lparr>t_io := io, t_labs := put_lab now lb (t_labs s)\<rparr>)"
  using assms put_lab_table put_lab_rows by (auto simp: store_ok_def)

lemma stored_lab_id: "list_all lab_row_ok t \<Longrightarrow> get_doc i t = Inr lb \<Longrightarrow> meta_id (lab_meta lb) = i"
  by (auto dest!: get_doc_row simp: list_all_iff lab_row_ok_def)

lemma apply_plan_accepted:
  assumes "apply_plan d now pid s = (Inr j, s1)" "store_ok s" "t_io s = []"
  shows "store_ok s1" "t_io s1 = []" "get_doc (job_lab j) (t_labs s1) = Inr (j_lab j)" "plan_lab (j_plan j) = job_lab j"
    "get_doc pid (t_plans s1) = Inr (j_plan j)" "plan_id (j_plan j) = pid" "plan_state (j_plan j) = PlanPending"
    "generation (lab_meta (j_lab j)) = base_generation (j_plan j)"
    "j_nodes j = list_docs (job_lab j) (t_nodes s1)" "j_links j = list_docs (job_lab j) (t_links s1)"
    "j_base j = (if 0 < base_generation (j_plan j) then Some (sum.projr (find_generation (job_lab j) (base_generation (j_plan j)) (t_gens s1))) else None)"
    "0 < base_generation (j_plan j) \<Longrightarrow> base_generation (j_plan j) \<in> set (numbers_of (job_lab j) (t_gens s1))"
    "t_nodes s1 = t_nodes s" "t_links s1 = t_links s" "t_gens s1 = t_gens s" "t_plans s1 = t_plans s"
proof -
  obtain lb k where lb: "get_doc pid (t_plans s) = Inr (j_plan j)" "plan_state (j_plan j) = PlanPending"
    "get_doc (plan_lab (j_plan j)) (t_labs s) = Inr lb" "generation (lab_meta lb) = base_generation (j_plan j)"
    "j_lab j = touch_lab now (lb\<lparr>lab_meta := (lab_meta lb)\<lparr>phase := PhaseApplying\<rparr>\<rparr>)"
    "j_nodes j = list_docs (meta_id (lab_meta lb)) (t_nodes s)" "j_links j = list_docs (meta_id (lab_meta lb)) (t_links s)"
    "j_base j = (if 0 < base_generation (j_plan j) then Some (sum.projr (find_generation (meta_id (lab_meta lb)) (base_generation (j_plan j)) (t_gens s))) else None)"
    "0 < base_generation (j_plan j) \<Longrightarrow> base_generation (j_plan j) \<in> set (numbers_of (meta_id (lab_meta lb)) (t_gens s))"
    and s1: "s1 = s\<lparr>t_io := drop k (t_io s), t_labs := put_lab now (lb\<lparr>lab_meta := (lab_meta lb)\<lparr>phase := PhaseApplying\<rparr>\<rparr>) (t_labs s)\<rparr>"
    using assms(1) by (rule apply_plan_request) blast
  let ?lb = "lb\<lparr>lab_meta := (lab_meta lb)\<lparr>phase := PhaseApplying\<rparr>\<rparr>"
  have i: "meta_id (lab_meta lb) = plan_lab (j_plan j)" using stored_lab_id [OF _ lb(3)] assms(2) by (simp add: store_ok_def)
  have jl: "job_lab j = plan_lab (j_plan j)" using lb(5) i by (simp add: touch_lab_def)
  obtain r where r: "r \<in> set (t_labs s)" "row_id r = plan_lab (j_plan j)" using get_doc_row [OF lb(3)] by auto
  show "store_ok s1" unfolding s1 by (rule store_ok_put_lab [OF assms(2), of _ lb]) (use lb(3) i in simp_all)
  have "get_doc (plan_lab (j_plan j)) (t_labs s1) = Inr (touch_lab now ?lb)" using r i by (simp add: s1 get_put_lab rev_image_eqI)
  then show "get_doc (job_lab j) (t_labs s1) = Inr (j_lab j)" unfolding jl using lb(5) by simp
  show "plan_id (j_plan j) = pid" using get_doc_row [OF lb(1)] assms(2) by (auto simp: store_ok_def list_all_iff)
  show "j_base j = (if 0 < base_generation (j_plan j) then Some (sum.projr (find_generation (job_lab j) (base_generation (j_plan j)) (t_gens s1))) else None)"
    using lb(8) by (simp add: s1 i jl)
  show "base_generation (j_plan j) \<in> set (numbers_of (job_lab j) (t_gens s1))" if "0 < base_generation (j_plan j)"
    using lb(9) that by (simp add: s1 i jl)
  show "t_io s1 = []" "t_nodes s1 = t_nodes s" "t_links s1 = t_links s" "t_gens s1 = t_gens s" "t_plans s1 = t_plans s"
    using assms(3) by (simp_all add: s1)
  show "plan_lab (j_plan j) = job_lab j" "get_doc pid (t_plans s1) = Inr (j_plan j)" "plan_state (j_plan j) = PlanPending"
    "j_nodes j = list_docs (job_lab j) (t_nodes s1)" "j_links j = list_docs (job_lab j) (t_links s1)"
    using lb(1,2,6,7) i jl by (simp_all add: s1)
  show "generation (lab_meta (j_lab j)) = base_generation (j_plan j)" using lb(4,5) by (simp add: touch_lab_def)
qed

section \<open>What a run leaves behind\<close>

lemma run_apply_parts:
  assumes "run_apply e j w = Some (failed, tr, w')"
  obtains cs w1 where "run_actions (apply_steps e j) w = Some (cs, failed, w1)" "w_store w' = apply_done e j failed (w_store w1)"
    "\<exists>x y. run_op (e_clock e) (j_op j) cs = (x, y, tr)" "w_calls w' = w_calls w1" "w_files w' = w_files w1"
  using assms by (auto simp: run_apply_def split: option.splits prod.splits)

text \<open>The store as the closing callback finds it: only the generations have moved.\<close>

definition only_gens_moved :: "store \<Rightarrow> store \<Rightarrow> bool" where
  "only_gens_moved s s' \<longleftrightarrow> t_labs s' = t_labs s \<and> t_nodes s' = t_nodes s \<and> t_links s' = t_links s \<and> t_plans s' = t_plans s \<and>
     t_io s' = [] \<and> keys_ok (t_gens s')"

lemma apply_steps_moved:
  assumes "run_actions (apply_steps e j) w = Some (cs, failed, w')" "t_io (w_store w) = []" "keys_ok (t_gens (w_store w))"
  shows "only_gens_moved (w_store w) (w_store w') \<and>
    (t_gens (w_store w') = t_gens (w_store w) \<and> failed \<noteq> None \<or>
     save_generation (e_now e) (job_lab j) (new_generation (j_plan j)) (saved_snapshot j) (w_store w) = (Inr (), w_store w'))"
proof (rule apply_steps_store [OF assms(1,2)])
  assume "save_generation (e_now e) (job_lab j) (new_generation (j_plan j)) (saved_snapshot j) (w_store w) = (Inr (), w_store w')" "t_io (w_store w') = []"
  then show ?thesis
    using save_generation_done [of "e_now e" "job_lab j" "new_generation (j_plan j)" "saved_snapshot j" "w_store w" "()" "w_store w'"] assms(3)
    by (simp add: only_gens_moved_def prune_generations_ok put_generation_ok)
qed (use assms in \<open>simp add: only_gens_moved_def\<close>)

lemma desc_front:
  assumes "finite S" "(x :: int) \<in> S" "card {y \<in> S. x < y} < k"
  shows "x \<in> set (take k (rev (sorted_list_of_set S)))"
proof -
  let ?xs = "rev (sorted_list_of_set S)"
  obtain i where i: "i < length ?xs" "?xs ! i = x" using assms(1,2) by (metis in_set_conv_nth set_rev set_sorted_list_of_set)
  have d: "distinct ?xs" and s: "sorted (rev ?xs)" by simp_all
  have gt: "x < ?xs ! j" if "j < i" for j
  proof -
    have "?xs ! i \<le> ?xs ! j" by (rule sorted_rev_nth_mono [OF s]) (use i that in simp_all)
    moreover have "?xs ! i \<noteq> ?xs ! j" using nth_eq_iff_index_eq [OF d, of i j] i that by simp
    ultimately show ?thesis using i(2) by simp
  qed
  have "(\<lambda>j. ?xs ! j) ` {..<i} \<subseteq> {y \<in> S. x < y}"
  proof
    fix y
    assume "y \<in> (\<lambda>j. ?xs ! j) ` {..<i}"
    then obtain k where k: "k < i" "y = ?xs ! k" by auto
    then have "y \<in> set ?xs" using i(1) by (simp only: k(2)) (rule nth_mem, simp)
    then show "y \<in> {y \<in> S. x < y}" using gt [OF k(1)] k(2) assms(1) by simp
  qed
  then have "card ((\<lambda>j. ?xs ! j) ` {..<i}) \<le> card {y \<in> S. x < y}" using assms(1) by (intro card_mono) auto
  moreover have "card ((\<lambda>j. ?xs ! j) ` {..<i}) = i"
    using d i(1) by (subst card_image) (auto simp: inj_on_def nth_eq_iff_index_eq)
  ultimately have "i < k" using assms(3) by simp
  then have "take k ?xs ! i = x" "i < length (take k ?xs)" using i by auto
  then show ?thesis by (metis nth_mem)
qed

lemma kept_base:
  assumes "list_all (\<lambda>i. i \<le> g + 1) (numbers_of lid t)" "g \<in> set (numbers_of lid t)"
  shows "g \<in> set (kept_numbers lid (g + 1) t)" "g + 1 \<in> set (kept_numbers lid (g + 1) t)"
proof -
  let ?S = "insert (g + 1) (set (numbers_of lid t))"
  have "{y \<in> ?S. g < y} \<subseteq> {g + 1}" and none: "{y \<in> ?S. g + 1 < y} = {}" using assms(1) by (force simp: list_all_iff)+
  then have "card {y \<in> ?S. g < y} \<le> 1" using card_mono [of "{g + 1}" "{y \<in> ?S. g < y}"] by simp
  then show "g \<in> set (kept_numbers lid (g + 1) t)"
    unfolding kept_numbers_def using assms(2) by (intro desc_front) auto
  show "g + 1 \<in> set (kept_numbers lid (g + 1) t)"
    unfolding kept_numbers_def
  proof (rule desc_front)
    show "card {y \<in> ?S. g + 1 < y} < 10" unfolding none by simp
  qed simp_all
qed

lemma kept_newest:
  assumes "list_all (\<lambda>i. i \<le> g) (numbers_of lid t)"
  shows "g \<in> set (kept_numbers lid g t)"
proof -
  have none: "{y \<in> insert g (set (numbers_of lid t)). g < y} = {}" using assms by (auto simp: list_all_iff)
  show ?thesis unfolding kept_numbers_def
  proof (rule desc_front)
    show "card {y \<in> insert g (set (numbers_of lid t)). g < y} < 10" unfolding none by simp
  qed simp_all
qed

lemma update_plan_plain:
  assumes "t_io s = []" "get_doc (plan_id p) (t_plans s) = Inr old"
  shows "t_labs (logged (update_plan p) s) = t_labs s" "t_nodes (logged (update_plan p) s) = t_nodes s" "t_links (logged (update_plan p) s) = t_links s"
    "t_gens (logged (update_plan p) s) = t_gens s" "t_io (logged (update_plan p) s) = []"
    "get_doc q (t_plans (logged (update_plan p) s)) = (if q = plan_id p then Inr p else get_doc q (t_plans s))"
proof -
  obtain t where t: "update_doc (plan_id p) p (t_plans s) = Inr t" using rows.put_stored [OF assms(2)] by blast
  have l: "logged (update_plan p) s = s\<lparr>t_io := [], t_plans := t\<rparr>"
    using assms(1) t by (simp add: logged_def update_plan_def db_call_def)
  show "t_labs (logged (update_plan p) s) = t_labs s" "t_nodes (logged (update_plan p) s) = t_nodes s" "t_links (logged (update_plan p) s) = t_links s"
    "t_gens (logged (update_plan p) s) = t_gens s" "t_io (logged (update_plan p) s) = []"
    "get_doc q (t_plans (logged (update_plan p) s)) = (if q = plan_id p then Inr p else get_doc q (t_plans s))"
    unfolding l using rows.get_put_eq [OF t, of q] by simp_all
qed

lemma update_lab_plain:
  assumes "store_ok s" "t_io s = []" "get_doc (meta_id (lab_meta lb)) (t_labs s) = Inr old" "meta_name (lab_meta old) = meta_name (lab_meta lb)"
  shows "logged (update_lab now lb) s = s\<lparr>t_io := [], t_labs := put_lab now lb (t_labs s)\<rparr>" (is ?eq)
    "get_doc (meta_id (lab_meta lb)) (t_labs (logged (update_lab now lb) s)) = Inr (touch_lab now lb)"
proof -
  show eq: ?eq using update_lab_succeeds [OF assms(2) _ _ assms(3,4), of now] assms(1) by (simp add: logged_def store_ok_def)
  show "get_doc (meta_id (lab_meta lb)) (t_labs (logged (update_lab now lb) s)) = Inr (touch_lab now lb)"
    unfolding eq using get_doc_row [OF assms(3)] by (force simp: get_put_lab)
qed

lemma store_ok_moved: "store_ok s \<Longrightarrow> only_gens_moved s s' \<Longrightarrow> store_ok s'"
  by (simp add: store_ok_def only_gens_moved_def)

lemma failed_lab_meta [simp]: "meta_id (lab_meta (fail_lab c now m lb)) = meta_id (lab_meta lb)" "meta_name (lab_meta (fail_lab c now m lb)) = meta_name (lab_meta lb)"
  "generation (lab_meta (fail_lab c now m lb)) = generation (lab_meta lb)" "phase (lab_meta (fail_lab c now m lb)) = PhaseFailed"
  by (simp_all add: fail_lab_def)

lemma applied_lab_meta [simp]: "meta_id (lab_meta (applied_lab g lb)) = meta_id (lab_meta lb)" "meta_name (lab_meta (applied_lab g lb)) = meta_name (lab_meta lb)"
  "generation (lab_meta (applied_lab g lb)) = g" "phase (lab_meta (applied_lab g lb)) = PhaseRunning"
  by (simp_all add: applied_lab_def)

lemma touched_lab_meta [simp]: "meta_id (lab_meta (touch_lab now lb)) = meta_id (lab_meta lb)" "meta_name (lab_meta (touch_lab now lb)) = meta_name (lab_meta lb)"
  "generation (lab_meta (touch_lab now lb)) = generation (lab_meta lb)" "phase (lab_meta (touch_lab now lb)) = phase (lab_meta lb)"
  by (simp_all add: touch_lab_def)

lemma apply_run_failed:
  assumes "store_ok s" "t_io s = []" "apply_plan d now pid s = (Inr j, w_store w)" "run_apply e j w = Some (Some m, tr, w')"
  obtains s2 where "only_gens_moved (w_store w) s2" "store_ok s2"
    "t_gens s2 = t_gens s \<or> save_generation (e_now e) (job_lab j) (new_generation (j_plan j)) (saved_snapshot j) (w_store w) = (Inr (), s2)"
    "w_store w' = s2\<lparr>t_io := [], t_labs := put_lab (e_now e) (fail_lab ''APPLY_FAILED'' (e_now e) m (j_lab j)) (t_labs s2)\<rparr>" "store_ok (w_store w')"
    "get_doc (job_lab j) (t_labs (w_store w')) = Inr (touch_lab (e_now e) (fail_lab ''APPLY_FAILED'' (e_now e) m (j_lab j)))"
proof -
  note acc = apply_plan_accepted [OF assms(3,1,2)]
  obtain cs w1 where run: "run_actions (apply_steps e j) w = Some (cs, Some m, w1)" and fin: "w_store w' = apply_done e j (Some m) (w_store w1)"
    using assms(4) by (rule run_apply_parts)
  have mv: "only_gens_moved (w_store w) (w_store w1)" and sv: "t_gens (w_store w1) = t_gens (w_store w) \<or>
      save_generation (e_now e) (job_lab j) (new_generation (j_plan j)) (saved_snapshot j) (w_store w) = (Inr (), w_store w1)"
    using apply_steps_moved [OF run acc(2)] acc(1) by (auto simp: store_ok_def)
  have ok: "store_ok (w_store w1)" using store_ok_moved [OF acc(1) mv] .
  let ?lb = "fail_lab ''APPLY_FAILED'' (e_now e) m (j_lab j)"
  have lab: "get_doc (meta_id (lab_meta ?lb)) (t_labs (w_store w1)) = Inr (j_lab j)" "t_io (w_store w1) = []"
    using acc(3) mv by (simp_all add: only_gens_moved_def)
  have st: "w_store w' = logged (update_lab (e_now e) ?lb) (w_store w1)" using fin by (simp add: apply_done_def Let_def)
  note up = update_lab_plain [OF ok lab(2,1), of "e_now e"]
  have st': "w_store w' = (w_store w1)\<lparr>t_io := [], t_labs := put_lab (e_now e) ?lb (t_labs (w_store w1))\<rparr>" using up(1) st by simp
  show thesis
  proof (rule that [OF mv ok _ st'])
    show "store_ok (w_store w')" unfolding st' by (rule store_ok_put_lab [OF ok lab(1)]) simp
    show "get_doc (job_lab j) (t_labs (w_store w')) = Inr (touch_lab (e_now e) ?lb)" using up(2) st by simp
  qed (use sv acc(15) in auto)
qed

lemma apply_run_done:
  assumes "store_ok s" "t_io s = []" "apply_plan d now pid s = (Inr j, w_store w)" "run_apply e j w = Some (None, tr, w')"
    and "list_all (\<lambda>i. i \<le> new_generation (j_plan j)) (numbers_of (job_lab j) (t_gens s))"
  shows "get_doc (job_lab j) (t_labs (w_store w')) = Inr (touch_lab (e_now e) (applied_lab (new_generation (j_plan j)) (j_lab j)))"
    "get_doc q (t_plans (w_store w')) = (if q = pid then Inr ((j_plan j)\<lparr>plan_state := PlanApplied\<rparr>) else get_doc q (t_plans s))"
    "find_generation (job_lab j) (new_generation (j_plan j)) (t_gens (w_store w')) = Inr (saved_snapshot j)"
    "list_docs (job_lab j) (t_nodes (w_store w')) = map (\<lambda>n. touch_node (e_now e) (running_node (new_generation (j_plan j)) n)) (j_nodes j)"
    "t_io (w_store w') = []"
proof -
  note acc = apply_plan_accepted [OF assms(3,1,2)]
  obtain cs w1 where run: "run_actions (apply_steps e j) w = Some (cs, None, w1)" and fin: "w_store w' = apply_done e j None (w_store w1)"
    using assms(4) by (rule run_apply_parts)
  have mv: "only_gens_moved (w_store w) (w_store w1)" and sv: "save_generation (e_now e) (job_lab j) (new_generation (j_plan j)) (saved_snapshot j) (w_store w) = (Inr (), w_store w1)"
    using apply_steps_moved [OF run acc(2)] acc(1) by (auto simp: store_ok_def)
  have ok: "store_ok (w_store w1)" using store_ok_moved [OF acc(1) mv] .
  let ?g = "new_generation (j_plan j)" and ?p = "(j_plan j)\<lparr>plan_state := PlanApplied\<rparr>"
  define s2 where "s2 = logged (update_plan ?p) (w_store w1)"
  define s3 where "s3 = foldl (mark_node (e_now e) ?g) s2 (j_nodes j)"
  have "get_doc (plan_id ?p) (t_plans (w_store w1)) = Inr (j_plan j)" using mv acc(5,6) by (simp add: only_gens_moved_def)
  note up = update_plan_plain [OF _ this, folded s2_def]
  have io1: "t_io (w_store w1) = []" using mv by (simp add: only_gens_moved_def)
  have nodes: "t_nodes s2 = t_nodes s" using up(2) [OF io1] mv acc(13) by (simp add: only_gens_moved_def)
  have jn: "j_nodes j = list_docs (job_lab j) (t_nodes s)" using acc(9,13) by simp
  have s3: "t_nodes s3 = marked_rows (e_now e) ?g (node_id ` set (j_nodes j)) (t_nodes s)" "t_io s3 = []" "t_labs s3 = t_labs (w_store w)"
      "t_plans s3 = t_plans s2" "t_gens s3 = t_gens (w_store w1)"
    using mark_nodes [of s2 "j_nodes j" "e_now e" ?g, folded s3_def] up [OF io1] nodes assms(1) listed_rows [of _ "job_lab j" "t_nodes s"]
      listed_distinct [of "t_nodes s" "job_lab j"] mv by (simp_all add: jn store_ok_def only_gens_moved_def)
  let ?lb = "applied_lab ?g (j_lab j)"
  have fin': "w_store w' = logged (update_lab (e_now e) ?lb) s3" using fin by (simp add: apply_done_def Let_def s2_def s3_def)
  have "update_lab (e_now e) ?lb s3 = (Inr (), s3\<lparr>t_io := [], t_labs := put_lab (e_now e) ?lb (t_labs s3)\<rparr>)"
    using update_lab_succeeds [of s3 ?lb "j_lab j" "e_now e"] acc(1,3) s3 by (simp add: store_ok_def)
  then have w': "w_store w' = s3\<lparr>t_io := [], t_labs := put_lab (e_now e) ?lb (t_labs s3)\<rparr>" using fin' by (simp add: logged_def)
  have "get_doc (meta_id (lab_meta ?lb)) (put_lab (e_now e) ?lb (t_labs s3)) = Inr (touch_lab (e_now e) ?lb)"
    using get_doc_row [OF acc(3)] s3(3) by (force simp: get_put_lab)
  then show "get_doc (job_lab j) (t_labs (w_store w')) = Inr (touch_lab (e_now e) ?lb)" by (simp add: w')
  show "get_doc q (t_plans (w_store w')) = (if q = pid then Inr ?p else get_doc q (t_plans s))"
    using up(6) [OF io1, of q] s3(4) mv acc(6,16) by (simp add: w' only_gens_moved_def)
  show "list_docs (job_lab j) (t_nodes (w_store w')) = map (\<lambda>n. touch_node (e_now e) (running_node ?g n)) (j_nodes j)"
    using list_docs_marked [of "t_nodes s" "job_lab j" "e_now e" ?g] assms(1) by (simp add: w' s3(1) jn store_ok_def)
  have "keys_ok (t_gens (w_store w))" using acc(1) by (simp add: store_ok_def)
  from saved_generations [OF this sv, of "job_lab j" ?g] kept_newest [OF assms(5)] acc(15)
  show "find_generation (job_lab j) ?g (t_gens (w_store w')) = Inr (saved_snapshot j)" by (simp add: w' s3(5))
  show "t_io (w_store w') = []" by (simp add: w')
qed

section \<open>Requests that are accepted\<close>

lemma read_plain:
  "t_io s = [] \<Longrightarrow> get_doc i (t_plans s) = Inr p \<Longrightarrow> get_plan i s = (Inr p, s\<lparr>t_io := []\<rparr>)"
  "t_io s = [] \<Longrightarrow> get_doc i (t_labs s) = Inr lb \<Longrightarrow> get_lab i s = (Inr lb, s\<lparr>t_io := []\<rparr>)"
  "t_io s = [] \<Longrightarrow> list_nodes i s = (Inr (list_docs i (t_nodes s)), s\<lparr>t_io := []\<rparr>)"
  "t_io s = [] \<Longrightarrow> list_links i s = (Inr (list_docs i (t_links s)), s\<lparr>t_io := []\<rparr>)"
  "t_io s = [] \<Longrightarrow> create_operation op s = (Inr op, s\<lparr>t_io := []\<rparr>)"
  "t_io s = [] \<Longrightarrow> find_generation i g (t_gens s) = Inr sn \<Longrightarrow> load_generation i g s = (Inr sn, s\<lparr>t_io := []\<rparr>)"
  by (simp_all add: read_ok load_generation_ok)

lemma load_snapshot_plain:
  assumes "t_io s = []" "0 < g \<Longrightarrow> g \<in> set (numbers_of l (t_gens s))"
  shows "\<exists>s'. load_snapshot l g s = (Inr (if 0 < g then Some (sum.projr (find_generation l g (t_gens s))) else None), s') \<and>
    t_io s' = [] \<and> t_labs s' = t_labs s"
proof (cases "0 < g")
  case True
  then have "find_generation l g (t_gens s) \<noteq> Inl RowMissing" using assms(2) find_missing by auto
  then obtain sn where "find_generation l g (t_gens s) = Inr sn" by (auto simp: find_generation_def split: option.splits)
  then show ?thesis using True read_plain(6) [OF assms(1)] by (simp add: load_snapshot_def sbind_def slift_def)
qed (use assms(1) in \<open>simp add: load_snapshot_def slift_def\<close>)

lemma apply_plan_succeeds:
  assumes "store_ok s" "t_io s = []" "get_doc pid (t_plans s) = Inr p" "plan_state p = PlanPending" "get_doc (plan_lab p) (t_labs s) = Inr lb"
    and "generation (lab_meta lb) = base_generation p" "0 < base_generation p \<Longrightarrow> base_generation p \<in> set (numbers_of (plan_lab p) (t_gens s))"
  shows "\<exists>j s'. apply_plan d now pid s = (Inr j, s')"
proof -
  have i: "meta_id (lab_meta lb) = plan_lab p" using stored_lab_id [OF _ assms(5)] assms(1) by (simp add: store_ok_def)
  let ?s = "s\<lparr>t_io := []\<rparr>" and ?lb = "lb\<lparr>lab_meta := (lab_meta lb)\<lparr>phase := PhaseApplying\<rparr>\<rparr>"
  obtain s5 where s5: "load_snapshot (plan_lab p) (base_generation p) ?s =
      (Inr (if 0 < base_generation p then Some (sum.projr (find_generation (plan_lab p) (base_generation p) (t_gens ?s))) else None), s5)" "t_io s5 = []" "t_labs s5 = t_labs s"
    using load_snapshot_plain [of ?s "base_generation p" "plan_lab p"] assms(7) by auto
  have "\<exists>s'. update_lab now ?lb (s5\<lparr>t_io := []\<rparr>) = (Inr (), s')"
    using update_lab_succeeds [of "s5\<lparr>t_io := []\<rparr>" ?lb lb now] s5(3) assms(1,5) i by (simp add: store_ok_def)
  then obtain s7 where s7: "update_lab now ?lb (s5\<lparr>t_io := []\<rparr>) = (Inr (), s7)" by blast
  have "\<exists>j. apply_loaded d now pid p lb ?s = (Inr j, s7)"
    unfolding apply_loaded_def i using s5 s7 read_plain(3,4) [of ?s "plan_lab p"] read_plain(5) [OF s5(2)]
    by (simp add: sbind_def serr_def slift_def Let_def)
  then show ?thesis
    using read_plain(1) [OF assms(2,3)] read_plain(2) [of ?s "plan_lab p" lb] assms(4,5,6) by (auto simp: apply_plan_def sbind_def serr_def)
qed

end
