(* ===== verification/PlanFlow.thy ===== *)
theory PlanFlow
  imports PlanProps WireDemo
begin

text \<open>
  The properties of the change flow, and the lab they are evaluated on: a first plan of an external router and
  a DC edge with the link between them.
\<close>

section \<open>A small flow\<close>

definition flow_lab :: "int \<Rightarrow> lab" where
  "flow_lab g = \<lparr>lab_meta = (fresh_meta ''lab-1'' ''demo'')\<lparr>generation := g, phase := PhasePlanning\<rparr>,
     lab_spec = \<lparr>lab_profile = ProfileCustom, lab_topology = \<lparr>external_routers = 1, dc_edges = 1, super_spines = 1, pods = [], internet_access = False\<rparr>,
       lab_pools = [], lab_asns = []\<rparr>\<rparr>"

definition flow_plan :: "string \<Rightarrow> int \<Rightarrow> plan" where
  "flow_plan i g = \<lparr>plan_id = i, plan_lab = ''lab-1'', base_generation = g, new_generation = g + 1, plan_state = PlanPending,
     plan_ops = [], plan_allocs = [], plan_warnings = [], plan_created = 0\<rparr>"

definition flow_store :: store where
  "flow_store = \<lparr>t_labs = [\<lparr>row_id = ''lab-1'', row_scope = [], row_name = ''demo'', row_doc = flow_lab 0\<rparr>],
     t_nodes = [node_row ''lab-1'' wire_ext, node_row ''lab-1'' wire_edge],
     t_links = [link_row ''lab-1'' (wire_fabric ''l1'' wire_ext ''eth1'' wire_edge ''eth1'' 0)], t_allocs = [],
     t_plans = [plan_row (flow_plan ''plan-1'' 0), plan_row (flow_plan ''plan-2'' 0)], t_gens = [], t_programs = [], t_io = []\<rparr>"

definition flow_env :: "string option \<Rightarrow> env" where
  "flow_env deploy_error = \<lparr>e_driver = ''clab'', e_data_dir = ''data'', e_now = 7, e_clock = (\<lambda>_. 7), e_text = (\<lambda>_. ''failed''),
     e_marshal = ct_name, e_marshal_inc = inc_lab, e_os = \<lparr>mkdir_ok = (\<lambda>_. True), write_ok = (\<lambda>_. True)\<rparr>,
     e_order = (\<lambda>a. [(topology_file_name, art_topology a)]), e_ensure = (\<lambda>_. None), e_deploy = (\<lambda>_. ([1 / 2], deploy_error)),
     e_deploy_increment = (\<lambda>_. ([], None)), e_connect = (\<lambda>_ _. None), e_poll = (\<lambda>_ _ _. Inl ErrNotSupported), e_unmarshal = (\<lambda>_. Inr []),
     e_expired = (\<lambda>_. True), e_cancelled = (\<lambda>_. False), e_ping = (\<lambda>_ _ _. Inl ErrNotSupported), e_ping_cancelled = (\<lambda>_. False), e_pinged = 0,
     e_prune_traffic = (\<lambda>_ _. None), e_prune_programs = (\<lambda>_ _. None), e_prune_faults = (\<lambda>_ _ _. None), e_install = (\<lambda>_. None), e_restore = (\<lambda>_. None)\<rparr>"

definition flow_world :: "store \<Rightarrow> world" where
  "flow_world s = \<lparr>w_store = s, w_files = Map.empty, w_artifact = None, w_calls = []\<rparr>"

lemma flow_store_ok: "store_ok flow_store" "t_io flow_store = []"
  by code_simp+

lemma flow_accepted:
  obtains j w where "apply_plan (0, 0) 5 ''plan-1'' flow_store = (Inr j, w_store w)" "w = flow_world (w_store w)"
    "fst (apply_plan (0, 0) 5 ''plan-1'' flow_store) = Inr j"
proof -
  have "\<not> isl (fst (apply_plan (0, 0) 5 ''plan-1'' flow_store))" by code_simp
  then obtain j where "fst (apply_plan (0, 0) 5 ''plan-1'' flow_store) = Inr j" by (cases "fst (apply_plan (0, 0) 5 ''plan-1'' flow_store)") auto
  then show thesis
    using that [of j "flow_world (snd (apply_plan (0, 0) 5 ''plan-1'' flow_store))"] by (simp add: flow_world_def prod_eq_iff)
qed

definition flow_run :: "string option \<Rightarrow> (string option \<times> operation list \<times> world) option" where
  "flow_run err = (case apply_plan (0, 0) 5 ''plan-1'' flow_store of (Inl _, _) \<Rightarrow> None | (Inr j, s) \<Rightarrow> run_apply (flow_env err) j (flow_world s))"

declare control_loop.simps [code]

lemma flow_outcomes: "map_option fst (flow_run None) = Some None" "map_option fst (flow_run (Some ''boom'')) = Some (Some ''boom'')"
  by code_simp+

lemma flow_ran:
  obtains j w tr w' where "apply_plan (0, 0) 5 ''plan-1'' flow_store = (Inr j, w_store w)" "run_apply (flow_env None) j w = Some (None, tr, w')"
    "j_plan j = flow_plan ''plan-1'' 0" "numbers_of (job_lab j) (t_gens flow_store) = []"
proof -
  obtain j w where j: "apply_plan (0, 0) 5 ''plan-1'' flow_store = (Inr j, w_store w)" "w = flow_world (w_store w)" by (rule flow_accepted)
  have "flow_run None = run_apply (flow_env None) j w" using j(2) by (simp add: flow_run_def j(1))
  then obtain tr w' where "run_apply (flow_env None) j w = Some (None, tr, w')" using flow_outcomes(1) by (cases "flow_run None") auto
  moreover have "j_plan j = flow_plan ''plan-1'' 0"
    using apply_plan_accepted(5,16) [OF j(1) flow_store_ok] by (simp add: flow_store_def get_doc_def plan_row_def flow_plan_def)
  ultimately show thesis using that j(1) by (simp add: flow_store_def numbers_of_def)
qed

lemma flow_failed:
  obtains j w tr w' where "apply_plan (0, 0) 5 ''plan-1'' flow_store = (Inr j, w_store w)" "run_apply (flow_env (Some ''boom'')) j w = Some (Some ''boom'', tr, w')"
    "j_plan j = flow_plan ''plan-1'' 0" "numbers_of (job_lab j) (t_gens flow_store) = []"
proof -
  obtain j w where j: "apply_plan (0, 0) 5 ''plan-1'' flow_store = (Inr j, w_store w)" "w = flow_world (w_store w)" by (rule flow_accepted)
  have "flow_run (Some ''boom'') = run_apply (flow_env (Some ''boom'')) j w" using j(2) by (simp add: flow_run_def j(1))
  then obtain tr w' where "run_apply (flow_env (Some ''boom'')) j w = Some (Some ''boom'', tr, w')" using flow_outcomes(2) by (cases "flow_run (Some ''boom'')") auto
  moreover have "j_plan j = flow_plan ''plan-1'' 0"
    using apply_plan_accepted(5,16) [OF j(1) flow_store_ok] by (simp add: flow_store_def get_doc_def plan_row_def flow_plan_def)
  ultimately show thesis using that j(1) by (simp add: flow_store_def numbers_of_def)
qed

section \<open>Applying\<close>





end
