(* ===== verification/PlanRuns.thy ===== *)
theory PlanRuns
  imports PlanFlow
begin

text \<open>
  More on the runs of the change flow: a plan is applied once, an incremental apply never redeploys, and an apply
  returns when the validation's deadline passes.
\<close>

section \<open>Plans for another generation\<close>

text \<open>Once a plan has been applied it is refused a second time, and so is every other plan of the lab that
  was made for another generation than the new one, without a change to any table.\<close>
theorem generation_applied_once:
  assumes "store_ok s" "t_io s = []" "apply_plan d now pid s = (Inr j, w_store w)" "run_apply e j w = Some (None, tr, w')"
    and "list_all (\<lambda>i. i \<le> new_generation (j_plan j)) (numbers_of (job_lab j) (t_gens s))"
    and "get_doc q (t_plans s) = Inr p" "plan_lab p = job_lab j" "base_generation p \<noteq> new_generation (j_plan j)"
  shows "apply_plan d' now' q (w_store w') =
    (Inl (if q = pid then NotPending q PlanApplied else if plan_state p \<noteq> PlanPending then NotPending q (plan_state p)
          else StaleBase q (base_generation p) (new_generation (j_plan j))), (w_store w')\<lparr>t_io := []\<rparr>)"
proof -
  note dn = apply_run_done [OF assms(1-5)]
  have lb: "get_lab (job_lab j) ((w_store w')\<lparr>t_io := []\<rparr>) =
      (Inr (touch_lab (e_now e) (applied_lab (new_generation (j_plan j)) (j_lab j))), (w_store w')\<lparr>t_io := []\<rparr>)"
    using read_plain(2) [of "(w_store w')\<lparr>t_io := []\<rparr>"] dn(1) by simp
  show ?thesis
  proof (cases "q = pid")
    case True
    then have "get_plan q (w_store w') = (Inr ((j_plan j)\<lparr>plan_state := PlanApplied\<rparr>), (w_store w')\<lparr>t_io := []\<rparr>)"
      using read_plain(1) [OF dn(5)] dn(2) [of q] by simp
    then show ?thesis using True by (simp add: apply_plan_def sbind_def serr_def slift_def)
  next
    case False
    then have "get_plan q (w_store w') = (Inr p, (w_store w')\<lparr>t_io := []\<rparr>)"
      using read_plain(1) [OF dn(5)] dn(2) [of q] assms(6) by simp
    then show ?thesis using False lb assms(7,8) by (simp add: apply_plan_def sbind_def serr_def slift_def touch_lab_def applied_lab_def)
  qed
qed

theorem generation_applied_once_witness:
  "\<exists>j w tr w' s'. run_apply (flow_env None) j w = Some (None, tr, w') \<and>
     apply_plan (9, 9) 9 ''plan-2'' (w_store w') = (Inl (StaleBase ''plan-2'' 0 1), s')"
proof -
  obtain j w tr w' where r: "apply_plan (0, 0) 5 ''plan-1'' flow_store = (Inr j, w_store w)" "run_apply (flow_env None) j w = Some (None, tr, w')"
    "j_plan j = flow_plan ''plan-1'' 0" "numbers_of (job_lab j) (t_gens flow_store) = []" by (rule flow_ran)
  have p: "get_doc ''plan-2'' (t_plans flow_store) = Inr (flow_plan ''plan-2'' 0)" by (simp add: flow_store_def get_doc_def plan_row_def flow_plan_def)
  have "plan_lab (flow_plan ''plan-2'' 0) = job_lab j" using apply_plan_accepted(4) [OF r(1) flow_store_ok] r(3) by (simp add: flow_plan_def)
  note a = generation_applied_once [OF flow_store_ok r(1,2) _ p this, of "(9, 9)" 9]
  have "apply_plan (9, 9) 9 ''plan-2'' (w_store w') = (Inl (StaleBase ''plan-2'' 0 1), (w_store w')\<lparr>t_io := []\<rparr>)"
    using a r(3,4) by (simp add: flow_plan_def)
  then show ?thesis using r(2) by blast
qed

section \<open>What reaches the driver\<close>

fun is_deploy :: "driver_call \<Rightarrow> bool" where
  "is_deploy (CallDeploy _) = True"
| "is_deploy (CallDeployIncrement _) = True"
| "is_deploy _ = False"

definition deploys :: "world \<Rightarrow> driver_call list" where
  "deploys w = filter is_deploy (w_calls w)"

lemma deploys_call [simp]: "deploys (call c w) = deploys w @ (if is_deploy c then [c] else [])"
  by (simp add: deploys_def call_def)

lemma deploys_frame [simp]: "deploys (w\<lparr>w_store := s\<rparr>) = deploys w" "deploys (w\<lparr>w_files := d\<rparr>) = deploys w" "deploys (w\<lparr>w_artifact := a\<rparr>) = deploys w"
  by (simp_all add: deploys_def)

lemma ensure_images_deploys: "deploys (snd (ensure_images e is w)) = deploys w"
  by (induction e "is" w rule: ensure_images.induct) (auto split: option.splits)

lemma connect_all_deploys: "deploys (snd (connect_all e lab ns w)) = deploys w"
  by (induction e lab ns w rule: connect_all.induct) (auto simp: Let_def split: option.splits exec_error.splits)

named_theorems no_deploy \<open>a step asks the driver for no deployment\<close>

lemma step_deploys [no_deploy]:
  "ensure_images e is w = (c, w') \<Longrightarrow> deploys w' = deploys w"
  "compile_step e j w = Some (c, w') \<Longrightarrow> deploys w' = deploys w"
  "write_step e j w = Some (c, w') \<Longrightarrow> deploys w' = deploys w"
  "save_step e j w = Some (c, w') \<Longrightarrow> deploys w' = deploys w"
  "prune_step e j w = Some (c, w') \<Longrightarrow> deploys w' = deploys w"
  "connect_internet e lb ns w = Some (c, w') \<Longrightarrow> deploys w' = deploys w"
  "control_step e ns ls w = Some (c, w') \<Longrightarrow> deploys w' = deploys w"
  "data_step e ns w = Some (c, w') \<Longrightarrow> deploys w' = deploys w"
  "install_step e j w = Some (c, w') \<Longrightarrow> deploys w' = deploys w"
  "restore_step e j w = Some (c, w') \<Longrightarrow> deploys w' = deploys w"
  subgoal using ensure_images_deploys [of e "is" w] by simp
  subgoal by (auto simp: compile_step_def split: sum.splits)
  subgoal by (auto simp: write_step_def split: option.splits prod.splits)
  subgoal by (auto simp: save_step_def split: prod.splits sum.splits)
  subgoal by (auto simp: prune_step_def Let_def split: option.splits if_splits)
  subgoal using connect_all_deploys [of e "meta_name (lab_meta lb)" ns w] by (auto simp: connect_internet_def split: if_splits)
  subgoal by (auto simp: control_step_def split: option.splits)
  subgoal by (auto simp: data_step_def Let_def)
  subgoal by (auto simp: install_step_def split: option.splits)
  subgoal by (auto simp: restore_step_def split: option.splits)
  done

definition own_deploy :: "env \<Rightarrow> apply_job \<Rightarrow> driver_call" where
  "own_deploy e j = (if j_base j = None then CallDeploy (new_dir e j) else CallDeployIncrement (new_dir e j))"

lemma deploy_step_deploys:
  "deploy_step e j w = Some (c, w') \<Longrightarrow> deploys w' = deploys w \<and> j_base j \<noteq> None \<or> deploys w' = deploys w @ [own_deploy e j]"
  by (auto simp: deploy_step_def own_deploy_def Let_def split: option.splits sum.splits prod.splits if_splits)

lemmas run_actions_deploys = run_actions_same [where f = deploys]

text \<open>An apply asks the driver for at most one deployment: the full one of the new generation's directory for
  a lab without a deployed generation, the incremental one otherwise, so a deployed lab is never redeployed
  from scratch; a first apply that succeeds has deployed.\<close>
theorem apply_deploys_once:
  assumes "run_apply e j w = Some (failed, tr, w')"
  shows "if failed = None \<and> j_base j = None then deploys w' = deploys w @ [CallDeploy (new_dir e j)]
    else deploys w' \<in> {deploys w, deploys w @ [if j_base j = None then CallDeploy (new_dir e j) else CallDeployIncrement (new_dir e j)]}"
proof -
  let ?pre = "take 4 (apply_steps e j)" and ?post = "drop 5 (apply_steps e j)"
  obtain cs w1 where run: "run_actions (apply_steps e j) w = Some (cs, failed, w1)" and dep: "deploys w' = deploys w1"
    using assms by (rule run_apply_parts) (auto simp: deploys_def)
  have parts: "apply_steps e j = ?pre @ (step ''DeployTopology'' (deploy_weight (j_base j = None)), deploy_step e j) # ?post" by (simp add: apply_steps_def)
  have keep: "list_all (\<lambda>(s, a). \<forall>w c w'. a w = Some (c, w') \<longrightarrow> deploys w' = deploys w) ?pre"
    "list_all (\<lambda>(s, a). \<forall>w c w'. a w = Some (c, w') \<longrightarrow> deploys w' = deploys w) ?post"
    by (auto simp: apply_steps_def dest: no_deploy)
  obtain cs1 f1 w2 where pre: "run_actions ?pre w = Some (cs1, f1, w2)"
    using run by (subst (asm) parts) (auto simp: run_actions_append split: option.splits)
  have s1: "deploys w2 = deploys w" using run_actions_deploys [OF keep(1) pre] .
  show ?thesis
  proof (cases f1)
    case (Some m)
    then have "failed = Some m" "w1 = w2" using run pre by (subst (asm) parts, simp add: run_actions_append)+
    then show ?thesis using s1 dep by simp
  next
    case None
    obtain reports r w3 where d: "deploy_step e j w2 = Some ((reports, r), w3)"
      using run pre None by (subst (asm) parts) (auto simp: run_actions_append split: option.splits)
    have "deploys w1 = deploys w3"
    proof (cases r)
      case None
      then obtain ds f2 where "run_actions ?post w3 = Some (ds, f2, w1)"
        using run pre \<open>f1 = None\<close> d by (subst (asm) parts) (auto simp: run_actions_append split: option.splits)
      then show ?thesis by (rule run_actions_deploys [OF keep(2)])
    next
      case (Some m)
      then have "w1 = w3" using run pre None d by (subst (asm) parts) (simp add: run_actions_append)
      then show ?thesis by simp
    qed
    then show ?thesis using deploy_step_deploys [OF d] s1 dep by (auto simp: own_deploy_def)
  qed
qed

theorem apply_deploys_once_witness:
  "\<exists>j w tr w'. run_apply (flow_env None) j w = Some (None, tr, w') \<and> deploys w' = deploys w @ [CallDeploy (new_dir (flow_env None) j)]"
proof -
  obtain j w tr w' where r: "apply_plan (0, 0) 5 ''plan-1'' flow_store = (Inr j, w_store w)" "run_apply (flow_env None) j w = Some (None, tr, w')"
    "j_plan j = flow_plan ''plan-1'' 0" "numbers_of (job_lab j) (t_gens flow_store) = []" by (rule flow_ran)
  have "j_base j = None" using apply_plan_accepted(11) [OF r(1) flow_store_ok] r(3) by (simp add: flow_plan_def)
  then have "deploys w' = deploys w @ [CallDeploy (new_dir (flow_env None) j)]" using apply_deploys_once [OF r(2)] by simp
  then show ?thesis using r(2) by blast
qed

section \<open>Runs end\<close>

lemma ex_triple: "\<exists>a b c. x = ((a, b), c)"
  by (metis surj_pair)

text \<open>An apply ends: when the deadline of the control-plane validation passes at some poll, every step returns,
  whatever the driver, the nodes and the file system answer.\<close>
theorem apply_ends:
  assumes "e_expired e k"
  shows "\<exists>failed tr w'. run_apply e j w = Some (failed, tr, w')"
proof -
  obtain r reports where vc: "validate_control_plane (e_poll e) (e_unmarshal e) (e_expired e) (e_cancelled e) (j_nodes j) (j_links j) = Some (r, reports)"
    using control_loop_ends [of "e_expired e" 0 k] assms unfolding validate_control_plane_def Let_def by fastforce
  let ?pre = "take 2 (apply_steps e j)" and ?post = "drop 2 (apply_steps e j)"
  have always: "run_actions steps w \<noteq> None" if "list_all (\<lambda>(s, a). \<forall>w. a w \<noteq> None) steps" for steps w
    using that
  proof (induction steps arbitrary: w)
    case (Cons sa steps)
    obtain s a where sa: "sa = (s, a)" by force
    have "a w \<noteq> None" using Cons.prems sa by simp
    then obtain c f w1 where a: "a w = Some ((c, f), w1)" by force
    show ?case using Cons.IH [of w1] Cons.prems a sa by (cases f) auto
  qed simp
  define tail where "tail = drop 3 (apply_steps e j)"
  have rest: "run_actions tail w1 \<noteq> None" for w1
    by (rule always) (auto intro: ex_triple simp: tail_def apply_steps_def save_step_def deploy_step_def prune_step_def connect_internet_def control_step_def data_step_def install_step_def
        restore_step_def vc Let_def split: prod.splits sum.splits option.splits)
  obtain c1 f1 w1 where first: "ensure_images e (apply_images (j_lab j)) w = ((c1, f1), w1)" by (metis prod.collapse)
  have "run_actions (apply_steps e j) w \<noteq> None"
  proof (cases "f1 = None \<and> \<not> isl (compile_lab (e_marshal e) (j_lab j) (j_nodes j) (j_links j) default_options)")
    case True
    then obtain a where a: "compile_step e j w1 = Some (([], None), w1\<lparr>w_artifact := Some a\<rparr>)"
      by (cases "compile_lab (e_marshal e) (j_lab j) (j_nodes j) (j_links j) default_options") (auto simp: compile_step_def)
    obtain c2 f2 w2 where b: "write_step e j (w1\<lparr>w_artifact := Some a\<rparr>) = Some ((c2, f2), w2)"
      by (cases "write_artifact (e_os e) (e_order e a) (new_dir e j) (w_files w1)") (simp add: write_step_def)
    have "apply_steps e j = (step ''EnsureImages'' 0, \<lambda>w. Some (ensure_images e (apply_images (j_lab j)) w)) # (step ''CompileArtifacts'' 0, compile_step e j) #
        (step ''WriteArtifacts'' 0, write_step e j) # tail" by (simp add: tail_def apply_steps_def)
    then show ?thesis using first True a b rest [of w2] by (cases f2) auto
  next
    case False
    then show ?thesis using first
      by (cases f1) (auto simp: apply_steps_def compile_step_def isl_def split: sum.splits)
  qed
  then obtain cs failed w' where "run_actions (apply_steps e j) w = Some (cs, failed, w')" by auto
  then show ?thesis by (auto simp: run_apply_def split: prod.splits)
qed

theorem apply_ends_witness:
  "\<exists>failed tr w'. run_apply (flow_env (Some ''boom'')) \<lparr>j_lab = flow_lab 0, j_nodes = [], j_links = [], j_op = create_op (0, 0) [] OperationApplyPlan \<lparr>ref_type = [], ref_id = []\<rparr> 0,
     j_plan = flow_plan ''plan-1'' 0, j_base = None\<rparr> (flow_world flow_store) = Some (failed, tr, w')"
  using apply_ends [of "flow_env (Some ''boom'')" 0] by (simp add: flow_env_def)

end
