(* ===== verification/PlanRollback.thy ===== *)
theory PlanRollback
  imports PlanRuns
begin

text \<open>
  Plans as they are stored, rollbacks and repairs: what a request leaves in the tables, what a rollback puts back,
  and that a repair moves nothing but the phase of the lab.
\<close>

section \<open>Storing a plan\<close>

lemma insert_plan_ok:
  assumes "insert_plan p s = (Inr u, s')"
  shows "s' = s\<lparr>t_io := tl (t_io s), t_plans := t_plans s @ [plan_row p]\<rparr>" "insert_row (plan_row p) (t_plans s) = Inr (t_plans s @ [plan_row p])"
  using assms by (auto simp: insert_plan_def db_call_Inr insert_row_def split: if_splits)

lemma get_doc_snoc: "get_doc i (t @ [r]) = (case get_doc i t of Inr d \<Rightarrow> Inr d | Inl e \<Rightarrow> if row_id r = i then Inr (row_doc r) else Inl e)"
  by (simp add: get_doc_def find_snoc split: option.splits)

lemma get_doc_fresh: "insert_row r t = Inr t' \<Longrightarrow> get_doc (row_id r) t = Inl RowMissing"
  by (force simp: insert_row_def get_doc_def list_ex_iff find_Some_iff split: if_splits option.splits)

lemma store_plan_done:
  assumes "store_plan now what lb ns ls allocs p s = (Inr q, s')"
  shows "q = p" "list_docs (meta_id (lab_meta lb)) (t_nodes s') = sort_key node_name ns" "list_docs (meta_id (lab_meta lb)) (t_links s') = sort_key link_name ls"
    "get_doc (plan_id p) (t_plans s') = Inr p" "get_doc (plan_id p) (t_plans s) = Inl RowMissing"
    "t_labs s' = put_lab now (lb\<lparr>lab_meta := (lab_meta lb)\<lparr>phase := PhasePlanning\<rparr>\<rparr>) (t_labs s)" "t_gens s' = t_gens s"
    "i \<noteq> plan_id p \<Longrightarrow> get_doc i (t_plans s') = get_doc i (t_plans s)"
proof -
  let ?lb = "lb\<lparr>lab_meta := (lab_meta lb)\<lparr>phase := PhasePlanning\<rparr>\<rparr>"
  obtain u1 u2 u3 s1 s2 s3 where r: "replace_topology (meta_id (lab_meta lb)) ns ls allocs s = (Inr u1, s1)" and
    i: "insert_plan p s1 = (Inr u2, s2)" and u3: "update_lab now ?lb s2 = (Inr u3, s3)" and q3: "(slift (Inr p) :: (plan_error, plan) db) s3 = (Inr q, s')"
    using assms unfolding store_plan_def sbind_ok serr_ok by (elim exE conjE) (rule that, assumption+)
  have q: "q = p" and u: "update_lab now ?lb s2 = (Inr u3, s')" using u3 q3 by (simp_all add: slift_ok)
  note rd = replace_topology_done [OF r] and id = insert_plan_ok [OF i] and ud = update_lab_ok [OF u]
  show "q = p" by (fact q)
  show "list_docs (meta_id (lab_meta lb)) (t_nodes s') = sort_key node_name ns" "list_docs (meta_id (lab_meta lb)) (t_links s') = sort_key link_name ls"
    using rd(1,2) by (simp_all add: ud id(1))
  show "get_doc (plan_id p) (t_plans s) = Inl RowMissing" using get_doc_fresh [OF id(2)] rd(4) by (simp add: plan_row_def)
  then show "get_doc (plan_id p) (t_plans s') = Inr p" using rd(4) by (simp add: ud id(1) get_doc_snoc plan_row_def)
  show "t_labs s' = put_lab now (lb\<lparr>lab_meta := (lab_meta lb)\<lparr>phase := PhasePlanning\<rparr>\<rparr>) (t_labs s)" "t_gens s' = t_gens s"
    using rd(3,5) by (simp_all add: ud id(1))
  show "i \<noteq> plan_id p \<Longrightarrow> get_doc i (t_plans s') = get_doc i (t_plans s)"
    using rd(4) by (simp add: ud id(1) get_doc_snoc plan_row_def split: sum.splits)
qed

section \<open>Requests keep the store consistent\<close>

text \<open>What a request relies on from one call to the next: a consistent store that still holds the lab it has read.\<close>

definition holding :: "lab \<Rightarrow> store \<Rightarrow> bool" where
  "holding lb s \<longleftrightarrow> store_ok s \<and> (\<exists>old. get_doc (meta_id (lab_meta lb)) (t_labs s) = Inr old \<and> meta_name (lab_meta old) = meta_name (lab_meta lb))"

definition safe :: "(store \<Rightarrow> bool) \<Rightarrow> ('e, 'a) db \<Rightarrow> bool" where
  "safe P m \<longleftrightarrow> (\<forall>s. P s \<longrightarrow> P (snd (m s)))"

named_theorems keeps_safe \<open>calls and combinators that keep what a request relies on\<close>

lemma safe_sbind [keeps_safe]: "safe P m \<Longrightarrow> (\<And>x. safe P (f x)) \<Longrightarrow> safe P (sbind m f)"
  unfolding safe_def by (force simp: sbind_def split: prod.splits sum.splits)

lemma safe_lift [keeps_safe]: "safe P (slift r)"
  by (simp add: safe_def slift_def)

lemma safe_serr [keeps_safe]: "safe P m \<Longrightarrow> safe P (serr f m)"
  unfolding safe_def by (force simp: serr_def split: prod.splits)

lemma safe_if [keeps_safe]: "safe P m \<Longrightarrow> safe P n \<Longrightarrow> safe P (if b then m else n)"
  by simp

lemma holding_io: "holding lb (s\<lparr>t_io := io\<rparr>) = holding lb s"
  by (simp add: holding_def store_ok_def)

lemma db_call_cases:
  obtains "snd (db_call f s) = s\<lparr>t_io := tl (t_io s)\<rparr>" | x s' where "f (s\<lparr>t_io := tl (t_io s)\<rparr>) = Inr (x, s')" "snd (db_call f s) = s'"
  by (cases "db_call f s") (metis db_call_Inl db_call_Inr snd_conv sum.exhaust)

lemma safe_call: "(\<And>s x s'. holding lb s \<Longrightarrow> f s = Inr (x, s') \<Longrightarrow> holding lb s') \<Longrightarrow> safe (holding lb) (db_call f)"
  unfolding safe_def by (metis db_call_cases holding_io)

lemma safe_reads [keeps_safe]:
  "safe (holding lb) (get_generation l g)" "safe (holding lb) (list_nodes l)" "safe (holding lb) (list_links l)"
  "safe (holding lb) (list_programs l)" "safe (holding lb) (create_operation op)"
  by (auto simp: get_generation_def list_nodes_def list_links_def list_programs_def create_operation_def split: sum.splits intro!: safe_call)

lemma safe_replace [keeps_safe]: "safe (holding lb) (replace_topology l ns ls as)"
  unfolding replace_topology_def
proof (rule safe_call)
  fix s x s'
  assume h: "holding lb s" and r: "ebind (efold (\<lambda>t n. insert_row (node_row l n) t) (filter (\<lambda>r. row_scope r \<noteq> l) (t_nodes s)) ns) (\<lambda>tn.
     ebind (efold (\<lambda>t k. insert_row (link_row l k) t) (filter (\<lambda>r. row_scope r \<noteq> l) (t_links s)) ls) (\<lambda>tl.
     ebind (efold (insert_alloc l) (filter (\<lambda>(k, _). k \<noteq> l) (t_allocs s)) as) (\<lambda>ta.
       Inr ((), s\<lparr>t_nodes := tn, t_links := tl, t_allocs := ta\<rparr>)))) = Inr (x, s')"
  obtain tn where tn: "efold (\<lambda>t n. insert_row (node_row l n) t) (filter (\<lambda>r. row_scope r \<noteq> l) (t_nodes s)) ns = Inr tn"
    and s': "t_nodes s' = tn" "t_labs s' = t_labs s" "t_plans s' = t_plans s" "t_gens s' = t_gens s"
    using r by (auto simp: ebind_def split: sum.splits)
  have "table_ok (t_nodes s)" "list_all (\<lambda>r. row_id r = node_id (row_doc r)) (t_nodes s)" using h by (simp_all add: holding_def store_ok_def)
  then have "table_ok tn" "list_all (\<lambda>r. row_id r = node_id (row_doc r)) tn"
    using insert_rows_ok [OF tn filter_row_ok] by (auto simp: node_row_def list_all_iff)
  then show "holding lb s'" using h s' by (simp add: holding_def store_ok_def)
qed

lemma safe_insert_plan [keeps_safe]: "safe (holding lb) (insert_plan p)"
  unfolding insert_plan_def
proof (rule safe_call)
  fix s x s'
  assume h: "holding lb s" and r: "ebind (insert_row (plan_row p) (t_plans s)) (\<lambda>t. Inr ((), s\<lparr>t_plans := t\<rparr>)) = Inr (x, s')"
  then obtain t where t: "insert_row (plan_row p) (t_plans s) = Inr t" "s' = s\<lparr>t_plans := t\<rparr>" by (auto simp: ebind_def split: sum.splits)
  have "table_ok (t_plans s)" "list_all (\<lambda>r. row_id r = plan_id (row_doc r)) (t_plans s)" using h by (simp_all add: holding_def store_ok_def)
  then have "table_ok t" "list_all (\<lambda>r. row_id r = plan_id (row_doc r)) t"
    using insert_row_ok [OF t(1)] by (auto simp: plan_row_def)
  then show "holding lb s'" using h t(2) by (simp add: holding_def store_ok_def)
qed

lemma safe_update_lab [keeps_safe]:
  assumes "meta_id (lab_meta lb') = meta_id (lab_meta lb)" "meta_name (lab_meta lb') = meta_name (lab_meta lb)"
  shows "safe (holding lb) (update_lab now lb')"
  unfolding safe_def
proof (intro allI impI)
  fix s
  assume h: "holding lb s"
  show "holding lb (snd (update_lab now lb' s))"
  proof (cases "update_lab now lb' s")
    case (Pair r s')
    show ?thesis
    proof (cases r)
      case (Inl e)
      then have "s' = s\<lparr>t_io := tl (t_io s)\<rparr>" using Pair unfolding update_lab_def by (blast intro: db_call_Inl)
      then show ?thesis using Pair h by (simp add: holding_io)
    next
      case (Inr u)
      then have s': "s' = s\<lparr>t_io := tl (t_io s), t_labs := put_lab now lb' (t_labs s)\<rparr>" using update_lab_ok Pair by simp
      obtain old where old: "get_doc (meta_id (lab_meta lb')) (t_labs s) = Inr old" "meta_name (lab_meta old) = meta_name (lab_meta lb')"
        using h assms by (auto simp: holding_def)
      have "store_ok s'" unfolding s' using store_ok_put_lab [OF _ old] h by (simp add: holding_def)
      then show ?thesis using Pair old assms by (auto simp: holding_def s' get_put_lab touch_lab_def)
    qed
  qed
qed

lemma safe_load [keeps_safe]: "safe (holding lb) (load_generation l g)"
  by (simp add: load_generation_def keeps_safe)

lemma safe_store_plan [keeps_safe]: "meta_id (lab_meta lb') = meta_id (lab_meta lb) \<Longrightarrow> meta_name (lab_meta lb') = meta_name (lab_meta lb) \<Longrightarrow>
    safe (holding lb) (store_plan now what lb' ns ls allocs p)"
  unfolding store_plan_def by (intro keeps_safe) simp_all

text \<open>A request that starts by reading the lab keeps the store when the rest of it does.\<close>

lemma after_get_lab:
  assumes "store_ok s" "\<And>lb. safe (holding lb) (f lb)"
  shows "store_ok (snd (sbind (repo what (get_lab l)) f s))"
proof (cases "get_lab l s")
  case (Pair r s1)
  have s1: "s1 = s\<lparr>t_io := tl (t_io s)\<rparr>" using Pair db_call_Inl [of _ s _ s1] get_lab_ok [of l s _ s1] by (cases r) (auto simp: get_lab_def)
  then have ok: "store_ok s1" using assms(1) by (simp add: store_ok_def)
  show ?thesis
  proof (cases r)
    case (Inl e)
    then show ?thesis using Pair ok by (simp add: sbind_def serr_def emap_err_def)
  next
    case (Inr lb)
    then have g: "get_doc l (t_labs s) = Inr lb" using Pair get_lab_ok [of l s lb s1] by simp
    have "meta_id (lab_meta lb) = l" using stored_lab_id [OF _ g] assms(1) by (simp add: store_ok_def)
    then have "holding lb s1" using ok g by (simp add: holding_def s1)
    then have "holding lb (snd (f lb s1))" using assms(2) by (simp add: safe_def)
    then show ?thesis using Pair Inr by (simp add: sbind_def serr_def emap_err_def holding_def)
  qed
qed

lemma safe_load_base [keeps_safe]: "safe (holding lb) (load_base l lb')" "safe (holding lb) (load_snapshot l g)"
  unfolding load_base_def load_snapshot_def by (intro keeps_safe)+

lemma safe_apply_loaded [keeps_safe]: "safe (holding lb) (apply_loaded d now pid p lb)"
  unfolding apply_loaded_def Let_def by (intro keeps_safe) simp_all

lemma requests_store_ok:
  assumes "store_ok s"
  shows "store_ok (snd (create_plan driver ds d now l s))" "store_ok (snd (create_rollback_plan driver d now l g s))"
    "store_ok (snd (apply_plan d now pid s))" "store_ok (snd (repair_lab d now l s))"
proof -
  show "store_ok (snd (create_plan driver ds d now l s))" unfolding create_plan_def Let_def case_prod_beta
    by (rule after_get_lab [OF assms]) (intro keeps_safe, simp_all)
  show "store_ok (snd (create_rollback_plan driver d now l g s))" unfolding create_rollback_plan_def Let_def case_prod_beta
    by (rule after_get_lab [OF assms]) (intro keeps_safe, simp_all)
  show "store_ok (snd (repair_lab d now l s))" unfolding repair_lab_def
    by (rule after_get_lab [OF assms]) (intro keeps_safe)
  obtain r s1 where g: "get_plan pid s = (r, s1)" by force
  have s1: "s1 = s\<lparr>t_io := tl (t_io s)\<rparr>" using g db_call_Inl [of _ s _ s1] get_plan_ok [of pid s _ s1] by (cases r) (auto simp: get_plan_def)
  have ok: "store_ok s1" using assms s1 by (simp add: store_ok_def)
  then have "store_ok (snd (sbind (repo ''get lab'' (get_lab k)) (\<lambda>lb. if generation (lab_meta lb) \<noteq> base_generation p
      then slift (Inl (StaleBase pid (base_generation p) (generation (lab_meta lb)))) else apply_loaded d now pid p lb) s1))" for k p
    by (rule after_get_lab) (intro keeps_safe)
  then show "store_ok (snd (apply_plan d now pid s))" using g ok
    by (cases r) (simp_all add: apply_plan_def sbind_def serr_def slift_def)
qed



section \<open>Rolling back\<close>

definition shape_of :: "node \<Rightarrow> string \<times> node_spec" where
  "shape_of n = (node_name n, n_spec n)"

definition ends_of :: "link \<Rightarrow> string \<times> (string \<times> string \<times> prefix) list" where
  "ends_of l = (link_name l, map (\<lambda>e. (ep_node e, ep_iface e, ep_addr e)) [end_a (l_spec l), end_b (l_spec l)])"

lemma sort_key_keys: "(\<And>x. x \<in> set xs \<Longrightarrow> k (f x) = k x) \<Longrightarrow> sort_key k (map f xs) = map f (sort_key k xs)"
proof -
  assume k: "\<And>x. x \<in> set xs \<Longrightarrow> k (f x) = k x"
  have ins: "insort_key k (f x) (map f ys) = map f (insort_key k x ys)" if "k (f x) = k x" "\<And>y. y \<in> set ys \<Longrightarrow> k (f y) = k y" for x ys
    using that by (induction ys) auto
  show ?thesis using k
  proof (induction xs)
    case (Cons x xs)
    have "insort_key k (f x) (map f (sort_key k xs)) = map f (insort_key k x (sort_key k xs))"
      by (rule ins) (auto intro: Cons.prems)
    then show ?case using Cons by simp
  qed simp
qed

lemma reset_node_shape: "node_name (reset_node cur n) = node_name n" "n_spec (reset_node cur n) = n_spec n"
  by (simp_all add: reset_node_def)

lemma reset_link_shape: "link_name (reset_link cur l) = link_name l" "l_spec (reset_link cur l) = l_spec l"
  by (simp_all add: reset_link_def)

lemma carry_node_spec: "n_spec (carry_node m n) = n_spec n"
  by (simp add: carry_node_def split: option.splits)

lemma re_added_shapes:
  assumes "(ns, ls) = reset_re_added (carry_over_identity ts us cur_ns cur_ls) cur_ns cur_ls"
  shows "map shape_of (sort_key node_name ns) = map shape_of (sort_key node_name ts)"
    "map ends_of (sort_key link_name ls) = map ends_of (sort_key link_name us)"
proof -
  let ?f = "\<lambda>n. reset_node cur_ns (carry_node (index_by node_name cur_ns) n)"
  let ?g = "\<lambda>l. reset_link cur_ls (carry_link (index_by link_name cur_ls) (id_by_name (map (carry_node (index_by node_name cur_ns)) ts)) l)"
  have ns: "ns = map ?f ts" "ls = map ?g us" using assms by (simp_all add: reset_re_added_def carry_over_identity_def Let_def)
  have "shape_of (?f n) = shape_of n" for n by (simp add: shape_of_def reset_node_shape carry_node_spec)
  then show "map shape_of (sort_key node_name ns) = map shape_of (sort_key node_name ts)"
    by (simp add: ns(1) sort_key_keys reset_node_shape)
  have "ends_of (?g l) = ends_of l" for l
    by (simp add: ends_of_def reset_link_shape carry_link_ends) (simp add: carry_link_def Let_def split: option.splits)
  then show "map ends_of (sort_key link_name ls) = map ends_of (sort_key link_name us)"
    by (simp add: ns(2) sort_key_keys reset_link_shape)
qed

lemma guard_ok: "(if b then slift (Inl e) else m) s = (Inr x, s') \<longleftrightarrow> \<not> b \<and> m s = (Inr x, s')"
  by (simp add: slift_def)

lemma list_programs_ok: "list_programs l s = (Inr ps, s') \<longleftrightarrow> (t_io s = [] \<or> hd (t_io s) = None) \<and> ps = list_docs l (t_programs s) \<and> s' = s\<lparr>t_io := tl (t_io s)\<rparr>"
  by (auto simp: list_programs_def db_call_Inr)

lemma io_frame: "s\<lparr>t_io := a\<rparr>\<lparr>t_io := b\<rparr> = s\<lparr>t_io := b\<rparr>" "t_nodes (s\<lparr>t_io := a\<rparr>) = t_nodes s" "t_links (s\<lparr>t_io := a\<rparr>) = t_links s"
  "t_gens (s\<lparr>t_io := a\<rparr>) = t_gens s" "t_programs (s\<lparr>t_io := a\<rparr>) = t_programs s" "t_io (s\<lparr>t_io := a\<rparr>) = a"
  by simp_all

lemma rollback_parts:
  assumes "create_rollback_plan driver d now lid g s = (Inr p, s')"
  obtains lb target base_snap ns ls allocs ops held io where "get_doc lid (t_labs s) = Inr lb" "generation (lab_meta lb) \<noteq> 0" "g \<noteq> generation (lab_meta lb)"
    "find_generation lid g (t_gens s) = Inr target" "find_generation lid (generation (lab_meta lb)) (t_gens s) = Inr base_snap"
    "(ns, ls) = reset_re_added (carry_over_identity (sn_nodes target) (sn_links target) (list_docs lid (t_nodes s)) (list_docs lid (t_links s)))
       (list_docs lid (t_nodes s)) (list_docs lid (t_links s))"
    "store_plan now ''update lab'' (lb\<lparr>lab_spec := lab_spec (sn_lab target)\<rparr>) ns ls (derive_allocations (sn_nodes target) (sn_links target))
       (new_plan driver d now lb ops allocs held) (s\<lparr>t_io := io\<rparr>) = (Inr p, s')"
proof -
  show thesis
    using assms unfolding create_rollback_plan_def sbind_ok serr_ok guard_ok read_ok list_programs_ok load_generation_ok Let_def case_prod_beta
    apply (elim exE conjE)
    apply (simp only: io_frame)
    apply (rule that, assumption, assumption, assumption, assumption, assumption, rule prod.collapse)
    apply assumption
    done
qed

lemma rollback_restores:
  assumes "store_ok s" "create_rollback_plan driver d now lid g s = (Inr p, s')"
  shows "\<exists>lb target. get_doc lid (t_labs s) = Inr lb \<and> find_generation lid g (t_gens s) = Inr target \<and> g \<noteq> generation (lab_meta lb) \<and>
    map shape_of (list_docs lid (t_nodes s')) = map shape_of (sort_key node_name (sn_nodes target)) \<and>
    map ends_of (list_docs lid (t_links s')) = map ends_of (sort_key link_name (sn_links target)) \<and>
    get_doc lid (t_labs s') = Inr (touch_lab now (lb\<lparr>lab_spec := lab_spec (sn_lab target), lab_meta := (lab_meta lb)\<lparr>phase := PhasePlanning\<rparr>\<rparr>)) \<and>
    get_doc (plan_id p) (t_plans s') = Inr p \<and> plan_state p = PlanPending \<and> plan_lab p = lid \<and>
    base_generation p = generation (lab_meta lb) \<and> new_generation p = generation (lab_meta lb) + 1 \<and> t_gens s' = t_gens s"
proof -
  obtain lb target base_snap ns ls allocs ops held io where r: "get_doc lid (t_labs s) = Inr lb" "g \<noteq> generation (lab_meta lb)" "find_generation lid g (t_gens s) = Inr target"
    and ns: "(ns, ls) = reset_re_added (carry_over_identity (sn_nodes target) (sn_links target) (list_docs lid (t_nodes s)) (list_docs lid (t_links s)))
       (list_docs lid (t_nodes s)) (list_docs lid (t_links s))"
    and st: "store_plan now ''update lab'' (lb\<lparr>lab_spec := lab_spec (sn_lab target)\<rparr>) ns ls (derive_allocations (sn_nodes target) (sn_links target))
       (new_plan driver d now lb ops allocs held) (s\<lparr>t_io := io\<rparr>) = (Inr p, s')"
    by (rule rollback_parts [OF assms(2)])
  note stored = store_plan_done [OF st]
  have lid: "meta_id (lab_meta lb) = lid" using stored_lab_id [OF _ r(1)] assms(1) by (simp add: store_ok_def)
  have "lid \<in> row_id ` set (t_labs s)" using get_doc_row [OF r(1)] by auto
  then have lab: "get_doc lid (t_labs s') = Inr (touch_lab now (lb\<lparr>lab_spec := lab_spec (sn_lab target), lab_meta := (lab_meta lb)\<lparr>phase := PhasePlanning\<rparr>\<rparr>))"
    using stored(6) lid by (simp add: get_put_lab)
  show ?thesis
    using r lab stored(1-4,7) lid re_added_shapes [OF ns] by (simp add: new_plan_def)
qed

text \<open>C16: A rollback stores the retained generation again under a plan for the next number: the nodes' names and
  specs, the links' ends and addresses and the lab's spec are the target's, the generations are not touched, and the
  target is neither the deployed generation nor one that is no longer retained.\<close>
theorem rollback_restores_generation:
  assumes "store_ok s" "create_rollback_plan driver d now lid g s = (Inr p, s')"
  shows "\<exists>lb target. get_doc lid (t_labs s) = Inr lb \<and> find_generation lid g (t_gens s) = Inr target \<and> g \<noteq> generation (lab_meta lb) \<and>
    map shape_of (list_docs lid (t_nodes s')) = map shape_of (sort_key node_name (sn_nodes target)) \<and>
    map ends_of (list_docs lid (t_links s')) = map ends_of (sort_key link_name (sn_links target)) \<and>
    get_doc lid (t_labs s') = Inr (touch_lab now (lb\<lparr>lab_spec := lab_spec (sn_lab target), lab_meta := (lab_meta lb)\<lparr>phase := PhasePlanning\<rparr>\<rparr>)) \<and>
    get_doc (plan_id p) (t_plans s') = Inr p \<and> plan_state p = PlanPending \<and> plan_lab p = lid \<and>
    base_generation p = generation (lab_meta lb) \<and> new_generation p = generation (lab_meta lb) + 1 \<and> t_gens s' = t_gens s"
  using assms by (rule rollback_restores)

text \<open>A lab at its third generation: the first and the third are empty, the second has a server.\<close>

definition roll_server :: node where
  "roll_server = wire_ext\<lparr>n_spec := (n_spec wire_ext)\<lparr>role := RoleServer\<rparr>\<rparr>"

definition roll_snapshot :: "node list \<Rightarrow> snapshot" where
  "roll_snapshot ns = \<lparr>sn_lab = flow_lab 0, sn_nodes = ns, sn_links = []\<rparr>"

definition roll_store :: store where
  "roll_store = \<lparr>t_labs = [\<lparr>row_id = ''lab-1'', row_scope = [], row_name = ''demo'', row_doc = flow_lab 3\<rparr>],
     t_nodes = [], t_links = [], t_allocs = [], t_plans = [],
     t_gens = [\<lparr>g_lab = ''lab-1'', g_number = 1, g_created = 0, g_snap = roll_snapshot []\<rparr>,
       \<lparr>g_lab = ''lab-1'', g_number = 2, g_created = 1, g_snap = roll_snapshot [roll_server]\<rparr>,
       \<lparr>g_lab = ''lab-1'', g_number = 3, g_created = 2, g_snap = roll_snapshot []\<rparr>],
     t_programs = [], t_io = []\<rparr>"

lemma roll_store_ok: "store_ok roll_store" "t_io roll_store = []"
  by code_simp+

lemma rolled_back: "\<not> isl (fst (create_rollback_plan ''clab'' (1, 0) 8 ''lab-1'' 2 roll_store))"
  by code_simp

theorem rollback_restores_generation_witness:
  "\<exists>p s'. create_rollback_plan ''clab'' (1, 0) 8 ''lab-1'' 2 roll_store = (Inr p, s') \<and> map node_name (list_docs ''lab-1'' (t_nodes s')) = [node_name roll_server]"
proof -
  obtain r s' where c: "create_rollback_plan ''clab'' (1, 0) 8 ''lab-1'' 2 roll_store = (r, s')" by force
  obtain p where r: "create_rollback_plan ''clab'' (1, 0) 8 ''lab-1'' 2 roll_store = (Inr p, s')" using rolled_back c by (cases r) simp_all
  obtain target where t: "find_generation ''lab-1'' 2 (t_gens roll_store) = Inr target"
    "map shape_of (list_docs ''lab-1'' (t_nodes s')) = map shape_of (sort_key node_name (sn_nodes target))"
    using rollback_restores_generation [OF roll_store_ok(1) r] by blast
  have "target = roll_snapshot [roll_server]" using t(1) by (simp add: find_generation_def roll_store_def)
  then have "map fst (map shape_of (list_docs ''lab-1'' (t_nodes s'))) = [node_name roll_server]" using t(2) by (simp add: roll_snapshot_def shape_of_def)
  then show ?thesis using r by (auto simp: shape_of_def comp_def)
qed

lemma rollback_base: "create_rollback_plan driver d now lid g s = (Inr p, s') \<Longrightarrow> get_doc lid (t_labs s) = Inr lb \<Longrightarrow>
    generation (lab_meta lb) \<in> set (numbers_of lid (t_gens s))"
  by (erule rollback_parts) (auto dest: find_found)

lemma rollback_keeps_plans:
  assumes "create_rollback_plan driver d now lid g s = (Inr p, s')" "get_doc i (t_plans s) = Inr q"
  shows "get_doc i (t_plans s') = Inr q"
proof -
  obtain lb target ns ls allocs ops held io where
    st: "store_plan now ''update lab'' (lb\<lparr>lab_spec := lab_spec (sn_lab target)\<rparr>) ns ls (derive_allocations (sn_nodes target) (sn_links target))
       (new_plan driver d now lb ops allocs held) (s\<lparr>t_io := io\<rparr>) = (Inr p, s')" and "find_generation lid g (t_gens s) = Inr target"
    by (rule rollback_parts [OF assms(1)])
  have "i \<noteq> plan_id p" using store_plan_done(1,5) [OF st] assms(2) by auto
  then show ?thesis using store_plan_done(1,8) [OF st] assms(2) by simp
qed

text \<open>C17: The topology an apply deploys is that of the plan made last: of two rollback plans of a lab, the one made
  first is still accepted after the second is made, and its apply deploys the second one's topology.\<close>
theorem older_plan_applies_newer_topology:
  assumes "store_ok s" "create_rollback_plan driver d1 now1 lid g1 s = (Inr p1, s1)" "create_rollback_plan driver d2 now2 lid g2 s1 = (Inr p2, s2)"
    and "t_io s2 = []"
  shows "\<exists>j s3 target2. apply_plan d now (plan_id p1) s2 = (Inr j, s3) \<and> j_plan j = p1 \<and> find_generation lid g2 (t_gens s) = Inr target2 \<and>
    map shape_of (j_nodes j) = map shape_of (sort_key node_name (sn_nodes target2)) \<and>
    map ends_of (j_links j) = map ends_of (sort_key link_name (sn_links target2))"
proof -
  have ok1: "store_ok s1" using requests_store_ok(2) [OF assms(1), of driver d1 now1 lid g1] assms(2) by simp
  have ok2: "store_ok s2" using requests_store_ok(2) [OF ok1, of driver d2 now2 lid g2] assms(3) by simp
  obtain lb where lb: "get_doc lid (t_labs s) = Inr lb" and p1: "get_doc (plan_id p1) (t_plans s1) = Inr p1" "plan_state p1 = PlanPending" "plan_lab p1 = lid"
    "base_generation p1 = generation (lab_meta lb)" and gens1: "t_gens s1 = t_gens s" and "\<exists>x. get_doc lid (t_labs s1) = Inr x \<and> generation (lab_meta x) = generation (lab_meta lb)"
    using rollback_restores [OF assms(1,2)] by (auto simp: touch_lab_def)
  then obtain lb2 target2 where lb2: "get_doc lid (t_labs s2) = Inr lb2" "generation (lab_meta lb2) = generation (lab_meta lb)" and t: "find_generation lid g2 (t_gens s1) = Inr target2"
    "map shape_of (list_docs lid (t_nodes s2)) = map shape_of (sort_key node_name (sn_nodes target2))"
    "map ends_of (list_docs lid (t_links s2)) = map ends_of (sort_key link_name (sn_links target2))" "t_gens s2 = t_gens s1"
    using rollback_restores [OF ok1 assms(3)] by (auto simp: touch_lab_def)
  have kept: "get_doc (plan_id p1) (t_plans s2) = Inr p1" by (rule rollback_keeps_plans [OF assms(3) p1(1)])
  have base: "base_generation p1 \<in> set (numbers_of lid (t_gens s2))" using rollback_base [OF assms(2) lb] p1(4) gens1 t(4) by simp
  obtain j s3 where j: "apply_plan d now (plan_id p1) s2 = (Inr j, s3)"
    using apply_plan_succeeds [OF ok2 assms(4) kept p1(2), of lb2 d now] lb2 p1(3,4) base by auto
  note acc = apply_plan_accepted [OF j ok2 assms(4)]
  have "j_plan j = p1" using acc(5,16) kept by simp
  then have "j_nodes j = list_docs lid (t_nodes s2)" "j_links j = list_docs lid (t_links s2)" using acc(4,9,10,13,14) p1(3) by simp_all
  then show ?thesis using j \<open>j_plan j = p1\<close> t gens1 by auto
qed

definition roll_again :: "(plan_error + plan) \<times> store" where
  "roll_again = create_rollback_plan ''clab'' (2, 0) 9 ''lab-1'' 1 (snd (create_rollback_plan ''clab'' (1, 0) 8 ''lab-1'' 2 roll_store))"

lemma rolled_twice: "\<not> isl (fst roll_again) \<and> t_io (snd roll_again) = []"
  by code_simp

theorem older_plan_applies_newer_topology_witness:
  "\<exists>p1 p2 s1 s2 j s3. create_rollback_plan ''clab'' (1, 0) 8 ''lab-1'' 2 roll_store = (Inr p1, s1) \<and>
     create_rollback_plan ''clab'' (2, 0) 9 ''lab-1'' 1 s1 = (Inr p2, s2) \<and>
     apply_plan (3, 0) 10 (plan_id p1) s2 = (Inr j, s3) \<and> j_nodes j = []"
proof -
  obtain r1 s1 where a: "create_rollback_plan ''clab'' (1, 0) 8 ''lab-1'' 2 roll_store = (r1, s1)" by force
  obtain r2 s2 where b: "create_rollback_plan ''clab'' (2, 0) 9 ''lab-1'' 1 s1 = (r2, s2)" by force
  obtain p1 p2 where p: "r1 = Inr p1" "r2 = Inr p2" and io: "t_io s2 = []"
    using rolled_back rolled_twice a b by (cases r1; cases r2) (simp_all add: roll_again_def)
  obtain j s3 target2 where j: "apply_plan (3, 0) 10 (plan_id p1) s2 = (Inr j, s3)" "find_generation ''lab-1'' 1 (t_gens roll_store) = Inr target2"
    "map shape_of (j_nodes j) = map shape_of (sort_key node_name (sn_nodes target2))"
    using older_plan_applies_newer_topology [OF roll_store_ok(1) a [unfolded p] b [unfolded p] io] by blast
  have "target2 = roll_snapshot []" using j(2) by (simp add: find_generation_def roll_store_def)
  then have "j_nodes j = []" using j(3) by (simp add: roll_snapshot_def)
  then show ?thesis using a [unfolded p] b [unfolded p] j(1) by (intro exI conjI)
qed

section \<open>Repairing\<close>

lemma repair_accepted:
  assumes "repair_lab d now lid s = (Inr j, s1)" "t_io s = []"
  shows "s1 = s" "get_doc lid (t_labs s) = Inr (j_lab j)" "generation (lab_meta (j_lab j)) \<noteq> 0"
    "j_nodes j = list_docs lid (t_nodes s)" "j_links j = list_docs lid (t_links s)"
proof -
  have "s1 = s \<and> get_doc lid (t_labs s) = Inr (j_lab j) \<and> generation (lab_meta (j_lab j)) \<noteq> 0 \<and>
      j_nodes j = list_docs lid (t_nodes s) \<and> j_links j = list_docs lid (t_links s)"
    using assms unfolding repair_lab_def sbind_ok serr_ok guard_ok read_ok slift_ok by auto
  then show "s1 = s" "get_doc lid (t_labs s) = Inr (j_lab j)" "generation (lab_meta (j_lab j)) \<noteq> 0"
    "j_nodes j = list_docs lid (t_nodes s)" "j_links j = list_docs lid (t_links s)" by simp_all
qed

definition repaired :: "env \<Rightarrow> string option \<Rightarrow> lab \<Rightarrow> lab" where
  "repaired e failed lb = touch_lab (e_now e) (case failed of Some m \<Rightarrow> fail_lab ''REPAIR_FAILED'' (e_now e) m lb
     | None \<Rightarrow> lb\<lparr>lab_meta := (lab_meta lb)\<lparr>phase := PhaseRunning, last_error := None\<rparr>\<rparr>)"

lemma repair_run_store:
  assumes "run_repair e j w = Some (failed, tr, w')"
  shows "w_store w' = repair_done e j failed (w_store w)"
proof -
  obtain cs w1 where run: "run_actions (repair_steps e j) w = Some (cs, failed, w1)" and w': "w_store w' = repair_done e j failed (w_store w1)"
    using assms by (auto simp: run_repair_def split: option.splits prod.splits)
  have "w_store w1 = w_store w"
    by (rule run_actions_store [OF _ run]) (auto simp: repair_steps_def Let_def call_def dest: keeps_store)
  then show ?thesis using w' by simp
qed

text \<open>A repair never changes the generation: it stores nothing but the lab, as Running without an error when every
  step succeeded and as Failed with the error of the step otherwise; nodes, links, plans, generations and all other labs
  stay as they were.\<close>
theorem repair_keeps_everything_else:
  assumes "store_ok s" "t_io s = []" "repair_lab d now lid s = (Inr j, w_store w)" "run_repair e j w = Some (failed, tr, w')"
  shows "get_doc i (t_labs (w_store w')) = (if i = lid then Inr (repaired e failed (j_lab j)) else get_doc i (t_labs s)) \<and>
    generation (lab_meta (repaired e failed (j_lab j))) = generation (lab_meta (j_lab j)) \<and> get_doc lid (t_labs s) = Inr (j_lab j) \<and>
    t_nodes (w_store w') = t_nodes s \<and> t_links (w_store w') = t_links s \<and> t_allocs (w_store w') = t_allocs s \<and>
    t_plans (w_store w') = t_plans s \<and> t_gens (w_store w') = t_gens s \<and> t_programs (w_store w') = t_programs s"
proof -
  note acc = repair_accepted [OF assms(3,2)]
  let ?lb = "case failed of Some m \<Rightarrow> fail_lab ''REPAIR_FAILED'' (e_now e) m (j_lab j)
      | None \<Rightarrow> (j_lab j)\<lparr>lab_meta := (lab_meta (j_lab j))\<lparr>phase := PhaseRunning, last_error := None\<rparr>\<rparr>"
  have lid: "meta_id (lab_meta (j_lab j)) = lid" using stored_lab_id [OF _ acc(2)] assms(1) by (simp add: store_ok_def)
  have same: "meta_id (lab_meta ?lb) = lid" "meta_name (lab_meta ?lb) = meta_name (lab_meta (j_lab j))" "generation (lab_meta ?lb) = generation (lab_meta (j_lab j))"
    using lid by (simp_all add: fail_lab_def split: option.splits)
  have w': "w_store w' = logged (update_lab (e_now e) ?lb) s"
    using repair_run_store [OF assms(4)] acc(1) by (simp add: repair_done_def)
  have eq: "w_store w' = s\<lparr>t_io := [], t_labs := put_lab (e_now e) ?lb (t_labs s)\<rparr>"
    unfolding w' by (rule update_lab_plain(1) [OF assms(1,2), of _ "j_lab j"]) (use same acc(2) in simp_all)
  have "lid \<in> row_id ` set (t_labs s)" using get_doc_row [OF acc(2)] by auto
  then show ?thesis using acc(2) same by (simp add: eq get_put_lab repaired_def touch_lab_def)
qed

definition repair_store :: store where
  "repair_store = flow_store\<lparr>t_labs := [\<lparr>row_id = ''lab-1'', row_scope = [], row_name = ''demo'', row_doc = flow_lab 3\<rparr>]\<rparr>"

lemma repair_store_ok: "store_ok repair_store" "t_io repair_store = []"
  by code_simp+

lemma repair_deploy_fails:
  assumes "snd (e_deploy e (generation_dir (e_data_dir e) (meta_id (lab_meta (j_lab j))) (generation (lab_meta (j_lab j))))) = Some m"
  shows "\<exists>tr w'. run_repair e j w = Some (Some m, tr, w')"
proof -
  obtain rs where "e_deploy e (generation_dir (e_data_dir e) (meta_id (lab_meta (j_lab j))) (generation (lab_meta (j_lab j)))) = (rs, Some m)"
    using assms by (metis prod.collapse)
  then show ?thesis by (auto simp: run_repair_def repair_steps_def Let_def split: prod.splits)
qed

theorem repair_keeps_everything_else_witness:
  "\<exists>j tr w w'. repair_lab (4, 0) 5 ''lab-1'' repair_store = (Inr j, w_store w) \<and> run_repair (flow_env (Some ''boom'')) j w = Some (Some ''boom'', tr, w') \<and>
     get_doc ''lab-1'' (t_labs (w_store w')) = Inr (repaired (flow_env (Some ''boom'')) (Some ''boom'') (flow_lab 3))"
proof -
  let ?e = "flow_env (Some ''boom'')"
  have "get_doc ''lab-1'' (t_labs repair_store) = Inr (flow_lab 3)" by (simp add: repair_store_def get_doc_def)
  then obtain j where j: "repair_lab (4, 0) 5 ''lab-1'' repair_store = (Inr j, repair_store)" "j_lab j = flow_lab 3"
    using repair_store_ok(2) by (simp add: repair_lab_def sbind_def serr_def slift_def read_plain flow_lab_def)
  let ?w = "flow_world repair_store"
  obtain tr w' where r: "run_repair ?e j ?w = Some (Some ''boom'', tr, w')"
    using repair_deploy_fails [of ?e j "''boom''" ?w] by (auto simp: flow_env_def)
  have w: "repair_lab (4, 0) 5 ''lab-1'' repair_store = (Inr j, w_store ?w)" using j(1) by (simp add: flow_world_def)
  have "get_doc ''lab-1'' (t_labs (w_store w')) = Inr (repaired ?e (Some ''boom'') (flow_lab 3))"
    using repair_keeps_everything_else [OF repair_store_ok w r, of "''lab-1''"] j(2) by simp
  then show ?thesis using w r by blast
qed

end
