(* ===== verification/Supervisor.thy ===== *)
theory Supervisor
  imports Paths "HOL-Library.Product_Lexorder"
begin

text \<open>
  nodeapps/internal/nodeagent/manager.go and health.go: the supervisor inside a server. Every critical section of the
  manager's mutex is one step: of a request, of the goroutine that supervises a process (a \<open>run\<close>), or of a
  goroutine that probes it (a \<open>monitor\<close>). Program objects, runs and monitors are the entries of lists, so that
  an object the map of names no longer holds still exists for the goroutines that point to it. What the
  operating system answers (a process id or an error, whether a file is there or can be written) comes with
  the step. Process ids are positive, durations are nanoseconds, \<open>StateUnset\<close> and \<open>HealthUnset\<close> are empty strings.
\<close>

section \<open>Definitions of programs\<close>

datatype agent_state = StateUnset | StateConfigured | StateRunning | StateStopped | StateFailed | StateExited

datatype agent_health = HealthUnset | HealthUnknown | HealthHealthy | HealthUnhealthy

record agent_check =
  c_type :: string
  c_port :: int
  c_path :: string
  c_interval :: int
  c_timeout :: int
  c_threshold :: int

record agent_spec =
  as_name :: string
  as_package :: string
  as_version :: string
  as_entrypoint :: string
  as_args :: "string list"
  as_policy :: string
  as_type :: string
  as_auto :: bool
  as_live :: "agent_check option"
  as_ready :: "agent_check option"
  as_order :: int

datatype check_error = PortOutOfRange int | InvalidCheckType string

datatype manager_error = InvalidName string | InvalidPolicy string | InvalidType string | OneshotAlways
  | LivenessInvalid check_error | ReadinessInvalid check_error | InvalidEntrypoint string | PackageMissing string string string
  | StillRunning string | DirUncreatable string | MetaUnwritable string | NotInstalled string | NotStopped string
  | SpawnError string | DirUnremovable string

definition name_char :: "char \<Rightarrow> bool" where
  "name_char c \<longleftrightarrow> (CHR ''a'' \<le> c \<and> c \<le> CHR ''z'') \<or> (CHR ''0'' \<le> c \<and> c \<le> CHR ''9'')"

definition name_ok :: "string \<Rightarrow> bool" where
  "name_ok s \<longleftrightarrow> s \<noteq> [] \<and> length s \<le> 63 \<and> name_char (hd s) \<and> list_all (\<lambda>c. name_char c \<or> c = CHR ''-'') (tl s)"

definition probe_interval :: "int \<Rightarrow> int" where
  "probe_interval i = (let j = (if i \<le> 0 then 10000000000 else i) in if j < 1000000000 then 1000000000 else j)"

definition probe_timeout :: "int \<Rightarrow> int \<Rightarrow> int" where
  "probe_timeout i t = (let u = (if t \<le> 0 then 1000000000 else t) in if u \<ge> i then i div 2 else u)"

definition empty_check :: agent_check where
  "empty_check = \<lparr>c_type = [], c_port = 0, c_path = [], c_interval = 0, c_timeout = 0, c_threshold = 0\<rparr>"

definition valid_check :: "agent_check \<Rightarrow> check_error option" where
  "valid_check h = (if c_type h = ''process'' then None
     else if c_type h = ''tcp'' \<or> c_type h = ''http'' then (if c_port h \<le> 0 \<or> c_port h > 65535 then Some (PortOutOfRange (c_port h)) else None)
     else Some (InvalidCheckType (c_type h)))"

definition normalise :: "agent_check \<Rightarrow> check_error + agent_check" where
  "normalise h = (if c_type h = [] then Inr empty_check
     else case valid_check h of Some e \<Rightarrow> Inl e
     | None \<Rightarrow> (let i = probe_interval (c_interval h)
        in Inr (h\<lparr>c_path := if c_type h = ''http'' \<and> c_path h = [] then ''/'' else c_path h,
                  c_interval := i, c_timeout := probe_timeout i (c_timeout h),
                  c_threshold := if c_threshold h \<le> 0 then 3 else c_threshold h\<rparr>)))"

definition normalise_check :: "agent_check option \<Rightarrow> check_error + agent_check option" where
  "normalise_check hc = (case hc of None \<Rightarrow> Inr None
     | Some h \<Rightarrow> ebind (normalise h) (\<lambda>c. Inr (if c_type c = [] then None else Some c)))"

text \<open>The checks of \<open>Install\<close> before it takes the lock.\<close>

definition normalise_policy :: "string \<Rightarrow> manager_error + string" where
  "normalise_policy p = (if p \<in> {''Never'', ''OnFailure'', ''Always''} then Inr p
     else if p = [] then Inr ''Never'' else Inl (InvalidPolicy p))"

definition normalise_type :: "string \<Rightarrow> manager_error + string" where
  "normalise_type t = (if t \<in> {''simple'', ''oneshot''} then Inr t
     else if t = [] then Inr ''simple'' else Inl (InvalidType t))"

definition package_dir :: "string \<Rightarrow> string \<Rightarrow> string \<Rightarrow> string" where
  "package_dir dir nm v = path_join [dir, ''packages'', nm, v]"

text \<open>\<open>regular\<close> says of a path whether a regular file is there.\<close>

definition entrypoint_path :: "string \<Rightarrow> (string \<Rightarrow> bool) \<Rightarrow> agent_spec \<Rightarrow> manager_error + string" where
  "entrypoint_path dir regular sp =
    (if as_entrypoint sp = [] \<or> \<not> is_local (as_entrypoint sp) then Inl (InvalidEntrypoint (as_entrypoint sp))
     else let p = path_join [package_dir dir (as_package sp) (as_version sp), as_entrypoint sp]
          in if regular p then Inr p else Inl (PackageMissing (as_package sp) (as_version sp) (as_entrypoint sp)))"

definition checked_spec :: "string \<Rightarrow> (string \<Rightarrow> bool) \<Rightarrow> agent_spec \<Rightarrow> manager_error + agent_spec" where
  "checked_spec dir regular sp =
    (if \<not> name_ok (as_name sp) then Inl (InvalidName (as_name sp)) else
     ebind (normalise_policy (as_policy sp)) (\<lambda>pol.
     ebind (normalise_type (as_type sp)) (\<lambda>ty.
     if ty = ''oneshot'' \<and> pol = ''Always'' then Inl OneshotAlways else
     ebind (emap_err LivenessInvalid (normalise_check (as_live sp))) (\<lambda>lc.
     ebind (emap_err ReadinessInvalid (normalise_check (as_ready sp))) (\<lambda>rc.
       let sp' = sp\<lparr>as_policy := pol, as_type := ty, as_live := lc, as_ready := rc\<rparr> in
     ebind (entrypoint_path dir regular sp') (\<lambda>_. Inr sp'))))))"

section \<open>The manager\<close>

datatype failure = Spawning manager_error | ExitStatus string

record agent_program =
  ap_spec :: agent_spec
  ap_state :: agent_state
  ap_pid :: nat
  ap_restarts :: nat
  ap_last_err :: "failure option"
  ap_health :: agent_health
  ap_ready :: bool
  ap_started :: nat
  ap_desired :: agent_state
  ap_run :: "nat option"

datatype run_phase = Waiting nat | Backing | Ended

record run =
  r_program :: nat
  r_cancelled :: bool
  r_phase :: run_phase
  r_backoff :: int

datatype monitor_kind = Liveness | Readiness

record monitor =
  mo_program :: nat
  mo_run :: nat
  mo_kind :: monitor_kind
  mo_check :: agent_check
  mo_live :: bool
  mo_probing :: "nat option"
  mo_failures :: int
  mo_monitored :: nat

record agent_meta =
  am_spec :: agent_spec
  am_desired :: agent_state
  am_pid :: nat

record manager =
  m_dir :: string
  m_programs :: "agent_program list"
  m_names :: "string \<Rightarrow> nat option"
  m_runs :: "run list"
  m_monitors :: "monitor list"
  m_disk :: "string \<Rightarrow> agent_meta option"
  m_signals :: "nat list"

abbreviation program_at :: "manager \<Rightarrow> nat \<Rightarrow> agent_program" where "program_at m a \<equiv> m_programs m ! a"

abbreviation run_at :: "manager \<Rightarrow> nat \<Rightarrow> run" where "run_at m k \<equiv> m_runs m ! k"

definition set_program :: "nat \<Rightarrow> agent_program \<Rightarrow> manager \<Rightarrow> manager" where
  "set_program a p m = m\<lparr>m_programs := (m_programs m)[a := p]\<rparr>"

definition set_run :: "nat \<Rightarrow> run \<Rightarrow> manager \<Rightarrow> manager" where
  "set_run k r m = m\<lparr>m_runs := (m_runs m)[k := r]\<rparr>"

definition set_monitor :: "nat \<Rightarrow> monitor \<Rightarrow> manager \<Rightarrow> manager" where
  "set_monitor k x m = m\<lparr>m_monitors := (m_monitors m)[k := x]\<rparr>"

definition new_program :: "agent_spec \<Rightarrow> agent_state \<Rightarrow> agent_program" where
  "new_program sp desired = \<lparr>ap_spec = sp, ap_state = StateConfigured, ap_pid = 0, ap_restarts = 0, ap_last_err = None,
     ap_health = HealthUnset, ap_ready = False, ap_started = 0, ap_desired = desired, ap_run = None\<rparr>"

text \<open>\<open>persistLocked\<close>: \<open>writable\<close> says whether the file could be written.\<close>

definition persist :: "bool \<Rightarrow> nat \<Rightarrow> manager \<Rightarrow> manager_error option \<times> manager" where
  "persist writable a m = (let p = program_at m a in
     if writable then (None, m\<lparr>m_disk := (m_disk m)(as_name (ap_spec p) \<mapsto> \<lparr>am_spec = ap_spec p, am_desired = ap_desired p, am_pid = ap_pid p\<rparr>)\<rparr>)
     else (Some (MetaUnwritable (as_name (ap_spec p))), m))"

text \<open>\<open>spawn\<close>: what the system answers to starting the process is a process id or an error.\<close>

definition spawn :: "string \<Rightarrow> (string \<Rightarrow> bool) \<Rightarrow> string + nat \<Rightarrow> agent_spec \<Rightarrow> manager_error + nat" where
  "spawn dir regular os sp = ebind (entrypoint_path dir regular sp) (\<lambda>_. emap_err SpawnError os)"

definition new_monitor :: "nat \<Rightarrow> nat \<Rightarrow> monitor_kind \<Rightarrow> agent_check \<Rightarrow> monitor" where
  "new_monitor a k kd c = \<lparr>mo_program = a, mo_run = k, mo_kind = kd, mo_check = c, mo_live = True, mo_probing = None, mo_failures = 0, mo_monitored = 0\<rparr>"

definition monitors_for :: "nat \<Rightarrow> nat \<Rightarrow> agent_spec \<Rightarrow> monitor list" where
  "monitors_for a k sp = (case as_live sp of None \<Rightarrow> [] | Some c \<Rightarrow> [new_monitor a k Liveness c]) @
     (case as_ready sp of None \<Rightarrow> [] | Some c \<Rightarrow> [new_monitor a k Readiness c])"

definition initial_backoff :: int where "initial_backoff = 1000000000"

definition max_backoff :: int where "max_backoff = 15000000000"

definition start_locked :: "(string \<Rightarrow> bool) \<Rightarrow> string + nat \<Rightarrow> nat \<Rightarrow> nat \<Rightarrow> manager \<Rightarrow> manager_error option \<times> manager" where
  "start_locked regular os now a m = (let p = program_at m a; k = length (m_runs m) in
     case spawn (m_dir m) regular os (ap_spec p) of
       Inl e \<Rightarrow> (Some e, set_program a (p\<lparr>ap_state := StateFailed, ap_last_err := Some (Spawning e)\<rparr>) m)
     | Inr pid \<Rightarrow>
        (let p' = p\<lparr>ap_state := StateRunning, ap_pid := pid, ap_restarts := 0, ap_last_err := None, ap_health := HealthUnknown,
                    ap_ready := (as_ready (ap_spec p) = None), ap_started := now, ap_run := Some k\<rparr>;
             m' = set_program a p' m
         in (None, m'\<lparr>m_runs := m_runs m @ [\<lparr>r_program = a, r_cancelled = False, r_phase = Waiting pid, r_backoff = initial_backoff\<rparr>],
                      m_monitors := m_monitors m @ monitors_for a k (ap_spec p)\<rparr>)))"

section \<open>Requests\<close>

definition install :: "(string \<Rightarrow> bool) \<Rightarrow> bool \<Rightarrow> bool \<Rightarrow> agent_spec \<Rightarrow> manager \<Rightarrow> (manager_error + agent_program) \<times> manager" where
  "install regular creatable writable sp0 m = (case checked_spec (m_dir m) regular sp0 of Inl e \<Rightarrow> (Inl e, m)
   | Inr sp \<Rightarrow>
      (if (case m_names m (as_name sp) of None \<Rightarrow> False | Some a \<Rightarrow> ap_state (program_at m a) = StateRunning) then (Inl (StillRunning (as_name sp)), m)
       else if \<not> creatable then (Inl (DirUncreatable (as_name sp)), m)
       else (let a = length (m_programs m); p = new_program sp StateStopped;
                 m' = m\<lparr>m_programs := m_programs m @ [p], m_names := (m_names m)(as_name sp \<mapsto> a)\<rparr>
             in case persist writable a m' of (Some e, m'') \<Rightarrow> (Inl e, m'') | (None, m'') \<Rightarrow> (Inr p, m''))))"

definition start :: "(string \<Rightarrow> bool) \<Rightarrow> string + nat \<Rightarrow> nat \<Rightarrow> bool \<Rightarrow> string \<Rightarrow> manager \<Rightarrow> (manager_error + agent_program) \<times> manager" where
  "start regular os now writable nm m = (case m_names m nm of None \<Rightarrow> (Inl (NotInstalled nm), m)
   | Some a \<Rightarrow>
      (if ap_state (program_at m a) = StateRunning then (Inr (program_at m a), m)
       else case start_locked regular os now a (set_program a ((program_at m a)\<lparr>ap_desired := StateRunning\<rparr>) m) of
          (Some e, m') \<Rightarrow> (Inl e, m')
        | (None, m') \<Rightarrow> (case persist writable a m' of (Some e, m'') \<Rightarrow> (Inl e, m'') | (None, m'') \<Rightarrow> (Inr (program_at m'' a), m''))))"

text \<open>\<open>Stop\<close> and \<open>terminate\<close> take the lock three times: to record the desired state, to read the run that they
  then cancel and wait for, and to report the program. A second lookup of the name may fail.\<close>

definition stop_mark :: "bool \<Rightarrow> string \<Rightarrow> manager \<Rightarrow> (manager_error + nat) \<times> manager" where
  "stop_mark writable nm m = (case m_names m nm of None \<Rightarrow> (Inl (NotInstalled nm), m)
   | Some a \<Rightarrow> (case persist writable a (set_program a ((program_at m a)\<lparr>ap_desired := StateStopped\<rparr>) m) of
       (Some e, m') \<Rightarrow> (Inl e, m') | (None, m') \<Rightarrow> (Inr a, m')))"

definition stop_cancel :: "string \<Rightarrow> manager \<Rightarrow> (manager_error + nat option) \<times> manager" where
  "stop_cancel nm m = (case m_names m nm of None \<Rightarrow> (Inl (NotInstalled nm), m)
   | Some a \<Rightarrow> (case ap_run (program_at m a) of None \<Rightarrow> (Inr None, m)
       | Some k \<Rightarrow> (Inr (Some k), set_run k ((run_at m k)\<lparr>r_cancelled := True\<rparr>) m)))"

definition stop_ended :: "string \<Rightarrow> nat option \<Rightarrow> manager \<Rightarrow> manager_error option" where
  "stop_ended nm k m = (case k of None \<Rightarrow> None | Some i \<Rightarrow> if r_phase (run_at m i) = Ended then None else Some (NotStopped nm))"

text \<open>The end of \<open>Remove\<close>.\<close>

definition remove_entry :: "bool \<Rightarrow> string \<Rightarrow> manager \<Rightarrow> manager_error option \<times> manager" where
  "remove_entry removable nm m = (let m' = m\<lparr>m_names := (m_names m)(nm := None)\<rparr> in
     if removable then (None, m'\<lparr>m_disk := (m_disk m)(nm := None)\<rparr>) else (Some (DirUnremovable nm), m'))"

section \<open>Supervision\<close>

text \<open>What the supervisor decides when the process has exited: the program, and whether to restart.\<close>

definition exited :: "bool \<Rightarrow> string option \<Rightarrow> agent_program \<Rightarrow> agent_program \<times> bool" where
  "exited cancelled err p0 = (let p = p0\<lparr>ap_pid := 0, ap_health := HealthUnknown, ap_ready := False\<rparr>; pol = as_policy (ap_spec p) in
     if cancelled \<or> ap_desired p \<noteq> StateRunning then (p\<lparr>ap_state := StateStopped\<rparr>, False)
     else if pol = ''Always'' \<or> (pol = ''OnFailure'' \<and> err \<noteq> None)
       then (p\<lparr>ap_last_err := (case err of None \<Rightarrow> ap_last_err p | Some e \<Rightarrow> Some (ExitStatus e))\<rparr>, True)
     else (case err of Some e \<Rightarrow> (p\<lparr>ap_state := StateFailed, ap_last_err := Some (ExitStatus e)\<rparr>, False)
       | None \<Rightarrow> if as_type (ap_spec p) = ''oneshot'' then (p\<lparr>ap_state := StateExited, ap_desired := StateStopped\<rparr>, False)
           else (p\<lparr>ap_state := StateStopped\<rparr>, False)))"

definition process_exit :: "string option \<Rightarrow> bool \<Rightarrow> nat \<Rightarrow> manager \<Rightarrow> manager" where
  "process_exit err writable k m = (let r = run_at m k; a = r_program r; (p, again) = exited (r_cancelled r) err (program_at m a)
     in set_run k (r\<lparr>r_phase := if again then Backing else Ended\<rparr>) (snd (persist writable a (set_program a p m))))"

definition backoff_cancelled :: "nat \<Rightarrow> manager \<Rightarrow> manager" where
  "backoff_cancelled k m = (let r = run_at m k; a = r_program r
     in set_run k (r\<lparr>r_phase := Ended\<rparr>) (set_program a ((program_at m a)\<lparr>ap_state := StateStopped\<rparr>) m))"

definition next_backoff :: "int \<Rightarrow> int" where
  "next_backoff b = min (b * 2) max_backoff"

definition respawn :: "(string \<Rightarrow> bool) \<Rightarrow> string + nat \<Rightarrow> nat \<Rightarrow> bool \<Rightarrow> nat \<Rightarrow> manager \<Rightarrow> manager" where
  "respawn regular os now writable k m = (let r = run_at m k; a = r_program r; p = program_at m a; b = next_backoff (r_backoff r) in
     case spawn (m_dir m) regular os (ap_spec p) of
       Inl e \<Rightarrow> set_run k (r\<lparr>r_phase := Ended, r_backoff := b\<rparr>) (set_program a (p\<lparr>ap_state := StateFailed, ap_last_err := Some (Spawning e)\<rparr>) m)
     | Inr pid \<Rightarrow> set_run k (r\<lparr>r_phase := Waiting pid, r_backoff := b\<rparr>)
         (snd (persist writable a (set_program a (p\<lparr>ap_restarts := ap_restarts p + 1, ap_pid := pid, ap_started := now,
            ap_state := StateRunning, ap_ready := (as_ready (ap_spec p) = None)\<rparr>) m))))"

section \<open>Probing\<close>

text \<open>A tick reads the program; a program that does not run is not probed, and a readiness monitor then goes on to
  set the verdict to not ready (it probes the process id 0).\<close>

definition monitor_tick :: "nat \<Rightarrow> manager \<Rightarrow> manager" where
  "monitor_tick i m = (let x = m_monitors m ! i; p = program_at m (mo_program x);
       runs = (ap_state p = StateRunning \<and> ap_pid p \<noteq> 0) in
     set_monitor i (case mo_kind x of
       Liveness \<Rightarrow> if \<not> runs then x\<lparr>mo_failures := 0, mo_monitored := 0\<rparr>
         else x\<lparr>mo_failures := if ap_pid p \<noteq> mo_monitored x then 0 else mo_failures x, mo_monitored := ap_pid p, mo_probing := Some (ap_pid p)\<rparr>
     | Readiness \<Rightarrow> x\<lparr>mo_probing := Some (if runs then ap_pid p else 0)\<rparr>) m)"

definition set_health :: "nat \<Rightarrow> agent_health \<Rightarrow> manager \<Rightarrow> manager" where
  "set_health a h m = (if ap_state (program_at m a) = StateRunning then set_program a ((program_at m a)\<lparr>ap_health := h\<rparr>) m else m)"

definition set_ready :: "nat \<Rightarrow> bool \<Rightarrow> manager \<Rightarrow> manager" where
  "set_ready a b m = (if ap_state (program_at m a) = StateRunning then set_program a ((program_at m a)\<lparr>ap_ready := b\<rparr>) m else m)"

text \<open>The verdict \<open>ok\<close> on the process \<open>pid\<close> that was probed.\<close>

definition monitor_verdict :: "bool \<Rightarrow> nat \<Rightarrow> nat \<Rightarrow> manager \<Rightarrow> manager" where
  "monitor_verdict ok pid i m = (let x = (m_monitors m ! i)\<lparr>mo_probing := None\<rparr>; a = mo_program x in
     case mo_kind x of
       Readiness \<Rightarrow> set_monitor i x (set_ready a (pid \<noteq> 0 \<and> ok) m)
     | Liveness \<Rightarrow>
        (if ok then set_monitor i (x\<lparr>mo_failures := 0\<rparr>) (set_health a HealthHealthy m)
         else if mo_failures x + 1 < c_threshold (mo_check x) then set_monitor i (x\<lparr>mo_failures := mo_failures x + 1\<rparr>) m
         else (let m' = set_health a HealthUnhealthy m
               in set_monitor i (x\<lparr>mo_failures := 0, mo_monitored := 0\<rparr>) (m'\<lparr>m_signals := m_signals m @ [pid]\<rparr>))))"

section \<open>Steps\<close>

datatype agent_event =
    Install "string \<Rightarrow> bool" bool bool agent_spec
  | Start "string \<Rightarrow> bool" "string + nat" nat bool string
  | StopMark bool string
  | StopCancel string
  | RemoveEntry bool string
  | ProcessExit "string option" bool nat
  | BackoffCancelled nat
  | Respawn "string \<Rightarrow> bool" "string + nat" nat bool nat
  | Tick nat
  | Verdict bool nat
  | MonitorEnd nat

definition live_pids :: "manager \<Rightarrow> nat list" where
  "live_pids m = concat (map (\<lambda>r. case r_phase r of Waiting pid \<Rightarrow> [pid] | _ \<Rightarrow> []) (m_runs m))"

definition fresh_answer :: "string + nat \<Rightarrow> manager \<Rightarrow> bool" where
  "fresh_answer os m \<longleftrightarrow> (case os of Inl _ \<Rightarrow> True | Inr pid \<Rightarrow> 0 < pid \<and> pid \<notin> set (live_pids m))"

text \<open>A step happens when its goroutine is there and the system answers with a process id that is not in use.\<close>

fun agent_step :: "agent_event \<Rightarrow> manager \<Rightarrow> manager option" where
  "agent_step (Install regular creatable writable sp) m = Some (snd (install regular creatable writable sp m))"
| "agent_step (Start regular os now writable nm) m = (if fresh_answer os m then Some (snd (start regular os now writable nm m)) else None)"
| "agent_step (StopMark writable nm) m = Some (snd (stop_mark writable nm m))"
| "agent_step (StopCancel nm) m = Some (snd (stop_cancel nm m))"
| "agent_step (RemoveEntry removable nm) m = Some (snd (remove_entry removable nm m))"
| "agent_step (ProcessExit err writable k) m =
    (if k < length (m_runs m) \<and> (case r_phase (run_at m k) of Waiting _ \<Rightarrow> True | _ \<Rightarrow> False) then Some (process_exit err writable k m) else None)"
| "agent_step (BackoffCancelled k) m =
    (if k < length (m_runs m) \<and> r_phase (run_at m k) = Backing \<and> r_cancelled (run_at m k) then Some (backoff_cancelled k m) else None)"
| "agent_step (Respawn regular os now writable k) m =
    (if k < length (m_runs m) \<and> r_phase (run_at m k) = Backing \<and> fresh_answer os m then Some (respawn regular os now writable k m) else None)"
| "agent_step (Tick i) m =
    (if i < length (m_monitors m) \<and> mo_live (m_monitors m ! i) \<and> mo_probing (m_monitors m ! i) = None then Some (monitor_tick i m) else None)"
| "agent_step (Verdict ok i) m =
    (if i < length (m_monitors m) \<and> mo_live (m_monitors m ! i) then
       (case mo_probing (m_monitors m ! i) of None \<Rightarrow> None | Some pid \<Rightarrow> Some (monitor_verdict ok pid i m)) else None)"
| "agent_step (MonitorEnd i) m =
    (if i < length (m_monitors m) \<and> mo_live (m_monitors m ! i) \<and> mo_probing (m_monitors m ! i) = None \<and> r_cancelled (run_at m (mo_run (m_monitors m ! i)))
     then Some (set_monitor i ((m_monitors m ! i)\<lparr>mo_live := False\<rparr>) m) else None)"

fun agent_steps :: "agent_event list \<Rightarrow> manager \<Rightarrow> manager option" where
  "agent_steps [] m = Some m"
| "agent_steps (ev # evs) m = (case agent_step ev m of None \<Rightarrow> None | Some m' \<Rightarrow> agent_steps evs m')"

section \<open>Booting\<close>

text \<open>\<open>NewManager\<close>: the directory entries with what \<open>readMeta\<close> returns for each; a process that the last life of the
  agent left behind is killed. Starting a program has its own answer of the system.\<close>

definition empty_manager :: "string \<Rightarrow> manager" where
  "empty_manager dir = \<lparr>m_dir = dir, m_programs = [], m_names = Map.empty, m_runs = [], m_monitors = [], m_disk = Map.empty, m_signals = []\<rparr>"

definition load_meta :: "manager \<times> nat list \<Rightarrow> string \<times> agent_meta option \<Rightarrow> manager \<times> nat list" where
  "load_meta st e = (let (m, to_start) = st in case snd e of None \<Rightarrow> (m, to_start)
   | Some mt \<Rightarrow>
      (if \<not> name_ok (as_name (am_spec mt)) then (m, to_start)
       else (let a = length (m_programs m)
             in (m\<lparr>m_programs := m_programs m @ [new_program (am_spec mt) (am_desired mt)], m_names := (m_names m)(as_name (am_spec mt) \<mapsto> a),
                  m_signals := m_signals m @ (if 0 < am_pid mt then [am_pid mt] else [])\<rparr>,
                 to_start @ (if am_desired mt = StateRunning \<or> as_auto (am_spec mt) then [a] else [])))))"

definition startup_key :: "agent_program \<Rightarrow> int \<times> string" where
  "startup_key p = (as_order (ap_spec p), as_name (ap_spec p))"

definition sort_by_startup_order :: "manager \<Rightarrow> nat list \<Rightarrow> nat list" where
  "sort_by_startup_order m as = sort_key (\<lambda>a. startup_key (program_at m a)) as"

definition boot_start :: "(string \<Rightarrow> bool) \<Rightarrow> (nat \<Rightarrow> string + nat) \<Rightarrow> (nat \<Rightarrow> bool) \<Rightarrow> nat \<Rightarrow> manager \<Rightarrow> nat \<Rightarrow> manager" where
  "boot_start regular os writable now m a =
    (let m1 = snd (start_locked regular (os a) now a (set_program a ((program_at m a)\<lparr>ap_desired := StateRunning\<rparr>) m))
     in snd (persist (writable a) a m1))"

definition boot :: "string \<Rightarrow> (string \<Rightarrow> agent_meta option) \<Rightarrow> string list \<Rightarrow> (string \<Rightarrow> bool) \<Rightarrow> (nat \<Rightarrow> string + nat) \<Rightarrow> (nat \<Rightarrow> bool) \<Rightarrow> nat \<Rightarrow> manager" where
  "boot dir disk entries regular os writable now =
    (let (m, to_start) = foldl load_meta ((empty_manager dir)\<lparr>m_disk := disk\<rparr>, []) (map (\<lambda>n. (n, disk n)) entries)
     in foldl (boot_start regular os writable now) m (sort_by_startup_order m to_start))"

section \<open>Reports\<close>

text \<open>\<open>List\<close>: the programs the map holds, by name; \<open>names\<close> are the keys in the order the map is iterated.\<close>

definition list_programs_of :: "string list \<Rightarrow> manager \<Rightarrow> agent_program list" where
  "list_programs_of names m = sort_key (\<lambda>p. as_name (ap_spec p)) (map (program_at m) (List.map_filter (m_names m) names))"

end
