(* ===== verification/SupervisorProps.thy ===== *)
theory SupervisorProps
  imports Supervisor
begin

text \<open>
  The supervisor under every interleaving of its requests and goroutines: a program reported as running has exactly
  one live run, whose process is the one it reports; processes belong to installed programs as long as no
  program is started while it is being removed; a cancelled run ends after at most one more process.
\<close>

section \<open>The invariant\<close>

fun phase_pid :: "run_phase \<Rightarrow> nat" where
  "phase_pid (Waiting pid) = pid"
| "phase_pid _ = 0"

definition run_ok :: "manager \<Rightarrow> nat \<Rightarrow> bool" where
  "run_ok m k \<longleftrightarrow> (let r = run_at m k; p = program_at m (r_program r) in
     r_program r < length (m_programs m) \<and> r_phase r \<noteq> Waiting 0 \<and>
     (r_phase r \<noteq> Ended \<longrightarrow> ap_run p = Some k \<and> ap_state p = StateRunning \<and> ap_pid p = phase_pid (r_phase r)))"

definition program_ok :: "manager \<Rightarrow> nat \<Rightarrow> bool" where
  "program_ok m a \<longleftrightarrow> (let p = program_at m a in
     (case ap_run p of None \<Rightarrow> ap_state p \<noteq> StateRunning
      | Some k \<Rightarrow> k < length (m_runs m) \<and> r_program (run_at m k) = a \<and> (ap_state p = StateRunning \<longleftrightarrow> r_phase (run_at m k) \<noteq> Ended)) \<and>
     (ap_state p \<noteq> StateRunning \<longrightarrow> ap_pid p = 0))"

definition monitor_ok :: "manager \<Rightarrow> monitor \<Rightarrow> bool" where
  "monitor_ok m x \<longleftrightarrow> mo_program x < length (m_programs m) \<and> mo_run x < length (m_runs m)"

definition pids_differ :: "run list \<Rightarrow> bool" where
  "pids_differ rs \<longleftrightarrow> (\<forall>j < length rs. \<forall>k < length rs. r_phase (rs ! j) = r_phase (rs ! k) \<and> phase_pid (r_phase (rs ! j)) \<noteq> 0 \<longrightarrow> j = k)"

definition agent_ok :: "manager \<Rightarrow> bool" where
  "agent_ok m \<longleftrightarrow> (\<forall>k < length (m_runs m). run_ok m k) \<and> (\<forall>a < length (m_programs m). program_ok m a) \<and>
     (\<forall>nm a. m_names m nm = Some a \<longrightarrow> a < length (m_programs m) \<and> as_name (ap_spec (program_at m a)) = nm) \<and>
     (\<forall>x \<in> set (m_monitors m). monitor_ok m x) \<and> pids_differ (m_runs m)"

lemma live_pids_iff: "pid \<in> set (live_pids m) \<longleftrightarrow> (\<exists>k < length (m_runs m). r_phase (run_at m k) = Waiting pid)"
proof -
  have "pid \<in> set (live_pids m) \<longleftrightarrow> (\<exists>r \<in> set (m_runs m). r_phase r = Waiting pid)"
    by (force simp: live_pids_def split: run_phase.splits)
  then show ?thesis by (metis in_set_conv_nth)
qed

lemma set_sel [simp]:
  "m_programs (set_program a p m) = (m_programs m)[a := p]" "m_runs (set_program a p m) = m_runs m" "m_names (set_program a p m) = m_names m"
  "m_monitors (set_program a p m) = m_monitors m" "m_dir (set_program a p m) = m_dir m" "m_disk (set_program a p m) = m_disk m"
  "m_programs (set_run k r m) = m_programs m" "m_runs (set_run k r m) = (m_runs m)[k := r]" "m_names (set_run k r m) = m_names m"
  "m_monitors (set_run k r m) = m_monitors m" "m_dir (set_run k r m) = m_dir m"
  "m_programs (set_monitor i x m) = m_programs m" "m_runs (set_monitor i x m) = m_runs m" "m_names (set_monitor i x m) = m_names m"
  "m_monitors (set_monitor i x m) = (m_monitors m)[i := x]"
  by (simp_all add: set_program_def set_run_def set_monitor_def)

lemma persist_sel [simp]:
  "m_programs (snd (persist w a m)) = m_programs m" "m_runs (snd (persist w a m)) = m_runs m" "m_names (snd (persist w a m)) = m_names m"
  "m_monitors (snd (persist w a m)) = m_monitors m" "m_dir (snd (persist w a m)) = m_dir m"
  by (simp_all add: persist_def Let_def)

text \<open>The invariant does not look at the disk and the signals.\<close>

lemma agent_ok_cong:
  assumes "m_programs m' = m_programs m" "m_runs m' = m_runs m" "m_names m' = m_names m" "m_monitors m' = m_monitors m"
  shows "agent_ok m' = agent_ok m"
  using assms by (simp add: agent_ok_def run_ok_def program_ok_def monitor_ok_def cong: option.case_cong)

lemma agent_okD:
  assumes "agent_ok m"
  shows "k < length (m_runs m) \<Longrightarrow> r_program (run_at m k) < length (m_programs m)" "k < length (m_runs m) \<Longrightarrow> r_phase (run_at m k) \<noteq> Waiting 0"
    "k < length (m_runs m) \<Longrightarrow> r_phase (run_at m k) \<noteq> Ended \<Longrightarrow> ap_run (program_at m (r_program (run_at m k))) = Some k"
    "k < length (m_runs m) \<Longrightarrow> r_phase (run_at m k) \<noteq> Ended \<Longrightarrow> ap_state (program_at m (r_program (run_at m k))) = StateRunning"
    "k < length (m_runs m) \<Longrightarrow> r_phase (run_at m k) \<noteq> Ended \<Longrightarrow> ap_pid (program_at m (r_program (run_at m k))) = phase_pid (r_phase (run_at m k))"
    "a < length (m_programs m) \<Longrightarrow> program_ok m a" "m_names m nm = Some a \<Longrightarrow> a < length (m_programs m)"
    "m_names m nm = Some a \<Longrightarrow> as_name (ap_spec (program_at m a)) = nm" "x \<in> set (m_monitors m) \<Longrightarrow> monitor_ok m x"
    "j < length (m_runs m) \<Longrightarrow> k < length (m_runs m) \<Longrightarrow> r_phase (run_at m j) = r_phase (run_at m k) \<Longrightarrow> phase_pid (r_phase (run_at m j)) \<noteq> 0 \<Longrightarrow> j = k"
  using assms by (simp_all add: agent_ok_def run_ok_def pids_differ_def Let_def)

text \<open>What a goroutine may do to the program it supervises and to its own run.\<close>

lemma agent_ok_supervise:
  assumes ok: "agent_ok m" and k: "k < length (m_runs m)" "r_program (run_at m k) = a" "ap_run (program_at m a) = Some k"
    and r': "r_program r' = a" "r_phase r' \<noteq> Waiting 0"
      "phase_pid (r_phase r') = 0 \<or> r_phase r' = r_phase (run_at m k) \<or> phase_pid (r_phase r') \<notin> set (live_pids m)"
    and p': "ap_run p' = Some k" "as_name (ap_spec p') = as_name (ap_spec (program_at m a))"
      "ap_state p' = StateRunning \<longleftrightarrow> r_phase r' \<noteq> Ended" "ap_pid p' = phase_pid (r_phase r')"
    and m': "m_programs m' = (m_programs m)[a := p']" "m_runs m' = (m_runs m)[k := r']" "m_names m' = m_names m" "m_monitors m' = m_monitors m"
  shows "agent_ok m'"
proof -
  note D = agent_okD [OF ok]
  have a: "a < length (m_programs m)" using D(1) [OF k(1)] k(2) by simp
  have only: "j = k" if "j < length (m_runs m)" "r_program (run_at m j) = a" "r_phase (run_at m j) \<noteq> Ended" for j
    using D(3) [OF that(1,3)] k(3) that(2) by simp
  have runs: "run_ok m' j" if j: "j < length (m_runs m)" for j
  proof (cases "j = k")
    case True
    then show ?thesis using a k r' p' by (simp add: run_ok_def Let_def m')
  next
    case False
    then have rj: "run_at m' j = run_at m j" by (simp add: m')
    show ?thesis
    proof (cases "r_phase (run_at m j) = Ended")
      case True
      then show ?thesis using D(1) [OF j] by (simp add: run_ok_def rj Let_def m'(1))
    next
      case live: False
      have "r_program (run_at m j) \<noteq> a" using only [OF j _ live] False by blast
      then have q: "program_at m' (r_program (run_at m j)) = program_at m (r_program (run_at m j))" by (simp add: m'(1))
      show ?thesis using live D(1,2) [OF j] D(3,4,5) [OF j live] unfolding run_ok_def Let_def rj q by (simp add: m'(1))
    qed
  qed
  have programs: "program_ok m' b" if "b < length (m_programs m)" for b
  proof (cases "b = a")
    case True
    then show ?thesis using a k r' p' by (simp add: program_ok_def m')
  next
    case False
    then have "program_ok m b" using D(6) that by simp
    then show ?thesis using False that k by (auto simp: program_ok_def Let_def m' nth_list_update split: option.splits)
  qed
  have pids: "i = j" if "i < length (m_runs m)" "j < length (m_runs m)" "r_phase (run_at m' i) = r_phase (run_at m' j)" "phase_pid (r_phase (run_at m' i)) \<noteq> 0" for i j
  proof -
    note old = D(10)
    have new: "l = k" if "l < length (m_runs m)" "r_phase (run_at m l) = r_phase r'" "phase_pid (r_phase r') \<noteq> 0" for l
    proof -
      have "phase_pid (r_phase r') \<in> set (live_pids m)" using that by (cases "r_phase r'") (auto simp: live_pids_iff)
      then have "r_phase r' = r_phase (run_at m k)" using r'(3) that(3) by simp
      then show ?thesis using that old [of l k] k(1) by simp
    qed
    have at: "run_at m' k = r'" "\<And>l. l \<noteq> k \<Longrightarrow> run_at m' l = run_at m l" using k(1) by (simp_all add: m')
    show ?thesis
    proof (cases "i = k"; cases "j = k")
      assume c: "i \<noteq> k" "j \<noteq> k"
      show ?thesis by (rule old [OF that(1,2)]) (use that(3,4) at(2) c in simp_all)
    next
      assume c: "i = k" "j \<noteq> k"
      then show ?thesis using new [of j] that(2,3,4) at(1) at(2) [of j] by simp
    next
      assume c: "i \<noteq> k" "j = k"
      then show ?thesis using new [of i] that(1,3,4) at(1) at(2) [of i] by simp
    qed simp
  qed
  have len: "length (m_runs m') = length (m_runs m)" "length (m_programs m') = length (m_programs m)" by (simp_all add: m')
  have diff: "pids_differ (m_runs m')" unfolding pids_differ_def len using pids by blast
  have names: "b < length (m_programs m) \<and> as_name (ap_spec (program_at m' b)) = nm" if "m_names m nm = Some b" for nm b
  proof -
    note D(7,8) [OF that]
    then show ?thesis using p'(2) by (cases "b = a") (simp_all add: m')
  qed
  have mons: "\<forall>x \<in> set (m_monitors m). monitor_ok m' x" using D(9) by (simp add: monitor_ok_def m')
  show ?thesis unfolding agent_ok_def len m'(3,4)
    using runs programs names mons diff by blast
qed

text \<open>Setting the verdict of a probe, or the desired state.\<close>

lemma agent_ok_verdict:
  assumes "agent_ok m" "(ap_state p' = StateRunning) = (ap_state (program_at m a) = StateRunning)" "ap_pid p' = ap_pid (program_at m a)" "ap_run p' = ap_run (program_at m a)"
    and "ap_spec p' = ap_spec (program_at m a)"
    and m': "m_programs m' = (m_programs m)[a := p']" "m_runs m' = m_runs m" "m_names m' = m_names m" "m_monitors m' = m_monitors m"
  shows "agent_ok m'"
proof -
  have same: "(ap_state (program_at m' b) = StateRunning) = (ap_state (program_at m b) = StateRunning) \<and> ap_pid (program_at m' b) = ap_pid (program_at m b) \<and>
      ap_run (program_at m' b) = ap_run (program_at m b) \<and> ap_spec (program_at m' b) = ap_spec (program_at m b)" for b
    using assms(2-5) by (cases "b = a \<and> a < length (m_programs m)") (auto simp: m' nth_list_update list_update_beyond)
  have "agent_ok m' = agent_ok m"
    unfolding agent_ok_def run_ok_def program_ok_def monitor_ok_def Let_def using same by (simp add: m' cong: option.case_cong)
  then show ?thesis using assms(1) by simp
qed

text \<open>A new run of a program that is not running, and a new program.\<close>

lemma agent_ok_launch:
  assumes ok: "agent_ok m" and a: "a < length (m_programs m)" "ap_state (program_at m a) \<noteq> StateRunning"
    and pid: "0 < pid" "pid \<notin> set (live_pids m)" and r: "r_program r = a" "r_phase r = Waiting pid"
    and p': "ap_run p' = Some (length (m_runs m))" "ap_spec p' = ap_spec (program_at m a)" "ap_state p' = StateRunning" "ap_pid p' = pid"
    and ms: "\<And>x. x \<in> set ms \<Longrightarrow> mo_program x = a \<and> mo_run x = length (m_runs m)"
    and m': "m_programs m' = (m_programs m)[a := p']" "m_runs m' = m_runs m @ [r]" "m_names m' = m_names m" "m_monitors m' = m_monitors m @ ms"
  shows "agent_ok m'"
proof -
  note D = agent_okD [OF ok]
  have at: "run_at m' (length (m_runs m)) = r" "\<And>j. j < length (m_runs m) \<Longrightarrow> run_at m' j = run_at m j" by (simp_all add: m' nth_append)
  have ended: "r_phase (run_at m j) = Ended" if "j < length (m_runs m)" "r_program (run_at m j) = a" for j
    using D(4) [OF that(1)] that(2) a(2) by auto
  have runs: "run_ok m' j" if j: "j < length (m_runs m')" for j
  proof (cases "j = length (m_runs m)")
    case True
    then show ?thesis using a r p' pid at(1) by (simp add: run_ok_def Let_def m'(1))
  next
    case False
    then have lt: "j < length (m_runs m)" using j by (simp add: m'(2))
    show ?thesis
    proof (cases "r_phase (run_at m j) = Ended")
      case True
      then show ?thesis using D(1) [OF lt] by (simp add: run_ok_def at(2) [OF lt] Let_def m'(1))
    next
      case live: False
      then have q: "program_at m' (r_program (run_at m j)) = program_at m (r_program (run_at m j))" using ended [OF lt] by (cases "r_program (run_at m j) = a") (simp_all add: m'(1))
      show ?thesis using live D(1,2) [OF lt] D(3,4,5) [OF lt live] unfolding run_ok_def Let_def at(2) [OF lt] q by (simp add: m'(1))
    qed
  qed
  have programs: "program_ok m' b" if "b < length (m_programs m)" for b
  proof (cases "b = a")
    case True
    then show ?thesis using a r p' at(1) by (simp add: program_ok_def m'(1)) (simp add: m'(2))
  next
    case False
    then have "program_ok m b" "program_at m' b = program_at m b" using D(6) that by (simp_all add: m'(1))
    then show ?thesis by (auto simp: program_ok_def Let_def m'(2) nth_append split: option.splits)
  qed
  have new: "r_phase (run_at m j) \<noteq> Waiting pid" if "j < length (m_runs m)" for j using pid(2) that by (auto simp: live_pids_iff)
  have pids: "i = j" if "i < length (m_runs m')" "j < length (m_runs m')" "r_phase (run_at m' i) = r_phase (run_at m' j)" "phase_pid (r_phase (run_at m' i)) \<noteq> 0" for i j
  proof (cases "i < length (m_runs m)"; cases "j < length (m_runs m)")
    assume c: "i < length (m_runs m)" "j < length (m_runs m)"
    show ?thesis by (rule D(10) [OF c]) (use that(3,4) at(2) c in simp_all)
  next
    assume c: "i < length (m_runs m)" "\<not> j < length (m_runs m)"
    then have "j = length (m_runs m)" using that(2) by (simp add: m'(2))
    then show ?thesis using new [OF c(1)] that(3) at c(1) r(2) by simp
  next
    assume c: "\<not> i < length (m_runs m)" "j < length (m_runs m)"
    then have "i = length (m_runs m)" using that(1) by (simp add: m'(2))
    then show ?thesis using new [OF c(2)] that(3) at c(2) r(2) by simp
  next
    assume "\<not> i < length (m_runs m)" "\<not> j < length (m_runs m)"
    then show ?thesis using that(1,2) by (simp add: m'(2))
  qed
  have diff: "pids_differ (m_runs m')" unfolding pids_differ_def using pids by blast
  have names: "b < length (m_programs m) \<and> as_name (ap_spec (program_at m' b)) = nm" if "m_names m nm = Some b" for nm b
  proof -
    note D(7,8) [OF that]
    then show ?thesis using p'(2) by (cases "b = a") (simp_all add: m'(1))
  qed
  have mons: "monitor_ok m' x" if "x \<in> set (m_monitors m @ ms)" for x
    using that D(9) [of x] ms [of x] a(1) by (auto simp: monitor_ok_def m'(1,2))
  have len: "length (m_programs m') = length (m_programs m)" by (simp add: m')
  show ?thesis unfolding agent_ok_def len m'(3,4)
    using runs programs names mons diff by blast
qed

lemma agent_ok_register:
  assumes ok: "agent_ok m" and nm: "as_name sp = nm"
    and m': "m_programs m' = m_programs m @ [new_program sp d]" "m_runs m' = m_runs m" "m_names m' = (m_names m)(nm \<mapsto> length (m_programs m))" "m_monitors m' = m_monitors m"
  shows "agent_ok m'"
proof -
  note D = agent_okD [OF ok]
  have at: "program_at m' (length (m_programs m)) = new_program sp d" "\<And>b. b < length (m_programs m) \<Longrightarrow> program_at m' b = program_at m b"
    by (simp_all add: m' nth_append)
  have runs: "run_ok m' j" if j: "j < length (m_runs m)" for j
    using D(1,2) [OF j] D(3,4,5) [OF j] at(2) [OF D(1) [OF j]] unfolding run_ok_def Let_def m'(2) by (simp add: m'(1))
  have programs: "program_ok m' b" if b: "b < length (m_programs m')" for b
  proof (cases "b = length (m_programs m)")
    case True
    then show ?thesis using at(1) by (simp add: program_ok_def new_program_def)
  next
    case False
    then have lt: "b < length (m_programs m)" using b by (simp add: m'(1))
    show ?thesis using D(6) [OF lt] unfolding program_ok_def Let_def at(2) [OF lt] m'(2) .
  qed
  have names: "b < length (m_programs m') \<and> as_name (ap_spec (program_at m' b)) = x" if "m_names m' x = Some b" for x b
  proof (cases "x = nm")
    case True
    then show ?thesis using that at(1) nm by (auto simp: m'(1,3) new_program_def)
  next
    case False
    then have "m_names m x = Some b" using that by (simp add: m'(3))
    note D(7,8) [OF this]
    then show ?thesis using at(2) by (simp add: m'(1))
  qed
  have mons: "monitor_ok m' x" if "x \<in> set (m_monitors m)" for x using that D(9) [of x] by (auto simp: monitor_ok_def m'(1,2))
  show ?thesis unfolding agent_ok_def m'(2,4)
    using runs programs names mons ok by (auto simp: agent_ok_def)
qed

section \<open>Every step keeps it\<close>

lemma agent_ok_persist [simp]: "agent_ok (snd (persist w a m)) = agent_ok m"
  by (rule agent_ok_cong) simp_all

lemma agent_ok_monitor:
  assumes "agent_ok m" "i < length (m_monitors m)" "mo_program x = mo_program (m_monitors m ! i)" "mo_run x = mo_run (m_monitors m ! i)"
  shows "agent_ok (set_monitor i x m)"
proof -
  have "monitor_ok m (m_monitors m ! i)" using agent_okD(9) [OF assms(1)] assms(2) by simp
  then have "monitor_ok m x" using assms(3,4) by (simp add: monitor_ok_def)
  then have "\<forall>y \<in> set ((m_monitors m)[i := x]). monitor_ok m y" using agent_okD(9) [OF assms(1)] set_update_subset_insert by fastforce
  then show ?thesis using assms(1) by (simp add: agent_ok_def run_ok_def program_ok_def monitor_ok_def cong: option.case_cong)
qed

lemma desired_ok: "agent_ok m \<Longrightarrow> agent_ok (set_program a ((program_at m a)\<lparr>ap_desired := d\<rparr>) m)"
  by (rule agent_ok_verdict) simp_all

lemma monitors_for_at: "x \<in> set (monitors_for a k sp) \<Longrightarrow> mo_program x = a \<and> mo_run x = k"
  by (auto simp: monitors_for_def new_monitor_def split: option.splits)

lemma start_locked_ok:
  assumes "agent_ok m" "a < length (m_programs m)" "ap_state (program_at m a) \<noteq> StateRunning" "fresh_answer os m"
  shows "agent_ok (snd (start_locked regular os now a m))"
proof (cases "spawn (m_dir m) regular os (ap_spec (program_at m a))")
  case (Inl e)
  then show ?thesis unfolding start_locked_def Let_def
    by simp (rule agent_ok_verdict [OF assms(1)], use assms(3) in simp_all)
next
  case (Inr pid)
  then have pid: "os = Inr pid" by (auto simp: spawn_def)
  show ?thesis
    unfolding start_locked_def Let_def Inr
    by (simp, rule agent_ok_launch [OF assms(1-3), where pid = pid and ms = "monitors_for a (length (m_runs m)) (ap_spec (program_at m a))"])
      (use assms(4) pid in \<open>auto simp: fresh_answer_def dest: monitors_for_at\<close>)
qed

lemma snd_outcome [simp]: "snd (case x of (None, b) \<Rightarrow> (f b, b) | (Some e, b) \<Rightarrow> (g e b, b)) = snd x"
  by (simp split: prod.splits option.splits)

lemma install_ok: "agent_ok m \<Longrightarrow> agent_ok (snd (install regular creatable writable sp m))"
proof (cases "checked_spec (m_dir m) regular sp")
  case (Inr sp')
  assume ok: "agent_ok m"
  let ?m = "m\<lparr>m_programs := m_programs m @ [new_program sp' StateStopped], m_names := (m_names m)(as_name sp' \<mapsto> length (m_programs m))\<rparr>"
  have "agent_ok ?m" by (rule agent_ok_register [OF ok refl]) simp_all
  then show ?thesis using Inr ok by (simp add: install_def Let_def split: option.split)
qed (simp add: install_def)

lemma start_ok: "agent_ok m \<Longrightarrow> fresh_answer os m \<Longrightarrow> agent_ok (snd (start regular os now writable nm m))"
proof (cases "m_names m nm")
  case (Some a)
  assume ok: "agent_ok m" and fresh: "fresh_answer os m"
  let ?m = "set_program a ((program_at m a)\<lparr>ap_desired := StateRunning\<rparr>) m"
  have a: "a < length (m_programs m)" by (rule agent_okD(7) [OF ok Some])
  have f: "fresh_answer os ?m" using fresh by (simp add: fresh_answer_def live_pids_def cong: sum.case_cong)
  have "agent_ok (snd (start_locked regular os now a ?m))" if "ap_state (program_at m a) \<noteq> StateRunning"
    by (rule start_locked_ok [OF desired_ok [OF ok] _ _ f]) (use a that in simp_all)
  then show ?thesis using ok Some
    by (cases "start_locked regular os now a ?m"; cases "fst (start_locked regular os now a ?m)") (simp_all add: start_def)
qed (simp add: start_def)

lemma stop_mark_ok: "agent_ok m \<Longrightarrow> agent_ok (snd (stop_mark writable nm m))"
proof (cases "m_names m nm")
  case (Some a)
  assume ok: "agent_ok m"
  then show ?thesis using Some desired_ok [OF ok] by (simp add: stop_mark_def)
qed (simp add: stop_mark_def)

lemma stop_cancel_ok: "agent_ok m \<Longrightarrow> agent_ok (snd (stop_cancel nm m))"
proof (cases "m_names m nm")
  case (Some a)
  assume ok: "agent_ok m"
  show ?thesis
  proof (cases "ap_run (program_at m a)")
    case k: (Some k)
    have a: "a < length (m_programs m)" by (rule agent_okD(7) [OF ok Some])
    have p: "k < length (m_runs m)" "r_program (run_at m k) = a" "ap_state (program_at m a) = StateRunning \<longleftrightarrow> r_phase (run_at m k) \<noteq> Ended"
      "ap_state (program_at m a) \<noteq> StateRunning \<longrightarrow> ap_pid (program_at m a) = 0"
      using agent_okD(6) [OF ok a] k by (auto simp: program_ok_def Let_def)
    have pid: "ap_pid (program_at m a) = phase_pid (r_phase (run_at m k))"
      using p agent_okD(5) [OF ok p(1)] by (cases "r_phase (run_at m k) = Ended") auto
    have "agent_ok (set_run k ((run_at m k)\<lparr>r_cancelled := True\<rparr>) m)"
      by (rule agent_ok_supervise [OF ok p(1,2) k, where r' = "(run_at m k)\<lparr>r_cancelled := True\<rparr>" and p' = "program_at m a"])
        (use p k pid agent_okD(2) [OF ok p(1)] in simp_all)
    then show ?thesis using Some k by (simp add: stop_cancel_def)
  qed (use ok Some in \<open>simp add: stop_cancel_def\<close>)
qed (simp add: stop_cancel_def)

lemma remove_entry_ok: "agent_ok m \<Longrightarrow> agent_ok (snd (remove_entry removable nm m))"
  unfolding agent_ok_def remove_entry_def Let_def
  by (simp add: run_ok_def program_ok_def monitor_ok_def cong: option.case_cong)

lemma exited_shape:
  "ap_run (fst (exited c err p)) = ap_run p" "ap_spec (fst (exited c err p)) = ap_spec p" "ap_pid (fst (exited c err p)) = 0"
  "snd (exited c err p) \<Longrightarrow> ap_state (fst (exited c err p)) = ap_state p"
  "\<not> snd (exited c err p) \<Longrightarrow> ap_state (fst (exited c err p)) \<noteq> StateRunning"
  by (auto simp: exited_def Let_def split: option.splits)

lemma process_exit_ok:
  assumes "agent_ok m" "k < length (m_runs m)" "r_phase (run_at m k) = Waiting pid"
  shows "agent_ok (process_exit err writable k m)"
proof -
  let ?a = "r_program (run_at m k)" and ?c = "r_cancelled (run_at m k)"
  obtain p again where e: "exited ?c err (program_at m ?a) = (p, again)" by force
  have D: "ap_run (program_at m ?a) = Some k" "ap_state (program_at m ?a) = StateRunning"
    using agent_okD(3,4) [OF assms(1,2)] assms(3) by simp_all
  have shape: "ap_run p = Some k" "ap_spec p = ap_spec (program_at m ?a)" "ap_pid p = 0" "ap_state p = StateRunning \<longleftrightarrow> again"
    using exited_shape [of ?c err "program_at m ?a"] D e by auto
  show ?thesis
    by (rule agent_ok_supervise [OF assms(1,2) refl D(1), where r' = "(run_at m k)\<lparr>r_phase := if again then Backing else Ended\<rparr>" and p' = p])
      (use shape e in \<open>simp_all add: process_exit_def Let_def\<close>)
qed

lemma backoff_cancelled_ok:
  assumes "agent_ok m" "k < length (m_runs m)" "r_phase (run_at m k) = Backing"
  shows "agent_ok (backoff_cancelled k m)"
proof -
  have D: "ap_run (program_at m (r_program (run_at m k))) = Some k" "ap_pid (program_at m (r_program (run_at m k))) = 0"
    using agent_okD(3,5) [OF assms(1,2)] assms(3) by simp_all
  show ?thesis
    by (rule agent_ok_supervise [OF assms(1,2) refl D(1), where r' = "(run_at m k)\<lparr>r_phase := Ended\<rparr>" and p' = "(program_at m (r_program (run_at m k)))\<lparr>ap_state := StateStopped\<rparr>"])
      (use D in \<open>simp_all add: backoff_cancelled_def Let_def\<close>)
qed

lemma respawn_ok:
  assumes "agent_ok m" "k < length (m_runs m)" "r_phase (run_at m k) = Backing" "fresh_answer os m"
  shows "agent_ok (respawn regular os now writable k m)"
proof -
  let ?a = "r_program (run_at m k)" and ?b = "next_backoff (r_backoff (run_at m k))"
  let ?p = "program_at m ?a"
  have D: "ap_run ?p = Some k" "ap_pid ?p = 0" using agent_okD(3,5) [OF assms(1,2)] assms(3) by simp_all
  show ?thesis
  proof (cases "spawn (m_dir m) regular os (ap_spec ?p)")
    case (Inl e)
    show ?thesis
      by (rule agent_ok_supervise [OF assms(1,2) refl D(1), where r' = "(run_at m k)\<lparr>r_phase := Ended, r_backoff := ?b\<rparr>"
            and p' = "?p\<lparr>ap_state := StateFailed, ap_last_err := Some (Spawning e)\<rparr>"])
        (use D Inl in \<open>simp_all add: respawn_def Let_def\<close>)
  next
    case (Inr pid)
    then have "os = Inr pid" by (auto simp: spawn_def)
    then have pid: "0 < pid" "pid \<notin> set (live_pids m)" using assms(4) by (simp_all add: fresh_answer_def)
    show ?thesis
      by (rule agent_ok_supervise [OF assms(1,2) refl D(1), where r' = "(run_at m k)\<lparr>r_phase := Waiting pid, r_backoff := ?b\<rparr>"
            and p' = "?p\<lparr>ap_restarts := ap_restarts ?p + 1, ap_pid := pid, ap_started := now, ap_state := StateRunning, ap_ready := (as_ready (ap_spec ?p) = None)\<rparr>"])
        (use D Inr pid in \<open>simp_all add: respawn_def Let_def\<close>)
  qed
qed

lemma set_verdict_ok: "agent_ok m \<Longrightarrow> agent_ok (set_health a h m)" "agent_ok m \<Longrightarrow> agent_ok (set_ready a b m)"
  using agent_ok_verdict [of m "(program_at m a)\<lparr>ap_health := h\<rparr>" a "set_program a ((program_at m a)\<lparr>ap_health := h\<rparr>) m"]
    agent_ok_verdict [of m "(program_at m a)\<lparr>ap_ready := b\<rparr>" a "set_program a ((program_at m a)\<lparr>ap_ready := b\<rparr>) m"]
  by (simp_all add: set_health_def set_ready_def)

lemma set_verdict_monitors [simp]: "m_monitors (set_health a h m) = m_monitors m" "m_monitors (set_ready a b m) = m_monitors m"
  by (simp_all add: set_health_def set_ready_def)

lemma monitor_tick_ok: "agent_ok m \<Longrightarrow> i < length (m_monitors m) \<Longrightarrow> agent_ok (monitor_tick i m)"
  unfolding monitor_tick_def Let_def by (rule agent_ok_monitor) (auto split: monitor_kind.splits)

lemma monitor_verdict_ok: "agent_ok m \<Longrightarrow> i < length (m_monitors m) \<Longrightarrow> agent_ok (monitor_verdict ok pid i m)"
proof -
  assume a: "agent_ok m" "i < length (m_monitors m)"
  have s: "agent_ok (m'\<lparr>m_signals := x\<rparr>) = agent_ok m'" for m' x by (rule agent_ok_cong) simp_all
  show ?thesis
  proof (cases "mo_kind (m_monitors m ! i)")
    case Liveness
    have h: "agent_ok (set_health b hh m)" "agent_ok ((set_health b hh m)\<lparr>m_signals := x\<rparr>)" for b hh x using a by (simp_all add: s set_verdict_ok)
    show ?thesis
    proof (cases "ok \<or> mo_failures (m_monitors m ! i) + 1 < c_threshold (mo_check (m_monitors m ! i))")
      case True
      then show ?thesis using Liveness a h by (cases ok) (simp_all add: monitor_verdict_def agent_ok_monitor)
    next
      case False
      then show ?thesis using Liveness a h by (simp add: monitor_verdict_def Let_def agent_ok_monitor)
    qed
  next
    case Readiness
    then show ?thesis using a by (simp add: monitor_verdict_def agent_ok_monitor set_verdict_ok)
  qed
qed

lemma agent_step_ok:
  assumes "agent_ok m" "agent_step ev m = Some m'"
  shows "agent_ok m'"
proof (cases ev)
  case (MonitorEnd i)
  then show ?thesis using assms agent_ok_monitor [OF assms(1), of i "(m_monitors m ! i)\<lparr>mo_live := False\<rparr>"] by (auto split: if_splits)
qed (use assms install_ok start_ok stop_mark_ok stop_cancel_ok remove_entry_ok process_exit_ok backoff_cancelled_ok respawn_ok monitor_tick_ok
    monitor_verdict_ok in \<open>auto split: if_splits run_phase.splits option.splits\<close>)

section \<open>Reachable managers\<close>

text \<open>A manager that boots has loaded the metas and then starts programs it holds; after that it takes the steps that
  \<open>allowed\<close> admits.\<close>

inductive agent_reach :: "(agent_event \<Rightarrow> manager \<Rightarrow> bool) \<Rightarrow> manager \<Rightarrow> bool" for allowed where
  loaded: "agent_reach allowed (fst (foldl load_meta ((empty_manager dir)\<lparr>m_disk := disk\<rparr>, []) entries))"
| started: "agent_reach allowed m \<Longrightarrow> m_names m nm = Some a \<Longrightarrow> ap_state (program_at m a) = StateConfigured \<Longrightarrow> fresh_answer (os a) m \<Longrightarrow>
    agent_reach allowed (boot_start regular os writable now m a)"
| stepped: "agent_reach allowed m \<Longrightarrow> allowed ev m \<Longrightarrow> agent_step ev m = Some m' \<Longrightarrow> agent_reach allowed m'"

lemma empty_manager_ok: "agent_ok ((empty_manager dir)\<lparr>m_disk := disk\<rparr>)"
  by (simp add: agent_ok_def empty_manager_def pids_differ_def)

lemma load_meta_ok: "agent_ok (fst st) \<Longrightarrow> agent_ok (fst (load_meta st e))"
proof (cases "snd e")
  case (Some mt)
  assume ok: "agent_ok (fst st)"
  obtain m ts where st: "st = (m, ts)" by force
  have "agent_ok m" using ok st by simp
  then have "agent_ok (m\<lparr>m_programs := m_programs m @ [new_program (am_spec mt) (am_desired mt)],
      m_names := (m_names m)(as_name (am_spec mt) \<mapsto> length (m_programs m)), m_signals := x\<rparr>)" for x
    by (rule agent_ok_register [OF _ refl]) simp_all
  then show ?thesis using Some ok st by (cases "name_ok (as_name (am_spec mt))") (simp_all add: load_meta_def Let_def)
qed (simp add: load_meta_def split: prod.splits)

lemma loads_ok: "agent_ok (fst st) \<Longrightarrow> agent_ok (fst (foldl load_meta st es))"
  by (induction es arbitrary: st) (simp_all add: load_meta_ok)

lemma boot_start_ok:
  assumes "agent_ok m" "a < length (m_programs m)" "ap_state (program_at m a) = StateConfigured" "fresh_answer (os a) m"
  shows "agent_ok (boot_start regular os writable now m a)"
proof -
  have f: "fresh_answer (os a) (set_program a ((program_at m a)\<lparr>ap_desired := StateRunning\<rparr>) m)"
    using assms(4) by (simp add: fresh_answer_def live_pids_def cong: sum.case_cong)
  show ?thesis unfolding boot_start_def Let_def
    using start_locked_ok [OF desired_ok [OF assms(1)] _ _ f] assms(2,3) by simp
qed

lemma reachable_ok: "agent_reach allowed m \<Longrightarrow> agent_ok m"
proof (induction rule: agent_reach.induct)
  case (loaded dir disk entries)
  show ?case by (rule loads_ok) (simp add: empty_manager_ok)
next
  case (started m nm a os regular writable now)
  then show ?case using boot_start_ok agent_okD(7) by blast
qed (simp add: agent_step_ok)

definition live_runs :: "manager \<Rightarrow> nat \<Rightarrow> nat list" where
  "live_runs m a = filter (\<lambda>k. r_program (run_at m k) = a \<and> r_phase (run_at m k) \<noteq> Ended) [0..<length (m_runs m)]"

lemma distinct_singleton: "distinct xs \<Longrightarrow> set xs = {k} \<Longrightarrow> xs = [k]"
  by (cases xs; cases "tl xs") auto

lemma live_runs_of:
  assumes "agent_ok m" "a < length (m_programs m)"
  shows "live_runs m a = (if ap_state (program_at m a) = StateRunning then [the (ap_run (program_at m a))] else [])"
proof -
  note D = agent_okD [OF assms(1)]
  have p: "program_ok m a" by (rule D(6) [OF assms(2)])
  have mem: "k \<in> set (live_runs m a) \<longleftrightarrow> k < length (m_runs m) \<and> r_program (run_at m k) = a \<and> r_phase (run_at m k) \<noteq> Ended" for k
    by (auto simp: live_runs_def)
  show ?thesis
  proof (cases "ap_state (program_at m a) = StateRunning")
    case True
    then obtain k where k: "ap_run (program_at m a) = Some k" "k < length (m_runs m)" "r_program (run_at m k) = a" "r_phase (run_at m k) \<noteq> Ended"
      using p by (auto simp: program_ok_def Let_def split: option.splits)
    have "j = k" if "j \<in> set (live_runs m a)" for j using that D(3) [of j] k(1) by (simp add: mem)
    then have "set (live_runs m a) = {k}" using k mem by blast
    then have "live_runs m a = [k]" by (intro distinct_singleton) (simp_all add: live_runs_def)
    then show ?thesis using True k(1) by simp
  next
    case False
    have "j \<notin> set (live_runs m a)" for j using D(4) [of j] False by (auto simp: mem)
    then have "live_runs m a = []" by (cases "live_runs m a") auto
    then show ?thesis using False by simp
  qed
qed

text \<open>C18: Under every interleaving of requests, exits, restarts and probes, a program that is reported as running has exactly
  one live run, and the process id it reports is that run's process (none while the run waits to restart it);
  every other program has no live run and no process.\<close>
theorem running_means_one_process:
  assumes "agent_reach allowed m" "a < length (m_programs m)"
  shows "\<exists>k. live_runs m a = (if ap_state (program_at m a) = StateRunning then [k] else []) \<and>
    ap_pid (program_at m a) = (if ap_state (program_at m a) = StateRunning then phase_pid (r_phase (run_at m k)) else 0)"
proof -
  have ok: "agent_ok m" by (rule reachable_ok [OF assms(1)])
  let ?k = "the (ap_run (program_at m a))"
  note l = live_runs_of [OF ok assms(2)]
  have "ap_pid (program_at m a) = phase_pid (r_phase (run_at m ?k))" if r: "ap_state (program_at m a) = StateRunning"
  proof -
    have "?k \<in> set (live_runs m a)" using l r by simp
    then have k: "?k < length (m_runs m)" "r_program (run_at m ?k) = a" "r_phase (run_at m ?k) \<noteq> Ended" by (simp_all add: live_runs_def)
    then show ?thesis using agent_okD(5) [OF ok k(1,3)] by simp
  qed
  moreover have "ap_pid (program_at m a) = 0" if "ap_state (program_at m a) \<noteq> StateRunning"
    using agent_okD(6) [OF ok assms(2)] that by (simp add: program_ok_def Let_def)
  ultimately show ?thesis using l by (intro exI [of _ ?k]) simp
qed

lemma reach_steps: "agent_reach (\<lambda>_ _. True) m \<Longrightarrow> agent_steps evs m = Some m' \<Longrightarrow> agent_reach (\<lambda>_ _. True) m'"
  by (induction evs arbitrary: m) (auto split: option.splits intro: agent_reach.stepped)

lemma reach_empty: "agent_reach allowed (empty_manager dir)"
  using agent_reach.loaded [of allowed Map.empty dir "[]"] by (simp add: empty_manager_def)

section \<open>A small agent\<close>

definition demo_spec :: "string \<Rightarrow> agent_check option \<Rightarrow> agent_check option \<Rightarrow> agent_spec" where
  "demo_spec policy live ready = \<lparr>as_name = ''web'', as_package = ''pkg'', as_version = ''1'', as_entrypoint = ''bin'', as_args = [],
     as_policy = policy, as_type = ''simple'', as_auto = False, as_live = live, as_ready = ready, as_order = 0\<rparr>"

definition put_program :: "string \<Rightarrow> agent_check option \<Rightarrow> agent_check option \<Rightarrow> agent_event" where
  "put_program policy live ready = Install (\<lambda>_. True) True True (demo_spec policy live ready)"

definition launch :: "nat \<Rightarrow> agent_event" where
  "launch pid = Start (\<lambda>_. True) (Inr pid) 0 True ''web''"

definition tcp_check :: agent_check where
  "tcp_check = \<lparr>c_type = ''tcp'', c_port = 80, c_path = [], c_interval = 0, c_timeout = 0, c_threshold = 1\<rparr>"

theorem running_means_one_process_witness:
  "\<exists>m k. agent_steps [put_program ''Always'' None None, launch 7] (empty_manager ''/v'') = Some m \<and> live_runs m 0 = [k] \<and>
     ap_pid (program_at m 0) = 7 \<and> phase_pid (r_phase (run_at m k)) = 7"
proof -
  obtain m where m: "agent_steps [put_program ''Always'' None None, launch 7] (empty_manager ''/v'') = Some m"
    "length (m_programs m) = 1" "ap_state (program_at m 0) = StateRunning" "ap_pid (program_at m 0) = 7"
  proof -
    have "(case agent_steps [put_program ''Always'' None None, launch 7] (empty_manager ''/v'') of None \<Rightarrow> False
      | Some m \<Rightarrow> length (m_programs m) = 1 \<and> ap_state (program_at m 0) = StateRunning \<and> ap_pid (program_at m 0) = 7)" by code_simp
    then show thesis using that by (simp split: option.splits)
  qed
  then show ?thesis
    using running_means_one_process [OF reach_steps [OF reach_empty m(1)], of 0] by auto
qed

end
