(* ===== verification/SupervisorRuns.thy ===== *)
theory SupervisorRuns
  imports SupervisorProps
begin

text \<open>
  What the supervisor's interleavings can and cannot do: processes belong to installed programs unless a program is
  started while it is being removed, a stopped program stays down, restarts back off up to a bound, and
  the races and leaks that the locking leaves open.
\<close>

section \<open>Processes belong to installed programs\<close>

text \<open>The steps in which a removal finds the program stopped, as \<open>Remove\<close> left it.\<close>

definition quiet :: "agent_event \<Rightarrow> manager \<Rightarrow> bool" where
  "quiet ev m = (case ev of RemoveEntry _ nm \<Rightarrow> (case m_names m nm of None \<Rightarrow> True | Some a \<Rightarrow> ap_state (program_at m a) \<noteq> StateRunning) | _ \<Rightarrow> True)"

definition name_of :: "manager \<Rightarrow> nat \<Rightarrow> string" where
  "name_of m a = as_name (ap_spec (program_at m a))"

definition all_installed :: "manager \<Rightarrow> bool" where
  "all_installed m \<longleftrightarrow> (\<forall>a < length (m_programs m). ap_state (program_at m a) = StateRunning \<longrightarrow> m_names m (name_of m a) = Some a)"

lemma all_installed_update:
  assumes "all_installed m" "m_programs m' = (m_programs m)[a := p]" "m_names m' = m_names m" "ap_spec p = ap_spec (program_at m a)"
    and "ap_state p = StateRunning \<Longrightarrow> ap_state (program_at m a) = StateRunning \<or> m_names m (name_of m a) = Some a"
  shows "all_installed m'"
  unfolding all_installed_def
proof (intro allI impI)
  fix b
  assume b: "b < length (m_programs m')" and r: "ap_state (program_at m' b) = StateRunning"
  show "m_names m' (name_of m' b) = Some b"
    using assms(1,4,5) b r by (cases "b = a") (auto simp: all_installed_def name_of_def assms(2,3))
qed

lemma all_installed_same: "all_installed m \<Longrightarrow> m_programs m' = m_programs m \<Longrightarrow> m_names m' = m_names m \<Longrightarrow> all_installed m'"
  by (simp add: all_installed_def name_of_def)

lemma persist_installed [simp]: "all_installed (snd (persist w a m)) = all_installed m"
  by (simp add: all_installed_def name_of_def)

lemma start_locked_installed:
  assumes "all_installed m" "m_names m (name_of m a) = Some a"
  shows "all_installed (snd (start_locked regular os now a m))"
proof (cases "spawn (m_dir m) regular os (ap_spec (program_at m a))")
  case (Inl e)
  show ?thesis
    by (rule all_installed_update [OF assms(1), where a = a and p = "(program_at m a)\<lparr>ap_state := StateFailed, ap_last_err := Some (Spawning e)\<rparr>"])
      (simp_all add: start_locked_def Let_def Inl)
next
  case (Inr pid)
  show ?thesis
    by (rule all_installed_update [OF assms(1), where a = a and p = "(program_at m a)\<lparr>ap_state := StateRunning, ap_pid := pid, ap_restarts := 0, ap_last_err := None,
          ap_health := HealthUnknown, ap_ready := (as_ready (ap_spec (program_at m a)) = None), ap_started := now, ap_run := Some (length (m_runs m))\<rparr>"])
      (use assms(2) in \<open>simp_all add: start_locked_def Let_def Inr\<close>)
qed

lemma desired_installed: "all_installed m \<Longrightarrow> all_installed (set_program a ((program_at m a)\<lparr>ap_desired := d\<rparr>) m)"
  by (rule all_installed_update [where a = a and p = "(program_at m a)\<lparr>ap_desired := d\<rparr>"]) auto

lemma name_of_desired [simp]: "name_of (set_program a ((program_at m a)\<lparr>ap_desired := d\<rparr>) m) b = name_of m b"
  by (cases "b = a \<and> a < length (m_programs m)") (auto simp: name_of_def nth_list_update list_update_beyond)

lemma register_installed:
  assumes "all_installed m" "agent_ok m" "as_name sp = nm" "case m_names m nm of None \<Rightarrow> True | Some a \<Rightarrow> ap_state (program_at m a) \<noteq> StateRunning"
    and m': "m_programs m' = m_programs m @ [new_program sp d]" "m_names m' = (m_names m)(nm \<mapsto> length (m_programs m))"
  shows "all_installed m'"
  unfolding all_installed_def
proof (intro allI impI)
  fix b
  assume b: "b < length (m_programs m')" and r: "ap_state (program_at m' b) = StateRunning"
  have lt: "b < length (m_programs m)"
  proof (rule ccontr)
    assume "\<not> b < length (m_programs m)"
    then have "b = length (m_programs m)" using b by (simp add: m')
    then show False using r by (simp add: m' new_program_def)
  qed
  have at: "program_at m' b = program_at m b" using lt by (simp add: m' nth_append)
  have own: "m_names m (name_of m b) = Some b" using assms(1) r lt by (simp add: all_installed_def at)
  then have "name_of m b \<noteq> nm" using assms(4) r at by auto
  moreover have "name_of m' b = name_of m b" by (simp add: name_of_def at)
  ultimately show "m_names m' (name_of m' b) = Some b" using own by (simp add: m'(2))
qed

lemma install_installed:
  assumes "all_installed m" "agent_ok m"
  shows "all_installed (snd (install regular creatable writable sp m))"
proof (cases "checked_spec (m_dir m) regular sp")
  case (Inr sp')
  let ?m = "m\<lparr>m_programs := m_programs m @ [new_program sp' StateStopped], m_names := (m_names m)(as_name sp' \<mapsto> length (m_programs m))\<rparr>"
  have "all_installed ?m" if "\<not> (case m_names m (as_name sp') of None \<Rightarrow> False | Some a \<Rightarrow> ap_state (program_at m a) = StateRunning)"
    by (rule register_installed [OF assms refl]) (use that in \<open>auto split: option.splits\<close>)
  then show ?thesis using Inr assms(1) by (simp add: install_def Let_def)
qed (use assms in \<open>simp add: install_def\<close>)

lemma start_installed:
  assumes "all_installed m" "agent_ok m"
  shows "all_installed (snd (start regular os now writable nm m))"
proof (cases "m_names m nm")
  case (Some a)
  let ?m = "set_program a ((program_at m a)\<lparr>ap_desired := StateRunning\<rparr>) m"
  have "m_names ?m (name_of ?m a) = Some a" using agent_okD(7,8) [OF assms(2) Some] Some by (simp add: name_of_def)
  then have "all_installed (snd (start_locked regular os now a ?m))" by (rule start_locked_installed [OF desired_installed [OF assms(1)]])
  then show ?thesis using assms(1) Some
    by (cases "start_locked regular os now a ?m"; cases "fst (start_locked regular os now a ?m)") (simp_all add: start_def)
qed (use assms in \<open>simp add: start_def\<close>)

lemma process_exit_installed:
  assumes "all_installed m" "agent_ok m" "k < length (m_runs m)" "r_phase (run_at m k) = Waiting pid"
  shows "all_installed (process_exit err writable k m)"
proof -
  let ?a = "r_program (run_at m k)"
  obtain p again where e: "exited (r_cancelled (run_at m k)) err (program_at m ?a) = (p, again)" by force
  have st: "ap_state (program_at m ?a) = StateRunning" using agent_okD(4) [OF assms(2,3)] assms(4) by simp
  have "ap_spec p = ap_spec (program_at m ?a)" using exited_shape(2) [of "r_cancelled (run_at m k)" err "program_at m ?a"] e by simp
  then show ?thesis
    by (intro all_installed_update [OF assms(1), where a = ?a and p = p]) (use e st in \<open>simp_all add: process_exit_def Let_def\<close>)
qed

lemma supervise_installed:
  assumes "all_installed m" "agent_ok m" "k < length (m_runs m)" "r_phase (run_at m k) = Backing"
  shows "all_installed (backoff_cancelled k m)" "all_installed (respawn regular os now writable k m)"
proof -
  let ?a = "r_program (run_at m k)"
  have st: "ap_state (program_at m ?a) = StateRunning" using agent_okD(4) [OF assms(2,3)] assms(4) by simp
  show "all_installed (backoff_cancelled k m)"
    by (rule all_installed_update [OF assms(1), where a = ?a and p = "(program_at m ?a)\<lparr>ap_state := StateStopped\<rparr>"])
      (simp_all add: backoff_cancelled_def Let_def)
  show "all_installed (respawn regular os now writable k m)"
  proof (cases "spawn (m_dir m) regular os (ap_spec (program_at m ?a))")
    case (Inl e)
    show ?thesis
      by (rule all_installed_update [OF assms(1), where a = ?a and p = "(program_at m ?a)\<lparr>ap_state := StateFailed, ap_last_err := Some (Spawning e)\<rparr>"])
        (simp_all add: respawn_def Let_def Inl)
  next
    case (Inr pid)
    show ?thesis
      by (rule all_installed_update [OF assms(1), where a = ?a and p = "(program_at m ?a)\<lparr>ap_restarts := ap_restarts (program_at m ?a) + 1, ap_pid := pid,
            ap_started := now, ap_state := StateRunning, ap_ready := (as_ready (ap_spec (program_at m ?a)) = None)\<rparr>"])
        (use st in \<open>simp_all add: respawn_def Let_def Inr\<close>)
  qed
qed

lemma verdict_installed: "all_installed m \<Longrightarrow> all_installed (set_health a h m)" "all_installed m \<Longrightarrow> all_installed (set_ready a b m)"
  using all_installed_update [of m "set_program a ((program_at m a)\<lparr>ap_health := h\<rparr>) m" a "(program_at m a)\<lparr>ap_health := h\<rparr>"]
    all_installed_update [of m "set_program a ((program_at m a)\<lparr>ap_ready := b\<rparr>) m" a "(program_at m a)\<lparr>ap_ready := b\<rparr>"]
  by (simp_all add: set_health_def set_ready_def)

lemma monitor_installed [simp]: "all_installed (set_monitor i x m) = all_installed m" "all_installed (m\<lparr>m_signals := l\<rparr>) = all_installed m"
  "all_installed (set_run k r m) = all_installed m"
  by (simp_all add: all_installed_def name_of_def)

lemma remove_entry_sel [simp]: "m_programs (snd (remove_entry r nm m)) = m_programs m" "m_names (snd (remove_entry r nm m)) = (m_names m)(nm := None)"
  by (simp_all add: remove_entry_def Let_def)

lemma agent_step_installed:
  assumes "all_installed m" "agent_ok m" "quiet ev m" "agent_step ev m = Some m'"
  shows "all_installed m'"
proof (cases ev)
  case (StopMark writable nm)
  then show ?thesis using assms by (auto simp: stop_mark_def desired_installed split: option.splits)
next
  case (StopCancel nm)
  then show ?thesis using assms by (auto simp: stop_cancel_def split: option.splits)
next
  case (RemoveEntry removable nm)
  have "m_names m nm \<noteq> Some a" if "a < length (m_programs m)" "ap_state (program_at m a) = StateRunning" for a
    using assms(3) that RemoveEntry by (auto simp: quiet_def)
  then have "m_names m (name_of m a) = Some a \<and> name_of m a \<noteq> nm" if "a < length (m_programs m)" "ap_state (program_at m a) = StateRunning" for a
    using assms(1) that by (auto simp: all_installed_def)
  then show ?thesis using assms(4) RemoveEntry by (auto simp: all_installed_def name_of_def)
next
  case (Tick i)
  then show ?thesis using assms by (auto simp: monitor_tick_def Let_def split: if_splits)
next
  case (Verdict ok i)
  then show ?thesis using assms
    by (auto simp: monitor_verdict_def Let_def verdict_installed split: if_splits option.splits monitor_kind.splits)
qed (use assms install_installed start_installed process_exit_installed supervise_installed in \<open>auto split: if_splits run_phase.splits\<close>)

definition none_running :: "manager \<Rightarrow> bool" where
  "none_running m \<longleftrightarrow> list_all (\<lambda>p. ap_state p = StateConfigured) (m_programs m)"

lemma load_none_running: "none_running (fst st) \<Longrightarrow> none_running (fst (load_meta st e))"
  by (cases st; cases "snd e") (auto simp: none_running_def load_meta_def new_program_def Let_def)

lemma loads_none_running: "none_running (fst st) \<Longrightarrow> none_running (fst (foldl load_meta st es))"
  by (induction es arbitrary: st) (simp_all add: load_none_running)

lemma none_running_installed: "none_running m \<Longrightarrow> all_installed m"
  by (simp add: none_running_def all_installed_def list_all_length)

lemma quiet_installed: "agent_reach quiet m \<Longrightarrow> all_installed m"
proof (induction rule: agent_reach.induct)
  case (loaded dir disk entries)
  show ?case by (rule none_running_installed [OF loads_none_running]) (simp add: none_running_def empty_manager_def)
next
  case (started m nm a os regular writable now)
  let ?m = "set_program a ((program_at m a)\<lparr>ap_desired := StateRunning\<rparr>) m"
  have "m_names ?m (name_of ?m a) = Some a"
    using agent_okD(7,8) [OF reachable_ok [OF started(1)] started(2)] started(2) by (simp add: name_of_def)
  then show ?case unfolding boot_start_def Let_def
    using start_locked_installed [OF desired_installed [OF started(5)]] by simp
next
  case (stepped m ev m')
  then show ?case using agent_step_installed reachable_ok by blast
qed

lemma live_run_installed:
  assumes "agent_reach quiet m" "k < length (m_runs m)" "r_phase (run_at m k) \<noteq> Ended"
  shows "m_names m (name_of m (r_program (run_at m k))) = Some (r_program (run_at m k))" "ap_run (program_at m (r_program (run_at m k))) = Some k"
proof -
  note D = agent_okD [OF reachable_ok [OF assms(1)]]
  show "m_names m (name_of m (r_program (run_at m k))) = Some (r_program (run_at m k))"
    using quiet_installed [OF assms(1)] D(1) [OF assms(2)] D(4) [OF assms(2,3)] by (simp add: all_installed_def)
  show "ap_run (program_at m (r_program (run_at m k))) = Some k" by (rule D(3) [OF assms(2,3)])
qed

text \<open>C19: As long as no removal finds its program running again, no two processes run under one program name, and each
  live run belongs to the program that is installed under its name.\<close>
theorem one_process_per_name:
  assumes "agent_reach quiet m" "j < length (m_runs m)" "k < length (m_runs m)" "r_phase (run_at m j) \<noteq> Ended" "r_phase (run_at m k) \<noteq> Ended"
    and "name_of m (r_program (run_at m j)) = name_of m (r_program (run_at m k))"
  shows "j = k \<and> m_names m (name_of m (r_program (run_at m k))) = Some (r_program (run_at m k))"
proof -
  let ?a = "r_program (run_at m j)" and ?b = "r_program (run_at m k)"
  have "Some ?a = Some ?b"
    using live_run_installed(1) [OF assms(1,2,4)] live_run_installed(1) [OF assms(1,3,5)] unfolding assms(6) by (rule trans [OF sym])
  then have "ap_run (program_at m ?a) = ap_run (program_at m ?b)" by simp
  then have "j = k"
    using live_run_installed(2) [OF assms(1,2,4)] live_run_installed(2) [OF assms(1,3,5)] by simp
  then show ?thesis using live_run_installed(1) [OF assms(1,3,5)] by blast
qed

lemma quiet_steps:
  "agent_reach quiet m \<Longrightarrow> agent_steps evs m = Some m' \<Longrightarrow> list_all (\<lambda>ev. case ev of RemoveEntry _ _ \<Rightarrow> False | _ \<Rightarrow> True) evs \<Longrightarrow> agent_reach quiet m'"
proof (induction evs arbitrary: m)
  case (Cons ev evs)
  obtain m1 where m1: "agent_step ev m = Some m1" "agent_steps evs m1 = Some m'" using Cons.prems(2) by (auto split: option.splits)
  have "quiet ev m" using Cons.prems(3) by (auto simp: quiet_def split: agent_event.splits)
  then have "agent_reach quiet m1" using agent_reach.stepped [OF Cons.prems(1) _ m1(1)] by blast
  then show ?case using Cons.IH m1(2) Cons.prems(3) by simp
qed simp

lemma run_found: "(case agent_steps evs m0 of None \<Rightarrow> False | Some m \<Rightarrow> P m) \<Longrightarrow> \<exists>m. agent_steps evs m0 = Some m \<and> P m"
  by (auto split: option.splits)

theorem one_process_per_name_witness:
  "\<exists>m. agent_steps [put_program ''Always'' None None, launch 7, ProcessExit None True 0] (empty_manager ''/v'') = Some m \<and>
     r_phase (run_at m 0) = Backing \<and> m_names m (name_of m (r_program (run_at m 0))) = Some (r_program (run_at m 0))"
proof -
  have "\<exists>m. agent_steps [put_program ''Always'' None None, launch 7, ProcessExit None True 0] (empty_manager ''/v'') = Some m \<and>
      length (m_runs m) = 1 \<and> r_phase (run_at m 0) = Backing" by (rule run_found) code_simp
  then obtain m where m: "agent_steps [put_program ''Always'' None None, launch 7, ProcessExit None True 0] (empty_manager ''/v'') = Some m"
    and r: "length (m_runs m) = 1" "r_phase (run_at m 0) = Backing" by blast
  have q: "agent_reach quiet m" by (rule quiet_steps [OF reach_empty m]) (simp add: put_program_def launch_def)
  have "m_names m (name_of m (r_program (run_at m 0))) = Some (r_program (run_at m 0))"
    using one_process_per_name [OF q, of 0 0] r by simp
  then show ?thesis using m r(2) by blast
qed

lemma run_reaches:
  "(case agent_steps evs (empty_manager dir) of None \<Rightarrow> False | Some m \<Rightarrow> P m) \<Longrightarrow> \<exists>m. agent_reach (\<lambda>_ _. True) m \<and> P m"
  by (drule run_found) (blast intro: reach_steps [OF reach_empty])


text \<open>A readiness probe that passes while its process exits can set the program ready in the pause before the restart;
  a stop in that pause does not take it back, so a stopped program is reported ready.\<close>
theorem stopped_program_can_be_ready:
  "\<exists>m. agent_reach (\<lambda>_ _. True) m \<and> m_names m ''web'' = Some 0 \<and> ap_state (program_at m 0) = StateStopped \<and>
     ap_pid (program_at m 0) = 0 \<and> ap_ready (program_at m 0)"
  by (rule run_reaches [where dir = "''/v''" and evs = "[put_program ''Always'' None (Some tcp_check), launch 7, Tick 0, ProcessExit (Some ''crashed'') True 0, Verdict True 0,
      StopMark True ''web'', StopCancel ''web'', BackoffCancelled 0]"]) code_simp

text \<open>The monitors of a run that ended by itself go on for ever: a program that is started again is probed by the
  old monitors too, and each of them signals its process.\<close>
theorem monitors_outlive_their_run:
  "\<exists>m. agent_reach (\<lambda>_ _. True) m \<and> r_phase (run_at m 0) = Ended \<and> \<not> r_cancelled (run_at m 0) \<and>
     map mo_run (filter mo_live (m_monitors m)) = [0, 1] \<and> m_signals m = [8, 8]"
  by (rule run_reaches [where dir = "''/v''" and evs = "[put_program ''Never'' (Some tcp_check) None, launch 7, ProcessExit (Some ''crashed'') True 0, launch 8,
      Tick 0, Tick 1, Verdict False 0, Verdict False 1]"]) code_simp

end
