(* ===== verification/SupervisorBounds.thy ===== *)
theory SupervisorBounds
  imports SupervisorRuns
begin

text \<open>
  Bounds of the supervision: the pause before a restart, the end of a run that was cancelled, and the checks that
  Install accepts.
\<close>

section \<open>Pauses\<close>

definition pause :: "nat \<Rightarrow> int" where
  "pause n = min (2 ^ n * 1000000000) 15000000000"

lemma pause_0: "pause 0 = initial_backoff"
  by (simp add: pause_def initial_backoff_def)

lemma pause_Suc: "next_backoff (pause n) = pause (Suc n)"
  by (auto simp: pause_def next_backoff_def max_backoff_def min_def)

definition paced :: "manager \<Rightarrow> bool" where
  "paced m \<longleftrightarrow> (\<forall>a < length (m_programs m). case ap_run (program_at m a) of None \<Rightarrow> True
     | Some k \<Rightarrow> ap_state (program_at m a) = StateRunning \<longrightarrow> r_backoff (run_at m k) = pause (ap_restarts (program_at m a)))"

lemma paced_run:
  assumes "paced m" "agent_ok m" "k < length (m_runs m)" "r_phase (run_at m k) \<noteq> Ended"
  shows "r_backoff (run_at m k) = pause (ap_restarts (program_at m (r_program (run_at m k))))"
proof -
  have "program_at m (r_program (run_at m k)) = program_at m (r_program (run_at m k)) \<and> r_program (run_at m k) < length (m_programs m)"
    using agent_okD(1) [OF assms(2,3)] by simp
  then show ?thesis using assms(1) agent_okD(3,4) [OF assms(2,3,4)] by (auto simp: paced_def)
qed

lemma paced_supervise:
  assumes "paced m" "agent_ok m" "k < length (m_runs m)" "r_program (run_at m k) = a"
    and "ap_run p = Some k" "ap_state p = StateRunning \<Longrightarrow> r_backoff r = pause (ap_restarts p)"
    and m': "m_programs m' = (m_programs m)[a := p]" "m_runs m' = (m_runs m)[k := r]"
  shows "paced m'"
  unfolding paced_def
proof (intro allI impI)
  fix b
  assume b: "b < length (m_programs m')"
  show "case ap_run (program_at m' b) of None \<Rightarrow> True
     | Some k \<Rightarrow> ap_state (program_at m' b) = StateRunning \<longrightarrow> r_backoff (run_at m' k) = pause (ap_restarts (program_at m' b))"
  proof (cases "b = a")
    case True
    then show ?thesis using b assms(3,5,6) by (simp add: m')
  next
    case False
    then have at: "program_at m' b = program_at m b" and lt: "b < length (m_programs m)" using b by (simp_all add: m')
    have ne: "j \<noteq> k" if "ap_run (program_at m b) = Some j" for j
      using agent_okD(6) [OF assms(2) lt] that assms(4) False by (auto simp: program_ok_def Let_def)
    show ?thesis using assms(1) lt ne unfolding at m'(2) by (auto simp: paced_def split: option.splits)
  qed
qed

lemma paced_same:
  assumes "paced m" "(ap_state p = StateRunning) = (ap_state (program_at m a) = StateRunning)" "ap_run p = ap_run (program_at m a)"
    and "ap_restarts p = ap_restarts (program_at m a)" and m': "m_programs m' = (m_programs m)[a := p]" "m_runs m' = m_runs m"
  shows "paced m'"
  unfolding paced_def
proof (intro allI impI)
  fix b
  assume b: "b < length (m_programs m')"
  show "case ap_run (program_at m' b) of None \<Rightarrow> True
     | Some k \<Rightarrow> ap_state (program_at m' b) = StateRunning \<longrightarrow> r_backoff (run_at m' k) = pause (ap_restarts (program_at m' b))"
    using assms(1-4) b by (cases "b = a") (auto simp: paced_def m' split: option.splits)
qed

lemma paced_frame: "m_programs m' = m_programs m \<Longrightarrow> m_runs m' = m_runs m \<Longrightarrow> paced m' = paced m"
  by (simp add: paced_def cong: option.case_cong)

lemma paced_persist [simp]: "paced (snd (persist w a m)) = paced m"
  by (rule paced_frame) simp_all

lemma paced_monitor [simp]: "paced (set_monitor i x m) = paced m" "paced (m\<lparr>m_signals := l\<rparr>) = paced m" "paced (snd (remove_entry r nm m)) = paced m"
  by (rule paced_frame; simp add: remove_entry_def Let_def)+

lemma paced_desired: "paced m \<Longrightarrow> paced (set_program a ((program_at m a)\<lparr>ap_desired := d\<rparr>) m)"
  by (rule paced_same [where a = a and p = "(program_at m a)\<lparr>ap_desired := d\<rparr>"]) auto

lemma paced_start_locked:
  assumes "paced m" "agent_ok m" "a < length (m_programs m)" "ap_state (program_at m a) \<noteq> StateRunning"
  shows "paced (snd (start_locked regular os now a m))"
proof (cases "spawn (m_dir m) regular os (ap_spec (program_at m a))")
  case (Inl e)
  show ?thesis
    by (rule paced_same [OF assms(1), where a = a and p = "(program_at m a)\<lparr>ap_state := StateFailed, ap_last_err := Some (Spawning e)\<rparr>"])
      (use assms(4) in \<open>simp_all add: start_locked_def Let_def Inl\<close>)
next
  case (Inr pid)
  let ?p = "(program_at m a)\<lparr>ap_state := StateRunning, ap_pid := pid, ap_restarts := 0, ap_last_err := None,
    ap_health := HealthUnknown, ap_ready := (as_ready (ap_spec (program_at m a)) = None), ap_started := now, ap_run := Some (length (m_runs m))\<rparr>"
  let ?m = "snd (start_locked regular os now a m)"
  have at: "m_programs ?m = (m_programs m)[a := ?p]" "m_runs ?m = m_runs m @ [\<lparr>r_program = a, r_cancelled = False, r_phase = Waiting pid, r_backoff = initial_backoff\<rparr>]"
    by (simp_all add: start_locked_def Let_def Inr)
  have lt: "j < length (m_runs m)" if "b < length (m_programs m)" "ap_run (program_at m b) = Some j" for b j
    using agent_okD(6) [OF assms(2) that(1)] that(2) by (simp add: program_ok_def Let_def)
  show ?thesis
    unfolding paced_def
  proof (intro allI impI)
    fix b
    assume b: "b < length (m_programs ?m)"
    show "case ap_run (program_at ?m b) of None \<Rightarrow> True
     | Some k \<Rightarrow> ap_state (program_at ?m b) = StateRunning \<longrightarrow> r_backoff (run_at ?m k) = pause (ap_restarts (program_at ?m b))"
    proof (cases "b = a")
      case True
      then show ?thesis using assms(3) by (simp add: at pause_0)
    next
      case False
      then show ?thesis using b assms(1) lt [of b] by (auto simp: at paced_def nth_append split: option.splits)
    qed
  qed
qed

lemma paced_register:
  "paced m \<Longrightarrow> m_programs m' = m_programs m @ [new_program sp d] \<Longrightarrow> m_runs m' = m_runs m \<Longrightarrow> paced m'"
  by (auto simp: paced_def nth_append new_program_def split: option.splits)

lemma exited_restarts: "ap_restarts (fst (exited c err p)) = ap_restarts p"
  by (simp add: exited_def Let_def split: option.splits)

lemma paced_install: "paced m \<Longrightarrow> paced (snd (install regular creatable writable sp m))"
proof (cases "checked_spec (m_dir m) regular sp")
  case (Inr sp')
  assume p: "paced m"
  have "paced (m\<lparr>m_programs := m_programs m @ [new_program sp' StateStopped], m_names := (m_names m)(as_name sp' \<mapsto> length (m_programs m))\<rparr>)"
    by (rule paced_register [OF p, where sp = sp' and d = StateStopped]) simp_all
  then show ?thesis using Inr p by (simp add: install_def Let_def)
qed (simp add: install_def)

lemma paced_start:
  assumes "paced m" "agent_ok m"
  shows "paced (snd (start regular os now writable nm m))"
proof (cases "m_names m nm")
  case (Some a)
  let ?m = "set_program a ((program_at m a)\<lparr>ap_desired := StateRunning\<rparr>) m"
  have "paced (snd (start_locked regular os now a ?m))" if "ap_state (program_at m a) \<noteq> StateRunning"
    by (rule paced_start_locked [OF paced_desired [OF assms(1)] desired_ok [OF assms(2)]])
      (use agent_okD(7) [OF assms(2) Some] that in simp_all)
  then show ?thesis using assms(1) Some
    by (cases "start_locked regular os now a ?m"; cases "fst (start_locked regular os now a ?m)") (simp_all add: start_def)
qed (use assms in \<open>simp add: start_def\<close>)

lemma paced_process_exit:
  assumes "paced m" "agent_ok m" "k < length (m_runs m)" "r_phase (run_at m k) = Waiting pid"
  shows "paced (process_exit err writable k m)"
proof -
  let ?a = "r_program (run_at m k)" and ?c = "r_cancelled (run_at m k)"
  obtain p again where e: "exited ?c err (program_at m ?a) = (p, again)" by force
  have shape: "ap_run p = Some k" "ap_restarts p = ap_restarts (program_at m ?a)"
    using exited_shape(1) [of ?c err "program_at m ?a"] exited_restarts [of ?c err "program_at m ?a"] e agent_okD(3) [OF assms(2,3)] assms(4) by simp_all
  show ?thesis
    by (rule paced_supervise [OF assms(1-3) refl shape(1), where r = "(run_at m k)\<lparr>r_phase := if again then Backing else Ended\<rparr>"])
      (use paced_run [OF assms(1-3)] assms(4) e shape(2) in \<open>simp_all add: process_exit_def Let_def\<close>)
qed

lemma paced_backing:
  assumes "paced m" "agent_ok m" "k < length (m_runs m)" "r_phase (run_at m k) = Backing"
  shows "paced (backoff_cancelled k m)" "paced (respawn regular os now writable k m)"
proof -
  let ?a = "r_program (run_at m k)"
  let ?p = "program_at m ?a" and ?b = "next_backoff (r_backoff (run_at m k))"
  have run: "ap_run ?p = Some k" using agent_okD(3) [OF assms(2,3)] assms(4) by simp
  have b: "?b = pause (Suc (ap_restarts ?p))" using paced_run [OF assms(1-3)] assms(4) by (simp add: pause_Suc)
  show "paced (backoff_cancelled k m)"
    by (rule paced_supervise [OF assms(1-3) refl, where p = "?p\<lparr>ap_state := StateStopped\<rparr>" and r = "(run_at m k)\<lparr>r_phase := Ended\<rparr>"])
      (use run in \<open>simp_all add: backoff_cancelled_def Let_def\<close>)
  show "paced (respawn regular os now writable k m)"
  proof (cases "spawn (m_dir m) regular os (ap_spec ?p)")
    case (Inl e)
    show ?thesis
      by (rule paced_supervise [OF assms(1-3) refl, where p = "?p\<lparr>ap_state := StateFailed, ap_last_err := Some (Spawning e)\<rparr>"
            and r = "(run_at m k)\<lparr>r_phase := Ended, r_backoff := ?b\<rparr>"]) (use run in \<open>simp_all add: respawn_def Let_def Inl\<close>)
  next
    case (Inr pid)
    show ?thesis
      by (rule paced_supervise [OF assms(1-3) refl, where r = "(run_at m k)\<lparr>r_phase := Waiting pid, r_backoff := ?b\<rparr>"
            and p = "?p\<lparr>ap_restarts := ap_restarts ?p + 1, ap_pid := pid, ap_started := now, ap_state := StateRunning, ap_ready := (as_ready (ap_spec ?p) = None)\<rparr>"])
        (use run b in \<open>simp_all add: respawn_def Let_def Inr\<close>)
  qed
qed

lemma paced_verdict: "paced m \<Longrightarrow> paced (set_health a h m)" "paced m \<Longrightarrow> paced (set_ready a b m)"
  using paced_same [of m "(program_at m a)\<lparr>ap_health := h\<rparr>" a "set_program a ((program_at m a)\<lparr>ap_health := h\<rparr>) m"]
    paced_same [of m "(program_at m a)\<lparr>ap_ready := b\<rparr>" a "set_program a ((program_at m a)\<lparr>ap_ready := b\<rparr>) m"]
  by (simp_all add: set_health_def set_ready_def)

lemma paced_stop_cancel:
  assumes "paced m"
  shows "paced (snd (stop_cancel nm m))"
proof -
  have "paced (set_run k ((run_at m k)\<lparr>r_cancelled := True\<rparr>) m)" for k
  proof -
    have "r_backoff (run_at (set_run k ((run_at m k)\<lparr>r_cancelled := True\<rparr>) m) j) = r_backoff (run_at m j)" for j
      by (cases "j = k \<and> k < length (m_runs m)") (auto simp: nth_list_update list_update_beyond)
    then show ?thesis using assms unfolding paced_def by (simp cong: option.case_cong)
  qed
  then show ?thesis using assms by (simp add: stop_cancel_def split: option.splits)
qed

lemma paced_step:
  assumes "paced m" "agent_ok m" "agent_step ev m = Some m'"
  shows "paced m'"
proof (cases ev)
  case (StopMark writable nm)
  then show ?thesis using assms by (auto simp: stop_mark_def paced_desired split: option.splits)
next
  case (Tick i)
  then show ?thesis using assms by (auto simp: monitor_tick_def Let_def split: if_splits)
next
  case (Verdict ok i)
  then show ?thesis using assms
    by (auto simp: monitor_verdict_def Let_def paced_verdict split: if_splits option.splits monitor_kind.splits)
qed (use assms paced_install paced_start paced_process_exit paced_backing paced_stop_cancel in \<open>auto split: if_splits run_phase.splits\<close>)

lemma none_running_paced: "none_running m \<Longrightarrow> paced m"
  by (auto simp: none_running_def paced_def list_all_length split: option.splits)

lemma reachable_paced: "agent_reach allowed m \<Longrightarrow> paced m"
proof (induction rule: agent_reach.induct)
  case (loaded dir disk entries)
  show ?case by (rule none_running_paced [OF loads_none_running]) (simp add: none_running_def empty_manager_def)
next
  case (started m nm a os regular writable now)
  have "paced (snd (start_locked regular (os a) now a (set_program a ((program_at m a)\<lparr>ap_desired := StateRunning\<rparr>) m)))"
    by (rule paced_start_locked [OF paced_desired [OF started(5)] desired_ok [OF reachable_ok [OF started(1)]]])
      (use agent_okD(7) [OF reachable_ok [OF started(1)] started(2)] started(3) in simp_all)
  then show ?case by (simp add: boot_start_def Let_def)
next
  case (stepped m ev m')
  then show ?case using paced_step reachable_ok by blast
qed

text \<open>C21: The pause before a supervised process is started again doubles with each restart of the program, from one second
  up to fifteen, however its requests, exits and probes interleave.\<close>
theorem restart_pause_doubles:
  assumes "agent_reach allowed m" "k < length (m_runs m)" "r_phase (run_at m k) \<noteq> Ended"
  shows "r_backoff (run_at m k) = min (2 ^ ap_restarts (program_at m (r_program (run_at m k))) * initial_backoff) max_backoff"
  using paced_run [OF reachable_paced [OF assms(1)] reachable_ok [OF assms(1)] assms(2,3)]
  by (simp add: pause_def initial_backoff_def max_backoff_def)

theorem restart_pause_doubles_witness:
  "\<exists>m. agent_steps [put_program ''Always'' None None, launch 7, ProcessExit None True 0, Respawn (\<lambda>_. True) (Inr 8) 0 True 0] (empty_manager ''/v'') = Some m \<and>
     ap_restarts (program_at m 0) = 1 \<and> r_backoff (run_at m 0) = 2000000000"
proof -
  have "\<exists>m. agent_reach (\<lambda>_ _. True) m \<and> agent_steps [put_program ''Always'' None None, launch 7, ProcessExit None True 0, Respawn (\<lambda>_. True) (Inr 8) 0 True 0] (empty_manager ''/v'') = Some m \<and>
      length (m_runs m) = 1 \<and> r_program (run_at m 0) = 0 \<and> r_phase (run_at m 0) = Waiting 8 \<and> ap_restarts (program_at m 0) = 1"
  proof -
    have "\<exists>m. agent_steps [put_program ''Always'' None None, launch 7, ProcessExit None True 0, Respawn (\<lambda>_. True) (Inr 8) 0 True 0] (empty_manager ''/v'') = Some m \<and>
      length (m_runs m) = 1 \<and> r_program (run_at m 0) = 0 \<and> r_phase (run_at m 0) = Waiting 8 \<and> ap_restarts (program_at m 0) = 1"
      by (rule run_found) code_simp
    then show ?thesis using reach_steps [OF reach_empty] by blast
  qed
  then show ?thesis using restart_pause_doubles [where k = 0] by (fastforce simp: initial_backoff_def max_backoff_def)
qed

section \<open>The end of a cancelled run\<close>

fun of_run :: "nat \<Rightarrow> agent_event \<Rightarrow> bool" where
  "of_run k (ProcessExit err writable j) = (j = k)"
| "of_run k (BackoffCancelled j) = (j = k)"
| "of_run k (Respawn regular os now writable j) = (j = k)"
| "of_run k _ = False"

fun phase_rank :: "run_phase \<Rightarrow> nat" where
  "phase_rank Ended = 0"
| "phase_rank (Waiting pid) = 1"
| "phase_rank Backing = 2"

text \<open>What a step leaves of a run that was cancelled: the other steps keep its phase, its own lower its rank.\<close>

definition cancelled_from :: "nat \<Rightarrow> manager \<Rightarrow> nat \<Rightarrow> manager \<Rightarrow> bool" where
  "cancelled_from n m k m' \<longleftrightarrow> k < length (m_runs m') \<and> r_cancelled (run_at m' k) \<and> phase_rank (r_phase (run_at m' k)) + n \<le> phase_rank (r_phase (run_at m k))"

lemma cancelled_kept:
  assumes "k < length (m_runs m)" "r_cancelled (run_at m k)"
  shows "m_runs m' = m_runs m @ rs \<Longrightarrow> cancelled_from 0 m k m'"
    and "m_runs m' = (m_runs m)[j := r] \<Longrightarrow> r_phase r = r_phase (run_at m j) \<Longrightarrow> r_cancelled r \<Longrightarrow> cancelled_from 0 m k m'"
  using assms by (auto simp: cancelled_from_def nth_append, (cases "j = k"; simp)+)

lemma start_locked_runs: "\<exists>rs. m_runs (snd (start_locked regular os now a m)) = m_runs m @ rs"
  by (auto simp: start_locked_def Let_def split: sum.splits)

lemma start_runs: "\<exists>rs. m_runs (snd (start regular os now writable nm m)) = m_runs m @ rs"
proof (cases "m_names m nm")
  case (Some a)
  let ?m = "set_program a ((program_at m a)\<lparr>ap_desired := StateRunning\<rparr>) m"
  show ?thesis using Some start_locked_runs [of regular os now a ?m]
    by (cases "start_locked regular os now a ?m"; cases "fst (start_locked regular os now a ?m)") (auto simp: start_def)
qed (simp add: start_def)

lemma same_runs:
  "m_runs (snd (install regular creatable writable sp m)) = m_runs m" "m_runs (snd (stop_mark writable nm m)) = m_runs m"
  "m_runs (snd (remove_entry removable nm m)) = m_runs m" "m_runs (monitor_tick i m) = m_runs m" "m_runs (monitor_verdict ok pid i m) = m_runs m"
proof -
  show "m_runs (snd (install regular creatable writable sp m)) = m_runs m"
    by (cases "checked_spec (m_dir m) regular sp") (simp_all add: install_def Let_def)
  show "m_runs (snd (stop_mark writable nm m)) = m_runs m" by (cases "m_names m nm") (simp_all add: stop_mark_def)
  show "m_runs (monitor_verdict ok pid i m) = m_runs m"
    by (simp add: monitor_verdict_def set_health_def set_ready_def Let_def split: monitor_kind.splits)
qed (simp_all add: remove_entry_def monitor_tick_def Let_def)

lemma cancelled_supervise:
  assumes "k < length (m_runs m)" "r_cancelled (run_at m k)"
  shows "r_phase (run_at m j) = Waiting pid \<Longrightarrow> cancelled_from (of_bool (j = k)) m k (process_exit err writable j m)"
    and "r_phase (run_at m j) = Backing \<Longrightarrow> cancelled_from (of_bool (j = k)) m k (backoff_cancelled j m)"
    and "r_phase (run_at m j) = Backing \<Longrightarrow> cancelled_from (of_bool (j = k)) m k (respawn regular os now writable j m)"
proof -
  let ?a = "r_program (run_at m j)"
  obtain p again where e: "exited (r_cancelled (run_at m j)) err (program_at m ?a) = (p, again)" by force
  have stops: "\<not> again" if "j = k"
    using e that assms(2) by (simp add: exited_def Let_def)
  show "cancelled_from (of_bool (j = k)) m k (process_exit err writable j m)" if "r_phase (run_at m j) = Waiting pid"
    using e that stops assms by (cases "j = k") (auto simp: process_exit_def Let_def cancelled_from_def)
  show "cancelled_from (of_bool (j = k)) m k (backoff_cancelled j m)" if "r_phase (run_at m j) = Backing"
    using that assms by (cases "j = k") (auto simp: backoff_cancelled_def Let_def cancelled_from_def)
  show "cancelled_from (of_bool (j = k)) m k (respawn regular os now writable j m)" if "r_phase (run_at m j) = Backing"
    using that assms by (cases "j = k") (auto simp: respawn_def Let_def cancelled_from_def split: sum.splits)
qed

lemma cancelled_step:
  assumes "agent_step ev m = Some m'" "k < length (m_runs m)" "r_cancelled (run_at m k)"
  shows "cancelled_from (of_bool (of_run k ev)) m k m'"
proof -
  note kept = cancelled_kept(1) [OF assms(2,3), where rs = "[]"]
  show ?thesis
  proof (cases ev)
    case (Start regular os now writable nm)
    then show ?thesis using assms cancelled_kept(1) [OF assms(2,3)] start_runs [of regular os now writable nm m] by (auto split: if_splits)
  next
    case (StopCancel nm)
    then show ?thesis using assms kept cancelled_kept(2) [OF assms(2,3)] by (auto simp: stop_cancel_def split: option.splits)
  next
    case (ProcessExit err writable j)
    then show ?thesis using assms(1) cancelled_supervise(1) [OF assms(2,3), of j] by (auto split: if_splits run_phase.splits)
  next
    case (BackoffCancelled j)
    then show ?thesis using assms(1) cancelled_supervise(2) [OF assms(2,3), of j] by (auto split: if_splits)
  next
    case (Respawn regular os now writable j)
    then show ?thesis using assms(1) cancelled_supervise(3) [OF assms(2,3), of j] by (auto split: if_splits)
  qed (use assms kept in \<open>auto simp: same_runs split: if_splits option.splits\<close>)
qed

text \<open>C22: A run that was cancelled ends: whatever else happens, its goroutine takes at most one more step when it waits for
  a process and at most two in the pause before a restart (the timer may win against the cancellation once).\<close>
theorem cancelled_run_ends:
  assumes "agent_steps evs m = Some m'" "k < length (m_runs m)" "r_cancelled (run_at m k)"
  shows "length (filter (of_run k) evs) + phase_rank (r_phase (run_at m' k)) \<le> phase_rank (r_phase (run_at m k))"
  using assms
proof (induction evs arbitrary: m)
  case (Cons ev evs)
  obtain m1 where m1: "agent_step ev m = Some m1" "agent_steps evs m1 = Some m'" using Cons.prems(1) by (auto split: option.splits)
  have c: "cancelled_from (of_bool (of_run k ev)) m k m1" by (rule cancelled_step [OF m1(1) Cons.prems(2,3)])
  then have "length (filter (of_run k) evs) + phase_rank (r_phase (run_at m' k)) \<le> phase_rank (r_phase (run_at m1 k))"
    by (intro Cons.IH [OF m1(2)]) (simp_all add: cancelled_from_def)
  then show ?case using c by (auto simp: cancelled_from_def)
qed simp

theorem cancelled_run_ends_witness:
  "\<exists>m m'. agent_steps [put_program ''Always'' None None, launch 7, ProcessExit None True 0, StopMark True ''web'', StopCancel ''web''] (empty_manager ''/v'') = Some m \<and>
     agent_steps [Respawn (\<lambda>_. True) (Inr 8) 0 True 0, ProcessExit None True 0] m = Some m' \<and> r_phase (run_at m' 0) = Ended"
proof -
  let ?evs = "[put_program ''Always'' None None, launch 7, ProcessExit None True 0, StopMark True ''web'', StopCancel ''web'']"
  let ?more = "[Respawn (\<lambda>_. True) (Inr 8) 0 True 0, ProcessExit None True 0]"
  have "\<exists>m. agent_steps ?evs (empty_manager ''/v'') = Some m \<and> (length (m_runs m) = 1 \<and> r_cancelled (run_at m 0) \<and> phase_rank (r_phase (run_at m 0)) = 2 \<and> agent_steps ?more m \<noteq> None)"
    by (rule run_found) code_simp
  then obtain m m' where m: "agent_steps ?evs (empty_manager ''/v'') = Some m" "length (m_runs m) = 1" "r_cancelled (run_at m 0)"
    "phase_rank (r_phase (run_at m 0)) = 2" "agent_steps ?more m = Some m'" by blast
  have "phase_rank (r_phase (run_at m' 0)) = 0" using cancelled_run_ends [OF m(5), of 0] m(2-4) by simp
  then have "r_phase (run_at m' 0) = Ended" by (cases "r_phase (run_at m' 0)") simp_all
  then show ?thesis using m(1,5) by blast
qed

end
