(* ===== verification/SupervisorSpecs.thy ===== *)
theory SupervisorSpecs
  imports SupervisorBounds
begin

text \<open>
  What Install accepts, and what a boot restores: the bounds of the checks of an accepted definition, and the
  programs that a new life of the agent takes over from the metas on disk.
\<close>

section \<open>Accepted definitions\<close>

definition check_ok :: "agent_check \<Rightarrow> bool" where
  "check_ok c \<longleftrightarrow> c_type c \<in> {''process'', ''tcp'', ''http''} \<and> (c_type c \<noteq> ''process'' \<longrightarrow> 1 \<le> c_port c \<and> c_port c \<le> 65535) \<and>
     (c_type c = ''http'' \<longrightarrow> c_path c \<noteq> []) \<and> 1000000000 \<le> c_interval c \<and> 0 < c_timeout c \<and> c_timeout c < c_interval c \<and> 0 < c_threshold c"

definition spec_ok :: "agent_spec \<Rightarrow> bool" where
  "spec_ok sp \<longleftrightarrow> name_ok (as_name sp) \<and> as_policy sp \<in> {''Never'', ''OnFailure'', ''Always''} \<and> as_type sp \<in> {''simple'', ''oneshot''} \<and>
     \<not> (as_type sp = ''oneshot'' \<and> as_policy sp = ''Always'') \<and> pred_option check_ok (as_live sp) \<and> pred_option check_ok (as_ready sp)"

lemma probe_times: "1000000000 \<le> probe_interval i" "1000000000 \<le> j \<Longrightarrow> 0 < probe_timeout j t \<and> probe_timeout j t < j"
  by (auto simp: probe_interval_def probe_timeout_def Let_def)

lemma probe_times_idem: "1000000000 \<le> i \<Longrightarrow> probe_interval i = i" "0 < t \<Longrightarrow> t < i \<Longrightarrow> probe_timeout i t = t"
  by (simp_all add: probe_interval_def probe_timeout_def)

lemma valid_check_None: "valid_check h = None \<longleftrightarrow> c_type h \<in> {''process'', ''tcp'', ''http''} \<and> (c_type h \<noteq> ''process'' \<longrightarrow> 1 \<le> c_port h \<and> c_port h \<le> 65535)"
  by (auto simp: valid_check_def)

lemma normalise_ok: "normalise h = Inr c \<Longrightarrow> c_type c \<noteq> [] \<Longrightarrow> check_ok c"
  by (auto simp: normalise_def check_ok_def valid_check_None probe_times empty_check_def Let_def split: if_splits option.splits)

lemma normalise_same: "check_ok c \<Longrightarrow> normalise c = Inr c"
  by (auto simp: normalise_def check_ok_def probe_times_idem Let_def valid_check_None split: option.splits)
    (simp_all add: valid_check_def)

lemma normalise_check_ok: "normalise_check hc = Inr c \<Longrightarrow> pred_option check_ok c"
  by (auto simp: normalise_check_def dest: normalise_ok split: option.splits if_splits)

lemma normalise_check_same: "pred_option check_ok c \<Longrightarrow> normalise_check c = Inr c"
  by (cases c) (auto simp: normalise_check_def normalise_same, auto simp: check_ok_def)

lemma checked_spec_shape:
  assumes "checked_spec dir regular sp = Inr sp'"
  shows "spec_ok sp' \<and> (\<exists>p. entrypoint_path dir regular sp' = Inr p)"
  using assms
  by (auto simp: checked_spec_def spec_ok_def normalise_policy_def normalise_type_def Let_def dest: normalise_check_ok split: if_splits)

lemma checked_spec_same:
  assumes "spec_ok sp" "entrypoint_path dir regular sp = Inr p"
  shows "checked_spec dir regular sp = Inr sp"
  using assms by (auto simp: checked_spec_def spec_ok_def normalise_policy_def normalise_type_def normalise_check_same)

text \<open>C23: Install registers only well-formed definitions: a valid name, a known restart policy and type, and checks whose port
  is in range, whose interval is at least a second, whose timeout is positive and below the interval and whose
  threshold is positive; a definition that was accepted is accepted again unchanged.\<close>
theorem accepted_definition_is_well_formed:
  assumes "checked_spec dir regular sp = Inr sp'"
  shows "spec_ok sp' \<and> as_name sp' = as_name sp \<and> checked_spec dir regular sp' = Inr sp'"
proof -
  have "as_name sp' = as_name sp" using assms by (auto simp: checked_spec_def Let_def split: if_splits)
  then show ?thesis using checked_spec_shape [OF assms] checked_spec_same by blast
qed

theorem accepted_definition_is_well_formed_witness:
  "\<exists>sp'. checked_spec ''/v'' (\<lambda>_. True) (demo_spec [] (Some (tcp_check\<lparr>c_timeout := 20000000000\<rparr>)) None) = Inr sp' \<and> spec_ok sp' \<and>
     as_policy sp' = ''Never'' \<and> (case as_live sp' of Some c \<Rightarrow> c_interval c = 10000000000 \<and> c_timeout c = 5000000000 | None \<Rightarrow> False)"
proof -
  have "(case checked_spec ''/v'' (\<lambda>_. True) (demo_spec [] (Some (tcp_check\<lparr>c_timeout := 20000000000\<rparr>)) None) of Inl _ \<Rightarrow> False
     | Inr sp' \<Rightarrow> as_policy sp' = ''Never'' \<and> (case as_live sp' of Some c \<Rightarrow> c_interval c = 10000000000 \<and> c_timeout c = 5000000000 | None \<Rightarrow> False))"
    by code_simp
  then obtain sp' where "checked_spec ''/v'' (\<lambda>_. True) (demo_spec [] (Some (tcp_check\<lparr>c_timeout := 20000000000\<rparr>)) None) = Inr sp'"
    "as_policy sp' = ''Never''" "case as_live sp' of Some c \<Rightarrow> c_interval c = 10000000000 \<and> c_timeout c = 5000000000 | None \<Rightarrow> False"
    by (auto split: sum.splits)
  then show ?thesis using accepted_definition_is_well_formed by blast
qed

section \<open>Booting\<close>

definition loadable :: "string \<times> agent_meta option \<Rightarrow> agent_meta option" where
  "loadable e = (case snd e of None \<Rightarrow> None | Some mt \<Rightarrow> if name_ok (as_name (am_spec mt)) then Some mt else None)"

definition wanted :: "agent_meta \<Rightarrow> bool" where
  "wanted mt \<longleftrightarrow> am_desired mt = StateRunning \<or> as_auto (am_spec mt)"

definition wanted_at :: "agent_meta list \<Rightarrow> nat list" where
  "wanted_at mts = filter (\<lambda>a. wanted (mts ! a)) [0..<length mts]"

definition loaded_from :: "string \<Rightarrow> agent_meta list \<Rightarrow> manager \<times> nat list \<Rightarrow> bool" where
  "loaded_from dir mts st \<longleftrightarrow> m_dir (fst st) = dir \<and> m_programs (fst st) = map (\<lambda>mt. new_program (am_spec mt) (am_desired mt)) mts \<and>
     snd st = wanted_at mts \<and> (\<forall>nm. m_names (fst st) nm \<noteq> None \<longleftrightarrow> nm \<in> (\<lambda>mt. as_name (am_spec mt)) ` set mts)"

lemma wanted_at_snoc: "wanted_at (mts @ [mt]) = wanted_at mts @ (if wanted mt then [length mts] else [])"
proof -
  have "filter (\<lambda>a. wanted ((mts @ [mt]) ! a)) [0..<length mts] = wanted_at mts"
    unfolding wanted_at_def by (rule filter_cong) (auto simp: nth_append)
  then show ?thesis by (simp add: wanted_at_def)
qed

lemma load_meta_loaded:
  assumes "loaded_from dir mts st"
  shows "loaded_from dir (mts @ (case loadable e of None \<Rightarrow> [] | Some mt \<Rightarrow> [mt])) (load_meta st e)"
proof (cases "loadable e")
  case None
  then have "load_meta st e = st" by (auto simp: loadable_def load_meta_def split: option.splits if_splits prod.splits)
  then show ?thesis using assms None by simp
next
  case (Some mt)
  obtain m ts where st: "st = (m, ts)" by force
  have "snd e = Some mt" "name_ok (as_name (am_spec mt))" using Some by (auto simp: loadable_def split: option.splits if_splits)
  then show ?thesis using assms Some unfolding loaded_from_def st by (auto simp: load_meta_def Let_def wanted_at_snoc wanted_def)
qed

lemma loads_loaded:
  "loaded_from dir mts st \<Longrightarrow> loaded_from dir (mts @ List.map_filter loadable es) (foldl load_meta st es)"
proof (induction es arbitrary: mts st)
  case (Cons e es)
  show ?case using Cons.IH [OF load_meta_loaded [OF Cons.prems, of e]] by (simp add: map_filter_simps split: option.splits)
qed (simp add: map_filter_simps)

text \<open>The program that a boot leaves for a meta.\<close>

definition booted :: "string \<Rightarrow> (string \<Rightarrow> bool) \<Rightarrow> string + nat \<Rightarrow> agent_meta \<Rightarrow> agent_program \<Rightarrow> bool" where
  "booted dir regular os mt p \<longleftrightarrow> ap_spec p = am_spec mt \<and>
     (if \<not> wanted mt then ap_state p = StateConfigured \<and> ap_desired p = am_desired mt \<and> ap_pid p = 0
      else ap_desired p = StateRunning \<and>
        (case spawn dir regular os (am_spec mt) of Inl e \<Rightarrow> ap_state p = StateFailed \<and> ap_last_err p = Some (Spawning e) \<and> ap_pid p = 0
         | Inr pid \<Rightarrow> ap_state p = StateRunning \<and> ap_pid p = pid))"

definition boot_program :: "string \<Rightarrow> (string \<Rightarrow> bool) \<Rightarrow> string + nat \<Rightarrow> agent_program \<Rightarrow> agent_program \<Rightarrow> bool" where
  "boot_program dir regular os p q \<longleftrightarrow> ap_spec q = ap_spec p \<and> ap_desired q = StateRunning \<and>
     (case spawn dir regular os (ap_spec p) of Inl e \<Rightarrow> ap_state q = StateFailed \<and> ap_last_err q = Some (Spawning e) \<and> ap_pid q = ap_pid p
      | Inr pid \<Rightarrow> ap_state q = StateRunning \<and> ap_pid q = pid)"

lemma boot_start_programs:
  assumes "a < length (m_programs m)"
  shows "\<exists>q. m_programs (boot_start regular os writable now m a) = (m_programs m)[a := q] \<and> boot_program (m_dir m) regular (os a) (program_at m a) q \<and>
    m_dir (boot_start regular os writable now m a) = m_dir m \<and> m_names (boot_start regular os writable now m a) = m_names m"
  using assms by (auto simp: boot_start_def start_locked_def boot_program_def Let_def split: sum.splits)

lemma boot_starts_programs:
  assumes "distinct as" "\<forall>a \<in> set as. a < length (m_programs m)"
    and "m' = foldl (boot_start regular os writable now) m as"
  shows "length (m_programs m') = length (m_programs m) \<and> m_names m' = m_names m \<and>
    (\<forall>b < length (m_programs m). if b \<in> set as then boot_program (m_dir m) regular (os b) (program_at m b) (program_at m' b) else program_at m' b = program_at m b)"
  using assms(1,2) unfolding assms(3)
proof (induction as arbitrary: m)
  case (Cons a as)
  let ?m = "boot_start regular os writable now m a"
  obtain q where q: "m_programs ?m = (m_programs m)[a := q]" "boot_program (m_dir m) regular (os a) (program_at m a) q" "m_dir ?m = m_dir m" "m_names ?m = m_names m"
    using boot_start_programs [of a m regular os writable now] Cons.prems(2) by auto
  have other: "b \<noteq> a \<Longrightarrow> program_at ?m b = program_at m b" for b by (simp add: q(1))
  have later: "b \<in> set as \<Longrightarrow> program_at ?m b = program_at m b" for b by (rule other) (use Cons.prems(1) in auto)
  have "program_at ?m a = q" using Cons.prems(2) by (simp add: q(1))
  then show ?case using Cons.IH [of ?m] Cons.prems q(2) other later unfolding q(3,4) by (auto simp: q(1))
qed simp

text \<open>C24: A boot takes every readable meta with a valid name over as a program with the definition on disk; it starts exactly
  those that were desired running or start automatically, and one that does not start is failed, with its error,
  and stays desired.\<close>
theorem boot_restores_programs:
  assumes "mts = List.map_filter (\<lambda>n. loadable (n, disk n)) entries"
    and "m = boot dir disk entries regular os writable now"
  shows "length (m_programs m) = length mts \<and> (\<forall>a < length mts. booted dir regular (os a) (mts ! a) (program_at m a)) \<and>
    (\<forall>mt \<in> set mts. m_names m (as_name (am_spec mt)) \<noteq> None)"
proof -
  let ?st = "foldl load_meta ((empty_manager dir)\<lparr>m_disk := disk\<rparr>, []) (map (\<lambda>n. (n, disk n)) entries)"
  let ?as = "sort_by_startup_order (fst ?st) (snd ?st)"
  have "loaded_from dir [] ((empty_manager dir)\<lparr>m_disk := disk\<rparr>, [])" by (simp add: loaded_from_def empty_manager_def wanted_at_def)
  then have l: "loaded_from dir mts ?st"
    using loads_loaded [of dir "[]" _ "map (\<lambda>n. (n, disk n)) entries"] by (simp add: assms(1) List.map_filter_def filter_map o_def)
  then have P: "m_programs (fst ?st) = map (\<lambda>mt. new_program (am_spec mt) (am_desired mt)) mts" "m_dir (fst ?st) = dir"
    by (simp_all add: loaded_from_def)
  have as: "distinct ?as" "set ?as = {a. a < length mts \<and> wanted (mts ! a)}"
    using l by (auto simp: sort_by_startup_order_def loaded_from_def wanted_at_def)
  have m: "m = foldl (boot_start regular os writable now) (fst ?st) ?as" by (simp add: assms(2) boot_def case_prod_unfold Let_def)
  have b: "length (m_programs m) = length mts" "m_names m = m_names (fst ?st)"
    "\<And>b. b < length mts \<Longrightarrow> if b \<in> set ?as then boot_program dir regular (os b) (program_at (fst ?st) b) (program_at m b) else program_at m b = program_at (fst ?st) b"
    using boot_starts_programs [OF as(1) _ m] as(2) P by auto
  have "booted dir regular (os a) (mts ! a) (program_at m a)" if "a < length mts" for a
    using b(3) [OF that] that as(2) P(1) by (auto simp: booted_def boot_program_def new_program_def split: if_splits sum.splits)
  then show ?thesis using b l by (auto simp: loaded_from_def)
qed

text \<open>A disk with a program that was running, one that was stopped and a broken file.\<close>

definition demo_disk :: "string \<Rightarrow> agent_meta option" where
  "demo_disk nm = (if nm = ''web'' then Some \<lparr>am_spec = demo_spec ''Always'' None None, am_desired = StateRunning, am_pid = 5\<rparr>
     else if nm = ''db'' then Some \<lparr>am_spec = (demo_spec ''Never'' None None)\<lparr>as_name := ''db''\<rparr>, am_desired = StateStopped, am_pid = 0\<rparr> else None)"

theorem boot_restores_programs_witness:
  "\<exists>m. m = boot ''/v'' demo_disk [''bad'', ''db'', ''web''] (\<lambda>_. True) (\<lambda>_. Inr 9) (\<lambda>_. True) 0 \<and> length (m_programs m) = 2 \<and>
     ap_state (program_at m 0) = StateConfigured \<and> ap_state (program_at m 1) = StateRunning \<and> ap_pid (program_at m 1) = 9"
proof -
  let ?m = "boot ''/v'' demo_disk [''bad'', ''db'', ''web''] (\<lambda>_. True) (\<lambda>_. Inr 9) (\<lambda>_. True) 0"
  let ?mts = "List.map_filter (\<lambda>n. loadable (n, demo_disk n)) [''bad'', ''db'', ''web'']"
  note b = boot_restores_programs [OF refl refl, of "''/v''" demo_disk "[''bad'', ''db'', ''web'']" "\<lambda>_. True" "\<lambda>_. Inr 9" "\<lambda>_. True" 0]
  have n: "length ?mts = 2" "\<not> wanted (?mts ! 0)" "wanted (?mts ! 1)" "spawn ''/v'' (\<lambda>_. True) (Inr 9) (am_spec (?mts ! 1)) = Inr 9"
    by code_simp+
  have "booted ''/v'' (\<lambda>_. True) (Inr 9) (?mts ! 0) (program_at ?m 0)" "booted ''/v'' (\<lambda>_. True) (Inr 9) (?mts ! 1) (program_at ?m 1)"
    using b n(1) by auto
  then have "ap_state (program_at ?m 0) = StateConfigured" "ap_state (program_at ?m 1) = StateRunning \<and> ap_pid (program_at ?m 1) = 9"
    using n(2-4) by (simp_all only: booted_def if_False if_True not_True_eq_False not_False_eq_True sum.case)
  then show ?thesis using b n(1) by (intro exI [of _ ?m]) simp
qed

end
