(* ===== verification/LogTail.thy ===== *)
theory LogTail
  imports Supervisor
begin

text \<open>
  nodeapps/internal/nodeagent/manager.go, \<open>TailLogs\<close>: the search for the last lines of a log backwards from its end,
  and the lines it finds.
\<close>

definition newline :: char where "newline = CHR 0x0A"

text \<open>The loop of \<open>lastLineStart\<close>: back to the byte after the newline before \<open>end\<close>.\<close>

fun back_to_line :: "string \<Rightarrow> nat \<Rightarrow> nat" where
  "back_to_line data 0 = 0"
| "back_to_line data (Suc e) = (if data ! e \<noteq> newline then back_to_line data e else Suc e)"

definition last_line_start :: "string \<Rightarrow> nat \<Rightarrow> nat" where
  "last_line_start data e = back_to_line data (if 0 < e \<and> data ! (e - 1) = newline then e - 1 else e)"

lemma back_to_line_le: "back_to_line data e \<le> e"
  by (induction data e rule: back_to_line.induct) auto

lemma last_line_start_less: "0 < i \<Longrightarrow> last_line_start data i < i"
  using back_to_line_le [of data "i - 1"] by (cases i) (auto simp: last_line_start_def less_Suc_eq_le)

text \<open>The loop of \<open>tailFile\<close>, with the count of lines so far.\<close>

function tail_from :: "string \<Rightarrow> int \<Rightarrow> int \<Rightarrow> nat \<Rightarrow> nat" where
  "tail_from data n lines i = (if 0 < i then (let j = last_line_start data i in if lines + 1 \<ge> n then j else tail_from data n (lines + 1) j) else i)"
  by pat_completeness auto
termination by (relation "measure (\<lambda>(data, n, lines, i). i)") (simp_all add: last_line_start_less)

declare tail_from.simps [simp del]

datatype log_file = NoLog | LogError string | LogData string

definition tail_file :: "log_file \<Rightarrow> int \<Rightarrow> string + string" where
  "tail_file f n = (case f of NoLog \<Rightarrow> Inr [] | LogError e \<Rightarrow> Inl e | LogData data \<Rightarrow> Inr (drop (tail_from data n 0 (length data)) data))"

definition tail_logs :: "(string \<Rightarrow> log_file) \<Rightarrow> string \<Rightarrow> int \<Rightarrow> manager \<Rightarrow> (manager_error + string) + string" where
  "tail_logs logs nm n m = (case m_names m nm of None \<Rightarrow> Inl (Inl (NotInstalled nm))
     | Some _ \<Rightarrow> emap_err Inr (tail_file (logs (path_join [m_dir m, ''programs'', nm, ''program.log''])) n))"

section \<open>The lines of a log\<close>

fun log_lines :: "string \<Rightarrow> string list" where
  "log_lines [] = []"
| "log_lines (c # cs) = (if c = newline then [c] # log_lines cs else case log_lines cs of [] \<Rightarrow> [[c]] | l # ls \<Rightarrow> (c # l) # ls)"

lemma log_lines_concat: "concat (log_lines cs) = cs"
  by (induction cs) (auto split: list.splits)

lemma log_lines_Nil [simp]: "log_lines cs = [] \<longleftrightarrow> cs = []"
  by (cases cs) (auto split: list.splits)

definition text_of :: "string \<Rightarrow> bool" where
  "text_of l \<longleftrightarrow> newline \<notin> set l"

text \<open>All lines but the last end with a newline, the last one may.\<close>

lemma log_lines_snoc:
  assumes "text_of l"
  shows "log_lines l = (if l = [] then [] else [l])" "log_lines (l @ newline # cs) = (l @ [newline]) # log_lines cs"
  using assms by (induction l) (auto simp: text_of_def)

lemma last_line:
  assumes "cs \<noteq> []"
  obtains xs l t where "cs = xs @ l @ t" "text_of l" "t = [] \<or> t = [newline]" "l @ t \<noteq> []" "xs = [] \<or> last xs = newline"
    "log_lines cs = log_lines xs @ [l @ t]"
  using assms
proof (induction "length cs" arbitrary: cs thesis rule: less_induct)
  case less
  show ?case
  proof (cases "newline \<in> set cs")
    case False
    then show ?thesis using less.prems log_lines_snoc(1) [of cs] by (intro less.prems(1) [of "[]" cs "[]"]) (auto simp: text_of_def)
  next
    case True
    then obtain l rest where c: "cs = l @ newline # rest" "newline \<notin> set l" by (meson split_list_first)
    show ?thesis
    proof (cases "rest = []")
      case True
      then show ?thesis using c log_lines_snoc(2) [of l "[]"] by (intro less.prems(1) [of "[]" l "[newline]"]) (auto simp: text_of_def)
    next
      case False
      have "length rest < length cs" using c by simp
      then obtain xs k t where k: "rest = xs @ k @ t" "text_of k" "t = [] \<or> t = [newline]" "k @ t \<noteq> []" "xs = [] \<or> last xs = newline"
        "log_lines rest = log_lines xs @ [k @ t]" using less.hyps False by metis
      have "log_lines cs = ((l @ [newline]) # log_lines xs) @ [k @ t]" using c k(6) log_lines_snoc(2) [of l rest] by (simp add: text_of_def)
      then show ?thesis using c k log_lines_snoc(2) [of l xs]
        by (intro less.prems(1) [of "l @ newline # xs" k t]) (auto simp: text_of_def)
    qed
  qed
qed

lemma back_over_text:
  "text_of l \<Longrightarrow> xs = [] \<or> last xs = newline \<Longrightarrow> take (length xs + length l) data = xs @ l \<Longrightarrow> back_to_line data (length xs + length l) = length xs"
proof (induction l rule: rev_induct)
  case Nil
  show ?case
  proof (cases xs rule: rev_cases)
    case (snoc ys y)
    then have "data ! length ys = y" using Nil.prems(3) by (metis append.right_neutral length_append_singleton lessI list.size(3) nth_append_length nth_take add_0_right)
    then show ?thesis using snoc Nil.prems(2) by simp
  qed simp
next
  case (snoc c l)
  have "take (length xs + length l) data = xs @ l" using snoc.prems(3)
    by (metis append_assoc append_eq_conv_conj le_add1 length_append min.absorb1 take_take)
  moreover have "data ! (length xs + length l) = c" using snoc.prems(3)
    by (metis append_assoc length_append length_append_singleton lessI nth_append_length nth_take add_Suc_right)
  ultimately show ?case using snoc by (auto simp: text_of_def)
qed

lemma last_line_start_of:
  assumes "i \<le> length data" "0 < i"
  shows "log_lines (take i data) = log_lines (take (last_line_start data i) data) @ [drop (last_line_start data i) (take i data)]"
proof -
  have "take i data \<noteq> []" using assms by auto
  then obtain xs l t where x: "take i data = xs @ l @ t" "text_of l" "t = [] \<or> t = [newline]" "l @ t \<noteq> []" "xs = [] \<or> last xs = newline"
    "log_lines (take i data) = log_lines xs @ [l @ t]" by (rule last_line)
  have len: "i = length xs + length l + length t" using x(1) assms(1) by (metis add.assoc length_append length_take min.absorb2)
  have pre: "take (length xs + length l) data = xs @ l"
    using x(1) len by (metis append_assoc append_eq_conv_conj le_add1 length_append min.absorb1 take_take)
  have "data ! (i - 1) = last (l @ t)"
    using x(1,4) assms by (metis Suc_pred' append_is_Nil_conv last_appendR last_conv_nth length_take less_imp_diff_less min.absorb2 nth_take lessI)
  then have "(if 0 < i \<and> data ! (i - 1) = newline then i - 1 else i) = length xs + length l"
    using x(2,3,4) len assms(2) by (auto simp: text_of_def dest: last_in_set)
  then have "last_line_start data i = length xs" using back_over_text [OF x(2,5) pre] by (simp add: last_line_start_def)
  moreover have "take (length xs) data = xs" using pre by (metis append_eq_conv_conj le_add1 min.absorb1 take_take)
  ultimately show ?thesis using x(1,6) by simp
qed

definition last_lines :: "int \<Rightarrow> string list \<Rightarrow> string list" where
  "last_lines k ls = drop (length ls - nat (max 1 k)) ls"

lemma last_lines_snoc:
  "k \<le> 1 \<Longrightarrow> last_lines k (ls @ [l]) = [l]" "1 < k \<Longrightarrow> last_lines k (ls @ [l]) = last_lines (k - 1) ls @ [l]"
proof -
  show "k \<le> 1 \<Longrightarrow> last_lines k (ls @ [l]) = [l]" by (simp add: last_lines_def max_def)
  assume "1 < k"
  then obtain n where "k = int (Suc (Suc n))" by (intro that [of "nat (k - 2)"]) simp
  then show "last_lines k (ls @ [l]) = last_lines (k - 1) ls @ [l]" by (simp add: last_lines_def nat_add_distrib)
qed

lemma tail_from_le: "tail_from data n lines i \<le> i"
proof (induction data n lines i rule: tail_from.induct)
  case (1 data n lines i)
  show ?case
  proof (cases "0 < i")
    case True
    then show ?thesis using 1 last_line_start_less [of i data] by (subst tail_from.simps) (auto simp: Let_def)
  qed (simp add: tail_from.simps)
qed

lemma tail_from_lines:
  "i \<le> length data \<Longrightarrow> drop (tail_from data n lines i) (take i data) = concat (last_lines (n - lines) (log_lines (take i data)))"
proof (induction data n lines i rule: tail_from.induct)
  case (1 data n lines i)
  show ?case
  proof (cases "0 < i")
    case True
    let ?j = "last_line_start data i"
    have j: "?j < i" by (rule last_line_start_less [OF True])
    note ls = last_line_start_of [OF "1.prems" True]
    show ?thesis
    proof (cases "lines + 1 \<ge> n")
      case enough: True
      then show ?thesis using True ls by (simp add: tail_from.simps [of data n lines i] Let_def last_lines_snoc)
    next
      case False
      let ?t = "tail_from data n (lines + 1) ?j"
      have split: "take i data = take ?j data @ drop ?j (take i data)" using j by (metis append_take_drop_id min.absorb1 less_imp_le take_take)
      have t: "?t \<le> length (take ?j data)" using tail_from_le j "1.prems" by simp
      have "drop ?t (take i data) = drop ?t (take ?j data) @ drop ?j (take i data)" using t by (subst split) simp
      moreover have "drop ?t (take ?j data) = concat (last_lines (n - (lines + 1)) (log_lines (take ?j data)))"
        using "1.IH" [OF True refl] False j "1.prems" by simp
      moreover have "last_lines (n - lines) (log_lines (take i data)) = last_lines (n - (lines + 1)) (log_lines (take ?j data)) @ [drop ?j (take i data)]"
        unfolding ls using last_lines_snoc(2) [of "n - lines"] False by (simp add: algebra_simps)
      ultimately show ?thesis using True False by (simp add: tail_from.simps [of data n lines i] Let_def)
    qed
  qed (simp add: tail_from.simps last_lines_def)
qed

text \<open>The backward search of TailLogs returns exactly the last lines of the log: as many as asked for (one when
  asked for fewer), all of a shorter log, an unterminated last line included, and nothing when there is no log yet.\<close>
theorem tail_is_the_last_lines:
  "tail_file f n = (case f of NoLog \<Rightarrow> Inr [] | LogError e \<Rightarrow> Inl e | LogData data \<Rightarrow>
     Inr (concat (drop (length (log_lines data) - nat (max 1 n)) (log_lines data))))"
  using tail_from_lines [of "length data" data n 0 for data] by (cases f) (simp_all add: tail_file_def last_lines_def)

end
