(* ===== verification/PackageStore.thy ===== *)
theory PackageStore
  imports Supervisor "HOL-Library.Word"
begin

text \<open>
  nodeapps/internal/nodeagent/pkgstore.go: the package store of an agent. The directories under packages/ are a list of
  version directories with the digest their marker file holds and the regular files in them, named by their cleaned
  paths below the directory. What the network, the tar reader and the file system answer to one installation is
  the record \<open>install_answers\<close>; SHA-256 is a parameter. Removing a directory tree is taken to succeed where the
  code ignores its error. The sort by modification time, which is not stable in the code, is stable here.
\<close>

section \<open>State\<close>

record pkg_dir =
  pd_package :: string
  pd_name :: string
  pd_digest :: "string option"
  pd_files :: "string list"
  pd_time :: nat

record package_store =
  pk_dirs :: "pkg_dir list"
  pk_links :: "string \<Rightarrow> string option"
  pk_repo :: "string option"

record package_ref =
  pr_name :: string
  pr_version :: string
  pr_sha :: string
  pr_url :: string
  pr_entrypoint :: string
  pr_links :: "string list"

datatype tar_item = TarFile string int | TarDir string | TarOther string | TarBroken string

datatype package_error = InvalidPackageName string | InvalidPackageVersion string | InvalidPackageEntrypoint string
  | DownloadFailed string | BadStatus nat | TempUncreatable | PackageTooLarge | DigestMismatch string
  | GzipError string | TarError string | EntryEscapes string | UnpackTooLarge | EntryUnwritable string | UnsupportedEntry string
  | NoEntrypoint string | ChmodFailed | MarkerUnwritable | ActivateFailed | LinkNotAbsolute string | LinkFailed string
  | VersionNotInstalled string string | PackageNotInstalled string | RemoveFailed string string | StoreUnreadable

datatype http_answer = NoAnswer string | Answer nat string "string option"

record install_answers =
  ia_http :: http_answer
  ia_temp :: bool
  ia_untar :: "string \<Rightarrow> string + tar_item list"
  ia_writable :: "string \<Rightarrow> bool"
  ia_chmod :: bool
  ia_marker :: bool
  ia_rename :: bool
  ia_mkdir :: "string \<Rightarrow> bool"
  ia_symlink :: "string \<Rightarrow> bool"
  ia_base :: "string \<Rightarrow> string option"
  ia_now :: nat

definition max_package_size :: int where "max_package_size = 268435456"

definition keep_versions :: nat where "keep_versions = 3"

definition sha_marker :: string where "sha_marker = ''.dcnetlab-sha256''"

definition alnum :: "char \<Rightarrow> bool" where
  "alnum c \<longleftrightarrow> name_char c \<or> (CHR ''A'' \<le> c \<and> c \<le> CHR ''Z'')"

definition version_ok :: "string \<Rightarrow> bool" where
  "version_ok v \<longleftrightarrow> v \<noteq> [] \<and> length v \<le> 64 \<and> alnum (hd v) \<and> list_all (\<lambda>c. alnum c \<or> c \<in> set ''.+_-'') (tl v)"

definition dir_is :: "string \<Rightarrow> string \<Rightarrow> pkg_dir \<Rightarrow> bool" where
  "dir_is n v d \<longleftrightarrow> pd_package d = n \<and> pd_name d = v"

definition find_dir :: "string \<Rightarrow> string \<Rightarrow> package_store \<Rightarrow> pkg_dir option" where
  "find_dir n v st = find (dir_is n v) (pk_dirs st)"

definition remove_all :: "string \<Rightarrow> string \<Rightarrow> package_store \<Rightarrow> package_store" where
  "remove_all n v st = st\<lparr>pk_dirs := filter (\<lambda>d. \<not> dir_is n v d) (pk_dirs st)\<rparr>"

section \<open>Fetching and unpacking\<close>

definition download :: "(string \<Rightarrow> string) \<Rightarrow> bool \<Rightarrow> http_answer \<Rightarrow> package_ref \<Rightarrow> package_error + string" where
  "download sha temp ans pr = (case ans of NoAnswer m \<Rightarrow> Inl (DownloadFailed m)
   | Answer status body broken \<Rightarrow>
      (if status \<noteq> 200 then Inl (BadStatus status)
       else if \<not> temp then Inl TempUncreatable
       else case broken of Some m \<Rightarrow> Inl (DownloadFailed m)
       | None \<Rightarrow> if int (length body) > max_package_size then Inl PackageTooLarge
          else if sha body \<noteq> pr_sha pr then Inl (DigestMismatch (sha body))
          else Inr body))"

text \<open>The loop over the tar entries, with the 64-bit total of the sizes so far.\<close>

fun unpack_items :: "(string \<Rightarrow> bool) \<Rightarrow> tar_item list \<Rightarrow> 64 word \<Rightarrow> string list \<Rightarrow> package_error + string list" where
  "unpack_items writable [] acc files = Inr files"
| "unpack_items writable (TarBroken m # its) acc files = Inl (TarError m)"
| "unpack_items writable (TarFile raw sz # its) acc files = (let name = path_clean raw; t = acc + word_of_int sz in
     if name = ''.'' then unpack_items writable its acc files
     else if \<not> is_local name then Inl (EntryEscapes raw)
     else if sint t > max_package_size then Inl UnpackTooLarge
     else if \<not> writable name then Inl (EntryUnwritable name)
     else unpack_items writable its t (files @ [name]))"
| "unpack_items writable (TarDir raw # its) acc files = (let name = path_clean raw in
     if name = ''.'' then unpack_items writable its acc files
     else if \<not> is_local name then Inl (EntryEscapes raw)
     else if \<not> writable name then Inl (EntryUnwritable name)
     else unpack_items writable its acc files)"
| "unpack_items writable (TarOther raw # its) acc files = (let name = path_clean raw in
     if name = ''.'' then unpack_items writable its acc files
     else if \<not> is_local name then Inl (EntryEscapes raw)
     else Inl (UnsupportedEntry raw))"

definition unpack :: "install_answers \<Rightarrow> string \<Rightarrow> package_error + string list" where
  "unpack ia body = (case ia_untar ia body of Inl m \<Rightarrow> Inl (GzipError m) | Inr its \<Rightarrow> unpack_items (ia_writable ia) its 0 [])"

text \<open>\<open>ensureLinks\<close>: the old target is gone even when the new link cannot be made.\<close>

fun ensure_links :: "install_answers \<Rightarrow> string \<Rightarrow> string list \<Rightarrow> package_store \<Rightarrow> package_error option \<times> package_store" where
  "ensure_links ia entry [] st = (None, st)"
| "ensure_links ia entry (l # ls) st =
    (if \<not> is_rooted l then (Some (LinkNotAbsolute l), st)
     else if \<not> ia_mkdir ia l then (Some (LinkFailed l), st)
     else if \<not> ia_symlink ia l then (Some (LinkFailed l), st\<lparr>pk_links := (pk_links st)(l := None)\<rparr>)
     else ensure_links ia entry ls (st\<lparr>pk_links := (pk_links st)(l \<mapsto> entry)\<rparr>))"

section \<open>Eviction\<close>

text \<open>The versions of a package that installed programs refer to, with those programs.\<close>

definition references :: "agent_program list \<Rightarrow> string \<Rightarrow> string \<Rightarrow> string list" where
  "references ps n v = map (\<lambda>p. as_name (ap_spec p)) (filter (\<lambda>p. as_package (ap_spec p) = n \<and> as_version (ap_spec p) = v) ps)"

definition evictable :: "agent_program list \<Rightarrow> string \<Rightarrow> package_store \<Rightarrow> pkg_dir list" where
  "evictable ps n st = filter (\<lambda>d. pd_package d = n \<and> references ps n (pd_name d) = []) (sort_key pd_name (pk_dirs st))"

definition evicted :: "agent_program list \<Rightarrow> string \<Rightarrow> package_store \<Rightarrow> pkg_dir list" where
  "evicted ps n st = drop keep_versions (sort_key (\<lambda>d. - int (pd_time d)) (evictable ps n st))"

definition gc_package :: "agent_program list \<Rightarrow> string \<Rightarrow> package_store \<Rightarrow> package_store" where
  "gc_package ps n st = (if length (evictable ps n st) \<le> keep_versions then st
     else foldl (\<lambda>st d. remove_all n (pd_name d) st) st (evicted ps n st))"

section \<open>Installing\<close>

definition remember_repo :: "install_answers \<Rightarrow> string \<Rightarrow> package_store \<Rightarrow> package_store" where
  "remember_repo ia url st = (case ia_base ia url of None \<Rightarrow> st | Some b \<Rightarrow> st\<lparr>pk_repo := Some b\<rparr>)"

definition tmp_of :: "string \<Rightarrow> string" where "tmp_of v = v @ ''.tmp''"

definition stage :: "install_answers \<Rightarrow> package_ref \<Rightarrow> string \<Rightarrow> package_error + pkg_dir" where
  "stage ia pr body = ebind (unpack ia body) (\<lambda>files.
     if path_clean (pr_entrypoint pr) \<notin> set files then Inl (NoEntrypoint (pr_entrypoint pr))
     else if \<not> ia_chmod ia then Inl ChmodFailed
     else if \<not> ia_marker ia then Inl MarkerUnwritable
     else Inr \<lparr>pd_package = pr_name pr, pd_name = pr_version pr, pd_digest = Some (pr_sha pr), pd_files = files @ [sha_marker], pd_time = ia_now ia\<rparr>)"

definition install_package ::
  "(string \<Rightarrow> string) \<Rightarrow> string \<Rightarrow> agent_program list \<Rightarrow> install_answers \<Rightarrow> package_ref \<Rightarrow> package_store \<Rightarrow> package_error option \<times> package_store" where
  "install_package sha dir ps ia pr st =
    (if \<not> name_ok (pr_name pr) then (Some (InvalidPackageName (pr_name pr)), st)
     else if \<not> version_ok (pr_version pr) then (Some (InvalidPackageVersion (pr_version pr)), st)
     else if pr_entrypoint pr = [] \<or> \<not> is_local (pr_entrypoint pr) then (Some (InvalidPackageEntrypoint (pr_entrypoint pr)), st)
     else (let entry = path_join [package_dir dir (pr_name pr) (pr_version pr), pr_entrypoint pr] in
       if (case find_dir (pr_name pr) (pr_version pr) st of None \<Rightarrow> False | Some d \<Rightarrow> pd_digest d = Some (pr_sha pr))
       then ensure_links ia entry (pr_links pr) st
       else case download sha (ia_temp ia) (ia_http ia) pr of Inl e \<Rightarrow> (Some e, st)
       | Inr body \<Rightarrow> (let st1 = remove_all (pr_name pr) (tmp_of (pr_version pr)) st in
          case stage ia pr body of Inl e \<Rightarrow> (Some e, st1)
          | Inr d \<Rightarrow> (let st2 = remove_all (pr_name pr) (pr_version pr) st1 in
             if \<not> ia_rename ia then (Some ActivateFailed, st2)
             else (case ensure_links ia entry (pr_links pr) (st2\<lparr>pk_dirs := pk_dirs st2 @ [d]\<rparr>) of
               (Some e, st3) \<Rightarrow> (Some e, st3)
             | (None, st3) \<Rightarrow> (None, gc_package ps (pr_name pr) (remember_repo ia (pr_url pr) st3)))))))"

section \<open>Removing and listing\<close>

record in_use =
  iu_version :: string
  iu_programs :: "string list"

fun remove_versions :: "(string \<Rightarrow> bool) \<Rightarrow> agent_program list \<Rightarrow> string \<Rightarrow> string list \<Rightarrow> string list \<times> in_use list \<times> package_store \<Rightarrow>
    (string list \<times> in_use list \<times> package_error option) \<times> package_store" where
  "remove_versions removable ps n [] (rem, used, st) = ((rem, used, None), st)"
| "remove_versions removable ps n (v # vs) (rem, used, st) =
    (if references ps n v \<noteq> [] then remove_versions removable ps n vs (rem, used @ [\<lparr>iu_version = v, iu_programs = sort (references ps n v)\<rparr>], st)
     else if \<not> removable v then ((rem, used, Some (RemoveFailed n v)), st)
     else remove_versions removable ps n vs (rem @ [v], used, remove_all n v st))"

definition versions_of :: "string \<Rightarrow> package_store \<Rightarrow> string list" where
  "versions_of n st = sort (map pd_name (filter (\<lambda>d. pd_package d = n) (pk_dirs st)))"

definition remove_package ::
  "(string \<Rightarrow> bool) \<Rightarrow> agent_program list \<Rightarrow> string \<Rightarrow> string \<Rightarrow> package_store \<Rightarrow> (string list \<times> in_use list \<times> package_error option) \<times> package_store" where
  "remove_package removable ps n v st =
    (if \<not> name_ok n then (([], [], Some (InvalidPackageName n)), st)
     else if v \<noteq> [] \<and> \<not> version_ok v then (([], [], Some (InvalidPackageVersion v)), st)
     else if v \<noteq> [] then (if find_dir n v st = None then (([], [], Some (VersionNotInstalled n v)), st)
       else remove_versions removable ps n [v] ([], [], st))
     else if versions_of n st = [] then (([], [], Some (PackageNotInstalled n)), st)
     else remove_versions removable ps n (versions_of n st) ([], [], st))"

record installed_package =
  ip_name :: string
  ip_version :: string
  ip_sha :: string

definition is_space :: "char \<Rightarrow> bool" where
  "is_space c \<longleftrightarrow> c \<in> {CHR '' '', CHR 0x09, CHR 0x0A, CHR 0x0B, CHR 0x0C, CHR 0x0D}"

definition trim_space :: "string \<Rightarrow> string" where
  "trim_space s = rev (dropWhile is_space (rev (dropWhile is_space s)))"

definition list_packages :: "package_store \<Rightarrow> installed_package list" where
  "list_packages st = sort_key (\<lambda>p. (ip_name p, ip_version p)) (List.map_filter (\<lambda>d. case pd_digest d of None \<Rightarrow> None
     | Some s \<Rightarrow> Some \<lparr>ip_name = pd_package d, ip_version = pd_name d, ip_sha = trim_space s\<rparr>) (pk_dirs st))"

definition package_installed :: "string \<Rightarrow> string \<Rightarrow> package_store \<Rightarrow> bool" where
  "package_installed n v st \<longleftrightarrow> (case find_dir n v st of None \<Rightarrow> False | Some d \<Rightarrow> pd_digest d \<noteq> None)"

text \<open>Whether a regular file is at a path: what the supervisor asks of the store.\<close>

definition regular_in :: "string \<Rightarrow> package_store \<Rightarrow> string \<Rightarrow> bool" where
  "regular_in dir st p \<longleftrightarrow> list_ex (\<lambda>d. list_ex (\<lambda>f. path_join [package_dir dir (pd_package d) (pd_name d), f] = p) (pd_files d)) (pk_dirs st)"

end
