(* ===== verification/PackageStoreProps.thy ===== *)
theory PackageStoreProps
  imports PackageStore "HOL-Library.Multiset"
begin

text \<open>
  The package store keeps what programs refer to: an installation, its eviction of old versions and a removal leave
  every referenced version in place, and archives cannot write outside their directory.
\<close>

section \<open>Directories that stay\<close>

lemma remove_all_dirs [simp]: "d \<in> set (pk_dirs (remove_all n v st)) \<longleftrightarrow> d \<in> set (pk_dirs st) \<and> \<not> dir_is n v d"
  by (auto simp: remove_all_def)

lemma remove_alls_dirs:
  "d \<in> set (pk_dirs (foldl (\<lambda>st e. remove_all n (pd_name e) st) st es)) \<longleftrightarrow> d \<in> set (pk_dirs st) \<and> (\<forall>e \<in> set es. \<not> dir_is n (pd_name e) d)"
  by (induction es arbitrary: st) auto

lemma evicted_unreferenced: "e \<in> set (evicted ps n st) \<Longrightarrow> e \<in> set (pk_dirs st) \<and> pd_package e = n \<and> references ps n (pd_name e) = []"
  by (auto simp: evicted_def evictable_def dest!: in_set_dropD)

lemma gc_keeps:
  assumes "d \<in> set (pk_dirs st)" "pd_package d \<noteq> n \<or> references ps n (pd_name d) \<noteq> []"
  shows "d \<in> set (pk_dirs (gc_package ps n st))"
  using assms evicted_unreferenced by (force simp: gc_package_def remove_alls_dirs dir_is_def)

lemma ensure_links_dirs [simp]: "pk_dirs (snd (ensure_links ia entry ls st)) = pk_dirs st"
  by (induction ls arbitrary: st) simp_all

lemma remember_dirs [simp]: "pk_dirs (remember_repo ia url st) = pk_dirs st"
  by (simp add: remember_repo_def split: option.splits)

text \<open>Where an installation of a version stops.\<close>

lemma install_package_cases:
  assumes "install_package sha dir ps ia pr st = (r, st')"
  defines "n \<equiv> pr_name pr" and "v \<equiv> pr_version pr"
  obtains (refused) "r \<noteq> None" "st' = st"
  | (present) d where "find_dir n v st = Some d" "pd_digest d = Some (pr_sha pr)" "pk_dirs st' = pk_dirs st"
  | (unpacked) "r \<noteq> None" "st' = remove_all n (tmp_of v) st"
  | (lost) "r \<noteq> None" "st' = remove_all n v (remove_all n (tmp_of v) st)"
  | (placed) d where "pd_package d = n" "pd_name d = v" "pd_digest d = Some (pr_sha pr)" "pd_time d = ia_now ia" "r \<noteq> None"
      "pk_dirs st' = pk_dirs (remove_all n v (remove_all n (tmp_of v) st)) @ [d]" "path_clean (pr_entrypoint pr) \<in> set (pd_files d)"
  | (activated) d st3 where "pd_package d = n" "pd_name d = v" "pd_digest d = Some (pr_sha pr)" "pd_time d = ia_now ia" "r = None"
      "pk_dirs st3 = pk_dirs (remove_all n v (remove_all n (tmp_of v) st)) @ [d]" "st' = gc_package ps n st3"
      "path_clean (pr_entrypoint pr) \<in> set (pd_files d)"
proof -
  let ?entry = "path_join [package_dir dir n v, pr_entrypoint pr]" and ?st1 = "remove_all n (tmp_of v) st"
  let ?st2 = "remove_all n v ?st1"
  show thesis
  proof (cases "name_ok n \<and> version_ok v \<and> pr_entrypoint pr \<noteq> [] \<and> is_local (pr_entrypoint pr)")
    case False
    then show thesis using assms by (intro refused) (auto simp: install_package_def split: if_splits)
  next
    case ok: True
    show thesis
    proof (cases "case find_dir n v st of None \<Rightarrow> False | Some d \<Rightarrow> pd_digest d = Some (pr_sha pr)")
      case True
      then obtain d where d: "find_dir n v st = Some d" "pd_digest d = Some (pr_sha pr)" by (auto split: option.splits)
      have "st' = snd (ensure_links ia ?entry (pr_links pr) st)" using assms ok True by (simp add: install_package_def Let_def)
      then show thesis using d by (intro present) simp_all
    next
      case absent: False
      note * = assms(1) [unfolded install_package_def Let_def, folded n_def v_def]
      show thesis
      proof (cases "download sha (ia_temp ia) (ia_http ia) pr")
        case (Inl e)
        then have "Some e = r" "st = st'" using * ok absent by simp_all
        then show thesis by (intro refused) auto
      next
        case body: (Inr body)
        show thesis
        proof (cases "stage ia pr body")
          case (Inl e)
          then have "Some e = r" "remove_all n (tmp_of v) st = st'" using * ok absent body by simp_all
          then show thesis by (intro unpacked) auto
        next
          case (Inr d)
          have d: "pd_package d = n" "pd_name d = v" "pd_digest d = Some (pr_sha pr)" "pd_time d = ia_now ia" "path_clean (pr_entrypoint pr) \<in> set (pd_files d)"
            using Inr by (auto simp: stage_def n_def v_def split: if_splits)
          obtain le st3 where l: "ensure_links ia ?entry (pr_links pr) (?st2\<lparr>pk_dirs := pk_dirs ?st2 @ [d]\<rparr>) = (le, st3)" by force
          have st3: "pk_dirs st3 = pk_dirs ?st2 @ [d]" using l ensure_links_dirs [of ia ?entry "pr_links pr" "?st2\<lparr>pk_dirs := pk_dirs ?st2 @ [d]\<rparr>"] by simp
          show thesis
          proof (cases "ia_rename ia")
            case False
            then have "Some ActivateFailed = r" "remove_all n v (remove_all n (tmp_of v) st) = st'" using * ok absent body Inr by simp_all
            then show thesis by (intro lost) auto
          next
            case True
            then have res: "(r, st') = (case (le, st3) of (Some e, s) \<Rightarrow> (Some e, s) | (None, s) \<Rightarrow> (None, gc_package ps n (remember_repo ia (pr_url pr) s)))"
              using * ok absent body Inr l by simp
            show thesis
            proof (cases le)
              case None
              then show thesis using res d st3 by (intro activated [of d "remember_repo ia (pr_url pr) st3"]) simp_all
            qed (use res d st3 in \<open>intro placed; simp\<close>)
          qed
        qed
      qed
    qed
  qed
qed

text \<open>A small store and an installation that succeeds.\<close>

definition demo_dir :: "string \<Rightarrow> nat \<Rightarrow> pkg_dir" where
  "demo_dir v t = \<lparr>pd_package = ''pkg'', pd_name = v, pd_digest = Some ''d'', pd_files = [''bin''], pd_time = t\<rparr>"

definition demo_user :: "string \<Rightarrow> agent_program" where
  "demo_user v = new_program \<lparr>as_name = ''web'', as_package = ''pkg'', as_version = v, as_entrypoint = ''bin'', as_args = [], as_policy = ''Never'',
     as_type = ''simple'', as_auto = False, as_live = None, as_ready = None, as_order = 0\<rparr> StateStopped"

definition demo_store :: package_store where
  "demo_store = \<lparr>pk_dirs = [demo_dir ''1'' 1, demo_dir ''2'' 2, demo_dir ''3'' 3, demo_dir ''4'' 4], pk_links = Map.empty, pk_repo = None\<rparr>"

definition demo_answers :: install_answers where
  "demo_answers = \<lparr>ia_http = Answer 200 ''tgz'' None, ia_temp = True, ia_untar = (\<lambda>_. Inr [TarFile ''./bin'' 10]), ia_writable = (\<lambda>_. True),
     ia_chmod = True, ia_marker = True, ia_rename = True, ia_mkdir = (\<lambda>_. True), ia_symlink = (\<lambda>_. True), ia_base = (\<lambda>_. None), ia_now = 9\<rparr>"

definition demo_ref :: "string \<Rightarrow> package_ref" where
  "demo_ref v = \<lparr>pr_name = ''pkg'', pr_version = v, pr_sha = ''new'', pr_url = [], pr_entrypoint = ''bin'', pr_links = []\<rparr>"



section \<open>The installed version\<close>

lemma sort_key_unique_min:
  assumes "d \<in> set xs" "\<And>e. e \<in> set xs \<Longrightarrow> e \<noteq> d \<Longrightarrow> f d < f e" "count (mset xs) d = 1"
  shows "\<exists>ys. sort_key f xs = d # ys \<and> d \<notin> set ys"
proof (cases "sort_key f xs")
  case Nil
  then have "set (sort_key f xs) = {}" by simp
  then show ?thesis using assms(1) by simp
next
  case (Cons y ys)
  have set: "set xs = insert y (set ys)" using Cons by (metis list.simps(15) set_sort)
  have "sorted (map f (y # ys))" using Cons by (metis sorted_sort_key)
  then have "d = y \<or> f y \<le> f d" using assms(1) set by auto
  then have "y = d" using assms(2) [of y] set by force
  moreover have "count (mset (y # ys)) d = 1" using assms(3) Cons by (metis mset_sort)
  ultimately show ?thesis using Cons by auto
qed

lemma newest_not_evicted:
  assumes "pk_dirs st = ds @ [d]" "\<And>e. e \<in> set ds \<Longrightarrow> pd_time e < pd_time d"
  shows "d \<notin> set (evicted ps n st)"
proof (cases "d \<in> set (evictable ps n st)")
  case True
  let ?xs = "evictable ps n st"
  have "d \<notin> set ds" using assms(2) by blast
  then have "count (mset (pk_dirs st)) d = 1" by (simp add: assms(1) not_in_iff)
  then have "count (mset ?xs) d = 1" using True by (auto simp: evictable_def)
  moreover have "- int (pd_time d) < - int (pd_time e)" if "e \<in> set ?xs" "e \<noteq> d" for e
    using that assms by (auto simp: evictable_def)
  ultimately obtain ys where ys: "sort_key (\<lambda>d. - int (pd_time d)) ?xs = d # ys" "d \<notin> set ys"
    using sort_key_unique_min [OF True] by meson
  then show ?thesis by (auto simp: evicted_def keep_versions_def dest: in_set_dropD)
qed (auto simp: evicted_def dest: in_set_dropD)

text \<open>A package version that was installed is in the store with the digest that was asked for, and a version that was
  unpacked for it has its entrypoint, as long as the clock has moved since the other versions were installed.\<close>
theorem installed_version_is_in_store:
  assumes "install_package sha dir ps ia pr st = (None, st')" "\<forall>d \<in> set (pk_dirs st). pd_time d < ia_now ia"
  shows "\<exists>d. find_dir (pr_name pr) (pr_version pr) st' = Some d \<and> pd_digest d = Some (pr_sha pr) \<and>
    (d \<in> set (pk_dirs st) \<or> path_clean (pr_entrypoint pr) \<in> set (pd_files d))"
  using assms(1)
proof (cases rule: install_package_cases)
  case (present d)
  then have "d \<in> set (pk_dirs st)" by (auto simp: find_dir_def find_Some_iff)
  then show ?thesis using present by (auto simp: find_dir_def)
next
  case (activated d st3)
  have new: "d \<notin> set (evicted ps (pr_name pr) st3)"
    by (rule newest_not_evicted [OF activated(6)]) (use assms(2) activated(4) in auto)
  have only: "e = d" if "e \<in> set (pk_dirs st3)" "dir_is (pr_name pr) (pr_version pr) e" for e
    using that activated(6) by auto
  have me: "dir_is (pr_name pr) (pr_version pr) d" using activated(1,2) by (simp add: dir_is_def)
  have kept: "x \<in> set (pk_dirs st') \<longleftrightarrow> x \<in> set (pk_dirs st3) \<and> (length (evictable ps (pr_name pr) st3) \<le> keep_versions \<or> (\<forall>e \<in> set (evicted ps (pr_name pr) st3). \<not> dir_is (pr_name pr) (pd_name e) x))" for x
    unfolding activated(7) by (simp add: gc_package_def remove_alls_dirs)
  have "\<not> dir_is (pr_name pr) (pd_name e) d" if "e \<in> set (evicted ps (pr_name pr) st3)" for e
  proof
    assume "dir_is (pr_name pr) (pd_name e) d"
    then have "e = d" using evicted_unreferenced [OF that] activated(2) by (intro only) (simp_all add: dir_is_def)
    then show False using that new by simp
  qed
  then have keep: "d \<in> set (pk_dirs st')" using kept activated(6) by simp
  have sub: "set (pk_dirs st') \<subseteq> set (pk_dirs st3)" using kept by blast
  have "find (dir_is (pr_name pr) (pr_version pr)) (pk_dirs st') \<noteq> None" using keep me by (auto simp: find_None_iff)
  then obtain e where e: "find (dir_is (pr_name pr) (pr_version pr)) (pk_dirs st') = Some e" by blast
  then have "e \<in> set (pk_dirs st')" "dir_is (pr_name pr) (pr_version pr) e" by (auto simp: find_Some_iff)
  then have "e = d" using only sub by blast
  then show ?thesis using e activated(3,8) by (simp add: find_dir_def)
qed simp_all

section \<open>Eviction\<close>

lemma distinct_names_sort: "distinct (map g (sort_key f xs)) = distinct (map g xs)"
  by (intro mset_eq_imp_distinct_iff) simp

definition names_differ :: "string \<Rightarrow> package_store \<Rightarrow> bool" where
  "names_differ n st \<longleftrightarrow> distinct (map pd_name (filter (\<lambda>d. pd_package d = n) (pk_dirs st)))"

lemma evictable_names: "names_differ n st \<Longrightarrow> distinct (map pd_name (evictable ps n st))"
proof -
  assume "names_differ n st"
  then have "distinct (map pd_name (sort_key pd_name (filter (\<lambda>d. pd_package d = n) (pk_dirs st))))" by (simp add: names_differ_def distinct_names_sort)
  then have "distinct (map pd_name (filter (\<lambda>d. references ps n (pd_name d) = []) (sort_key pd_name (filter (\<lambda>d. pd_package d = n) (pk_dirs st)))))"
    by (rule distinct_map_filter)
  then show ?thesis by (simp add: evictable_def filter_sort [symmetric] conj_commute)
qed

lemma remove_alls_filter: "pk_dirs (foldl (\<lambda>st e. remove_all n (pd_name e) st) st es) = filter (\<lambda>d. \<forall>e \<in> set es. \<not> dir_is n (pd_name e) d) (pk_dirs st)"
  by (induction es arbitrary: st) (auto simp: remove_all_def intro: filter_cong)

lemma gc_names: "names_differ n st \<Longrightarrow> names_differ n (gc_package ps n st)"
proof -
  assume a: "names_differ n st"
  have "filter (\<lambda>d. pd_package d = n) (filter Q ds) = filter Q (filter (\<lambda>d. pd_package d = n) ds)" for Q and ds :: "pkg_dir list"
    unfolding filter_filter by (rule filter_cong) auto
  then have "names_differ n (st\<lparr>pk_dirs := filter Q (pk_dirs st)\<rparr>)" for Q
    using distinct_map_filter [OF a [unfolded names_differ_def], of Q] unfolding names_differ_def by simp
  then show ?thesis using a by (simp add: names_differ_def gc_package_def remove_alls_filter)
qed

text \<open>After an eviction at most three versions of the package that no program refers to are left, all of them among the
  newest there were.\<close>
theorem newest_versions_are_kept:
  assumes "names_differ n st"
  shows "length (evictable ps n (gc_package ps n st)) \<le> 3 \<and>
    (\<forall>d \<in> set (evictable ps n (gc_package ps n st)). \<forall>e \<in> set (evictable ps n st) - set (evictable ps n (gc_package ps n st)). pd_time e \<le> pd_time d)"
proof (cases "length (evictable ps n st) \<le> keep_versions")
  case True
  then show ?thesis by (simp add: gc_package_def keep_versions_def)
next
  case False
  let ?L = "sort_key (\<lambda>d. - int (pd_time d)) (evictable ps n st)" and ?new = "evictable ps n (gc_package ps n st)"
  have L: "set ?L = set (evictable ps n st)" "distinct (map pd_name ?L)" using evictable_names [OF assms] by (simp_all add: distinct_names_sort)
  have split: "?L = take 3 ?L @ evicted ps n st" by (simp add: evicted_def keep_versions_def)
  have parts: "set ?L = set (take 3 ?L) \<union> set (evicted ps n st)" by (subst split) simp
  have "sorted (map (\<lambda>d. - int (pd_time d)) ?L)" by (rule sorted_sort_key)
  then have order: "sorted (map (\<lambda>d. - int (pd_time d)) (take 3 ?L @ evicted ps n st))" by (subst (asm) split)
  have apart: "pd_name d \<noteq> pd_name e" if "d \<in> set (take 3 ?L)" "e \<in> set (evicted ps n st)" for d e
    using L(2) that by (subst (asm) split) auto
  have new: "x \<in> set ?new \<longleftrightarrow> x \<in> set (evictable ps n st) \<and> (\<forall>e \<in> set (evicted ps n st). pd_name e \<noteq> pd_name x)" for x
    using False by (auto simp: gc_package_def evictable_def remove_alls_dirs dir_is_def)
  have sub: "set ?new \<subseteq> set (take 3 ?L)" using new L(1) parts by blast
  have "distinct ?new" using evictable_names [OF gc_names [OF assms]] unfolding distinct_map by (rule conjunct1)
  then have "length ?new = card (set ?new)" by (rule distinct_card [symmetric])
  then have "length ?new \<le> 3" using card_mono [OF _ sub] card_length [of "take 3 ?L"] by simp
  moreover have "pd_time e \<le> pd_time d" if "d \<in> set ?new" "e \<in> set (evictable ps n st) - set ?new" for d e
  proof -
    have "e \<in> set (take 3 ?L) \<Longrightarrow> e \<in> set ?new" using that(2) new apart by fastforce
    then have e: "e \<in> set (evicted ps n st)" using that(2) L(1) parts by blast
    have "d \<in> set (take 3 ?L)" using sub that(1) by blast
    then show ?thesis using order e unfolding sorted_append map_append by fastforce
  qed
  ultimately show ?thesis by blast
qed

section \<open>Removal\<close>

lemma remove_versions_result:
  "remove_versions removable ps n vs (rem, used, st) = ((rem', used', None), st') \<Longrightarrow>
    rem' = rem @ filter (\<lambda>v. references ps n v = []) vs \<and>
    used' = used @ map (\<lambda>v. \<lparr>iu_version = v, iu_programs = sort (references ps n v)\<rparr>) (filter (\<lambda>v. references ps n v \<noteq> []) vs) \<and>
    (\<forall>d. d \<in> set (pk_dirs st') \<longleftrightarrow> d \<in> set (pk_dirs st) \<and> \<not> (pd_package d = n \<and> pd_name d \<in> set vs \<and> references ps n (pd_name d) = []))"
proof (induction vs arbitrary: rem used st)
  case (Cons v vs)
  show ?case
  proof (cases "references ps n v = []")
    case True
    then have "remove_versions removable ps n vs (rem @ [v], used, remove_all n v st) = ((rem', used', None), st')"
      using Cons.prems by (simp split: if_splits)
    from Cons.IH [OF this] True show ?thesis by (auto simp: dir_is_def)
  next
    case False
    then have "remove_versions removable ps n vs (rem, used @ [\<lparr>iu_version = v, iu_programs = sort (references ps n v)\<rparr>], st) = ((rem', used', None), st')"
      using Cons.prems by simp
    from Cons.IH [OF this] False show ?thesis by auto
  qed
qed simp

text \<open>Removing a package, or one version of it, deletes exactly the versions no installed program refers to, reports
  those and reports each version that stays with the programs that use it.\<close>
theorem removal_spares_used_versions:
  assumes "remove_package removable ps n v st = ((rem, used, None), st')"
  defines "vs \<equiv> if v \<noteq> [] then [v] else versions_of n st"
  shows "rem = filter (\<lambda>v. references ps n v = []) vs \<and>
    used = map (\<lambda>v. \<lparr>iu_version = v, iu_programs = sort (references ps n v)\<rparr>) (filter (\<lambda>v. references ps n v \<noteq> []) vs) \<and>
    (\<forall>d. d \<in> set (pk_dirs st') \<longleftrightarrow> d \<in> set (pk_dirs st) \<and> \<not> (pd_package d = n \<and> pd_name d \<in> set vs \<and> references ps n (pd_name d) = []))"
proof -
  have "remove_versions removable ps n vs ([], [], st) = ((rem, used, None), st')"
    using assms unfolding remove_package_def by (auto split: if_splits)
  from remove_versions_result [OF this] show ?thesis by simp
qed

theorem removal_spares_used_versions_witness:
  "\<exists>st'. remove_package (\<lambda>_. True) [demo_user ''1''] ''pkg'' [] demo_store = (([''2'', ''3'', ''4''], [\<lparr>iu_version = ''1'', iu_programs = [''web'']\<rparr>], None), st') \<and>
     demo_dir ''1'' 1 \<in> set (pk_dirs st')"
proof -
  have run: "fst (remove_package (\<lambda>_. True) [demo_user ''1''] ''pkg'' [] demo_store) = ([''2'', ''3'', ''4''], [\<lparr>iu_version = ''1'', iu_programs = [''web'']\<rparr>], None)"
    by code_simp
  then have eq: "remove_package (\<lambda>_. True) [demo_user ''1''] ''pkg'' [] demo_store =
      (([''2'', ''3'', ''4''], [\<lparr>iu_version = ''1'', iu_programs = [''web'']\<rparr>], None), snd (remove_package (\<lambda>_. True) [demo_user ''1''] ''pkg'' [] demo_store))"
    by (metis prod.collapse)
  have "demo_dir ''1'' 1 \<in> set (pk_dirs demo_store)" "references [demo_user ''1''] ''pkg'' (pd_name (demo_dir ''1'' 1)) \<noteq> []" by code_simp+
  then show ?thesis using removal_spares_used_versions [OF eq] eq by blast
qed

section \<open>Archives\<close>

fun item_size :: "tar_item \<Rightarrow> int" where
  "item_size (TarFile raw sz) = (if path_clean raw = ''.'' then 0 else sz)"
| "item_size _ = 0"

fun item_sane :: "tar_item \<Rightarrow> bool" where
  "item_sane (TarFile raw sz) = (0 \<le> sz \<and> sz < 2 ^ 62)"
| "item_sane _ = True"

lemma sint_sum:
  assumes "0 \<le> S" "S \<le> max_package_size" "0 \<le> sz" "sz < 2 ^ 62"
  shows "sint (word_of_int S + word_of_int sz :: 64 word) = S + sz"
proof -
  have "sint (word_of_int (S + sz) :: 64 word) = S + sz"
    using assms unfolding sint_sbintrunc' by (intro signed_take_bit_int_eq_self) (simp_all add: max_package_size_def)
  then show ?thesis by simp
qed

lemma unpack_items_bounded:
  "unpack_items writable its (word_of_int S) files = Inr files' \<Longrightarrow> 0 \<le> S \<Longrightarrow> S \<le> max_package_size \<Longrightarrow> list_all item_sane its \<Longrightarrow>
    \<exists>new. files' = files @ new \<and> list_all (\<lambda>f. is_local f \<and> writable f) new \<and> S + sum_list (map item_size its) \<le> max_package_size"
proof (induction its arbitrary: S files)
  case (Cons it its)
  show ?case
  proof (cases it)
    case (TarFile raw sz)
    show ?thesis
    proof (cases "path_clean raw = ''.''")
      case False
      have sz: "0 \<le> sz" "sz < 2 ^ 62" using Cons.prems(4) TarFile by simp_all
      note sum = sint_sum [OF Cons.prems(2,3) sz]
      have step: "unpack_items writable its (word_of_int (S + sz)) (files @ [path_clean raw]) = Inr files'" "is_local (path_clean raw)"
        "writable (path_clean raw)" "S + sz \<le> max_package_size"
        using Cons.prems(1) TarFile False sum by (auto simp: Let_def split: if_splits)
      from Cons.IH [OF step(1)] Cons.prems sz step TarFile False show ?thesis by fastforce
    qed (use Cons TarFile in auto)
  qed (use Cons in \<open>auto simp: Let_def split: if_splits\<close>)
qed simp

text \<open>C26: An archive that is unpacked writes only below the package directory, and its files are at most 256 MiB together when
  each of them is below 2 to the 62.\<close>
theorem unpacked_archive_is_contained:
  assumes "unpack ia body = Inr files" "ia_untar ia body = Inr its" "list_all item_sane its"
  shows "list_all (\<lambda>f. is_local f \<and> ''..'' \<notin> set (elements f)) files \<and> sum_list (map item_size its) \<le> 268435456"
proof -
  have "unpack_items (ia_writable ia) its (word_of_int 0) [] = Inr files" using assms(1,2) by (simp add: unpack_def)
  from unpack_items_bounded [OF this _ _ assms(3)] have "list_all is_local files" "sum_list (map item_size its) \<le> max_package_size"
    by (auto simp: max_package_size_def list_all_iff)
  then show ?thesis using local_elements by (auto simp: max_package_size_def list_all_iff)
qed

theorem unpacked_archive_is_contained_witness:
  "unpack demo_answers ''tgz'' = Inr [''bin''] \<and> is_local ''bin'' \<and> sum_list (map item_size [TarFile ''./bin'' 10]) \<le> 268435456"
proof -
  have u: "unpack demo_answers ''tgz'' = Inr [''bin'']" by code_simp
  have "ia_untar demo_answers ''tgz'' = Inr [TarFile ''./bin'' 10]" "list_all item_sane [TarFile ''./bin'' 10]" by (simp_all add: demo_answers_def)
  from unpacked_archive_is_contained [OF u this] u show ?thesis by simp
qed

text \<open>The total is a 64-bit integer: a second entry can wrap it below the bound.\<close>

theorem unpack_total_can_wrap:
  "unpack_items (\<lambda>_. True) [TarFile ''a'' 1, TarFile ''b'' (2 ^ 63 - 1)] 0 [] = Inr [''a'', ''b'']"
  by code_simp

end
