(* ===== verification/AgentHost.thy ===== *)
theory AgentHost
  imports SupervisorSpecs PackageStoreProps
begin

text \<open>
  The requests of the controller to a server's agent, one after the other (nodeapps/internal/nodeagent/server.go over
  manager.go and pkgstore.go): every handler is a sequence of steps of the supervisor. The locale \<open>program_host\<close>
  is the contract the controller's program usecase relies on; the agent of the model provides it.
\<close>

section \<open>The contract\<close>

text \<open>What an agent promises about the programs that are defined on it and about which of them run.\<close>

locale program_host =
  fixes ok :: "'h \<Rightarrow> bool" and defined :: "'h \<Rightarrow> string \<Rightarrow> agent_spec option" and running :: "'h \<Rightarrow> string \<Rightarrow> bool"
    and install :: "agent_spec \<Rightarrow> 'h \<Rightarrow> ('e + 'i) \<times> 'h" and start :: "string \<Rightarrow> 'h \<Rightarrow> ('e + 'i) \<times> 'h"
    and stop :: "string \<Rightarrow> 'h \<Rightarrow> ('e + 'i) \<times> 'h" and remove :: "string \<Rightarrow> 'h \<Rightarrow> ('e + unit) \<times> 'h"
    and accepts :: "agent_spec \<Rightarrow> agent_spec \<Rightarrow> bool"
  assumes keeps_ok: "ok h \<Longrightarrow> ok (snd (install sp h))" "ok h \<Longrightarrow> ok (snd (start nm h))" "ok h \<Longrightarrow> ok (snd (stop nm h))" "ok h \<Longrightarrow> ok (snd (remove nm h))"
    and running_defined: "ok h \<Longrightarrow> running h nm \<Longrightarrow> defined h nm \<noteq> None"
    and installed: "ok h \<Longrightarrow> install sp h = (Inr x, h') \<Longrightarrow>
      \<not> running h (as_name sp) \<and> (\<exists>sp'. accepts sp sp' \<and> defined h' = (defined h)(as_name sp \<mapsto> sp')) \<and> running h' = running h"
    and not_installed: "ok h \<Longrightarrow> install sp h = (Inl e, h') \<Longrightarrow> running h' = running h \<and> (\<forall>n. n \<noteq> as_name sp \<longrightarrow> defined h' n = defined h n)"
    and started: "ok h \<Longrightarrow> start nm h = (Inr x, h') \<Longrightarrow> defined h nm \<noteq> None \<and> defined h' = defined h \<and> running h' = (running h)(nm := True)"
    and not_started: "ok h \<Longrightarrow> start nm h = (Inl e, h') \<Longrightarrow> defined h' = defined h \<and> (\<forall>n. n \<noteq> nm \<longrightarrow> running h' n = running h n)"
    and stopped: "ok h \<Longrightarrow> stop nm h = (Inr x, h') \<Longrightarrow> defined h nm \<noteq> None \<and> defined h' = defined h \<and> running h' = (running h)(nm := False)"
    and not_stopped: "ok h \<Longrightarrow> stop nm h = (Inl e, h') \<Longrightarrow> defined h' = defined h \<and> (\<forall>n. n \<noteq> nm \<longrightarrow> running h' n = running h n)"
    and removed: "ok h \<Longrightarrow> remove nm h = (Inr (), h') \<Longrightarrow> defined h' = (defined h)(nm := None) \<and> running h' = (running h)(nm := False)"
    and not_removed: "ok h \<Longrightarrow> remove nm h = (Inl e, h') \<Longrightarrow> \<forall>n. n \<noteq> nm \<longrightarrow> defined h' n = defined h n \<and> running h' n = running h n"
begin

definition untouched :: "string \<Rightarrow> 'h \<Rightarrow> 'h \<Rightarrow> bool" where
  "untouched nm h h' \<longleftrightarrow> ok h' \<and> (\<forall>n. n \<noteq> nm \<longrightarrow> defined h' n = defined h n \<and> running h' n = running h n)"

lemma untouched_refl: "ok h \<Longrightarrow> untouched nm h h"
  by (simp add: untouched_def)

lemma untouched_trans: "untouched nm h h1 \<Longrightarrow> untouched nm h1 h2 \<Longrightarrow> untouched nm h h2"
  by (simp add: untouched_def)

text \<open>A request changes nothing of the other programs, whether it succeeds or not.\<close>

lemma only_its_program:
  assumes "ok h"
  shows "untouched (as_name sp) h (snd (install sp h))" "untouched nm h (snd (start nm h))" "untouched nm h (snd (stop nm h))"
    "untouched nm h (snd (remove nm h))"
proof -
  show "untouched (as_name sp) h (snd (install sp h))"
    using installed [OF assms, of sp] not_installed [OF assms, of sp] keeps_ok(1) [OF assms, of sp]
    by (cases "install sp h"; cases "fst (install sp h)") (fastforce simp: untouched_def)+
  show "untouched nm h (snd (start nm h))"
    using started [OF assms, of nm] not_started [OF assms, of nm] keeps_ok(2) [OF assms, of nm]
    by (cases "start nm h"; cases "fst (start nm h)") (auto simp: untouched_def)
  show "untouched nm h (snd (stop nm h))"
    using stopped [OF assms, of nm] not_stopped [OF assms, of nm] keeps_ok(3) [OF assms, of nm]
    by (cases "stop nm h"; cases "fst (stop nm h)") (auto simp: untouched_def)
  show "untouched nm h (snd (remove nm h))"
    using removed [OF assms, of nm] not_removed [OF assms, of nm] keeps_ok(4) [OF assms, of nm]
    by (cases "remove nm h"; cases "fst (remove nm h)") (auto simp: untouched_def)
qed

text \<open>The sequences the controller issues.\<close>

lemma install_then_start:
  assumes "ok h" "install sp h = (Inr x, h1)" "start (as_name sp) h1 = (Inr y, h2)"
  shows "ok h2" "\<not> running h (as_name sp)" "\<exists>sp'. accepts sp sp' \<and> defined h2 = (defined h)(as_name sp \<mapsto> sp')" "running h2 = (running h)(as_name sp := True)"
proof -
  have ok1: "ok h1" using keeps_ok(1) [OF assms(1), of sp] assms(2) by simp
  note i = installed [OF assms(1,2)] and s = started [OF ok1 assms(3)]
  show "ok h2" using keeps_ok(2) [OF ok1, of "as_name sp"] assms(3) by simp
  show "\<not> running h (as_name sp)" "\<exists>sp'. accepts sp sp' \<and> defined h2 = (defined h)(as_name sp \<mapsto> sp')" "running h2 = (running h)(as_name sp := True)"
    using i s by auto
qed

lemma running_refuses_install:
  assumes "ok h" "running h (as_name sp)"
  shows "\<exists>e. fst (install sp h) = Inl e"
  using installed [OF assms(1), of sp] assms(2) by (cases "install sp h"; cases "fst (install sp h)") auto

end

section \<open>The agent of a server\<close>

text \<open>\<open>ah_os\<close> are the answers of the operating system to the coming calls: \<open>Some m\<close> refuses with \<open>m\<close>; the
  empty queue stands for a system that does what it is asked. A new process gets an unused id.\<close>

record agent_host =
  ah_mgr :: manager
  ah_store :: package_store
  ah_os :: "string option list"
  ah_now :: nat

definition os_call :: "agent_host \<Rightarrow> string option \<times> agent_host" where
  "os_call h = (case ah_os h of [] \<Rightarrow> (None, h) | r # rs \<Rightarrow> (r, h\<lparr>ah_os := rs\<rparr>))"

definition fresh_pid :: "manager \<Rightarrow> nat" where
  "fresh_pid m = Suc (fold max (live_pids m) 0)"

definition spawn_answer :: "manager \<Rightarrow> string option \<Rightarrow> string + nat" where
  "spawn_answer m r = (case r of Some e \<Rightarrow> Inl e | None \<Rightarrow> Inr (fresh_pid m))"

definition host_regular :: "agent_host \<Rightarrow> string \<Rightarrow> bool" where
  "host_regular h = regular_in (m_dir (ah_mgr h)) (ah_store h)"

definition host_install :: "agent_spec \<Rightarrow> agent_host \<Rightarrow> (manager_error + agent_program) \<times> agent_host" where
  "host_install sp h = (let (c, h1) = os_call h; (w, h2) = os_call h1; (r, m) = install (host_regular h) (c = None) (w = None) sp (ah_mgr h)
     in (r, h2\<lparr>ah_mgr := m\<rparr>))"

definition host_start :: "string \<Rightarrow> agent_host \<Rightarrow> (manager_error + agent_program) \<times> agent_host" where
  "host_start nm h = (let (p, h1) = os_call h; (w, h2) = os_call h1;
       (r, m) = start (host_regular h) (spawn_answer (ah_mgr h) p) (ah_now h) (w = None) nm (ah_mgr h)
     in (r, h2\<lparr>ah_mgr := m\<rparr>))"

text \<open>The goroutine of a run that was cancelled: its process exits, or it leaves the pause before a restart.\<close>

definition end_run :: "nat \<Rightarrow> manager \<Rightarrow> manager" where
  "end_run k m = (case r_phase (run_at m k) of Waiting _ \<Rightarrow> process_exit (Some ''signal: terminated'') True k m
     | Backing \<Rightarrow> backoff_cancelled k m | Ended \<Rightarrow> m)"

text \<open>\<open>Stop\<close>; a process that survives its SIGKILL makes it fail, with the run cancelled.\<close>

definition host_stop :: "string \<Rightarrow> agent_host \<Rightarrow> (manager_error + agent_program) \<times> agent_host" where
  "host_stop nm h = (let (w, h1) = os_call h in
     case stop_mark (w = None) nm (ah_mgr h) of (Inl e, m) \<Rightarrow> (Inl e, h1\<lparr>ah_mgr := m\<rparr>)
   | (Inr a, m) \<Rightarrow> (case stop_cancel nm m of (Inl e, m') \<Rightarrow> (Inl e, h1\<lparr>ah_mgr := m'\<rparr>)
     | (Inr None, m') \<Rightarrow> (Inr (program_at m' a), h1\<lparr>ah_mgr := m'\<rparr>)
     | (Inr (Some k), m') \<Rightarrow> (let (g, h2) = os_call h1; m'' = (if g = None then end_run k m' else m') in
         case stop_ended nm (Some k) m'' of Some e \<Rightarrow> (Inl e, h2\<lparr>ah_mgr := m''\<rparr>) | None \<Rightarrow> (Inr (program_at m'' a), h2\<lparr>ah_mgr := m''\<rparr>))))"

definition host_remove :: "string \<Rightarrow> agent_host \<Rightarrow> (manager_error + unit) \<times> agent_host" where
  "host_remove nm h = (case host_stop nm h of (Inl e, h1) \<Rightarrow> (Inl e, h1)
   | (Inr _, h1) \<Rightarrow> (let (d, h2) = os_call h1; (r, m) = remove_entry (d = None) nm (ah_mgr h1)
       in (case r of Some e \<Rightarrow> Inl e | None \<Rightarrow> Inr (), h2\<lparr>ah_mgr := m\<rparr>)))"

definition host_list :: "agent_host \<Rightarrow> agent_program list" where
  "host_list h = list_programs_of (remdups (map (\<lambda>p. as_name (ap_spec p)) (m_programs (ah_mgr h)))) (ah_mgr h)"

definition host_install_package :: "(string \<Rightarrow> string) \<Rightarrow> install_answers \<Rightarrow> package_ref \<Rightarrow> agent_host \<Rightarrow> (package_error + unit) \<times> agent_host" where
  "host_install_package sha ia pr h = (let m = ah_mgr h; installed = map (program_at m) (filter (\<lambda>a. m_names m (as_name (ap_spec (program_at m a))) = Some a) [0..<length (m_programs m)]);
       (r, st) = install_package sha (m_dir m) installed ia pr (ah_store h)
     in (case r of Some e \<Rightarrow> Inl e | None \<Rightarrow> Inr (), h\<lparr>ah_store := st\<rparr>))"

definition defined_in :: "manager \<Rightarrow> string \<Rightarrow> agent_spec option" where
  "defined_in m nm = map_option (\<lambda>a. ap_spec (program_at m a)) (m_names m nm)"

definition running_in :: "manager \<Rightarrow> string \<Rightarrow> bool" where
  "running_in m nm \<longleftrightarrow> (case m_names m nm of None \<Rightarrow> False | Some a \<Rightarrow> ap_state (program_at m a) = StateRunning)"

definition host_ok :: "agent_host \<Rightarrow> bool" where
  "host_ok h \<longleftrightarrow> agent_ok (ah_mgr h)"

definition accepted :: "agent_spec \<Rightarrow> agent_spec \<Rightarrow> bool" where
  "accepted sp sp' \<longleftrightarrow> (\<exists>dir regular. checked_spec dir regular sp = Inr sp')"

section \<open>The handlers keep the contract\<close>

lemma register_effect:
  assumes "agent_ok m" "\<not> running_in m (as_name sp)"
    and m': "m_programs m' = m_programs m @ [new_program sp d]" "m_names m' = (m_names m)(as_name sp \<mapsto> length (m_programs m))"
  shows "defined_in m' = (defined_in m)(as_name sp \<mapsto> sp)" "running_in m' = running_in m"
proof -
  have at: "program_at m' a = program_at m a" if "m_names m nm = Some a" for nm a
    using agent_okD(7) [OF assms(1) that] by (simp add: m' nth_append)
  have new: "program_at m' (length (m_programs m)) = new_program sp d" by (simp add: m')
  show "defined_in m' = (defined_in m)(as_name sp \<mapsto> sp)"
    using at new by (auto simp: defined_in_def m'(2) fun_eq_iff new_program_def split: option.splits intro!: option.map_cong)
  show "running_in m' = running_in m"
    using at new assms(2) by (auto simp: running_in_def m'(2) fun_eq_iff new_program_def split: option.splits)
qed

lemma update_effect:
  assumes "agent_ok m" "m_names m nm = Some a" "ap_spec p = ap_spec (program_at m a)"
    and m': "m_programs m' = (m_programs m)[a := p]" "m_names m' = m_names m"
  shows "defined_in m' = defined_in m" "running_in m' = (running_in m)(nm := (ap_state p = StateRunning))"
proof -
  have a: "a < length (m_programs m)" by (rule agent_okD(7) [OF assms(1,2)])
  have own: "x = nm" if "m_names m x = Some a" for x using agent_okD(8) [OF assms(1)] that assms(2) by blast
  have "map_option (\<lambda>a. ap_spec (program_at m' a)) (m_names m' x) = map_option (\<lambda>a. ap_spec (program_at m a)) (m_names m x)" for x
    unfolding m'(2) using a assms(3) by (intro option.map_cong refl) (auto simp: m'(1) nth_list_update)
  then show "defined_in m' = defined_in m" by (simp add: defined_in_def fun_eq_iff)
  have "running_in m' x = ((running_in m)(nm := (ap_state p = StateRunning))) x" for x
  proof (cases "m_names m x")
    case None
    then show ?thesis using assms(2) by (auto simp: running_in_def m'(2))
  next
    case (Some b)
    show ?thesis
    proof (cases "b = a")
      case True
      then have "x = nm" using own Some by blast
      then show ?thesis using a assms(2) by (simp add: running_in_def m')
    next
      case False
      then have "x \<noteq> nm" using Some assms(2) by auto
      then show ?thesis using Some False by (simp add: running_in_def m')
    qed
  qed
  then show "running_in m' = (running_in m)(nm := (ap_state p = StateRunning))" by blast
qed

lemma persist_effect [simp]: "defined_in (snd (persist w a m)) = defined_in m" "running_in (snd (persist w a m)) = running_in m"
  by (simp_all add: defined_in_def running_in_def fun_eq_iff cong: option.case_cong)

lemma set_run_effect [simp]: "defined_in (set_run k r m) = defined_in m" "running_in (set_run k r m) = running_in m"
  by (simp_all add: defined_in_def running_in_def fun_eq_iff cong: option.case_cong)

lemma install_effect:
  assumes "agent_ok m" "install regular c w sp m = (r, m')"
  shows "(\<exists>x. r = Inr x) \<longrightarrow> \<not> running_in m (as_name sp) \<and> (\<exists>sp'. checked_spec (m_dir m) regular sp = Inr sp' \<and> defined_in m' = (defined_in m)(as_name sp \<mapsto> sp'))"
    "running_in m' = running_in m" "\<forall>n. n \<noteq> as_name sp \<longrightarrow> defined_in m' n = defined_in m n"
proof -
  have "((\<exists>x. r = Inr x) \<longrightarrow> \<not> running_in m (as_name sp) \<and> (\<exists>sp'. checked_spec (m_dir m) regular sp = Inr sp' \<and> defined_in m' = (defined_in m)(as_name sp \<mapsto> sp'))) \<and>
    running_in m' = running_in m \<and> (\<forall>n. n \<noteq> as_name sp \<longrightarrow> defined_in m' n = defined_in m n)"
  proof (cases "checked_spec (m_dir m) regular sp")
    case (Inr sp')
    have nm: "as_name sp' = as_name sp" using Inr by (auto simp: checked_spec_def Let_def split: if_splits)
    let ?m = "m\<lparr>m_programs := m_programs m @ [new_program sp' StateStopped], m_names := (m_names m)(as_name sp' \<mapsto> length (m_programs m))\<rparr>"
    show ?thesis
    proof (cases "\<not> running_in m (as_name sp) \<and> c")
      case True
      then have "m' = snd (persist w (length (m_programs m)) ?m)"
        using assms(2) Inr nm by (auto simp: install_def running_in_def Let_def split: prod.splits option.splits)
      then have "defined_in m' = defined_in ?m" "running_in m' = running_in ?m" by simp_all
      then show ?thesis using register_effect [OF assms(1), of sp' ?m StateStopped] True Inr nm by auto
    next
      case False
      then have "m' = m \<and> (\<exists>e. r = Inl e)" using assms(2) Inr nm by (auto simp: install_def running_in_def split: option.splits if_splits)
      then show ?thesis by auto
    qed
  qed (use assms in \<open>auto simp: install_def\<close>)
  then show "(\<exists>x. r = Inr x) \<longrightarrow> \<not> running_in m (as_name sp) \<and> (\<exists>sp'. checked_spec (m_dir m) regular sp = Inr sp' \<and> defined_in m' = (defined_in m)(as_name sp \<mapsto> sp'))"
    "running_in m' = running_in m" "\<forall>n. n \<noteq> as_name sp \<longrightarrow> defined_in m' n = defined_in m n" by blast+
qed

lemma start_locked_effect:
  assumes "agent_ok m" "m_names m nm = Some a"
  shows "defined_in (snd (start_locked regular os now a m)) = defined_in m"
    "running_in (snd (start_locked regular os now a m)) = (running_in m)(nm := (fst (start_locked regular os now a m) = None))"
proof -
  have "\<exists>p. ap_spec p = ap_spec (program_at m a) \<and> m_programs (snd (start_locked regular os now a m)) = (m_programs m)[a := p] \<and>
      (ap_state p = StateRunning \<longleftrightarrow> fst (start_locked regular os now a m) = None)"
  proof (cases "spawn (m_dir m) regular os (ap_spec (program_at m a))")
    case (Inl e)
    show ?thesis by (rule exI [of _ "(program_at m a)\<lparr>ap_state := StateFailed, ap_last_err := Some (Spawning e)\<rparr>"]) (simp add: start_locked_def Let_def Inl)
  next
    case (Inr pid)
    show ?thesis
      by (rule exI [of _ "(program_at m a)\<lparr>ap_state := StateRunning, ap_pid := pid, ap_restarts := 0, ap_last_err := None, ap_health := HealthUnknown,
          ap_ready := (as_ready (ap_spec (program_at m a)) = None), ap_started := now, ap_run := Some (length (m_runs m))\<rparr>"])
        (simp add: start_locked_def Let_def Inr)
  qed
  then obtain p where p: "ap_spec p = ap_spec (program_at m a)" "m_programs (snd (start_locked regular os now a m)) = (m_programs m)[a := p]"
    "ap_state p = StateRunning \<longleftrightarrow> fst (start_locked regular os now a m) = None" by (elim exE conjE) (rule that, assumption+)
  have n: "m_names (snd (start_locked regular os now a m)) = m_names m" by (simp add: start_locked_def Let_def split: sum.splits)
  show "defined_in (snd (start_locked regular os now a m)) = defined_in m" by (rule update_effect(1) [OF assms p(1,2) n])
  show "running_in (snd (start_locked regular os now a m)) = (running_in m)(nm := (fst (start_locked regular os now a m) = None))"
    unfolding p(3) [symmetric] by (rule update_effect(2) [OF assms p(1,2) n])
qed

lemma start_effect:
  assumes "agent_ok m" "start regular os now w nm m = (r, m')"
  shows "defined_in m' = defined_in m" "\<forall>n. n \<noteq> nm \<longrightarrow> running_in m' n = running_in m n"
    "(\<exists>x. r = Inr x) \<longrightarrow> defined_in m nm \<noteq> None \<and> running_in m' = (running_in m)(nm := True)"
proof -
  have "defined_in m' = defined_in m \<and> (\<forall>n. n \<noteq> nm \<longrightarrow> running_in m' n = running_in m n) \<and>
    ((\<exists>x. r = Inr x) \<longrightarrow> defined_in m nm \<noteq> None \<and> running_in m' = (running_in m)(nm := True))"
  proof (cases "m_names m nm")
    case None
    then have "m' = m" "r = Inl (NotInstalled nm)" using assms(2) by (simp_all add: start_def)
    then show ?thesis by simp
  next
    case a: (Some a)
    show ?thesis
    proof (cases "ap_state (program_at m a) = StateRunning")
      case True
      then have "m' = m" "running_in m nm" "defined_in m nm \<noteq> None" using assms(2) a by (simp_all add: start_def running_in_def defined_in_def)
      then show ?thesis by (simp add: fun_upd_idem)
    next
      case False
      let ?m = "set_program a ((program_at m a)\<lparr>ap_desired := StateRunning\<rparr>) m"
      obtain e m1 where sl: "start_locked regular os now a ?m = (e, m1)" by force
      have u: "defined_in ?m = defined_in m" "running_in ?m = (running_in m)(nm := False)"
        using update_effect [OF assms(1) a, of "(program_at m a)\<lparr>ap_desired := StateRunning\<rparr>" ?m] False by simp_all
      have ok: "agent_ok ?m" "m_names ?m nm = Some a" using desired_ok [OF assms(1)] a by simp_all
      have l: "defined_in m1 = defined_in m" "running_in m1 = (running_in m)(nm := (e = None))"
        using start_locked_effect [OF ok, of regular os now] u by (simp_all add: sl)
      have d: "defined_in m nm \<noteq> None" using a by (simp add: defined_in_def)
      obtain pe m2 where ps: "persist w a m1 = (pe, m2)" by force
      have "defined_in m2 = defined_in m1" "running_in m2 = running_in m1" using persist_effect [of w a m1] by (simp_all add: ps)
      moreover have "m' = m1 \<or> m' = m2" "(\<exists>x. r = Inr x) \<longrightarrow> e = None"
        using assms(2) a False sl ps by (auto simp: start_def split: option.splits)
      ultimately have "defined_in m' = defined_in m1" "running_in m' = running_in m1" "(\<exists>x. r = Inr x) \<longrightarrow> e = None" by auto
      then show ?thesis using l d by auto
    qed
  qed
  then show "defined_in m' = defined_in m" "\<forall>n. n \<noteq> nm \<longrightarrow> running_in m' n = running_in m n"
    "(\<exists>x. r = Inr x) \<longrightarrow> defined_in m nm \<noteq> None \<and> running_in m' = (running_in m)(nm := True)" by blast+
qed

text \<open>Ending a cancelled run takes its program down.\<close>

lemma end_run_effect:
  assumes "agent_ok m" "m_names m nm = Some a" "ap_run (program_at m a) = Some k" "r_cancelled (run_at m k)"
  shows "defined_in (end_run k m) = defined_in m" "running_in (end_run k m) = (running_in m)(nm := False)" "agent_ok (end_run k m)"
    "r_phase (run_at (end_run k m) k) = Ended"
proof -
  have a: "a < length (m_programs m)" by (rule agent_okD(7) [OF assms(1,2)])
  have k: "k < length (m_runs m)" "r_program (run_at m k) = a" "ap_state (program_at m a) = StateRunning \<longleftrightarrow> r_phase (run_at m k) \<noteq> Ended"
    using agent_okD(6) [OF assms(1) a] assms(3) by (auto simp: program_ok_def Let_def)
  have "defined_in (end_run k m) = defined_in m \<and> running_in (end_run k m) = (running_in m)(nm := False) \<and> agent_ok (end_run k m) \<and>
    r_phase (run_at (end_run k m) k) = Ended"
  proof (cases "r_phase (run_at m k)")
    case (Waiting pid)
    let ?p = "fst (exited True (Some ''signal: terminated'') (program_at m a))"
    have p: "ap_spec ?p = ap_spec (program_at m a)" "ap_state ?p = StateStopped" "\<not> snd (exited True (Some ''signal: terminated'') (program_at m a))"
      by (simp_all add: exited_def Let_def)
    have pr: "process_exit (Some ''signal: terminated'') True k m =
        set_run k ((run_at m k)\<lparr>r_phase := Ended\<rparr>) (snd (persist True a (set_program a ?p m)))"
      using p(3) k(2) assms(4) by (simp add: process_exit_def Let_def case_prod_beta)
    have "agent_ok (process_exit (Some ''signal: terminated'') True k m)" by (rule process_exit_ok [OF assms(1) k(1) Waiting])
    moreover have "defined_in (set_program a ?p m) = defined_in m" "running_in (set_program a ?p m) = (running_in m)(nm := False)"
      using update_effect [OF assms(1,2) p(1), of "set_program a ?p m"] p(2) by simp_all
    ultimately show ?thesis using Waiting k(1) by (simp add: end_run_def pr)
  next
    case Backing
    let ?p = "(program_at m a)\<lparr>ap_state := StateStopped\<rparr>"
    have "agent_ok (backoff_cancelled k m)" by (rule backoff_cancelled_ok [OF assms(1) k(1) Backing])
    moreover have "defined_in (set_program a ?p m) = defined_in m" "running_in (set_program a ?p m) = (running_in m)(nm := False)"
      using update_effect [OF assms(1,2), of ?p "set_program a ?p m"] by simp_all
    ultimately show ?thesis using Backing k(1,2) by (simp add: end_run_def backoff_cancelled_def Let_def)
  next
    case Ended
    then have "\<not> running_in m nm" using k(3) assms(2) by (simp add: running_in_def)
    then show ?thesis using Ended assms(1) by (simp add: end_run_def fun_upd_idem)
  qed
  then show "defined_in (end_run k m) = defined_in m" "running_in (end_run k m) = (running_in m)(nm := False)" "agent_ok (end_run k m)"
    "r_phase (run_at (end_run k m) k) = Ended" by blast+
qed

lemma fresh_answer_spawn: "fresh_answer (spawn_answer m r) m"
proof -
  have "fold max (live_pids m) 0 = Max (set (0 # live_pids m))" by (rule Max.set_eq_fold [symmetric])
  then have "pid < fresh_pid m" if "pid \<in> set (live_pids m)" for pid
    using Max_ge [of "set (0 # live_pids m)" pid] that by (simp add: fresh_pid_def less_Suc_eq_le)
  then show ?thesis by (auto simp: fresh_answer_def spawn_answer_def fresh_pid_def split: option.splits)
qed

lemma os_call_mgr [simp]: "ah_mgr (snd (os_call h)) = ah_mgr h" "ah_store (snd (os_call h)) = ah_store h"
  by (simp_all add: os_call_def split: list.split)

lemma host_install_mgr:
  "fst (host_install sp h) = fst (install (host_regular h) (fst (os_call h) = None) (fst (os_call (snd (os_call h))) = None) sp (ah_mgr h))"
  "ah_mgr (snd (host_install sp h)) = snd (install (host_regular h) (fst (os_call h) = None) (fst (os_call (snd (os_call h))) = None) sp (ah_mgr h))"
  by (simp_all add: host_install_def Let_def case_prod_beta)

lemma host_start_mgr:
  "fst (host_start nm h) = fst (start (host_regular h) (spawn_answer (ah_mgr h) (fst (os_call h))) (ah_now h) (fst (os_call (snd (os_call h))) = None) nm (ah_mgr h))"
  "ah_mgr (snd (host_start nm h)) = snd (start (host_regular h) (spawn_answer (ah_mgr h) (fst (os_call h))) (ah_now h) (fst (os_call (snd (os_call h))) = None) nm (ah_mgr h))"
  by (simp_all add: host_start_def Let_def case_prod_beta)

text \<open>What a stop leaves: the program down, or an error and at most this program changed.\<close>

lemma stop_mark_effect:
  assumes "agent_ok m" "stop_mark w nm m = (r, m')"
  shows "agent_ok m'" "defined_in m' = defined_in m" "running_in m' = running_in m" "\<forall>a. r = Inr a \<longrightarrow> m_names m' nm = Some a"
proof -
  have "agent_ok m' \<and> defined_in m' = defined_in m \<and> running_in m' = running_in m \<and> (\<forall>a. r = Inr a \<longrightarrow> m_names m' nm = Some a)"
  proof (cases "m_names m nm")
    case (Some a)
    let ?p = "(program_at m a)\<lparr>ap_desired := StateStopped\<rparr>"
    obtain e m1 where ps: "persist w a (set_program a ?p m) = (e, m1)" by force
    have u: "defined_in (set_program a ?p m) = defined_in m" "running_in (set_program a ?p m) = (running_in m)(nm := running_in m nm)"
      using update_effect [OF assms(1) Some, of ?p "set_program a ?p m"] Some by (simp_all add: running_in_def)
    have "defined_in m1 = defined_in m" "running_in m1 = running_in m" "m_names m1 = m_names m" "agent_ok m1"
      using persist_effect [of w a "set_program a ?p m"] persist_sel(3) [of w a "set_program a ?p m"] u desired_ok [OF assms(1), of a StateStopped]
        agent_ok_persist [of w a "set_program a ?p m"] by (simp_all add: ps)
    moreover have "m' = m1" "\<forall>b. r = Inr b \<longrightarrow> b = a" using assms(2) Some ps by (auto simp: stop_mark_def split: option.splits)
    ultimately show ?thesis using Some by auto
  qed (use assms in \<open>auto simp: stop_mark_def\<close>)
  then show "agent_ok m'" "defined_in m' = defined_in m" "running_in m' = running_in m" "\<forall>a. r = Inr a \<longrightarrow> m_names m' nm = Some a" by blast+
qed

lemma stop_cancel_effect:
  assumes "agent_ok m" "m_names m nm = Some a"
  obtains (idle) "stop_cancel nm m = (Inr None, m)" "ap_run (program_at m a) = None" "\<not> running_in m nm"
  | (cancelled) k m' where "stop_cancel nm m = (Inr (Some k), m')" "agent_ok m'" "defined_in m' = defined_in m" "running_in m' = running_in m"
      "m_names m' = m_names m" "ap_run (program_at m' a) = Some k" "r_cancelled (run_at m' k)"
proof (cases "ap_run (program_at m a)")
  case None
  have "ap_state (program_at m a) \<noteq> StateRunning"
    using agent_okD(6) [OF assms(1) agent_okD(7) [OF assms]] None by (simp add: program_ok_def Let_def)
  then show thesis using None assms(2) by (intro idle) (simp_all add: stop_cancel_def running_in_def)
next
  case (Some k)
  let ?m = "set_run k ((run_at m k)\<lparr>r_cancelled := True\<rparr>) m"
  have k: "k < length (m_runs m)" using agent_okD(6) [OF assms(1) agent_okD(7) [OF assms]] Some by (simp add: program_ok_def Let_def)
  have sc: "stop_cancel nm m = (Inr (Some k), ?m)" using Some assms(2) by (simp add: stop_cancel_def)
  then have "agent_ok ?m" using stop_cancel_ok [OF assms(1), of nm] by simp
  then show thesis using sc Some k by (intro cancelled [of k ?m]) simp_all
qed

lemma host_stop_effect:
  assumes "host_ok h" "host_stop nm h = (r, h')"
  shows "host_ok h'" "defined_in (ah_mgr h') = defined_in (ah_mgr h)" "\<forall>n. n \<noteq> nm \<longrightarrow> running_in (ah_mgr h') n = running_in (ah_mgr h) n"
    "(\<exists>x. r = Inr x) \<longrightarrow> defined_in (ah_mgr h) nm \<noteq> None \<and> running_in (ah_mgr h') = (running_in (ah_mgr h))(nm := False)"
proof -
  let ?m = "ah_mgr h" and ?goal = "\<lambda>r m'. agent_ok m' \<and> defined_in m' = defined_in (ah_mgr h) \<and> (\<forall>n. n \<noteq> nm \<longrightarrow> running_in m' n = running_in (ah_mgr h) n) \<and>
    ((\<exists>x. r = Inr x) \<longrightarrow> defined_in (ah_mgr h) nm \<noteq> None \<and> running_in m' = (running_in (ah_mgr h))(nm := False))"
  have ok: "agent_ok ?m" using assms(1) by (simp add: host_ok_def)
  obtain w h1 where h1: "os_call h = (w, h1)" by force
  obtain r1 m1 where m1: "stop_mark (w = None) nm ?m = (r1, m1)" by force
  note e1 = stop_mark_effect [OF ok m1]
  have "?goal r (ah_mgr h')"
  proof (cases r1)
    case (Inl e)
    then show ?thesis using assms(2) h1 m1 e1 by (auto simp: host_stop_def)
  next
    case (Inr a)
    then have a: "m_names m1 nm = Some a" using e1(4) by simp
    then have d: "defined_in ?m nm \<noteq> None" using e1(2) by (metis defined_in_def option.map_disc_iff option.distinct(1))
    show ?thesis
    proof (rule stop_cancel_effect [OF e1(1) a])
      assume c: "stop_cancel nm m1 = (Inr None, m1)" "\<not> running_in m1 nm"
      then have "ah_mgr h' = m1" using assms(2) h1 m1 Inr by (auto simp: host_stop_def)
      moreover have "running_in m1 = (running_in m1)(nm := False)" using c(2) by (simp add: fun_upd_idem)
      ultimately show ?thesis using e1 d by simp
    next
      fix k m2
      assume c: "stop_cancel nm m1 = (Inr (Some k), m2)" "agent_ok m2" "defined_in m2 = defined_in m1" "running_in m2 = running_in m1"
        "m_names m2 = m_names m1" "ap_run (program_at m2 a) = Some k" "r_cancelled (run_at m2 k)"
      note er = end_run_effect [OF c(2) _ c(6,7), of nm]
      have a2: "m_names m2 nm = Some a" using a c(5) by simp
      obtain g h2 where h2: "os_call h1 = (g, h2)" by force
      let ?m3 = "if g = None then end_run k m2 else m2"
      have run: "ah_mgr h' = ?m3" "(\<exists>x. r = Inr x) \<longrightarrow> r_phase (run_at ?m3 k) = Ended"
        using assms(2) h1 m1 Inr c(1) h2 by (auto simp: host_stop_def Let_def stop_ended_def split: if_splits)
      show ?thesis
      proof (cases "g = None")
        case True
        then show ?thesis using run er [OF a2] c(3,4) e1(2,3) d by simp
      next
        case False
        have "running_in m2 nm = (ap_state (program_at m2 a) = StateRunning)" using a2 by (simp add: running_in_def)
        moreover have "ap_state (program_at m2 a) = StateRunning \<longleftrightarrow> r_phase (run_at m2 k) \<noteq> Ended"
          using agent_okD(6) [OF c(2) agent_okD(7) [OF c(2) a2]] c(6) by (simp add: program_ok_def Let_def)
        ultimately have "(\<exists>x. r = Inr x) \<longrightarrow> running_in m2 = (running_in m2)(nm := False)" using run(2) False by (auto simp: fun_upd_idem)
        then show ?thesis using run(1) False c(2,3,4) e1(2,3) d by auto
      qed
    qed
  qed
  then show "host_ok h'" "defined_in (ah_mgr h') = defined_in (ah_mgr h)" "\<forall>n. n \<noteq> nm \<longrightarrow> running_in (ah_mgr h') n = running_in (ah_mgr h) n"
    "(\<exists>x. r = Inr x) \<longrightarrow> defined_in (ah_mgr h) nm \<noteq> None \<and> running_in (ah_mgr h') = (running_in (ah_mgr h))(nm := False)"
    unfolding host_ok_def by blast+
qed

lemma host_remove_effect:
  assumes "host_ok h" "host_remove nm h = (r, h')"
  shows "host_ok h'" "\<forall>n. n \<noteq> nm \<longrightarrow> defined_in (ah_mgr h') n = defined_in (ah_mgr h) n \<and> running_in (ah_mgr h') n = running_in (ah_mgr h) n"
    "r = Inr () \<longrightarrow> defined_in (ah_mgr h') = (defined_in (ah_mgr h))(nm := None) \<and> running_in (ah_mgr h') = (running_in (ah_mgr h))(nm := False)"
proof -
  obtain rs h1 where h1: "host_stop nm h = (rs, h1)" by force
  note e = host_stop_effect [OF assms(1) h1]
  let ?m1 = "ah_mgr h1" and ?del = "(m_names (ah_mgr h1))(nm := None)"
  have del: "defined_in m' = (defined_in ?m1)(nm := None) \<and> running_in m' = (running_in ?m1)(nm := False)"
    if "m_programs m' = m_programs ?m1" "m_names m' = ?del" for m'
    using that by (auto simp: defined_in_def running_in_def fun_eq_iff split: option.splits)
  have "host_ok h' \<and> (\<forall>n. n \<noteq> nm \<longrightarrow> defined_in (ah_mgr h') n = defined_in (ah_mgr h) n \<and> running_in (ah_mgr h') n = running_in (ah_mgr h) n) \<and>
    (r = Inr () \<longrightarrow> defined_in (ah_mgr h') = (defined_in (ah_mgr h))(nm := None) \<and> running_in (ah_mgr h') = (running_in (ah_mgr h))(nm := False))"
  proof (cases rs)
    case (Inl x)
    then have "h' = h1" "r = Inl x" using assms(2) h1 by (simp_all add: host_remove_def)
    then show ?thesis using e by simp
  next
    case (Inr x)
    then have *: "ah_mgr h' = snd (remove_entry (fst (os_call h1) = None) nm ?m1)"
      using assms(2) h1 by (auto simp: host_remove_def Let_def case_prod_beta)
    have d: "defined_in (ah_mgr h') = (defined_in ?m1)(nm := None)" "running_in (ah_mgr h') = (running_in ?m1)(nm := False)"
      using del [of "ah_mgr h'"] * by simp_all
    have "host_ok h'" using remove_entry_ok e(1) * by (simp add: host_ok_def)
    then show ?thesis using d e(2,3,4) Inr by (auto simp: fun_eq_iff)
  qed
  then show "host_ok h'" "\<forall>n. n \<noteq> nm \<longrightarrow> defined_in (ah_mgr h') n = defined_in (ah_mgr h) n \<and> running_in (ah_mgr h') n = running_in (ah_mgr h) n"
    "r = Inr () \<longrightarrow> defined_in (ah_mgr h') = (defined_in (ah_mgr h))(nm := None) \<and> running_in (ah_mgr h') = (running_in (ah_mgr h))(nm := False)" by blast+
qed

lemma host_install_effect:
  assumes "host_ok h" "host_install sp h = (r, h')"
  shows "(\<exists>x. r = Inr x) \<longrightarrow> \<not> running_in (ah_mgr h) (as_name sp) \<and> (\<exists>sp'. accepted sp sp' \<and> defined_in (ah_mgr h') = (defined_in (ah_mgr h))(as_name sp \<mapsto> sp'))"
    "running_in (ah_mgr h') = running_in (ah_mgr h)" "\<forall>n. n \<noteq> as_name sp \<longrightarrow> defined_in (ah_mgr h') n = defined_in (ah_mgr h) n"
proof -
  have m: "agent_ok (ah_mgr h)" using assms(1) by (simp add: host_ok_def)
  obtain c w where i: "install (host_regular h) c w sp (ah_mgr h) = (r, ah_mgr h')"
    using host_install_mgr [of sp h] assms(2) by (metis fst_conv snd_conv prod.collapse)
  show "(\<exists>x. r = Inr x) \<longrightarrow> \<not> running_in (ah_mgr h) (as_name sp) \<and> (\<exists>sp'. accepted sp sp' \<and> defined_in (ah_mgr h') = (defined_in (ah_mgr h))(as_name sp \<mapsto> sp'))"
    using install_effect(1) [OF m i] by (auto simp: accepted_def)
  show "running_in (ah_mgr h') = running_in (ah_mgr h)" "\<forall>n. n \<noteq> as_name sp \<longrightarrow> defined_in (ah_mgr h') n = defined_in (ah_mgr h) n"
    using install_effect(2,3) [OF m i] by blast+
qed

lemma host_start_effect:
  assumes "host_ok h" "host_start nm h = (r, h')"
  shows "defined_in (ah_mgr h') = defined_in (ah_mgr h)" "\<forall>n. n \<noteq> nm \<longrightarrow> running_in (ah_mgr h') n = running_in (ah_mgr h) n"
    "(\<exists>x. r = Inr x) \<longrightarrow> defined_in (ah_mgr h) nm \<noteq> None \<and> running_in (ah_mgr h') = (running_in (ah_mgr h))(nm := True)"
proof -
  have m: "agent_ok (ah_mgr h)" using assms(1) by (simp add: host_ok_def)
  obtain os w where i: "start (host_regular h) os (ah_now h) w nm (ah_mgr h) = (r, ah_mgr h')"
    using host_start_mgr [of nm h] assms(2) by (metis fst_conv snd_conv prod.collapse)
  show "defined_in (ah_mgr h') = defined_in (ah_mgr h)" "\<forall>n. n \<noteq> nm \<longrightarrow> running_in (ah_mgr h') n = running_in (ah_mgr h) n"
    "(\<exists>x. r = Inr x) \<longrightarrow> defined_in (ah_mgr h) nm \<noteq> None \<and> running_in (ah_mgr h') = (running_in (ah_mgr h))(nm := True)"
    by (rule start_effect [OF m i])+
qed

lemma running_in_defined: "running_in m nm \<Longrightarrow> defined_in m nm \<noteq> None"
  by (auto simp: running_in_def defined_in_def split: option.splits)

interpretation host: program_host host_ok "\<lambda>h. defined_in (ah_mgr h)" "\<lambda>h. running_in (ah_mgr h)" host_install host_start host_stop host_remove accepted
proof unfold_locales
  fix h h' :: agent_host and sp nm x e
  assume ok: "host_ok h"
  then have m: "agent_ok (ah_mgr h)" by (simp add: host_ok_def)
  show "host_ok (snd (host_install sp h))" using install_ok [OF m] by (simp add: host_ok_def host_install_mgr)
  show "host_ok (snd (host_start nm h))" using start_ok [OF m fresh_answer_spawn] by (simp add: host_ok_def host_start_mgr)
  show "host_ok (snd (host_stop nm h))" by (rule host_stop_effect(1) [OF ok prod.collapse [symmetric]])
  show "host_ok (snd (host_remove nm h))" by (rule host_remove_effect(1) [OF ok prod.collapse [symmetric]])
  show "running_in (ah_mgr h) nm \<Longrightarrow> defined_in (ah_mgr h) nm \<noteq> None" by (rule running_in_defined)
  show "host_install sp h = (Inr x, h') \<Longrightarrow> \<not> running_in (ah_mgr h) (as_name sp) \<and>
      (\<exists>sp'. accepted sp sp' \<and> defined_in (ah_mgr h') = (defined_in (ah_mgr h))(as_name sp \<mapsto> sp')) \<and> running_in (ah_mgr h') = running_in (ah_mgr h)"
    using host_install_effect(1,2) [OF ok] by blast
  show "host_install sp h = (Inl e, h') \<Longrightarrow> running_in (ah_mgr h') = running_in (ah_mgr h) \<and>
      (\<forall>n. n \<noteq> as_name sp \<longrightarrow> defined_in (ah_mgr h') n = defined_in (ah_mgr h) n)"
    using host_install_effect(2,3) [OF ok] by blast
  show "host_start nm h = (Inr x, h') \<Longrightarrow> defined_in (ah_mgr h) nm \<noteq> None \<and> defined_in (ah_mgr h') = defined_in (ah_mgr h) \<and>
      running_in (ah_mgr h') = (running_in (ah_mgr h))(nm := True)"
    using host_start_effect(1,3) [OF ok] by blast
  show "host_start nm h = (Inl e, h') \<Longrightarrow> defined_in (ah_mgr h') = defined_in (ah_mgr h) \<and> (\<forall>n. n \<noteq> nm \<longrightarrow> running_in (ah_mgr h') n = running_in (ah_mgr h) n)"
    using host_start_effect(1,2) [OF ok] by blast
  show "host_stop nm h = (Inr x, h') \<Longrightarrow> defined_in (ah_mgr h) nm \<noteq> None \<and> defined_in (ah_mgr h') = defined_in (ah_mgr h) \<and>
      running_in (ah_mgr h') = (running_in (ah_mgr h))(nm := False)"
    using host_stop_effect(2,4) [OF ok] by blast
  show "host_stop nm h = (Inl e, h') \<Longrightarrow> defined_in (ah_mgr h') = defined_in (ah_mgr h) \<and> (\<forall>n. n \<noteq> nm \<longrightarrow> running_in (ah_mgr h') n = running_in (ah_mgr h) n)"
    using host_stop_effect(2,3) [OF ok] by blast
  show "host_remove nm h = (Inr (), h') \<Longrightarrow> defined_in (ah_mgr h') = (defined_in (ah_mgr h))(nm := None) \<and>
      running_in (ah_mgr h') = (running_in (ah_mgr h))(nm := False)"
    using host_remove_effect(3) [OF ok] by blast
  show "host_remove nm h = (Inl e, h') \<Longrightarrow> \<forall>n. n \<noteq> nm \<longrightarrow> defined_in (ah_mgr h') n = defined_in (ah_mgr h) n \<and> running_in (ah_mgr h') n = running_in (ah_mgr h) n"
    using host_remove_effect(2) [OF ok] by blast
qed

section \<open>Handlers as schedules of steps\<close>

definition step_run :: "manager \<Rightarrow> manager \<Rightarrow> bool" where
  "step_run m m' \<longleftrightarrow> (\<exists>evs. agent_steps evs m = Some m')"

lemma agent_steps_append: "agent_steps (xs @ ys) m = Option.bind (agent_steps xs m) (agent_steps ys)"
  by (induction xs arbitrary: m) (auto split: option.splits)

lemma step_run_trans: "step_run m m1 \<Longrightarrow> step_run m1 m2 \<Longrightarrow> step_run m m2"
proof -
  assume "step_run m m1" "step_run m1 m2"
  then obtain xs ys where "agent_steps xs m = Some m1" "agent_steps ys m1 = Some m2" by (auto simp: step_run_def)
  then have "agent_steps (xs @ ys) m = Some m2" by (simp add: agent_steps_append)
  then show ?thesis by (auto simp: step_run_def)
qed

lemma step_run_one: "agent_step ev m = Some m' \<Longrightarrow> step_run m m'"
  unfolding step_run_def by (rule exI [of _ "[ev]"]) simp

lemma step_run_refl: "step_run m m"
  unfolding step_run_def by (rule exI [of _ "[]"]) simp

lemma end_run_step:
  assumes "agent_ok m" "m_names m nm = Some a" "ap_run (program_at m a) = Some k" "r_cancelled (run_at m k)"
  shows "step_run m (end_run k m)"
proof -
  have k: "k < length (m_runs m)"
    using agent_okD(6) [OF assms(1) agent_okD(7) [OF assms(1,2)]] assms(3) by (simp add: program_ok_def Let_def)
  show ?thesis
  proof (cases "r_phase (run_at m k)")
    case (Waiting pid)
    then show ?thesis using k by (intro step_run_one [of "ProcessExit (Some ''signal: terminated'') True k"]) (simp add: end_run_def)
  next
    case Backing
    then show ?thesis using k assms(4) by (intro step_run_one [of "BackoffCancelled k"]) (simp add: end_run_def)
  qed (simp add: end_run_def step_run_refl)
qed

lemma host_stop_steps:
  assumes "host_ok h"
  shows "step_run (ah_mgr h) (ah_mgr (snd (host_stop nm h)))"
proof -
  obtain w h1 where h1: "os_call h = (w, h1)" by force
  obtain r1 m1 where m1: "stop_mark (w = None) nm (ah_mgr h) = (r1, m1)" by force
  have ok: "agent_ok (ah_mgr h)" using assms by (simp add: host_ok_def)
  have s1: "step_run (ah_mgr h) m1" by (rule step_run_one [of "StopMark (w = None) nm"]) (simp add: m1)
  note e1 = stop_mark_effect [OF ok m1]
  show ?thesis
  proof (cases r1)
    case (Inl e)
    then show ?thesis using s1 h1 m1 by (simp add: host_stop_def)
  next
    case (Inr a)
    then have a: "m_names m1 nm = Some a" using e1(4) by simp
    show ?thesis
    proof (rule stop_cancel_effect [OF e1(1) a])
      assume "stop_cancel nm m1 = (Inr None, m1)"
      then show ?thesis using s1 h1 m1 Inr by (simp add: host_stop_def)
    next
      fix k m2
      assume c: "stop_cancel nm m1 = (Inr (Some k), m2)" "agent_ok m2" "m_names m2 = m_names m1" "ap_run (program_at m2 a) = Some k" "r_cancelled (run_at m2 k)"
      obtain g h2 where h2: "os_call h1 = (g, h2)" by force
      have A: "step_run m1 m2" by (rule step_run_one [of "StopCancel nm"]) (simp add: c(1))
      have B: "step_run m2 (if g = None then end_run k m2 else m2)"
        using end_run_step [OF c(2) _ c(4,5), of nm] a c(3) by (simp add: step_run_refl)
      have "ah_mgr (snd (host_stop nm h)) = (if g = None then end_run k m2 else m2)"
        using h1 m1 Inr c(1) h2 by (simp add: host_stop_def Let_def split: option.split)
      then show ?thesis using step_run_trans [OF step_run_trans [OF s1 A] B] by (simp only:)
    qed
  qed
qed

lemma handlers_run_steps:
  assumes "host_ok h"
  shows "step_run (ah_mgr h) (ah_mgr (snd (host_install sp h)))" "step_run (ah_mgr h) (ah_mgr (snd (host_start nm h)))"
    "step_run (ah_mgr h) (ah_mgr (snd (host_stop nm h)))" "step_run (ah_mgr h) (ah_mgr (snd (host_remove nm h)))"
proof -
  show "step_run (ah_mgr h) (ah_mgr (snd (host_install sp h)))"
    by (rule step_run_one [of "Install (host_regular h) (fst (os_call h) = None) (fst (os_call (snd (os_call h))) = None) sp"]) (simp add: host_install_mgr)
  show "step_run (ah_mgr h) (ah_mgr (snd (host_start nm h)))"
    by (rule step_run_one [of "Start (host_regular h) (spawn_answer (ah_mgr h) (fst (os_call h))) (ah_now h) (fst (os_call (snd (os_call h))) = None) nm"])
      (simp add: host_start_mgr fresh_answer_spawn)
  show "step_run (ah_mgr h) (ah_mgr (snd (host_stop nm h)))" by (rule host_stop_steps [OF assms])
  show "step_run (ah_mgr h) (ah_mgr (snd (host_remove nm h)))"
  proof (cases "host_stop nm h")
    case (Pair r h1)
    have s: "step_run (ah_mgr h) (ah_mgr h1)" using host_stop_steps [OF assms, of nm] Pair by simp
    show ?thesis
    proof (cases r)
      case (Inl e)
      then show ?thesis using s Pair by (simp add: host_remove_def)
    next
      case (Inr x)
      have "step_run (ah_mgr h1) (snd (remove_entry (fst (os_call h1) = None) nm (ah_mgr h1)))"
        by (rule step_run_one [of "RemoveEntry (fst (os_call h1) = None) nm"]) simp
      then show ?thesis using s Pair Inr step_run_trans by (simp add: host_remove_def Let_def case_prod_beta)
    qed
  qed
qed

text \<open>Every request the agent handles is a schedule of the supervisor's steps, so what holds under every interleaving
  holds of a sequence of requests.\<close>
theorem handlers_are_step_sequences:
  assumes "host_ok h"
  shows "step_run (ah_mgr h) (ah_mgr (snd (host_install sp h))) \<and> step_run (ah_mgr h) (ah_mgr (snd (host_start nm h))) \<and>
    step_run (ah_mgr h) (ah_mgr (snd (host_stop nm h))) \<and> step_run (ah_mgr h) (ah_mgr (snd (host_remove nm h)))"
  using handlers_run_steps [OF assms] by blast

definition demo_host :: agent_host where
  "demo_host = \<lparr>ah_mgr = empty_manager ''/v'', ah_store = demo_store, ah_os = [], ah_now = 0\<rparr>"

lemma demo_host_ok: "host_ok demo_host"
  using empty_manager_ok [where dir = "''/v''" and disk = Map.empty] by (simp add: host_ok_def demo_host_def empty_manager_def)

theorem handlers_are_step_sequences_witness:
  "\<exists>sp. let h = snd (host_start ''web'' (snd (host_install sp demo_host))) in
     step_run (ah_mgr h) (ah_mgr (snd (host_stop ''web'' h))) \<and> running_in (ah_mgr h) ''web'' \<and> \<not> running_in (ah_mgr (snd (host_stop ''web'' h))) ''web''"
proof -
  let ?h = "snd (host_start ''web'' (snd (host_install (demo_spec ''Always'' None None) demo_host)))"
  have ok: "host_ok ?h" using host.keeps_ok(1,2) demo_host_ok by blast
  have "running_in (ah_mgr ?h) ''web'' \<and> \<not> running_in (ah_mgr (snd (host_stop ''web'' ?h))) ''web''" by code_simp
  then show ?thesis using handlers_are_step_sequences [OF ok, of _ "''web''"] by (auto simp: Let_def)
qed

end
