(* ===== verification/Actions.thy ===== *)
theory Actions
  imports Prelude
begin

text \<open>
  Calls on a state that can fail: the shape of the usecases that work on more than the tables. An action returns its
  error or its result with the state it leaves, and a failed call keeps what was changed before it.
\<close>

type_synonym ('s, 'e, 'a) act = "'s \<Rightarrow> ('e + 'a) \<times> 's"

definition aret :: "'a \<Rightarrow> ('s, 'e, 'a) act" where "aret x s = (Inr x, s)"

definition afail :: "'e \<Rightarrow> ('s, 'e, 'a) act" where "afail e s = (Inl e, s)"

definition alift :: "'e + 'a \<Rightarrow> ('s, 'e, 'a) act" where "alift r s = (r, s)"

definition abind :: "('s, 'e, 'a) act \<Rightarrow> ('a \<Rightarrow> ('s, 'e, 'b) act) \<Rightarrow> ('s, 'e, 'b) act" where
  "abind m f s = (case m s of (Inl e, s') \<Rightarrow> (Inl e, s') | (Inr x, s') \<Rightarrow> f x s')"

definition aerr :: "('e \<Rightarrow> 'f) \<Rightarrow> ('s, 'e, 'a) act \<Rightarrow> ('s, 'f, 'a) act" where
  "aerr g m s = (case m s of (r, s') \<Rightarrow> (emap_err g r, s'))"

text \<open>A call whose error is handled by the caller.\<close>

definition atry :: "('s, 'e, 'a) act \<Rightarrow> ('s, 'f, 'e + 'a) act" where
  "atry m s = (case m s of (r, s') \<Rightarrow> (Inr r, s'))"

definition aguard :: "bool \<Rightarrow> 'e \<Rightarrow> ('s, 'e, unit) act" where
  "aguard b e = (if b then aret () else afail e)"

fun aeach :: "('a \<Rightarrow> ('s, 'e, unit) act) \<Rightarrow> 'a list \<Rightarrow> ('s, 'e, unit) act" where
  "aeach f [] = aret ()"
| "aeach f (x # xs) = abind (f x) (\<lambda>_. aeach f xs)"

lemma aret_ok [simp]: "aret x s = (Inr y, s') \<longleftrightarrow> y = x \<and> s' = s"
  by (auto simp: aret_def)

lemma afail_ok [simp]: "afail e s = (Inr y, s') \<longleftrightarrow> False" "fst (afail e s) = Inl e" "snd (afail e s) = s"
  by (simp_all add: afail_def)

lemma alift_ok [simp]: "alift r s = (Inr x, s') \<longleftrightarrow> r = Inr x \<and> s' = s" "snd (alift r s) = s"
  by (auto simp: alift_def)

lemma aret_snd [simp]: "snd (aret x s) = s"
  by (simp add: aret_def)

lemma abind_ok [simp]: "abind m f s = (Inr y, s') \<longleftrightarrow> (\<exists>x s1. m s = (Inr x, s1) \<and> f x s1 = (Inr y, s'))"
  by (auto simp: abind_def split: prod.splits sum.splits)

lemma aerr_ok [simp]: "aerr g m s = (Inr x, s') \<longleftrightarrow> m s = (Inr x, s')" "snd (aerr g m s) = snd (m s)"
  by (auto simp: aerr_def split: prod.splits)

lemma atry_ok [simp]: "atry m s = (Inr r, s') \<longleftrightarrow> m s = (r, s')" "snd (atry m s) = snd (m s)"
  by (auto simp: atry_def split: prod.splits)

lemma aguard_ok [simp]: "aguard b e s = (Inr x, s') \<longleftrightarrow> b \<and> s' = s" "snd (aguard b e s) = s"
  by (auto simp: aguard_def)

text \<open>A relation between the state before and after a call. What a caller may rely on when it chains calls follows
  from the calls one by one.\<close>

named_theorems framed

locale call_frame =
  fixes R :: "'s \<Rightarrow> 's \<Rightarrow> bool"
  assumes refl: "R s s" and trans: "R s t \<Longrightarrow> R t u \<Longrightarrow> R s u"
begin

definition within :: "('s, 'e, 'a) act \<Rightarrow> bool" where
  "within m \<longleftrightarrow> (\<forall>s. R s (snd (m s)))"

lemma within_basic [framed]: "within (aret x)" "within (afail e)" "within (alift r)" "within (aguard b e)"
  by (simp_all add: within_def refl)

lemma within_bind [framed]:
  assumes "within m" "\<And>x. within (f x)"
  shows "within (abind m f)"
  unfolding within_def
proof
  fix s
  obtain r s1 where m: "m s = (r, s1)" by force
  have 1: "R s s1" using assms(1) m unfolding within_def by (metis snd_conv)
  show "R s (snd (abind m f s))"
  proof (cases r)
    case (Inl e)
    then show ?thesis using 1 m by (simp add: abind_def)
  next
    case (Inr x)
    have "R s1 (snd (f x s1))" using assms(2) by (simp add: within_def)
    then show ?thesis using 1 m Inr trans by (simp add: abind_def)
  qed
qed

lemma within_err [framed]: "within m \<Longrightarrow> within (aerr g m)" "within m \<Longrightarrow> within (atry m)"
  by (simp_all add: within_def)

lemma within_if [framed]: "(b \<Longrightarrow> within m) \<Longrightarrow> (\<not> b \<Longrightarrow> within n) \<Longrightarrow> within (if b then m else n)"
  by simp

lemma within_sum [framed]: "(\<And>e. within (f e)) \<Longrightarrow> (\<And>x. within (g x)) \<Longrightarrow> within (case r of Inl e \<Rightarrow> f e | Inr x \<Rightarrow> g x)"
  by (simp split: sum.split)

lemma within_option [framed]: "within m \<Longrightarrow> (\<And>x. within (g x)) \<Longrightarrow> within (case r of None \<Rightarrow> m | Some x \<Rightarrow> g x)"
  by (simp split: option.split)

lemma within_pair [framed]: "(\<And>x y. within (f x y)) \<Longrightarrow> within (case p of (x, y) \<Rightarrow> f x y)"
  by (simp split: prod.split)

lemma within_each [framed]: "(\<And>x. x \<in> set xs \<Longrightarrow> within (f x)) \<Longrightarrow> within (aeach f xs)"
  by (induction xs) (auto intro: framed)

lemma withinD: "within m \<Longrightarrow> m s = (r, s') \<Longrightarrow> R s s'"
  by (metis within_def snd_conv)

end

end
