(* ===== verification/Packages.thy ===== *)
theory Packages
  imports Actions Store PackageStore
begin

text \<open>
  controller/internal/biz/package.go with data/package.go: the controller's package repository, rows of package
  documents and archive files on disk. \<open>rp_io\<close> are the faults of the coming calls of the database and the disk,
  as for the store. SHA-256, gzip with tar, and JSON are parameters: \<open>untar\<close> gives the entries of an archive
  with their contents and \<open>tgz\<close> writes one, \<open>parse\<close> and \<open>marshal\<close> read and write a manifest.
\<close>

section \<open>Resources\<close>

record manifest =
  mf_name :: string
  mf_version :: string
  mf_entrypoint :: string
  mf_description :: string
  mf_links :: "string list"

record package =
  pg_meta :: meta
  pg_version :: string
  pg_entrypoint :: string
  pg_description :: string
  pg_links :: "string list"
  pg_sha :: string
  pg_size :: int
  pg_builtin :: bool

abbreviation package_name_of :: "package \<Rightarrow> string" where "package_name_of p \<equiv> meta_name (pg_meta p)"

datatype repo_error = PackageAbsent | PackageClash | CallFailed string | PathInvalid string string

datatype upload_error = EmptyPayload | UploadTooLarge | NotGzip string | NotTar string | ManifestUnreadable string | NoManifest
  | ManifestName string | ManifestVersion string | ManifestEntrypoint string | EntrypointAbsent string | Reserved string
  | AlreadyExists string string | IsBuiltin string string | RepoFailed repo_error | BuildFailed string

record package_repo =
  rp_rows :: "package list"
  rp_files :: "string \<Rightarrow> string option"
  rp_io :: "string option list"

type_synonym 'a repo_act = "(package_repo, repo_error, 'a) act"

section \<open>The repository\<close>

definition repo_call :: "(package_repo \<Rightarrow> repo_error + ('a \<times> package_repo)) \<Rightarrow> 'a repo_act" where
  "repo_call f r = (case rp_io r of
     Some m # io \<Rightarrow> (Inl (CallFailed m), r\<lparr>rp_io := io\<rparr>)
   | io \<Rightarrow> (let r' = r\<lparr>rp_io := tl io\<rparr> in case f r' of Inl e \<Rightarrow> (Inl e, r') | Inr (x, r'') \<Rightarrow> (Inr x, r'')))"

definition is_version :: "string \<Rightarrow> string \<Rightarrow> package \<Rightarrow> bool" where
  "is_version n v p \<longleftrightarrow> package_name_of p = n \<and> pg_version p = v"

definition create_package :: "package \<Rightarrow> unit repo_act" where
  "create_package p = repo_call (\<lambda>r.
     if list_ex (\<lambda>q. meta_id (pg_meta q) = meta_id (pg_meta p) \<or> is_version (package_name_of p) (pg_version p) q) (rp_rows r) then Inl PackageClash
     else Inr ((), r\<lparr>rp_rows := rp_rows r @ [p]\<rparr>))"

definition update_package :: "nat \<Rightarrow> package \<Rightarrow> unit repo_act" where
  "update_package now p = repo_call (\<lambda>r.
     if list_ex (\<lambda>q. meta_id (pg_meta q) = meta_id (pg_meta p)) (rp_rows r)
     then Inr ((), r\<lparr>rp_rows := map (\<lambda>q. if meta_id (pg_meta q) = meta_id (pg_meta p) then p\<lparr>pg_meta := (pg_meta p)\<lparr>updated_at := now\<rparr>\<rparr> else q) (rp_rows r)\<rparr>)
     else Inl PackageAbsent)"

definition delete_row :: "string \<Rightarrow> string \<Rightarrow> unit repo_act" where
  "delete_row n v = repo_call (\<lambda>r. if list_ex (is_version n v) (rp_rows r)
     then Inr ((), r\<lparr>rp_rows := filter (\<lambda>p. \<not> is_version n v p) (rp_rows r)\<rparr>) else Inl PackageAbsent)"

definition get_package :: "string \<Rightarrow> string \<Rightarrow> package repo_act" where
  "get_package n v = repo_call (\<lambda>r. case find (is_version n v) (rp_rows r) of None \<Rightarrow> Inl PackageAbsent | Some p \<Rightarrow> Inr (p, r))"

definition all_packages :: "package list repo_act" where
  "all_packages = repo_call (\<lambda>r. Inr (sort_key (\<lambda>p. (package_name_of p, pg_version p)) (rp_rows r), r))"

definition payload_path :: "string \<Rightarrow> string \<Rightarrow> string \<Rightarrow> repo_error + string" where
  "payload_path dir n v = (let rel = path_join [''packages'', n, v @ ''.tar.gz''] in
     if is_local rel then Inr (path_join [dir, rel]) else Inl (PathInvalid n v))"

definition save_payload :: "string \<Rightarrow> string \<Rightarrow> string \<Rightarrow> string \<Rightarrow> unit repo_act" where
  "save_payload dir n v body = abind (alift (payload_path dir n v)) (\<lambda>p. repo_call (\<lambda>r. Inr ((), r\<lparr>rp_files := (rp_files r)(p \<mapsto> body)\<rparr>)))"

definition delete_payload :: "string \<Rightarrow> string \<Rightarrow> string \<Rightarrow> unit repo_act" where
  "delete_payload dir n v = abind (alift (payload_path dir n v)) (\<lambda>p. repo_call (\<lambda>r. Inr ((), r\<lparr>rp_files := (rp_files r)(p := None)\<rparr>)))"

section \<open>Manifests\<close>

definition max_package_upload :: nat where "max_package_upload = 134217728"

definition manifest_file_name :: string where "manifest_file_name = ''manifest.json''"

type_synonym archive = "string + (tar_item \<times> string) list"

text \<open>The loop over the entries: the manifest so far and the regular local files.\<close>

fun scan_archive :: "(string \<Rightarrow> string + manifest) \<Rightarrow> (tar_item \<times> string) list \<Rightarrow> manifest option \<times> string list \<Rightarrow> upload_error + manifest option \<times> string list" where
  "scan_archive parse [] st = Inr st"
| "scan_archive parse ((TarBroken m, _) # es) st = Inl (NotTar m)"
| "scan_archive parse ((TarFile raw sz, body) # es) (m, files) = (let name = path_clean raw in
     if \<not> is_local name then scan_archive parse es (m, files)
     else if name = manifest_file_name then (case parse (take 1048576 body) of Inl e \<Rightarrow> Inl (ManifestUnreadable e) | Inr x \<Rightarrow> scan_archive parse es (Some x, files @ [name]))
     else scan_archive parse es (m, files @ [name]))"
| "scan_archive parse ((TarDir raw, _) # es) st = scan_archive parse es st"
| "scan_archive parse ((TarOther raw, _) # es) st = scan_archive parse es st"

definition validate_manifest :: "manifest \<Rightarrow> string list \<Rightarrow> upload_error option" where
  "validate_manifest m files = (if \<not> name_ok (mf_name m) then Some (ManifestName (mf_name m))
     else if \<not> version_ok (mf_version m) then Some (ManifestVersion (mf_version m))
     else if mf_entrypoint m = [] \<or> \<not> is_local (mf_entrypoint m) then Some (ManifestEntrypoint (mf_entrypoint m))
     else if path_clean (mf_entrypoint m) \<notin> set files then Some (EntrypointAbsent (mf_entrypoint m)) else None)"

definition read_archive_manifest :: "(string \<Rightarrow> archive) \<Rightarrow> (string \<Rightarrow> string + manifest) \<Rightarrow> string \<Rightarrow> upload_error + manifest" where
  "read_archive_manifest untar parse body = (case untar body of Inl e \<Rightarrow> Inl (NotGzip e)
   | Inr es \<Rightarrow> ebind (scan_archive parse es (None, [])) (\<lambda>(m, files). case m of None \<Rightarrow> Inl NoManifest
      | Some x \<Rightarrow> (case validate_manifest x files of Some e \<Rightarrow> Inl e | None \<Rightarrow> Inr x)))"

section \<open>The usecase\<close>

definition new_package :: "(string \<Rightarrow> string) \<Rightarrow> draw \<Rightarrow> nat \<Rightarrow> manifest \<Rightarrow> string \<Rightarrow> bool \<Rightarrow> package" where
  "new_package sha d now m body builtin =
    \<lparr>pg_meta = \<lparr>meta_id = new_id ''pkg'' d, meta_name = mf_name m, generation = 0, observed_generation = 0, phase = PhaseUnset, last_error = None, created_at = now, updated_at = now\<rparr>,
     pg_version = mf_version m, pg_entrypoint = mf_entrypoint m, pg_description = mf_description m, pg_links = mf_links m,
     pg_sha = sha body, pg_size = int (length body), pg_builtin = builtin\<rparr>"

definition store_package :: "(string \<Rightarrow> string) \<Rightarrow> string \<Rightarrow> draw \<Rightarrow> nat \<Rightarrow> manifest \<Rightarrow> string \<Rightarrow> bool \<Rightarrow> (package_repo, upload_error, package) act" where
  "store_package sha dir d now m body builtin =
    abind (atry (get_package (mf_name m) (mf_version m))) (\<lambda>g. case g of Inr _ \<Rightarrow> afail (AlreadyExists (mf_name m) (mf_version m))
    | Inl e \<Rightarrow> (if e \<noteq> PackageAbsent then afail (RepoFailed e) else
        abind (aerr RepoFailed (save_payload dir (mf_name m) (mf_version m) body)) (\<lambda>_.
        abind (aerr RepoFailed (create_package (new_package sha d now m body builtin))) (\<lambda>_.
          aret (new_package sha d now m body builtin)))))"

definition builtin_name :: string where "builtin_name = ''trafficgen''"

definition capture_name :: string where "capture_name = ''capture''"

definition upload_package ::
  "(string \<Rightarrow> string) \<Rightarrow> (string \<Rightarrow> archive) \<Rightarrow> (string \<Rightarrow> string + manifest) \<Rightarrow> string \<Rightarrow> draw \<Rightarrow> nat \<Rightarrow> string \<Rightarrow> (package_repo, upload_error, package) act" where
  "upload_package sha untar parse dir d now body =
    (if body = [] then afail EmptyPayload
     else if length body > max_package_upload then afail UploadTooLarge
     else abind (alift (read_archive_manifest untar parse body)) (\<lambda>m.
       if mf_name m = builtin_name \<or> mf_name m = capture_name then afail (Reserved (mf_name m))
       else store_package sha dir d now m body False))"

definition delete_package :: "string \<Rightarrow> string \<Rightarrow> string \<Rightarrow> (package_repo, upload_error, unit) act" where
  "delete_package dir n v = abind (aerr RepoFailed (get_package n v)) (\<lambda>p.
     if pg_builtin p then afail (IsBuiltin n v)
     else abind (aerr RepoFailed (delete_payload dir n v)) (\<lambda>_. aerr RepoFailed (delete_row n v)))"

definition package_payload_path :: "string \<Rightarrow> string \<Rightarrow> string \<Rightarrow> string repo_act" where
  "package_payload_path dir n v = abind (get_package n v) (\<lambda>_. alift (payload_path dir n v))"

text \<open>The archive of a builtin package: the manifest and the executable.\<close>

definition archive_entry :: "string \<Rightarrow> string \<Rightarrow> tar_item \<times> string" where
  "archive_entry name body = (TarFile name (int (length body)), body)"

definition build_archive :: "(manifest \<Rightarrow> string + string) \<Rightarrow> ((tar_item \<times> string) list \<Rightarrow> string + string) \<Rightarrow> manifest \<Rightarrow> string \<Rightarrow> string + string" where
  "build_archive marshal tgz m binary = ebind (marshal m) (\<lambda>doc. tgz [archive_entry manifest_file_name doc, archive_entry (mf_entrypoint m) binary])"

text \<open>A builtin package; \<open>binary\<close> is the file under the binary directory, if it can be read.\<close>

definition register_one_builtin ::
  "(string \<Rightarrow> string) \<Rightarrow> (manifest \<Rightarrow> string + string) \<Rightarrow> ((tar_item \<times> string) list \<Rightarrow> string + string) \<Rightarrow> string \<Rightarrow> draw \<Rightarrow> nat \<Rightarrow> string option \<Rightarrow> manifest \<Rightarrow> (package_repo, upload_error, unit) act" where
  "register_one_builtin sha marshal tgz dir d now binary m = (case binary of None \<Rightarrow> aret ()
   | Some b \<Rightarrow> abind (alift (emap_err BuildFailed (build_archive marshal tgz m b))) (\<lambda>body.
      abind (atry (get_package (mf_name m) (mf_version m))) (\<lambda>g. case g of
        Inl e \<Rightarrow> (if e = PackageAbsent then abind (store_package sha dir d now m body True) (\<lambda>_. aret ()) else afail (RepoFailed e))
      | Inr p \<Rightarrow> (if pg_sha p = sha body then aret ()
          else abind (aerr RepoFailed (save_payload dir (mf_name m) (mf_version m) body)) (\<lambda>_.
            aerr RepoFailed (update_package now (p\<lparr>pg_sha := sha body, pg_size := int (length body)\<rparr>)))))))"

definition builtin_manifests :: "manifest list" where
  "builtin_manifests =
    [\<lparr>mf_name = builtin_name, mf_version = ''0.1.0'', mf_entrypoint = ''dcnetlab-trafficgen'',
      mf_description = ''builtin trafficgen: http/tcp/udp server and client modes'', mf_links = []\<rparr>,
     \<lparr>mf_name = capture_name, mf_version = ''0.1.0'', mf_entrypoint = ''dcnetlab-capture'',
      mf_description = ''builtin packet capture tool; switch images bake it in, servers install it from here'',
      mf_links = [''/opt/dcnetlab/bin/capture'', ''/usr/local/bin/capture'']\<rparr>]"

definition register_builtin ::
  "(string \<Rightarrow> string) \<Rightarrow> (manifest \<Rightarrow> string + string) \<Rightarrow> ((tar_item \<times> string) list \<Rightarrow> string + string) \<Rightarrow> string \<Rightarrow> (manifest \<Rightarrow> draw) \<Rightarrow> nat \<Rightarrow> string \<Rightarrow> (string \<Rightarrow> string option) \<Rightarrow> (package_repo, upload_error, unit) act" where
  "register_builtin sha marshal tgz dir d now bin_dir read =
    (if bin_dir = [] then aret ()
     else aeach (\<lambda>m. register_one_builtin sha marshal tgz dir (d m) now (read (path_join [bin_dir, mf_entrypoint m])) m) builtin_manifests)"

section \<open>The order of versions\<close>

definition version_sep :: "char \<Rightarrow> bool" where
  "version_sep c \<longleftrightarrow> c = CHR ''.'' \<or> c = CHR ''-'' \<or> c = CHR ''+''"

text \<open>\<open>strings.FieldsFunc\<close>: the runs of characters between separators.\<close>

fun version_fields_from :: "string \<Rightarrow> string \<Rightarrow> string list" where
  "version_fields_from cur [] = (if cur = [] then [] else [cur])"
| "version_fields_from cur (c # cs) = (if version_sep c then (if cur = [] then version_fields_from [] cs else cur # version_fields_from [] cs) else version_fields_from (cur @ [c]) cs)"

definition version_fields :: "string \<Rightarrow> string list" where "version_fields s = version_fields_from [] s"

text \<open>\<open>strconv.Atoi\<close> on a field, which has no sign.\<close>

definition atoi :: "string \<Rightarrow> int option" where
  "atoi s = (if s \<noteq> [] \<and> list_all is_digit s \<and> digits_val s < 2 ^ 63 then Some (int (digits_val s)) else None)"

definition string_compare :: "string \<Rightarrow> string \<Rightarrow> int" where
  "string_compare a b = (if a = b then 0 else if a < b then - 1 else 1)"

fun compare_fields :: "string list \<Rightarrow> string list \<Rightarrow> int option" where
  "compare_fields (a # as) (b # bs) = (case (atoi a, atoi b) of
     (Some m, Some n) \<Rightarrow> (if m \<noteq> n then Some (m - n) else compare_fields as bs)
   | _ \<Rightarrow> (if string_compare a b \<noteq> 0 then Some (string_compare a b) else compare_fields as bs))"
| "compare_fields _ _ = None"

definition compare_versions :: "string \<Rightarrow> string \<Rightarrow> int" where
  "compare_versions a b = (case compare_fields (version_fields a) (version_fields b) of Some c \<Rightarrow> c | None \<Rightarrow> int (length (version_fields a)) - int (length (version_fields b)))"

text \<open>The listing: by name, and by descending version. \<open>sort.Slice\<close> on at most twelve packages is this insertion
  sort; on more it gives the same list wherever the comparison is a strict order.\<close>

definition shown_before :: "package \<Rightarrow> package \<Rightarrow> bool" where
  "shown_before p q \<longleftrightarrow> (if package_name_of p \<noteq> package_name_of q then package_name_of p < package_name_of q else compare_versions (pg_version p) (pg_version q) > 0)"

fun sift :: "('a \<Rightarrow> 'a \<Rightarrow> bool) \<Rightarrow> 'a \<Rightarrow> 'a list \<Rightarrow> 'a list" where
  "sift lt x [] = [x]"
| "sift lt x (y # ys) = (if lt x y then y # sift lt x ys else x # y # ys)"

definition list_all_packages :: "package list repo_act" where
  "list_all_packages = abind all_packages (\<lambda>ps. aret (rev (foldl (\<lambda>acc p. sift shown_before p acc) [] ps)))"

end
