(* ===== verification/PackagesProps.thy ===== *)
theory PackagesProps
  imports Packages
begin

text \<open>
  The package repository: every package it lists can be served with the digest it promises, an uploaded package has the
  entrypoint that the agents look for, and the order of versions is the numeric one on dotted numbers.
\<close>

section \<open>What is stored can be served\<close>

definition valid_version :: "package \<Rightarrow> bool" where
  "valid_version p \<longleftrightarrow> name_ok (package_name_of p) \<and> version_ok (pg_version p)"

definition served :: "(string \<Rightarrow> string) \<Rightarrow> string \<Rightarrow> package_repo \<Rightarrow> package \<Rightarrow> bool" where
  "served sha dir r p \<longleftrightarrow> (\<exists>path body. payload_path dir (package_name_of p) (pg_version p) = Inr path \<and> rp_files r path = Some body \<and> sha body = pg_sha p)"

definition repo_ok :: "(string \<Rightarrow> string) \<Rightarrow> string \<Rightarrow> package_repo \<Rightarrow> bool" where
  "repo_ok sha dir r \<longleftrightarrow> list_all (\<lambda>p. valid_version p \<and> served sha dir r p) (rp_rows r) \<and> distinct (map (\<lambda>p. (package_name_of p, pg_version p)) (rp_rows r))"

text \<open>A repository with an archive of one program.\<close>

definition demo_manifest :: manifest where
  "demo_manifest = \<lparr>mf_name = ''web'', mf_version = ''1.0'', mf_entrypoint = ''bin/web'', mf_description = [], mf_links = []\<rparr>"

definition demo_untar :: "string \<Rightarrow> archive" where
  "demo_untar body = Inr [(TarFile ''./manifest.json'' 2, ''{}''), (TarDir ''bin'', []), (TarFile ''bin/web'' 3, ''elf'')]"

definition demo_repo :: package_repo where
  "demo_repo = \<lparr>rp_rows = [], rp_files = Map.empty, rp_io = []\<rparr>"

definition demo_upload :: "string option list \<Rightarrow> (upload_error + package) \<times> package_repo" where
  "demo_upload io = upload_package id demo_untar (\<lambda>_. Inr demo_manifest) ''/d'' (1, 0) 5 ''tgz'' (demo_repo\<lparr>rp_io := io\<rparr>)"

lemma demo_repo_ok: "repo_ok sha dir (demo_repo\<lparr>rp_io := io\<rparr>)"
  by (simp add: repo_ok_def demo_repo_def)

text \<open>The paths of archives are apart.\<close>

lemma name_char_plain: "name_char c \<Longrightarrow> c \<noteq> CHR ''/'' \<and> c \<noteq> CHR ''.''"
  by (auto simp: name_char_def)

lemma name_ok_plain: "name_ok s \<Longrightarrow> plain_name s"
proof -
  assume a: "name_ok s"
  then obtain c cs where s: "s = c # cs" "name_char c" "list_all (\<lambda>c. name_char c \<or> c = CHR ''-'') cs" by (cases s) (auto simp: name_ok_def)
  then have "CHR ''/'' \<notin> set s" using name_char_plain by (fastforce simp: list_all_iff)
  then show ?thesis using s name_char_plain [OF s(2)] by (auto simp: plain_name_def)
qed

lemma archive_name_plain: "version_ok v \<Longrightarrow> plain_name (v @ ''.tar.gz'')"
proof -
  assume a: "version_ok v"
  then obtain c cs where s: "v = c # cs" "alnum c" "list_all (\<lambda>c. alnum c \<or> c \<in> set ''.+_-'') cs" by (cases v) (auto simp: version_ok_def)
  have "c \<noteq> CHR ''/''" if "alnum c" for c using that name_char_plain by (auto simp: alnum_def)
  then have "CHR ''/'' \<notin> set v" using s by (fastforce simp: list_all_iff)
  then show ?thesis using s(1) by (auto simp: plain_name_def)
qed

lemma payload_path_of:
  assumes "name_ok n" "version_ok v"
  shows "payload_path dir n v = Inr (path_text (is_rooted dir) (elements dir @ [''packages'', n, v @ ''.tar.gz'']))"
proof -
  let ?es = "[''packages'', n, v @ ''.tar.gz'']"
  have plain: "list_all plain_name ?es" using name_ok_plain [OF assms(1)] archive_name_plain [OF assms(2)] by (simp add: plain_name_def)
  note f = plain_join_facts [OF _ plain]
  have "path_join ?es = path_clean (join ''/'' ?es)" by (simp add: path_join_def)
  then have "path_join ?es = join ''/'' ?es" using f(3) by simp
  then show ?thesis using f(1,2) path_join_local [of "join ''/'' ?es" dir] by (simp add: payload_path_def Let_def)
qed

lemma path_elements_no_slash: "e \<in> set (elements p) \<Longrightarrow> CHR ''/'' \<notin> set e"
  using elements_subset [of p] split_slash_no_slash [of e p] by auto

lemma payload_path_inj:
  assumes "name_ok n" "version_ok v" "name_ok n'" "version_ok v'" "payload_path dir n v = payload_path dir n' v'"
  shows "n = n' \<and> v = v'"
proof -
  have v: "CHR ''/'' \<notin> set v" "CHR ''/'' \<notin> set v'" "CHR ''/'' \<notin> set n" "CHR ''/'' \<notin> set n'"
    using name_ok_plain [OF assms(1)] name_ok_plain [OF assms(3)] archive_name_plain [OF assms(2)] archive_name_plain [OF assms(4)]
    by (simp_all add: plain_name_def)
  have eq: "path_text (is_rooted dir) (elements dir @ [''packages'', n, v @ ''.tar.gz'']) = path_text (is_rooted dir) (elements dir @ [''packages'', n', v' @ ''.tar.gz''])"
    using assms(5) payload_path_of [OF assms(1,2)] payload_path_of [OF assms(3,4)] by simp
  have "[''packages'', n, v @ ''.tar.gz''] = [''packages'', n', v' @ ''.tar.gz'']"
    by (rule path_text_inj [OF eq]) (use v path_elements_no_slash in \<open>auto simp del: append_eq_append_conv\<close>)
  then show ?thesis by simp
qed

lemma repo_call_ok: "repo_call f r = (Inr x, r') \<longleftrightarrow> (rp_io r = [] \<or> hd (rp_io r) = None) \<and> f (r\<lparr>rp_io := tl (rp_io r)\<rparr>) = Inr (x, r')"
  by (auto simp: repo_call_def Let_def split: list.splits option.splits sum.splits prod.splits)

text \<open>A call that fails leaves rows and files.\<close>

lemma repo_call_error: "repo_call f r = (Inl e, r') \<Longrightarrow> rp_rows r' = rp_rows r \<and> rp_files r' = rp_files r"
  by (auto simp: repo_call_def Let_def split: list.splits option.splits sum.splits prod.splits)

lemma repo_ok_same: "rp_rows r' = rp_rows r \<Longrightarrow> rp_files r' = rp_files r \<Longrightarrow> repo_ok sha dir r' = repo_ok sha dir r"
  by (simp add: repo_ok_def served_def)

lemma get_package_ok: "get_package n v r = (Inr p, r') \<Longrightarrow> p \<in> set (rp_rows r) \<and> is_version n v p \<and> rp_rows r' = rp_rows r \<and> rp_files r' = rp_files r"
  by (auto simp: get_package_def repo_call_ok find_Some_iff split: option.splits)

lemma get_package_missing: "get_package n v r = (Inl PackageAbsent, r') \<Longrightarrow> \<forall>p \<in> set (rp_rows r). \<not> is_version n v p"
  by (auto simp: get_package_def repo_call_def Let_def find_None_iff split: list.splits option.splits sum.splits prod.splits)

lemma get_package_state: "get_package n v r = (x, r') \<Longrightarrow> rp_rows r' = rp_rows r \<and> rp_files r' = rp_files r"
proof (cases x)
  case (Inl e)
  assume "get_package n v r = (x, r')"
  then show ?thesis unfolding Inl get_package_def by (rule repo_call_error)
qed (use get_package_ok in blast)

lemma save_payload_state:
  assumes "save_payload dir n v body r = (x, r')"
  shows "rp_rows r' = rp_rows r" "rp_files r' = rp_files r \<or> (\<exists>p. payload_path dir n v = Inr p \<and> rp_files r' = (rp_files r)(p \<mapsto> body))"
    "x = Inr () \<longrightarrow> (\<exists>p. payload_path dir n v = Inr p \<and> rp_files r' = (rp_files r)(p \<mapsto> body))"
proof -
  have "rp_rows r' = rp_rows r \<and> (rp_files r' = rp_files r \<or> (\<exists>p. payload_path dir n v = Inr p \<and> rp_files r' = (rp_files r)(p \<mapsto> body))) \<and>
    (x = Inr () \<longrightarrow> (\<exists>p. payload_path dir n v = Inr p \<and> rp_files r' = (rp_files r)(p \<mapsto> body)))"
    using assms by (auto simp: save_payload_def abind_def alift_def repo_call_def Let_def split: sum.splits list.splits option.splits prod.splits)
  then show "rp_rows r' = rp_rows r" "rp_files r' = rp_files r \<or> (\<exists>p. payload_path dir n v = Inr p \<and> rp_files r' = (rp_files r)(p \<mapsto> body))"
    "x = Inr () \<longrightarrow> (\<exists>p. payload_path dir n v = Inr p \<and> rp_files r' = (rp_files r)(p \<mapsto> body))" by blast+
qed

text \<open>Writing the archive of one version keeps what the other versions serve.\<close>

lemma served_other:
  assumes "served sha dir r p" "valid_version p" "name_ok n" "version_ok v" "\<not> is_version n v p"
    and "payload_path dir n v = Inr path" "rp_files r' = (rp_files r)(path := f)"
  shows "served sha dir r' p"
proof -
  obtain q body where q: "payload_path dir (package_name_of p) (pg_version p) = Inr q" "rp_files r q = Some body" "sha body = pg_sha p"
    using assms(1) by (auto simp: served_def)
  have "q \<noteq> path"
  proof
    assume "q = path"
    then have "payload_path dir (package_name_of p) (pg_version p) = payload_path dir n v" using q(1) assms(6) by simp
    then have "is_version n v p" using payload_path_inj assms(2,3,4) unfolding valid_version_def is_version_def by blast
    then show False using assms(5) by simp
  qed
  then show ?thesis using q assms(7) by (auto simp: served_def)
qed

lemma read_archive_manifest_valid:
  assumes "read_archive_manifest untar parse body = Inr m"
  shows "name_ok (mf_name m)" "version_ok (mf_version m)" "is_local (mf_entrypoint m)"
    "\<exists>es files x. untar body = Inr es \<and> scan_archive parse es (None, []) = Inr (x, files) \<and> path_clean (mf_entrypoint m) \<in> set files"
  using assms by (auto simp: read_archive_manifest_def validate_manifest_def ebind_def split: sum.splits option.splits if_splits)

lemma create_package_state:
  "create_package p r = (x, r') \<Longrightarrow> rp_files r' = rp_files r \<and> (if x = Inr () then rp_rows r' = rp_rows r @ [p] else rp_rows r' = rp_rows r)"
  by (auto simp: create_package_def repo_call_def Let_def split: list.splits option.splits sum.splits prod.splits if_splits)

lemma repo_ok_store:
  assumes ok: "repo_ok sha dir r" and nv: "name_ok n" "version_ok v" and new: "\<forall>p \<in> set (rp_rows r). \<not> is_version n v p"
    and path: "payload_path dir n v = Inr path" "rp_files r' = (rp_files r)(path \<mapsto> body)"
    and p: "package_name_of p = n" "pg_version p = v" "pg_sha p = sha body"
  shows "rp_rows r' = rp_rows r \<Longrightarrow> repo_ok sha dir r'" "rp_rows r' = rp_rows r @ [p] \<Longrightarrow> repo_ok sha dir r'"
proof -
  have old: "valid_version q \<and> served sha dir r' q" if "q \<in> set (rp_rows r)" for q
  proof -
    have "valid_version q" "served sha dir r q" using ok that by (auto simp: repo_ok_def list_all_iff)
    then show ?thesis using served_other [OF _ _ nv _ path] new that by blast
  qed
  have "valid_version p \<and> served sha dir r' p" using p nv path by (auto simp: valid_version_def served_def)
  moreover have "(n, v) \<notin> set (map (\<lambda>p. (package_name_of p, pg_version p)) (rp_rows r))" using new by (auto simp: is_version_def)
  ultimately show "rp_rows r' = rp_rows r @ [p] \<Longrightarrow> repo_ok sha dir r'" using old ok p by (auto simp: repo_ok_def list_all_iff)
  show "rp_rows r' = rp_rows r \<Longrightarrow> repo_ok sha dir r'" using old ok by (auto simp: repo_ok_def list_all_iff)
qed

lemma store_package_keeps:
  assumes "repo_ok sha dir r" "name_ok (mf_name m)" "version_ok (mf_version m)" "store_package sha dir d now m body b r = (x, r')"
  shows "repo_ok sha dir r'"
proof -
  let ?p = "new_package sha d now m body b"
  obtain g r1 where g: "get_package (mf_name m) (mf_version m) r = (g, r1)" by force
  note s1 = get_package_state [OF g]
  have ok1: "repo_ok sha dir r1" using assms(1) s1 repo_ok_same by blast
  show ?thesis
  proof (cases "g = Inl PackageAbsent")
    case False
    then have "r' = r1" using assms(4) g by (auto simp: store_package_def abind_def atry_def afail_def split: sum.splits if_splits)
    then show ?thesis using ok1 by simp
  next
    case True
    have new: "\<forall>p \<in> set (rp_rows r1). \<not> is_version (mf_name m) (mf_version m) p" using get_package_missing g True s1 by simp
    obtain y r2 where y: "save_payload dir (mf_name m) (mf_version m) body r1 = (y, r2)" by force
    note s2 = save_payload_state [OF y]
    note st = repo_ok_store [OF ok1 assms(2,3) new, of _ _ body ?p]
    have p: "package_name_of ?p = mf_name m" "pg_version ?p = mf_version m" "pg_sha ?p = sha body" by (simp_all add: new_package_def)
    show ?thesis
    proof (cases y)
      case (Inl e)
      then have "r' = r2" using assms(4) g True y by (auto simp: store_package_def abind_def atry_def aerr_def split: sum.splits)
      then show ?thesis using s2(1,2) st(1) p ok1 repo_ok_same by metis
    next
      case (Inr u)
      obtain z r3 where z: "create_package ?p r2 = (z, r3)" by force
      have "r' = r3" using assms(4) g True y z Inr by (auto simp: store_package_def abind_def atry_def aerr_def aret_def split: sum.splits)
      moreover obtain path where path: "payload_path dir (mf_name m) (mf_version m) = Inr path" "rp_files r2 = (rp_files r1)(path \<mapsto> body)"
        using s2(3) Inr by auto
      moreover have "rp_files r3 = rp_files r2" "rp_rows r3 = rp_rows r1 \<or> rp_rows r3 = rp_rows r1 @ [?p]"
        using create_package_state [OF z] s2(1) by (auto split: if_splits)
      ultimately show ?thesis using st [OF path(1), of r3] p by metis
    qed
  qed
qed

lemma upload_package_keeps:
  assumes "repo_ok sha dir r" "upload_package sha untar parse dir d now body r = (x, r')"
  shows "repo_ok sha dir r'"
proof (cases "body = [] \<or> length body > max_package_upload")
  case True
  then have "upload_package sha untar parse dir d now body = afail (if body = [] then EmptyPayload else UploadTooLarge)" by (auto simp: upload_package_def)
  then have "r' = r" using assms(2) by (simp add: afail_def)
  then show ?thesis using assms(1) by simp
next
  case False
  then have up: "upload_package sha untar parse dir d now body r = abind (alift (read_archive_manifest untar parse body)) (\<lambda>m.
       if mf_name m = builtin_name \<or> mf_name m = capture_name then afail (Reserved (mf_name m)) else store_package sha dir d now m body False) r"
    unfolding upload_package_def by simp
  show ?thesis
  proof (cases "read_archive_manifest untar parse body")
    case (Inl e)
    then have "r' = r" using assms(2) up by (simp add: abind_def alift_def)
    then show ?thesis using assms(1) by simp
  next
    case (Inr m)
    have st: "r' = r \<or> store_package sha dir d now m body False r = (x, r')" using assms(2) up Inr by (auto simp: abind_def alift_def afail_def split: if_splits)
    then show ?thesis using store_package_keeps [OF assms(1) read_archive_manifest_valid(1,2) [OF Inr]] assms(1) by blast
  qed
qed

lemma stored_package_is_listed:
  assumes "store_package sha dir d now m body b r = (Inr p, r')"
  shows "p \<in> set (rp_rows r') \<and> p = new_package sha d now m body b"
proof -
  let ?p = "new_package sha d now m body b"
  obtain g r1 where g: "get_package (mf_name m) (mf_version m) r = (g, r1)" by force
  show ?thesis
  proof (cases "g = Inl PackageAbsent")
    case True
    obtain r2 where "create_package ?p r2 = (Inr (), r')" "p = ?p"
      using assms g True by (auto simp: store_package_def simp del: split_paired_Ex)
    then show ?thesis using create_package_state by fastforce
  next
    case False
    then show ?thesis using assms g by (auto simp: store_package_def abind_def atry_def afail_def split: sum.splits if_splits)
  qed
qed

lemma deleted_package:
  assumes "repo_ok sha dir r" "delete_package dir n v r = (Inr (), r')"
  shows "repo_ok sha dir r' \<and> rp_rows r' = filter (\<lambda>p. \<not> is_version n v p) (rp_rows r)"
proof -
  obtain p r1 r2 where g: "get_package n v r = (Inr p, r1)" and d: "delete_payload dir n v r1 = (Inr (), r2)" and e: "delete_row n v r2 = (Inr (), r')"
    using assms(2) by (auto simp: delete_package_def split: if_splits)
  note s1 = get_package_ok [OF g]
  obtain path where s2: "payload_path dir n v = Inr path" "rp_rows r2 = rp_rows r1" "rp_files r2 = (rp_files r1)(path := None)"
    using d by (auto simp: delete_payload_def repo_call_ok)
  have s3: "rp_rows r' = filter (\<lambda>p. \<not> is_version n v p) (rp_rows r2)" "rp_files r' = rp_files r2"
    using e by (auto simp: delete_row_def repo_call_ok split: if_splits)
  have rows: "rp_rows r' = filter (\<lambda>p. \<not> is_version n v p) (rp_rows r)" using s1 s2 s3 by simp
  have files: "rp_files r' = (rp_files r)(path := None)" using s1 s2 s3 by simp
  have nv: "name_ok n" "version_ok v" using s1 assms(1) by (auto simp: repo_ok_def list_all_iff valid_version_def is_version_def)
  have "valid_version q \<and> served sha dir r' q" if "q \<in> set (rp_rows r')" for q
  proof -
    have q: "q \<in> set (rp_rows r)" "\<not> is_version n v q" using that rows by auto
    then have "valid_version q" "served sha dir r q" using assms(1) by (auto simp: repo_ok_def list_all_iff)
    then show ?thesis using served_other [OF _ _ nv q(2) s2(1) files] by blast
  qed
  moreover have "distinct (map (\<lambda>p. (package_name_of p, pg_version p)) (rp_rows r'))"
    using assms(1) rows by (simp add: repo_ok_def distinct_map_filter)
  ultimately show ?thesis using rows by (simp add: repo_ok_def list_all_iff)
qed

text \<open>C27: Whatever fails on the way, an upload leaves a repository in which every listed version is stored once, under a valid
  name, with an archive that has the listed digest; so does a deletion that succeeds, which removes just that version.\<close>
theorem listed_packages_are_served:
  assumes "repo_ok sha dir r"
  shows "repo_ok sha dir (snd (upload_package sha untar parse dir d now body r)) \<and>
    (delete_package dir n v r = (Inr (), r') \<longrightarrow> repo_ok sha dir r' \<and> rp_rows r' = filter (\<lambda>p. \<not> is_version n v p) (rp_rows r))"
  using upload_package_keeps [OF assms prod.collapse [symmetric]] deleted_package [OF assms] by blast

theorem listed_packages_are_served_witness:
  "let r = snd (demo_upload []); r' = snd (demo_upload [None, None, Some ''disk full'']) in
     repo_ok id ''/d'' r \<and> map package_name_of (rp_rows r) = [''web''] \<and> repo_ok id ''/d'' r' \<and> rp_rows r' = [] \<and>
     repo_ok id ''/d'' (snd (delete_package ''/d'' ''web'' ''1.0'' r)) \<and> rp_rows (snd (delete_package ''/d'' ''web'' ''1.0'' r)) = []"
proof -
  let ?r = "snd (demo_upload [])"
  have up: "repo_ok id ''/d'' (snd (demo_upload io))" for io
    using listed_packages_are_served [OF demo_repo_ok] unfolding demo_upload_def by blast
  have c: "map package_name_of (rp_rows ?r) = [''web'']" "rp_rows (snd (demo_upload [None, None, Some ''disk full''])) = []" by code_simp+
  have "fst (delete_package ''/d'' ''web'' ''1.0'' ?r) = Inr ()" by code_simp
  then have "delete_package ''/d'' ''web'' ''1.0'' ?r = (Inr (), snd (delete_package ''/d'' ''web'' ''1.0'' ?r))" by (metis prod.collapse)
  with listed_packages_are_served [OF up] have "repo_ok id ''/d'' (snd (delete_package ''/d'' ''web'' ''1.0'' ?r))" by blast
  moreover have "rp_rows (snd (delete_package ''/d'' ''web'' ''1.0'' ?r)) = []" by code_simp
  ultimately show ?thesis using up c by (simp add: Let_def)
qed

section \<open>What an agent unpacks\<close>

lemma scan_archive_unpacked:
  assumes "scan_archive parse es (m, fs) = Inr (m', fs')" "unpack_items w (map fst es) t gs = Inr gs'" "\<forall>f \<in> set fs. f = ''.'' \<or> f \<in> set gs"
  shows "\<forall>f \<in> set fs'. f = ''.'' \<or> f \<in> set gs'"
  using assms
proof (induction es arbitrary: m fs t gs)
  case Nil
  then show ?case by simp
next
  case (Cons e es)
  obtain it body where e: "e = (it, body)" by force
  show ?case
  proof (cases it)
    case (TarFile raw sz)
    obtain m1 fs1 where m1: "scan_archive parse es (m1, fs1) = Inr (m', fs')" "fs1 = (if is_local (path_clean raw) then fs @ [path_clean raw] else fs)"
      using Cons.prems(1) by (auto simp: e TarFile Let_def split: if_splits sum.splits)
    obtain t1 gs1 where g1: "unpack_items w (map fst es) t1 gs1 = Inr gs'" "gs1 = (if path_clean raw = ''.'' then gs else gs @ [path_clean raw])"
      using Cons.prems(2) by (auto simp: e TarFile Let_def split: if_splits)
    have "\<forall>f \<in> set fs1. f = ''.'' \<or> f \<in> set gs1" using Cons.prems(3) unfolding m1(2) g1(2) by auto
    then show ?thesis by (rule Cons.IH [OF m1(1) g1(1)])
  next
    case (TarDir raw)
    then show ?thesis using Cons.IH [of m fs] Cons.prems by (auto simp: e Let_def split: if_splits)
  next
    case (TarOther raw)
    then show ?thesis using Cons.IH [of m fs] Cons.prems by (auto simp: e Let_def split: if_splits)
  next
    case (TarBroken x)
    then show ?thesis using Cons.prems by (simp add: e)
  qed
qed

text \<open>When the controller accepts an archive and an agent can unpack it, the program's executable, the entrypoint of the manifest,
  is among the files the agent wrote, so an install of that package does not fail on a missing executable.\<close>
theorem uploaded_entrypoint_is_unpacked:
  assumes "fst (upload_package sha untar parse dir d now body r) = Inr p" "untar body = Inr es"
    and "ia_untar ia body = Inr (map fst es)" "unpack ia body = Inr files" "path_clean (pg_entrypoint p) \<noteq> ''.''"
  shows "path_clean (pg_entrypoint p) \<in> set files \<and> is_local (pg_entrypoint p)"
proof -
  obtain m where m: "read_archive_manifest untar parse body = Inr m" "store_package sha dir d now m body False r = (Inr p, snd (upload_package sha untar parse dir d now body r))"
    using assms(1) by (cases "upload_package sha untar parse dir d now body r")
      (auto simp: upload_package_def split: if_splits)
  then have e: "pg_entrypoint p = mf_entrypoint m" using stored_package_is_listed [OF m(2)] by (simp add: new_package_def)
  obtain x fs where x: "scan_archive parse es (None, []) = Inr (x, fs)" "path_clean (mf_entrypoint m) \<in> set fs"
    using read_archive_manifest_valid(4) [OF m(1)] assms(2) by auto
  have "unpack_items (ia_writable ia) (map fst es) 0 [] = Inr files" using assms(3,4) by (simp add: unpack_def)
  from scan_archive_unpacked [OF x(1) this] x(2) assms(5) e show ?thesis using read_archive_manifest_valid(3) [OF m(1)] by auto
qed

definition demo_agent :: install_answers where
  "demo_agent = \<lparr>ia_http = Answer 200 ''tgz'' None, ia_temp = True, ia_untar = (\<lambda>b. case demo_untar b of Inl e \<Rightarrow> Inl e | Inr es \<Rightarrow> Inr (map fst es)), ia_writable = (\<lambda>_. True),
     ia_chmod = True, ia_marker = True, ia_rename = True, ia_mkdir = (\<lambda>_. True), ia_symlink = (\<lambda>_. True), ia_base = (\<lambda>_. None), ia_now = 9\<rparr>"

theorem uploaded_entrypoint_is_unpacked_witness:
  "\<exists>p. fst (demo_upload []) = Inr p \<and> unpack demo_agent ''tgz'' = Inr [''manifest.json'', ''bin/web''] \<and> path_clean (pg_entrypoint p) \<in> {''manifest.json'', ''bin/web''}"
proof -
  obtain p where p: "fst (demo_upload []) = Inr p" "pg_entrypoint p = ''bin/web''"
  proof -
    have "(case fst (demo_upload []) of Inl _ \<Rightarrow> False | Inr p \<Rightarrow> pg_entrypoint p = ''bin/web'')" by code_simp
    then show ?thesis using that by (cases "fst (demo_upload [])") auto
  qed
  have u: "unpack demo_agent ''tgz'' = Inr [''manifest.json'', ''bin/web'']" by code_simp
  obtain es where es: "demo_untar ''tgz'' = Inr es" "ia_untar demo_agent ''tgz'' = Inr (map fst es)" by (simp add: demo_untar_def demo_agent_def)
  have e: "path_clean (pg_entrypoint p) \<noteq> ''.''" unfolding p(2) by code_simp
  from uploaded_entrypoint_is_unpacked [OF p(1) [unfolded demo_upload_def] es u e] p u show ?thesis by auto
qed

text \<open>An archive with a symbolic link is accepted by the controller, and refused by every agent.\<close>

theorem links_are_accepted_then_refused:
  "(let es = (TarOther ''bin/latest'', []) # projr (demo_untar []) in
     (case fst (upload_package id (\<lambda>_. Inr es) (\<lambda>_. Inr demo_manifest) ''/d'' (1, 0) 5 ''tgz'' demo_repo) of Inl _ \<Rightarrow> False | Inr p \<Rightarrow> pg_entrypoint p = ''bin/web'') \<and>
     unpack_items (\<lambda>_. True) (map fst es) 0 [] = Inl (UnsupportedEntry ''bin/latest''))"
  by code_simp

text \<open>The archive of a builtin package is one the upload check accepts, with the same manifest.\<close>

lemma builtin_archive_reads_back:
  assumes "build_archive marshal tgz m binary = Inr body" "marshal m = Inr doc" "length doc \<le> 1048576" "parse doc = Inr m"
    and "\<forall>es b. tgz es = Inr b \<longrightarrow> untar b = Inr es"
    and m: "name_ok (mf_name m)" "version_ok (mf_version m)" "is_local (mf_entrypoint m)" "path_clean (mf_entrypoint m) = mf_entrypoint m"
      "mf_entrypoint m \<noteq> []" "mf_entrypoint m \<noteq> manifest_file_name"
  shows "read_archive_manifest untar parse body = Inr m"
proof -
  have "untar body = Inr [archive_entry manifest_file_name doc, archive_entry (mf_entrypoint m) binary]"
    using assms(1,2,5) by (simp add: build_archive_def ebind_def)
  moreover have "path_clean manifest_file_name = manifest_file_name" "is_local manifest_file_name" by code_simp+
  ultimately show ?thesis
    using m assms(3,4) by (simp add: read_archive_manifest_def archive_entry_def ebind_def validate_manifest_def)
qed

lemma builtin_manifests_valid:
  "list_all (\<lambda>m. name_ok (mf_name m) \<and> version_ok (mf_version m) \<and> is_local (mf_entrypoint m) \<and> path_clean (mf_entrypoint m) = mf_entrypoint m \<and>
     mf_entrypoint m \<noteq> [] \<and> mf_entrypoint m \<noteq> manifest_file_name) builtin_manifests"
  by code_simp

lemma builtin_archives_read_back:
  assumes "m \<in> set builtin_manifests" "build_archive marshal tgz m binary = Inr body" "marshal m = Inr doc" "length doc \<le> 1048576" "parse doc = Inr m"
    and "\<forall>es b. tgz es = Inr b \<longrightarrow> untar b = Inr es"
  shows "read_archive_manifest untar parse body = Inr m"
  using builtin_archive_reads_back [of marshal tgz m binary body doc parse untar] assms builtin_manifests_valid by (auto simp: list_all_iff)

section \<open>The order of versions\<close>

definition numeric_version :: "nat list \<Rightarrow> string" where
  "numeric_version ns = join ''.'' (map show_nat ns)"

text \<open>The order of lists of numbers that the comment of \<open>compareVersions\<close> describes.\<close>

fun numbers_compare :: "nat list \<Rightarrow> nat list \<Rightarrow> int" where
  "numbers_compare (a # as) (b # bs) = (if a \<noteq> b then int a - int b else numbers_compare as bs)"
| "numbers_compare as bs = int (length as) - int (length bs)"

lemma version_fields_from_plain:
  "list_all (\<lambda>c. \<not> version_sep c) xs \<Longrightarrow> version_fields_from cur (xs @ rest) = version_fields_from (cur @ xs) rest"
  by (induction xs arbitrary: cur) auto

lemma show_nat_no_sep: "list_all (\<lambda>c. \<not> version_sep c) (show_nat n)"
  using show_nat_digits [of n] by (auto simp: list_all_iff version_sep_def is_digit_def)

lemma fields_numeric: "version_fields (numeric_version ns) = map show_nat ns"
proof -
  have "version_fields_from [] (join ''.'' (map show_nat ns)) = map show_nat ns"
  proof (induction ns)
    case Nil
    then show ?case by simp
  next
    case (Cons n ns)
    then show ?case
      using version_fields_from_plain [OF show_nat_no_sep [of n], of "[]"] version_fields_from_plain [OF show_nat_no_sep [of n], of "[]" "[]"]
      by (cases ns) (auto simp: version_sep_def)
  qed
  then show ?thesis by (simp add: version_fields_def numeric_version_def)
qed

lemma atoi_show_nat: "n < 2 ^ 63 \<Longrightarrow> atoi (show_nat n) = Some (int n)"
  using show_nat_digits [of n] by (simp add: atoi_def list_all_iff)

lemma compare_fields_numeric:
  assumes "list_all (\<lambda>n. n < 2 ^ 63) as" "list_all (\<lambda>n. n < 2 ^ 63) bs"
  shows "(case compare_fields (map show_nat as) (map show_nat bs) of Some c \<Rightarrow> c | None \<Rightarrow> int (length as) - int (length bs)) = numbers_compare as bs"
  using assms
proof (induction as bs rule: numbers_compare.induct)
  case (1 a as b bs)
  then show ?case by (auto simp del: show_nat.simps simp: atoi_show_nat split: option.splits)
qed simp_all

text \<open>On versions that are numbers between dots, the order of the listing is the numeric one (1.10.0 comes after 1.9.0, and a longer
  version after its prefix).\<close>
theorem numeric_versions_compare_as_numbers:
  assumes "list_all (\<lambda>n. n < 2 ^ 63) as" "list_all (\<lambda>n. n < 2 ^ 63) bs"
  shows "compare_versions (numeric_version as) (numeric_version bs) = numbers_compare as bs"
  using compare_fields_numeric [OF assms] unfolding compare_versions_def fields_numeric length_map .

theorem numeric_versions_compare_as_numbers_witness:
  "compare_versions ''1.10.0'' ''1.9.0'' = 1"
proof -
  have "numeric_version [1, 10, 0] = ''1.10.0''" "numeric_version [1, 9, 0] = ''1.9.0''" by code_simp+
  then show ?thesis using numeric_versions_compare_as_numbers [of "[1, 10, 0]" "[1, 9, 0]"] by simp
qed

text \<open>With letters the comparison is no order: there are cycles, so the listing depends on the sorting algorithm.\<close>

theorem versions_can_cycle:
  "compare_versions ''1a'' ''2'' < 0 \<and> compare_versions ''2'' ''10'' < 0 \<and> compare_versions ''10'' ''1a'' < 0"
  by code_simp

end
