(* ===== verification/ProgramAgent.thy ===== *)
theory ProgramAgent
  imports Packages AgentHost
begin

text \<open>
  The controller's client of the node agents (controller/internal/data/agent.go) and its program rows
  (data/program.go): the state the program usecase works on, and one action per call. \<open>pw_net\<close> are the answers of
  the network to the coming requests: a request is delivered, is lost before the agent sees it, or is carried out
  and its reply is lost.
\<close>

section \<open>State\<close>

datatype driver_error = NotSupported | DriverFailed string

datatype agent_fault = Unreachable string | AgentRefused manager_error | PackageRefused package_error

datatype program_error = BadProgramName string | NoServerGiven | NoSuchRow string | StoreFailed string store_error
  | PackageUnknown string string repo_error | BadPolicy string | BadType string | OneshotRestarts
  | BadCheckPort string int | BadCheckType string string | NodeNotServer string node_role | NameTaken string
  | NothingCreated string program_error | NotDeployedYet string | NoAddress driver_error | NoGateway driver_error
  | DeliveryDisabled | DeliveryFailed string string agent_fault | DefinitionRefused agent_fault | AgentFailed agent_fault
  | UpgradeNotStarted agent_fault | NotStarted agent_fault | NotReachable program_error | ContextDone
  | NotRestored string string program_error | BadBatchOp string | NoProgramGiven | NoServersIn string | BadRange int int

datatype net_answer = Delivered | Lost string | ReplyLost string

record prog_world =
  pw_store :: store
  pw_repo :: package_repo
  pw_hosts :: "string \<Rightarrow> agent_host"
  pw_net :: "net_answer list"
  pw_now :: nat
  pw_pauses :: "nat list"
  pw_drawn :: nat

text \<open>What the usecase is given: the runtime driver's addresses (which do not change during a request), the port of the
  package repository (0 when it is disabled), SHA-256, what the agents' downloads and disks answer, the random parts
  of identifiers, the texts of errors, and when the request's context is cancelled.\<close>

record program_env =
  u_addr :: "string \<Rightarrow> string \<Rightarrow> driver_error + string"
  u_gateway :: "string \<Rightarrow> string \<Rightarrow> driver_error + string"
  u_repo_port :: int
  u_sha :: "string \<Rightarrow> string"
  u_fetch :: "string \<Rightarrow> package_ref \<Rightarrow> install_answers"
  u_draw :: "nat \<Rightarrow> draw"
  u_text :: "program_error \<Rightarrow> string"
  u_failure :: "failure \<Rightarrow> string"
  u_cancelled :: "nat \<Rightarrow> bool"

type_synonym 'a usecase = "(prog_world, program_error, 'a) act"

definition aget :: "('s \<Rightarrow> 'a) \<Rightarrow> ('s, 'e, 'a) act" where "aget f s = (Inr (f s), s)"

definition pdb :: "string \<Rightarrow> (store_error, 'a) db \<Rightarrow> 'a usecase" where
  "pdb ctx m w = (case m (pw_store w) of (r, s) \<Rightarrow> (emap_err (StoreFailed ctx) r, w\<lparr>pw_store := s\<rparr>))"

definition find_package :: "string \<Rightarrow> string \<Rightarrow> package usecase" where
  "find_package n v w = (case get_package n v (pw_repo w) of (r, p) \<Rightarrow> (emap_err (PackageUnknown n v) r, w\<lparr>pw_repo := p\<rparr>))"

definition draw_program_id :: "program_env \<Rightarrow> string usecase" where
  "draw_program_id u w = (Inr (new_id ''prog'' (u_draw u (pw_drawn w))), w\<lparr>pw_drawn := Suc (pw_drawn w)\<rparr>)"

section \<open>Rows\<close>

definition insert_program :: "program \<Rightarrow> (store_error, unit) db" where
  "insert_program p = db_call (\<lambda>s.
     if list_ex (\<lambda>r. row_id r = meta_id (p_meta p) \<or> (row_scope r = p_lab (p_spec p) \<and> row_name r = program_name p \<and>
         server_name (p_spec (row_doc r)) = server_name (p_spec p))) (t_programs s) then Inl ConstraintFailed
     else Inr ((), s\<lparr>t_programs := t_programs s @ [\<lparr>row_id = meta_id (p_meta p), row_scope = p_lab (p_spec p), row_name = program_name p, row_doc = p\<rparr>]\<rparr>))"

definition touch_program :: "nat \<Rightarrow> program \<Rightarrow> program" where
  "touch_program now p = p\<lparr>p_meta := (p_meta p)\<lparr>updated_at := now\<rparr>\<rparr>"

definition update_program :: "program \<Rightarrow> (store_error, unit) db" where
  "update_program p = db_call (\<lambda>s. ebind (update_doc (meta_id (p_meta p)) p (t_programs s)) (\<lambda>t. Inr ((), s\<lparr>t_programs := t\<rparr>)))"

definition delete_program_row :: "string \<Rightarrow> (store_error, unit) db" where
  "delete_program_row i = db_call (\<lambda>s. if list_ex (\<lambda>r. row_id r = i) (t_programs s)
     then Inr ((), s\<lparr>t_programs := filter (\<lambda>r. row_id r \<noteq> i) (t_programs s)\<rparr>) else Inl RowMissing)"

definition get_program :: "string \<Rightarrow> (store_error, program) db" where
  "get_program i = db_call (\<lambda>s. case get_doc i (t_programs s) of Inl e \<Rightarrow> Inl e | Inr d \<Rightarrow> Inr (d, s))"

text \<open>\<open>UpdateProgram\<close> stamps the object it is given, which the callers return.\<close>

definition save_program :: "program \<Rightarrow> program usecase" where
  "save_program p = abind (aget pw_now) (\<lambda>now. abind (pdb ''update program'' (update_program (touch_program now p))) (\<lambda>_. aret (touch_program now p)))"

section \<open>The wire\<close>

definition trunc_div :: "int \<Rightarrow> int \<Rightarrow> int" where
  "trunc_div a b = sgn a * sgn b * (\<bar>a\<bar> div \<bar>b\<bar>)"

definition int32 :: "int \<Rightarrow> int" where "int32 i = signed_take_bit 31 i"

definition second :: int where "second = 1000000000"

text \<open>A check travels in whole seconds.\<close>

definition wire_check :: "health_check \<Rightarrow> agent_check" where
  "wire_check hc = \<lparr>c_type = hc_type hc, c_port = int32 (hc_port hc), c_path = hc_path hc, c_interval = int32 (trunc_div (hc_interval hc) second) * second,
     c_timeout = int32 (trunc_div (hc_timeout hc) second) * second, c_threshold = int32 (failure_threshold hc)\<rparr>"

definition wire_spec :: "program \<Rightarrow> agent_spec" where
  "wire_spec p = \<lparr>as_name = program_name p, as_package = package_name (p_spec p), as_version = package_version (p_spec p), as_entrypoint = entrypoint (p_spec p),
     as_args = p_args (p_spec p), as_policy = restart_policy (p_spec p), as_type = p_type (p_spec p), as_auto = auto_start (p_spec p),
     as_live = map_option wire_check (liveness_check (p_spec p)), as_ready = map_option wire_check (readiness_check (p_spec p)), as_order = int32 (startup_order (p_spec p))\<rparr>"

definition wire_state :: "agent_state \<Rightarrow> program_state" where
  "wire_state s = (case s of StateUnset \<Rightarrow> ProgramStateUnset | StateConfigured \<Rightarrow> ProgramStateConfigured | StateRunning \<Rightarrow> ProgramStateRunning
     | StateStopped \<Rightarrow> ProgramStateStopped | StateFailed \<Rightarrow> ProgramStateFailed | StateExited \<Rightarrow> ProgramStateExited)"

definition wire_health :: "agent_health \<Rightarrow> string" where
  "wire_health h = (case h of HealthUnset \<Rightarrow> [] | HealthUnknown \<Rightarrow> ''Unknown'' | HealthHealthy \<Rightarrow> ''Healthy'' | HealthUnhealthy \<Rightarrow> ''Unhealthy'')"

definition status_from_pb :: "program_env \<Rightarrow> agent_program \<Rightarrow> program_status" where
  "status_from_pb u a = \<lparr>ps_state = wire_state (ap_state a), ps_pid = int32 (int (ap_pid a)), ps_restarts = int32 (int (ap_restarts a)),
     ps_last_error = (case ap_last_err a of None \<Rightarrow> [] | Some f \<Rightarrow> u_failure u f), ps_health = wire_health (ap_health a), ps_ready = ap_ready a,
     ps_started = ap_started a, ps_observed = 0\<rparr>"

section \<open>Requests\<close>

definition rpc :: "string \<Rightarrow> (agent_host \<Rightarrow> (agent_fault + 'a) \<times> agent_host) \<Rightarrow> (prog_world, agent_fault, 'a) act" where
  "rpc addr f w = (case f (pw_hosts w addr) of (r, h) \<Rightarrow> (case pw_net w of
     Lost m # q \<Rightarrow> (Inl (Unreachable m), w\<lparr>pw_net := q\<rparr>)
   | ReplyLost m # q \<Rightarrow> (Inl (Unreachable m), w\<lparr>pw_net := q, pw_hosts := (pw_hosts w)(addr := h)\<rparr>)
   | q \<Rightarrow> (r, w\<lparr>pw_net := tl q, pw_hosts := (pw_hosts w)(addr := h)\<rparr>)))"

definition on_agent :: "('e \<Rightarrow> agent_fault) \<Rightarrow> ('a \<Rightarrow> 'b) \<Rightarrow> (agent_host \<Rightarrow> ('e + 'a) \<times> agent_host) \<Rightarrow> agent_host \<Rightarrow> (agent_fault + 'b) \<times> agent_host" where
  "on_agent g k f h = (case f h of (Inl e, h') \<Rightarrow> (Inl (g e), h') | (Inr x, h') \<Rightarrow> (Inr (k x), h'))"

definition agent_install_package :: "program_env \<Rightarrow> string \<Rightarrow> package_ref \<Rightarrow> (prog_world, agent_fault, unit) act" where
  "agent_install_package u addr pr = rpc addr (on_agent PackageRefused id (host_install_package (u_sha u) (u_fetch u addr pr) pr))"

definition agent_install :: "string \<Rightarrow> program \<Rightarrow> (prog_world, agent_fault, unit) act" where
  "agent_install addr p = rpc addr (on_agent AgentRefused (\<lambda>_. ()) (host_install (wire_spec p)))"

definition agent_start :: "program_env \<Rightarrow> string \<Rightarrow> string \<Rightarrow> (prog_world, agent_fault, program_status) act" where
  "agent_start u addr nm = rpc addr (on_agent AgentRefused (status_from_pb u) (host_start nm))"

definition agent_stop :: "program_env \<Rightarrow> string \<Rightarrow> string \<Rightarrow> (prog_world, agent_fault, program_status) act" where
  "agent_stop u addr nm = rpc addr (on_agent AgentRefused (status_from_pb u) (host_stop nm))"

definition agent_remove :: "string \<Rightarrow> string \<Rightarrow> (prog_world, agent_fault, unit) act" where
  "agent_remove addr nm = rpc addr (on_agent AgentRefused id (host_remove nm))"

definition agent_list :: "program_env \<Rightarrow> string \<Rightarrow> (prog_world, agent_fault, string \<Rightarrow> program_status option) act" where
  "agent_list u addr = rpc addr (\<lambda>h. (Inr (map_of (rev (map (\<lambda>a. (as_name (ap_spec a), status_from_pb u a)) (host_list h)))), h))"

definition agent_list_programs :: "string \<Rightarrow> (prog_world, agent_fault, agent_program list) act" where
  "agent_list_programs addr = rpc addr (\<lambda>h. (Inr (host_list h), h))"

definition agent_list_packages :: "string \<Rightarrow> (prog_world, agent_fault, installed_package list) act" where
  "agent_list_packages addr = rpc addr (\<lambda>h. (Inr (list_packages (ah_store h)), h))"

end
