(* ===== verification/ProgramUsecase.thy ===== *)
theory ProgramUsecase
  imports ProgramAgent
begin

text \<open>
  controller/internal/biz/program.go: programs declared on the servers of a lab, whose desired state the controller
  keeps and pushes to the node agents. An agent keeps only the running incarnation.
\<close>

section \<open>Checks\<close>

definition valid_health_check :: "string \<Rightarrow> health_check option \<Rightarrow> program_error option" where
  "valid_health_check what hc = (case hc of None \<Rightarrow> None
   | Some c \<Rightarrow> (if hc_type c = ''process'' then None
       else if hc_type c \<in> set port_checks then (if hc_port c \<le> 0 \<or> hc_port c > 65535 then Some (BadCheckPort what (hc_port c)) else None)
       else Some (BadCheckType what (hc_type c))))"

definition checked_policy :: "program_spec \<Rightarrow> program_error + program_spec" where
  "checked_policy sp = (if restart_policy sp \<in> set restart_policies then Inr sp
     else if restart_policy sp = [] then Inr (sp\<lparr>restart_policy := ''Never''\<rparr>) else Inl (BadPolicy (restart_policy sp)))"

definition checked_type :: "program_spec \<Rightarrow> program_error + program_spec" where
  "checked_type sp = (if p_type sp \<in> set program_types then Inr sp
     else if p_type sp = [] then Inr (sp\<lparr>p_type := ''simple''\<rparr>) else Inl (BadType (p_type sp)))"

definition checked_program :: "program_spec \<Rightarrow> program_error + program_spec" where
  "checked_program sp = ebind (checked_policy sp) (\<lambda>sp. ebind (checked_type sp) (\<lambda>sp.
     if p_type sp = ''oneshot'' \<and> restart_policy sp = ''Always'' then Inl OneshotRestarts
     else case valid_health_check ''liveness'' (liveness_check sp) of Some e \<Rightarrow> Inl e
     | None \<Rightarrow> (case valid_health_check ''readiness'' (readiness_check sp) of Some e \<Rightarrow> Inl e | None \<Rightarrow> Inr sp)))"

section \<open>Reaching an agent\<close>

definition agent_addr :: "program_env \<Rightarrow> string \<Rightarrow> string \<Rightarrow> string usecase" where
  "agent_addr u ln sn = alift (emap_err NoAddress (u_addr u ln sn))"

text \<open>\<open>net.JoinHostPort\<close>.\<close>

definition join_host_port :: "string \<Rightarrow> int \<Rightarrow> string" where
  "join_host_port h p = (if CHR '':'' \<in> set h \<or> CHR ''%'' \<in> set h then ''['' @ h @ '']:'' else h @ '':'') @ show_int p"

definition package_url :: "string \<Rightarrow> int \<Rightarrow> string \<Rightarrow> string \<Rightarrow> string" where
  "package_url gw port n v = ''http://'' @ join_host_port gw port @ ''/packages/'' @ n @ ''/'' @ v"

definition agent_package :: "program_env \<Rightarrow> string \<Rightarrow> string \<Rightarrow> string \<Rightarrow> string \<Rightarrow> package_ref usecase" where
  "agent_package u lid sn n v = (if u_repo_port u = 0 then afail DeliveryDisabled
     else abind (find_package n v) (\<lambda>pkg. abind (pdb ''get lab'' (get_lab lid)) (\<lambda>lb.
       abind (alift (emap_err NoGateway (u_gateway u (meta_name (lab_meta lb)) sn))) (\<lambda>gw.
         aret \<lparr>pr_name = package_name_of pkg, pr_version = pg_version pkg, pr_sha = pg_sha pkg,
           pr_url = package_url gw (u_repo_port u) (package_name_of pkg) (pg_version pkg), pr_entrypoint = pg_entrypoint pkg, pr_links = pg_links pkg\<rparr>))))"

definition ensure_on_agent :: "program_env \<Rightarrow> string \<Rightarrow> string \<Rightarrow> program \<Rightarrow> unit usecase" where
  "ensure_on_agent u lid addr p =
    abind (agent_package u lid (server_name (p_spec p)) (package_name (p_spec p)) (package_version (p_spec p))) (\<lambda>pr.
    abind (aerr (DeliveryFailed (pr_name pr) (pr_version pr)) (agent_install_package u addr pr)) (\<lambda>_.
      aerr DefinitionRefused (agent_install addr p)))"

definition observed_now :: "program_status \<Rightarrow> program_status usecase" where
  "observed_now st = abind (aget pw_now) (\<lambda>now. aret (st\<lparr>ps_observed := now\<rparr>))"

definition unset_status :: program_status where
  "unset_status = \<lparr>ps_state = ProgramStateUnset, ps_pid = 0, ps_restarts = 0, ps_last_error = [], ps_health = [], ps_ready = False, ps_started = 0, ps_observed = 0\<rparr>"

definition status_of :: "program_state \<Rightarrow> program_status" where
  "status_of s = unset_status\<lparr>ps_state := s\<rparr>"

text \<open>\<open>programAgent\<close>: the program, or nothing when the lab has no such program, and its agent's address.\<close>

definition resolve_agent :: "program_env \<Rightarrow> string \<Rightarrow> program \<Rightarrow> (program_error + string) usecase" where
  "resolve_agent u lid p = abind (atry (pdb ''get lab'' (get_lab lid))) (\<lambda>g. aret (ebind g (\<lambda>lb.
     if generation (lab_meta lb) = 0 then Inl (NotDeployedYet (meta_name (lab_meta lb)))
     else emap_err NoAddress (u_addr u (meta_name (lab_meta lb)) (server_name (p_spec p))))))"

definition program_agent :: "program_env \<Rightarrow> string \<Rightarrow> string \<Rightarrow> (program \<times> (program_error + string)) usecase" where
  "program_agent u lid i = abind (pdb ''get program'' (get_program i)) (\<lambda>p.
     if p_lab (p_spec p) \<noteq> lid then afail (NoSuchRow i) else abind (resolve_agent u lid p) (\<lambda>a. aret (p, a)))"

section \<open>Creating programs\<close>

definition new_program_on :: "string \<Rightarrow> nat \<Rightarrow> lab \<Rightarrow> string \<Rightarrow> program_spec \<Rightarrow> node \<Rightarrow> package \<Rightarrow> bool \<Rightarrow> program" where
  "new_program_on i now lb nm sp server pkg on =
    \<lparr>p_meta = \<lparr>meta_id = i, meta_name = nm, generation = 0, observed_generation = 0, phase = PhaseUnset, last_error = None, created_at = now, updated_at = now\<rparr>,
     p_spec = sp\<lparr>p_lab := meta_id (lab_meta lb), server_id := node_id server, server_name := node_name server, entrypoint := pg_entrypoint pkg,
       desired_state := if on \<and> p_type sp \<noteq> ''oneshot'' then ProgramDesiredRunning else ProgramDesiredStopped\<rparr>,
     p_status = status_of ProgramStateUnknown\<rparr>"

definition deploy_created :: "program_env \<Rightarrow> lab \<Rightarrow> program \<Rightarrow> bool \<Rightarrow> program_status usecase" where
  "deploy_created u lb p on = (let failed = (\<lambda>s e. aret ((status_of s)\<lparr>ps_last_error := u_text u e\<rparr>)) in
    abind (atry (agent_addr u (meta_name (lab_meta lb)) (server_name (p_spec p)))) (\<lambda>a. case a of Inl e \<Rightarrow> failed ProgramStateUnknown e
    | Inr addr \<Rightarrow> abind (atry (ensure_on_agent u (meta_id (lab_meta lb)) addr p)) (\<lambda>r. case r of Inl e \<Rightarrow> failed ProgramStateUnknown e
      | Inr _ \<Rightarrow> (if \<not> on then observed_now (status_of ProgramStateConfigured)
          else abind (atry (agent_start u addr (program_name p))) (\<lambda>r. case r of Inl e \<Rightarrow> failed ProgramStateFailed (AgentFailed e)
            | Inr st \<Rightarrow> observed_now st)))))"

definition create_one :: "program_env \<Rightarrow> lab \<Rightarrow> string \<Rightarrow> program_spec \<Rightarrow> node \<Rightarrow> package \<Rightarrow> bool \<Rightarrow> program usecase" where
  "create_one u lb nm sp server pkg on = abind (aget pw_now) (\<lambda>now. abind (draw_program_id u) (\<lambda>i.
     let p = new_program_on i now lb nm sp server pkg on in
     abind (pdb ''persist program'' (insert_program p)) (\<lambda>_.
     if generation (lab_meta lb) > 0 then abind (deploy_created u lb p on) (\<lambda>st. save_program (p\<lparr>p_status := st\<rparr>)) else aret p)))"

record server_install =
  si_id :: string
  si_name :: string
  si_err :: "program_error option"

text \<open>The loop over the servers: the programs created, the failures, and the error that ended it.\<close>

type_synonym creation = "program list \<times> server_install list \<times> program_error option"

fun create_on :: "program_env \<Rightarrow> lab \<Rightarrow> string \<Rightarrow> program_spec \<Rightarrow> package \<Rightarrow> bool \<Rightarrow> (string \<Rightarrow> node option) \<Rightarrow> string list \<Rightarrow> string set
    \<Rightarrow> program list \<Rightarrow> server_install list \<Rightarrow> prog_world \<Rightarrow> creation \<times> prog_world" where
  "create_on u lb nm sp pkg on by_id [] taken ps fs w = ((ps, fs, None), w)"
| "create_on u lb nm sp pkg on by_id (i # is) taken ps fs w = (case by_id i of
     None \<Rightarrow> create_on u lb nm sp pkg on by_id is taken ps (fs @ [\<lparr>si_id = i, si_name = [], si_err = Some (NoSuchRow i)\<rparr>]) w
   | Some n \<Rightarrow> (if n_role n \<noteq> RoleServer then
         create_on u lb nm sp pkg on by_id is taken ps (fs @ [\<lparr>si_id = i, si_name = node_name n, si_err = Some (NodeNotServer (node_name n) (n_role n))\<rparr>]) w
       else if node_name n \<in> taken then
         create_on u lb nm sp pkg on by_id is taken ps (fs @ [\<lparr>si_id = i, si_name = node_name n, si_err = Some (NameTaken nm)\<rparr>]) w
       else (case create_one u lb nm sp n pkg on w of (Inl e, w') \<Rightarrow> ((ps, fs, Some e), w')
         | (Inr p, w') \<Rightarrow> create_on u lb nm sp pkg on by_id is (insert (node_name n) taken) (ps @ [p]) fs w')))"

definition nodes_by_id :: "node list \<Rightarrow> string \<Rightarrow> node option" where
  "nodes_by_id ns = map_of (rev (map (\<lambda>n. (node_id n, n)) ns))"

definition creation_result :: "creation \<Rightarrow> creation" where
  "creation_result c = (case c of (ps, fs, Some e) \<Rightarrow> (ps, fs, Some e)
   | (ps, fs, None) \<Rightarrow> (case (ps, fs) of ([], f # _) \<Rightarrow> ([], [], Some (case si_err f of Some e \<Rightarrow> NothingCreated (si_name f) e | None \<Rightarrow> NoServerGiven))
     | _ \<Rightarrow> (ps, fs, None)))"

definition creation_inputs :: "program_env \<Rightarrow> string \<Rightarrow> string \<Rightarrow> program_spec \<Rightarrow> string list \<Rightarrow> (program_spec \<times> package \<times> lab \<times> node list \<times> program list) usecase" where
  "creation_inputs u lid nm sp ids =
    abind (aguard (name_ok nm) (BadProgramName nm)) (\<lambda>_. abind (aguard (ids \<noteq> []) NoServerGiven) (\<lambda>_.
    abind (find_package (package_name sp) (package_version sp)) (\<lambda>pkg. abind (alift (checked_program sp)) (\<lambda>sp.
    abind (pdb ''get lab'' (get_lab lid)) (\<lambda>lb. abind (pdb ''list nodes'' (list_nodes lid)) (\<lambda>ns.
    abind (pdb ''list programs'' (list_programs lid)) (\<lambda>ps. aret (sp, pkg, lb, ns, ps))))))))"

definition create_program :: "program_env \<Rightarrow> string \<Rightarrow> string \<Rightarrow> program_spec \<Rightarrow> string list \<Rightarrow> bool \<Rightarrow> prog_world \<Rightarrow> creation \<times> prog_world" where
  "create_program u lid nm sp ids on w = (case creation_inputs u lid nm sp ids w of (Inl e, w') \<Rightarrow> (([], [], Some e), w')
   | (Inr (sp, pkg, lb, ns, known), w') \<Rightarrow>
      (case create_on u lb nm sp pkg on (nodes_by_id ns) ids ((\<lambda>p. server_name (p_spec p)) ` set (filter (\<lambda>p. program_name p = nm) known)) [] [] w' of
         (c, w'') \<Rightarrow> (creation_result c, w'')))"

end
