(* ===== verification/ProgramOps.thy ===== *)
theory ProgramOps
  imports ProgramUsecase
begin

text \<open>
  controller/internal/biz/program.go, continued: starting, stopping, upgrading and deleting programs, the batch of
  these, the status refresh, and what an apply calls: restoring programs on fresh agents, pruning those of removed
  servers and delivering packages.
\<close>

section \<open>Power\<close>

definition switch_program :: "program_env \<Rightarrow> string \<Rightarrow> string \<Rightarrow> bool \<Rightarrow> program usecase" where
  "switch_program u lid i on = abind (program_agent u lid i) (\<lambda>(p, a). abind (alift a) (\<lambda>addr.
     abind (if on then abind (ensure_on_agent u lid addr p) (\<lambda>_. aerr AgentFailed (agent_start u addr (program_name p)))
       else aerr AgentFailed (agent_stop u addr (program_name p))) (\<lambda>st.
     abind (observed_now st) (\<lambda>st.
       save_program (p\<lparr>p_spec := (p_spec p)\<lparr>desired_state := if on \<and> p_type (p_spec p) \<noteq> ''oneshot'' then ProgramDesiredRunning else ProgramDesiredStopped\<rparr>,
         p_status := st\<rparr>)))))"

definition start_program :: "program_env \<Rightarrow> string \<Rightarrow> string \<Rightarrow> program usecase" where
  "start_program u lid i = switch_program u lid i True"

definition stop_program :: "program_env \<Rightarrow> string \<Rightarrow> string \<Rightarrow> program usecase" where
  "stop_program u lid i = switch_program u lid i False"

section \<open>Upgrade\<close>

definition upgraded :: "string \<Rightarrow> package \<Rightarrow> program \<Rightarrow> program" where
  "upgraded v pkg p = p\<lparr>p_spec := (p_spec p)\<lparr>package_version := v, entrypoint := pg_entrypoint pkg\<rparr>\<rparr>"

definition upgrade_on_agent :: "program_env \<Rightarrow> lab \<Rightarrow> program \<Rightarrow> program_status usecase" where
  "upgrade_on_agent u lb p = abind (agent_addr u (meta_name (lab_meta lb)) (server_name (p_spec p))) (\<lambda>addr.
     abind (atry (agent_stop u addr (program_name p))) (\<lambda>_.
     abind (ensure_on_agent u (meta_id (lab_meta lb)) addr p) (\<lambda>_.
     abind (if desired_state (p_spec p) = ProgramDesiredRunning then aerr UpgradeNotStarted (agent_start u addr (program_name p))
       else aret (status_of ProgramStateConfigured)) observed_now)))"

definition upgrade_program :: "program_env \<Rightarrow> string \<Rightarrow> string \<Rightarrow> string \<Rightarrow> program usecase" where
  "upgrade_program u lid i v = abind (pdb ''get program'' (get_program i)) (\<lambda>p.
     if p_lab (p_spec p) \<noteq> lid then afail (NoSuchRow i)
     else if v = package_version (p_spec p) then aret p
     else abind (find_package (package_name (p_spec p)) v) (\<lambda>pkg. abind (pdb ''get lab'' (get_lab lid)) (\<lambda>lb.
       if generation (lab_meta lb) > 0 then abind (upgrade_on_agent u lb (upgraded v pkg p)) (\<lambda>st. save_program ((upgraded v pkg p)\<lparr>p_status := st\<rparr>))
       else save_program (upgraded v pkg p))))"

section \<open>Deletion and batches\<close>

definition delete_program :: "program_env \<Rightarrow> string \<Rightarrow> string \<Rightarrow> unit usecase" where
  "delete_program u lid i = abind (program_agent u lid i) (\<lambda>(p, a).
     abind (case a of Inl _ \<Rightarrow> aret () | Inr addr \<Rightarrow> abind (atry (agent_remove addr (program_name p))) (\<lambda>_. aret ())) (\<lambda>_.
       pdb [] (delete_program_row i)))"

record op_outcome =
  oo_id :: string
  oo_name :: string
  oo_err :: "program_error option"

definition batch_op :: "program_env \<Rightarrow> string \<Rightarrow> (string \<Rightarrow> string \<Rightarrow> unit usecase) option" where
  "batch_op u op = (if op = ''start'' then Some (\<lambda>lid i. abind (start_program u lid i) (\<lambda>_. aret ()))
     else if op = ''stop'' then Some (\<lambda>lid i. abind (stop_program u lid i) (\<lambda>_. aret ()))
     else if op = ''delete'' then Some (delete_program u) else None)"

fun batch_outcomes :: "(string \<Rightarrow> unit usecase) \<Rightarrow> string list \<Rightarrow> op_outcome list usecase" where
  "batch_outcomes f [] = aret []"
| "batch_outcomes f (i # is) = abind (atry (pdb [] (get_program i))) (\<lambda>g. abind (atry (f i)) (\<lambda>r. abind (batch_outcomes f is) (\<lambda>os.
     aret (\<lparr>oo_id = i, oo_name = (case g of Inl _ \<Rightarrow> [] | Inr p \<Rightarrow> program_name p), oo_err = (case r of Inl e \<Rightarrow> Some e | Inr _ \<Rightarrow> None)\<rparr> # os))))"

definition batch_program_op :: "program_env \<Rightarrow> string \<Rightarrow> string \<Rightarrow> string list \<Rightarrow> op_outcome list usecase" where
  "batch_program_op u lid op ids = (case batch_op u op of None \<Rightarrow> afail (BadBatchOp op)
     | Some f \<Rightarrow> (if ids = [] then afail NoProgramGiven else batch_outcomes (f lid) ids))"

section \<open>Status refresh\<close>

text \<open>Go visits the servers in an order of its own; here it is the order of their first program.\<close>

definition refresh_program :: "(string \<Rightarrow> program_status option) \<Rightarrow> program \<Rightarrow> program usecase" where
  "refresh_program infos p = (case infos (program_name p) of None \<Rightarrow> aret (p\<lparr>p_status := (p_status p)\<lparr>ps_state := ProgramStateUnknown\<rparr>\<rparr>)
   | Some st \<Rightarrow> abind (observed_now st) (\<lambda>st. abind (aget pw_now) (\<lambda>now. let p' = p\<lparr>p_status := st\<rparr> in
       abind (atry (save_program p')) (\<lambda>_. aret (touch_program now p')))))"

fun refresh_group :: "(string \<Rightarrow> program_status option) \<Rightarrow> string \<Rightarrow> program list \<Rightarrow> program list usecase" where
  "refresh_group infos sn [] = aret []"
| "refresh_group infos sn (p # ps) = abind (if server_name (p_spec p) = sn then refresh_program infos p else aret p) (\<lambda>p'.
     abind (refresh_group infos sn ps) (\<lambda>ps'. aret (p' # ps')))"

definition refresh_server :: "program_env \<Rightarrow> lab \<Rightarrow> program list \<Rightarrow> string \<Rightarrow> program list usecase" where
  "refresh_server u lb ps sn = (case u_addr u (meta_name (lab_meta lb)) sn of Inl _ \<Rightarrow> aret ps
   | Inr addr \<Rightarrow> abind (atry (agent_list u addr)) (\<lambda>r. case r of Inl _ \<Rightarrow> aret ps | Inr infos \<Rightarrow> refresh_group infos sn ps))"

fun refresh_servers :: "program_env \<Rightarrow> lab \<Rightarrow> string list \<Rightarrow> program list \<Rightarrow> program list usecase" where
  "refresh_servers u lb [] ps = aret ps"
| "refresh_servers u lb (sn # sns) ps = abind (refresh_server u lb ps sn) (refresh_servers u lb sns)"

definition refresh_status :: "program_env \<Rightarrow> lab \<Rightarrow> program list \<Rightarrow> program list usecase" where
  "refresh_status u lb ps = refresh_servers u lb (remdups (map (\<lambda>p. server_name (p_spec p)) ps)) ps"

definition list_lab_programs :: "program_env \<Rightarrow> string \<Rightarrow> program list usecase" where
  "list_lab_programs u lid = abind (pdb [] (list_programs lid)) (\<lambda>ps. if ps = [] then aret ps
     else abind (pdb ''get lab'' (get_lab lid)) (\<lambda>lb. if generation (lab_meta lb) > 0 then refresh_status u lb ps else aret ps))"

section \<open>Waiting for an agent\<close>

text \<open>A call is tried again every second until the deadline or the end of the context. \<open>pw_pauses\<close> are the seconds the
  coming attempts take.\<close>

definition spend :: "unit usecase" where
  "spend w = (Inr (), w\<lparr>pw_now := pw_now w + (case pw_pauses w of [] \<Rightarrow> 0 | d # _ \<Rightarrow> d), pw_pauses := tl (pw_pauses w)\<rparr>)"

function retry :: "('e \<Rightarrow> program_error) \<Rightarrow> (nat \<Rightarrow> bool) \<Rightarrow> nat \<Rightarrow> (prog_world, 'e, unit) act \<Rightarrow> unit usecase" where
  "retry late cancelled deadline f w = (case f w of (Inr _, w') \<Rightarrow> spend w'
   | (Inl e, w') \<Rightarrow> (let w1 = snd (spend w'); t = max (pw_now w) (pw_now w1) in
       if t > deadline then (Inl (late e), w1)
       else if cancelled (Suc t) then (Inl ContextDone, w1)
       else retry late cancelled deadline f (w1\<lparr>pw_now := Suc t\<rparr>)))"
  by pat_completeness auto

termination
  by (relation "measure (\<lambda>(_, _, deadline, _, w). Suc deadline - pw_now w)") (auto simp: Let_def)

declare retry.simps [simp del]

definition agent_restore_timeout :: nat where "agent_restore_timeout = 30"

section \<open>Restoring after a deploy\<close>

definition restore_one :: "program_env \<Rightarrow> lab \<Rightarrow> program \<Rightarrow> program usecase" where
  "restore_one u lb p = abind (agent_addr u (meta_name (lab_meta lb)) (server_name (p_spec p))) (\<lambda>addr. abind (aget pw_now) (\<lambda>now.
     abind (retry NotReachable (u_cancelled u) (now + agent_restore_timeout) (ensure_on_agent u (meta_id (lab_meta lb)) addr p)) (\<lambda>_.
     abind (if desired_state (p_spec p) = ProgramDesiredRunning \<or> auto_start (p_spec p) then aerr NotStarted (agent_start u addr (program_name p))
       else aret (status_of ProgramStateConfigured)) (\<lambda>st. abind (observed_now st) (\<lambda>st. aret (p\<lparr>p_status := st\<rparr>))))))"

definition servers_by_name :: "node list \<Rightarrow> string \<Rightarrow> node option" where
  "servers_by_name ns = map_of (rev (map (\<lambda>n. (node_name n, n)) ns))"

definition restore_program :: "program_env \<Rightarrow> lab \<Rightarrow> node list \<Rightarrow> program \<Rightarrow> unit usecase" where
  "restore_program u lb ns p = (case servers_by_name ns (server_name (p_spec p)) of None \<Rightarrow> aret ()
   | Some n \<Rightarrow> (if n_role n \<noteq> RoleServer then aret ()
       else abind (aerr (NotRestored (program_name p) (server_name (p_spec p))) (restore_one u lb (p\<lparr>p_spec := (p_spec p)\<lparr>server_id := node_id n\<rparr>\<rparr>))) (\<lambda>p'.
         abind (save_program p') (\<lambda>_. aret ()))))"

definition restore_order :: "program list \<Rightarrow> program list" where
  "restore_order = sort_key (\<lambda>p. (startup_order (p_spec p), program_name p))"

definition restore_programs :: "program_env \<Rightarrow> lab \<Rightarrow> node list \<Rightarrow> unit usecase" where
  "restore_programs u lb ns = abind (pdb ''list programs'' (list_programs (meta_id (lab_meta lb)))) (\<lambda>ps. aeach (restore_program u lb ns) (restore_order ps))"

definition prune_server_programs :: "string \<Rightarrow> string list \<Rightarrow> unit usecase" where
  "prune_server_programs lid removed = abind (pdb ''list programs'' (list_programs lid)) (\<lambda>ps.
     aeach (\<lambda>p. if server_name (p_spec p) \<in> set removed then pdb ''delete program'' (delete_program_row (meta_id (p_meta p))) else aret ()) ps)"

section \<open>Delivering packages\<close>

definition install_capture_on :: "program_env \<Rightarrow> lab \<Rightarrow> node \<Rightarrow> unit usecase" where
  "install_capture_on u lb n = (if n_role n \<noteq> RoleServer then aret ()
     else abind (agent_addr u (meta_name (lab_meta lb)) (node_name n)) (\<lambda>addr.
       abind (agent_package u (meta_id (lab_meta lb)) (node_name n) capture_name ''0.1.0'') (\<lambda>pr. abind (aget pw_now) (\<lambda>now.
         retry (DeliveryFailed capture_name ''0.1.0'') (u_cancelled u) (now + agent_restore_timeout) (agent_install_package u addr pr)))))"

definition install_capture_tool :: "program_env \<Rightarrow> lab \<Rightarrow> node list \<Rightarrow> unit usecase" where
  "install_capture_tool u lb ns = abind (atry (find_package capture_name ''0.1.0'')) (\<lambda>r. case r of Inl _ \<Rightarrow> aret ()
     | Inr _ \<Rightarrow> aeach (install_capture_on u lb) ns)"

definition deliver_package :: "program_env \<Rightarrow> lab \<Rightarrow> string \<Rightarrow> string \<Rightarrow> string \<Rightarrow> unit usecase" where
  "deliver_package u lb sn n v = abind (agent_addr u (meta_name (lab_meta lb)) sn) (\<lambda>addr.
     abind (agent_package u (meta_id (lab_meta lb)) sn n v) (\<lambda>pr. aerr (DeliveryFailed n v) (agent_install_package u addr pr)))"

definition delivery_targets :: "node list \<Rightarrow> string list \<Rightarrow> program_error + node list" where
  "delivery_targets ns ids = (let servers = filter (\<lambda>n. n_role n = RoleServer) ns in if ids = [] then Inr servers
     else efold (\<lambda>ts i. case nodes_by_id servers i of None \<Rightarrow> Inl (NoSuchRow i) | Some n \<Rightarrow> Inr (ts @ [n])) [] ids)"

fun deliver_all :: "(node \<Rightarrow> unit usecase) \<Rightarrow> node list \<Rightarrow> server_install list usecase" where
  "deliver_all f [] = aret []"
| "deliver_all f (n # ns) = abind (atry (f n)) (\<lambda>r. abind (deliver_all f ns) (\<lambda>rs.
     aret (\<lparr>si_id = node_id n, si_name = node_name n, si_err = (case r of Inl e \<Rightarrow> Some e | Inr _ \<Rightarrow> None)\<rparr> # rs)))"

definition install_package_on_servers :: "program_env \<Rightarrow> string \<Rightarrow> string \<Rightarrow> string \<Rightarrow> string list \<Rightarrow> server_install list usecase" where
  "install_package_on_servers u lid n v ids = abind (find_package n v) (\<lambda>_. abind (pdb ''get lab'' (get_lab lid)) (\<lambda>lb.
     abind (aguard (generation (lab_meta lb) \<noteq> 0) (NotDeployedYet (meta_name (lab_meta lb)))) (\<lambda>_. abind (pdb ''list nodes'' (list_nodes lid)) (\<lambda>ns.
     abind (alift (delivery_targets ns ids)) (\<lambda>ts. abind (aguard (ts \<noteq> []) (NoServersIn (meta_name (lab_meta lb)))) (\<lambda>_.
       deliver_all (\<lambda>t. deliver_package u lb (node_name t) n v) ts))))))"

section \<open>Views of one server\<close>

definition server_node :: "string \<Rightarrow> string \<Rightarrow> node usecase" where
  "server_node lid i = abind (pdb ''list nodes'' (list_nodes lid)) (\<lambda>ns. case find (\<lambda>n. node_id n = i) ns of None \<Rightarrow> afail (NoSuchRow i)
     | Some n \<Rightarrow> (if n_role n \<noteq> RoleServer then afail (NodeNotServer (node_name n) (n_role n)) else aret n))"

definition node_inventory :: "program_env \<Rightarrow> string \<Rightarrow> string \<Rightarrow> (installed_package list \<times> (agent_program \<times> bool) list) usecase" where
  "node_inventory u lid i = abind (server_node lid i) (\<lambda>n. abind (pdb ''get lab'' (get_lab lid)) (\<lambda>lb.
     abind (aguard (generation (lab_meta lb) \<noteq> 0) (NotDeployedYet (meta_name (lab_meta lb)))) (\<lambda>_.
     abind (agent_addr u (meta_name (lab_meta lb)) (node_name n)) (\<lambda>addr. abind (aerr AgentFailed (agent_list_packages addr)) (\<lambda>pkgs.
     abind (aerr AgentFailed (agent_list_programs addr)) (\<lambda>as. abind (pdb ''list programs'' (list_programs lid)) (\<lambda>known.
       let managed = map program_name (filter (\<lambda>p. server_name (p_spec p) = node_name n) known) in
       aret (pkgs, map (\<lambda>a. (a, as_name (ap_spec a) \<in> set managed)) as))))))))"

text \<open>The window of a history request, in nanoseconds; a time that is not given is \<open>None\<close>.\<close>

definition history_window :: "int \<Rightarrow> int option \<Rightarrow> int option \<Rightarrow> program_error + int \<times> int" where
  "history_window now from until = (let e = (case until of None \<Rightarrow> now | Some e \<Rightarrow> e); s = (case from of None \<Rightarrow> e - 1800 * second | Some s \<Rightarrow> s) in
     if s < e then Inr (s, e) else Inl (BadRange s e))"

definition node_metrics_history :: "(string \<Rightarrow> string \<Rightarrow> int \<times> int \<Rightarrow> 'a list) \<Rightarrow> string \<Rightarrow> string \<Rightarrow> int \<Rightarrow> int option \<Rightarrow> int option \<Rightarrow> 'a list usecase" where
  "node_metrics_history query lid i now from until = abind (server_node lid i) (\<lambda>n. abind (alift (history_window now from until)) (\<lambda>r. aret (query lid (node_name n) r)))"

end
