(* ===== verification/ProgramFrame.thy ===== *)
theory ProgramFrame
  imports ProgramOps
begin

text \<open>
  What the requests of the program usecase touch: the programs of an agent by name, and the program rows. Every
  request to an agent keeps the agent's contract (\<open>program_host\<close>), so the facts about one program on one agent
  carry over to whole requests.
\<close>

section \<open>Agents\<close>

definition world_ok :: "prog_world \<Rightarrow> bool" where
  "world_ok w \<longleftrightarrow> (\<forall>a. host_ok (pw_hosts w a))"

definition program_defined :: "prog_world \<Rightarrow> string \<Rightarrow> string \<Rightarrow> agent_spec option" where
  "program_defined w a n = defined_in (ah_mgr (pw_hosts w a)) n"

definition program_running :: "prog_world \<Rightarrow> string \<Rightarrow> string \<Rightarrow> bool" where
  "program_running w a n = running_in (ah_mgr (pw_hosts w a)) n"

text \<open>Only the programs of a set may differ.\<close>

definition apart :: "(string \<times> string) set \<Rightarrow> prog_world \<Rightarrow> prog_world \<Rightarrow> bool" where
  "apart S w w' \<longleftrightarrow> (world_ok w \<longrightarrow> world_ok w' \<and>
     (\<forall>a n. (a, n) \<notin> S \<longrightarrow> program_defined w' a n = program_defined w a n \<and> program_running w' a n = program_running w a n))"

interpretation agents: call_frame "apart S" for S
  by unfold_locales (auto simp: apart_def)

lemma apart_mono: "S \<subseteq> T \<Longrightarrow> apart S w w' \<Longrightarrow> apart T w w'"
  by (auto simp: apart_def)

lemma apart_hosts: "pw_hosts w' = pw_hosts w \<Longrightarrow> apart S w w'"
  by (simp add: apart_def world_ok_def program_defined_def program_running_def)

lemma pdb_hosts [simp]: "pw_hosts (snd (pdb c m w)) = pw_hosts w"
  by (simp add: pdb_def split: prod.split)

lemma find_package_hosts [simp]: "pw_hosts (snd (find_package n v w)) = pw_hosts w"
  by (simp add: find_package_def split: prod.split)

lemma calls_without_agents [framed]:
  "agents.within S (pdb c m)" "agents.within S (find_package n v)" "agents.within S (draw_program_id u)" "agents.within S (aget f)" "agents.within S spend"
  by (simp_all add: agents.within_def apart_hosts draw_program_id_def aget_def spend_def)

lemma rpc_within:
  assumes "\<And>h. host_ok h \<Longrightarrow> host_ok (snd (f h)) \<and> (\<forall>n. (a, n) \<notin> S \<longrightarrow>
    defined_in (ah_mgr (snd (f h))) n = defined_in (ah_mgr h) n \<and> running_in (ah_mgr (snd (f h))) n = running_in (ah_mgr h) n)"
  shows "agents.within S (rpc a f)"
proof -
  have "apart S w (snd (rpc a f w))" for w
  proof -
    have "pw_hosts (snd (rpc a f w)) = pw_hosts w \<or> pw_hosts (snd (rpc a f w)) = (pw_hosts w)(a := snd (f (pw_hosts w a)))"
      by (auto simp: rpc_def split: prod.splits list.splits net_answer.splits)
    then show ?thesis
    proof
      assume h: "pw_hosts (snd (rpc a f w)) = (pw_hosts w)(a := snd (f (pw_hosts w a)))"
      show ?thesis using assms [of "pw_hosts w a"] by (auto simp: apart_def world_ok_def program_defined_def program_running_def h)
    qed (rule apart_hosts)
  qed
  then show ?thesis by (simp add: agents.within_def)
qed

lemma on_agent_state [simp]: "snd (on_agent g k f h) = snd (f h)"
  by (auto simp: on_agent_def split: prod.splits sum.splits)

lemma install_package_state: "ah_mgr (snd (host_install_package sha ia pr h)) = ah_mgr h"
  by (simp add: host_install_package_def Let_def split: prod.split)

lemma untouched_programs: "host.untouched nm h h' \<Longrightarrow> host_ok h' \<and> (\<forall>n. n \<noteq> nm \<longrightarrow>
    defined_in (ah_mgr h') n = defined_in (ah_mgr h) n \<and> running_in (ah_mgr h') n = running_in (ah_mgr h) n)"
  by (auto simp: host.untouched_def)

lemma rpc_program:
  assumes "\<And>h. host_ok h \<Longrightarrow> host.untouched nm h (snd (f h))" "(a, nm) \<in> S"
  shows "agents.within S (rpc a (on_agent g k f))"
proof (rule rpc_within, unfold on_agent_state)
  fix h assume "host_ok h"
  then have t: "host_ok (snd (f h)) \<and> (\<forall>n. n \<noteq> nm \<longrightarrow> defined_in (ah_mgr (snd (f h))) n = defined_in (ah_mgr h) n \<and> running_in (ah_mgr (snd (f h))) n = running_in (ah_mgr h) n)"
    using untouched_programs assms(1) by blast
  have "n \<noteq> nm" if "(a, n) \<notin> S" for n using that assms(2) by blast
  then show "host_ok (snd (f h)) \<and> (\<forall>n. (a, n) \<notin> S \<longrightarrow> defined_in (ah_mgr (snd (f h))) n = defined_in (ah_mgr h) n \<and> running_in (ah_mgr (snd (f h))) n = running_in (ah_mgr h) n)"
    using t by blast
qed

lemma agent_calls_within:
  "agents.within S (agent_install_package u a pr)" "agents.within S (agent_list u a)" "agents.within S (agent_list_programs a)" "agents.within S (agent_list_packages a)"
  "(a, program_name p) \<in> S \<Longrightarrow> agents.within S (agent_install a p)" "(a, n) \<in> S \<Longrightarrow> agents.within S (agent_start u a n)"
  "(a, n) \<in> S \<Longrightarrow> agents.within S (agent_stop u a n)" "(a, n) \<in> S \<Longrightarrow> agents.within S (agent_remove a n)"
proof -
  show "agents.within S (agent_install_package u a pr)" unfolding agent_install_package_def
    by (rule rpc_within) (simp add: install_package_state host_ok_def)
  show "agents.within S (agent_list u a)" "agents.within S (agent_list_programs a)" "agents.within S (agent_list_packages a)"
    unfolding agent_list_def agent_list_programs_def agent_list_packages_def by (rule rpc_within; simp)+
  have nm: "as_name (wire_spec p) = program_name p" by (simp add: wire_spec_def)
  show "(a, program_name p) \<in> S \<Longrightarrow> agents.within S (agent_install a p)" unfolding agent_install_def
    by (rule rpc_program) (use host.only_its_program(1) [of _ "wire_spec p"] nm in auto)
  show "(a, n) \<in> S \<Longrightarrow> agents.within S (agent_start u a n)" unfolding agent_start_def
    by (rule rpc_program) (rule host.only_its_program(2))
  show "(a, n) \<in> S \<Longrightarrow> agents.within S (agent_stop u a n)" unfolding agent_stop_def
    by (rule rpc_program) (rule host.only_its_program(3))
  show "(a, n) \<in> S \<Longrightarrow> agents.within S (agent_remove a n)" unfolding agent_remove_def
    by (rule rpc_program) (rule host.only_its_program(4))
qed

lemmas [framed] = agent_calls_within

lemma delivery_within [framed]: "agents.within S (agent_package u lid sn n v)" "agents.within S (agent_addr u ln sn)" "agents.within S (observed_now st)"
  "agents.within S (save_program p)" "agents.within S (program_agent u lid i)"
  unfolding agent_package_def agent_addr_def observed_now_def save_program_def program_agent_def resolve_agent_def Let_def by (intro framed)+

lemma ensure_on_agent_within [framed]: "(a, program_name p) \<in> S \<Longrightarrow> agents.within S (ensure_on_agent u lid a p)"
  unfolding ensure_on_agent_def by (intro framed)

section \<open>Creating\<close>

lemma deploy_created_within: "agents.within (UNIV \<times> {program_name p}) (deploy_created u lb p on)"
  unfolding deploy_created_def Let_def by (intro framed) simp_all

lemma create_one_within: "agents.within (UNIV \<times> {nm}) (create_one u lb nm sp n pkg on)"
proof -
  have d: "agents.within (UNIV \<times> {nm}) (deploy_created u lb (new_program_on i now lb nm sp n pkg on) on)" for i now
    using deploy_created_within [of "new_program_on i now lb nm sp n pkg on"] by (simp add: new_program_on_def)
  show ?thesis unfolding create_one_def Let_def by (intro framed d)
qed

lemma create_on_within: "apart (UNIV \<times> {nm}) w (snd (create_on u lb nm sp pkg on by_id is taken ps fs w))"
proof (induction u lb nm sp pkg on by_id "is" taken ps fs w rule: create_on.induct)
  case (1 u lb nm sp pkg on by_id taken ps fs w)
  then show ?case by (simp add: agents.refl)
next
  case (2 u lb nm sp pkg on by_id i "is" taken ps fs w)
  show ?case
  proof (cases "by_id i")
    case None
    then show ?thesis using "2.IH"(1) by simp
  next
    case (Some n)
    show ?thesis
    proof (cases "n_role n \<noteq> RoleServer \<or> node_name n \<in> taken")
      case True
      then show ?thesis using "2.IH"(2,3) [OF Some] Some by auto
    next
      case False
      obtain r w1 where c: "create_one u lb nm sp n pkg on w = (r, w1)" by force
      have 1: "apart (UNIV \<times> {nm}) w w1" by (rule agents.withinD [OF create_one_within c])
      show ?thesis
      proof (cases r)
        case (Inl e)
        then show ?thesis using 1 c Some False by simp
      next
        case (Inr p)
        have "apart (UNIV \<times> {nm}) w1 (snd (create_on u lb nm sp pkg on by_id is (insert (node_name n) taken) (ps @ [p]) fs w1))"
          using "2.IH"(4) [OF Some] False c Inr by auto
        then show ?thesis using agents.trans [OF 1] c Some False Inr by simp
      qed
    qed
  qed
qed

lemma creation_inputs_within [framed]: "agents.within S (creation_inputs u lid nm sp ids)"
  unfolding creation_inputs_def by (intro framed)

lemma create_program_within: "apart (UNIV \<times> {nm}) w (snd (create_program u lid nm sp ids on w))"
proof (cases "creation_inputs u lid nm sp ids w")
  case (Pair r w1)
  have 1: "apart (UNIV \<times> {nm}) w w1" by (rule agents.withinD [OF creation_inputs_within Pair])
  show ?thesis
  proof (cases r)
    case (Inl e)
    then show ?thesis using 1 Pair by (simp add: create_program_def)
  next
    case (Inr x)
    obtain sp' pkg lb ns known where x: "x = (sp', pkg, lb, ns, known)" by (cases x) force
    let ?taken = "(\<lambda>p. server_name (p_spec p)) ` set (filter (\<lambda>p. program_name p = nm) known)"
    have "snd (create_program u lid nm sp ids on w) = snd (create_on u lb nm sp' pkg on (nodes_by_id ns) ids ?taken [] [] w1)"
      using Pair Inr x by (simp add: create_program_def case_prod_beta)
    then show ?thesis using agents.trans [OF 1 create_on_within] by metis
  qed
qed

end
