(* ===== verification/ProgramDemo.thy ===== *)
theory ProgramDemo
  imports ProgramFrame
begin

text \<open>
  A deployed lab with two servers and a package in two versions, on which the requests are tried out.
\<close>

definition try_node :: "string \<Rightarrow> string \<Rightarrow> node_role \<Rightarrow> node" where
  "try_node i nm r = \<lparr>n_meta = fresh_meta i nm, n_spec = (empty_spec ''l'' r)\<lparr>address := Prefix (V4 0x0A000005) 24\<rparr>, n_status = empty_status\<rparr>"

definition try_lab :: lab where
  "try_lab = \<lparr>lab_meta = (fresh_meta ''l'' ''dc'')\<lparr>generation := 1\<rparr>,
     lab_spec = \<lparr>lab_profile = ProfileCustom, lab_topology = \<lparr>external_routers = 0, dc_edges = 0, super_spines = 0, pods = [], internet_access = False\<rparr>, lab_pools = [], lab_asns = []\<rparr>\<rparr>"

definition try_row :: "string \<Rightarrow> string \<Rightarrow> 'a \<Rightarrow> 'a row" where
  "try_row i nm d = \<lparr>row_id = i, row_scope = ''l'', row_name = nm, row_doc = d\<rparr>"

definition try_package :: "string \<Rightarrow> string \<Rightarrow> package" where
  "try_package n v = \<lparr>pg_meta = fresh_meta (n @ v) n, pg_version = v, pg_entrypoint = ''bin'', pg_description = [], pg_links = [], pg_sha = ''tgz'', pg_size = 3, pg_builtin = False\<rparr>"

definition try_fetch :: install_answers where
  "try_fetch = \<lparr>ia_http = Answer 200 ''tgz'' None, ia_temp = True, ia_untar = (\<lambda>_. Inr [TarFile ''bin'' 10]), ia_writable = (\<lambda>_. True),
     ia_chmod = True, ia_marker = True, ia_rename = True, ia_mkdir = (\<lambda>_. True), ia_symlink = (\<lambda>_. True), ia_base = (\<lambda>_. None), ia_now = 9\<rparr>"

definition try_host :: agent_host where
  "try_host = \<lparr>ah_mgr = empty_manager ''/v'', ah_store = \<lparr>pk_dirs = [], pk_links = Map.empty, pk_repo = None\<rparr>, ah_os = [], ah_now = 0\<rparr>"

definition try_env :: program_env where
  "try_env = \<lparr>u_addr = (\<lambda>_ s. Inr s), u_gateway = (\<lambda>_ _. Inr ''10.0.0.1''), u_repo_port = 50062, u_sha = id, u_fetch = (\<lambda>_ _. try_fetch),
     u_draw = (\<lambda>k. (k, 0)), u_text = (\<lambda>_. ''error''), u_failure = (\<lambda>_. ''failure''), u_cancelled = (\<lambda>_. False)\<rparr>"

definition try_world :: prog_world where
  "try_world = \<lparr>pw_store = \<lparr>t_labs = [try_row ''l'' ''dc'' try_lab],
       t_nodes = [try_row ''n1'' ''s1'' (try_node ''n1'' ''s1'' RoleServer), try_row ''n2'' ''s2'' (try_node ''n2'' ''s2'' RoleServer), try_row ''n3'' ''spine'' (try_node ''n3'' ''spine'' RoleSpine)],
       t_links = [], t_allocs = [], t_plans = [], t_gens = [], t_programs = [], t_io = []\<rparr>,
     pw_repo = \<lparr>rp_rows = [try_package ''web'' ''1.0'', try_package ''web'' ''2.0'', try_package ''trafficgen'' ''0.1.0''], rp_files = Map.empty, rp_io = []\<rparr>,
     pw_hosts = (\<lambda>_. try_host), pw_net = [], pw_now = 7, pw_pauses = [], pw_drawn = 0\<rparr>"

definition try_spec :: program_spec where
  "try_spec = \<lparr>p_lab = [], server_id = [], server_name = [], package_name = ''web'', package_version = ''1.0'', entrypoint = [], p_args = [], restart_policy = ''Always'', p_type = [],
     auto_start = False, desired_state = ProgramDesiredStopped, liveness_check = None, readiness_check = None, startup_order = 0\<rparr>"

text \<open>The program \<open>web\<close> on both servers, started on request.\<close>

definition try_created :: "bool \<Rightarrow> net_answer list \<Rightarrow> creation \<times> prog_world" where
  "try_created on net = create_program try_env ''l'' ''web'' try_spec [''n1'', ''n2'', ''n3'', ''n1''] on (try_world\<lparr>pw_net := net\<rparr>)"

definition try_id :: string where "try_id = new_id ''prog'' (0, 0)"

lemma try_world_ok: "world_ok (try_world\<lparr>pw_net := net\<rparr>)"
  using empty_manager_ok [where dir = "''/v''" and disk = Map.empty] by (simp add: world_ok_def try_world_def try_host_def host_ok_def empty_manager_def)

lemma try_created_ok: "world_ok (snd (try_created on net))"
  using create_program_within [of "''web''" "try_world\<lparr>pw_net := net\<rparr>"] try_world_ok unfolding try_created_def by (auto simp: apart_def)

end
