(* ===== verification/ProgramProps.thy ===== *)
theory ProgramProps
  imports ProgramDemo
begin

text \<open>
  The requests on a program: what they do to the agent of its server and to its row, and that they touch nothing else.
\<close>

section \<open>Rows that are only read\<close>

definition same_rows :: "prog_world \<Rightarrow> prog_world \<Rightarrow> bool" where
  "same_rows w w' \<longleftrightarrow> t_programs (pw_store w') = t_programs (pw_store w) \<and> t_labs (pw_store w') = t_labs (pw_store w) \<and> t_nodes (pw_store w') = t_nodes (pw_store w)"

interpretation reads: call_frame same_rows
  by unfold_locales (auto simp: same_rows_def)

lemma same_rows_store: "pw_store w' = pw_store w \<Longrightarrow> same_rows w w'"
  by (simp add: same_rows_def)

lemma pdb_reads:
  assumes "\<And>s x s'. f s = Inr (x, s') \<Longrightarrow> s' = s"
  shows "reads.within (pdb c (db_call f))"
proof -
  have "same_rows w (snd (pdb c (db_call f) w))" for w
  proof (cases "db_call f (pw_store w)")
    case (Pair r s)
    have "s = (pw_store w)\<lparr>t_io := tl (t_io (pw_store w))\<rparr>"
    proof (cases r)
      case (Inl e)
      then show ?thesis using Pair db_call_Inl by simp
    next
      case (Inr x)
      then show ?thesis using Pair assms by (simp add: db_call_Inr)
    qed
    then show ?thesis using Pair by (simp add: pdb_def same_rows_def)
  qed
  then show ?thesis by (simp add: reads.within_def)
qed

lemma table_reads [framed]:
  "reads.within (pdb c (get_program i))" "reads.within (pdb c (get_lab lid))" "reads.within (pdb c (list_nodes lid))" "reads.within (pdb c (list_programs lid))"
  unfolding get_program_def get_lab_def list_nodes_def list_programs_def by (rule pdb_reads; force split: sum.splits)+

lemma rpc_store [simp]: "pw_store (snd (rpc a f w)) = pw_store w"
  by (simp add: rpc_def split: prod.split list.split net_answer.split)

lemma calls_read [framed]:
  "reads.within (find_package n v)" "reads.within (draw_program_id u)" "reads.within (aget f)" "reads.within spend" "reads.within (rpc a g)"
  by (simp_all add: reads.within_def same_rows_store find_package_def draw_program_id_def aget_def spend_def split: prod.split)

lemma agent_calls_read [framed]:
  "reads.within (agent_install_package u a pr)" "reads.within (agent_install a p)" "reads.within (agent_start u a n)" "reads.within (agent_stop u a n)"
  "reads.within (agent_remove a n)" "reads.within (agent_list u a)" "reads.within (agent_list_programs a)" "reads.within (agent_list_packages a)"
  unfolding agent_install_package_def agent_install_def agent_start_def agent_stop_def agent_remove_def agent_list_def agent_list_programs_def agent_list_packages_def
  by (intro framed)+

lemma delivery_reads [framed]: "reads.within (agent_package u lid sn n v)" "reads.within (agent_addr u ln sn)" "reads.within (observed_now st)"
  "reads.within (program_agent u lid i)"
  unfolding agent_package_def agent_addr_def observed_now_def program_agent_def resolve_agent_def by (intro framed)+

lemma ensure_on_agent_reads [framed]: "reads.within (ensure_on_agent u lid a p)"
  unfolding ensure_on_agent_def by (intro framed)

section \<open>Rows that are written\<close>

lemma pdb_ok: "pdb c m w = (Inr x, w') \<longleftrightarrow> (\<exists>s. m (pw_store w) = (Inr x, s) \<and> w' = w\<lparr>pw_store := s\<rparr>)"
  by (auto simp: pdb_def emap_err_def split: prod.splits sum.splits)

lemma aget_ok [simp]: "aget f s = (Inr x, s') \<longleftrightarrow> x = f s \<and> s' = s"
  by (auto simp: aget_def)

lemma get_program_ok: "pdb c (get_program i) w = (Inr p, w') \<Longrightarrow> get_doc i (t_programs (pw_store w)) = Inr p"
  by (auto simp: pdb_ok get_program_def db_call_Inr split: sum.splits)

lemma read_lab_ok: "pdb c (get_lab i) w = (Inr lb, w') \<Longrightarrow> get_doc i (t_labs (pw_store w)) = Inr lb"
  by (auto simp: pdb_ok get_lab_def db_call_Inr split: sum.splits)

lemma save_program_ok:
  assumes "save_program p w = (Inr p', w')"
  shows "p' = touch_program (pw_now w) p" "update_doc (meta_id (p_meta p)) p' (t_programs (pw_store w)) = Inr (t_programs (pw_store w'))" "pw_hosts w' = pw_hosts w"
    "t_labs (pw_store w') = t_labs (pw_store w)" "t_nodes (pw_store w') = t_nodes (pw_store w)"
  using assms by (auto simp: save_program_def pdb_ok update_program_def db_call_Inr touch_program_def)

lemma save_program_error: "save_program p w = (Inl e, w') \<Longrightarrow> t_programs (pw_store w') = t_programs (pw_store w) \<and> pw_hosts w' = pw_hosts w"
  by (cases "update_program (touch_program (pw_now w) p) (pw_store w)"; cases "fst (update_program (touch_program (pw_now w) p) (pw_store w))")
    (auto simp: save_program_def abind_def aget_def aret_def pdb_def update_program_def dest!: db_call_Inl)

lemma program_agent_ok:
  assumes "program_agent u lid i w = (Inr (p, a), w')"
  shows "get_doc i (t_programs (pw_store w)) = Inr p" "p_lab (p_spec p) = lid" "pw_hosts w' = pw_hosts w" "same_rows w w'"
    "a = Inr addr \<Longrightarrow> \<exists>lb. get_doc lid (t_labs (pw_store w)) = Inr lb \<and> generation (lab_meta lb) \<noteq> 0 \<and> u_addr u (meta_name (lab_meta lb)) (server_name (p_spec p)) = Inr addr"
proof -
  obtain w1 where g: "pdb ''get program'' (get_program i) w = (Inr p, w1)" and l: "p_lab (p_spec p) = lid" and r: "resolve_agent u lid p w1 = (Inr a, w')"
    using assms by (auto simp: program_agent_def split: if_splits)
  obtain g2 where g2: "pdb ''get lab'' (get_lab lid) w1 = (g2, w')" and a: "a = ebind g2 (\<lambda>lb. if generation (lab_meta lb) = 0 then Inl (NotDeployedYet (meta_name (lab_meta lb)))
     else emap_err NoAddress (u_addr u (meta_name (lab_meta lb)) (server_name (p_spec p))))" using r by (auto simp: resolve_agent_def)
  show "get_doc i (t_programs (pw_store w)) = Inr p" by (rule get_program_ok [OF g])
  show "p_lab (p_spec p) = lid" by (rule l)
  show "same_rows w w'" by (rule reads.withinD [OF delivery_reads(4) assms])
  show "pw_hosts w' = pw_hosts w" using g g2 pdb_hosts [of "''get lab''" "get_lab lid" w1] by (auto simp: pdb_ok)
  have same: "t_labs (pw_store w1) = t_labs (pw_store w)" using reads.withinD [OF table_reads(1) g] by (simp add: same_rows_def)
  show "\<exists>lb. get_doc lid (t_labs (pw_store w)) = Inr lb \<and> generation (lab_meta lb) \<noteq> 0 \<and> u_addr u (meta_name (lab_meta lb)) (server_name (p_spec p)) = Inr addr"
    if addr: "a = Inr addr"
  proof -
    obtain lb where lb: "g2 = Inr lb" "generation (lab_meta lb) \<noteq> 0" "u_addr u (meta_name (lab_meta lb)) (server_name (p_spec p)) = Inr addr"
      using a addr by (cases g2) (auto simp: emap_err_def split: if_splits sum.splits)
    then show ?thesis using read_lab_ok g2 same by metis
  qed
qed

section \<open>What the agent does\<close>

lemma rpc_ok: "rpc a f w = (Inr x, w') \<Longrightarrow> f (pw_hosts w a) = (Inr x, pw_hosts w' a) \<and> pw_hosts w' = (pw_hosts w)(a := pw_hosts w' a)"
  by (auto simp: rpc_def split: prod.splits list.splits net_answer.splits)

lemma on_agent_ok: "on_agent g k f h = (Inr y, h') \<longleftrightarrow> (\<exists>x. f h = (Inr x, h') \<and> y = k x)"
  by (auto simp: on_agent_def split: prod.splits sum.splits)

lemma ensure_on_agent_ok:
  assumes "ensure_on_agent u lid a p w = (Inr x, w')" "world_ok w"
  shows "world_ok w'" "\<not> program_running w a (program_name p)" "program_running w' a = program_running w a"
    "\<exists>sp'. accepted (wire_spec p) sp' \<and> program_defined w' a = (program_defined w a)(program_name p \<mapsto> sp')"
proof -
  obtain pr w1 w2 where 1: "agent_package u lid (server_name (p_spec p)) (package_name (p_spec p)) (package_version (p_spec p)) w = (Inr pr, w1)"
    and 2: "agent_install_package u a pr w1 = (Inr (), w2)" and 3: "agent_install a p w2 = (Inr x, w')"
    using assms(1) by (auto simp: ensure_on_agent_def)
  have h1: "apart {} w w1" by (rule agents.withinD [OF delivery_within(1) 1])
  have h2: "apart {} w1 w2" by (rule agents.withinD [OF agent_calls_within(1) 2])
  have w2: "world_ok w2" "program_running w2 = program_running w" "program_defined w2 = program_defined w"
    using h1 h2 assms(2) by (auto simp: apart_def fun_eq_iff)
  obtain y where y: "host_install (wire_spec p) (pw_hosts w2 a) = (Inr y, pw_hosts w' a)"
    using rpc_ok [OF 3 [unfolded agent_install_def]] by (auto simp: on_agent_ok)
  have ok: "host_ok (pw_hosts w2 a)" using w2(1) by (simp add: world_ok_def)
  have nm: "as_name (wire_spec p) = program_name p" by (simp add: wire_spec_def)
  note i = host.installed [OF ok y, unfolded nm]
  show "world_ok w'" using agents.withinD [OF agent_calls_within(5) 3] w2(1) by (auto simp: apart_def)
  show "\<not> program_running w a (program_name p)" using i w2(2) by (metis program_running_def)
  show "program_running w' a = program_running w a" 
  proof -
    have d: "program_running v a = running_in (ah_mgr (pw_hosts v a))" for v by (simp add: program_running_def fun_eq_iff)
    from i have "program_running w' a = program_running w2 a" unfolding d by blast
    then show ?thesis unfolding w2(2) .
  qed
  show "\<exists>sp'. accepted (wire_spec p) sp' \<and> program_defined w' a = (program_defined w a)(program_name p \<mapsto> sp')"
  proof -
    have d: "program_defined v a = defined_in (ah_mgr (pw_hosts v a))" for v by (simp add: program_defined_def fun_eq_iff)
    from i have "\<exists>sp'. accepted (wire_spec p) sp' \<and> program_defined w' a = (program_defined w2 a)(program_name p \<mapsto> sp')" unfolding d by blast
    then show ?thesis unfolding w2(3) .
  qed
qed

lemma agent_start_ok:
  assumes "agent_start u a n w = (Inr st, w')" "world_ok w"
  shows "world_ok w'" "program_defined w a n \<noteq> None" "program_running w' a = (program_running w a)(n := True)" "program_defined w' a = program_defined w a"
proof -
  obtain y where y: "host_start n (pw_hosts w a) = (Inr y, pw_hosts w' a)"
    using rpc_ok [OF assms(1) [unfolded agent_start_def]] by (auto simp: on_agent_ok)
  have ok: "host_ok (pw_hosts w a)" using assms(2) by (simp add: world_ok_def)
  note s = host.started [OF ok y]
  show "world_ok w'" using agents.withinD [OF agent_calls_within(6) assms(1)] assms(2) by (auto simp: apart_def)
  show "program_defined w a n \<noteq> None" "program_running w' a = (program_running w a)(n := True)" "program_defined w' a = program_defined w a"
    using s by (auto simp: program_defined_def program_running_def fun_eq_iff)
qed

lemma agent_stop_ok:
  assumes "agent_stop u a n w = (Inr st, w')" "world_ok w"
  shows "world_ok w'" "program_defined w a n \<noteq> None" "program_running w' a = (program_running w a)(n := False)" "program_defined w' a = program_defined w a"
proof -
  obtain y where y: "host_stop n (pw_hosts w a) = (Inr y, pw_hosts w' a)"
    using rpc_ok [OF assms(1) [unfolded agent_stop_def]] by (auto simp: on_agent_ok)
  have ok: "host_ok (pw_hosts w a)" using assms(2) by (simp add: world_ok_def)
  note s = host.stopped [OF ok y]
  show "world_ok w'" using agents.withinD [OF agent_calls_within(7) assms(1)] assms(2) by (auto simp: apart_def)
  show "program_defined w a n \<noteq> None" "program_running w' a = (program_running w a)(n := False)" "program_defined w' a = program_defined w a"
    using s by (auto simp: program_defined_def program_running_def fun_eq_iff)
qed

section \<open>Starting and stopping\<close>

text \<open>The program of a row, its lab, and the address of its agent.\<close>

definition on_server :: "program_env \<Rightarrow> prog_world \<Rightarrow> string \<Rightarrow> string \<Rightarrow> program \<Rightarrow> string \<Rightarrow> bool" where
  "on_server u w lid i p a \<longleftrightarrow> get_doc i (t_programs (pw_store w)) = Inr p \<and>
     (\<exists>lb. get_doc lid (t_labs (pw_store w)) = Inr lb \<and> u_addr u (meta_name (lab_meta lb)) (server_name (p_spec p)) = Inr a)"

definition program_targets :: "program_env \<Rightarrow> prog_world \<Rightarrow> string \<Rightarrow> string \<Rightarrow> (string \<times> string) set" where
  "program_targets u w lid i = {(a, n). \<exists>p. on_server u w lid i p a \<and> n = program_name p}"

text \<open>Rows carry the id of their document.\<close>

definition program_ids_ok :: "prog_world \<Rightarrow> bool" where
  "program_ids_ok w \<longleftrightarrow> list_all (\<lambda>r. meta_id (p_meta (row_doc r)) = row_id r) (t_programs (pw_store w))"

lemma stored_program_id: "program_ids_ok w \<Longrightarrow> get_doc i (t_programs (pw_store w)) = Inr p \<Longrightarrow> meta_id (p_meta p) = i"
  by (auto simp: program_ids_ok_def get_doc_def list_all_iff find_Some_iff split: option.splits)

lemma switch_program_ok:
  assumes "switch_program u lid i on w = (Inr p', w')" "world_ok w" "program_ids_ok w"
  shows "\<exists>p a. on_server u w lid i p a \<and> world_ok w' \<and> program_running w' a (program_name p) = on \<and>
     (if on then \<not> program_running w a (program_name p) \<and> (\<exists>sp'. accepted (wire_spec p) sp' \<and> program_defined w' a (program_name p) = Some sp')
      else program_defined w' a (program_name p) = program_defined w a (program_name p)) \<and>
     p_spec p' = (p_spec p)\<lparr>desired_state := if on \<and> p_type (p_spec p) \<noteq> ''oneshot'' then ProgramDesiredRunning else ProgramDesiredStopped\<rparr> \<and>
     get_doc i (t_programs (pw_store w')) = Inr p'"
proof -
  let ?call = "\<lambda>p addr. if on then abind (ensure_on_agent u lid addr p) (\<lambda>_. aerr AgentFailed (agent_start u addr (program_name p)))
       else aerr AgentFailed (agent_stop u addr (program_name p))"
  obtain p addr w1 st w2 st' where 1: "program_agent u lid i w = (Inr (p, Inr addr), w1)" and 2: "?call p addr w1 = (Inr st, w2)"
    and 3: "observed_now st w2 = (Inr st', w2)"
    and 4: "save_program (p\<lparr>p_spec := (p_spec p)\<lparr>desired_state := if on \<and> p_type (p_spec p) \<noteq> ''oneshot'' then ProgramDesiredRunning else ProgramDesiredStopped\<rparr>,
         p_status := st'\<rparr>) w2 = (Inr p', w')"
    using assms(1) by (auto simp: switch_program_def observed_now_def simp del: if_split)
  note a = program_agent_ok [OF 1]
  have w1: "world_ok w1" "program_running w1 = program_running w" "program_defined w1 = program_defined w"
    using a(3) assms(2) by (simp_all add: world_ok_def program_running_def program_defined_def fun_eq_iff)
  have eff: "world_ok w2 \<and> program_running w2 addr (program_name p) = on \<and>
     (if on then \<not> program_running w addr (program_name p) \<and> (\<exists>sp'. accepted (wire_spec p) sp' \<and> program_defined w2 addr (program_name p) = Some sp')
      else program_defined w2 addr (program_name p) = program_defined w addr (program_name p))"
  proof (cases on)
    case True
    then obtain x w3 where e: "ensure_on_agent u lid addr p w1 = (Inr x, w3)" and s: "agent_start u addr (program_name p) w3 = (Inr st, w2)" using 2 by auto
    note e' = ensure_on_agent_ok [OF e w1(1)] and s' = agent_start_ok [OF s ensure_on_agent_ok(1) [OF e w1(1)]]
    show ?thesis using e'(2,4) s'(1,3,4) w1(2,3) True by auto
  next
    case False
    then have s: "agent_stop u addr (program_name p) w1 = (Inr st, w2)" using 2 by simp
    show ?thesis using agent_stop_ok [OF s w1(1)] w1(3) False by simp
  qed
  have on: "on_server u w lid i p addr" using a(1) a(5) [OF refl] by (auto simp: on_server_def)
  note s = save_program_ok [OF 4]
  have id: "meta_id (p_meta p) = i" using stored_program_id [OF assms(3) a(1)] .
  have h: "world_ok w' = world_ok w2" "program_running w' = program_running w2" "program_defined w' = program_defined w2"
    using s(3) by (simp_all add: world_ok_def program_running_def program_defined_def fun_eq_iff)
  have "get_doc i (t_programs (pw_store w')) = Inr p'" using rows.get_put [OF s(2)] id by simp
  moreover have "p_spec p' = (p_spec p)\<lparr>desired_state := if on \<and> p_type (p_spec p) \<noteq> ''oneshot'' then ProgramDesiredRunning else ProgramDesiredStopped\<rparr>"
    using s(1) by (simp add: touch_program_def)
  ultimately show ?thesis using eff on h by (intro exI [of _ p] exI [of _ addr]) simp
qed

text \<open>The demonstration, evaluated.\<close>

definition web_row :: "prog_world \<Rightarrow> bool" where
  "web_row w \<longleftrightarrow> (case get_doc try_id (t_programs (pw_store w)) of Inl _ \<Rightarrow> False
     | Inr p \<Rightarrow> program_name p = ''web'' \<and> server_name (p_spec p) = ''s1'' \<and> p_type (p_spec p) = ''simple'' \<and> package_version (p_spec p) = ''1.0'')"

definition answered :: "('e + 'a) \<times> 's \<Rightarrow> bool" where
  "answered x \<longleftrightarrow> (case fst x of Inl _ \<Rightarrow> False | Inr _ \<Rightarrow> True)"

lemma answered_obtain:
  assumes "answered x"
  obtains r where "x = (Inr r, snd x)"
  using assms by (cases x; cases "fst x") (auto simp: answered_def)

lemma try_start_facts:
  "let w = snd (try_created False []) in program_ids_ok w \<and> web_row w \<and> answered (start_program try_env ''l'' try_id w)"
  unfolding program_ids_ok_def by code_simp

lemma try_upgrade_facts:
  "let w = snd (try_created True []); u = upgrade_program try_env ''l'' try_id ''2.0'' w in program_ids_ok w \<and> web_row w \<and> answered u \<and>
     (case get_doc try_id (t_programs (pw_store w)) of Inr p \<Rightarrow> desired_state (p_spec p) = ProgramDesiredRunning | Inl _ \<Rightarrow> False) \<and>
     (case get_doc ''l'' (t_labs (pw_store w)) of Inr lb \<Rightarrow> generation (lab_meta lb) > 0 | Inl _ \<Rightarrow> False) \<and>
     program_running w ''s2'' ''web'' \<and> map_option as_version (program_defined w ''s1'' ''web'') = Some ''1.0'' \<and>
     map_option as_version (program_defined (snd u) ''s1'' ''web'') = Some ''2.0''"
  unfolding program_ids_ok_def by code_simp

lemma web_rowE:
  assumes "web_row w" "on_server try_env w ''l'' try_id p a"
  shows "a = ''s1''" "program_name p = ''web''" "p_type (p_spec p) = ''simple''" "package_version (p_spec p) = ''1.0''"
  using assms by (auto simp: web_row_def on_server_def try_env_def)

text \<open>C29: A start that succeeds leaves the program running on the agent of its server under the definition of its row,
  which then asks for it to run (a oneshot is only run once); a program that runs already cannot be started. A stop
  that succeeds leaves it stopped. The stored row is the one that is returned.\<close>
theorem started_programs_run:
  assumes "world_ok w" "program_ids_ok w"
  shows "(start_program u lid i w = (Inr p', w') \<longrightarrow> (\<exists>p a sp'. on_server u w lid i p a \<and> \<not> program_running w a (program_name p) \<and>
       program_running w' a (program_name p) \<and> program_defined w' a (program_name p) = Some sp' \<and> accepted (wire_spec p) sp' \<and>
       desired_state (p_spec p') = (if p_type (p_spec p) = ''oneshot'' then ProgramDesiredStopped else ProgramDesiredRunning) \<and>
       get_doc i (t_programs (pw_store w')) = Inr p')) \<and>
    (stop_program u lid i w = (Inr p', w') \<longrightarrow> (\<exists>p a. on_server u w lid i p a \<and> \<not> program_running w' a (program_name p) \<and>
       program_defined w' a (program_name p) = program_defined w a (program_name p) \<and> desired_state (p_spec p') = ProgramDesiredStopped \<and>
       get_doc i (t_programs (pw_store w')) = Inr p'))"
proof (intro conjI impI)
  assume "start_program u lid i w = (Inr p', w')"
  from switch_program_ok [OF this [unfolded start_program_def] assms] obtain p a sp' where x: "on_server u w lid i p a" "\<not> program_running w a (program_name p)"
    "program_running w' a (program_name p)" "program_defined w' a (program_name p) = Some sp'" "accepted (wire_spec p) sp'"
    "p_spec p' = (p_spec p)\<lparr>desired_state := if p_type (p_spec p) \<noteq> ''oneshot'' then ProgramDesiredRunning else ProgramDesiredStopped\<rparr>"
    "get_doc i (t_programs (pw_store w')) = Inr p'" by auto
  show "\<exists>p a sp'. on_server u w lid i p a \<and> \<not> program_running w a (program_name p) \<and>
       program_running w' a (program_name p) \<and> program_defined w' a (program_name p) = Some sp' \<and> accepted (wire_spec p) sp' \<and>
       desired_state (p_spec p') = (if p_type (p_spec p) = ''oneshot'' then ProgramDesiredStopped else ProgramDesiredRunning) \<and>
       get_doc i (t_programs (pw_store w')) = Inr p'"
    by (rule exI [of _ p], rule exI [of _ a], rule exI [of _ sp']) (use x in simp)
next
  assume "stop_program u lid i w = (Inr p', w')"
  from switch_program_ok [OF this [unfolded stop_program_def] assms] obtain p a where x: "on_server u w lid i p a" "\<not> program_running w' a (program_name p)"
    "program_defined w' a (program_name p) = program_defined w a (program_name p)" "p_spec p' = (p_spec p)\<lparr>desired_state := ProgramDesiredStopped\<rparr>"
    "get_doc i (t_programs (pw_store w')) = Inr p'" by auto
  show "\<exists>p a. on_server u w lid i p a \<and> \<not> program_running w' a (program_name p) \<and>
       program_defined w' a (program_name p) = program_defined w a (program_name p) \<and> desired_state (p_spec p') = ProgramDesiredStopped \<and>
       get_doc i (t_programs (pw_store w')) = Inr p'"
    by (rule exI [of _ p], rule exI [of _ a]) (use x in simp)
qed

theorem started_programs_run_witness:
  "\<exists>p'. fst (start_program try_env ''l'' try_id (snd (try_created False []))) = Inr p' \<and> desired_state (p_spec p') = ProgramDesiredRunning \<and>
     program_running (snd (start_program try_env ''l'' try_id (snd (try_created False [])))) ''s1'' ''web''"
proof -
  let ?w = "snd (try_created False [])" let ?s = "start_program try_env ''l'' try_id ?w"
  have f: "program_ids_ok ?w" "web_row ?w" "answered ?s" using try_start_facts by (simp_all add: Let_def)
  obtain p' where p': "?s = (Inr p', snd ?s)" using f(3) by (rule answered_obtain)
  obtain p a where x: "on_server try_env ?w ''l'' try_id p a" "program_running (snd ?s) a (program_name p)"
    "desired_state (p_spec p') = (if p_type (p_spec p) = ''oneshot'' then ProgramDesiredStopped else ProgramDesiredRunning)"
    using started_programs_run [OF try_created_ok f(1)] p' by blast
  have "fst ?s = Inr p'" using p' by (metis fst_conv)
  then show ?thesis using x web_rowE [OF f(2) x(1)] by simp
qed

section \<open>Nothing else\<close>

lemma request_within:
  assumes "\<And>p e. agents.within (program_targets u w lid i) (k (p, Inl e))"
    and "\<And>p addr. (addr, program_name p) \<in> program_targets u w lid i \<Longrightarrow> agents.within (program_targets u w lid i) (k (p, Inr addr))"
  shows "apart (program_targets u w lid i) w (snd (abind (program_agent u lid i) k w))"
proof (cases "program_agent u lid i w")
  case (Pair r w1)
  have 1: "apart (program_targets u w lid i) w w1" using agents.withinD [OF delivery_within(5) Pair] .
  show ?thesis
  proof (cases r)
    case (Inl e)
    then show ?thesis using 1 Pair by (simp add: abind_def)
  next
    case (Inr pa)
    obtain p a where pa: "pa = (p, a)" by force
    note ok = program_agent_ok [OF Pair [unfolded Inr pa]]
    have "agents.within (program_targets u w lid i) (k pa)"
    proof (cases a)
      case (Inl e)
      then show ?thesis using assms(1) pa by simp
    next
      case (Inr addr)
      then have "(addr, program_name p) \<in> program_targets u w lid i" using ok(1) ok(5) [OF Inr] by (auto simp: program_targets_def on_server_def)
      then show ?thesis using assms(2) pa Inr by simp
    qed
    then have "apart (program_targets u w lid i) w1 (snd (k pa w1))" by (simp add: agents.within_def)
    moreover have "abind (program_agent u lid i) k w = k pa w1" using Pair Inr by (simp add: abind_def)
    ultimately show ?thesis using 1 agents.trans by metis
  qed
qed

lemma alift_bind: "abind (alift (Inl e)) f = afail e" "abind (alift (Inr x)) f = f x"
  by (simp_all add: fun_eq_iff abind_def alift_def afail_def)

lemma switch_program_within: "apart (program_targets u w lid i) w (snd (switch_program u lid i on w))"
  unfolding switch_program_def by (rule request_within) (simp_all add: alift_bind split del: if_split, (intro framed; assumption?)+)

lemma delete_program_within: "apart (program_targets u w lid i) w (snd (delete_program u lid i w))"
  unfolding delete_program_def by (rule request_within) (simp_all, (intro framed; assumption?)+)

lemma apart_bind:
  assumes "apart T w (snd (m w))" "\<And>x w1. m w = (Inr x, w1) \<Longrightarrow> apart T w1 (snd (f x w1))"
  shows "apart T w (snd (abind m f w))"
proof (cases "m w")
  case (Pair r w1)
  show ?thesis
  proof (cases r)
    case (Inl e)
    then show ?thesis using assms(1) Pair by (simp add: abind_def)
  next
    case (Inr x)
    have "apart T w1 (snd (f x w1))" using assms(2) Pair Inr by simp
    then show ?thesis using assms(1) Pair Inr agents.trans by (simp add: abind_def)
  qed
qed

lemma upgrade_on_agent_within:
  assumes "\<And>a. u_addr u (meta_name (lab_meta lb)) (server_name (p_spec p)) = Inr a \<Longrightarrow> (a, program_name p) \<in> T"
  shows "agents.within T (upgrade_on_agent u lb p)"
proof (cases "u_addr u (meta_name (lab_meta lb)) (server_name (p_spec p))")
  case (Inl e)
  then show ?thesis unfolding upgrade_on_agent_def agent_addr_def by (simp add: emap_err_def alift_bind) (intro framed)
next
  case (Inr a)
  show ?thesis unfolding upgrade_on_agent_def agent_addr_def Inr
    by (simp add: emap_err_def alift_bind split del: if_split) (intro framed assms Inr)
qed

lemma upgrade_program_within: "apart (program_targets u w lid i) w (snd (upgrade_program u lid i v w))"
  unfolding upgrade_program_def
proof (rule apart_bind)
  show "apart (program_targets u w lid i) w (snd (pdb ''get program'' (get_program i) w))" by (simp add: apart_hosts)
  fix p w1
  assume g: "pdb ''get program'' (get_program i) w = (Inr p, w1)"
  have p: "get_doc i (t_programs (pw_store w)) = Inr p" by (rule get_program_ok [OF g])
  have s1: "same_rows w w1" by (rule reads.withinD [OF table_reads(1) g])
  let ?T = "program_targets u w lid i"
  have up: "apart ?T w1 (snd (abind (find_package (package_name (p_spec p)) v) (\<lambda>pkg. abind (pdb ''get lab'' (get_lab lid)) (\<lambda>lb.
       if generation (lab_meta lb) > 0 then abind (upgrade_on_agent u lb (upgraded v pkg p)) (\<lambda>st. save_program ((upgraded v pkg p)\<lparr>p_status := st\<rparr>))
       else save_program (upgraded v pkg p))) w1))"
  proof (intro apart_bind)
    show "apart ?T w1 (snd (find_package (package_name (p_spec p)) v w1))" by (simp add: apart_hosts)
    fix pkg w2
    assume f: "find_package (package_name (p_spec p)) v w1 = (Inr pkg, w2)"
    show "apart ?T w2 (snd (pdb ''get lab'' (get_lab lid) w2))" by (simp add: apart_hosts)
    fix lb w3
    assume l: "pdb ''get lab'' (get_lab lid) w2 = (Inr lb, w3)"
    have "t_labs (pw_store w2) = t_labs (pw_store w)" using s1 reads.withinD [OF calls_read(1) f] by (simp add: same_rows_def)
    then have lb: "get_doc lid (t_labs (pw_store w)) = Inr lb" using read_lab_ok [OF l] by simp
    have t: "(a, program_name (upgraded v pkg p)) \<in> ?T" if "u_addr u (meta_name (lab_meta lb)) (server_name (p_spec (upgraded v pkg p))) = Inr a" for a
      using that p lb by (auto simp: program_targets_def on_server_def upgraded_def)
    have "agents.within ?T (if generation (lab_meta lb) > 0 then abind (upgrade_on_agent u lb (upgraded v pkg p)) (\<lambda>st. save_program ((upgraded v pkg p)\<lparr>p_status := st\<rparr>))
       else save_program (upgraded v pkg p))"
      by (intro framed upgrade_on_agent_within t)
    then show "apart ?T w3 (snd ((if generation (lab_meta lb) > 0 then abind (upgrade_on_agent u lb (upgraded v pkg p)) (\<lambda>st. save_program ((upgraded v pkg p)\<lparr>p_status := st\<rparr>))
       else save_program (upgraded v pkg p)) w3))" by (simp add: agents.within_def split del: if_split)
  qed
  have "snd (aret p w1) = w1" "snd ((afail e :: program usecase) w1) = w1" for e by simp_all
  then show "apart ?T w1 (snd ((if p_lab (p_spec p) \<noteq> lid then afail (NoSuchRow i) else if v = package_version (p_spec p) then aret p
     else abind (find_package (package_name (p_spec p)) v) (\<lambda>pkg. abind (pdb ''get lab'' (get_lab lid)) (\<lambda>lb.
       if generation (lab_meta lb) > 0 then abind (upgrade_on_agent u lb (upgraded v pkg p)) (\<lambda>st. save_program ((upgraded v pkg p)\<lparr>p_status := st\<rparr>))
       else save_program (upgraded v pkg p)))) w1))"
    using up agents.refl by (auto split del: if_split split: if_split)
qed

text \<open>C30: Whatever a request on a program does, and whatever the network, the agents and the database answer, every other program
  on every server keeps its definition and its process: a start, a stop, an upgrade and a deletion by id reach only
  the program of that row on the agent of its server.\<close>
theorem requests_reach_one_program:
  assumes "world_ok w" "(a, n) \<notin> program_targets u w lid i"
    and "w' \<in> {snd (start_program u lid i w), snd (stop_program u lid i w), snd (upgrade_program u lid i v w), snd (delete_program u lid i w)}"
  shows "world_ok w' \<and> program_defined w' a n = program_defined w a n \<and> program_running w' a n = program_running w a n"
proof -
  have "apart (program_targets u w lid i) w w'"
    using assms(3) switch_program_within delete_program_within upgrade_program_within by (auto simp: start_program_def stop_program_def)
  then show ?thesis using assms(1,2) by (simp add: apart_def)
qed

section \<open>Failures and the rows\<close>

definition fails_clean :: "'a usecase \<Rightarrow> bool" where
  "fails_clean m \<longleftrightarrow> (\<forall>w e w'. m w = (Inl e, w') \<longrightarrow> t_programs (pw_store w') = t_programs (pw_store w))"

lemma clean_reads: "reads.within m \<Longrightarrow> fails_clean m"
  unfolding fails_clean_def by (metis reads.withinD same_rows_def)

lemma clean_bind:
  assumes "reads.within m" "\<And>x. fails_clean (f x)"
  shows "fails_clean (abind m f)"
  unfolding fails_clean_def
proof (intro allI impI)
  fix w e w'
  assume a: "abind m f w = (Inl e, w')"
  obtain r w1 where m: "m w = (r, w1)" by force
  have 1: "t_programs (pw_store w1) = t_programs (pw_store w)" using reads.withinD [OF assms(1) m] by (simp add: same_rows_def)
  show "t_programs (pw_store w') = t_programs (pw_store w)"
  proof (cases r)
    case (Inl e')
    then show ?thesis using a m 1 by (simp add: abind_def)
  next
    case (Inr x)
    then have "f x w1 = (Inl e, w')" using a m by (simp add: abind_def)
    then show ?thesis using assms(2) 1 by (metis fails_clean_def)
  qed
qed

lemma clean_basic: "fails_clean (afail e)" "fails_clean (aret x)" "fails_clean (save_program p)"
  "fails_clean m \<Longrightarrow> fails_clean n \<Longrightarrow> fails_clean (if b then m else n)"
  using save_program_error by (auto simp: fails_clean_def afail_def aret_def)

lemma upgrade_on_agent_reads: "reads.within (upgrade_on_agent u lb p)"
  unfolding upgrade_on_agent_def by (intro framed)

lemma upgrade_clean: "fails_clean (upgrade_program u lid i v)"
  unfolding upgrade_program_def by (intro clean_bind clean_basic framed upgrade_on_agent_reads)

lemma clean_pair: "(\<And>x y. fails_clean (f x y)) \<Longrightarrow> fails_clean (case p of (x, y) \<Rightarrow> f x y)"
  by (simp split: prod.split)

lemma switch_program_clean: "fails_clean (switch_program u lid i on)"
  unfolding switch_program_def by (intro clean_bind clean_pair clean_basic framed)

section \<open>Upgrades\<close>

lemma upgrade_on_agent_ok:
  assumes "upgrade_on_agent u lb p w = (Inr st, w')" "world_ok w"
  shows "\<exists>a sp'. u_addr u (meta_name (lab_meta lb)) (server_name (p_spec p)) = Inr a \<and> world_ok w' \<and> accepted (wire_spec p) sp' \<and>
    program_defined w' a (program_name p) = Some sp' \<and> (desired_state (p_spec p) = ProgramDesiredRunning \<longleftrightarrow> program_running w' a (program_name p))"
proof -
  obtain a w1 g w2 w3 st1 where a: "u_addr u (meta_name (lab_meta lb)) (server_name (p_spec p)) = Inr a" "w1 = w"
    and 2: "agent_stop u a (program_name p) w1 = (g, w2)" and 3: "ensure_on_agent u (meta_id (lab_meta lb)) a p w2 = (Inr (), w3)"
    and 4: "(if desired_state (p_spec p) = ProgramDesiredRunning then aerr UpgradeNotStarted (agent_start u a (program_name p)) else aret (status_of ProgramStateConfigured)) w3 = (Inr st1, w')"
    using assms(1) by (auto simp: upgrade_on_agent_def agent_addr_def observed_now_def emap_err_def split: sum.splits simp del: if_split)
  have w2: "world_ok w2" using agents.withinD [OF agent_calls_within(7) [of a "program_name p" UNIV] 2] assms(2) a(2) by (simp add: apart_def)
  note e = ensure_on_agent_ok [OF 3 w2]
  obtain sp' where sp': "accepted (wire_spec p) sp'" "program_defined w3 a (program_name p) = Some sp'" using e(4) by auto
  show ?thesis
  proof (cases "desired_state (p_spec p) = ProgramDesiredRunning")
    case True
    then have s: "agent_start u a (program_name p) w3 = (Inr st1, w')" using 4 by simp
    show ?thesis using agent_start_ok [OF s e(1)] True sp' a(1) by auto
  next
    case False
    then have "w' = w3" using 4 by simp
    then show ?thesis using e(1,2,3) False sp' a(1) by auto
  qed
qed

lemma upgrade_program_ok:
  assumes "upgrade_program u lid i v w = (Inr p', w')" "world_ok w" "program_ids_ok w" "get_doc i (t_programs (pw_store w)) = Inr p" "v \<noteq> package_version (p_spec p)"
  shows "get_doc i (t_programs (pw_store w')) = Inr p' \<and> package_version (p_spec p') = v \<and> (\<forall>j. j \<noteq> i \<longrightarrow> get_doc j (t_programs (pw_store w')) = get_doc j (t_programs (pw_store w)))"
    "get_doc lid (t_labs (pw_store w)) = Inr lb \<Longrightarrow> generation (lab_meta lb) > 0 \<Longrightarrow>
      \<exists>a sp'. on_server u w lid i p a \<and> accepted (wire_spec p') sp' \<and> program_defined w' a (program_name p) = Some sp' \<and>
        (program_running w' a (program_name p) \<longleftrightarrow> desired_state (p_spec p) = ProgramDesiredRunning)"
proof -
  obtain w1 pkg w2 lb' w3 where 1: "pdb ''get program'' (get_program i) w = (Inr p, w1)" and 2: "find_package (package_name (p_spec p)) v w1 = (Inr pkg, w2)"
    and 3: "pdb ''get lab'' (get_lab lid) w2 = (Inr lb', w3)"
    and 4: "(if generation (lab_meta lb') > 0 then abind (upgrade_on_agent u lb' (upgraded v pkg p)) (\<lambda>st. save_program ((upgraded v pkg p)\<lparr>p_status := st\<rparr>))
       else save_program (upgraded v pkg p)) w3 = (Inr p', w')"
    using assms(1,4,5) get_program_ok by (fastforce simp: upgrade_program_def simp del: if_split split: if_splits)
  let ?p = "upgraded v pkg p"
  have r3: "same_rows w w3"
    using reads.trans [OF reads.trans [OF reads.withinD [OF table_reads(1) 1] reads.withinD [OF calls_read(1) 2]] reads.withinD [OF table_reads(2) 3]] .
  have lb': "get_doc lid (t_labs (pw_store w)) = Inr lb'"
    using read_lab_ok [OF 3] reads.trans [OF reads.withinD [OF table_reads(1) 1] reads.withinD [OF calls_read(1) 2]] by (simp add: same_rows_def)
  have w3: "world_ok w3" using assms(2) 1 2 3 pdb_hosts [of "''get program''" "get_program i" w] pdb_hosts [of "''get lab''" "get_lab lid" w2] find_package_hosts [of "package_name (p_spec p)" v w1]
    by (simp add: world_ok_def)
  obtain st w4 where 5: "generation (lab_meta lb') > 0 \<longrightarrow> upgrade_on_agent u lb' ?p w3 = (Inr st, w4)" and r4: "same_rows w w4"
    and 6: "save_program (if generation (lab_meta lb') > 0 then ?p\<lparr>p_status := st\<rparr> else ?p) w4 = (Inr p', w')"
  proof (cases "generation (lab_meta lb') > 0")
    case True
    then obtain st w4 where x: "upgrade_on_agent u lb' ?p w3 = (Inr st, w4)" "save_program (?p\<lparr>p_status := st\<rparr>) w4 = (Inr p', w')" using 4 by auto
    show ?thesis by (rule that [of st w4]) (use x True reads.trans [OF r3 reads.withinD [OF upgrade_on_agent_reads x(1)]] in simp_all)
  next
    case False
    show ?thesis by (rule that [of undefined w3]) (use 4 False r3 in simp_all)
  qed
  note s = save_program_ok [OF 6]
  have id: "meta_id (p_meta (if generation (lab_meta lb') > 0 then ?p\<lparr>p_status := st\<rparr> else ?p)) = i"
    using stored_program_id [OF assms(3,4)] by (simp add: upgraded_def)
  have t4: "t_programs (pw_store w4) = t_programs (pw_store w)" using r4 by (simp add: same_rows_def)
  have ps: "p_spec p' = p_spec ?p" using s(1) by (simp add: touch_program_def)
  have nm: "program_name p' = program_name p" using s(1) by (simp add: touch_program_def upgraded_def)
  show "get_doc i (t_programs (pw_store w')) = Inr p' \<and> package_version (p_spec p') = v \<and> (\<forall>j. j \<noteq> i \<longrightarrow> get_doc j (t_programs (pw_store w')) = get_doc j (t_programs (pw_store w)))"
    using rows.get_put_eq [OF s(2)] id t4 ps by (simp add: upgraded_def)
  show "\<exists>a sp'. on_server u w lid i p a \<and> accepted (wire_spec p') sp' \<and> program_defined w' a (program_name p) = Some sp' \<and>
        (program_running w' a (program_name p) \<longleftrightarrow> desired_state (p_spec p) = ProgramDesiredRunning)"
    if lb: "get_doc lid (t_labs (pw_store w)) = Inr lb" "generation (lab_meta lb) > 0"
  proof -
    have eq: "lb' = lb" using lb' lb(1) by simp
    obtain a sp' where a: "u_addr u (meta_name (lab_meta lb)) (server_name (p_spec ?p)) = Inr a" "accepted (wire_spec ?p) sp'"
        "program_defined w4 a (program_name ?p) = Some sp'" "desired_state (p_spec ?p) = ProgramDesiredRunning \<longleftrightarrow> program_running w4 a (program_name ?p)"
      using upgrade_on_agent_ok [OF _ w3, of u lb' ?p st w4] 5 lb(2) unfolding eq by blast
    have w: "wire_spec p' = wire_spec ?p" using ps nm by (simp add: wire_spec_def upgraded_def)
    have h: "program_running w' = program_running w4" "program_defined w' = program_defined w4"
      using s(3) by (simp_all add: program_running_def program_defined_def fun_eq_iff)
    have on: "on_server u w lid i p a" using a(1) assms(4) lb(1) by (auto simp: on_server_def upgraded_def)
    have "program_name ?p = program_name p" "desired_state (p_spec ?p) = desired_state (p_spec p)" by (simp_all add: upgraded_def)
    then show ?thesis using a(2-4) on w h by (intro exI [of _ a] exI [of _ sp']) simp
  qed
qed

theorem requests_reach_one_program_witness:
  "let w = snd (try_created True []); w' = snd (upgrade_program try_env ''l'' try_id ''2.0'' w) in
     program_running w' ''s2'' ''web'' \<and> program_defined w' ''s2'' ''web'' = program_defined w ''s2'' ''web'' \<and> program_defined w' ''s1'' ''web'' \<noteq> program_defined w ''s1'' ''web''"
proof -
  let ?w = "snd (try_created True [])" let ?u = "upgrade_program try_env ''l'' try_id ''2.0'' ?w"
  have f: "web_row ?w" "program_running ?w ''s2'' ''web''" "map_option as_version (program_defined ?w ''s1'' ''web'') = Some ''1.0''"
    "map_option as_version (program_defined (snd ?u) ''s1'' ''web'') = Some ''2.0''" using try_upgrade_facts by (simp_all add: Let_def)
  have "(''s2'', ''web'') \<notin> program_targets try_env ?w ''l'' try_id" using web_rowE(1) [OF f(1)] by (auto simp: program_targets_def)
  from requests_reach_one_program [OF try_created_ok this, of "snd ?u" "''2.0''"] f(2)
  have "program_defined (snd ?u) ''s2'' ''web'' = program_defined ?w ''s2'' ''web''" "program_running (snd ?u) ''s2'' ''web''" by auto
  then show ?thesis using f(3,4) by (auto simp: Let_def)
qed

text \<open>C31: An upgrade that fails leaves the program rows as they were, so the program keeps the version that a redeploy restores. One that
  succeeds records the new version in its row and in no other, and on a deployed lab the agent has the new
  definition, with the program running exactly when that is desired.\<close>
theorem upgrades_switch_the_version:
  assumes "world_ok w" "program_ids_ok w" "get_doc i (t_programs (pw_store w)) = Inr p" "v \<noteq> package_version (p_spec p)"
    and "get_doc lid (t_labs (pw_store w)) = Inr lb" "upgrade_program u lid i v w = (r, w')"
  shows "case r of Inl e \<Rightarrow> t_programs (pw_store w') = t_programs (pw_store w)
   | Inr p' \<Rightarrow> get_doc i (t_programs (pw_store w')) = Inr p' \<and> package_version (p_spec p') = v \<and>
       (\<forall>j. j \<noteq> i \<longrightarrow> get_doc j (t_programs (pw_store w')) = get_doc j (t_programs (pw_store w))) \<and>
       (generation (lab_meta lb) > 0 \<longrightarrow> (\<exists>a sp'. on_server u w lid i p a \<and> accepted (wire_spec p') sp' \<and> program_defined w' a (program_name p) = Some sp' \<and>
          (program_running w' a (program_name p) \<longleftrightarrow> desired_state (p_spec p) = ProgramDesiredRunning)))"
proof (cases r)
  case (Inl e)
  then show ?thesis using upgrade_clean [of u lid i v] assms(6) by (auto simp: fails_clean_def)
next
  case (Inr p')
  note ok = upgrade_program_ok [OF assms(6) [unfolded Inr] assms(1-4)]
  show ?thesis using ok(1) ok(2) [OF assms(5)] Inr by auto
qed

theorem upgrades_switch_the_version_witness:
  "\<exists>p'. fst (upgrade_program try_env ''l'' try_id ''2.0'' (snd (try_created True []))) = Inr p' \<and> package_version (p_spec p') = ''2.0'' \<and>
     program_running (snd (upgrade_program try_env ''l'' try_id ''2.0'' (snd (try_created True [])))) ''s1'' ''web''"
proof -
  let ?w = "snd (try_created True [])" let ?u = "upgrade_program try_env ''l'' try_id ''2.0'' (snd (try_created True []))"
  have f: "program_ids_ok ?w" "web_row ?w" "answered ?u" using try_upgrade_facts by (simp_all add: Let_def)
  obtain p where p: "get_doc try_id (t_programs (pw_store ?w)) = Inr p" "desired_state (p_spec p) = ProgramDesiredRunning"
    using try_upgrade_facts by (auto simp: Let_def split: sum.splits)
  obtain lb where lb: "get_doc ''l'' (t_labs (pw_store ?w)) = Inr lb" "generation (lab_meta lb) > 0"
    using try_upgrade_facts by (auto simp: Let_def split: sum.splits)
  have v: "''2.0'' \<noteq> package_version (p_spec p)" using f(2) p by (auto simp: web_row_def)
  obtain p' where p': "?u = (Inr p', snd ?u)" using f(3) by (rule answered_obtain)
  from upgrades_switch_the_version [OF try_created_ok f(1) p(1) v lb(1) p'] lb(2)
  obtain a where a: "package_version (p_spec p') = ''2.0''" "on_server try_env ?w ''l'' try_id p a"
    "program_running (snd ?u) a (program_name p) \<longleftrightarrow> desired_state (p_spec p) = ProgramDesiredRunning" by auto
  have "fst ?u = Inr p'" using p' by (metis fst_conv)
  then show ?thesis using a p(2) web_rowE [OF f(2) a(2)] by simp
qed

end
