(* ===== verification/ProgramRows.thy ===== *)
theory ProgramRows
  imports ProgramProps
begin

text \<open>
  The table of programs under the requests: a name is used once on a server, requests other than creation and deletion
  leave the keys of the rows, and a restore brings back every program of the servers it is asked for.
\<close>

section \<open>Keys\<close>

type_synonym program_key = "string \<times> string \<times> string \<times> string"

definition key_of :: "program \<Rightarrow> program_key" where
  "key_of p = (meta_id (p_meta p), p_lab (p_spec p), program_name p, server_name (p_spec p))"

definition program_keys :: "prog_world \<Rightarrow> program_key list" where
  "program_keys w = map (\<lambda>r. key_of (row_doc r)) (t_programs (pw_store w))"

text \<open>The columns of a row are those of its document, ids are a key, and so are lab, name and server.\<close>

definition program_rows_ok :: "prog_world \<Rightarrow> bool" where
  "program_rows_ok w \<longleftrightarrow> list_all (\<lambda>r. (row_id r, row_scope r, row_name r) = (meta_id (p_meta (row_doc r)), p_lab (p_spec (row_doc r)), program_name (row_doc r))) (t_programs (pw_store w)) \<and>
     distinct (map fst (program_keys w)) \<and> distinct (map snd (program_keys w))"

text \<open>Calls that keep the keys.\<close>

definition keyed :: "program_key list \<Rightarrow> prog_world \<Rightarrow> prog_world \<Rightarrow> bool" where
  "keyed ks w w' \<longleftrightarrow> (program_rows_ok w \<and> program_keys w = ks \<longrightarrow> program_rows_ok w' \<and> program_keys w' = ks)"

interpretation keyed: call_frame "keyed ks" for ks
  by unfold_locales (auto simp: keyed_def)

lemma keyed_same: "t_programs (pw_store w') = t_programs (pw_store w) \<Longrightarrow> keyed ks w w'"
proof -
  assume "t_programs (pw_store w') = t_programs (pw_store w)"
  then have "program_rows_ok w' = program_rows_ok w" "program_keys w' = program_keys w" by (simp_all add: program_rows_ok_def program_keys_def)
  then show ?thesis by (simp add: keyed_def)
qed

lemma keyed_reads: "reads.within m \<Longrightarrow> keyed.within ks m"
  unfolding reads.within_def keyed.within_def using keyed_same by (simp add: same_rows_def)

lemmas keyed_calls [framed] = table_reads [THEN keyed_reads] calls_read [THEN keyed_reads] agent_calls_read [THEN keyed_reads]
  delivery_reads [THEN keyed_reads] ensure_on_agent_reads [THEN keyed_reads] upgrade_on_agent_reads [THEN keyed_reads]

lemma row_key: "program_rows_ok w \<Longrightarrow> r \<in> set (t_programs (pw_store w)) \<Longrightarrow> row_id r = fst (key_of (row_doc r)) \<and> key_of (row_doc r) \<in> set (program_keys w)"
  by (auto simp: program_rows_ok_def list_all_iff program_keys_def key_of_def)

lemma key_unique:
  assumes "program_rows_ok w" "k \<in> set (program_keys w)" "k' \<in> set (program_keys w)"
  shows "fst k = fst k' \<Longrightarrow> k = k'" "snd k = snd k' \<Longrightarrow> k = k'"
  using assms by (auto simp: program_rows_ok_def distinct_map inj_on_def)

lemma update_keyed:
  assumes ok: "program_rows_ok w" and k: "key_of p \<in> set (program_keys w)"
    and t: "t_programs (pw_store w') = map (\<lambda>x. if row_id x = meta_id (p_meta p) then x\<lparr>row_doc := p\<rparr> else x) (t_programs (pw_store w))"
  shows "program_rows_ok w'" "program_keys w' = program_keys w"
proof -
  have same: "key_of p = key_of (row_doc r)" if "r \<in> set (t_programs (pw_store w))" "row_id r = meta_id (p_meta p)" for r
    using key_unique(1) [OF ok k, of "key_of (row_doc r)"] row_key [OF ok that(1)] that(2) by (simp add: key_of_def)
  have "key_of (row_doc (if row_id r = meta_id (p_meta p) then r\<lparr>row_doc := p\<rparr> else r)) = key_of (row_doc r)" if "r \<in> set (t_programs (pw_store w))" for r
    using same [OF that] by simp
  then show keys: "program_keys w' = program_keys w" by (simp add: program_keys_def t)
  have "(row_id r, row_scope r, row_name r) = (meta_id (p_meta (row_doc r)), p_lab (p_spec (row_doc r)), program_name (row_doc r))" if "r \<in> set (t_programs (pw_store w'))" for r
  proof -
    have "r \<in> (\<lambda>x. if row_id x = meta_id (p_meta p) then x\<lparr>row_doc := p\<rparr> else x) ` set (t_programs (pw_store w))" using that unfolding t by simp
    then obtain x where x: "r = (if row_id x = meta_id (p_meta p) then x\<lparr>row_doc := p\<rparr> else x)" "x \<in> set (t_programs (pw_store w))" by (rule imageE)
    have "(row_id x, row_scope x, row_name x) = (meta_id (p_meta (row_doc x)), p_lab (p_spec (row_doc x)), program_name (row_doc x))"
      using ok x(2) by (auto simp: program_rows_ok_def list_all_iff)
    then show ?thesis using x same by (auto simp: key_of_def)
  qed
  then show "program_rows_ok w'" using ok keys by (auto simp: program_rows_ok_def list_all_iff)
qed

lemma save_program_keyed: "key_of p \<in> set ks \<Longrightarrow> keyed.within ks (save_program p)"
  unfolding keyed.within_def
proof
  fix w assume k: "key_of p \<in> set ks"
  show "keyed ks w (snd (save_program p w))"
  proof (cases "save_program p w")
    case (Pair r w')
    show ?thesis
    proof (cases r)
      case (Inl e)
      then show ?thesis using save_program_error Pair keyed_same by simp
    next
      case (Inr p')
      note s = save_program_ok [OF Pair [unfolded Inr]]
      have t: "t_programs (pw_store w') = map (\<lambda>x. if row_id x = meta_id (p_meta p') then x\<lparr>row_doc := p'\<rparr> else x) (t_programs (pw_store w))" "key_of p' = key_of p"
        using s(1,2) by (auto simp: update_doc_def touch_program_def key_of_def split: if_splits)
      then show ?thesis using update_keyed [of w p' w'] k Pair by (auto simp: keyed_def)
    qed
  qed
qed

lemma stored_key:
  assumes "program_rows_ok w" "get_doc i (t_programs (pw_store w)) = Inr p"
  shows "key_of p \<in> set (program_keys w)" "meta_id (p_meta p) = i"
  using assms row_key [OF assms(1)] by (auto simp: get_doc_def find_Some_iff key_of_def split: option.splits)

lemma rows_ids: "program_rows_ok w \<Longrightarrow> program_ids_ok w"
  by (auto simp: program_rows_ok_def program_ids_ok_def list_all_iff)

text \<open>What follows a read of a row knows its key.\<close>

lemma keyed_get:
  assumes "\<And>p. key_of p \<in> set ks \<Longrightarrow> keyed.within ks (f p)"
  shows "keyed.within ks (abind (pdb c (get_program i)) f)"
  unfolding keyed.within_def
proof
  fix w
  show "keyed ks w (snd (abind (pdb c (get_program i)) f w))"
  proof (cases "pdb c (get_program i) w")
    case (Pair r w1)
    have 1: "keyed ks w w1" by (rule keyed.withinD [OF keyed_calls(1) Pair])
    show ?thesis
    proof (cases r)
      case (Inl e)
      then show ?thesis using 1 Pair by (simp add: abind_def)
    next
      case (Inr p)
      have "keyed ks w (snd (f p w1))" if "program_rows_ok w" "program_keys w = ks"
      proof -
        have "key_of p \<in> set ks" using stored_key(1) [OF that(1) get_program_ok [OF Pair [unfolded Inr]]] that(2) by simp
        then have "keyed ks w1 (snd (f p w1))" using assms by (simp add: keyed.within_def)
        then show ?thesis using keyed.trans [OF 1] by blast
      qed
      then show ?thesis using Pair Inr by (auto simp: abind_def keyed_def)
    qed
  qed
qed

lemma keyed_list:
  assumes "\<And>ps. (\<forall>p \<in> set ps. key_of p \<in> set ks) \<Longrightarrow> keyed.within ks (f ps)"
  shows "keyed.within ks (abind (pdb c (list_programs lid)) f)"
  unfolding keyed.within_def
proof
  fix w
  show "keyed ks w (snd (abind (pdb c (list_programs lid)) f w))"
  proof (cases "pdb c (list_programs lid) w")
    case (Pair r w1)
    have 1: "keyed ks w w1" by (rule keyed.withinD [OF keyed_calls(4) Pair])
    show ?thesis
    proof (cases r)
      case (Inl e)
      then show ?thesis using 1 Pair by (simp add: abind_def)
    next
      case (Inr ps)
      have ps: "ps = list_docs lid (t_programs (pw_store w))" using Pair Inr by (auto simp: pdb_ok list_programs_def db_call_Inr)
      have "keyed ks w (snd (f ps w1))" if "program_rows_ok w" "program_keys w = ks"
      proof -
        have "\<forall>p \<in> set ps. key_of p \<in> set ks" using row_key [OF that(1)] that(2) by (auto simp: ps list_docs_def)
        then have "keyed ks w1 (snd (f ps w1))" using assms by (simp add: keyed.within_def)
        then show ?thesis using keyed.trans [OF 1] by blast
      qed
      then show ?thesis using Pair Inr by (auto simp: abind_def keyed_def)
    qed
  qed
qed

section \<open>Requests keep the keys\<close>

lemma resolve_agent_keyed [framed]: "keyed.within ks (resolve_agent u lid p)"
  by (rule keyed_reads) (unfold resolve_agent_def, intro framed)

lemma switch_program_keyed: "keyed.within ks (switch_program u lid i on)"
proof -
  have "switch_program u lid i on = abind (pdb ''get program'' (get_program i)) (\<lambda>p. if p_lab (p_spec p) \<noteq> lid then afail (NoSuchRow i) else
     abind (resolve_agent u lid p) (\<lambda>a. abind (alift a) (\<lambda>addr.
     abind (if on then abind (ensure_on_agent u lid addr p) (\<lambda>_. aerr AgentFailed (agent_start u addr (program_name p)))
       else aerr AgentFailed (agent_stop u addr (program_name p))) (\<lambda>st.
     abind (observed_now st) (\<lambda>st.
       save_program (p\<lparr>p_spec := (p_spec p)\<lparr>desired_state := if on \<and> p_type (p_spec p) \<noteq> ''oneshot'' then ProgramDesiredRunning else ProgramDesiredStopped\<rparr>,
         p_status := st\<rparr>))))))"
    by (auto simp: switch_program_def program_agent_def abind_def aret_def afail_def fun_eq_iff split: prod.split sum.split)
  then show ?thesis
    by (simp only:) (intro keyed_get framed save_program_keyed; simp add: key_of_def)
qed

lemma upgrade_keyed: "keyed.within ks (upgrade_program u lid i v)"
  unfolding upgrade_program_def by (intro keyed_get framed save_program_keyed; simp add: key_of_def upgraded_def)

lemma refresh_group_keyed: "(\<forall>p \<in> set ps. key_of p \<in> set ks) \<Longrightarrow> keyed.within ks (refresh_group infos sn ps)"
proof (induction ps)
  case (Cons p ps)
  have "keyed.within ks (refresh_program infos p)" unfolding refresh_program_def Let_def
    by (intro framed save_program_keyed) (use Cons.prems in \<open>simp add: key_of_def\<close>)
  then show ?case using Cons by (simp split del: if_split) (intro framed)
qed (simp add: framed)

section \<open>Rows that come and go\<close>

definition shrinks :: "prog_world \<Rightarrow> prog_world \<Rightarrow> bool" where
  "shrinks w w' \<longleftrightarrow> (program_rows_ok w \<longrightarrow> program_rows_ok w' \<and> set (program_keys w') \<subseteq> set (program_keys w))"

interpretation shrinks: call_frame shrinks
  by unfold_locales (auto simp: shrinks_def)

lemma keyed_shrinks: "(\<And>ks. keyed.within ks m) \<Longrightarrow> shrinks.within m"
  unfolding shrinks.within_def
proof
  fix w assume a: "\<And>ks. keyed.within ks m"
  have "keyed (program_keys w) w (snd (m w))" using a by (simp add: keyed.within_def)
  then show "shrinks w (snd (m w))" by (auto simp: keyed_def shrinks_def)
qed

lemmas shrinking_calls [framed] = keyed_calls [THEN keyed_shrinks] resolve_agent_keyed [THEN keyed_shrinks]

lemma delete_row_shrinks [framed]: "shrinks.within (pdb c (delete_program_row i))"
  unfolding shrinks.within_def
proof
  fix w
  show "shrinks w (snd (pdb c (delete_program_row i) w))"
  proof (cases "delete_program_row i (pw_store w)")
    case (Pair r s)
    have w': "snd (pdb c (delete_program_row i) w) = w\<lparr>pw_store := s\<rparr>" by (simp add: pdb_def Pair)
    have t: "t_programs s = t_programs (pw_store w) \<or> t_programs s = filter (\<lambda>r. row_id r \<noteq> i) (t_programs (pw_store w))"
    proof (cases r)
      case (Inl e)
      then show ?thesis using Pair db_call_Inl unfolding delete_program_row_def by force
    next
      case (Inr x)
      then show ?thesis using Pair by (auto simp: delete_program_row_def db_call_Inr split: if_splits)
    qed
    then show ?thesis unfolding w' shrinks_def by (auto simp: program_rows_ok_def program_keys_def list_all_iff intro: distinct_map_filter)
  qed
qed

lemma delete_program_shrinks: "shrinks.within (delete_program u lid i)"
  unfolding delete_program_def program_agent_def by (intro framed)

lemma prune_shrinks: "shrinks.within (prune_server_programs lid rs)"
  unfolding prune_server_programs_def by (intro framed)

lemma insert_program_rows:
  assumes "program_rows_ok w" "pdb c (insert_program p) w = (Inr x, w')"
  shows "program_rows_ok w' \<and> program_keys w' = program_keys w @ [key_of p]"
proof -
  have t: "t_programs (pw_store w') = t_programs (pw_store w) @ [\<lparr>row_id = meta_id (p_meta p), row_scope = p_lab (p_spec p), row_name = program_name p, row_doc = p\<rparr>]"
    and new: "\<not> list_ex (\<lambda>r. row_id r = meta_id (p_meta p) \<or> (row_scope r = p_lab (p_spec p) \<and> row_name r = program_name p \<and>
         server_name (p_spec (row_doc r)) = server_name (p_spec p))) (t_programs (pw_store w))"
    using assms(2) by (auto simp: pdb_ok insert_program_def db_call_Inr split: if_splits)
  have k: "program_keys w' = program_keys w @ [key_of p]" by (simp add: program_keys_def t)
  have n: "fst (key_of p) \<noteq> fst (key_of (row_doc r)) \<and> snd (key_of p) \<noteq> snd (key_of (row_doc r))" if "r \<in> set (t_programs (pw_store w))" for r
    using new that assms(1) by (auto simp: list_ex_iff program_rows_ok_def list_all_iff key_of_def)
  then have "fst (key_of p) \<notin> fst ` set (program_keys w)" "snd (key_of p) \<notin> snd ` set (program_keys w)"
    unfolding program_keys_def set_map image_image by blast+
  then show ?thesis using assms(1) k by (auto simp: program_rows_ok_def t)
qed

lemma deploy_created_keyed: "keyed.within ks (deploy_created u lb p on)"
  unfolding deploy_created_def Let_def by (intro framed)

lemma create_one_rows: "program_rows_ok w \<Longrightarrow> program_rows_ok (snd (create_one u lb nm sp n pkg on w))"
proof -
  assume ok: "program_rows_ok w"
  define i where "i = new_id ''prog'' (u_draw u (pw_drawn w))"
  define p where "p = new_program_on i (pw_now w) lb nm sp n pkg on"
  define w1 where "w1 = w\<lparr>pw_drawn := Suc (pw_drawn w)\<rparr>"
  let ?rest = "if generation (lab_meta lb) > 0 then abind (deploy_created u lb p on) (\<lambda>st. save_program (p\<lparr>p_status := st\<rparr>)) else aret p"
  have eq: "create_one u lb nm sp n pkg on w = abind (pdb ''persist program'' (insert_program p)) (\<lambda>_. ?rest) w1"
    by (simp add: create_one_def Let_def abind_def [of "aget pw_now"] abind_def [of "draw_program_id u"] aget_def draw_program_id_def i_def p_def w1_def)
  have ok1: "program_rows_ok w1" using ok by (simp add: w1_def program_rows_ok_def program_keys_def)
  obtain r w2 where c: "pdb ''persist program'' (insert_program p) w1 = (r, w2)" by force
  show ?thesis
  proof (cases r)
    case (Inl e)
    have "t_programs (pw_store w2) = t_programs (pw_store w1)"
      using c Inl by (auto simp: pdb_def insert_program_def emap_err_def dest!: db_call_Inl split: prod.splits sum.splits)
    then have "program_rows_ok w2" using ok1 by (simp add: program_rows_ok_def program_keys_def)
    then show ?thesis using c Inl by (simp add: eq abind_def)
  next
    case (Inr x)
    note ins = insert_program_rows [OF ok1 c [unfolded Inr]]
    have "keyed.within (program_keys w2) ?rest"
      by (intro framed deploy_created_keyed save_program_keyed) (use ins in \<open>simp add: key_of_def\<close>)
    then have "keyed (program_keys w2) w2 (snd (?rest w2))" by (simp add: keyed.within_def split del: if_split)
    then have "program_rows_ok (snd (?rest w2))" using ins by (simp add: keyed_def)
    then show ?thesis using c Inr by (simp add: eq abind_def split del: if_split)
  qed
qed

lemma create_on_rows: "program_rows_ok w \<Longrightarrow> program_rows_ok (snd (create_on u lb nm sp pkg on by_id is taken ps fs w))"
proof (induction u lb nm sp pkg on by_id "is" taken ps fs w rule: create_on.induct)
  case (2 u lb nm sp pkg on by_id i "is" taken ps fs w)
  show ?case
  proof (cases "by_id i")
    case None
    then show ?thesis using "2.IH"(1) "2.prems" by simp
  next
    case (Some n)
    show ?thesis
    proof (cases "n_role n \<noteq> RoleServer \<or> node_name n \<in> taken")
      case True
      then show ?thesis using "2.IH"(2,3) [OF Some] "2.prems" Some by auto
    next
      case False
      obtain r w1 where c: "create_one u lb nm sp n pkg on w = (r, w1)" by force
      have 1: "program_rows_ok w1" using create_one_rows [OF "2.prems", of u lb nm sp n pkg on] c by simp
      show ?thesis
      proof (cases r)
        case (Inl e)
        then show ?thesis using 1 c Some False by simp
      next
        case (Inr p)
        then show ?thesis using "2.IH"(4) [OF Some] False c 1 Some by auto
      qed
    qed
  qed
qed simp

lemma create_program_rows:
  assumes "program_rows_ok w"
  shows "program_rows_ok (snd (create_program u lid nm sp ids on w))"
proof (cases "creation_inputs u lid nm sp ids w")
  case (Pair r w1)
  have k: "keyed.within (program_keys w) (creation_inputs u lid nm sp ids)" unfolding creation_inputs_def by (intro framed)
  have 1: "program_rows_ok w1" using keyed.withinD [OF k Pair] assms by (simp add: keyed_def)
  show ?thesis
  proof (cases r)
    case (Inl e)
    then show ?thesis using 1 Pair by (simp add: create_program_def)
  next
    case (Inr x)
    obtain sp' pkg lb ns known where x: "x = (sp', pkg, lb, ns, known)" by (cases x) force
    let ?taken = "(\<lambda>p. server_name (p_spec p)) ` set (filter (\<lambda>p. program_name p = nm) known)"
    have "snd (create_program u lid nm sp ids on w) = snd (create_on u lb nm sp' pkg on (nodes_by_id ns) ids ?taken [] [] w1)"
      using Pair Inr x by (simp add: create_program_def case_prod_beta)
    then show ?thesis using create_on_rows [OF 1] by metis
  qed
qed

end
