(* ===== verification/ProgramRestore.thy ===== *)
theory ProgramRestore
  imports ProgramRows "HOL-Library.Multiset"
begin

text \<open>
  Restoring after a deploy: the retry loop ends, and a restore that succeeds has brought back every program of the
  servers it was asked for.
\<close>

section \<open>The retry loop\<close>

text \<open>A loop that succeeds ends with a call that succeeds, in a state that the earlier calls led to.\<close>

lemma retry_ok:
  assumes R: "\<And>v. R v v" "\<And>v v' v''. R v v' \<Longrightarrow> R v' v'' \<Longrightarrow> R v v''" "\<And>v. R v (snd (f v))" "\<And>v. R v (snd (spend v))" "\<And>v t. R v (v\<lparr>pw_now := t\<rparr>)"
  shows "retry late cancelled deadline f w = (Inr x, w') \<Longrightarrow> \<exists>w1 w2 y. R w w1 \<and> f w1 = (Inr y, w2) \<and> w' = snd (spend w2)"
  using R
proof (induction late cancelled deadline f w rule: retry.induct)
  case (1 late cancelled deadline f w)
  obtain r w2 where f: "f w = (r, w2)" by force
  show ?case
  proof (cases r)
    case (Inr y)
    then have "w' = snd (spend w2)" using "1.prems"(1) f by (simp add: retry.simps [of late cancelled deadline f w])
    then show ?thesis using f Inr "1.prems"(2) by blast
  next
    case (Inl e)
    let ?w3 = "snd (spend w2)" let ?t = "max (pw_now w) (pw_now ?w3)"
    have g: "\<not> deadline < ?t" "\<not> cancelled (Suc ?t)" and rec: "retry late cancelled deadline f (?w3\<lparr>pw_now := Suc ?t\<rparr>) = (Inr x, w')"
      using "1.prems"(1) f Inl by (simp_all add: retry.simps [of late cancelled deadline f w] Let_def split: if_splits)
    have "\<exists>w1 w4 y. R (?w3\<lparr>pw_now := Suc ?t\<rparr>) w1 \<and> f w1 = (Inr y, w4) \<and> w' = snd (spend w4)"
      by (rule "1.IH" [OF f [symmetric] Inl refl refl g rec]) (blast intro: "1.prems"(2-6))+
    then obtain w1 w4 y where
      *: "R (?w3\<lparr>pw_now := Suc ?t\<rparr>) w1" "f w1 = (Inr y, w4)" "w' = snd (spend w4)" by blast
    have "R w w2" using "1.prems"(4) [of w] f by simp
    then have "R w ?w3" using "1.prems"(3,5) by blast
    then have "R w (?w3\<lparr>pw_now := Suc ?t\<rparr>)" using "1.prems"(3,6) by blast
    then show ?thesis using * "1.prems"(3) by blast
  qed
qed

lemma retry_within:
  assumes R: "\<And>v. R v v" "\<And>v v' v''. R v v' \<Longrightarrow> R v' v'' \<Longrightarrow> R v v''" "\<And>v. R v (snd (f v))" "\<And>v. R v (snd (spend v))" "\<And>v t. R v (v\<lparr>pw_now := t\<rparr>)"
  shows "R w (snd (retry late cancelled deadline f w))"
  using R
proof (induction late cancelled deadline f w rule: retry.induct)
  case (1 late cancelled deadline f w)
  obtain r w2 where f: "f w = (r, w2)" by force
  let ?w3 = "snd (spend w2)" let ?t = "max (pw_now w) (pw_now ?w3)"
  have "R w w2" using "1.prems"(3) [of w] f by simp
  then have 3: "R w ?w3" using "1.prems"(2,4) by blast
  show ?case
  proof (cases "(\<exists>x. r = Inr x) \<or> deadline < ?t \<or> cancelled (Suc ?t)")
    case True
    then show ?thesis using 3 f by (cases r) (auto simp: retry.simps [of late cancelled deadline f w] Let_def)
  next
    case False
    then obtain e where e: "r = Inl e" by (cases r) auto
    have "R (?w3\<lparr>pw_now := Suc ?t\<rparr>) (snd (retry late cancelled deadline f (?w3\<lparr>pw_now := Suc ?t\<rparr>)))"
      using "1.IH" [OF f [symmetric] e refl refl] False "1.prems" by blast
    moreover have "R w (?w3\<lparr>pw_now := Suc ?t\<rparr>)" using 3 "1.prems"(2,5) by blast
    ultimately have "R w (snd (retry late cancelled deadline f (?w3\<lparr>pw_now := Suc ?t\<rparr>)))" using "1.prems"(2) by blast
    then show ?thesis using False f e by (simp add: retry.simps [of late cancelled deadline f w] Let_def)
  qed
qed

lemma clock_frames:
  "apart S v (v\<lparr>pw_now := t\<rparr>)" "same_rows v (v\<lparr>pw_now := t\<rparr>)" "apart S v (snd (spend v))" "same_rows v (snd (spend v))"
  by (simp_all add: apart_hosts same_rows_store spend_def)

lemma retry_framed [framed]:
  "agents.within S f \<Longrightarrow> agents.within S (retry late cancelled deadline f)" "reads.within f \<Longrightarrow> reads.within (retry late cancelled deadline f)"
proof -
  assume "agents.within S f"
  then have "\<And>v. apart S v (snd (f v))" by (simp add: agents.within_def)
  then show "agents.within S (retry late cancelled deadline f)" unfolding agents.within_def
    by (intro allI retry_within [where R = "apart S"] agents.refl clock_frames) (auto intro: agents.trans)
next
  assume "reads.within f"
  then have "\<And>v. same_rows v (snd (f v))" by (simp add: reads.within_def)
  then show "reads.within (retry late cancelled deadline f)" unfolding reads.within_def
    by (intro allI retry_within [where R = same_rows] reads.refl clock_frames) (auto intro: reads.trans)
qed

section \<open>One program\<close>

text \<open>What a redeploy promises of a program: its current definition on the agent of its server, and running when that is
  desired or the program starts by itself.\<close>

definition brought_back :: "program_env \<Rightarrow> lab \<Rightarrow> program \<Rightarrow> prog_world \<Rightarrow> bool" where
  "brought_back u lb p w \<longleftrightarrow> (\<exists>a sp'. u_addr u (meta_name (lab_meta lb)) (server_name (p_spec p)) = Inr a \<and> accepted (wire_spec p) sp' \<and>
     program_defined w a (program_name p) = Some sp' \<and>
     (program_running w a (program_name p) \<longleftrightarrow> desired_state (p_spec p) = ProgramDesiredRunning \<or> auto_start (p_spec p)))"

lemma restore_one_ok:
  assumes "restore_one u lb p w = (Inr p', w')" "world_ok w"
  shows "world_ok w' \<and> brought_back u lb p w' \<and> p_spec p' = p_spec p \<and> p_meta p' = p_meta p"
proof -
  let ?go = "desired_state (p_spec p) = ProgramDesiredRunning \<or> auto_start (p_spec p)"
  obtain a w2 st w3 where a: "u_addr u (meta_name (lab_meta lb)) (server_name (p_spec p)) = Inr a"
    and 2: "retry NotReachable (u_cancelled u) (pw_now w + agent_restore_timeout) (ensure_on_agent u (meta_id (lab_meta lb)) a p) w = (Inr (), w2)"
    and 3: "(if ?go then aerr NotStarted (agent_start u a (program_name p)) else aret (status_of ProgramStateConfigured)) w2 = (Inr st, w3)"
    and w': "w' = w3" "p_spec p' = p_spec p \<and> p_meta p' = p_meta p"
    using assms(1) by (auto simp: restore_one_def agent_addr_def observed_now_def emap_err_def split: sum.splits simp del: if_split)
  have "agents.within UNIV (ensure_on_agent u (meta_id (lab_meta lb)) a p)" by (intro framed) simp
  then have R: "apart UNIV v (snd (ensure_on_agent u (meta_id (lab_meta lb)) a p v))" for v by (simp add: agents.within_def)
  have "\<exists>w1 w4 y. apart UNIV w w1 \<and> ensure_on_agent u (meta_id (lab_meta lb)) a p w1 = (Inr y, w4) \<and> w2 = snd (spend w4)"
    by (rule retry_ok [OF _ _ _ _ _ 2]) (auto intro: R agents.refl agents.trans clock_frames)
  then obtain w1 w4 y where 1: "apart UNIV w w1" "ensure_on_agent u (meta_id (lab_meta lb)) a p w1 = (Inr y, w4)" "w2 = snd (spend w4)" by blast
  have ok1: "world_ok w1" using 1(1) assms(2) by (simp add: apart_def)
  note e = ensure_on_agent_ok [OF 1(2) ok1]
  have h: "world_ok w2" "program_running w2 = program_running w4" "program_defined w2 = program_defined w4"
    using 1(3) e(1) by (simp_all add: spend_def world_ok_def program_running_def program_defined_def fun_eq_iff)
  obtain sp' where sp': "accepted (wire_spec p) sp'" "program_defined w2 a (program_name p) = Some sp'" using e(4) h(3) by auto
  have nr: "\<not> program_running w2 a (program_name p)" using e(2,3) h(2) by simp
  show ?thesis
  proof (cases ?go)
    case True
    then have s: "agent_start u a (program_name p) w2 = (Inr st, w3)" using 3 by simp
    show ?thesis using agent_start_ok [OF s h(1)] True sp' a w' by (auto simp: brought_back_def)
  next
    case False
    then have "w3 = w2" using 3 by simp
    then show ?thesis using h(1) nr sp' a w' False by (auto simp: brought_back_def)
  qed
qed

lemma restore_one_within: "agents.within (UNIV \<times> {program_name p} \<inter> {(a, n). u_addr u (meta_name (lab_meta lb)) (server_name (p_spec p)) = Inr a}) (restore_one u lb p)"
proof (cases "u_addr u (meta_name (lab_meta lb)) (server_name (p_spec p))")
  case (Inl e)
  then show ?thesis unfolding restore_one_def agent_addr_def by (simp add: emap_err_def alift_bind framed)
next
  case (Inr a)
  then show ?thesis unfolding restore_one_def agent_addr_def
    by (simp add: emap_err_def alift_bind split del: if_split) (intro framed; simp)
qed

section \<open>All programs of a lab\<close>

definition restore_targets :: "program_env \<Rightarrow> lab \<Rightarrow> program \<Rightarrow> (string \<times> string) set" where
  "restore_targets u lb p = {(a, n). n = program_name p \<and> u_addr u (meta_name (lab_meta lb)) (server_name (p_spec p)) = Inr a}"

definition in_scope :: "node list \<Rightarrow> program \<Rightarrow> bool" where
  "in_scope ns p \<longleftrightarrow> (case servers_by_name ns (server_name (p_spec p)) of None \<Rightarrow> False | Some n \<Rightarrow> n_role n = RoleServer)"

lemma brought_back_same: "p_spec q = (p_spec p)\<lparr>server_id := i\<rparr> \<Longrightarrow> p_meta q = p_meta p \<Longrightarrow> brought_back u lb q w = brought_back u lb p w"
  by (simp add: brought_back_def wire_spec_def)

lemma restore_program_ok:
  assumes "restore_program u lb ns p w = (Inr x, w')" "world_ok w"
  shows "world_ok w' \<and> (in_scope ns p \<longrightarrow> brought_back u lb p w')"
proof (cases "in_scope ns p")
  case False
  then have "w' = w" using assms(1) by (auto simp: restore_program_def in_scope_def split: option.splits)
  then show ?thesis using assms(2) False by simp
next
  case True
  then obtain n where n: "servers_by_name ns (server_name (p_spec p)) = Some n" "n_role n = RoleServer" by (auto simp: in_scope_def split: option.splits)
  let ?q = "p\<lparr>p_spec := (p_spec p)\<lparr>server_id := node_id n\<rparr>\<rparr>"
  obtain p' w1 p'' where 1: "restore_one u lb ?q w = (Inr p', w1)" and 2: "save_program p' w1 = (Inr p'', w')"
    using assms(1) n by (auto simp: restore_program_def)
  have r: "world_ok w1 \<and> brought_back u lb p w1" using restore_one_ok [OF 1 assms(2)] brought_back_same [of ?q "node_id n" p u lb] by simp
  have h: "pw_hosts w' = pw_hosts w1" by (rule save_program_ok(3) [OF 2])
  then have "world_ok w' = world_ok w1" "brought_back u lb p w' = brought_back u lb p w1"
    by (simp_all add: world_ok_def brought_back_def program_running_def program_defined_def)
  then show ?thesis using r by simp
qed

lemma restore_program_within: "agents.within (restore_targets u lb p) (restore_program u lb ns p)"
proof -
  have eq: "UNIV \<times> {program_name q} \<inter> {(a, n). u_addr u (meta_name (lab_meta lb)) (server_name (p_spec q)) = Inr a} = restore_targets u lb q" for q
    by (auto simp: restore_targets_def)
  have "agents.within (restore_targets u lb p) (restore_one u lb (p\<lparr>p_spec := (p_spec p)\<lparr>server_id := node_id n\<rparr>\<rparr>))" for n
    using restore_one_within [of "p\<lparr>p_spec := (p_spec p)\<lparr>server_id := node_id n\<rparr>\<rparr>" u lb] unfolding eq by (simp add: restore_targets_def)
  then show ?thesis unfolding restore_program_def by (intro framed)
qed

lemma brought_back_apart:
  assumes "apart S w w'" "world_ok w" "S \<inter> restore_targets u lb p = {}"
  shows "brought_back u lb p w' = brought_back u lb p w"
proof (cases "u_addr u (meta_name (lab_meta lb)) (server_name (p_spec p))")
  case (Inl e)
  then show ?thesis by (simp add: brought_back_def)
next
  case (Inr a)
  then have "(a, program_name p) \<notin> S" using assms(3) by (auto simp: restore_targets_def)
  then have "program_defined w' a (program_name p) = program_defined w a (program_name p)" "program_running w' a (program_name p) = program_running w a (program_name p)"
    using assms(1,2) by (auto simp: apart_def)
  then show ?thesis using Inr by (simp add: brought_back_def)
qed

lemma restore_each:
  assumes "aeach (restore_program u lb ns) ps w = (Inr x, w')" "world_ok w" "distinct (map (\<lambda>p. (program_name p, server_name (p_spec p))) ps)"
    and inj: "\<And>s s' a. u_addr u (meta_name (lab_meta lb)) s = Inr a \<Longrightarrow> u_addr u (meta_name (lab_meta lb)) s' = Inr a \<Longrightarrow> s = s'"
  shows "world_ok w' \<and> (\<forall>p \<in> set ps. in_scope ns p \<longrightarrow> brought_back u lb p w')"
  using assms(1-3)
proof (induction ps arbitrary: w)
  case Nil
  then show ?case by simp
next
  case (Cons p ps)
  obtain y w1 where 1: "restore_program u lb ns p w = (Inr y, w1)" and 2: "aeach (restore_program u lb ns) ps w1 = (Inr x, w')" using Cons.prems(1) by auto
  note r = restore_program_ok [OF 1 Cons.prems(2)]
  have tail: "world_ok w' \<and> (\<forall>p \<in> set ps. in_scope ns p \<longrightarrow> brought_back u lb p w')" using Cons.IH [OF 2] r Cons.prems(3) by simp
  let ?S = "\<Union>q \<in> set ps. restore_targets u lb q"
  have "agents.within ?S (restore_program u lb ns q)" if "q \<in> set ps" for q
    using restore_program_within [of u lb q ns] apart_mono [of "restore_targets u lb q" ?S] that by (auto simp: agents.within_def)
  then have "agents.within ?S (aeach (restore_program u lb ns) ps)" by (rule agents.within_each)
  from agents.withinD [OF this 2] have ap: "apart ?S w1 w'" .
  have "?S \<inter> restore_targets u lb p = {}" using Cons.prems(3) inj by (fastforce simp: restore_targets_def)
  from brought_back_apart [OF ap _ this] r have "in_scope ns p \<longrightarrow> brought_back u lb p w'" by blast
  then show ?case using tail by simp
qed

lemma list_docs_distinct:
  assumes "program_rows_ok w"
  shows "distinct (map (\<lambda>p. (program_name p, server_name (p_spec p))) (restore_order (list_docs lid (t_programs (pw_store w)))))"
proof -
  let ?t = "t_programs (pw_store w)" let ?f = "\<lambda>p. (program_name p, server_name (p_spec p))"
  let ?rs = "filter (\<lambda>x. row_scope x = lid) ?t"
  have inj: "inj_on (\<lambda>r. snd (key_of (row_doc r))) (set ?t)" "distinct ?t" using assms by (auto simp: program_rows_ok_def program_keys_def distinct_map comp_def)
  have lab: "p_lab (p_spec (row_doc r)) = lid" if "r \<in> set ?rs" for r using that assms by (auto simp: program_rows_ok_def list_all_iff)
  have "inj_on (\<lambda>r. ?f (row_doc r)) (set ?rs)"
  proof (rule inj_onI)
    fix r r' assume r: "r \<in> set ?rs" "r' \<in> set ?rs" "?f (row_doc r) = ?f (row_doc r')"
    then have "snd (key_of (row_doc r)) = snd (key_of (row_doc r'))" using lab [OF r(1)] lab [OF r(2)] by (simp add: key_of_def)
    then show "r = r'" using inj(1) r(1,2) by (auto dest: inj_onD)
  qed
  then have "distinct (map (\<lambda>r. ?f (row_doc r)) ?rs)" using inj(2) by (simp add: distinct_map)
  moreover have "mset (map ?f (restore_order (list_docs lid ?t))) = mset (map (\<lambda>r. ?f (row_doc r)) ?rs)"
    by (simp add: restore_order_def list_docs_def multiset.map_comp comp_def)
  ultimately show ?thesis using mset_eq_imp_distinct_iff by blast
qed

text \<open>C28: When the programs of a lab are restored after a deploy without an error, every one of them whose server is in the scope is
  defined on that server's agent as its row says, and runs exactly when that is desired or it starts by itself,
  whatever state the agents were in before. The servers have addresses of their own.\<close>
theorem restore_brings_programs_back:
  assumes "restore_programs u lb ns w = (Inr (), w')" "world_ok w" "program_rows_ok w"
    and "\<And>s s' a. u_addr u (meta_name (lab_meta lb)) s = Inr a \<Longrightarrow> u_addr u (meta_name (lab_meta lb)) s' = Inr a \<Longrightarrow> s = s'"
    and "p \<in> set (list_docs (meta_id (lab_meta lb)) (t_programs (pw_store w)))" "in_scope ns p"
  shows "brought_back u lb p w'"
proof -
  obtain ps w1 where 1: "pdb ''list programs'' (list_programs (meta_id (lab_meta lb))) w = (Inr ps, w1)"
    and 2: "aeach (restore_program u lb ns) (restore_order ps) w1 = (Inr (), w')" using assms(1) by (auto simp: restore_programs_def)
  have ps: "ps = list_docs (meta_id (lab_meta lb)) (t_programs (pw_store w))" using 1 by (auto simp: pdb_ok list_programs_def db_call_Inr)
  have "world_ok w1" using 1 assms(2) by (auto simp: pdb_ok world_ok_def)
  from restore_each [OF 2 this, unfolded ps, OF list_docs_distinct [OF assms(3)] assms(4)] assms(5,6)
  show ?thesis by (simp add: restore_order_def)
qed

theorem restore_brings_programs_back_witness:
  "let w = (snd (try_created True []))\<lparr>pw_hosts := (\<lambda>_. try_host), pw_net := [Lost ''starting'', Lost ''starting'']\<rparr>;
     w' = snd (restore_programs try_env try_lab (map row_doc (t_nodes (pw_store w))) w) in
   \<not> program_running w ''s1'' ''web'' \<and> program_running w' ''s1'' ''web'' \<and> pw_now w' = pw_now w + 2"
proof -
  let ?w = "(snd (try_created True []))\<lparr>pw_hosts := (\<lambda>_. try_host), pw_net := [Lost ''starting'', Lost ''starting'']\<rparr>"
  let ?ns = "map row_doc (t_nodes (pw_store ?w))"
  have all: "let w = ?w; ns = map row_doc (t_nodes (pw_store w)); r = restore_programs try_env try_lab ns w; ps = t_programs (pw_store w) in
      answered r \<and> list_all (\<lambda>r. (row_id r, row_scope r, row_name r) = (meta_id (p_meta (row_doc r)), p_lab (p_spec (row_doc r)), program_name (row_doc r))) ps \<and>
      distinct (map fst (map (\<lambda>r. key_of (row_doc r)) ps)) \<and> distinct (map snd (map (\<lambda>r. key_of (row_doc r)) ps)) \<and>
      (case get_doc try_id ps of Inl _ \<Rightarrow> False | Inr p \<Rightarrow> program_name p = ''web'' \<and> server_name (p_spec p) = ''s1'' \<and> desired_state (p_spec p) = ProgramDesiredRunning \<and>
         (case servers_by_name ns (server_name (p_spec p)) of None \<Rightarrow> False | Some n \<Rightarrow> n_role n = RoleServer)) \<and>
      row_scope (hd ps) = meta_id (lab_meta try_lab) \<and> get_doc try_id ps = Inr (row_doc (hd ps)) \<and> ps \<noteq> [] \<and>
      \<not> program_running w ''s1'' ''web'' \<and> pw_now (snd r) = pw_now w + 2"
    by code_simp
  have rows: "program_rows_ok ?w" using all unfolding program_rows_ok_def program_keys_def Let_def by blast
  have ok: "world_ok ?w" using try_world_ok by (simp add: world_ok_def try_world_def)
  have ans: "answered (restore_programs try_env try_lab ?ns ?w)" using all unfolding Let_def by blast
  obtain x where r: "restore_programs try_env try_lab ?ns ?w = (Inr x, snd (restore_programs try_env try_lab ?ns ?w))" by (rule answered_obtain [OF ans])
  obtain p where p: "get_doc try_id (t_programs (pw_store ?w)) = Inr p" "program_name p = ''web''" "server_name (p_spec p) = ''s1''" "desired_state (p_spec p) = ProgramDesiredRunning" "in_scope ?ns p"
    using all unfolding Let_def in_scope_def by (auto split: sum.splits)
  have addr: "u_addr try_env l n = Inr n" for l n by (simp add: try_env_def)
  have "p = row_doc (hd (t_programs (pw_store ?w)))" "t_programs (pw_store ?w) \<noteq> []" "row_scope (hd (t_programs (pw_store ?w))) = meta_id (lab_meta try_lab)"
    using all p(1) unfolding Let_def by auto
  then have "p \<in> set (list_docs (meta_id (lab_meta try_lab)) (t_programs (pw_store ?w)))" by (auto simp: list_docs_def hd_in_set)
  from restore_brings_programs_back [OF r [unfolded unit_eq [of x]] ok rows _ this p(5)]
  have "brought_back try_env try_lab p (snd (restore_programs try_env try_lab ?ns ?w))" by (simp add: try_env_def)
  then have "program_running (snd (restore_programs try_env try_lab ?ns ?w)) ''s1'' ''web''" using p unfolding brought_back_def by (auto simp: addr)
  then show ?thesis using all unfolding Let_def by blast
qed

section \<open>Pruning\<close>

lemma delete_row_ok: "pdb c (delete_program_row i) w = (Inr x, w') \<Longrightarrow> t_programs (pw_store w') = filter (\<lambda>r. row_id r \<noteq> i) (t_programs (pw_store w)) \<and> pw_hosts w' = pw_hosts w"
  by (auto simp: pdb_ok delete_program_row_def db_call_Inr split: if_splits)

lemma prune_each:
  "aeach (\<lambda>p. if server_name (p_spec p) \<in> R then pdb c (delete_program_row (meta_id (p_meta p))) else aret ()) ps w = (Inr x, w') \<Longrightarrow>
   t_programs (pw_store w') = filter (\<lambda>r. \<forall>p \<in> set ps. server_name (p_spec p) \<in> R \<longrightarrow> row_id r \<noteq> meta_id (p_meta p)) (t_programs (pw_store w)) \<and> pw_hosts w' = pw_hosts w"
proof (induction ps arbitrary: w)
  case Nil
  then show ?case by simp
next
  case (Cons p ps)
  obtain y w1 where 1: "(if server_name (p_spec p) \<in> R then pdb c (delete_program_row (meta_id (p_meta p))) else aret ()) w = (Inr y, w1)"
    and 2: "aeach (\<lambda>p. if server_name (p_spec p) \<in> R then pdb c (delete_program_row (meta_id (p_meta p))) else aret ()) ps w1 = (Inr x, w')"
    using Cons.prems by auto
  show ?case
  proof (cases "server_name (p_spec p) \<in> R")
    case True
    then have d: "pdb c (delete_program_row (meta_id (p_meta p))) w = (Inr y, w1)" using 1 by simp
    show ?thesis using Cons.IH [OF 2] delete_row_ok [OF d] True by (auto intro!: filter_cong)
  next
    case False
    then show ?thesis using Cons.IH [OF 2] 1 by simp
  qed
qed

text \<open>Pruning after a scale-in removes the rows of the programs on the removed servers of the lab, and no other row.\<close>

theorem prune_removes_their_programs:
  assumes "prune_server_programs lid removed w = (Inr (), w')" "program_rows_ok w"
  shows "t_programs (pw_store w') = filter (\<lambda>r. \<not> (row_scope r = lid \<and> server_name (p_spec (row_doc r)) \<in> set removed)) (t_programs (pw_store w)) \<and>
    pw_hosts w' = pw_hosts w"
proof -
  obtain ps w1 where 1: "pdb ''list programs'' (list_programs lid) w = (Inr ps, w1)"
    and 2: "aeach (\<lambda>p. if server_name (p_spec p) \<in> set removed then pdb ''delete program'' (delete_program_row (meta_id (p_meta p))) else aret ()) ps w1 = (Inr (), w')"
    using assms(1) by (auto simp: prune_server_programs_def)
  have ps: "ps = list_docs lid (t_programs (pw_store w))" "t_programs (pw_store w1) = t_programs (pw_store w)" "pw_hosts w1 = pw_hosts w"
    using 1 by (auto simp: pdb_ok list_programs_def db_call_Inr)
  have eq: "(\<forall>p \<in> set ps. server_name (p_spec p) \<in> set removed \<longrightarrow> row_id r \<noteq> meta_id (p_meta p)) \<longleftrightarrow>
      \<not> (row_scope r = lid \<and> server_name (p_spec (row_doc r)) \<in> set removed)" if r: "r \<in> set (t_programs (pw_store w))" for r
  proof -
    have id: "row_id r = meta_id (p_meta (row_doc r))" using assms(2) r by (auto simp: program_rows_ok_def list_all_iff)
    have same: "q = r" if "q \<in> set (t_programs (pw_store w))" "meta_id (p_meta (row_doc q)) = row_id r" for q
    proof -
      have "inj_on (\<lambda>r. fst (key_of (row_doc r))) (set (t_programs (pw_store w)))" using assms(2) by (auto simp: program_rows_ok_def program_keys_def distinct_map comp_def)
      then show ?thesis using that r id by (auto dest!: inj_onD [of _ _ q r] simp: key_of_def)
    qed
    show ?thesis using id same r by (auto simp: ps(1) list_docs_def)
  qed
  show ?thesis using prune_each [OF 2] ps(2,3) eq by (auto intro!: filter_cong)
qed

end
