(* ===== verification/ProgramCreate.thy ===== *)
theory ProgramCreate
  imports ProgramRestore
begin

text \<open>
  Creating programs: every requested server has one outcome, and the table of programs stays well-formed under every
  request, so that a name is used once on a server.
\<close>

section \<open>The table under every request\<close>

lemma keyed_result:
  assumes "keyed.within ks m" "\<And>w x w'. m w = (Inr x, w') \<Longrightarrow> keyed.within ks (f x)"
  shows "keyed.within ks (abind m f)"
  unfolding keyed.within_def
proof
  fix w
  show "keyed ks w (snd (abind m f w))"
  proof (cases "m w")
    case (Pair r w1)
    have 1: "keyed ks w w1" by (rule keyed.withinD [OF assms(1) Pair])
    show ?thesis
    proof (cases r)
      case (Inl e)
      then show ?thesis using 1 Pair by (simp add: abind_def)
    next
      case (Inr x)
      have "keyed ks w1 (snd (f x w1))" using assms(2) [of w x w1] Pair Inr by (simp add: keyed.within_def)
      then show ?thesis using keyed.trans [OF 1] Pair Inr by (simp add: abind_def)
    qed
  qed
qed

lemma restore_one_reads: "reads.within (restore_one u lb p)"
  unfolding restore_one_def by (intro framed)

lemma restore_one_key: "restore_one u lb p w = (Inr p', w') \<Longrightarrow> key_of p' = key_of p"
  by (auto simp: restore_one_def observed_now_def key_of_def)

lemma restore_program_keyed: "key_of p \<in> set ks \<Longrightarrow> keyed.within ks (restore_program u lb ns p)"
  unfolding restore_program_def
  by (intro framed keyed_result save_program_keyed keyed_reads restore_one_reads) (auto dest: restore_one_key simp: key_of_def)

lemma restore_programs_keyed: "keyed.within ks (restore_programs u lb ns)"
  unfolding restore_programs_def
  by (intro keyed_list keyed.within_each restore_program_keyed) (simp add: restore_order_def)



section \<open>One outcome for every server\<close>

lemma get_doc_append: "get_doc j (t @ [r]) = (case get_doc j t of Inr d \<Rightarrow> Inr d | Inl e \<Rightarrow> if row_id r = j then Inr (row_doc r) else Inl e)"
  by (induction t) (auto simp: get_doc_def)

lemma deploy_created_reads: "reads.within (deploy_created u lb p on)"
  unfolding deploy_created_def Let_def by (intro framed)

text \<open>A created program is stored under an id of its own, and the other rows stay.\<close>

lemma create_one_ok:
  assumes "create_one u lb nm sp n pkg on w = (Inr p, w')"
  shows "get_doc (meta_id (p_meta p)) (t_programs (pw_store w')) = Inr p" "(\<exists>e. get_doc (meta_id (p_meta p)) (t_programs (pw_store w)) = Inl e)"
    "j \<noteq> meta_id (p_meta p) \<Longrightarrow> get_doc j (t_programs (pw_store w')) = get_doc j (t_programs (pw_store w))"
    "program_name p = nm" "server_id (p_spec p) = node_id n" "server_name (p_spec p) = node_name n" "p_lab (p_spec p) = meta_id (lab_meta lb)"
proof -
  define i where "i = new_id ''prog'' (u_draw u (pw_drawn w))"
  define q where "q = new_program_on i (pw_now w) lb nm sp n pkg on"
  define w1 where "w1 = w\<lparr>pw_drawn := Suc (pw_drawn w)\<rparr>"
  let ?rest = "if generation (lab_meta lb) > 0 then abind (deploy_created u lb q on) (\<lambda>st. save_program (q\<lparr>p_status := st\<rparr>)) else aret q"
  have "create_one u lb nm sp n pkg on w = abind (pdb ''persist program'' (insert_program q)) (\<lambda>_. ?rest) w1"
    by (simp add: create_one_def Let_def abind_def [of "aget pw_now"] abind_def [of "draw_program_id u"] aget_def draw_program_id_def i_def q_def w1_def)
  with assms have "abind (pdb ''persist program'' (insert_program q)) (\<lambda>_. ?rest) w1 = (Inr p, w')" by (simp only:)
  then obtain x w2 where ins: "pdb ''persist program'' (insert_program q) w1 = (Inr x, w2)" and rest: "?rest w2 = (Inr p, w')" by auto
  have t2: "t_programs (pw_store w2) = t_programs (pw_store w) @ [\<lparr>row_id = meta_id (p_meta q), row_scope = p_lab (p_spec q), row_name = program_name q, row_doc = q\<rparr>]"
    and new: "\<not> list_ex (\<lambda>r. row_id r = meta_id (p_meta q)) (t_programs (pw_store w))"
    using ins by (auto simp: pdb_ok insert_program_def db_call_Inr w1_def list_ex_iff split: if_splits)
  have none: "\<exists>e. get_doc (meta_id (p_meta q)) (t_programs (pw_store w)) = Inl e"
    using new by (auto simp: get_doc_def list_ex_iff find_Some_iff split: option.splits)
  have stored: "get_doc (meta_id (p_meta q)) (t_programs (pw_store w2)) = Inr q" "j \<noteq> meta_id (p_meta q) \<Longrightarrow> get_doc j (t_programs (pw_store w2)) = get_doc j (t_programs (pw_store w))" for j
    using none by (auto simp: t2 get_doc_append split: sum.splits)
  have fin: "p_spec p = p_spec q \<and> program_name p = program_name q \<and> meta_id (p_meta p) = meta_id (p_meta q) \<and> get_doc (meta_id (p_meta q)) (t_programs (pw_store w')) = Inr p \<and>
      (\<forall>j. j \<noteq> meta_id (p_meta q) \<longrightarrow> get_doc j (t_programs (pw_store w')) = get_doc j (t_programs (pw_store w2)))"
  proof (cases "generation (lab_meta lb) > 0")
    case True
    then obtain st w3 where d: "deploy_created u lb q on w2 = (Inr st, w3)" and s: "save_program (q\<lparr>p_status := st\<rparr>) w3 = (Inr p, w')" using rest by auto
    have t3: "t_programs (pw_store w3) = t_programs (pw_store w2)" using reads.withinD [OF deploy_created_reads d] by (simp add: same_rows_def)
    show ?thesis using save_program_ok(1) [OF s] rows.get_put_eq [OF save_program_ok(2) [OF s]] t3 by (simp add: touch_program_def)
  next
    case False
    then show ?thesis using rest stored(1) by simp
  qed
  show "get_doc (meta_id (p_meta p)) (t_programs (pw_store w')) = Inr p" "\<exists>e. get_doc (meta_id (p_meta p)) (t_programs (pw_store w)) = Inl e"
    "j \<noteq> meta_id (p_meta p) \<Longrightarrow> get_doc j (t_programs (pw_store w')) = get_doc j (t_programs (pw_store w))"
    using fin none stored(2) by auto
  show "program_name p = nm" "server_id (p_spec p) = node_id n" "server_name (p_spec p) = node_name n" "p_lab (p_spec p) = meta_id (lab_meta lb)"
    using fin by (simp_all add: q_def new_program_on_def)
qed

lemma create_on_ok:
  assumes "create_on u lb nm sp pkg on by_id is taken ps fs w = ((ps', fs', None), w')" "\<And>i n. by_id i = Some n \<Longrightarrow> node_id n = i"
  shows "\<exists>qs gs. ps' = ps @ qs \<and> fs' = fs @ gs \<and> mset (map (\<lambda>p. server_id (p_spec p)) qs) + mset (map si_id gs) = mset is \<and>
     distinct (map (\<lambda>p. server_name (p_spec p)) qs) \<and> (\<forall>p \<in> set qs. server_name (p_spec p) \<notin> taken \<and> program_name p = nm \<and>
       get_doc (meta_id (p_meta p)) (t_programs (pw_store w')) = Inr p) \<and>
     (\<forall>j d. get_doc j (t_programs (pw_store w)) = Inr d \<longrightarrow> get_doc j (t_programs (pw_store w')) = Inr d)"
  using assms(1)
proof (induction "is" arbitrary: taken ps fs w)
  case Nil
  then show ?case by simp
next
  case (Cons i "is")
  show ?case
  proof (cases "\<exists>n. by_id i = Some n \<and> n_role n = RoleServer \<and> node_name n \<notin> taken")
    case False
    obtain f where f: "si_id f = i" "create_on u lb nm sp pkg on by_id is taken ps (fs @ [f]) w = ((ps', fs', None), w')"
    proof (cases "by_id i")
      case None
      then show ?thesis using Cons.prems that [of "\<lparr>si_id = i, si_name = [], si_err = Some (NoSuchRow i)\<rparr>"] by simp
    next
      case (Some n)
      show ?thesis
      proof (cases "n_role n = RoleServer")
        case True
        then show ?thesis using Some Cons.prems that [of "\<lparr>si_id = i, si_name = node_name n, si_err = Some (NameTaken nm)\<rparr>"] False by simp
      next
        case no: False
        then show ?thesis using Some Cons.prems that [of "\<lparr>si_id = i, si_name = node_name n, si_err = Some (NodeNotServer (node_name n) (n_role n))\<rparr>"] by simp
      qed
    qed
    from Cons.IH [OF f(2)] obtain qs gs where "ps' = ps @ qs" "fs' = fs @ f # gs" "mset (map (\<lambda>p. server_id (p_spec p)) qs) + mset (map si_id gs) = mset is"
      and rest: "distinct (map (\<lambda>p. server_name (p_spec p)) qs) \<and> (\<forall>p \<in> set qs. server_name (p_spec p) \<notin> taken \<and> program_name p = nm \<and>
       get_doc (meta_id (p_meta p)) (t_programs (pw_store w')) = Inr p) \<and>
     (\<forall>j d. get_doc j (t_programs (pw_store w)) = Inr d \<longrightarrow> get_doc j (t_programs (pw_store w')) = Inr d)" by auto
    then show ?thesis using f(1) by (intro exI [of _ qs] exI [of _ "f # gs"]) auto
  next
    case True
    then obtain n where n: "by_id i = Some n" "n_role n = RoleServer" "node_name n \<notin> taken" by blast
    obtain p w1 where c: "create_one u lb nm sp n pkg on w = (Inr p, w1)"
      and r: "create_on u lb nm sp pkg on by_id is (insert (node_name n) taken) (ps @ [p]) fs w1 = ((ps', fs', None), w')"
      using Cons.prems n by (auto split: prod.splits sum.splits)
    note one = create_one_ok [OF c]
    from Cons.IH [OF r] obtain qs gs where q: "ps' = ps @ p # qs" "fs' = fs @ gs" "mset (map (\<lambda>p. server_id (p_spec p)) qs) + mset (map si_id gs) = mset is"
      "distinct (map (\<lambda>p. server_name (p_spec p)) qs)" "\<forall>p \<in> set qs. server_name (p_spec p) \<notin> insert (node_name n) taken \<and> program_name p = nm \<and>
       get_doc (meta_id (p_meta p)) (t_programs (pw_store w')) = Inr p"
      "\<forall>j d. get_doc j (t_programs (pw_store w1)) = Inr d \<longrightarrow> get_doc j (t_programs (pw_store w')) = Inr d" by auto
    have id: "node_id n = i" by (rule assms(2) [OF n(1)])
    have "get_doc j (t_programs (pw_store w')) = Inr d" if "get_doc j (t_programs (pw_store w)) = Inr d" for j d
    proof -
      have "j \<noteq> meta_id (p_meta p)" using one(2) that by auto
      then show ?thesis using one(3) q(6) that by simp
    qed
    moreover have "get_doc (meta_id (p_meta p)) (t_programs (pw_store w')) = Inr p" using q(6) one(1) by blast
    moreover have "server_name (p_spec p) \<notin> set (map (\<lambda>p. server_name (p_spec p)) qs)" using q(5) one(6) by auto
    ultimately show ?thesis using q one(4-6) n(3) id by (intro exI [of _ "p # qs"] exI [of _ gs]) auto
  qed
qed

text \<open>When a program is created on several servers without an error, every requested server has exactly one outcome, a program or a
  failure; the programs are on different servers, all have the requested name, and each is in the table under an id of
  its own, with the rows that were there before.\<close>
theorem creation_accounts_for_every_server:
  assumes "create_program u lid nm sp ids on w = ((ps, fs, None), w')"
  shows "mset (map (\<lambda>p. server_id (p_spec p)) ps) + mset (map si_id fs) = mset ids \<and> distinct (map (\<lambda>p. server_name (p_spec p)) ps) \<and>
    (\<forall>p \<in> set ps. program_name p = nm \<and> get_doc (meta_id (p_meta p)) (t_programs (pw_store w')) = Inr p) \<and>
    (\<forall>j d. get_doc j (t_programs (pw_store w)) = Inr d \<longrightarrow> get_doc j (t_programs (pw_store w')) = Inr d)"
proof -
  obtain sp' pkg lb ns known w1 where i: "creation_inputs u lid nm sp ids w = (Inr (sp', pkg, lb, ns, known), w1)"
    using assms by (auto simp: create_program_def split: prod.splits sum.splits)
  let ?taken = "(\<lambda>p. server_name (p_spec p)) ` set (filter (\<lambda>p. program_name p = nm) known)"
  obtain c where c: "create_on u lb nm sp' pkg on (nodes_by_id ns) ids ?taken [] [] w1 = (c, w')" "creation_result c = (ps, fs, None)"
    using assms i by (auto simp: create_program_def split: prod.splits)
  then have c': "c = (ps, fs, None)" by (auto simp: creation_result_def split: prod.splits option.splits list.splits)
  have ids: "node_id n = i" if "nodes_by_id ns i = Some n" for i n
    using map_of_SomeD [OF that [unfolded nodes_by_id_def]] by auto
  have "reads.within (creation_inputs u lid nm sp ids)" unfolding creation_inputs_def by (intro framed)
  from reads.withinD [OF this i] have t: "t_programs (pw_store w1) = t_programs (pw_store w)" by (simp add: same_rows_def)
  from create_on_ok [OF c(1) [unfolded c'] ids] show ?thesis unfolding t by auto
qed

theorem creation_accounts_for_every_server_witness:
  "\<exists>ps fs. fst (try_created True []) = (ps, fs, None) \<and> mset (map (\<lambda>p. server_id (p_spec p)) ps) + mset (map si_id fs) = mset [''n1'', ''n2'', ''n3'', ''n1''] \<and> length ps = 2"
proof -
  have f: "let c = fst (try_created True []) in snd (snd c) = None \<and> length (fst c) = 2" by code_simp
  obtain ps fs where c: "try_created True [] = ((ps, fs, None), snd (try_created True []))" "length ps = 2"
    using f by (cases "try_created True []"; cases "fst (try_created True [])") (auto simp: Let_def)
  from creation_accounts_for_every_server [OF c(1) [unfolded try_created_def]] c show ?thesis by (metis fst_conv)
qed

end
