(* ===== verification/Traffic.thy ===== *)
theory Traffic
  imports ProgramCreate Complex_Main
begin

text \<open>
  controller/internal/biz/traffic.go with data/traffic.go: traffic scenarios, each of which drives traffic between two
  servers through a pair of programs of the program usecase, a server and a client.
\<close>

section \<open>Resources\<close>

datatype traffic_phase = TrafficStopped | TrafficRunning | TrafficFailed

record assertion =
  ta_metric :: string
  ta_cmp :: string
  ta_threshold :: real

record traffic_spec =
  ts_lab :: string
  ts_source_id :: string
  ts_source_name :: string
  ts_dest_id :: string
  ts_dest_name :: string
  ts_protocol :: string
  ts_port :: int
  ts_rate :: real
  ts_concurrency :: int
  ts_payload :: int
  ts_duration :: int
  ts_assertions :: "assertion list"

record traffic_point =
  tp_at :: nat
  tp_rate :: real
  tp_success :: real
  tp_p50 :: int
  tp_p95 :: int
  tp_p99 :: int

record assertion_result =
  tr_assertion :: assertion
  tr_value :: real
  tr_pass :: bool

record traffic_status =
  tt_phase :: traffic_phase
  tt_server_id :: string
  tt_server_name :: string
  tt_client_id :: string
  tt_client_name :: string
  tt_started :: nat
  tt_point :: "traffic_point option"
  tt_results :: "assertion_result list"
  tt_observed :: nat
  tt_last_error :: string

record scenario =
  sc_meta :: meta
  sc_spec :: traffic_spec
  sc_status :: traffic_status

abbreviation scenario_name :: "scenario \<Rightarrow> string" where "scenario_name s \<equiv> meta_name (sc_meta s)"

datatype traffic_error = BadScenarioName | BadProtocol string | BadRate | BadConcurrency | BadPayload | BadDuration | BadMetric string | BadComparator string
  | ScenarioStore string store_error | NodesUnreadable program_error | NoScenarioServer string string | NotAServer string string node_role
  | NoDestAddress string | NoScenario string | ServerSide program_error | ClientSide program_error | ScenarioRange int int

record traffic_world =
  tw_world :: prog_world
  tw_rows :: "scenario row list"
  tw_io :: "string option list"
  tw_drawn :: nat

text \<open>The program usecase's environment, the text of the interval of a rate (a division of floating-point numbers), the texts
  of errors and the random parts of identifiers.\<close>

record traffic_env =
  x_prog :: program_env
  x_interval :: "real \<Rightarrow> string"
  x_text :: "traffic_error list \<Rightarrow> string"
  x_draw :: "nat \<Rightarrow> draw"

type_synonym 'a traffic = "(traffic_world, traffic_error, 'a) act"

definition tprog :: "(program_error \<Rightarrow> traffic_error) \<Rightarrow> 'a usecase \<Rightarrow> 'a traffic" where
  "tprog g m w = (case m (tw_world w) of (r, pw) \<Rightarrow> (emap_err g r, w\<lparr>tw_world := pw\<rparr>))"

section \<open>Rows\<close>

definition scenario_call :: "string \<Rightarrow> (scenario row list \<Rightarrow> store_error + ('a \<times> scenario row list)) \<Rightarrow> 'a traffic" where
  "scenario_call ctx f w = (case tw_io w of Some m # io \<Rightarrow> (Inl (ScenarioStore ctx (DatabaseFailed m)), w\<lparr>tw_io := io\<rparr>)
   | io \<Rightarrow> (case f (tw_rows w) of Inl e \<Rightarrow> (Inl (ScenarioStore ctx e), w\<lparr>tw_io := tl io\<rparr>) | Inr (x, t) \<Rightarrow> (Inr x, w\<lparr>tw_io := tl io, tw_rows := t\<rparr>)))"

definition insert_scenario :: "scenario \<Rightarrow> unit traffic" where
  "insert_scenario s = scenario_call ''persist traffic scenario'' (\<lambda>t.
     ebind (insert_row \<lparr>row_id = meta_id (sc_meta s), row_scope = ts_lab (sc_spec s), row_name = scenario_name s, row_doc = s\<rparr> t) (\<lambda>t'. Inr ((), t')))"

definition touch_scenario :: "nat \<Rightarrow> scenario \<Rightarrow> scenario" where
  "touch_scenario now s = s\<lparr>sc_meta := (sc_meta s)\<lparr>updated_at := now\<rparr>\<rparr>"

definition update_scenario :: "scenario \<Rightarrow> scenario traffic" where
  "update_scenario s = abind (aget (\<lambda>w. pw_now (tw_world w))) (\<lambda>now. scenario_call ''update traffic scenario'' (\<lambda>t.
     ebind (update_doc (meta_id (sc_meta s)) (touch_scenario now s) t) (\<lambda>t'. Inr (touch_scenario now s, t'))))"

definition delete_scenario_row :: "string \<Rightarrow> unit traffic" where
  "delete_scenario_row i = scenario_call [] (\<lambda>t. if list_ex (\<lambda>r. row_id r = i) t then Inr ((), filter (\<lambda>r. row_id r \<noteq> i) t) else Inl RowMissing)"

definition read_scenario :: "string \<Rightarrow> scenario traffic" where
  "read_scenario i = scenario_call ''get traffic scenario'' (\<lambda>t. ebind (get_doc i t) (\<lambda>s. Inr (s, t)))"

definition list_scenarios :: "string \<Rightarrow> scenario list traffic" where
  "list_scenarios lid = scenario_call ''list traffic scenarios'' (\<lambda>t. Inr (list_docs lid t, t))"

text \<open>\<open>get\<close>: a scenario of the lab.\<close>

definition get_scenario :: "string \<Rightarrow> string \<Rightarrow> scenario traffic" where
  "get_scenario lid i = abind (read_scenario i) (\<lambda>s. if ts_lab (sc_spec s) \<noteq> lid then afail (NoScenario i) else aret s)"

section \<open>Creating a scenario\<close>

definition scenario_name_ok :: "string \<Rightarrow> bool" where
  "scenario_name_ok s \<longleftrightarrow> (case s of [] \<Rightarrow> False | c # cs \<Rightarrow> name_char c \<and> length cs \<le> 54 \<and> list_all (\<lambda>c. name_char c \<or> c = CHR ''-'') cs)"

definition protocols :: "string list" where "protocols = [''http'', ''tcp'', ''udp'']"

definition metrics :: "string list" where "metrics = [''rate'', ''successRate'', ''p50'', ''p95'', ''p99'']"

definition comparators :: "string list" where "comparators = [''gte'', ''lte'']"

definition check_assertion :: "assertion \<Rightarrow> traffic_error + unit" where
  "check_assertion a = (if ta_metric a \<notin> set metrics then Inl (BadMetric (ta_metric a))
     else if ta_cmp a \<notin> set comparators then Inl (BadComparator (ta_cmp a)) else Inr ())"

definition check_scenario :: "string \<Rightarrow> traffic_spec \<Rightarrow> traffic_error + unit" where
  "check_scenario nm sp = (if \<not> scenario_name_ok nm then Inl BadScenarioName
     else if ts_protocol sp \<notin> set protocols then Inl (BadProtocol (ts_protocol sp))
     else if ts_rate sp \<le> 0 then Inl BadRate
     else if ts_concurrency sp < 1 then Inl BadConcurrency
     else if ts_payload sp < 0 then Inl BadPayload
     else if ts_duration sp < 0 then Inl BadDuration
     else efold (\<lambda>_. check_assertion) () (ts_assertions sp))"

definition server_by_id :: "string \<Rightarrow> node list \<Rightarrow> string \<Rightarrow> traffic_error + node" where
  "server_by_id what ns i = (case find (\<lambda>n. node_id n = i) ns of None \<Rightarrow> Inl (NoScenarioServer what i)
     | Some n \<Rightarrow> (if n_role n \<noteq> RoleServer then Inl (NotAServer what (node_name n) (n_role n)) else Inr n))"

definition lab_nodes :: "string \<Rightarrow> node list traffic" where
  "lab_nodes lid = tprog NodesUnreadable (pdb ''list nodes'' (list_nodes lid))"

definition idle_status :: traffic_status where
  "idle_status = \<lparr>tt_phase = TrafficStopped, tt_server_id = [], tt_server_name = [], tt_client_id = [], tt_client_name = [], tt_started = 0, tt_point = None,
     tt_results = [], tt_observed = 0, tt_last_error = []\<rparr>"

definition create_scenario :: "traffic_env \<Rightarrow> string \<Rightarrow> string \<Rightarrow> traffic_spec \<Rightarrow> scenario traffic" where
  "create_scenario x lid nm sp = abind (alift (check_scenario nm sp)) (\<lambda>_. abind (lab_nodes lid) (\<lambda>ns.
     abind (alift (server_by_id ''source server'' ns (ts_source_id sp))) (\<lambda>src. abind (alift (server_by_id ''destination server'' ns (ts_dest_id sp))) (\<lambda>dst.
     abind (aget (\<lambda>w. (pw_now (tw_world w), new_id ''traffic'' (x_draw x (tw_drawn w))))) (\<lambda>(now, i).
     abind (\<lambda>w. (Inr (), w\<lparr>tw_drawn := Suc (tw_drawn w)\<rparr>)) (\<lambda>_.
       let s = \<lparr>sc_meta = \<lparr>meta_id = i, meta_name = nm, generation = 0, observed_generation = 0, phase = PhaseUnset, last_error = None, created_at = now, updated_at = now\<rparr>,
         sc_spec = sp\<lparr>ts_source_name := node_name src, ts_dest_name := node_name dst, ts_lab := lid\<rparr>, sc_status = idle_status\<rparr> in
       abind (insert_scenario s) (\<lambda>_. aret s)))))))"

section \<open>Starting\<close>

definition traffic_port :: "string \<Rightarrow> int \<Rightarrow> int" where
  "traffic_port proto over = (if over > 0 then over else if proto = ''http'' then 8080 else 9000)"

definition trafficgen_mode :: "string \<Rightarrow> string \<Rightarrow> string" where
  "trafficgen_mode proto r = proto @ ''-'' @ r"

definition server_args :: "string \<Rightarrow> int \<Rightarrow> string list" where
  "server_args proto port = [trafficgen_mode proto ''server'', ''--listen'', '':'' @ show_int port]"

definition client_target :: "string \<Rightarrow> string \<Rightarrow> int \<Rightarrow> string" where
  "client_target proto ip port = (if proto = ''http'' then ''http://'' @ ip @ '':'' @ show_int port @ ''/'' else ip @ '':'' @ show_int port)"

definition client_args :: "traffic_env \<Rightarrow> string \<Rightarrow> string \<Rightarrow> real \<Rightarrow> int \<Rightarrow> int \<Rightarrow> string list" where
  "client_args x proto tgt r conc payload = [trafficgen_mode proto ''client'', ''--target'', tgt, ''--interval'', x_interval x r, ''--concurrency'', show_int conc] @
     (if payload > 0 then [''--payload-bytes'', show_int payload] else [])"

definition role_spec :: "string list \<Rightarrow> program_spec" where
  "role_spec args = \<lparr>p_lab = [], server_id = [], server_name = [], package_name = builtin_name, package_version = ''0.1.0'', entrypoint = [], p_args = args,
     restart_policy = ''Always'', p_type = ''simple'', auto_start = False, desired_state = ProgramDesiredStopped, liveness_check = None, readiness_check = None, startup_order = 0\<rparr>"

definition start_role :: "traffic_env \<Rightarrow> string \<Rightarrow> string \<Rightarrow> string list \<Rightarrow> string \<Rightarrow> program usecase" where
  "start_role x lid nm args i w = (case create_program (x_prog x) lid nm (role_spec args) [i] True w of
     ((ps, fs, Some e), w') \<Rightarrow> (Inl e, w')
   | ((p # ps, fs, None), w') \<Rightarrow> (Inr p, w')
   | (([], fs, None), w') \<Rightarrow> (Inl (case fs of f # _ \<Rightarrow> (case si_err f of Some e \<Rightarrow> e | None \<Rightarrow> NoServerGiven) | [] \<Rightarrow> NoServerGiven), w'))"

definition server_role_name :: "scenario \<Rightarrow> string" where "server_role_name s = scenario_name s @ ''-server''"

definition client_role_name :: "scenario \<Rightarrow> string" where "client_role_name s = scenario_name s @ ''-client''"

definition running_status :: "nat \<Rightarrow> scenario \<Rightarrow> program \<Rightarrow> program \<Rightarrow> traffic_status" where
  "running_status now s sv cl = idle_status\<lparr>tt_phase := TrafficRunning, tt_server_id := meta_id (p_meta sv), tt_server_name := server_role_name s,
     tt_client_id := meta_id (p_meta cl), tt_client_name := client_role_name s, tt_started := now\<rparr>"

definition start_pair :: "traffic_env \<Rightarrow> string \<Rightarrow> scenario \<Rightarrow> node \<Rightarrow> (program \<times> program) traffic" where
  "start_pair x lid s dst = (let sp = sc_spec s; port = traffic_port (ts_protocol sp) (ts_port sp) in
     abind (tprog ServerSide (start_role x lid (server_role_name s) (server_args (ts_protocol sp) port) (ts_dest_id sp))) (\<lambda>sv.
     abind (atry (tprog ClientSide (start_role x lid (client_role_name s)
         (client_args x (ts_protocol sp) (client_target (ts_protocol sp) (show_addr (paddr (address (n_spec dst)))) port) (ts_rate sp) (ts_concurrency sp) (ts_payload sp)) (ts_source_id sp)))) (\<lambda>r.
       case r of Inr cl \<Rightarrow> aret (sv, cl)
       | Inl e \<Rightarrow> abind (atry (tprog ServerSide (delete_program (x_prog x) lid (meta_id (p_meta sv))))) (\<lambda>_. afail e))))"

definition start_scenario :: "traffic_env \<Rightarrow> string \<Rightarrow> string \<Rightarrow> scenario traffic" where
  "start_scenario x lid i = abind (get_scenario lid i) (\<lambda>s. if tt_phase (sc_status s) = TrafficRunning then aret s
     else abind (lab_nodes lid) (\<lambda>ns. abind (alift (server_by_id ''destination server'' ns (ts_dest_id (sc_spec s)))) (\<lambda>dst.
       if \<not> is_valid (address (n_spec dst)) then afail (NoDestAddress (node_name dst))
       else abind (start_pair x lid s dst) (\<lambda>(sv, cl). abind (aget (\<lambda>w. pw_now (tw_world w))) (\<lambda>now.
         update_scenario (s\<lparr>sc_status := running_status now s sv cl\<rparr>))))))"

section \<open>Stopping, deleting, pruning\<close>

definition stop_role :: "traffic_env \<Rightarrow> string \<Rightarrow> (program_error \<Rightarrow> traffic_error) \<Rightarrow> string \<Rightarrow> traffic_error list traffic" where
  "stop_role x lid g i = (if i = [] then aret [] else abind (atry (tprog g (stop_program (x_prog x) lid i))) (\<lambda>r. aret (case r of Inl e \<Rightarrow> [e] | Inr _ \<Rightarrow> [])))"

definition stop_scenario :: "traffic_env \<Rightarrow> string \<Rightarrow> string \<Rightarrow> scenario traffic" where
  "stop_scenario x lid i = abind (get_scenario lid i) (\<lambda>s. if tt_phase (sc_status s) \<noteq> TrafficRunning then aret s
     else abind (stop_role x lid ClientSide (tt_client_id (sc_status s))) (\<lambda>e1. abind (stop_role x lid ServerSide (tt_server_id (sc_status s))) (\<lambda>e2.
       update_scenario (s\<lparr>sc_status := (sc_status s)\<lparr>tt_phase := TrafficStopped, tt_last_error := (if e1 @ e2 = [] then [] else x_text x (e1 @ e2))\<rparr>\<rparr>))))"

definition delete_role :: "traffic_env \<Rightarrow> string \<Rightarrow> string \<Rightarrow> unit traffic" where
  "delete_role x lid i = (if i = [] then aret () else abind (atry (tprog ServerSide (delete_program (x_prog x) lid i))) (\<lambda>_. aret ()))"

definition delete_scenario :: "traffic_env \<Rightarrow> string \<Rightarrow> string \<Rightarrow> unit traffic" where
  "delete_scenario x lid i = abind (get_scenario lid i) (\<lambda>s. abind (delete_role x lid (tt_client_id (sc_status s))) (\<lambda>_.
     abind (delete_role x lid (tt_server_id (sc_status s))) (\<lambda>_. delete_scenario_row i)))"

definition prune_scenarios :: "traffic_env \<Rightarrow> string \<Rightarrow> string list \<Rightarrow> unit traffic" where
  "prune_scenarios x lid removed = abind (list_scenarios lid) (\<lambda>ss. aeach (\<lambda>s.
     if ts_source_name (sc_spec s) \<in> set removed \<or> ts_dest_name (sc_spec s) \<in> set removed then delete_scenario x lid (meta_id (sc_meta s)) else aret ()) ss)"

definition scenario_history :: "(string \<Rightarrow> int \<times> int \<Rightarrow> 'p list) \<Rightarrow> string \<Rightarrow> string \<Rightarrow> int \<Rightarrow> int option \<Rightarrow> int option \<Rightarrow> 'p list traffic" where
  "scenario_history query lid i now from until = abind (get_scenario lid i) (\<lambda>s.
     abind (alift (emap_err (\<lambda>e. case e of BadRange a b \<Rightarrow> ScenarioRange a b | _ \<Rightarrow> NoScenario i) (history_window now from until))) (\<lambda>r. aret (query (meta_id (sc_meta s)) r)))"

end
