(* ===== verification/TrafficProps.thy ===== *)
theory TrafficProps
  imports Traffic
begin

text \<open>
  Traffic scenarios over the program usecase: what a start leaves behind, and why a stopped scenario cannot be started
  again.
\<close>

section \<open>Labs and nodes are only read\<close>

definition same_places :: "prog_world \<Rightarrow> prog_world \<Rightarrow> bool" where
  "same_places w w' \<longleftrightarrow> t_labs (pw_store w') = t_labs (pw_store w) \<and> t_nodes (pw_store w') = t_nodes (pw_store w)"

interpretation places: call_frame same_places
  by unfold_locales (auto simp: same_places_def)

lemma reads_places: "reads.within m \<Longrightarrow> places.within m"
  by (auto simp: reads.within_def places.within_def same_rows_def same_places_def)

lemmas place_calls [framed] = table_reads [THEN reads_places] calls_read [THEN reads_places] agent_calls_read [THEN reads_places]
  delivery_reads [THEN reads_places] ensure_on_agent_reads [THEN reads_places] deploy_created_reads [THEN reads_places]

lemma pdb_places:
  assumes "\<And>s x s'. f s = Inr (x, s') \<Longrightarrow> t_labs s' = t_labs s \<and> t_nodes s' = t_nodes s"
  shows "places.within (pdb c (db_call f))"
proof -
  have "same_places w (snd (pdb c (db_call f) w))" for w
  proof (cases "db_call f (pw_store w)")
    case (Pair r s)
    have "t_labs s = t_labs (pw_store w) \<and> t_nodes s = t_nodes (pw_store w)"
    proof (cases r)
      case (Inl e)
      then show ?thesis using db_call_Inl [of f "pw_store w" e s] Pair by simp
    next
      case (Inr y)
      then have "f ((pw_store w)\<lparr>t_io := tl (t_io (pw_store w))\<rparr>) = Inr (y, s)" using Pair by (simp add: db_call_Inr)
      from assms [OF this] show ?thesis by simp
    qed
    then show ?thesis using Pair by (simp add: pdb_def same_places_def)
  qed
  then show ?thesis by (simp add: places.within_def)
qed

lemma row_writes_places [framed]: "places.within (pdb c (insert_program p))" "places.within (pdb c (update_program p))" "places.within (pdb c (delete_program_row i))"
  unfolding insert_program_def update_program_def delete_program_row_def by (rule pdb_places; auto split: if_splits)+

lemma program_requests_places [framed]:
  "places.within (save_program p)" "places.within (switch_program u lid i on)" "places.within (delete_program u lid i)" "places.within (create_one u lb nm sp n pkg on)"
  "places.within (creation_inputs u lid nm sp ids)"
  unfolding save_program_def switch_program_def delete_program_def create_one_def creation_inputs_def Let_def by (intro framed)+

lemma create_on_places: "same_places w (snd (create_on u lb nm sp pkg on by_id is taken ps fs w))"
proof (induction u lb nm sp pkg on by_id "is" taken ps fs w rule: create_on.induct)
  case (1 u lb nm sp pkg on by_id taken ps fs w)
  then show ?case by (simp add: places.refl)
next
  case (2 u lb nm sp pkg on by_id i "is" taken ps fs w)
  show ?case
  proof (cases "\<exists>n. by_id i = Some n \<and> n_role n = RoleServer \<and> node_name n \<notin> taken")
    case False
    then show ?thesis using "2.IH"(1-3) by (auto split: option.splits)
  next
    case True
    then obtain n where n: "by_id i = Some n" "n_role n = RoleServer" "node_name n \<notin> taken" by blast
    obtain r w1 where c: "create_one u lb nm sp n pkg on w = (r, w1)" by force
    have 1: "same_places w w1" by (rule places.withinD [OF program_requests_places(4) c])
    show ?thesis
    proof (cases r)
      case (Inl e)
      then show ?thesis using 1 c n by simp
    next
      case (Inr p)
      have "same_places w1 (snd (create_on u lb nm sp pkg on by_id is (insert (node_name n) taken) (ps @ [p]) fs w1))"
        using "2.IH"(4) [OF n(1)] n c Inr by auto
      then show ?thesis using places.trans [OF 1] c n Inr by simp
    qed
  qed
qed

lemma create_program_cases:
  assumes "create_program u lid nm sp ids on w = (c, w')"
  obtains (invalid) e where "creation_inputs u lid nm sp ids w = (Inl e, w')" "c = ([], [], Some e)"
  | (looped) sp' pkg lb ns known w1 c0 where "creation_inputs u lid nm sp ids w = (Inr (sp', pkg, lb, ns, known), w1)"
      "create_on u lb nm sp' pkg on (nodes_by_id ns) ids ((\<lambda>p. server_name (p_spec p)) ` set (filter (\<lambda>p. program_name p = nm) known)) [] [] w1 = (c0, w')"
      "c = creation_result c0"
  using assms by (auto simp: create_program_def split: prod.splits sum.splits)

lemma create_program_places: "same_places w (snd (create_program u lid nm sp ids on w))"
proof (cases "create_program u lid nm sp ids on w")
  case (Pair c w')
  from Pair show ?thesis
  proof (cases rule: create_program_cases)
    case (invalid e)
    then show ?thesis using Pair places.withinD [OF program_requests_places(5) invalid(1)] by simp
  next
    case (looped sp' pkg lb ns known w1 c0)
    have "same_places w1 w'" using create_on_places looped(2) by (metis snd_conv)
    then show ?thesis using Pair places.trans [OF places.withinD [OF program_requests_places(5) looped(1)]] by simp
  qed
qed

section \<open>A name that is taken\<close>

definition name_taken :: "prog_world \<Rightarrow> string \<Rightarrow> string \<Rightarrow> string \<Rightarrow> bool" where
  "name_taken w lid nm sn \<longleftrightarrow> (\<exists>i. (i, lid, nm, sn) \<in> set (program_keys w))"

lemma creation_inputs_ok:
  assumes "creation_inputs u lid nm sp ids w = (Inr (sp', pkg, lb, ns, known), w')"
  shows "known = list_docs lid (t_programs (pw_store w))" "ns = list_docs lid (t_nodes (pw_store w))" "get_doc lid (t_labs (pw_store w)) = Inr lb" "same_rows w w'"
proof -
  obtain w1 w2 w3 w4 w5 where 1: "find_package (package_name sp) (package_version sp) w1 = (Inr pkg, w2)" "w1 = w" and 2: "pdb ''get lab'' (get_lab lid) w2 = (Inr lb, w3)"
    and 3: "pdb ''list nodes'' (list_nodes lid) w3 = (Inr ns, w4)" and 4: "pdb ''list programs'' (list_programs lid) w4 = (Inr known, w5)" "w' = w5"
    using assms by (auto simp: creation_inputs_def)
  have r1: "same_rows w w2" using reads.withinD [OF calls_read(1) 1(1)] 1(2) by simp
  have r2: "same_rows w w3" using reads.trans [OF r1 reads.withinD [OF table_reads(2) 2]] .
  have r3: "same_rows w w4" using reads.trans [OF r2 reads.withinD [OF table_reads(3) 3]] .
  show "known = list_docs lid (t_programs (pw_store w))" using 4(1) r3 by (auto simp: pdb_ok list_programs_def db_call_Inr same_rows_def)
  show "ns = list_docs lid (t_nodes (pw_store w))" using 3 r2 by (auto simp: pdb_ok list_nodes_def db_call_Inr same_rows_def)
  show "get_doc lid (t_labs (pw_store w)) = Inr lb" using read_lab_ok [OF 2] r1 by (simp add: same_rows_def)
  show "same_rows w w'" using reads.trans [OF r3 reads.withinD [OF table_reads(4) 4(1)]] 4(2) by simp
qed

lemma taken_name_fails:
  assumes "program_rows_ok w" "name_taken w lid nm sn" "create_program u lid nm sp [i] on w = ((ps, fs, eo), w')"
    and nodes: "\<And>n. n \<in> set (list_docs lid (t_nodes (pw_store w))) \<Longrightarrow> node_id n = i \<Longrightarrow> node_name n = sn"
  shows "eo \<noteq> None"
  using assms(3)
proof (cases rule: create_program_cases)
  case (invalid e)
  then show ?thesis by simp
next
  case (looped sp' pkg lb ns known w1 c0)
  note inp = creation_inputs_ok [OF looped(1)]
  let ?taken = "(\<lambda>p. server_name (p_spec p)) ` set (filter (\<lambda>p. program_name p = nm) known)"
  obtain k where k: "(k, lid, nm, sn) \<in> set (program_keys w)" using assms(2) by (auto simp: name_taken_def)
  then obtain r where r: "r \<in> set (t_programs (pw_store w))" "key_of (row_doc r) = (k, lid, nm, sn)" by (auto simp: program_keys_def)
  have "row_scope r = lid" using assms(1) r by (auto simp: program_rows_ok_def list_all_iff key_of_def)
  then have "row_doc r \<in> set known" using r(1) by (auto simp: inp(1) list_docs_def)
  moreover have "program_name (row_doc r) = nm" "server_name (p_spec (row_doc r)) = sn" using r(2) by (simp_all add: key_of_def)
  ultimately have sn: "sn \<in> ?taken" by force
  have "fst c0 = [] \<and> snd (snd c0) = None \<and> fst (snd c0) \<noteq> []"
  proof (cases "nodes_by_id ns i")
    case None
    then show ?thesis using looped(2) by auto
  next
    case (Some n)
    have "n \<in> set ns" "node_id n = i" using map_of_SomeD [OF Some [unfolded nodes_by_id_def]] by auto
    then have "node_name n \<in> ?taken" using nodes inp(2) sn by blast
    then show ?thesis using looped(2) Some by (auto split: if_splits)
  qed
  then show ?thesis using looped(3) by (cases c0) (auto simp: creation_result_def split: list.splits)
qed

section \<open>Starting a role\<close>

text \<open>Lab rows carry the id of their document.\<close>

definition lab_ids_ok :: "prog_world \<Rightarrow> bool" where
  "lab_ids_ok w \<longleftrightarrow> list_all (\<lambda>r. meta_id (lab_meta (row_doc r)) = row_id r) (t_labs (pw_store w))"

lemma lab_id: "lab_ids_ok w \<Longrightarrow> get_doc i (t_labs (pw_store w)) = Inr lb \<Longrightarrow> meta_id (lab_meta lb) = i"
  by (auto simp: lab_ids_ok_def get_doc_def list_all_iff find_Some_iff split: option.splits)

lemma create_on_single:
  "create_on u lb nm sp pkg on by_id [i] taken [] [] w = ((p # ps, fs, None), w') \<Longrightarrow> \<exists>n. by_id i = Some n \<and> create_one u lb nm sp n pkg on w = (Inr p, w')"
  by (auto split: option.splits if_splits prod.splits sum.splits)

lemma start_role_ok:
  assumes "start_role x lid nm args i w = (Inr p, w')" "program_rows_ok w" "lab_ids_ok w"
  shows "program_rows_ok w'" "same_places w w'" "get_doc (meta_id (p_meta p)) (t_programs (pw_store w')) = Inr p"
    "program_name p = nm" "p_lab (p_spec p) = lid" "\<exists>n \<in> set (list_docs lid (t_nodes (pw_store w))). node_id n = i \<and> node_name n = server_name (p_spec p)"
    "get_doc j (t_programs (pw_store w)) = Inr d \<Longrightarrow> get_doc j (t_programs (pw_store w')) = Inr d"
proof -
  obtain ps fs where c: "create_program (x_prog x) lid nm (role_spec args) [i] True w = ((p # ps, fs, None), w')"
    using assms(1) by (auto simp: start_role_def split: prod.splits option.splits list.splits)
  show "program_rows_ok w'" using create_program_rows [OF assms(2)] c by (metis snd_conv)
  show "same_places w w'" using create_program_places c by (metis snd_conv)
  have "get_doc (meta_id (p_meta p)) (t_programs (pw_store w')) = Inr p \<and> program_name p = nm \<and> p_lab (p_spec p) = lid \<and>
    (\<exists>n \<in> set (list_docs lid (t_nodes (pw_store w))). node_id n = i \<and> node_name n = server_name (p_spec p)) \<and>
    (\<forall>j d. get_doc j (t_programs (pw_store w)) = Inr d \<longrightarrow> get_doc j (t_programs (pw_store w')) = Inr d)"
    using c
  proof (cases rule: create_program_cases)
    case (invalid e)
    then show ?thesis by simp
  next
    case (looped sp' pkg lb ns known w1 c0)
    note inp = creation_inputs_ok [OF looped(1)]
    have "c0 = (p # ps, fs, None)" using looped(3) by (cases c0) (auto simp: creation_result_def split: option.splits list.splits)
    from create_on_single [OF looped(2) [unfolded this]] obtain n where n: "nodes_by_id ns i = Some n"
      and one: "create_one (x_prog x) lb nm sp' n pkg True w1 = (Inr p, w')" by blast
    note o = create_one_ok [OF one]
    have nn: "n \<in> set ns" "node_id n = i" using map_of_SomeD [OF n [unfolded nodes_by_id_def]] by auto
    have t: "t_programs (pw_store w1) = t_programs (pw_store w)" using inp(4) by (simp add: same_rows_def)
    have "get_doc j (t_programs (pw_store w')) = Inr d" if "get_doc j (t_programs (pw_store w)) = Inr d" for j d
    proof -
      have "j \<noteq> meta_id (p_meta p)" using o(2) that t by auto
      then show ?thesis using o(3) that t by simp
    qed
    moreover have "p_lab (p_spec p) = lid" using o(7) lab_id [OF assms(3) inp(3)] by simp
    ultimately show ?thesis using o(1,4,6) nn inp(2) by auto
  qed
  then show "get_doc (meta_id (p_meta p)) (t_programs (pw_store w')) = Inr p"
    "program_name p = nm" "p_lab (p_spec p) = lid" "\<exists>n \<in> set (list_docs lid (t_nodes (pw_store w))). node_id n = i \<and> node_name n = server_name (p_spec p)"
    "get_doc j (t_programs (pw_store w)) = Inr d \<Longrightarrow> get_doc j (t_programs (pw_store w')) = Inr d" by blast+
qed

lemma start_role_taken:
  assumes "program_rows_ok w" "name_taken w lid nm sn" "\<And>n. n \<in> set (list_docs lid (t_nodes (pw_store w))) \<Longrightarrow> node_id n = i \<Longrightarrow> node_name n = sn"
  shows "\<exists>e. fst (start_role x lid nm args i w) = Inl e"
proof (cases "create_program (x_prog x) lid nm (role_spec args) [i] True w")
  case (Pair c w')
  obtain ps fs eo where c: "c = (ps, fs, eo)" by (cases c) force
  have "eo \<noteq> None" by (rule taken_name_fails [OF assms(1,2) Pair [unfolded c] assms(3)])
  then show ?thesis using Pair c by (cases ps; cases eo) (auto simp: start_role_def)
qed

section \<open>Scenarios\<close>

lemma tprog_ok: "tprog g m w = (Inr y, w') \<longleftrightarrow> (\<exists>pw. m (tw_world w) = (Inr y, pw) \<and> w' = w\<lparr>tw_world := pw\<rparr>)"
  by (auto simp: tprog_def emap_err_def split: prod.splits sum.splits)

lemma scenario_call_world [simp]: "tw_world (snd (scenario_call c f w)) = tw_world w"
  by (auto simp: scenario_call_def split: list.splits option.splits sum.splits prod.splits)

lemma scenario_call_ok: "scenario_call c f w = (Inr y, w') \<Longrightarrow> f (tw_rows w) = Inr (y, tw_rows w') \<and> tw_world w' = tw_world w"
  by (auto simp: scenario_call_def split: list.splits option.splits sum.splits prod.splits)

lemma get_scenario_ok:
  assumes "get_scenario lid i w = (Inr s, w')"
  shows "get_doc i (tw_rows w) = Inr s" "ts_lab (sc_spec s) = lid" "tw_rows w' = tw_rows w" "tw_world w' = tw_world w"
proof -
  have r: "read_scenario i w = (Inr s, w')" "ts_lab (sc_spec s) = lid" using assms by (auto simp: get_scenario_def split: if_splits)
  note c = scenario_call_ok [OF r(1) [unfolded read_scenario_def]]
  show "get_doc i (tw_rows w) = Inr s" "ts_lab (sc_spec s) = lid" "tw_rows w' = tw_rows w" "tw_world w' = tw_world w" using c r(2) by auto
qed

lemma update_scenario_ok:
  assumes "update_scenario s w = (Inr s', w')"
  shows "s' = touch_scenario (pw_now (tw_world w)) s" "update_doc (meta_id (sc_meta s)) s' (tw_rows w) = Inr (tw_rows w')" "tw_world w' = tw_world w"
  using assms by (auto simp: update_scenario_def dest!: scenario_call_ok)

lemma lab_nodes_ok:
  assumes "lab_nodes lid w = (Inr ns, w')"
  shows "ns = list_docs lid (t_nodes (pw_store (tw_world w)))" "same_rows (tw_world w) (tw_world w')" "tw_rows w' = tw_rows w"
proof -
  obtain pw where pw: "pdb ''list nodes'' (list_nodes lid) (tw_world w) = (Inr ns, pw)" "w' = w\<lparr>tw_world := pw\<rparr>" using assms by (auto simp: lab_nodes_def tprog_ok)
  show "ns = list_docs lid (t_nodes (pw_store (tw_world w)))" using pw(1) by (auto simp: pdb_ok list_nodes_def db_call_Inr)
  show "same_rows (tw_world w) (tw_world w')" using reads.withinD [OF table_reads(3) pw(1)] pw(2) by simp
  show "tw_rows w' = tw_rows w" using pw(2) by simp
qed

lemma same_rows_keys: "same_rows w w' \<Longrightarrow> program_rows_ok w' = program_rows_ok w" "same_rows w w' \<Longrightarrow> lab_ids_ok w' = lab_ids_ok w"
  "same_rows w w' \<Longrightarrow> same_places w w'" "same_places w w' \<Longrightarrow> lab_ids_ok w' = lab_ids_ok w"
  by (simp_all add: same_rows_def same_places_def program_rows_ok_def program_keys_def lab_ids_ok_def)

lemma start_pair_cases:
  assumes "start_pair x lid s dst w = (Inr (sv, cl), w' :: traffic_world)"
  obtains w1 :: traffic_world and args args' where "start_role x lid (server_role_name s) args (ts_dest_id (sc_spec s)) (tw_world w) = (Inr sv, tw_world w1)"
    "start_role x lid (client_role_name s) args' (ts_source_id (sc_spec s)) (tw_world w1) = (Inr cl, tw_world w')" "tw_rows w1 = tw_rows w" "tw_rows w' = tw_rows w1"
proof -
  obtain sv' r and w1 w2 :: traffic_world where 1: "tprog ServerSide (start_role x lid (server_role_name s) (server_args (ts_protocol (sc_spec s)) (traffic_port (ts_protocol (sc_spec s)) (ts_port (sc_spec s)))) (ts_dest_id (sc_spec s))) w = (Inr sv', w1)"
    and 2: "tprog ClientSide (start_role x lid (client_role_name s) (client_args x (ts_protocol (sc_spec s)) (client_target (ts_protocol (sc_spec s)) (show_addr (paddr (address (n_spec dst))))
         (traffic_port (ts_protocol (sc_spec s)) (ts_port (sc_spec s)))) (ts_rate (sc_spec s)) (ts_concurrency (sc_spec s)) (ts_payload (sc_spec s))) (ts_source_id (sc_spec s))) w1 = (r, w2)"
    and 3: "(case r of Inr cl \<Rightarrow> aret (sv', cl) | Inl e \<Rightarrow> abind (atry (tprog ServerSide (delete_program (x_prog x) lid (meta_id (p_meta sv'))))) (\<lambda>_. afail e)) w2 = (Inr (sv, cl), w')"
    using assms by (auto simp: start_pair_def Let_def atry_ok simp del: sum.case)
  obtain cl' where r: "r = Inr cl'" using 3 by (cases r) auto
  show thesis using 1 2 3 that [of _ w1] by (auto simp: r tprog_ok)
qed

text \<open>A start that has to start something leaves the server program and the client program in the table.\<close>

lemma start_pair_ok:
  assumes "start_pair x lid s dst w = (Inr (sv, cl), w' :: traffic_world)" "program_rows_ok (tw_world w)" "lab_ids_ok (tw_world w)"
  shows "program_rows_ok (tw_world w')" "same_places (tw_world w) (tw_world w')" "tw_rows w' = tw_rows w"
    "get_doc (meta_id (p_meta sv)) (t_programs (pw_store (tw_world w'))) = Inr sv" "get_doc (meta_id (p_meta cl)) (t_programs (pw_store (tw_world w'))) = Inr cl"
    "program_name sv = server_role_name s" "program_name cl = client_role_name s" "p_lab (p_spec sv) = lid" "p_lab (p_spec cl) = lid"
    "\<exists>n \<in> set (list_docs lid (t_nodes (pw_store (tw_world w)))). node_id n = ts_dest_id (sc_spec s) \<and> node_name n = server_name (p_spec sv)"
    "\<exists>n \<in> set (list_docs lid (t_nodes (pw_store (tw_world w)))). node_id n = ts_source_id (sc_spec s) \<and> node_name n = server_name (p_spec cl)"
proof -
  obtain w1 :: traffic_world and args args' where 1: "start_role x lid (server_role_name s) args (ts_dest_id (sc_spec s)) (tw_world w) = (Inr sv, tw_world w1)"
    and 2: "start_role x lid (client_role_name s) args' (ts_source_id (sc_spec s)) (tw_world w1) = (Inr cl, tw_world w')" and rows: "tw_rows w1 = tw_rows w" "tw_rows w' = tw_rows w1"
    by (rule start_pair_cases [OF assms(1)])
  note a = start_role_ok [OF 1 assms(2,3)]
  note b = start_role_ok [OF 2 a(1)] same_rows_keys(4) [OF a(2)]
  have l1: "lab_ids_ok (tw_world w1)" using same_rows_keys(4) [OF a(2)] assms(3) by simp
  note b = start_role_ok [OF 2 a(1) l1]
  show "program_rows_ok (tw_world w')" by (rule b(1))
  show "same_places (tw_world w) (tw_world w')" by (rule places.trans [OF a(2) b(2)])
  show "tw_rows w' = tw_rows w" using rows by simp
  show "get_doc (meta_id (p_meta sv)) (t_programs (pw_store (tw_world w'))) = Inr sv" by (rule b(7) [OF a(3)])
  show "get_doc (meta_id (p_meta cl)) (t_programs (pw_store (tw_world w'))) = Inr cl" by (rule b(3))
  show "program_name sv = server_role_name s" "program_name cl = client_role_name s" "p_lab (p_spec sv) = lid" "p_lab (p_spec cl) = lid" using a(4,5) b(4,5) by simp_all
  show "\<exists>n \<in> set (list_docs lid (t_nodes (pw_store (tw_world w)))). node_id n = ts_dest_id (sc_spec s) \<and> node_name n = server_name (p_spec sv)" by (rule a(6))
  show "\<exists>n \<in> set (list_docs lid (t_nodes (pw_store (tw_world w)))). node_id n = ts_source_id (sc_spec s) \<and> node_name n = server_name (p_spec cl)"
    using b(6) a(2) by (simp add: same_places_def)
qed

section \<open>A start, a stop, a start\<close>

definition scenario_ids_ok :: "traffic_world \<Rightarrow> bool" where
  "scenario_ids_ok w \<longleftrightarrow> list_all (\<lambda>r. meta_id (sc_meta (row_doc r)) = row_id r) (tw_rows w)"

definition node_ids_ok :: "string \<Rightarrow> prog_world \<Rightarrow> bool" where
  "node_ids_ok lid w \<longleftrightarrow> distinct (map node_id (list_docs lid (t_nodes (pw_store w))))"

lemma scenario_id: "scenario_ids_ok w \<Longrightarrow> get_doc i (tw_rows w) = Inr s \<Longrightarrow> meta_id (sc_meta s) = i"
  by (auto simp: scenario_ids_ok_def get_doc_def list_all_iff find_Some_iff split: option.splits)

definition paired :: "string \<Rightarrow> scenario \<Rightarrow> program \<Rightarrow> program \<Rightarrow> traffic_world \<Rightarrow> bool" where
  "paired lid s sv cl w \<longleftrightarrow> get_doc (meta_id (p_meta sv)) (t_programs (pw_store (tw_world w))) = Inr sv \<and> program_name sv = server_role_name s \<and> p_lab (p_spec sv) = lid \<and>
     (\<exists>n \<in> set (list_docs lid (t_nodes (pw_store (tw_world w)))). node_id n = ts_dest_id (sc_spec s) \<and> node_name n = server_name (p_spec sv)) \<and>
     get_doc (meta_id (p_meta cl)) (t_programs (pw_store (tw_world w))) = Inr cl \<and> program_name cl = client_role_name s \<and> p_lab (p_spec cl) = lid \<and>
     (\<exists>n \<in> set (list_docs lid (t_nodes (pw_store (tw_world w)))). node_id n = ts_source_id (sc_spec s) \<and> node_name n = server_name (p_spec cl))"

lemma abind_okE:
  assumes "abind m f w = (Inr y, w')"
  obtains a w1 where "m w = (Inr a, w1)" "f a w1 = (Inr y, w')"
  using assms by (auto simp: abind_def split: prod.splits sum.splits)

lemma start_scenario_steps:
  assumes "start_scenario x lid i w = (Inr s', w' :: traffic_world)" "get_doc i (tw_rows w) = Inr s" "tt_phase (sc_status s) \<noteq> TrafficRunning"
  obtains w1 ns w2 dst sv cl w3 where "get_scenario lid i w = (Inr s, w1)" "lab_nodes lid w1 = (Inr ns, w2)" "start_pair x lid s dst w2 = (Inr (sv, cl), w3)"
    "update_scenario (s\<lparr>sc_status := running_status (pw_now (tw_world w3)) s sv cl\<rparr>) w3 = (Inr s', w')"
proof -
  obtain s1 w1 where 1: "get_scenario lid i w = (Inr s1, w1)"
    and 2: "(if tt_phase (sc_status s1) = TrafficRunning then aret s1
     else abind (lab_nodes lid) (\<lambda>ns. abind (alift (server_by_id ''destination server'' ns (ts_dest_id (sc_spec s1)))) (\<lambda>dst.
       if \<not> is_valid (address (n_spec dst)) then afail (NoDestAddress (node_name dst))
       else abind (start_pair x lid s1 dst) (\<lambda>(sv, cl). abind (aget (\<lambda>w. pw_now (tw_world w))) (\<lambda>now.
         update_scenario (s1\<lparr>sc_status := running_status now s1 sv cl\<rparr>)))))) w1 = (Inr s', w')"
    using assms(1) unfolding start_scenario_def by (rule abind_okE)
  have s1: "s1 = s" using get_scenario_ok(1) [OF 1] assms(2) by simp
  show thesis using 2 that [OF 1 [unfolded s1]] assms(3) by (auto simp: s1 aget_def split: if_splits)
qed

lemma stop_scenario_steps:
  assumes "stop_scenario x lid i w = (Inr s', w' :: traffic_world)" "get_doc i (tw_rows w) = Inr s" "tt_phase (sc_status s) = TrafficRunning"
  obtains w1 e1 w2 e2 w3 where "get_scenario lid i w = (Inr s, w1)" "stop_role x lid ClientSide (tt_client_id (sc_status s)) w1 = (Inr e1, w2)"
    "stop_role x lid ServerSide (tt_server_id (sc_status s)) w2 = (Inr e2, w3)"
    "update_scenario (s\<lparr>sc_status := (sc_status s)\<lparr>tt_phase := TrafficStopped, tt_last_error := (if e1 @ e2 = [] then [] else x_text x (e1 @ e2))\<rparr>\<rparr>) w3 = (Inr s', w')"
proof -
  obtain s1 w1 where 1: "get_scenario lid i w = (Inr s1, w1)"
    and 2: "(if tt_phase (sc_status s1) \<noteq> TrafficRunning then aret s1
     else abind (stop_role x lid ClientSide (tt_client_id (sc_status s1))) (\<lambda>e1. abind (stop_role x lid ServerSide (tt_server_id (sc_status s1))) (\<lambda>e2.
       update_scenario (s1\<lparr>sc_status := (sc_status s1)\<lparr>tt_phase := TrafficStopped, tt_last_error := (if e1 @ e2 = [] then [] else x_text x (e1 @ e2))\<rparr>\<rparr>)))) w1 = (Inr s', w')"
    using assms(1) unfolding stop_scenario_def by (rule abind_okE)
  have s1: "s1 = s" using get_scenario_ok(1) [OF 1] assms(2) by simp
  show thesis using 2 that [OF 1 [unfolded s1]] assms(3) by (auto simp: s1 simp del: append_is_Nil_conv elim!: abind_okE)
qed

lemma start_scenario_ok:
  assumes "start_scenario x lid i w = (Inr s', w' :: traffic_world)" "get_doc i (tw_rows w) = Inr s" "tt_phase (sc_status s) \<noteq> TrafficRunning"
    and ok: "program_rows_ok (tw_world w)" "lab_ids_ok (tw_world w)" "scenario_ids_ok w"
  obtains sv cl now where "paired lid s sv cl w'" "s' = touch_scenario now (s\<lparr>sc_status := running_status now s sv cl\<rparr>)" "get_doc i (tw_rows w') = Inr s'"
    "program_rows_ok (tw_world w')" "same_places (tw_world w) (tw_world w')"
proof -
  obtain w1 ns w2 dst sv cl w3 where 1: "get_scenario lid i w = (Inr s, w1)" and n: "lab_nodes lid w1 = (Inr ns, w2)" and p: "start_pair x lid s dst w2 = (Inr (sv, cl), w3)"
    and u: "update_scenario (s\<lparr>sc_status := running_status (pw_now (tw_world w3)) s sv cl\<rparr>) w3 = (Inr s', w')"
    by (rule start_scenario_steps [OF assms(1-3)])
  note g = get_scenario_ok [OF 1]
  note n = lab_nodes_ok [OF n] and u = update_scenario_ok [OF u]
  note r = same_rows_keys(1,2) [OF n(2)]
  have pre: "program_rows_ok (tw_world w2)" "lab_ids_ok (tw_world w2)" using r ok g(4) by simp_all
  note q = start_pair_ok [OF p pre]
  have places: "same_places (tw_world w) (tw_world w3)" using places.trans [OF same_rows_keys(3) [OF n(2)] q(2)] g(4) by simp
  have id: "meta_id (sc_meta s) = i" by (rule scenario_id [OF ok(3) assms(2)])
  show thesis
  proof (rule that)
    show "paired lid s sv cl w'" using q(2,4-) u(3) by (simp add: paired_def same_places_def)
    show "s' = touch_scenario (pw_now (tw_world w3)) (s\<lparr>sc_status := running_status (pw_now (tw_world w3)) s sv cl\<rparr>)" by (rule u(1))
    show "get_doc i (tw_rows w') = Inr s'" using rows.get_put [OF u(2)] id by simp
    show "program_rows_ok (tw_world w')" using q(1) u(3) by simp
    show "same_places (tw_world w) (tw_world w')" using places u(3) by simp
  qed
qed

lemma stop_role_frame:
  assumes "stop_role x lid g i w = (r, w')" "program_rows_ok (tw_world w)"
  shows "program_rows_ok (tw_world w') \<and> program_keys (tw_world w') = program_keys (tw_world w) \<and> same_places (tw_world w) (tw_world w') \<and> tw_rows w' = tw_rows w \<and> (\<exists>es. r = Inr es)"
proof (cases "i = []")
  case True
  then have "w' = w" "r = Inr []" using assms by (auto simp: stop_role_def aret_def)
  then show ?thesis using assms places.refl by simp
next
  case False
  obtain r1 pw where s: "stop_program (x_prog x) lid i (tw_world w) = (r1, pw)" by force
  have "keyed (program_keys (tw_world w)) (tw_world w) pw" using keyed.withinD [OF switch_program_keyed s [unfolded stop_program_def]] .
  moreover have "same_places (tw_world w) pw" using places.withinD [OF program_requests_places(2) s [unfolded stop_program_def]] .
  ultimately show ?thesis using assms s False by (auto simp: stop_role_def keyed_def abind_def atry_def tprog_def aret_def split: prod.splits)
qed

lemma stop_scenario_ok:
  assumes "stop_scenario x lid i w = (Inr s', w' :: traffic_world)" "get_doc i (tw_rows w) = Inr s" "tt_phase (sc_status s) = TrafficRunning"
    and ok: "program_rows_ok (tw_world w)" "meta_id (sc_meta s) = i"
  shows "program_rows_ok (tw_world w') \<and> program_keys (tw_world w') = program_keys (tw_world w) \<and> same_places (tw_world w) (tw_world w') \<and> get_doc i (tw_rows w') = Inr s' \<and>
    sc_spec s' = sc_spec s \<and> scenario_name s' = scenario_name s \<and> tt_phase (sc_status s') = TrafficStopped"
proof -
  obtain w1 e1 w2 e2 w3 where 1: "get_scenario lid i w = (Inr s, w1)" and a: "stop_role x lid ClientSide (tt_client_id (sc_status s)) w1 = (Inr e1, w2)"
    and b: "stop_role x lid ServerSide (tt_server_id (sc_status s)) w2 = (Inr e2, w3)"
    and u: "update_scenario (s\<lparr>sc_status := (sc_status s)\<lparr>tt_phase := TrafficStopped, tt_last_error := (if e1 @ e2 = [] then [] else x_text x (e1 @ e2))\<rparr>\<rparr>) w3 = (Inr s', w')"
    by (rule stop_scenario_steps [OF assms(1-3)])
  note g = get_scenario_ok [OF 1]
  have A: "program_rows_ok (tw_world w2) \<and> program_keys (tw_world w2) = program_keys (tw_world w) \<and> same_places (tw_world w) (tw_world w2) \<and> tw_rows w2 = tw_rows w"
    using stop_role_frame [OF a] g(3,4) ok(1) by simp
  have B: "program_rows_ok (tw_world w3) \<and> program_keys (tw_world w3) = program_keys (tw_world w) \<and> same_places (tw_world w) (tw_world w3)"
    using stop_role_frame [OF b] A places.trans [of "tw_world w" "tw_world w2"] by auto
  note u = update_scenario_ok [OF u]
  have "get_doc i (tw_rows w') = Inr s'" using rows.get_put [OF u(2)] ok(2) by simp
  then show ?thesis using B u(1,3) by (simp add: touch_scenario_def)
qed

lemma paired_start_fails:
  assumes "paired lid s sv cl w" "program_rows_ok (tw_world w)" "node_ids_ok lid (tw_world w)"
    and w': "program_rows_ok (tw_world w')" "program_keys (tw_world w') = program_keys (tw_world w)" "same_places (tw_world w) (tw_world w')"
    and s': "get_doc i (tw_rows w') = Inr s'" "sc_spec s' = sc_spec s" "scenario_name s' = scenario_name s" "tt_phase (sc_status s') = TrafficStopped"
  shows "\<exists>e. fst (start_scenario x lid i w') = Inl e"
proof (rule ccontr)
  assume "\<nexists>e. fst (start_scenario x lid i w') = Inl e"
  then obtain s2 w2 where st: "start_scenario x lid i w' = (Inr s2, w2)" by (cases "start_scenario x lid i w'"; cases "fst (start_scenario x lid i w')") auto
  obtain w3 ns w4 dst sv' cl' w5 where 1: "get_scenario lid i w' = (Inr s', w3)" and n: "lab_nodes lid w3 = (Inr ns, w4)" and p: "start_pair x lid s' dst w4 = (Inr (sv', cl'), w5)"
    by (rule start_scenario_steps [OF st s'(1)]) (use s'(4) in auto)
  note g = get_scenario_ok [OF 1]
  note n = lab_nodes_ok [OF n]
  obtain w6 :: traffic_world and args args' where r: "start_role x lid (server_role_name s') args (ts_dest_id (sc_spec s')) (tw_world w4) = (Inr sv', tw_world w6)"
    and "start_role x lid (client_role_name s') args' (ts_source_id (sc_spec s')) (tw_world w6) = (Inr cl', tw_world w5)" "tw_rows w6 = tw_rows w4" "tw_rows w5 = tw_rows w6"
    by (rule start_pair_cases [OF p])
  have rows: "program_rows_ok (tw_world w4)" "program_keys (tw_world w4) = program_keys (tw_world w)" "list_docs lid (t_nodes (pw_store (tw_world w4))) = list_docs lid (t_nodes (pw_store (tw_world w)))"
    using same_rows_keys(1) [OF n(2)] n(2) g(4) w' by (simp, simp add: same_rows_def program_keys_def, simp add: same_rows_def same_places_def)
  have "name_taken (tw_world w4) lid (server_role_name s') (server_name (p_spec sv))"
    unfolding name_taken_def rows(2)
  proof
    show "(meta_id (p_meta sv), lid, server_role_name s', server_name (p_spec sv)) \<in> set (program_keys (tw_world w))"
      using assms(1) stored_key(1) [OF assms(2), of "meta_id (p_meta sv)" sv] s'(3) by (simp add: paired_def key_of_def server_role_name_def)
  qed
  moreover have "node_name m = server_name (p_spec sv)" if "m \<in> set (list_docs lid (t_nodes (pw_store (tw_world w4))))" "node_id m = ts_dest_id (sc_spec s')" for m
    using assms(1,3) that s'(2) unfolding rows(3) paired_def node_ids_ok_def by (auto dest: eq_key_imp_eq_value simp: distinct_map inj_on_def)
  ultimately have "\<exists>e. fst (start_role x lid (server_role_name s') args (ts_dest_id (sc_spec s')) (tw_world w4)) = Inl e"
    by (rule start_role_taken [OF rows(1)])
  then show False using r by simp
qed

text \<open>C33: A stop is documented to keep the programs of a scenario so that the next start is instant. A start makes both
  programs anew under the same names, though, so a scenario that was started and stopped cannot be started again.\<close>
theorem stopped_scenarios_cannot_restart:
  assumes "program_rows_ok (tw_world w)" "lab_ids_ok (tw_world w)" "node_ids_ok lid (tw_world w)" "scenario_ids_ok w"
    and "get_doc i (tw_rows w) = Inr s" "tt_phase (sc_status s) \<noteq> TrafficRunning"
    and "start_scenario x lid i w = (Inr s1, w1)" "stop_scenario x lid i w1 = (Inr s2, w2)"
  shows "\<exists>e. fst (start_scenario x lid i w2) = Inl e"
proof -
  obtain sv cl now where 1: "paired lid s sv cl w1" "s1 = touch_scenario now (s\<lparr>sc_status := running_status now s sv cl\<rparr>)" "get_doc i (tw_rows w1) = Inr s1"
    "program_rows_ok (tw_world w1)" "same_places (tw_world w) (tw_world w1)"
    by (rule start_scenario_ok [OF assms(7,5,6,1,2,4)])
  have i: "meta_id (sc_meta s1) = i" using scenario_id [OF assms(4,5)] 1(2) by (simp add: touch_scenario_def)
  have r: "tt_phase (sc_status s1) = TrafficRunning" using 1(2) by (simp add: touch_scenario_def running_status_def)
  note st = stop_scenario_ok [OF assms(8) 1(3) r 1(4) i]
  have "node_ids_ok lid (tw_world w1)" using assms(3) 1(5) by (simp add: node_ids_ok_def same_places_def)
  from paired_start_fails [OF 1(1,4) this] st show ?thesis using 1(2) by (auto simp: touch_scenario_def)
qed

section \<open>Deleting and pruning\<close>

lemma delete_role_rows: "delete_role x lid i w = (r, w') \<Longrightarrow> tw_rows w' = tw_rows w \<and> r = Inr ()"
  by (auto simp: delete_role_def abind_def atry_def tprog_def aret_def split: if_splits prod.splits)

lemma delete_scenario_rows:
  assumes "delete_scenario x lid i w = (Inr (), w')"
  shows "tw_rows w' = filter (\<lambda>r. row_id r \<noteq> i) (tw_rows w)"
proof -
  obtain s w1 w2 w3 where 1: "get_scenario lid i w = (Inr s, w1)" and 2: "delete_role x lid (tt_client_id (sc_status s)) w1 = (Inr (), w2)"
    "delete_role x lid (tt_server_id (sc_status s)) w2 = (Inr (), w3)" and 3: "delete_scenario_row i w3 = (Inr (), w')"
    using assms unfolding delete_scenario_def by (auto elim!: abind_okE)
  show ?thesis using scenario_call_ok [OF 3 [unfolded delete_scenario_row_def]] get_scenario_ok(3) [OF 1] delete_role_rows [OF 2(1)] delete_role_rows [OF 2(2)]
    by (auto split: if_splits)
qed

definition loses_endpoint :: "string list \<Rightarrow> scenario \<Rightarrow> bool" where
  "loses_endpoint removed s \<longleftrightarrow> ts_source_name (sc_spec s) \<in> set removed \<or> ts_dest_name (sc_spec s) \<in> set removed"

lemma prune_each_rows:
  "aeach (\<lambda>s. if loses_endpoint removed s then delete_scenario x lid (meta_id (sc_meta s)) else aret ()) ss w = (Inr (), w') \<Longrightarrow>
    tw_rows w' = filter (\<lambda>r. \<forall>s \<in> set ss. loses_endpoint removed s \<longrightarrow> row_id r \<noteq> meta_id (sc_meta s)) (tw_rows w)"
proof (induction ss arbitrary: w)
  case Nil
  then show ?case by simp
next
  case (Cons s ss)
  obtain w1 where 1: "(if loses_endpoint removed s then delete_scenario x lid (meta_id (sc_meta s)) else aret ()) w = (Inr (), w1)"
    and 2: "aeach (\<lambda>s. if loses_endpoint removed s then delete_scenario x lid (meta_id (sc_meta s)) else aret ()) ss w1 = (Inr (), w')"
    using Cons.prems by (auto simp del: if_split elim!: abind_okE)
  have "tw_rows w1 = (if loses_endpoint removed s then filter (\<lambda>r. row_id r \<noteq> meta_id (sc_meta s)) (tw_rows w) else tw_rows w)"
    using 1 delete_scenario_rows by (auto split: if_splits)
  then show ?case using Cons.IH [OF 2] by (auto intro: filter_cong)
qed


definition try_scenario :: scenario where
  "try_scenario = \<lparr>sc_meta = fresh_meta ''t1'' ''load'', sc_spec = \<lparr>ts_lab = ''l'', ts_source_id = ''n1'', ts_source_name = ''s1'', ts_dest_id = ''n2'', ts_dest_name = ''s2'',
     ts_protocol = ''http'', ts_port = 0, ts_rate = 10, ts_concurrency = 1, ts_payload = 0, ts_duration = 0, ts_assertions = []\<rparr>, sc_status = idle_status\<rparr>"

definition try_traffic :: traffic_env where
  "try_traffic = \<lparr>x_prog = try_env, x_interval = (\<lambda>_. ''100ms''), x_text = (\<lambda>_. ''error''), x_draw = (\<lambda>k. (k, 1))\<rparr>"

definition try_load :: traffic_world where
  "try_load = \<lparr>tw_world = try_world, tw_rows = [try_row ''t1'' ''load'' try_scenario], tw_io = [], tw_drawn = 0\<rparr>"

lemma try_load_facts:
  "let s = start_scenario try_traffic ''l'' ''t1'' try_load; p = stop_scenario try_traffic ''l'' ''t1'' (snd s) in
     answered s \<and> answered p \<and> tw_io (snd p) = [] \<and> program_running (tw_world (snd s)) ''s2'' ''load-server'' \<and> program_running (tw_world (snd s)) ''s1'' ''load-client''"
  by code_simp

lemma try_load_ok: "program_rows_ok (tw_world try_load)" "lab_ids_ok (tw_world try_load)" "node_ids_ok ''l'' (tw_world try_load)" "scenario_ids_ok try_load"
    "get_doc ''t1'' (tw_rows try_load) = Inr try_scenario" "tt_phase (sc_status try_scenario) \<noteq> TrafficRunning"
  by (simp_all add: try_load_def try_world_def try_row_def try_lab_def try_node_def fresh_meta_def program_rows_ok_def program_keys_def lab_ids_ok_def node_ids_ok_def
      scenario_ids_ok_def get_doc_def list_docs_def try_scenario_def idle_status_def)

lemma try_prune_facts:
  "let s = start_scenario try_traffic ''l'' ''t1'' try_load; p = prune_scenarios try_traffic ''l'' [''s2''] (snd s) in
     scenario_ids_ok (snd s) \<and> distinct (map row_id (tw_rows (snd s))) \<and> length (tw_rows (snd s)) = 1 \<and> answered p \<and> \<not> program_running (tw_world (snd p)) ''s1'' ''load-client''"
  unfolding scenario_ids_ok_def by code_simp

theorem stopped_scenarios_cannot_restart_witness:
  "let s = start_scenario try_traffic ''l'' ''t1'' try_load; p = stop_scenario try_traffic ''l'' ''t1'' (snd s) in
     answered s \<and> answered p \<and> (\<exists>e. fst (start_scenario try_traffic ''l'' ''t1'' (snd p)) = Inl e)"
proof -
  let ?s = "start_scenario try_traffic ''l'' ''t1'' try_load"
  let ?p = "stop_scenario try_traffic ''l'' ''t1'' (snd ?s)"
  have a: "answered ?s" "answered ?p" using try_load_facts by (simp_all add: Let_def)
  obtain s1 where s1: "?s = (Inr s1, snd ?s)" using a(1) by (rule answered_obtain)
  obtain s2 where s2: "?p = (Inr s2, snd ?p)" using a(2) by (rule answered_obtain)
  have "\<exists>e. fst (start_scenario try_traffic ''l'' ''t1'' (snd ?p)) = Inl e"
    by (rule stopped_scenarios_cannot_restart [OF try_load_ok s1 s2])
  then show ?thesis using a by (simp add: Let_def)
qed


end
