(* ===== verification/TrafficWatch.thy ===== *)
theory TrafficWatch
  imports TrafficProps NetipParse Validate
begin

text \<open>
  controller/internal/traffic: the collector that tails the log of the client of every running scenario, turns the counters of
  the traffic generator into points, keeps an hour of them in memory and checks the assertions of the scenario.
\<close>

section \<open>Lines of statistics (parse.go)\<close>

record stats_line =
  sl_msg :: string
  sl_total :: int
  sl_failed :: int
  sl_rate :: real
  sl_p50 :: int
  sl_p95 :: int
  sl_p99 :: int

text \<open>\<open>decode\<close> is \<open>json.Unmarshal\<close> into a line.\<close>

definition stats_of :: "(string \<Rightarrow> stats_line option) \<Rightarrow> string \<Rightarrow> stats_line option" where
  "stats_of decode l = (case trim_space l of [] \<Rightarrow> None | t \<Rightarrow> (case decode t of None \<Rightarrow> None | Some s \<Rightarrow> if sl_msg s = ''stats'' then Some s else None))"

definition latest_stats_line :: "(string \<Rightarrow> stats_line option) \<Rightarrow> string \<Rightarrow> stats_line option" where
  "latest_stats_line decode text = first_some (stats_of decode) (rev (split_on (CHR 10) text))"

section \<open>Assertions (assertions.go)\<close>

definition metric_value :: "string \<Rightarrow> traffic_point \<Rightarrow> real" where
  "metric_value m p = (if m = ''rate'' then tp_rate p else if m = ''successRate'' then tp_success p else if m = ''p50'' then real_of_int (tp_p50 p)
     else if m = ''p95'' then real_of_int (tp_p95 p) else if m = ''p99'' then real_of_int (tp_p99 p) else 0)"

definition compare_pass :: "string \<Rightarrow> real \<Rightarrow> real \<Rightarrow> bool" where
  "compare_pass c v t = (if c = ''gte'' then v \<ge> t else if c = ''lte'' then v \<le> t else False)"

definition evaluate_assertions :: "assertion list \<Rightarrow> traffic_point \<Rightarrow> assertion_result list" where
  "evaluate_assertions as p = map (\<lambda>a. let v = metric_value (ta_metric a) p in
     \<lparr>tr_assertion = a, tr_value = v, tr_pass = compare_pass (ta_cmp a) v (ta_threshold a)\<rparr>) as"

section \<open>History (history.go)\<close>

type_synonym windows = "string \<rightharpoonup> traffic_point list"

definition window_span :: int where "window_span = 3600 * second"

definition trim_window :: "traffic_point list \<Rightarrow> nat \<Rightarrow> traffic_point list" where
  "trim_window ps now = dropWhile (\<lambda>p. int (tp_at p) < int now - window_span) ps"

definition window :: "windows \<Rightarrow> string \<Rightarrow> traffic_point list" where
  "window h i = (case h i of None \<Rightarrow> [] | Some ps \<Rightarrow> ps)"

definition append_point :: "string \<Rightarrow> traffic_point \<Rightarrow> windows \<Rightarrow> windows" where
  "append_point i p h = h(i \<mapsto> trim_window (window h i @ [p]) (tp_at p))"

definition query_window :: "windows \<Rightarrow> string \<Rightarrow> int \<times> int \<Rightarrow> traffic_point list" where
  "query_window h i r = filter (\<lambda>p. \<not> int (tp_at p) < fst r \<and> \<not> int (tp_at p) > snd r) (window h i)"

definition last_point :: "windows \<Rightarrow> string \<Rightarrow> traffic_point option" where
  "last_point h i = (if window h i = [] then None else Some (last (window h i)))"

definition retain :: "string list \<Rightarrow> (string \<rightharpoonup> 'a) \<Rightarrow> string \<rightharpoonup> 'a" where
  "retain active h = h |` set active"

section \<open>The collector (collector.go)\<close>

record watcher =
  wa_traffic :: traffic_world
  wa_base :: "string \<rightharpoonup> stats_line"
  wa_windows :: windows

text \<open>The logs are answers of the agents to \<open>TailLogs\<close>: the address, the name of the program and the number of lines.\<close>

record watch_env =
  wx_traffic :: traffic_env
  wx_tail :: "string \<Rightarrow> string \<Rightarrow> nat \<Rightarrow> string option"
  wx_decode :: "string \<Rightarrow> stats_line option"

definition tail_lines :: nat where "tail_lines = 5"

definition watch_now :: "watcher \<Rightarrow> nat" where
  "watch_now w = pw_now (tw_world (wa_traffic w))"

definition scenario_expired :: "nat \<Rightarrow> scenario \<Rightarrow> bool" where
  "scenario_expired now s \<longleftrightarrow> \<not> (ts_duration (sc_spec s) \<le> 0 \<or> tt_started (sc_status s) = 0) \<and> int now > int (tt_started (sc_status s)) + ts_duration (sc_spec s)"

definition int64 :: "int \<Rightarrow> int" where "int64 i = signed_take_bit 63 i"

definition stats_point :: "nat \<Rightarrow> stats_line \<Rightarrow> stats_line \<Rightarrow> traffic_point" where
  "stats_point now prev l = (let total = int64 (sl_total l - sl_total prev); ok = int64 (total - int64 (sl_failed l - sl_failed prev)) in
     \<lparr>tp_at = now, tp_rate = sl_rate l, tp_success = 100 * real_of_int ok / real_of_int total, tp_p50 = sl_p50 l, tp_p95 = sl_p95 l, tp_p99 = sl_p99 l\<rparr>)"

definition observe :: "scenario \<Rightarrow> traffic_point \<Rightarrow> scenario" where
  "observe s p = s\<lparr>sc_status := (sc_status s)\<lparr>tt_point := Some p, tt_results := evaluate_assertions (ts_assertions (sc_spec s)) p, tt_observed := tp_at p\<rparr>\<rparr>"

definition client_line :: "watch_env \<Rightarrow> lab \<Rightarrow> scenario \<Rightarrow> stats_line option" where
  "client_line x lb s = (case u_addr (x_prog (wx_traffic x)) (meta_name (lab_meta lb)) (ts_source_name (sc_spec s)) of Inl _ \<Rightarrow> None
     | Inr a \<Rightarrow> (case wx_tail x a (tt_client_name (sc_status s)) tail_lines of None \<Rightarrow> None | Some text \<Rightarrow> latest_stats_line (wx_decode x) text))"

definition record_point :: "scenario \<Rightarrow> traffic_point \<Rightarrow> watcher \<Rightarrow> watcher" where
  "record_point s p w = w\<lparr>wa_windows := append_point (meta_id (sc_meta s)) p (wa_windows w), wa_traffic := snd (update_scenario (observe s p) (wa_traffic w))\<rparr>"

definition sample :: "watch_env \<Rightarrow> lab \<Rightarrow> scenario \<Rightarrow> watcher \<Rightarrow> watcher" where
  "sample x lb s w = (case client_line x lb s of None \<Rightarrow> w
     | Some l \<Rightarrow> (let i = meta_id (sc_meta s); w1 = w\<lparr>wa_base := (wa_base w)(i \<mapsto> l)\<rparr> in
         case wa_base w i of None \<Rightarrow> w1
         | Some prev \<Rightarrow> if sl_total l \<le> sl_total prev then w1 else record_point s (stats_point (watch_now w) prev l) w1))"

definition watch_scenario :: "watch_env \<Rightarrow> lab \<Rightarrow> scenario \<Rightarrow> watcher \<Rightarrow> watcher" where
  "watch_scenario x lb s w = (if tt_phase (sc_status s) \<noteq> TrafficRunning then w
     else if scenario_expired (watch_now w) s then w\<lparr>wa_traffic := snd (stop_scenario (wx_traffic x) (meta_id (lab_meta lb)) (meta_id (sc_meta s)) (wa_traffic w))\<rparr>
     else sample x lb s w)"

definition sweep_lab :: "watch_env \<Rightarrow> lab \<Rightarrow> string list \<Rightarrow> watcher \<Rightarrow> string list \<times> watcher" where
  "sweep_lab x lb active w = (case list_scenarios (meta_id (lab_meta lb)) (wa_traffic w) of
     (Inl _, t) \<Rightarrow> (active, w\<lparr>wa_traffic := t\<rparr>)
   | (Inr ss, t) \<Rightarrow> (active @ map (\<lambda>s. meta_id (sc_meta s)) ss, fold (watch_scenario x lb) ss (w\<lparr>wa_traffic := t\<rparr>)))"

fun sweep_labs :: "watch_env \<Rightarrow> lab list \<Rightarrow> string list \<Rightarrow> watcher \<Rightarrow> string list \<times> watcher" where
  "sweep_labs x [] active w = (active, w)"
| "sweep_labs x (lb # ls) active w = (if generation (lab_meta lb) = 0 then sweep_labs x ls active w
     else case sweep_lab x lb active w of (active', w') \<Rightarrow> sweep_labs x ls active' w')"

definition list_labs :: "store \<Rightarrow> (store_error + lab list) \<times> store" where
  "list_labs = db_call (\<lambda>s. Inr (map row_doc (sort_key row_name (t_labs s)), s))"

definition sweep :: "watch_env \<Rightarrow> watcher \<Rightarrow> watcher" where
  "sweep x w = (case tprog NodesUnreadable (pdb ''list labs'' list_labs) (wa_traffic w) of
     (Inl _, t) \<Rightarrow> w\<lparr>wa_traffic := t\<rparr>
   | (Inr ls, t) \<Rightarrow> (case sweep_labs x ls [] (w\<lparr>wa_traffic := t\<rparr>) of
       (active, w') \<Rightarrow> w'\<lparr>wa_windows := retain active (wa_windows w'), wa_base := retain active (wa_base w')\<rparr>))"

end
