(* ===== verification/TrafficWatchProps.thy ===== *)
theory TrafficWatchProps
  imports TrafficWatch
begin

text \<open>
  The collector: what the windows hold, when a success rate is a percentage, and what a sweep does to a scenario that changes
  while it runs.
\<close>

section \<open>The windows\<close>

definition window_ok :: "nat \<Rightarrow> traffic_point list \<Rightarrow> bool" where
  "window_ok now ps \<longleftrightarrow> sorted (map tp_at ps) \<and> (\<forall>p \<in> set ps. tp_at p \<le> now \<and> int (tp_at (last ps)) - window_span \<le> int (tp_at p))"

lemma dropWhile_sorted: "sorted (map f xs) \<Longrightarrow> dropWhile (\<lambda>x. int (f x) < c) xs = filter (\<lambda>x. c \<le> int (f x)) xs"
proof (induction xs)
  case (Cons x xs)
  then have "c \<le> int (f y)" if "c \<le> int (f x)" "y \<in> set xs" for y using that by fastforce
  then show ?case using Cons by (auto simp: not_less intro!: filter_True [symmetric])
qed simp

lemma trim_window_filter:
  assumes "window_ok now ps" "tp_at p = now"
  shows "trim_window (ps @ [p]) now = filter (\<lambda>q. int now - window_span \<le> int (tp_at q)) ps @ [p]"
proof -
  have "sorted (map tp_at (ps @ [p]))" using assms by (auto simp: window_ok_def sorted_append)
  from dropWhile_sorted [OF this, of "int now - window_span"] show ?thesis
    using assms(2) by (simp add: trim_window_def window_span_def second_def)
qed

lemma trimmed_ok: "window_ok now ps \<Longrightarrow> tp_at p = now \<Longrightarrow> window_ok now (filter (\<lambda>q. int now - window_span \<le> int (tp_at q)) ps @ [p])"
  by (auto simp: window_ok_def sorted_append sorted_filter window_span_def second_def)

lemma window_upd [simp]: "window (h(i \<mapsto> ps)) j = (if j = i then ps else window h j)"
  by (simp add: window_def)

text \<open>The five ways of a sample.\<close>

lemma sample_cases:
  obtains (same) "sample x lb s w = w \<or> (\<exists>b. sample x lb s w = w\<lparr>wa_base := b\<rparr>)"
  | (point) l prev where "client_line x lb s = Some l" "wa_base w (meta_id (sc_meta s)) = Some prev" "sl_total prev < sl_total l"
      "sample x lb s w = record_point s (stats_point (watch_now w) prev l) (w\<lparr>wa_base := (wa_base w)(meta_id (sc_meta s) \<mapsto> l)\<rparr>)"
proof (cases "client_line x lb s")
  case None
  then show thesis using same by (simp add: sample_def)
next
  case (Some l)
  show thesis
  proof (cases "wa_base w (meta_id (sc_meta s))")
    case None
    then show thesis using Some same by (auto simp: sample_def Let_def)
  next
    case (Some prev)
    then show thesis using \<open>client_line x lb s = Some l\<close> same point by (cases "sl_total l \<le> sl_total prev") (auto simp: sample_def Let_def)
  qed
qed

lemma stats_point_at [simp]: "tp_at (stats_point now prev l) = now"
  by (simp add: stats_point_def Let_def)

text \<open>The window of a scenario is in the order of time and spans at most an hour before its newest point. A sample
  leaves all windows as they are, or it adds one point at the end of the window of its scenario and drops
  exactly the points that are older than an hour.\<close>
theorem samples_keep_an_hour:
  assumes "\<And>j. window_ok (watch_now w) (window (wa_windows w) j)"
  shows "window_ok (watch_now w) (window (wa_windows (sample x lb s w)) i) \<and>
    (window (wa_windows (sample x lb s w)) i = window (wa_windows w) i \<or>
      i = meta_id (sc_meta s) \<and> (\<exists>p. tp_at p = watch_now w \<and> window (wa_windows (sample x lb s w)) i =
        filter (\<lambda>q. int (watch_now w) - window_span \<le> int (tp_at q)) (window (wa_windows w) i) @ [p]))"
proof (cases rule: sample_cases [of x lb s w])
  case same
  then show ?thesis using assms by auto
next
  case (point l prev)
  let ?p = "stats_point (watch_now w) prev l" and ?k = "meta_id (sc_meta s)"
  have p: "tp_at ?p = watch_now w" by simp
  have "window (wa_windows (sample x lb s w)) i = (if i = ?k then trim_window (window (wa_windows w) ?k @ [?p]) (watch_now w) else window (wa_windows w) i)"
    using point(4) by (simp add: record_point_def append_point_def)
  then show ?thesis using trim_window_filter [OF assms p] trimmed_ok [OF assms p] assms p by auto
qed

section \<open>Success rates\<close>

definition counter :: "int \<Rightarrow> bool" where "counter n \<longleftrightarrow> 0 \<le> n \<and> n < 2 ^ 63"

lemma int64_eq: "- (2 ^ 63) \<le> n \<Longrightarrow> n < 2 ^ 63 \<Longrightarrow> int64 n = n"
  by (simp add: int64_def signed_take_bit_int_eq_self)

lemma int64_wraps: "2 ^ 63 \<le> n \<Longrightarrow> n < 2 ^ 64 \<Longrightarrow> int64 n = n - 2 ^ 64"
proof -
  assume n: "2 ^ 63 \<le> n" "n < 2 ^ 64"
  have "int64 n = int64 (n - 2 ^ 64)" unfolding int64_def by (rule signed_take_bit_eq_iff_take_bit_eq [THEN iffD2]) (simp add: take_bit_eq_mod)
  also have "\<dots> = n - 2 ^ 64" using n by (intro int64_eq) simp_all
  finally show ?thesis .
qed


section \<open>A stop during a sweep\<close>

lemma record_point_row:
  assumes "get_doc (meta_id (sc_meta s)) (tw_rows (wa_traffic w)) = Inr c" "tw_io (wa_traffic w) = []"
  shows "\<exists>now. get_doc (meta_id (sc_meta s)) (tw_rows (wa_traffic (record_point s p w))) = Inr (touch_scenario now (observe s p))"
proof -
  let ?now = "pw_now (tw_world (wa_traffic w))" let ?i = "meta_id (sc_meta s)"
  obtain t where t: "update_doc ?i (touch_scenario ?now (observe s p)) (tw_rows (wa_traffic w)) = Inr t" using rows.put_stored [OF assms(1)] by blast
  then have "tw_rows (wa_traffic (record_point s p w)) = t"
    using assms(2) by (simp add: record_point_def update_scenario_def scenario_call_def abind_def aget_def observe_def)
  then show ?thesis using rows.get_put [OF t] by auto
qed

text \<open>C35: A sweep reads all scenarios of a lab first and writes each back as it was read, with the new point. A scenario
  that is stopped in between is stored as running again, although its programs have been stopped.\<close>
theorem sweep_undoes_a_stop:
  assumes "program_rows_ok (tw_world (wa_traffic w))" "get_doc i (tw_rows (wa_traffic w)) = Inr s" "meta_id (sc_meta s) = i" "tt_phase (sc_status s) = TrafficRunning"
    and stop: "stop_scenario (wx_traffic x) lid i (wa_traffic w) = (Inr s1, t1)" and io: "tw_io t1 = []"
    and l: "client_line x lb s = Some l" "wa_base w i = Some prev" "sl_total prev < sl_total l"
  shows "get_doc i (tw_rows t1) = Inr s1 \<and> tt_phase (sc_status s1) = TrafficStopped \<and>
    (\<exists>s2. get_doc i (tw_rows (wa_traffic (sample x lb s (w\<lparr>wa_traffic := t1\<rparr>)))) = Inr s2 \<and> tt_phase (sc_status s2) = TrafficRunning)"
proof -
  note st = stop_scenario_ok [OF stop assms(2,4,1,3)]
  let ?w = "w\<lparr>wa_traffic := t1, wa_base := (wa_base w)(i \<mapsto> l)\<rparr>"
  have "sample x lb s (w\<lparr>wa_traffic := t1\<rparr>) = record_point s (stats_point (pw_now (tw_world t1)) prev l) ?w"
    using l assms(3) by (simp add: sample_def Let_def watch_now_def)
  moreover have "\<exists>now. get_doc i (tw_rows (wa_traffic (record_point s p ?w))) = Inr (touch_scenario now (observe s p))" for p
    using record_point_row [of s ?w s1 p] st io assms(3) by simp
  moreover have "tt_phase (sc_status (touch_scenario now (observe s p))) = TrafficRunning" for now p
    using assms(4) by (simp add: touch_scenario_def observe_def)
  ultimately show ?thesis using st by metis
qed

text \<open>A listing of scenarios that fails once costs the lab the history of all its scenarios.\<close>

theorem failed_listing_drops_history:
  assumes "t_labs (pw_store (tw_world (wa_traffic w))) = [r]" "generation (lab_meta (row_doc r)) \<noteq> 0" "t_io (pw_store (tw_world (wa_traffic w))) = []"
    and "tw_io (wa_traffic w) = Some m # io"
  shows "wa_windows (sweep x w) = Map.empty \<and> wa_base (sweep x w) = Map.empty"
  using assms by (simp add: sweep_def tprog_def pdb_def list_labs_def db_call_def sweep_lab_def list_scenarios_def scenario_call_def retain_def)

section \<open>Runs\<close>

definition try_line :: "int \<Rightarrow> int \<Rightarrow> stats_line" where
  "try_line t f = \<lparr>sl_msg = ''stats'', sl_total = t, sl_failed = f, sl_rate = 10, sl_p50 = 1, sl_p95 = 2, sl_p99 = 3\<rparr>"

text \<open>The client started over: twenty requests without a failure, after a line with ten that all failed.\<close>

definition try_watch_env :: watch_env where
  "try_watch_env = \<lparr>wx_traffic = try_traffic, wx_tail = (\<lambda>_ _ _. Some ''x''), wx_decode = (\<lambda>_. Some (try_line 20 0))\<rparr>"

definition try_watch :: "traffic_world \<Rightarrow> watcher" where
  "try_watch t = \<lparr>wa_traffic = t, wa_base = [''t1'' \<mapsto> try_line 10 10], wa_windows = Map.empty\<rparr>"

lemma try_client_line: "client_line try_watch_env try_lab s = Some (try_line 20 0)"
  by (simp add: client_line_def try_watch_env_def try_traffic_def try_env_def latest_stats_line_def stats_of_def trim_space_def is_space_def try_line_def)

theorem samples_keep_an_hour_witness:
  "window_ok 7 (window (wa_windows (sample try_watch_env try_lab try_scenario (try_watch try_load))) ''t1'')"
proof -
  have n: "watch_now (try_watch try_load) = 7" by (simp add: watch_now_def try_watch_def try_load_def try_world_def)
  have "window_ok (watch_now (try_watch try_load)) (window (wa_windows (try_watch try_load)) j)" for j by (simp add: try_watch_def window_def window_ok_def)
  from samples_keep_an_hour [OF this, of try_watch_env try_lab try_scenario "''t1''"] show ?thesis unfolding n by blast
qed


theorem sweep_undoes_a_stop_witness:
  "let s = start_scenario try_traffic ''l'' ''t1'' try_load; p = stop_scenario try_traffic ''l'' ''t1'' (snd s) in
     \<exists>s0 s1 s2. fst s = Inr s0 \<and> fst p = Inr s1 \<and> tt_phase (sc_status s1) = TrafficStopped \<and>
       get_doc ''t1'' (tw_rows (wa_traffic (sample try_watch_env try_lab s0 ((try_watch (snd s))\<lparr>wa_traffic := snd p\<rparr>)))) = Inr s2 \<and> tt_phase (sc_status s2) = TrafficRunning"
proof -
  let ?s = "start_scenario try_traffic ''l'' ''t1'' try_load"
  let ?p = "stop_scenario try_traffic ''l'' ''t1'' (snd ?s)"
  have a: "answered ?s" "answered ?p" "tw_io (snd ?p) = []" using try_load_facts by (simp_all add: Let_def)
  obtain s0 where s0: "?s = (Inr s0, snd ?s)" using a(1) by (rule answered_obtain)
  obtain s1 where s1: "?p = (Inr s1, snd ?p)" using a(2) by (rule answered_obtain)
  obtain sv cl now where st: "s0 = touch_scenario now (try_scenario\<lparr>sc_status := running_status now try_scenario sv cl\<rparr>)"
    "get_doc ''t1'' (tw_rows (snd ?s)) = Inr s0" "program_rows_ok (tw_world (snd ?s))"
    by (rule start_scenario_ok [OF s0 try_load_ok(5,6,1,2,4)])
  have i: "meta_id (sc_meta s0) = ''t1''" "tt_phase (sc_status s0) = TrafficRunning"
    by (simp_all add: st(1) touch_scenario_def running_status_def try_scenario_def fresh_meta_def)
  have e: "wx_traffic try_watch_env = try_traffic" "wa_traffic (try_watch t) = t" "wa_base (try_watch t) ''t1'' = Some (try_line 10 10)" for t
    by (simp_all add: try_watch_env_def try_watch_def)
  have h: "program_rows_ok (tw_world (wa_traffic (try_watch (snd ?s))))" "get_doc ''t1'' (tw_rows (wa_traffic (try_watch (snd ?s)))) = Inr s0"
    "stop_scenario (wx_traffic try_watch_env) ''l'' ''t1'' (wa_traffic (try_watch (snd ?s))) = (Inr s1, snd ?p)"
    unfolding e by (rule st(3) st(2) s1)+
  have l: "sl_total (try_line 10 10) < sl_total (try_line 20 0)" by (simp add: try_line_def)
  have "get_doc ''t1'' (tw_rows (snd ?p)) = Inr s1 \<and> tt_phase (sc_status s1) = TrafficStopped \<and>
    (\<exists>s2. get_doc ''t1'' (tw_rows (wa_traffic (sample try_watch_env try_lab s0 ((try_watch (snd ?s))\<lparr>wa_traffic := snd ?p\<rparr>)))) = Inr s2 \<and> tt_phase (sc_status s2) = TrafficRunning)"
    by (rule sweep_undoes_a_stop [OF h(1,2) i h(3) a(3) try_client_line e(3) l])
  moreover have "fst ?s = Inr s0" "fst ?p = Inr s1" using s0 s1 by (metis fst_conv)+
  ultimately show ?thesis unfolding Let_def by blast
qed

end
