(* ===== verification/PowerUsecase.thy ===== *)
theory PowerUsecase
  imports PlanUsecase ProgramAgent Complex_Main
begin

text \<open>
  controller/internal/biz/power.go: devices are powered on and off by freezing their containers in place, one by one or all of a
  lab. The devices are what the calls of the runtime driver (internal/runtime) are documented to change.
\<close>

section \<open>Devices\<close>

record impairment =
  im_delay :: int
  im_jitter :: int
  im_loss :: real
  im_rate :: int

text \<open>Of every node of every lab whether it runs, and of its interfaces whether they are up and the qdisc that shapes them.\<close>

record devices =
  dv_running :: "string \<times> string \<Rightarrow> bool"
  dv_up :: "string \<times> string \<times> string \<Rightarrow> bool"
  dv_qdisc :: "string \<times> string \<times> string \<Rightarrow> impairment option"

definition set_running :: "string \<Rightarrow> bool \<Rightarrow> string \<Rightarrow> devices \<Rightarrow> devices" where
  "set_running lab on n d = d\<lparr>dv_running := (dv_running d)((lab, n) := on)\<rparr>"

definition set_up :: "string \<Rightarrow> string \<Rightarrow> bool \<Rightarrow> string \<Rightarrow> devices \<Rightarrow> devices" where
  "set_up lab i on n d = d\<lparr>dv_up := (dv_up d)((lab, n, i) := on)\<rparr>"

definition set_qdisc :: "string \<Rightarrow> string \<Rightarrow> impairment option \<Rightarrow> string \<Rightarrow> devices \<Rightarrow> devices" where
  "set_qdisc lab i q n d = d\<lparr>dv_qdisc := (dv_qdisc d)((lab, n, i) := q)\<rparr>"

text \<open>A call that reports an error may have taken effect on some of its nodes.\<close>

datatype driver_answer = DriverOk | DriverErr "string list" string

record power_world =
  po_store :: store
  po_devices :: devices
  po_driver :: "driver_answer list"
  po_now :: nat

datatype power_error = PowerStore string store_error | LabNotDeployed string | NoSuchNode string | DeviceFailed string

type_synonym 'a power = "(power_world, power_error, 'a) act"

definition podb :: "string \<Rightarrow> (store_error, 'a) db \<Rightarrow> 'a power" where
  "podb c m w = (case m (po_store w) of (r, s) \<Rightarrow> (emap_err (PowerStore c) r, w\<lparr>po_store := s\<rparr>))"

definition device_call :: "(string \<Rightarrow> devices \<Rightarrow> devices) \<Rightarrow> string list \<Rightarrow> unit power" where
  "device_call eff ns w = (case po_driver w of
     DriverErr did m # as \<Rightarrow> (Inl (DeviceFailed m), w\<lparr>po_driver := as, po_devices := fold eff (filter (\<lambda>n. n \<in> set did) ns) (po_devices w)\<rparr>)
   | as \<Rightarrow> (Inr (), w\<lparr>po_driver := tl as, po_devices := fold eff ns (po_devices w)\<rparr>))"

definition start_nodes :: "string \<Rightarrow> string list \<Rightarrow> unit power" where
  "start_nodes lab = device_call (set_running lab True)"

definition stop_nodes :: "string \<Rightarrow> string list \<Rightarrow> unit power" where
  "stop_nodes lab = device_call (set_running lab False)"

definition set_interface_state :: "string \<Rightarrow> string \<Rightarrow> string \<Rightarrow> bool \<Rightarrow> unit power" where
  "set_interface_state lab n i on = device_call (set_up lab i on) [n]"

definition apply_impairment :: "string \<Rightarrow> string \<Rightarrow> string \<Rightarrow> impairment \<Rightarrow> unit power" where
  "apply_impairment lab n i q = device_call (set_qdisc lab i (Some q)) [n]"

definition clear_impairment :: "string \<Rightarrow> string \<Rightarrow> string \<Rightarrow> unit power" where
  "clear_impairment lab n i = device_call (set_qdisc lab i None) [n]"

section \<open>The usecase\<close>

definition deployed_lab :: "string \<Rightarrow> (lab \<times> node list) power" where
  "deployed_lab lid = abind (podb ''get lab'' (get_lab lid)) (\<lambda>lb.
     if generation (lab_meta lb) = 0 then afail (LabNotDeployed (meta_name (lab_meta lb)))
     else abind (podb ''list nodes'' (list_nodes lid)) (\<lambda>ns. aret (lb, ns)))"

definition power_phase :: "bool \<Rightarrow> phase" where
  "power_phase on = (if on then PhaseRunning else PhaseStopped)"

definition switched_node :: "bool \<Rightarrow> node \<Rightarrow> node" where
  "switched_node on n = n\<lparr>n_meta := (n_meta n)\<lparr>phase := power_phase on\<rparr>\<rparr>"

text \<open>The lab phase that the phases of its nodes give.\<close>

definition phase_of_nodes :: "node list \<Rightarrow> phase" where
  "phase_of_nodes ns = (let down = length (filter (\<lambda>n. phase (n_meta n) = PhaseStopped) ns); up = length ns - down in
     if down = 0 then PhaseRunning else if up = 0 then PhaseStopped else PhaseDegraded)"

definition lab_in_phase :: "phase \<Rightarrow> lab \<Rightarrow> lab" where
  "lab_in_phase p lb = lb\<lparr>lab_meta := (lab_meta lb)\<lparr>phase := p\<rparr>\<rparr>"

text \<open>A write whose error is only logged.\<close>

definition try_write :: "(nat \<Rightarrow> (store_error, unit) db) \<Rightarrow> power_world \<Rightarrow> power_world" where
  "try_write m w = w\<lparr>po_store := logged (m (po_now w)) (po_store w)\<rparr>"

definition reconcile_lab_phase :: "lab \<Rightarrow> node list \<Rightarrow> unit power" where
  "reconcile_lab_phase lb ns w = (Inr (), try_write (\<lambda>now. update_lab now (lab_in_phase (phase_of_nodes ns) lb)) w)"

definition power_node :: "string \<Rightarrow> string \<Rightarrow> bool \<Rightarrow> node power" where
  "power_node lid nid on = abind (deployed_lab lid) (\<lambda>(lb, ns). case find (\<lambda>n. node_id n = nid) ns of
     None \<Rightarrow> afail (NoSuchNode nid)
   | Some n \<Rightarrow> abind ((if on then start_nodes else stop_nodes) (meta_name (lab_meta lb)) [node_name n]) (\<lambda>_.
       abind (aget po_now) (\<lambda>now.
       abind (podb ''update node'' (update_node now (switched_node on n))) (\<lambda>_.
       let n' = touch_node now (switched_node on n) in
       abind (reconcile_lab_phase lb (map (\<lambda>m. if node_id m = nid then n' else m) ns)) (\<lambda>_. aret n')))))"

definition start_node :: "string \<Rightarrow> string \<Rightarrow> node power" where "start_node lid nid = power_node lid nid True"

definition stop_node :: "string \<Rightarrow> string \<Rightarrow> node power" where "stop_node lid nid = power_node lid nid False"

section \<open>Whole labs\<close>

record power_job =
  wj_lab :: lab
  wj_nodes :: "node list"
  wj_op :: operation
  wj_on :: bool

definition power_lab :: "draw \<Rightarrow> string \<Rightarrow> bool \<Rightarrow> power_job power" where
  "power_lab d lid on = abind (deployed_lab lid) (\<lambda>(lb, ns). abind (aget po_now) (\<lambda>now.
     abind (podb (if on then ''create StartLab operation'' else ''create StopLab operation'') (create_operation
       (create_op d (meta_id (lab_meta lb)) (if on then OperationStartLab else OperationStopLab) \<lparr>ref_type = ''lab'', ref_id = lid\<rparr> now))) (\<lambda>op.
     aret \<lparr>wj_lab = lb, wj_nodes = ns, wj_op = op, wj_on = on\<rparr>)))"

definition start_lab :: "draw \<Rightarrow> string \<Rightarrow> power_job power" where "start_lab d lid = power_lab d lid True"

definition stop_lab :: "draw \<Rightarrow> string \<Rightarrow> power_job power" where "stop_lab d lid = power_lab d lid False"

definition update_node_phases :: "bool \<Rightarrow> node list \<Rightarrow> power_world \<Rightarrow> power_world" where
  "update_node_phases on ns w = fold (\<lambda>n. try_write (\<lambda>now. update_node now (switched_node on n))) ns w"

definition power_done :: "power_job \<Rightarrow> string option \<Rightarrow> power_world \<Rightarrow> power_world" where
  "power_done j failed w = (case failed of
     Some m \<Rightarrow> try_write (\<lambda>now. update_lab now (fail_lab ''POWER_FAILED'' now m (wj_lab j))) w
   | None \<Rightarrow> try_write (\<lambda>now. update_lab now ((wj_lab j)\<lparr>lab_meta := (lab_meta (wj_lab j))\<lparr>phase := power_phase (wj_on j), last_error := None\<rparr>\<rparr>))
       (update_node_phases (wj_on j) (wj_nodes j) w))"

text \<open>The run of the operation: its only step, then the closing callback. \<open>text\<close> is the text of an error.\<close>

definition run_power :: "(power_error \<Rightarrow> string) \<Rightarrow> (nat \<Rightarrow> nat) \<Rightarrow> power_job \<Rightarrow> power_world \<Rightarrow> string option \<times> operation list \<times> power_world" where
  "run_power text clock j w = (case (if wj_on j then start_nodes else stop_nodes) (meta_name (lab_meta (wj_lab j))) (map node_name (wj_nodes j)) w of
     (r, w') \<Rightarrow> (let failed = (case r of Inl e \<Rightarrow> Some (text e) | Inr _ \<Rightarrow> None) in
       case run_op clock (wj_op j) [(step (if wj_on j then ''StartDevices'' else ''StopDevices'') 0, ([], failed))] of
         (_, _, tr) \<Rightarrow> (failed, tr, power_done j failed w')))"

end
