(* ===== verification/Fault.thy ===== *)
theory Fault
  imports PowerUsecase Packages
begin

text \<open>
  controller/internal/biz/fault.go with data/fault.go: failures that are injected into a deployed lab and recovered on demand.
  Node faults go through the power usecase, link faults straight to the driver.
\<close>

section \<open>Resources\<close>

record fault_target =
  ft_kind :: string
  ft_node_id :: string
  ft_node_name :: string
  ft_link_id :: string
  ft_link_name :: string
  ft_side :: string

record fault_spec =
  fs_lab :: string
  fs_target :: fault_target
  fs_type :: string
  fs_impairment :: "impairment option"

record fault_status =
  fa_applied :: bool
  fa_since :: nat
  fa_error :: string

record fault =
  fa_meta :: meta
  fa_spec :: fault_spec
  fa_status :: fault_status

abbreviation fault_id :: "fault \<Rightarrow> string" where "fault_id s \<equiv> meta_id (fa_meta s)"

abbreviation applied :: "fault \<Rightarrow> bool" where "applied s \<equiv> fa_applied (fa_status s)"

definition node_stop :: string where "node_stop = ''node-stop''"
definition node_restart :: string where "node_restart = ''node-restart''"
definition link_down :: string where "link_down = ''link-down''"
definition interface_down :: string where "interface_down = ''interface-down''"
definition impaired :: string where "impaired = ''impairment''"

lemmas fault_types = node_stop_def node_restart_def link_down_def interface_down_def impaired_def

datatype fault_error = BadFaultName | BadFaultType string | NoFaultNode string | NoFaultLink string | ImpairmentNotAllowed | SideNotAllowed
  | LinkDownSide | InterfaceDownSide | BadSide string | EmptyImpairment | NegativeImpairment | LossOutOfRange | JitterWithoutDelay
  | FaultStore string store_error | FaultCall string power_error | NoFault string | TargetFaulted string | FaultLabNotDeployed string
  | NothingToRecover | EndsNotRecovered "fault_error list" | ImpairmentMissing

record fault_world =
  fw_power :: power_world
  fw_rows :: "fault row list"
  fw_io :: "string option list"
  fw_drawn :: nat

record fault_env =
  fe_text :: "fault_error \<Rightarrow> string"
  fe_draw :: "nat \<Rightarrow> draw"

type_synonym 'a faulty = "(fault_world, fault_error, 'a) act"

definition fpower :: "string \<Rightarrow> 'a power \<Rightarrow> 'a faulty" where
  "fpower c m w = (case m (fw_power w) of (r, pw) \<Rightarrow> (emap_err (FaultCall c) r, w\<lparr>fw_power := pw\<rparr>))"

section \<open>Rows\<close>

definition fault_call :: "string \<Rightarrow> (fault row list \<Rightarrow> store_error + ('a \<times> fault row list)) \<Rightarrow> 'a faulty" where
  "fault_call c f w = (case fw_io w of Some m # io \<Rightarrow> (Inl (FaultStore c (DatabaseFailed m)), w\<lparr>fw_io := io\<rparr>)
   | io \<Rightarrow> (case f (fw_rows w) of Inl e \<Rightarrow> (Inl (FaultStore c e), w\<lparr>fw_io := tl io\<rparr>) | Inr (x, t) \<Rightarrow> (Inr x, w\<lparr>fw_io := tl io, fw_rows := t\<rparr>)))"

definition insert_fault :: "fault \<Rightarrow> unit faulty" where
  "insert_fault s = fault_call ''persist fault scenario'' (\<lambda>t.
     ebind (insert_row \<lparr>row_id = fault_id s, row_scope = fs_lab (fa_spec s), row_name = meta_name (fa_meta s), row_doc = s\<rparr> t) (\<lambda>t'. Inr ((), t')))"

definition touch_fault :: "nat \<Rightarrow> fault \<Rightarrow> fault" where
  "touch_fault now s = s\<lparr>fa_meta := (fa_meta s)\<lparr>updated_at := now\<rparr>\<rparr>"

definition fault_now :: "nat faulty" where "fault_now = aget (\<lambda>w. po_now (fw_power w))"

definition update_fault :: "fault \<Rightarrow> fault faulty" where
  "update_fault s = abind fault_now (\<lambda>now. fault_call ''update fault scenario'' (\<lambda>t.
     ebind (update_doc (fault_id s) (touch_fault now s) t) (\<lambda>t'. Inr (touch_fault now s, t'))))"

definition delete_fault_row :: "string \<Rightarrow> unit faulty" where
  "delete_fault_row i = fault_call ''delete fault scenario'' (\<lambda>t. if list_ex (\<lambda>r. row_id r = i) t then Inr ((), filter (\<lambda>r. row_id r \<noteq> i) t) else Inl RowMissing)"

definition read_fault :: "string \<Rightarrow> fault faulty" where
  "read_fault i = fault_call ''get fault scenario'' (\<lambda>t. ebind (get_doc i t) (\<lambda>s. Inr (s, t)))"

definition list_faults :: "string \<Rightarrow> fault list faulty" where
  "list_faults lid = fault_call ''list fault scenarios'' (\<lambda>t. Inr (list_docs lid t, t))"

text \<open>\<open>get\<close>: a scenario of the lab.\<close>

definition get_fault :: "string \<Rightarrow> string \<Rightarrow> fault faulty" where
  "get_fault lid i = abind (read_fault i) (\<lambda>s. if fs_lab (fa_spec s) \<noteq> lid then afail (NoFault i) else aret s)"

section \<open>Creating\<close>

definition fault_name_ok :: "string \<Rightarrow> bool" where
  "fault_name_ok s \<longleftrightarrow> (case s of [] \<Rightarrow> False | c # cs \<Rightarrow> name_char c \<and> length cs \<le> 62 \<and> list_all (\<lambda>c. name_char c \<or> c = CHR ''-'') cs)"

definition check_fault_type :: "string \<Rightarrow> fault_error + unit" where
  "check_fault_type t = (if t \<in> {node_stop, node_restart, link_down, interface_down, impaired} then Inr () else Inl (BadFaultType t))"

definition targets_node :: "string \<Rightarrow> bool" where
  "targets_node t \<longleftrightarrow> t = node_stop \<or> t = node_restart"

definition link_by_id :: "string \<Rightarrow> string \<Rightarrow> link faulty" where
  "link_by_id lid i = abind (fpower ''list links'' (podb [] (list_links lid))) (\<lambda>ls.
     case find (\<lambda>l. meta_id (l_meta l) = i) ls of None \<Rightarrow> afail (NoFaultLink i) | Some l \<Rightarrow> aret l)"

definition resolve_target :: "fault_spec \<Rightarrow> fault_spec faulty" where
  "resolve_target sp = (let t = fs_target sp in if targets_node (fs_type sp) then
       abind (fpower ''list nodes'' (podb [] (list_nodes (fs_lab sp)))) (\<lambda>ns. case find (\<lambda>n. node_id n = ft_node_id t) ns of
           None \<Rightarrow> afail (NoFaultNode (ft_node_id t))
         | Some n \<Rightarrow> aret (sp\<lparr>fs_target := t\<lparr>ft_kind := ''node'', ft_node_name := node_name n\<rparr>\<rparr>))
     else abind (link_by_id (fs_lab sp) (ft_link_id t)) (\<lambda>l. aret (sp\<lparr>fs_target := t\<lparr>ft_kind := ''link'', ft_link_name := link_name l\<rparr>\<rparr>)))"

definition check_impairment :: "impairment option \<Rightarrow> fault_error + unit" where
  "check_impairment o' = (case o' of None \<Rightarrow> Inl EmptyImpairment
   | Some m \<Rightarrow> if im_delay m = 0 \<and> im_loss m = 0 \<and> im_rate m = 0 then Inl EmptyImpairment
       else if im_delay m < 0 \<or> im_jitter m < 0 \<or> im_rate m < 0 then Inl NegativeImpairment
       else if im_loss m < 0 \<or> im_loss m > 100 then Inl LossOutOfRange
       else if im_jitter m > 0 \<and> im_delay m = 0 then Inl JitterWithoutDelay else Inr ())"

definition check_fault_shape :: "fault_spec \<Rightarrow> fault_error + unit" where
  "check_fault_shape sp = (let t = fs_type sp; side = ft_side (fs_target sp) in
     if t \<noteq> impaired \<and> fs_impairment sp \<noteq> None then Inl ImpairmentNotAllowed
     else if targets_node t then (if side \<noteq> [] then Inl SideNotAllowed else Inr ())
     else if t = link_down then (if side \<noteq> [] \<and> side \<noteq> ''both'' then Inl LinkDownSide else Inr ())
     else if t = interface_down then (if side \<noteq> ''a'' \<and> side \<noteq> ''b'' then Inl InterfaceDownSide else Inr ())
     else if t = impaired then (if side \<notin> {''a'', ''b'', ''both'', []} then Inl (BadSide side) else check_impairment (fs_impairment sp))
     else Inr ())"

definition new_fault :: "nat \<Rightarrow> string \<Rightarrow> string \<Rightarrow> fault_spec \<Rightarrow> fault" where
  "new_fault now i nm sp = \<lparr>fa_meta = \<lparr>meta_id = i, meta_name = nm, generation = 0, observed_generation = 0, phase = PhaseUnset, last_error = None, created_at = now, updated_at = now\<rparr>,
     fa_spec = sp, fa_status = \<lparr>fa_applied = False, fa_since = 0, fa_error = []\<rparr>\<rparr>"

definition draw_fault_id :: "fault_env \<Rightarrow> string faulty" where
  "draw_fault_id x w = (Inr (new_id ''fault'' (fe_draw x (fw_drawn w))), w\<lparr>fw_drawn := Suc (fw_drawn w)\<rparr>)"

definition create_fault :: "fault_env \<Rightarrow> string \<Rightarrow> string \<Rightarrow> fault_spec \<Rightarrow> fault faulty" where
  "create_fault x lid nm sp = abind (aguard (fault_name_ok nm) BadFaultName) (\<lambda>_. abind (alift (check_fault_type (fs_type sp))) (\<lambda>_.
     abind (resolve_target (sp\<lparr>fs_lab := lid\<rparr>)) (\<lambda>sp'. abind (alift (check_fault_shape sp')) (\<lambda>_. abind fault_now (\<lambda>now.
     abind (draw_fault_id x) (\<lambda>i. let s = new_fault now i nm sp' in abind (insert_fault s) (\<lambda>_. aret s)))))))"

section \<open>Applying\<close>

definition same_target :: "fault \<Rightarrow> fault \<Rightarrow> bool" where
  "same_target s t \<longleftrightarrow> (let a = fs_target (fa_spec s); b = fs_target (fa_spec t) in
     ft_node_id a \<noteq> [] \<and> ft_node_id b = ft_node_id a \<or> ft_link_id a \<noteq> [] \<and> ft_link_id b = ft_link_id a)"

definition check_target_free :: "fault \<Rightarrow> unit faulty" where
  "check_target_free s = abind (list_faults (fs_lab (fa_spec s))) (\<lambda>ts.
     case find (\<lambda>t. \<not> (fault_id t = fault_id s \<or> \<not> applied t) \<and> same_target s t) ts of
       Some t \<Rightarrow> afail (TargetFaulted (meta_name (fa_meta t))) | None \<Rightarrow> aret ())"

definition fault_ends :: "link \<Rightarrow> string \<Rightarrow> string \<Rightarrow> endpoint list" where
  "fault_ends l t side = (if t = link_down then [end_a (l_spec l), end_b (l_spec l)]
     else if side = ''a'' then [end_a (l_spec l)] else if side = ''b'' then [end_b (l_spec l)] else [end_a (l_spec l), end_b (l_spec l)])"

definition inject_end :: "string \<Rightarrow> fault \<Rightarrow> endpoint \<Rightarrow> unit faulty" where
  "inject_end lab s ep = (if fs_type (fa_spec s) = impaired then (case fs_impairment (fa_spec s) of None \<Rightarrow> afail ImpairmentMissing
       | Some m \<Rightarrow> fpower [] (apply_impairment lab (ep_node ep) (ep_iface ep) m))
     else fpower [] (set_interface_state lab (ep_node ep) (ep_iface ep) False))"

definition recover_end :: "string \<Rightarrow> fault \<Rightarrow> endpoint \<Rightarrow> unit faulty" where
  "recover_end lab s ep = (if fs_type (fa_spec s) = impaired then fpower [] (clear_impairment lab (ep_node ep) (ep_iface ep))
     else fpower [] (set_interface_state lab (ep_node ep) (ep_iface ep) True))"

definition roll_back_ends :: "string \<Rightarrow> fault \<Rightarrow> endpoint list \<Rightarrow> unit faulty" where
  "roll_back_ends lab s = aeach (\<lambda>ep. abind (atry (recover_end lab s ep)) (\<lambda>_. aret ()))"

fun inject_ends :: "string \<Rightarrow> fault \<Rightarrow> endpoint list \<Rightarrow> endpoint list \<Rightarrow> unit faulty" where
  "inject_ends lab s did [] = aret ()"
| "inject_ends lab s did (ep # eps) = abind (atry (inject_end lab s ep)) (\<lambda>r. case r of
     Inl e \<Rightarrow> abind (roll_back_ends lab s did) (\<lambda>_. afail e)
   | Inr _ \<Rightarrow> inject_ends lab s (did @ [ep]) eps)"

definition inject_link_fault :: "lab \<Rightarrow> fault \<Rightarrow> unit faulty" where
  "inject_link_fault lb s = abind (link_by_id (meta_id (lab_meta lb)) (ft_link_id (fs_target (fa_spec s)))) (\<lambda>l.
     inject_ends (meta_name (lab_meta lb)) s [] (fault_ends l (fs_type (fa_spec s)) (ft_side (fs_target (fa_spec s)))))"

definition inject :: "lab \<Rightarrow> fault \<Rightarrow> bool faulty" where
  "inject lb s = (let t = fs_type (fa_spec s); lid = meta_id (lab_meta lb); nid = ft_node_id (fs_target (fa_spec s)) in
     if t = node_stop then abind (fpower ''stop node'' (stop_node lid nid)) (\<lambda>_. aret True)
     else if t = node_restart then abind (fpower ''restart node (stop)'' (stop_node lid nid)) (\<lambda>_.
       abind (fpower ''restart node (start)'' (start_node lid nid)) (\<lambda>_. aret False))
     else abind (inject_link_fault lb s) (\<lambda>_. aret True))"

definition after_apply :: "fault_env \<Rightarrow> nat \<Rightarrow> fault_error + bool \<Rightarrow> fault \<Rightarrow> fault" where
  "after_apply x now r s = s\<lparr>fa_status := (case r of Inl e \<Rightarrow> (fa_status s)\<lparr>fa_applied := False, fa_error := fe_text x e\<rparr>
     | Inr True \<Rightarrow> \<lparr>fa_applied = True, fa_since = now, fa_error = []\<rparr> | Inr False \<Rightarrow> (fa_status s)\<lparr>fa_applied := False, fa_error := []\<rparr>)\<rparr>"

definition apply_fault :: "fault_env \<Rightarrow> string \<Rightarrow> string \<Rightarrow> fault faulty" where
  "apply_fault x lid i = abind (get_fault lid i) (\<lambda>s. if applied s then aret s else
     abind (check_target_free s) (\<lambda>_. abind (fpower ''get lab'' (podb [] (get_lab lid))) (\<lambda>lb.
     if generation (lab_meta lb) = 0 then afail (FaultLabNotDeployed (meta_name (lab_meta lb))) else
     abind (atry (inject lb s)) (\<lambda>r. abind fault_now (\<lambda>now. abind (update_fault (after_apply x now r s)) (\<lambda>s'.
       case r of Inl e \<Rightarrow> afail e | Inr _ \<Rightarrow> aret s'))))))"

section \<open>Recovering, deleting, pruning\<close>

fun recover_ends :: "string \<Rightarrow> fault \<Rightarrow> endpoint list \<Rightarrow> fault_error list faulty" where
  "recover_ends lab s [] = aret []"
| "recover_ends lab s (ep # eps) = abind (atry (recover_end lab s ep)) (\<lambda>r. abind (recover_ends lab s eps) (\<lambda>es.
     aret (case r of Inl e \<Rightarrow> e # es | Inr _ \<Rightarrow> es)))"

definition recover_target :: "lab \<Rightarrow> fault \<Rightarrow> unit faulty" where
  "recover_target lb s = (if fs_type (fa_spec s) = node_stop then
       abind (fpower ''start node'' (start_node (meta_id (lab_meta lb)) (ft_node_id (fs_target (fa_spec s))))) (\<lambda>_. aret ())
     else abind (link_by_id (meta_id (lab_meta lb)) (ft_link_id (fs_target (fa_spec s)))) (\<lambda>l.
       abind (recover_ends (meta_name (lab_meta lb)) s (fault_ends l (fs_type (fa_spec s)) (ft_side (fs_target (fa_spec s))))) (\<lambda>es.
         if es = [] then aret () else afail (EndsNotRecovered es))))"

definition after_recover :: "fault_env \<Rightarrow> fault_error + unit \<Rightarrow> fault \<Rightarrow> fault" where
  "after_recover x r s = s\<lparr>fa_status := (case r of Inl e \<Rightarrow> (fa_status s)\<lparr>fa_applied := True, fa_error := fe_text x e\<rparr>
     | Inr _ \<Rightarrow> \<lparr>fa_applied = False, fa_since = 0, fa_error = []\<rparr>)\<rparr>"

definition recover_fault :: "fault_env \<Rightarrow> string \<Rightarrow> string \<Rightarrow> fault faulty" where
  "recover_fault x lid i = abind (get_fault lid i) (\<lambda>s. if \<not> applied s then (if fs_type (fa_spec s) = node_restart then afail NothingToRecover else aret s) else
     abind (fpower ''get lab'' (podb [] (get_lab lid))) (\<lambda>lb. abind (atry (recover_target lb s)) (\<lambda>r.
     abind (update_fault (after_recover x r s)) (\<lambda>s'. case r of Inl e \<Rightarrow> afail e | Inr _ \<Rightarrow> aret s'))))"

definition delete_fault :: "fault_env \<Rightarrow> string \<Rightarrow> string \<Rightarrow> unit faulty" where
  "delete_fault x lid i = abind (get_fault lid i) (\<lambda>s.
     abind (if applied s then abind (recover_fault x lid i) (\<lambda>_. aret ()) else aret ()) (\<lambda>_. delete_fault_row i))"

definition target_removed :: "string list \<Rightarrow> string list \<Rightarrow> fault \<Rightarrow> bool" where
  "target_removed nodes links s \<longleftrightarrow> (let t = fs_target (fa_spec s) in
     ft_kind t = ''node'' \<and> ft_node_name t \<in> set nodes \<or> ft_kind t = ''link'' \<and> ft_link_name t \<in> set links)"

definition prune_faults :: "string \<Rightarrow> string list \<Rightarrow> string list \<Rightarrow> unit faulty" where
  "prune_faults lid nodes links = abind (list_faults lid) (aeach (\<lambda>s. if target_removed nodes links s then delete_fault_row (fault_id s) else aret ()))"

end
