(* ===== verification/FaultProps.thy ===== *)
theory FaultProps
  imports Fault
begin

text \<open>
  Faults: a target has at most one applied fault, what a recovery restores, and a restart that fails halfway.
\<close>

section \<open>Calls\<close>

lemma abind_snd:
  assumes "\<And>e w1. m w = (Inl e, w1) \<Longrightarrow> P w1" "\<And>y w1. m w = (Inr y, w1) \<Longrightarrow> P (snd (f y w1))"
  shows "P (snd (abind m f w))"
  using assms by (cases "m w"; cases "fst (m w)") (auto simp: abind_def)

lemma fpower_ok: "fpower c m w = (Inr y, w') \<longleftrightarrow> (\<exists>pw. m (fw_power w) = (Inr y, pw) \<and> w' = w\<lparr>fw_power := pw\<rparr>)"
  by (auto simp: fpower_def emap_err_def split: prod.splits sum.splits)

lemma fault_call_ok: "fault_call c f w = (Inr y, w') \<Longrightarrow> f (fw_rows w) = Inr (y, fw_rows w') \<and> fw_power w' = fw_power w"
  by (auto simp: fault_call_def split: list.splits option.splits sum.splits)

lemma fault_call_error: "fault_call c f w = (Inl e, w') \<Longrightarrow> fw_rows w' = fw_rows w \<and> fw_power w' = fw_power w"
  by (auto simp: fault_call_def split: list.splits option.splits sum.splits)

text \<open>What leaves the scenarios as they are.\<close>

definition same_faults :: "fault_world \<Rightarrow> fault_world \<Rightarrow> bool" where
  "same_faults w w' \<longleftrightarrow> fw_rows w' = fw_rows w"

interpretation faults: call_frame same_faults
  by unfold_locales (auto simp: same_faults_def)

lemma fpower_frame [framed]: "faults.within (fpower c m)"
  by (auto simp: faults.within_def same_faults_def fpower_def split: prod.splits)

lemma fault_reads [framed]: "faults.within (read_fault i)" "faults.within (list_faults lid)" "faults.within fault_now" "faults.within (draw_fault_id x)"
proof -
  have "fw_rows (snd (fault_call c (\<lambda>t. ebind (f t) (\<lambda>y. Inr (y, t))) w)) = fw_rows w" for c and f :: "fault row list \<Rightarrow> store_error + 'b" and w
    by (cases "f (fw_rows w)") (auto simp: fault_call_def split: list.splits option.splits)
  note r = this
  show "faults.within (read_fault i)" by (simp add: faults.within_def same_faults_def read_fault_def r)
  show "faults.within (list_faults lid)"
    by (auto simp: faults.within_def same_faults_def list_faults_def fault_call_def split: list.splits option.splits)
  show "faults.within fault_now" "faults.within (draw_fault_id x)" by (simp_all add: faults.within_def same_faults_def fault_now_def aget_def draw_fault_id_def)
qed

lemma end_frames [framed]: "faults.within (recover_end lab s ep)" "faults.within (inject_end lab s ep)" "faults.within (get_fault lid i)" "faults.within (link_by_id lid i)"
  unfolding recover_end_def inject_end_def get_fault_def link_by_id_def by (intro framed)+

lemma inject_ends_frame [framed]: "faults.within (inject_ends lab s did eps)"
proof (induction eps arbitrary: did)
  case Nil
  then show ?case by (auto intro: framed)
next
  case (Cons ep eps)
  show ?case unfolding inject_ends.simps roll_back_ends_def by (intro framed Cons.IH)
qed

lemma recover_ends_frame [framed]: "faults.within (recover_ends lab s eps)"
proof (induction eps)
  case Nil
  then show ?case by (auto intro: framed)
next
  case (Cons ep eps)
  show ?case unfolding recover_ends.simps by (intro framed Cons.IH)
qed

lemma action_frames [framed]:
  "faults.within (inject lb s)" "faults.within (recover_target lb s)" "faults.within (check_target_free s)" "faults.within (resolve_target sp)"
  unfolding inject_def inject_link_fault_def recover_target_def check_target_free_def resolve_target_def Let_def by (intro framed)+

section \<open>One fault per target\<close>

definition fault_ids_ok :: "fault_world \<Rightarrow> bool" where
  "fault_ids_ok w \<longleftrightarrow> distinct (map row_id (fw_rows w)) \<and> list_all (\<lambda>r. row_id r = fault_id (row_doc r) \<and> row_scope r = fs_lab (fa_spec (row_doc r))) (fw_rows w)"

definition one_per_target :: "fault_world \<Rightarrow> bool" where
  "one_per_target w \<longleftrightarrow> list_all (\<lambda>r. list_all (\<lambda>q. row_scope q = row_scope r \<and> row_id q \<noteq> row_id r \<and> applied (row_doc r) \<and> applied (row_doc q) \<longrightarrow>
     \<not> same_target (row_doc r) (row_doc q)) (fw_rows w)) (fw_rows w)"

definition faults_ok :: "fault_world \<Rightarrow> bool" where
  "faults_ok w \<longleftrightarrow> fault_ids_ok w \<and> one_per_target w"

lemma faults_ok_same: "same_faults w w' \<Longrightarrow> faults_ok w' = faults_ok w"
  by (simp add: faults_ok_def fault_ids_ok_def one_per_target_def same_faults_def)

lemma same_target_sym: "same_target s t \<Longrightarrow> same_target t s"
  by (auto simp: same_target_def Let_def)

lemma faults_ok_row:
  assumes "faults_ok w" "get_doc i (fw_rows w) = Inr s"
  shows "fault_id s = i" "\<exists>r \<in> set (fw_rows w). row_id r = i \<and> row_doc r = s \<and> row_scope r = fs_lab (fa_spec s)"
  using assms by (auto simp: faults_ok_def fault_ids_ok_def list_all_iff get_doc_def find_Some_iff split: option.splits)

lemma row_unique: "faults_ok w \<Longrightarrow> r \<in> set (fw_rows w) \<Longrightarrow> q \<in> set (fw_rows w) \<Longrightarrow> row_id r = row_id q \<Longrightarrow> r = q"
  by (auto simp: faults_ok_def fault_ids_ok_def distinct_map inj_on_def)

text \<open>A write keeps the rule if the scenario is not applied afterwards, or nothing else of its lab is applied to its target.\<close>

definition target_free :: "fault \<Rightarrow> fault_world \<Rightarrow> bool" where
  "target_free s w \<longleftrightarrow> (\<forall>q \<in> set (fw_rows w). row_scope q = fs_lab (fa_spec s) \<and> row_id q \<noteq> fault_id s \<and> applied (row_doc q) \<longrightarrow> \<not> same_target s (row_doc q))"

lemma update_fault_call:
  "update_fault s w = fault_call ''update fault scenario'' (\<lambda>t. ebind (update_doc (fault_id s) (touch_fault (po_now (fw_power w)) s) t) (\<lambda>t'. Inr (touch_fault (po_now (fw_power w)) s, t'))) w"
  by (simp add: update_fault_def fault_now_def aget_def abind_def)

lemma update_fault_ok:
  assumes "update_fault s w = (Inr s', w')"
  shows "s' = touch_fault (po_now (fw_power w)) s" "update_doc (fault_id s) s' (fw_rows w) = Inr (fw_rows w')" "fw_power w' = fw_power w"
  using fault_call_ok [OF assms [unfolded update_fault_call]] by (auto simp: ebind_eq_Inr)

lemma update_faults_ok:
  assumes ok: "faults_ok w" and s: "get_doc i (fw_rows w) = Inr s" and s': "fault_id s' = i" "fa_spec s' = fa_spec s"
    and free: "applied s' \<Longrightarrow> target_free s w" and u: "update_fault s' w = (r, w')"
  shows "faults_ok w'"
proof (cases r)
  case (Inl e)
  have "fw_rows w' = fw_rows w" using fault_call_error [OF u [unfolded Inl update_fault_call]] by simp
  then show ?thesis using ok faults_ok_same [of w w'] by (simp add: same_faults_def)
next
  case (Inr s2)
  let ?upd = "\<lambda>x. if row_id x = i then x\<lparr>row_doc := s2\<rparr> else x"
  note uo = update_fault_ok [OF u [unfolded Inr]]
  have "update_doc i s2 (fw_rows w) = Inr (fw_rows w')" and s2: "\<exists>now. s2 = touch_fault now s'" using uo(1,2) s'(1) by auto
  then have rows: "fw_rows w' = map ?upd (fw_rows w)" by (auto simp: update_doc_def split: if_splits)
  have d: "fault_id s2 = i" "fa_spec s2 = fa_spec s" "applied s2 = applied s'" using s2 s' by (auto simp: touch_fault_def)
  obtain r0 where r0: "r0 \<in> set (fw_rows w)" "row_id r0 = i" "row_doc r0 = s" "row_scope r0 = fs_lab (fa_spec s)" using faults_ok_row(2) [OF ok s] by blast
  have only: "q \<in> set (fw_rows w) \<Longrightarrow> row_id q = i \<Longrightarrow> q = r0" for q using row_unique [OF ok] r0 by metis
  have "map row_id (map ?upd (fw_rows w)) = map row_id (fw_rows w)" by simp
  then have "distinct (map row_id (fw_rows w'))" using ok unfolding rows faults_ok_def fault_ids_ok_def by metis
  moreover have "row_id (?upd q) = fault_id (row_doc (?upd q)) \<and> row_scope (?upd q) = fs_lab (fa_spec (row_doc (?upd q)))" if "q \<in> set (fw_rows w)" for q
    using that only [of q] r0 d ok by (cases "row_id q = i") (simp_all add: faults_ok_def fault_ids_ok_def list_all_iff)
  ultimately have ids: "fault_ids_ok w'" unfolding fault_ids_ok_def rows list_all_iff set_map by blast
  have same: "same_target s2 t = same_target s t" "same_target t s2 = same_target t s" for t using d(2) by (simp_all add: same_target_def)
  have new: "\<not> same_target s (row_doc q)" if "q \<in> set (fw_rows w)" "row_scope q = fs_lab (fa_spec s)" "row_id q \<noteq> i" "applied (row_doc q)" "applied s2" for q
    using free that d(3) faults_ok_row(1) [OF ok s] by (simp add: target_free_def)
  have "\<not> same_target (row_doc (?upd a)) (row_doc (?upd b))"
    if h: "a \<in> set (fw_rows w)" "b \<in> set (fw_rows w)" "row_scope (?upd b) = row_scope (?upd a)" "row_id (?upd b) \<noteq> row_id (?upd a)"
      "applied (row_doc (?upd a))" "applied (row_doc (?upd b))" for a b
  proof -
    consider "row_id a = i" "row_id b \<noteq> i" | "row_id a \<noteq> i" "row_id b = i" | "row_id a \<noteq> i" "row_id b \<noteq> i" using h(4) by (auto split: if_splits)
    then show ?thesis
    proof cases
      case 1
      then show ?thesis using h only [of a] r0 new [of b] same by simp
    next
      case 2
      then show ?thesis using h only [of b] r0 new [of a] same same_target_sym [of "row_doc a" s] by auto
    next
      case 3
      then show ?thesis using h ok by (simp add: faults_ok_def one_per_target_def list_all_iff)
    qed
  qed
  then have "one_per_target w'" unfolding one_per_target_def rows list_all_iff set_map by blast
  then show ?thesis using ids by (simp add: faults_ok_def)
qed

lemma get_fault_ok:
  assumes "get_fault lid i w = (Inr s, w')"
  shows "get_doc i (fw_rows w) = Inr s" "fs_lab (fa_spec s) = lid" "fw_rows w' = fw_rows w" "fw_power w' = fw_power w"
proof -
  have r: "read_fault i w = (Inr s, w')" "fs_lab (fa_spec s) = lid" using assms by (auto simp: get_fault_def split: if_splits)
  note c = fault_call_ok [OF r(1) [unfolded read_fault_def]]
  show "get_doc i (fw_rows w) = Inr s" "fs_lab (fa_spec s) = lid" "fw_rows w' = fw_rows w" "fw_power w' = fw_power w" using c r(2) by auto
qed

lemma check_target_free_ok:
  assumes "check_target_free s w = (Inr (), w')" "faults_ok w"
  shows "target_free s w" "fw_rows w' = fw_rows w" "fw_power w' = fw_power w"
proof -
  obtain ts w1 where 1: "list_faults (fs_lab (fa_spec s)) w = (Inr ts, w1)" and 2: "find (\<lambda>t. \<not> (fault_id t = fault_id s \<or> \<not> applied t) \<and> same_target s t) ts = None" "w' = w1"
    using assms(1) by (auto simp: check_target_free_def split: option.splits)
  note c = fault_call_ok [OF 1 [unfolded list_faults_def]]
  show "fw_rows w' = fw_rows w" "fw_power w' = fw_power w" using c 2(2) by auto
  have "ts = list_docs (fs_lab (fa_spec s)) (fw_rows w)" using c by auto
  then show "target_free s w" using 2(1) assms(2) unfolding target_free_def faults_ok_def fault_ids_ok_def
    by (auto simp: find_None_iff list_docs_def list_all_iff)
qed

lemma same_rows_facts: "fw_rows w' = fw_rows w \<Longrightarrow> faults_ok w' = faults_ok w" "fw_rows w' = fw_rows w \<Longrightarrow> target_free s w' = target_free s w"
  by (simp_all add: faults_ok_def fault_ids_ok_def one_per_target_def target_free_def)

lemma within_rows: "faults.within m \<Longrightarrow> m w = (r, w') \<Longrightarrow> fw_rows w' = fw_rows w"
  using faults.withinD [of m w r w'] by (simp add: same_faults_def)

lemma apply_fault_ok:
  assumes "faults_ok w"
  shows "faults_ok (snd (apply_fault x lid i w))"
  unfolding apply_fault_def
proof (rule abind_snd)
  fix e w1 assume "get_fault lid i w = (Inl e, w1)"
  then show "faults_ok w1" using within_rows [OF end_frames(3)] assms same_rows_facts(1) by metis
next
  fix s w1 assume g: "get_fault lid i w = (Inr s, w1)"
  note get = get_fault_ok [OF g]
  have ok1: "faults_ok w1" using same_rows_facts(1) [OF get(3)] assms by simp
  show "faults_ok (snd ((if applied s then aret s else
     abind (check_target_free s) (\<lambda>_. abind (fpower ''get lab'' (podb [] (get_lab lid))) (\<lambda>lb.
     if generation (lab_meta lb) = 0 then afail (FaultLabNotDeployed (meta_name (lab_meta lb))) else
     abind (atry (inject lb s)) (\<lambda>r. abind fault_now (\<lambda>now. abind (update_fault (after_apply x now r s)) (\<lambda>s'.
       case r of Inl e \<Rightarrow> afail e | Inr _ \<Rightarrow> aret s')))))) w1))"
  proof (cases "applied s")
    case True
    then show ?thesis using ok1 by simp
  next
    case False
    have "faults_ok (snd (abind (check_target_free s) (\<lambda>_. abind (fpower ''get lab'' (podb [] (get_lab lid))) (\<lambda>lb.
     if generation (lab_meta lb) = 0 then afail (FaultLabNotDeployed (meta_name (lab_meta lb))) else
     abind (atry (inject lb s)) (\<lambda>r. abind fault_now (\<lambda>now. abind (update_fault (after_apply x now r s)) (\<lambda>s'.
       case r of Inl e \<Rightarrow> afail e | Inr _ \<Rightarrow> aret s'))))) w1))"
    proof (rule abind_snd)
      fix e w2 assume "check_target_free s w1 = (Inl e, w2)"
      then show "faults_ok w2" using within_rows [OF action_frames(3)] ok1 same_rows_facts(1) by metis
    next
      fix y w2 assume c: "check_target_free s w1 = (Inr y, w2)"
      note free = check_target_free_ok [OF c [unfolded unit_eq [of y]] ok1]
      have w2: "faults_ok w2" "target_free s w2" "get_doc i (fw_rows w2) = Inr s" using same_rows_facts [OF free(2)] ok1 free(1,2) get(1,3) by simp_all
      show "faults_ok (snd (abind (fpower ''get lab'' (podb [] (get_lab lid))) (\<lambda>lb.
         if generation (lab_meta lb) = 0 then afail (FaultLabNotDeployed (meta_name (lab_meta lb))) else
         abind (atry (inject lb s)) (\<lambda>r. abind fault_now (\<lambda>now. abind (update_fault (after_apply x now r s)) (\<lambda>s'.
           case r of Inl e \<Rightarrow> afail e | Inr _ \<Rightarrow> aret s')))) w2))" (is "faults_ok (snd (abind ?get ?rest w2))")
      proof (rule abind_snd)
        fix e w3 assume "?get w2 = (Inl e, w3)"
        then show "faults_ok w3" using within_rows [OF fpower_frame] w2(1) same_rows_facts(1) by metis
      next
        fix lb w3 assume "?get w2 = (Inr lb, w3)"
        then have r3: "fw_rows w3 = fw_rows w2" by (rule within_rows [OF fpower_frame])
        obtain r w4 where inj: "inject lb s w3 = (r, w4)" by force
        have r4: "fw_rows w4 = fw_rows w2" using within_rows [OF action_frames(1) inj] r3 by simp
        let ?s = "after_apply x (po_now (fw_power w4)) r s"
        obtain u w5 where u: "update_fault ?s w4 = (u, w5)" by force
        have "faults_ok w5"
          by (rule update_faults_ok [OF _ _ _ _ _ u, of i s])
            (use w2 r4 same_rows_facts [OF r4] faults_ok_row(1) [OF w2(1,3)] in \<open>auto simp: after_apply_def\<close>)
        then show "faults_ok (snd (?rest lb w3))" using same_rows_facts(1) [OF r3] w2(1) inj u
          by (auto simp: abind_def atry_def fault_now_def aget_def split: sum.splits)
      qed
    qed
    then show ?thesis using False by simp
  qed
qed

text \<open>What keeps the rule.\<close>

definition keeps_rule :: "fault_world \<Rightarrow> fault_world \<Rightarrow> bool" where
  "keeps_rule w w' \<longleftrightarrow> (faults_ok w \<longrightarrow> faults_ok w')"

interpretation rule: call_frame keeps_rule
  by unfold_locales (auto simp: keeps_rule_def)

lemma rule_same: "faults.within m \<Longrightarrow> rule.within m"
  using faults_ok_same by (auto simp: faults.within_def rule.within_def keeps_rule_def)

lemmas rule_frames [framed] = fpower_frame [THEN rule_same] fault_reads [THEN rule_same] end_frames [THEN rule_same] action_frames [THEN rule_same]

lemma applied_target_free: "faults_ok w \<Longrightarrow> get_doc i (fw_rows w) = Inr s \<Longrightarrow> applied s \<Longrightarrow> target_free s w"
  using faults_ok_row [of w i s] by (auto simp: faults_ok_def one_per_target_def target_free_def list_all_iff)

lemma recover_fault_ok [framed]: "rule.within (recover_fault x lid i)"
  unfolding rule.within_def keeps_rule_def recover_fault_def
proof (intro allI impI, rule abind_snd)
  fix w e w1 assume "faults_ok w" "get_fault lid i w = (Inl e, w1)"
  then show "faults_ok w1" using within_rows [OF end_frames(3)] same_rows_facts(1) by metis
next
  fix w s w1 assume ok: "faults_ok w" and g: "get_fault lid i w = (Inr s, w1)"
  note get = get_fault_ok [OF g]
  have ok1: "faults_ok w1" using same_rows_facts(1) [OF get(3)] ok by simp
  let ?get = "fpower ''get lab'' (podb [] (get_lab lid))"
  let ?rest = "\<lambda>lb. abind (atry (recover_target lb s)) (\<lambda>r. abind (update_fault (after_recover x r s)) (\<lambda>s'. case r of Inl e \<Rightarrow> afail e | Inr _ \<Rightarrow> aret s'))"
  have "faults_ok (snd (abind ?get ?rest w1))" if on: "applied s"
  proof (rule abind_snd)
    fix e w2 assume "?get w1 = (Inl e, w2)"
    then show "faults_ok w2" using within_rows [OF fpower_frame] ok1 same_rows_facts(1) by metis
  next
    fix lb w2 assume "?get w1 = (Inr lb, w2)"
    then have r2: "fw_rows w2 = fw_rows w" using within_rows [OF fpower_frame] get(3) by metis
    obtain r w3 where rec: "recover_target lb s w2 = (r, w3)" by force
    have r3: "fw_rows w3 = fw_rows w" using within_rows [OF action_frames(2) rec] r2 by simp
    obtain u w4 where u: "update_fault (after_recover x r s) w3 = (u, w4)" by force
    have "faults_ok w4"
      by (rule update_faults_ok [OF _ _ _ _ _ u, of i s])
        (use ok get(1) r3 same_rows_facts [OF r3] faults_ok_row(1) [OF ok get(1)] applied_target_free [OF ok get(1) on] in \<open>simp_all add: after_recover_def\<close>)
    then show "faults_ok (snd (?rest lb w2))" using rec u by (auto simp: abind_def atry_def split: sum.splits)
  qed
  then show "faults_ok (snd ((if \<not> applied s then (if fs_type (fa_spec s) = node_restart then afail NothingToRecover else aret s) else abind ?get ?rest) w1))"
    using ok1 by simp
qed

lemma rule_call:
  assumes "\<And>t y t'. f t = Inr (y, t') \<Longrightarrow> faults_ok w \<Longrightarrow> fw_rows w = t \<Longrightarrow> faults_ok (w\<lparr>fw_rows := t'\<rparr>)"
  shows "keeps_rule w (snd (fault_call c f w))"
proof (cases "fault_call c f w")
  case (Pair r w')
  show ?thesis
  proof (cases r)
    case (Inl e)
    then show ?thesis using fault_call_error [of c f w e w'] Pair same_rows_facts(1) [of w' w] by (simp add: keeps_rule_def)
  next
    case (Inr y)
    then have f: "f (fw_rows w) = Inr (y, fw_rows w')" using fault_call_ok [of c f w y w'] Pair by simp
    have "faults_ok w \<Longrightarrow> faults_ok w'" using assms [OF f _ refl] by (simp add: faults_ok_def fault_ids_ok_def one_per_target_def)
    then show ?thesis using Pair by (simp add: keeps_rule_def)
  qed
qed

lemma delete_row_rule [framed]: "rule.within (delete_fault_row i)"
  unfolding rule.within_def delete_fault_row_def
proof (intro allI, rule rule_call)
  fix w t y t' assume "(if list_ex (\<lambda>r. row_id r = i) t then Inr ((), filter (\<lambda>r. row_id r \<noteq> i) t) else Inl RowMissing) = Inr (y, t')" "faults_ok w" "fw_rows w = t"
  then show "faults_ok (w\<lparr>fw_rows := t'\<rparr>)"
    by (auto simp: faults_ok_def fault_ids_ok_def one_per_target_def list_all_iff intro: distinct_map_filter split: if_splits)
qed

lemma insert_fault_rule: "\<not> applied s \<Longrightarrow> rule.within (insert_fault s)"
  unfolding rule.within_def insert_fault_def
proof (intro allI, rule rule_call)
  let ?r = "\<lparr>row_id = fault_id s, row_scope = fs_lab (fa_spec s), row_name = meta_name (fa_meta s), row_doc = s\<rparr>"
  fix w t y t' assume "\<not> applied s" "ebind (insert_row ?r t) (\<lambda>t'. Inr ((), t')) = Inr (y, t')" "faults_ok w" "fw_rows w = t"
  then show "faults_ok (w\<lparr>fw_rows := t'\<rparr>)"
    by (auto simp: faults_ok_def fault_ids_ok_def one_per_target_def list_all_iff insert_row_def list_ex_iff split: if_splits) blast
qed


section \<open>What calls do to the devices\<close>

lemma podb_ok: "podb c m w = (Inr y, w') \<longleftrightarrow> (\<exists>s. m (po_store w) = (Inr y, s) \<and> w' = w\<lparr>po_store := s\<rparr>)"
  by (auto simp: podb_def emap_err_def split: prod.splits sum.splits)

lemma device_call_ok:
  assumes "device_call eff ns w = (Inr y, w')"
  shows "po_devices w' = fold eff ns (po_devices w)" "po_store w' = po_store w"
  using assms by (auto simp: device_call_def split: list.splits driver_answer.splits)

text \<open>The tables a fault reads: labs, nodes and links.\<close>

definition same_tables :: "store \<Rightarrow> store \<Rightarrow> bool" where
  "same_tables s s' \<longleftrightarrow> t_labs s' = t_labs s \<and> t_nodes s' = t_nodes s \<and> t_links s' = t_links s"

lemma table_read_ok:
  "get_lab i s = (Inr lb, s') \<Longrightarrow> get_doc i (t_labs s) = Inr lb \<and> same_tables s s'"
  "list_nodes i s = (Inr ns, s') \<Longrightarrow> ns = list_docs i (t_nodes s) \<and> same_tables s s'"
  "list_links i s = (Inr ls, s') \<Longrightarrow> ls = list_docs i (t_links s) \<and> same_tables s s'"
  by (auto simp: get_lab_def list_nodes_def list_links_def db_call_Inr same_tables_def split: sum.splits)

definition end_fault :: "string \<Rightarrow> fault \<Rightarrow> endpoint \<Rightarrow> devices \<Rightarrow> devices" where
  "end_fault lab s ep = (if fs_type (fa_spec s) = impaired then set_qdisc lab (ep_iface ep) (fs_impairment (fa_spec s)) (ep_node ep) else set_up lab (ep_iface ep) False (ep_node ep))"

definition end_clear :: "string \<Rightarrow> fault \<Rightarrow> endpoint \<Rightarrow> devices \<Rightarrow> devices" where
  "end_clear lab s ep = (if fs_type (fa_spec s) = impaired then set_qdisc lab (ep_iface ep) None (ep_node ep) else set_up lab (ep_iface ep) True (ep_node ep))"

abbreviation devs :: "fault_world \<Rightarrow> devices" where "devs w \<equiv> po_devices (fw_power w)"

abbreviation tabs :: "fault_world \<Rightarrow> store" where "tabs w \<equiv> po_store (fw_power w)"

lemma inject_end_ok: "inject_end lab s ep w = (Inr y, w') \<Longrightarrow> devs w' = end_fault lab s ep (devs w) \<and> tabs w' = tabs w"
  using device_call_ok by (auto simp: inject_end_def end_fault_def apply_impairment_def set_interface_state_def fpower_ok split: if_splits option.splits)

lemma recover_end_ok: "recover_end lab s ep w = (Inr y, w') \<Longrightarrow> devs w' = end_clear lab s ep (devs w) \<and> tabs w' = tabs w"
  using device_call_ok by (auto simp: recover_end_def end_clear_def clear_impairment_def set_interface_state_def fpower_ok split: if_splits option.splits)

lemma inject_ends_ok: "inject_ends lab s did eps w = (Inr y, w') \<Longrightarrow> devs w' = fold (end_fault lab s) eps (devs w) \<and> tabs w' = tabs w"
proof (induction eps arbitrary: did w)
  case Nil
  then show ?case by simp
next
  case (Cons ep eps)
  obtain r w1 where 1: "inject_end lab s ep w = (r, w1)" and 2: "(case r of Inl e \<Rightarrow> abind (roll_back_ends lab s did) (\<lambda>_. afail e) | Inr _ \<Rightarrow> inject_ends lab s (did @ [ep]) eps) w1 = (Inr y, w')"
    using Cons.prems by (auto simp del: sum.case)
  obtain u where r: "r = Inr u" using 2 by (cases r) auto
  show ?case using Cons.IH [of "did @ [ep]" w1] 2 inject_end_ok [OF 1 [unfolded r]] by (simp add: r)
qed

lemma recover_ends_ok: "recover_ends lab s eps w = (Inr [], w') \<Longrightarrow> devs w' = fold (end_clear lab s) eps (devs w) \<and> tabs w' = tabs w"
proof (induction eps arbitrary: w)
  case Nil
  then show ?case by simp
next
  case (Cons ep eps)
  obtain r w1 es where 1: "recover_end lab s ep w = (r, w1)" and 2: "recover_ends lab s eps w1 = (Inr es, w')" and 3: "(case r of Inl e \<Rightarrow> e # es | Inr _ \<Rightarrow> es) = []"
    using Cons.prems by (auto simp del: sum.case)
  obtain u where r: "r = Inr u" using 3 by (cases r) auto
  show ?case using Cons.IH [of w1] 2 3 recover_end_ok [OF 1 [unfolded r]] by (simp add: r)
qed

definition ends_of :: "string \<Rightarrow> endpoint list \<Rightarrow> (string \<times> string \<times> string) set" where
  "ends_of lab eps = (\<lambda>ep. (lab, ep_node ep, ep_iface ep)) ` set eps"

lemma fold_set_up: "fold (\<lambda>ep. set_up lab (ep_iface ep) b (ep_node ep)) eps d = d\<lparr>dv_up := (\<lambda>k. if k \<in> ends_of lab eps then b else dv_up d k)\<rparr>"
  by (induction eps arbitrary: d) (auto simp: set_up_def ends_of_def fun_eq_iff)

lemma fold_set_qdisc: "fold (\<lambda>ep. set_qdisc lab (ep_iface ep) b (ep_node ep)) eps d = d\<lparr>dv_qdisc := (\<lambda>k. if k \<in> ends_of lab eps then b else dv_qdisc d k)\<rparr>"
  by (induction eps arbitrary: d) (auto simp: set_qdisc_def ends_of_def fun_eq_iff)

text \<open>The state a recovery restores.\<close>

definition ends_at_rest :: "string \<Rightarrow> endpoint list \<Rightarrow> devices \<Rightarrow> bool" where
  "ends_at_rest lab eps d \<longleftrightarrow> (\<forall>ep \<in> set eps. dv_up d (lab, ep_node ep, ep_iface ep) \<and> dv_qdisc d (lab, ep_node ep, ep_iface ep) = None)"

lemma clear_undoes_fault:
  assumes "ends_at_rest lab eps d"
  shows "fold (end_clear lab s) eps (fold (end_fault lab s) eps d) = d"
proof -
  have "(\<lambda>k. if k \<in> ends_of lab eps then True else dv_up d k) = dv_up d" "(\<lambda>k. if k \<in> ends_of lab eps then None else dv_qdisc d k) = dv_qdisc d"
    using assms by (auto simp: ends_at_rest_def ends_of_def fun_eq_iff)
  then show ?thesis by (cases "fs_type (fa_spec s) = impaired") (simp_all add: end_clear_def [abs_def] end_fault_def [abs_def] fold_set_up fold_set_qdisc cong: if_cong)
qed

end
