(* ===== verification/FaultRecovery.thy ===== *)
theory FaultRecovery
  imports FaultProps ProgramProps
begin

text \<open>
  What a recovery restores, for links and for nodes, and what it cannot restore.
\<close>

section \<open>Link faults\<close>

definition fault_link :: "store \<Rightarrow> lab \<Rightarrow> fault \<Rightarrow> link option" where
  "fault_link s lb f = find (\<lambda>l. meta_id (l_meta l) = ft_link_id (fs_target (fa_spec f))) (list_docs (meta_id (lab_meta lb)) (t_links s))"

definition ends_of_fault :: "link \<Rightarrow> fault \<Rightarrow> endpoint list" where
  "ends_of_fault l f = fault_ends l (fs_type (fa_spec f)) (ft_side (fs_target (fa_spec f)))"

lemma link_by_id_ok:
  assumes "link_by_id (meta_id (lab_meta lb)) (ft_link_id (fs_target (fa_spec f))) w = (Inr l, w')"
  shows "fault_link (tabs w) lb f = Some l" "devs w' = devs w" "same_tables (tabs w) (tabs w')"
proof -
  obtain ls s where 1: "list_links (meta_id (lab_meta lb)) (tabs w) = (Inr ls, s)" and 2: "w' = w\<lparr>fw_power := (fw_power w)\<lparr>po_store := s\<rparr>\<rparr>"
    "find (\<lambda>l. meta_id (l_meta l) = ft_link_id (fs_target (fa_spec f))) ls = Some l"
    using assms by (auto simp: link_by_id_def fpower_ok podb_ok split: option.splits)
  show "fault_link (tabs w) lb f = Some l" "devs w' = devs w" "same_tables (tabs w) (tabs w')" using table_read_ok(3) [OF 1] 2 by (auto simp: fault_link_def)
qed

lemma link_type: "\<not> targets_node t \<Longrightarrow> t \<noteq> node_stop \<and> t \<noteq> node_restart"
  by (auto simp: targets_node_def)

lemma inject_link_ok:
  assumes "inject lb f w = (Inr b, w')" "\<not> targets_node (fs_type (fa_spec f))"
  obtains l where "fault_link (tabs w) lb f = Some l" "devs w' = fold (end_fault (meta_name (lab_meta lb)) f) (ends_of_fault l f) (devs w)" "same_tables (tabs w) (tabs w')" "b"
proof -
  obtain l w1 where 1: "link_by_id (meta_id (lab_meta lb)) (ft_link_id (fs_target (fa_spec f))) w = (Inr l, w1)"
    and 2: "inject_ends (meta_name (lab_meta lb)) f [] (ends_of_fault l f) w1 = (Inr (), w')" "b"
    using assms(1) link_type [OF assms(2)] by (auto simp: inject_def inject_link_fault_def ends_of_fault_def Let_def)
  note a = link_by_id_ok [OF 1] and c = inject_ends_ok [OF 2(1)]
  show thesis using a c 2(2) that by simp
qed

lemma recover_link_ok:
  assumes "recover_target lb f w = (Inr y, w')" "\<not> targets_node (fs_type (fa_spec f))"
  obtains l where "fault_link (tabs w) lb f = Some l" "devs w' = fold (end_clear (meta_name (lab_meta lb)) f) (ends_of_fault l f) (devs w)" "same_tables (tabs w) (tabs w')"
proof -
  obtain l w1 where 1: "link_by_id (meta_id (lab_meta lb)) (ft_link_id (fs_target (fa_spec f))) w = (Inr l, w1)"
    and 2: "recover_ends (meta_name (lab_meta lb)) f (ends_of_fault l f) w1 = (Inr [], w')"
    using assms(1) link_type [OF assms(2)] by (auto simp: recover_target_def ends_of_fault_def split: if_splits)
  note a = link_by_id_ok [OF 1] and c = recover_ends_ok [OF 2]
  show thesis using a c that by simp
qed

section \<open>Requests that succeed\<close>

lemma case_ok: "(case r of Inl e \<Rightarrow> afail e | Inr _ \<Rightarrow> aret y) w = (Inr z, w') \<longleftrightarrow> (\<exists>b. r = Inr b) \<and> z = y \<and> w' = w"
  by (cases r) auto

lemma apply_steps_ok:
  assumes "apply_fault x lid i w = (Inr s', w')" "get_doc i (fw_rows w) = Inr s" "\<not> applied s" "faults_ok w"
  obtains lb b w1 w2 now where "get_doc lid (t_labs (tabs w)) = Inr lb" "same_tables (tabs w) (tabs w1)" "devs w1 = devs w" "inject lb s w1 = (Inr b, w2)"
    "s' = touch_fault now (after_apply x now (Inr b) s)" "get_doc i (fw_rows w') = Inr s'" "fw_power w' = fw_power w2"
proof -
  obtain s1 a where 1: "get_fault lid i w = (Inr s1, a)" and rest: "(if applied s1 then aret s1 else
     abind (check_target_free s1) (\<lambda>_. abind (fpower ''get lab'' (podb [] (get_lab lid))) (\<lambda>lb.
     if generation (lab_meta lb) = 0 then afail (FaultLabNotDeployed (meta_name (lab_meta lb))) else
     abind (atry (inject lb s1)) (\<lambda>r. abind fault_now (\<lambda>now. abind (update_fault (after_apply x now r s1)) (\<lambda>s'.
       case r of Inl e \<Rightarrow> afail e | Inr _ \<Rightarrow> aret s')))))) a = (Inr s', w')"
    using assms(1) unfolding apply_fault_def by (auto simp del: abind_ok simp: abind_def split: prod.splits sum.splits)
  note g = get_fault_ok [OF 1]
  have s1: "s1 = s" using g(1) assms(2) by simp
  have oka: "faults_ok a" using same_rows_facts(1) [OF g(3)] assms(4) by simp
  obtain c lb d r w2 where 2: "check_target_free s a = (Inr (), c)" and 3: "fpower ''get lab'' (podb [] (get_lab lid)) c = (Inr lb, d)"
    and 4: "inject lb s d = (r, w2)" and 5: "update_fault (after_apply x (po_now (fw_power w2)) r s) w2 = (Inr s', w')" and 6: "\<exists>b. r = Inr b"
    using rest assms(3) unfolding s1 by (auto simp: fault_now_def aget_def case_ok split: if_splits)
  obtain b where r: "r = Inr b" using 6 by blast
  note f = check_target_free_ok [OF 2 oka]
  obtain st where st: "get_lab lid (tabs c) = (Inr lb, st)" "d = c\<lparr>fw_power := (fw_power c)\<lparr>po_store := st\<rparr>\<rparr>" using 3 by (auto simp: fpower_ok podb_ok)
  note lab = table_read_ok(1) [OF st(1)]
  have rows: "fw_rows w2 = fw_rows w" using within_rows [OF action_frames(1) 4] within_rows [OF fpower_frame 3] f(2) g(3) by simp
  note u = update_fault_ok [OF 5]
  have id: "fault_id s = i" using faults_ok_row(1) [OF assms(4,2)] .
  show thesis
  proof (rule that)
    show "get_doc lid (t_labs (tabs w)) = Inr lb" "same_tables (tabs w) (tabs d)" "devs d = devs w" using lab st(2) f(3) g(4) by simp_all
    show "inject lb s d = (Inr b, w2)" using 4 r by simp
    show "s' = touch_fault (po_now (fw_power w2)) (after_apply x (po_now (fw_power w2)) (Inr b) s)" using u(1) r by simp
    show "get_doc i (fw_rows w') = Inr s'" using rows.get_put [OF u(2)] id by (simp add: after_apply_def)
    show "fw_power w' = fw_power w2" by (rule u(3))
  qed
qed

lemma recover_steps_ok:
  assumes "recover_fault x lid i w = (Inr s', w')" "get_doc i (fw_rows w) = Inr s" "applied s" "fault_id s = i"
  obtains lb w1 w2 now where "get_doc lid (t_labs (tabs w)) = Inr lb" "same_tables (tabs w) (tabs w1)" "devs w1 = devs w" "recover_target lb s w1 = (Inr (), w2)"
    "s' = touch_fault now (after_recover x (Inr ()) s)" "get_doc i (fw_rows w') = Inr s'" "fw_power w' = fw_power w2"
proof -
  obtain s1 a where 1: "get_fault lid i w = (Inr s1, a)" and rest: "(if \<not> applied s1 then (if fs_type (fa_spec s1) = node_restart then afail NothingToRecover else aret s1) else
     abind (fpower ''get lab'' (podb [] (get_lab lid))) (\<lambda>lb. abind (atry (recover_target lb s1)) (\<lambda>r.
     abind (update_fault (after_recover x r s1)) (\<lambda>s'. case r of Inl e \<Rightarrow> afail e | Inr _ \<Rightarrow> aret s')))) a = (Inr s', w')"
    using assms(1) unfolding recover_fault_def by (auto simp del: abind_ok simp: abind_def split: prod.splits sum.splits)
  note g = get_fault_ok [OF 1]
  have s1: "s1 = s" using g(1) assms(2) by simp
  obtain lb d r w2 where 3: "fpower ''get lab'' (podb [] (get_lab lid)) a = (Inr lb, d)"
    and 4: "recover_target lb s d = (r, w2)" and 5: "update_fault (after_recover x r s) w2 = (Inr s', w')" and 6: "\<exists>b. r = Inr b"
    using rest assms(3) unfolding s1 by (auto simp: case_ok)
  have r: "r = Inr ()" using 6 by auto
  obtain st where st: "get_lab lid (tabs a) = (Inr lb, st)" "d = a\<lparr>fw_power := (fw_power a)\<lparr>po_store := st\<rparr>\<rparr>" using 3 by (auto simp: fpower_ok podb_ok)
  note lab = table_read_ok(1) [OF st(1)]
  note u = update_fault_ok [OF 5]
  show thesis
  proof (rule that)
    show "get_doc lid (t_labs (tabs w)) = Inr lb" "same_tables (tabs w) (tabs d)" "devs d = devs w" using lab st(2) g(4) by simp_all
    show "recover_target lb s d = (Inr (), w2)" using 4 r by simp
    show "s' = touch_fault (po_now (fw_power w2)) (after_recover x (Inr ()) s)" using u(1) r by simp
    show "get_doc i (fw_rows w') = Inr s'" using rows.get_put [OF u(2)] assms(4) by (simp add: after_recover_def)
    show "fw_power w' = fw_power w2" by (rule u(3))
  qed
qed

text \<open>C38: A link fault that is applied and then recovered leaves all devices as they were, if the ends of the link were up and
  unshaped before; while it is applied, and only then, the scenario is stored as applied.\<close>
theorem link_fault_roundtrip:
  assumes "faults_ok w" "get_doc i (fw_rows w) = Inr s" "\<not> applied s" "\<not> targets_node (fs_type (fa_spec s))"
    and rest: "\<And>lb l. get_doc lid (t_labs (tabs w)) = Inr lb \<Longrightarrow> fault_link (tabs w) lb s = Some l \<Longrightarrow> ends_at_rest (meta_name (lab_meta lb)) (ends_of_fault l s) (devs w)"
    and "apply_fault x lid i w = (Inr s1, w1)" "recover_fault x lid i w1 = (Inr s2, w2)"
  shows "devs w2 = devs w \<and> get_doc i (fw_rows w1) = Inr s1 \<and> applied s1 \<and> get_doc i (fw_rows w2) = Inr s2 \<and> \<not> applied s2"
proof -
  obtain lb b a c now where A: "get_doc lid (t_labs (tabs w)) = Inr lb" "same_tables (tabs w) (tabs a)" "devs a = devs w" "inject lb s a = (Inr b, c)"
    "s1 = touch_fault now (after_apply x now (Inr b) s)" "get_doc i (fw_rows w1) = Inr s1" "fw_power w1 = fw_power c"
    by (rule apply_steps_ok [OF assms(6,2,3,1)])
  obtain l where L: "fault_link (tabs a) lb s = Some l" "devs c = fold (end_fault (meta_name (lab_meta lb)) s) (ends_of_fault l s) (devs a)" "same_tables (tabs a) (tabs c)" "b"
    by (rule inject_link_ok [OF A(4) assms(4)])
  have s1: "applied s1" "fault_id s1 = i" "fa_spec s1 = fa_spec s" using A(5) L(4) faults_ok_row(1) [OF assms(1,2)] by (simp_all add: touch_fault_def after_apply_def)
  have f: "fault_link (tabs w) lb s = Some l" using L(1) A(2) by (simp add: fault_link_def same_tables_def)
  have ends: "end_clear n s1 = end_clear n s" "ends_of_fault k s1 = ends_of_fault k s" "fault_link t k' s1 = fault_link t k' s" for n k t k'
    using s1(3) by (simp_all add: end_clear_def [abs_def] ends_of_fault_def fault_link_def)
  obtain lb' d e now' where R: "get_doc lid (t_labs (tabs w1)) = Inr lb'" "same_tables (tabs w1) (tabs d)" "devs d = devs w1" "recover_target lb' s1 d = (Inr (), e)"
    "s2 = touch_fault now' (after_recover x (Inr ()) s1)" "get_doc i (fw_rows w2) = Inr s2" "fw_power w2 = fw_power e"
    by (rule recover_steps_ok [OF assms(7) A(6) s1(1,2)])
  obtain l' where L': "fault_link (tabs d) lb' s1 = Some l'" "devs e = fold (end_clear (meta_name (lab_meta lb')) s1) (ends_of_fault l' s1) (devs d)" "same_tables (tabs d) (tabs e)"
    by (rule recover_link_ok [OF R(4)]) (use assms(4) s1(3) in auto)
  have lb: "lb' = lb" using R(1) A(1,2,7) L(3) by (simp add: same_tables_def)
  have "fault_link (tabs d) lb' s1 = fault_link (tabs w) lb s" using R(2) A(2,7) L(3) unfolding ends lb by (simp add: fault_link_def same_tables_def)
  then have l: "l' = l" using L'(1) f by simp
  have "devs w2 = fold (end_clear (meta_name (lab_meta lb)) s) (ends_of_fault l s) (fold (end_fault (meta_name (lab_meta lb)) s) (ends_of_fault l s) (devs w))"
    using L'(2) L(2) R(3,7) A(3,7) by (simp add: lb l ends)
  then have "devs w2 = devs w" using clear_undoes_fault [OF rest [OF A(1) f]] by simp
  then show ?thesis using A(6) R(5,6) s1(1) by (simp add: touch_fault_def after_recover_def)
qed

section \<open>Node faults\<close>

definition lab_rows_ok :: "store \<Rightarrow> bool" where
  "lab_rows_ok s \<longleftrightarrow> list_all (\<lambda>r. meta_id (lab_meta (row_doc r)) = row_id r) (t_labs s)"

lemma lab_row_id: "lab_rows_ok s \<Longrightarrow> get_doc i (t_labs s) = Inr lb \<Longrightarrow> meta_id (lab_meta lb) = i"
  by (auto simp: lab_rows_ok_def get_doc_def list_all_iff find_Some_iff split: option.splits)

definition lab_node :: "store \<Rightarrow> string \<Rightarrow> string \<Rightarrow> lab \<Rightarrow> node \<Rightarrow> bool" where
  "lab_node s lid nid lb n \<longleftrightarrow> get_doc lid (t_labs s) = Inr lb \<and> find (\<lambda>n. node_id n = nid) (list_docs lid (t_nodes s)) = Some n"

lemma lab_node_same: "same_tables s s' \<Longrightarrow> lab_node s' = lab_node s"
  by (auto simp: lab_node_def same_tables_def fun_eq_iff)

lemma deployed_lab_ok:
  assumes "deployed_lab lid w = (Inr (lb, ns), w')"
  shows "get_doc lid (t_labs (po_store w)) = Inr lb" "ns = list_docs lid (t_nodes (po_store w))" "same_tables (po_store w) (po_store w')" "po_devices w' = po_devices w" "po_driver w' = po_driver w"
proof -
  obtain s s' where 1: "get_lab lid (po_store w) = (Inr lb, s)" "list_nodes lid s = (Inr ns, s')" "w' = w\<lparr>po_store := s'\<rparr>"
    using assms by (auto simp: deployed_lab_def podb_ok split: if_splits)
  show "get_doc lid (t_labs (po_store w)) = Inr lb" "ns = list_docs lid (t_nodes (po_store w))" "same_tables (po_store w) (po_store w')" "po_devices w' = po_devices w" "po_driver w' = po_driver w"
    using table_read_ok(1) [OF 1(1)] table_read_ok(2) [OF 1(2)] 1(3) by (auto simp: same_tables_def)
qed

lemma switch_call: "(if on then start_nodes else stop_nodes) nm ns = device_call (set_running nm on) ns"
  by (simp add: start_nodes_def stop_nodes_def)

lemma power_node_ok:
  assumes "power_node lid nid on w = (Inr n', w')"
  obtains lb n where "lab_node (po_store w) lid nid lb n" "po_devices w' = set_running (meta_name (lab_meta lb)) on (node_name n) (po_devices w)"
    "phase (n_meta n') = power_phase on" "node_name n' = node_name n" "po_driver w' = tl (po_driver w)"
proof -
  obtain lb ns w1 n w2 w3 where 1: "deployed_lab lid w = (Inr (lb, ns), w1)" "find (\<lambda>n. node_id n = nid) ns = Some n"
    and 2: "device_call (set_running (meta_name (lab_meta lb)) on) [node_name n] w1 = (Inr (), w2)"
    and 3: "podb ''update node'' (update_node (po_now w2) (switched_node on n)) w2 = (Inr (), w3)"
    and 4: "n' = touch_node (po_now w2) (switched_node on n)" "po_devices w' = po_devices w3" "po_driver w' = po_driver w3"
    using assms by (auto simp: power_node_def aget_def switch_call Let_def reconcile_lab_phase_def try_write_def split del: if_split split: option.splits)
  note d = deployed_lab_ok [OF 1(1)]
  have "po_devices w2 = set_running (meta_name (lab_meta lb)) on (node_name n) (po_devices w1)" "po_driver w2 = tl (po_driver w1)"
    using 2 by (auto simp: device_call_def split: list.splits driver_answer.splits)
  moreover have "po_devices w3 = po_devices w2" "po_driver w3 = po_driver w2" using 3 by (auto simp: podb_ok)
  ultimately show thesis using that [of lb n] d 1(2) 4 by (simp add: lab_node_def touch_node_def switched_node_def)
qed

text \<open>C39: A node fault that is recovered leaves its node running and changes no other device, whatever the state of the node was. A
  node that had been stopped before the fault runs afterwards: the state before a fault is not what is restored.\<close>
theorem recovered_node_runs:
  assumes "recover_fault x lid i w = (Inr s', w')" "get_doc i (fw_rows w) = Inr s" "applied s" "faults_ok w" "fs_type (fa_spec s) = node_stop" "lab_rows_ok (tabs w)"
  shows "\<exists>lb n. lab_node (tabs w) lid (ft_node_id (fs_target (fa_spec s))) lb n \<and> devs w' = set_running (meta_name (lab_meta lb)) True (node_name n) (devs w) \<and>
    get_doc i (fw_rows w') = Inr s' \<and> \<not> applied s'"
proof -
  obtain lb w1 w2 now where R: "get_doc lid (t_labs (tabs w)) = Inr lb" "same_tables (tabs w) (tabs w1)" "devs w1 = devs w" "recover_target lb s w1 = (Inr (), w2)"
    "s' = touch_fault now (after_recover x (Inr ()) s)" "get_doc i (fw_rows w') = Inr s'" "fw_power w' = fw_power w2"
    by (rule recover_steps_ok [OF assms(1-3) faults_ok_row(1) [OF assms(4,2)]])
  have id: "meta_id (lab_meta lb) = lid" by (rule lab_row_id [OF assms(6) R(1)])
  obtain m pw where p: "power_node lid (ft_node_id (fs_target (fa_spec s))) True (fw_power w1) = (Inr m, pw)" "w2 = w1\<lparr>fw_power := pw\<rparr>"
    using R(4) assms(5) by (auto simp: recover_target_def fpower_ok start_node_def id)
  obtain lb' n where n: "lab_node (tabs w1) lid (ft_node_id (fs_target (fa_spec s))) lb' n" "po_devices pw = set_running (meta_name (lab_meta lb')) True (node_name n) (devs w1)"
    by (rule power_node_ok [OF p(1)])
  have "\<not> applied s'" using R(5) by (simp add: touch_fault_def after_recover_def)
  then show ?thesis using n lab_node_same [OF R(2)] R(3,6,7) p(2) by auto
qed

definition effectless :: "driver_answer list \<Rightarrow> bool" where
  "effectless as \<longleftrightarrow> list_all (\<lambda>a. case a of DriverErr did _ \<Rightarrow> did = [] | DriverOk \<Rightarrow> True) as"

lemma podb_error: "podb c m w = (Inl e, w') \<Longrightarrow> (\<exists>d. e = PowerStore c d) \<and> po_devices w' = po_devices w"
  by (auto simp: podb_def emap_err_def split: prod.splits sum.splits)

lemma abind_error:
  assumes "abind m f w = (Inl e, w')"
  obtains (first) "m w = (Inl e, w')" | (second) y w1 where "m w = (Inr y, w1)" "f y w1 = (Inl e, w')"
  using assms by (auto simp: abind_def split: prod.splits sum.splits)

lemma power_node_error:
  assumes "power_node lid nid on w = (Inl (DeviceFailed m), w')" "effectless (po_driver w)"
  shows "po_devices w' = po_devices w"
  using assms(1) unfolding power_node_def
proof (cases rule: abind_error)
  case first
  have False using first unfolding deployed_lab_def
    by (cases rule: abind_error) (auto dest: podb_error simp: afail_def aret_def split: if_splits elim!: abind_error)
  then show ?thesis ..
next
  case (second y w1)
  obtain lb ns where y: "y = (lb, ns)" by force
  note d = deployed_lab_ok [OF second(1) [unfolded y]]
  obtain n where "find (\<lambda>n. node_id n = nid) ns = Some n" and r: "abind ((if on then start_nodes else stop_nodes) (meta_name (lab_meta lb)) [node_name n]) (\<lambda>_.
       abind (aget po_now) (\<lambda>now. abind (podb ''update node'' (update_node now (switched_node on n))) (\<lambda>_.
       let n' = touch_node now (switched_node on n) in
       abind (reconcile_lab_phase lb (map (\<lambda>m. if node_id m = nid then n' else m) ns)) (\<lambda>_. aret n')))) w1 = (Inl (DeviceFailed m), w')"
    using second(2) y by (auto simp: afail_def split: option.splits)
  from r show ?thesis
  proof (cases rule: abind_error)
    case first
    then show ?thesis using assms(2) d(4,5)
      by (cases "po_driver w") (auto simp: start_nodes_def stop_nodes_def device_call_def effectless_def split: if_splits driver_answer.splits)
  next
    case (second z w2)
    have "abind (podb ''update node'' (update_node (po_now w2) (switched_node on n))) (\<lambda>_.
       let n' = touch_node (po_now w2) (switched_node on n) in
       abind (reconcile_lab_phase lb (map (\<lambda>m. if node_id m = nid then n' else m) ns)) (\<lambda>_. aret n')) w2 = (Inl (DeviceFailed m), w')"
      using second(2) by (simp add: abind_def aget_def)
    then have False by (cases rule: abind_error) (auto dest: podb_error simp: Let_def abind_def aret_def reconcile_lab_phase_def)
    then show ?thesis ..
  qed
qed

lemma fpower_error: "fpower c m w = (Inl e, w') \<Longrightarrow> \<exists>d pw. e = FaultCall c d \<and> m (fw_power w) = (Inl d, pw) \<and> w' = w\<lparr>fw_power := pw\<rparr>"
  by (auto simp: fpower_def emap_err_def split: prod.splits sum.splits)

lemma fault_call_text: "fault_call c f w = (Inl e, w') \<Longrightarrow> \<exists>d. e = FaultStore c d"
  by (auto simp: fault_call_def split: list.splits option.splits sum.splits)

lemma inject_restart_error:
  assumes "inject lb s w = (Inl (FaultCall ''restart node (start)'' (DeviceFailed m)), w')" "fs_type (fa_spec s) = node_restart"
    "lab_rows_ok (tabs w)" "get_doc lid (t_labs (tabs w)) = Inr lb" "effectless (po_driver (fw_power w))"
  obtains n where "lab_node (tabs w) lid (ft_node_id (fs_target (fa_spec s))) lb n" "devs w' = set_running (meta_name (lab_meta lb)) False (node_name n) (devs w)"
proof -
  let ?nid = "ft_node_id (fs_target (fa_spec s))"
  have id: "meta_id (lab_meta lb) = lid" by (rule lab_row_id [OF assms(3,4)])
  have "abind (fpower ''restart node (stop)'' (stop_node lid ?nid)) (\<lambda>_. abind (fpower ''restart node (start)'' (start_node lid ?nid)) (\<lambda>_. aret False)) w =
      (Inl (FaultCall ''restart node (start)'' (DeviceFailed m)), w')"
    using assms(1,2) by (simp add: inject_def Let_def id fault_types)
  then show thesis
  proof (cases rule: abind_error)
    case first
    then have False by (auto dest: fpower_error)
    then show ?thesis ..
  next
    case (second y w1)
    obtain pw where st: "power_node lid ?nid False (fw_power w) = (Inr y, pw)" "w1 = w\<lparr>fw_power := pw\<rparr>"
      using second(1) by (auto simp: fpower_ok stop_node_def)
    obtain lb' n where n: "lab_node (tabs w) lid ?nid lb' n" "po_devices pw = set_running (meta_name (lab_meta lb')) False (node_name n) (devs w)" "po_driver pw = tl (po_driver (fw_power w))"
      by (rule power_node_ok [OF st(1)])
    have lb: "lb' = lb" using n(1) assms(4) by (simp add: lab_node_def)
    have "fpower ''restart node (start)'' (start_node lid ?nid) w1 = (Inl (FaultCall ''restart node (start)'' (DeviceFailed m)), w')"
      using second(2) by (cases rule: abind_error) (auto simp: aret_def)
    then obtain pw' where s2: "power_node lid ?nid True pw = (Inl (DeviceFailed m), pw')" "w' = w1\<lparr>fw_power := pw'\<rparr>"
      using st(2) by (auto dest!: fpower_error simp: start_node_def)
    have "effectless (po_driver pw)" using assms(5) n(3) by (cases "po_driver (fw_power w)") (auto simp: effectless_def)
    note power_node_error [OF s2(1) this]
    then show ?thesis using that [of n] n s2(2) lb by simp
  qed
qed


section \<open>Runs\<close>

definition try_end :: "string \<Rightarrow> string \<Rightarrow> endpoint" where
  "try_end i nm = \<lparr>ep_id = i, ep_node = nm, ep_iface = ''eth1'', ep_addr = Prefix (V4 0) 31\<rparr>"

definition try_link :: link where
  "try_link = \<lparr>l_meta = fresh_meta ''k1'' ''s1-s2'', l_spec = \<lparr>l_lab = ''l'', kind = LinkFabric, l_vlan_id = 0, end_a = try_end ''n1'' ''s1'', end_b = try_end ''n2'' ''s2'', mtu = 1500\<rparr>,
     l_status = \<lparr>admin_up = True, oper_up = True\<rparr>\<rparr>"

definition try_fault :: "string \<Rightarrow> string \<Rightarrow> fault" where
  "try_fault i t = new_fault 0 i i \<lparr>fs_lab = ''l'', fs_target = \<lparr>ft_kind = [], ft_node_id = (if targets_node t then ''n1'' else []), ft_node_name = [],
     ft_link_id = (if targets_node t then [] else ''k1''), ft_link_name = [], ft_side = []\<rparr>, fs_type = t, fs_impairment = None\<rparr>"

definition try_faults :: "driver_answer list \<Rightarrow> fault_world" where
  "try_faults as = \<lparr>fw_power = \<lparr>po_store = (pw_store try_world)\<lparr>t_links := [try_row ''k1'' ''s1-s2'' try_link]\<rparr>, po_devices = \<lparr>dv_running = (\<lambda>_. True), dv_up = (\<lambda>_. True), dv_qdisc = (\<lambda>_. None)\<rparr>,
       po_driver = as, po_now = 7\<rparr>,
     fw_rows = [try_row ''f1'' ''f1'' (try_fault ''f1'' node_stop), try_row ''f2'' ''f2'' (try_fault ''f2'' node_restart), try_row ''f3'' ''f3'' (try_fault ''f3'' link_down)], fw_io = [], fw_drawn = 0\<rparr>"

definition try_fault_env :: fault_env where
  "try_fault_env = \<lparr>fe_text = (\<lambda>_. ''error''), fe_draw = (\<lambda>k. (k, 0))\<rparr>"

lemma try_faults_ok: "faults_ok (try_faults as)" "lab_rows_ok (tabs (try_faults as))"
  by (simp_all add: try_faults_def faults_ok_def fault_ids_ok_def one_per_target_def lab_rows_ok_def try_row_def try_fault_def new_fault_def try_world_def try_lab_def fresh_meta_def)


lemma try_fault_facts:
  "let a = apply_fault try_fault_env ''l'' ''f3'' (try_faults []); r = recover_fault try_fault_env ''l'' ''f3'' (snd a) in
     answered a \<and> answered r \<and> \<not> dv_up (devs (snd a)) (''dc'', ''s1'', ''eth1'')"
  by code_simp

theorem link_fault_roundtrip_witness:
  "let a = apply_fault try_fault_env ''l'' ''f3'' (try_faults []); r = recover_fault try_fault_env ''l'' ''f3'' (snd a) in
     \<not> dv_up (devs (snd a)) (''dc'', ''s1'', ''eth1'') \<and> devs (snd r) = devs (try_faults [])"
proof -
  let ?a = "apply_fault try_fault_env ''l'' ''f3'' (try_faults [])"
  let ?r = "recover_fault try_fault_env ''l'' ''f3'' (snd ?a)"
  have f: "answered ?a" "answered ?r" "\<not> dv_up (devs (snd ?a)) (''dc'', ''s1'', ''eth1'')" using try_fault_facts by (simp_all add: Let_def)
  obtain s1 where s1: "?a = (Inr s1, snd ?a)" using f(1) by (rule answered_obtain)
  obtain s2 where s2: "?r = (Inr s2, snd ?r)" using f(2) by (rule answered_obtain)
  have s: "get_doc ''f3'' (fw_rows (try_faults [])) = Inr (try_fault ''f3'' link_down)" "\<not> applied (try_fault ''f3'' link_down)" "\<not> targets_node (fs_type (fa_spec (try_fault ''f3'' link_down)))"
    by (simp_all add: try_faults_def get_doc_def try_row_def try_fault_def new_fault_def targets_node_def fault_types)
  have "ends_at_rest n es (devs (try_faults []))" for n es by (simp add: ends_at_rest_def try_faults_def)
  from link_fault_roundtrip [OF try_faults_ok(1) s this s1 s2] show ?thesis using f(3) by (simp add: Let_def)
qed

definition stopped_before :: fault_world where
  "stopped_before = snd (fpower [] (stop_node ''l'' ''n1'') (try_faults []))"

lemma try_stopped_facts:
  "let a = apply_fault try_fault_env ''l'' ''f1'' stopped_before; r = recover_fault try_fault_env ''l'' ''f1'' (snd a) in
     answered a \<and> answered r \<and> faults_ok (snd a) \<and> lab_rows_ok (tabs (snd a)) \<and> \<not> dv_running (devs stopped_before) (''dc'', ''s1'') \<and>
     (case get_doc ''f1'' (fw_rows (snd a)) of Inl _ \<Rightarrow> False | Inr s \<Rightarrow> applied s \<and> fs_type (fa_spec s) = node_stop) \<and> dv_running (devs (snd r)) (''dc'', ''s1'')"
  unfolding faults_ok_def fault_ids_ok_def one_per_target_def by code_simp

theorem recovered_node_runs_witness:
  "let a = apply_fault try_fault_env ''l'' ''f1'' stopped_before; r = recover_fault try_fault_env ''l'' ''f1'' (snd a) in
     \<not> dv_running (devs stopped_before) (''dc'', ''s1'') \<and> dv_running (devs (snd r)) (''dc'', ''s1'') \<and> (\<exists>(lb :: lab) (n :: node). devs (snd r) = set_running (meta_name (lab_meta lb)) True (node_name n) (devs (snd a)))"
proof -
  let ?a = "apply_fault try_fault_env ''l'' ''f1'' stopped_before"
  let ?r = "recover_fault try_fault_env ''l'' ''f1'' (snd ?a)"
  have f: "answered ?r" "faults_ok (snd ?a)" "lab_rows_ok (tabs (snd ?a))" "\<not> dv_running (devs stopped_before) (''dc'', ''s1'')" "dv_running (devs (snd ?r)) (''dc'', ''s1'')"
    using try_stopped_facts by (simp_all add: Let_def)
  obtain s where s: "get_doc ''f1'' (fw_rows (snd ?a)) = Inr s" "applied s" "fs_type (fa_spec s) = node_stop"
    using try_stopped_facts by (auto simp: Let_def split: sum.splits)
  obtain s2 where s2: "?r = (Inr s2, snd ?r)" using f(1) by (rule answered_obtain)
  from recovered_node_runs [OF s2 s(1,2) f(2) s(3) f(3)] show ?thesis unfolding Let_def using f(4,5) by blast
qed

definition late_start :: fault_world where
  "late_start = try_faults [DriverOk, DriverErr [] ''timeout'']"

lemma try_restart_facts:
  "let a = apply_fault try_fault_env ''l'' ''f2'' late_start in
     (case fst a of Inl e \<Rightarrow> e = FaultCall ''restart node (start)'' (DeviceFailed ''timeout'') | Inr _ \<Rightarrow> False) \<and> fw_io (snd a) = []"
  by code_simp


end
