(* ===== verification/LabPower.thy ===== *)
theory LabPower
  imports FaultRecovery StoreProps
begin

text \<open>
  The phase of a lab after one of its devices was powered on or off.
\<close>

section \<open>Tables\<close>

definition lab_names_ok :: "store \<Rightarrow> bool" where
  "lab_names_ok s \<longleftrightarrow> list_all (\<lambda>r. row_name r = meta_name (lab_meta (row_doc r))) (t_labs s) \<and> distinct (map row_name (t_labs s)) \<and> distinct (map row_id (t_labs s))"

definition node_rows_ok :: "store \<Rightarrow> bool" where
  "node_rows_ok s \<longleftrightarrow> list_all (\<lambda>r. row_id r = node_id (row_doc r)) (t_nodes s)"

lemma list_docs_put:
  assumes "update_doc i d t = Inr t'" "list_all (\<lambda>r. row_id r = f (row_doc r)) t"
  shows "list_docs lid t' = map (\<lambda>m. if f m = i then d else m) (list_docs lid t)"
proof -
  have t': "t' = map (\<lambda>x. if row_id x = i then x\<lparr>row_doc := d\<rparr> else x) t" using assms(1) by (auto simp: update_doc_def split: if_splits)
  show ?thesis unfolding t' by (rule list_docs_update) (use assms(2) in \<open>auto simp: list_all_iff\<close>)
qed

lemma update_lab_phase:
  assumes "get_doc lid (t_labs s) = Inr lb" "lab_rows_ok s" "lab_names_ok s" "t_io s = []"
  shows "\<exists>lb'. get_doc lid (t_labs (logged (update_lab now (lab_in_phase p lb)) s)) = Inr lb' \<and> phase (lab_meta lb') = p" "t_nodes (logged (update_lab now (lab_in_phase p lb)) s) = t_nodes s"
proof -
  obtain r where r: "r \<in> set (t_labs s)" "row_id r = lid" "row_doc r = lb" using assms(1) by (auto simp: get_doc_def find_Some_iff split: option.splits) (metis nth_mem)
  have id: "meta_id (lab_meta lb) = lid" by (rule lab_row_id [OF assms(2,1)])
  have nm: "row_name r = meta_name (lab_meta lb)" using assms(3) r by (auto simp: lab_names_ok_def list_all_iff)
  have "\<not> list_ex (\<lambda>q. row_id q \<noteq> lid \<and> row_name q = meta_name (lab_meta lb)) (t_labs s)"
    using assms(3) r nm by (auto simp: lab_names_ok_def list_ex_iff distinct_map inj_on_def)
  then have u: "logged (update_lab now (lab_in_phase p lb)) s = s\<lparr>t_labs := map (\<lambda>q. if row_id q = lid then q\<lparr>row_name := meta_name (lab_meta lb), row_doc := touch_lab now (lab_in_phase p lb)\<rparr> else q) (t_labs s)\<rparr>"
    using r(1,2) assms(4) id by (auto simp: logged_def update_lab_def db_call_def lab_in_phase_def list_ex_iff Let_def)
  have "find (\<lambda>q. row_id q = lid) (map (\<lambda>q. if row_id q = lid then q\<lparr>row_name := nm, row_doc := d\<rparr> else q) t) = map_option (\<lambda>q. q\<lparr>row_name := nm, row_doc := d\<rparr>) (find (\<lambda>q. row_id q = lid) t)"
    for nm d and t :: "lab row list" by (induction t) auto
  then show "\<exists>lb'. get_doc lid (t_labs (logged (update_lab now (lab_in_phase p lb)) s)) = Inr lb' \<and> phase (lab_meta lb') = p"
    using assms(1) unfolding u by (auto simp: get_doc_def touch_lab_def lab_in_phase_def split: option.splits)
  show "t_nodes (logged (update_lab now (lab_in_phase p lb)) s) = t_nodes s" by (simp add: u)
qed

text \<open>After a device is powered on or off the stored phase of the lab is the one its stored nodes give: running if none of them
  is stopped, stopped if all are, degraded otherwise; and the stored node has the phase that was asked for.\<close>
theorem lab_phase_follows_nodes:
  assumes "power_node lid nid on w = (Inr n', w')" "lab_rows_ok (po_store w)" "lab_names_ok (po_store w)" "node_rows_ok (po_store w)" "t_io (po_store w) = []"
  shows "\<exists>lb. get_doc lid (t_labs (po_store w')) = Inr lb \<and> phase (lab_meta lb) = phase_of_nodes (list_docs lid (t_nodes (po_store w'))) \<and>
    get_doc nid (t_nodes (po_store w')) = Inr n' \<and> phase (n_meta n') = power_phase on"
proof -
  obtain lb ns w1 n w2 w3 where 1: "deployed_lab lid w = (Inr (lb, ns), w1)" "find (\<lambda>n. node_id n = nid) ns = Some n"
    and 2: "device_call (set_running (meta_name (lab_meta lb)) on) [node_name n] w1 = (Inr (), w2)"
    and 3: "podb ''update node'' (update_node (po_now w2) (switched_node on n)) w2 = (Inr (), w3)"
    and 4: "n' = touch_node (po_now w2) (switched_node on n)" "w' = snd (reconcile_lab_phase lb (map (\<lambda>m. if node_id m = nid then n' else m) ns) w3)"
    using assms(1) by (auto simp: power_node_def aget_def switch_call Let_def reconcile_lab_phase_def split del: if_split split: option.splits)
  have io: "t_io (po_store w1) = []" using 1(1) assms(5) by (auto simp: deployed_lab_def podb_ok get_lab_def list_nodes_def db_call_Inr split: if_splits sum.splits)
  note d = deployed_lab_ok [OF 1(1)] and dc = device_call_ok [OF 2]
  have nid: "node_id n = nid" using 1(2) by (auto simp: find_Some_iff)
  have n': "node_id n' = nid" "phase (n_meta n') = power_phase on" by (simp_all add: 4(1) touch_node_def switched_node_def nid)
  obtain t where t: "update_doc nid n' (t_nodes (po_store w1)) = Inr t" and w3: "t_labs (po_store w3) = t_labs (po_store w1)" "t_nodes (po_store w3) = t" "t_io (po_store w3) = []"
    using 3 io nid dc(2) by (auto simp: podb_ok update_node_def db_call_Inr 4(1) switched_node_def ebind_eq_Inr)
  have docs: "list_docs lid t = map (\<lambda>m. if node_id m = nid then n' else m) ns"
    using list_docs_put [OF t, of node_id lid] d(2,3) assms(4) by (simp add: node_rows_ok_def same_tables_def)
  have pre: "get_doc lid (t_labs (po_store w3)) = Inr lb" "lab_rows_ok (po_store w3)" "lab_names_ok (po_store w3)" "t_io (po_store w3) = []"
    using d(1,3) assms(2,3) io by (simp_all add: w3 same_tables_def lab_rows_ok_def lab_names_ok_def)
  have s: "po_store w' = logged (update_lab (po_now w3) (lab_in_phase (phase_of_nodes (list_docs lid t)) lb)) (po_store w3)"
    by (simp add: 4(2) reconcile_lab_phase_def try_write_def docs)
  note u = update_lab_phase [OF pre, of "po_now w3" "phase_of_nodes (list_docs lid t)"]
  show ?thesis using u(1) rows.get_put [OF t] n'(2) unfolding s u(2) by (simp add: w3)
qed

theorem lab_phase_follows_nodes_witness:
  "\<exists>n' lb. power_node ''l'' ''n1'' False (fw_power (try_faults [])) = (Inr n', snd (power_node ''l'' ''n1'' False (fw_power (try_faults [])))) \<and>
     get_doc ''l'' (t_labs (po_store (snd (power_node ''l'' ''n1'' False (fw_power (try_faults [])))))) = Inr lb \<and>
     phase (lab_meta lb) = phase_of_nodes (list_docs ''l'' (t_nodes (po_store (snd (power_node ''l'' ''n1'' False (fw_power (try_faults []))))))) \<and> phase (n_meta n') = PhaseStopped"
proof -
  let ?p = "power_node ''l'' ''n1'' False (fw_power (try_faults []))"
  have "answered ?p" by code_simp
  then obtain n' where n': "?p = (Inr n', snd ?p)" by (rule answered_obtain)
  have ok: "lab_rows_ok (tabs (try_faults []))" "lab_names_ok (tabs (try_faults []))" "node_rows_ok (tabs (try_faults []))" "t_io (tabs (try_faults [])) = []"
    using try_faults_ok(2) by (simp_all add: try_faults_def lab_names_ok_def node_rows_ok_def try_world_def try_row_def try_lab_def try_node_def fresh_meta_def)
  from lab_phase_follows_nodes [OF n' ok] obtain lb where "get_doc ''l'' (t_labs (po_store (snd ?p))) = Inr lb"
    "phase (lab_meta lb) = phase_of_nodes (list_docs ''l'' (t_nodes (po_store (snd ?p))))" "phase (n_meta n') = power_phase False" by blast
  then show ?thesis using n' by (auto simp: power_phase_def)
qed

end
