(* ===== verification/Spec2Isabelle.thy ===== *)
theory Spec2Isabelle
  imports IpamProps NetipParse Asn TopologyOwn TopologyProps ValidateProps CompilerProps Increment LabUsecase BgpProps
    StoreProps PlanRollback SupervisorSpecs LogTail AgentHost PackagesProps ProgramCreate TrafficWatchProps LabPower
begin

text \<open>
  DCNetLab: verification development.

  The program lets a user describe the shape of a data centre network (a lab), turns it into nodes, links,
  addresses and AS numbers, previews the difference to what is deployed as a plan, and applies a plan: it
  compiles Containerlab and FRR configurations, deploys them through a driver and validates that routing
  converges. All of it is the controller (controller/internal); an agent runs the containers, and a node agent
  inside the server containers (nodeapps) runs programs that the controller declares, installs from its package
  repository and keeps as desired state. On top of these, traffic scenarios drive load between two servers and fault
  scenarios break links and nodes. This development models the controller's core and the node agent's.

  Parts, theories and sources.

  Addresses. Netip and NetipParse are package net/netip of the standard library as the program uses it, SubnetStep and
  Ipam the address pools (allocator/ipam/ipam.go), Asn the AS numbers (allocator/asn/asn.go). Allocator
  states as a locale what both promise to their client, the topology builder, and is interpreted on both.
  IpamProps: runs of Allocate and Release never hand out overlapping subnets, a fresh pool counts through its
  CIDR and is exhausted after what Usage reports. Asn: numbers stay in the declared range, but for the
  wrap-around of the 32-bit counter at the end of the number space, which is a finding.

  Topology. Model holds the resources of internal/model; Topology is the builder (topology/builder.go,
  defaults.go, allocations.go), with the base that pins a deployed topology. TopologyInv gives the locale by
  which a property of the primitive operations becomes one of a build; TopologyLinks, TopologyBase and TopologyOwn
  interpret it. They show that endpoints name nodes of the result, that new links take free interfaces,
  that nodes and links share no address, and that what is deployed stays reserved.

  Compilers. Frr, Clab and Compiler are compiler/frr/frr.go, compiler/containerlab/containerlab.go and
  compiler/compiler.go. FrrProps, ClabProps and CompilerProps: sessions are configured on both sides, access ports
  are attached, a built topology compiles, every file stays in its directory and mounted files are written.
  Validate and ValidateProps are biz/validate.go: the sessions the validation waits for are the neighbors
  that are configured, and it ends when its deadline passes.

  Plans. PlanDiff (biz/plandiff.go) and Increment (biz/increment.go, internal/runtime/increment.go) compare a desired
  topology with the deployed one; PlanDiffProps and Increment show that the operations and the incremental
  artifact lead from the deployed to the desired topology. LabUsecase is biz/lab.go.

  The change flow. Store is the data layer (data/plan.go, topology.go, lab.go and the helpers of data.go) as lists
  of rows, with a queue \<open>t_io\<close> of the faults of the database; its locale \<open>doc_table\<close> is the contract of
  a table of documents. PlanUsecase is biz/plan.go: a request is a function on the store, a run of an
  operation one on a world of store, files and driver calls. PlanProps, PlanFlow, PlanRuns and PlanRollback: an applied
  plan becomes the lab's generation exactly as stored; a failed one leaves the generation and can be applied
  again; a plan is applied once and never redeploys a deployed lab; a rollback puts a retained generation
  back; a repair moves the lab's phase only; requests keep the store consistent. That the topology stored is
  one per lab, and so an older plan applies the newest plan's topology, is a theorem and a finding.

  Operations. Operation is operation/operation.go: the steps of a run, its progress and its error, and what a
  subscriber receives through its bounded channel.

  Decoders. Bgp is capture/bgp.go with the field tree of capture/decode.go. BgpProps: the reported byte ranges lie inside
  their parents and inside the payload, and the frames, prefixes and AS paths a speaker encodes are decoded.

  The node agent. Supervisor is nodeagent/manager.go and health.go: every critical section of the manager's mutex is
  one step on the manager, so that the interleavings of requests, supervising goroutines and probes are the sequences of
  steps (\<open>agent_steps\<close>). SupervisorProps, SupervisorRuns, SupervisorBounds and SupervisorSpecs: a program runs in at most one process,
  a cancelled run ends, restarts back off up to a bound, accepted definitions are well-formed and survive a boot;
  that a removal can lose a process is a theorem and a finding. LogTail is the tail of a log file, PackageStore and
  PackageStoreProps pkgstore.go: what is unpacked stays in its directory and below its bounds, and versions in use survive
  the collection. AgentHost composes them to the requests of the controller, each a sequence of steps; its locale
  \<open>program_host\<close> is what an agent promises about its programs.

  Packages and programs. Actions holds calls with errors on a state and the locale \<open>call_frame\<close>, by which what every call
  leaves alone becomes what a request leaves alone; it is interpreted for the agents that stay apart, the tables that are
  only read, the keys of the program rows, and the rows of traffic and fault scenarios. Packages and PackagesProps are
  biz/package.go with data/package.go. ProgramAgent is the client of the agents (data/agent.go) and the program rows,
  ProgramUsecase and ProgramOps are biz/program.go. \<open>pw_net\<close> is a queue of network faults, lost requests and lost
  replies; the retry loop of a restore runs against a clock (\<open>pw_pauses\<close>) and ends at its deadline.
  ProgramProps, ProgramRows, ProgramRestore and ProgramCreate: what started and upgraded programs do on their agent, that requests reach
  no other program, that names stay unique per server, and that a restore brings back what is desired.
  ProgramDemo is the lab on which the witnesses run.

  Traffic. Traffic is biz/traffic.go with data/traffic.go, over the program usecase; TrafficWatch is
  controller/internal/traffic, the collector of points. TrafficProps and TrafficWatchProps: what a start leaves, what pruning drops,
  what the windows hold; a stopped scenario cannot be started again, a sweep undoes a stop and success rates can
  leave their range, which are findings.

  Power and faults. PowerUsecase is biz/power.go on devices that the calls of the driver change as the interface in
  internal/runtime documents; a call that reports an error may have taken effect (\<open>DriverErr\<close>). Fault is biz/fault.go
  with data/fault.go. FaultProps, FaultRecovery and LabPower: a target has at most one applied fault, an applied and
  recovered link fault leaves the devices as they were, a recovered node runs, the phase of a lab follows
  its nodes; a failed restart cannot be recovered, which is a finding.

  Conventions. Go strings are lists of characters, \<open>int\<close> is \<open>int\<close>, fixed-width integers and address bytes are
  words, times are numbers of nanoseconds. Nil slices and empty ones are the same, nil pointers are \<open>None\<close>.
  An error return is \<open>Inl\<close>. The order in which a Go map is iterated, the clock, random identifiers, the
  operating system, the JSON and YAML libraries, the container runtime and the usecases that are not
  modelled are parameters. Mutexes make the methods they guard atomic. Error texts are constructors that keep the
  values the messages show.

  Bounds. The only fuel is in the parsers of net/netip texts and is the length of the text. The polling loop of the
  validation is \<open>partial_function (option)\<close>: that it returns once its deadline passes is proved. The loops of the
  builder, of the free pod names and of the decoders end by measures that are proved.

  Floating-point numbers (rates, percentages) are real numbers.

  Not modelled: the generated protobuf code; the API service and the servers (conversion and plumbing); the gRPC client
  driver and the agent of the data plane (command execution); the metrics and observer collectors (background polling of
  floating-point samples); the gRPC handlers, the metrics exporter and the command line of the node agent; capture
  sessions (goroutines around sockets and files); terminals and read-only views; the load generator. Of the
  usecases, reads that only pass a repository answer on are left out.
\<close>

end
